(* ===== verification/Prelude.thy ===== *)
theory Prelude
  imports Main "HOL-Library.Word"
begin

text \<open>
  Shared vocabulary of the development: the machine types of the Rust sources, the three-valued
  outcome of a Rust computation (a value, an \<open>Err\<close>, or a panic), big-endian reading and writing
  of integers as the \<open>bytes\<close> buffers do it, and the generic lemmas on words and lists that the
  component theories use.

  Conventions. A byte buffer (\<open>&[u8]\<close>, \<open>Bytes\<close>, \<open>BytesMut\<close>, a \<open>Cursor\<close> over one) is the
  list of its unread bytes; writing to a buffer is the list of the bytes appended. An unsigned
  \<open>uN\<close> is an \<open>N word\<close>. A \<open>usize\<close> that counts elements or bytes held in memory is a \<open>nat\<close>.
\<close>

unbundle bit_operations_syntax

section \<open>Types\<close>

type_synonym u8 = "8 word"
type_synonym u16 = "16 word"
type_synonym u32 = "32 word"
type_synonym u64 = "64 word"
type_synonym bytes = "u8 list"

text \<open>
  The outcome of a Rust function: \<open>Ok\<close> and \<open>Err\<close> of \<open>Result\<close>, and \<open>Panic\<close> for a failed
  \<open>assert!\<close>, an index out of range, an \<open>unwrap\<close> of \<open>None\<close> or an explicit \<open>panic!\<close>.
\<close>

datatype ('a, 'e) result = Ok 'a | Err 'e | Panic

text \<open>The \<open>?\<close> operator: go on with the value, pass an error (or a panic) up.\<close>

fun rbind :: "('a, 'e) result \<Rightarrow> ('a \<Rightarrow> ('b, 'e) result) \<Rightarrow> ('b, 'e) result" where
  "rbind (Ok x) f = f x"
| "rbind (Err e) f = Err e"
| "rbind Panic f = Panic"

text \<open>\<open>Result::map_err\<close>.\<close>

fun map_err :: "('e \<Rightarrow> 'f) \<Rightarrow> ('a, 'e) result \<Rightarrow> ('a, 'f) result" where
  "map_err f (Ok x) = Ok x"
| "map_err f (Err e) = Err (f e)"
| "map_err f Panic = Panic"

fun map_ok :: "('a \<Rightarrow> 'b) \<Rightarrow> ('a, 'e) result \<Rightarrow> ('b, 'e) result" where
  "map_ok f (Ok x) = Ok (f x)"
| "map_ok f (Err e) = Err e"
| "map_ok f Panic = Panic"

named_theorems codec_simps \<open>evaluation of byte-level encoders and decoders\<close>
named_theorems frame_simps \<open>definitional unfolding of the frame operations\<close>

lemma rbind_eq_Ok: "rbind m f = Ok y \<longleftrightarrow> (\<exists>x. m = Ok x \<and> f x = Ok y)"
  by (cases m) auto

lemma rbind_eq_Panic: "rbind m f = Panic \<longleftrightarrow> m = Panic \<or> (\<exists>x. m = Ok x \<and> f x = Panic)"
  by (cases m) auto

lemma rbind_eq_Err: "rbind m f = Err e \<longleftrightarrow> m = Err e \<or> (\<exists>x. m = Ok x \<and> f x = Err e)"
  by (cases m) auto

lemma map_err_eq_Ok [simp]: "map_err f m = Ok y \<longleftrightarrow> m = Ok y"
  by (cases m) auto

lemma map_err_eq_Panic [simp]: "map_err f m = Panic \<longleftrightarrow> m = Panic"
  by (cases m) auto

lemma map_ok_eq_Ok [simp]: "map_ok f m = Ok y \<longleftrightarrow> (\<exists>x. m = Ok x \<and> y = f x)"
  by (cases m) auto

lemma map_ok_eq_Panic [simp]: "map_ok f m = Panic \<longleftrightarrow> m = Panic"
  by (cases m) auto

section \<open>Big-endian integers\<close>

text \<open>\<open>BufMut::put_u16\<close> and \<open>BufMut::put_u32\<close>: the bytes appended, most significant first.\<close>

definition put_u16 :: "u16 \<Rightarrow> bytes" where
  "put_u16 w = [ucast (drop_bit 8 w), ucast w]"

definition put_u32 :: "u32 \<Rightarrow> bytes" where
  "put_u32 w = [ucast (drop_bit 24 w), ucast (drop_bit 16 w), ucast (drop_bit 8 w), ucast w]"

text \<open>\<open>BufMut::put_uint(n, 3)\<close>: the three low bytes of a \<open>u64\<close>, most significant first.\<close>

definition put_uint3 :: "u64 \<Rightarrow> bytes" where
  "put_uint3 w = [ucast (drop_bit 16 w), ucast (drop_bit 8 w), ucast w]"

definition be16 :: "u8 \<Rightarrow> u8 \<Rightarrow> u16" where
  "be16 a b = push_bit 8 (ucast a) OR ucast b"

definition be24 :: "u8 \<Rightarrow> u8 \<Rightarrow> u8 \<Rightarrow> u32" where
  "be24 a b c = push_bit 16 (ucast a) OR push_bit 8 (ucast b) OR ucast c"

definition be32 :: "u8 \<Rightarrow> u8 \<Rightarrow> u8 \<Rightarrow> u8 \<Rightarrow> u32" where
  "be32 a b c d =
     push_bit 24 (ucast a) OR push_bit 16 (ucast b) OR push_bit 8 (ucast c) OR ucast d"

lemma bit_be16: "bit (be16 a b) n \<longleftrightarrow>
    (if n < 8 then bit b n else if n < 16 then bit a (n - 8) else False)"
  by (auto simp: be16_def bit_simps dest: bit_imp_le_length)

lemma bit_be32: "bit (be32 a b c d) n \<longleftrightarrow>
    (if n < 8 then bit d n else if n < 16 then bit c (n - 8)
     else if n < 24 then bit b (n - 16) else if n < 32 then bit a (n - 24) else False)"
  by (auto simp: be32_def bit_simps dest: bit_imp_le_length)

lemma bit_be24: "bit (be24 a b c) n \<longleftrightarrow>
    (if n < 8 then bit c n else if n < 16 then bit b (n - 8)
     else if n < 24 then bit a (n - 16) else False)"
  by (auto simp: be24_def bit_simps dest: bit_imp_le_length)

lemma be16_put [codec_simps]: "be16 (ucast (drop_bit 8 w)) (ucast w) = w"
  by (rule bit_word_eqI) (auto simp: bit_be16 bit_simps)

lemma be32_put [codec_simps]:
  "be32 (ucast (drop_bit 24 w)) (ucast (drop_bit 16 w)) (ucast (drop_bit 8 w)) (ucast w) = w"
  by (rule bit_word_eqI) (auto simp: bit_be32 bit_simps)

lemma put_be16: "put_u16 (be16 a b) = [a, b]"
  unfolding put_u16_def by (simp, intro conjI; rule bit_word_eqI; auto simp: bit_be16 bit_simps)

lemma put_be32: "put_u32 (be32 a b c d) = [a, b, c, d]"
  unfolding put_u32_def by (simp, intro conjI; rule bit_word_eqI; auto simp: bit_be32 bit_simps)

lemma be24_put_uint3 [codec_simps]:
  "be24 (ucast (drop_bit 16 w)) (ucast (drop_bit 8 w)) (ucast w) = ucast (take_bit 24 (w :: u64))"
  by (rule bit_word_eqI) (auto simp: bit_be24 bit_simps)

lemma length_put_u32 [simp]: "length (put_u32 w) = 4"
  by (simp add: put_u32_def)

lemma length_put_u16 [simp]: "length (put_u16 w) = 2"
  by (simp add: put_u16_def)

lemma length_put_uint3 [simp]: "length (put_uint3 w) = 3"
  by (simp add: put_uint3_def)

section \<open>Words\<close>

text \<open>Clearing a bit that is clear changes nothing; the mask idiom of the sources.\<close>

lemma and_not_mask_id: "\<not> bit w n \<Longrightarrow> w AND NOT (push_bit n 1) = (w :: 'a :: len word)"
  by (rule bit_word_eqI) (auto simp: bit_simps)

lemma bit_and_not_mask: "\<not> bit (w AND NOT (push_bit n 1)) n" for w :: "'a :: len word"
  by (auto simp: bit_simps)

lemma word_eq_and_mask_iff_bit:
  "w AND push_bit n 1 = push_bit n (1 :: 'a :: len word) \<longleftrightarrow> bit w n \<or> LENGTH('a) \<le> n"
  by (auto simp: bit_simps intro!: bit_word_eqI dest: arg_cong [where f = "\<lambda>x. bit x n"])

lemma and_mask_eq_0_iff: "w AND push_bit n 1 = 0 \<longleftrightarrow> \<not> bit (w :: 'a :: len word) n"
proof -
  have "bit (w AND push_bit n 1) k \<longleftrightarrow> bit w n \<and> k = n" for k
    by (auto simp: bit_simps dest: bit_imp_le_length)
  then show ?thesis by (metis bit_0_eq bit_eqI bot_apply bot_bool_def)
qed

text \<open>Bytes compared bit by bit, to decide questions about masks of constants.\<close>

lemma u8_eq_iff_bits:
  "a = b \<longleftrightarrow> (bit a 0 \<longleftrightarrow> bit b 0) \<and> (bit a 1 \<longleftrightarrow> bit b 1) \<and> (bit a 2 \<longleftrightarrow> bit b 2) \<and> (bit a 3 \<longleftrightarrow> bit b 3)
     \<and> (bit a 4 \<longleftrightarrow> bit b 4) \<and> (bit a 5 \<longleftrightarrow> bit b 5) \<and> (bit a 6 \<longleftrightarrow> bit b 6) \<and> (bit a 7 \<longleftrightarrow> bit b 7)"
  for a b :: u8
proof -
  have "a = b \<longleftrightarrow> (\<forall>n < 8. bit a n \<longleftrightarrow> bit b n)" by (auto intro: bit_word_eqI)
  also have "\<dots> \<longleftrightarrow> (\<forall>n \<in> {0, 1, 2, 3, 4, 5, 6, 7}. bit a n \<longleftrightarrow> bit b n)"
    by (simp add: All_less_Suc numeral_eq_Suc) auto
  finally show ?thesis by simp
qed

section \<open>Lists\<close>

text \<open>\<open>slice::chunks(n)\<close>: consecutive pieces of length \<open>n\<close>, the last one possibly shorter.\<close>

function chunks :: "nat \<Rightarrow> 'a list \<Rightarrow> 'a list list" where
  "chunks n xs = (if xs = [] \<or> n = 0 then [] else take n xs # chunks n (drop n xs))"
  by pat_completeness auto
termination
  by (relation "measure (\<lambda>(n, xs). length xs)") (auto simp: neq_Nil_conv)

declare chunks.simps [simp del]

lemma chunks_Nil [simp]: "chunks n [] = []"
  by (simp add: chunks.simps)

lemma chunks_append: "length xs = n \<Longrightarrow> 0 < n \<Longrightarrow> chunks n (xs @ ys) = xs # chunks n ys"
  by (subst chunks.simps) auto

lemma length_chunks_exact:
  "n dvd length xs \<Longrightarrow> 0 < n \<Longrightarrow> c \<in> set (chunks n xs) \<Longrightarrow> length c = n"
proof (induction n xs rule: chunks.induct)
  case (1 n xs)
  show ?case
  proof (cases "xs = []")
    case False
    with "1.prems" have le: "n \<le> length xs" by (auto intro: dvd_imp_le)
    moreover from "1.prems" le have "n dvd length (drop n xs)" by simp
    ultimately show ?thesis
      using "1.IH" "1.prems" False by (auto simp: chunks.simps [of n xs])
  qed (use "1.prems" in simp)
qed

end
