(* ===== verification/Huffman_Check.thy ===== *)
theory Huffman_Check
  imports Huffman_Table
begin

text \<open>
  What the generated tables mean, checked entry by entry in the kernel. \<open>HUFF_STATES\<close> gives for each
  decoder state the bits read since the last complete symbol (their number and value) and a symbol
  whose code they properly begin; \<open>HUFF_ORDER\<close> lists the symbols by code, left-aligned. The results:
  every entry of \<open>DECODE_TABLE\<close> agrees with \<open>ENCODE_TABLE\<close> (\<open>decode_table_ok\<close>), the code is prefix-free
  and complete (\<open>code_intervals\<close>), and every decoder state is a proper prefix of a code
  (\<open>huff_states_ok\<close>).
\<close>

section \<open>Meaning of the decoder states\<close>

definition HUFF_STATES :: "(nat \<times> nat \<times> nat) list" where
  "HUFF_STATES = [
    (0, 0, 0), (1, 0, 32), (2, 0, 48), (3, 0, 48), (4, 0, 48), (4, 1, 50),
    (3, 1, 99), (4, 2, 99), (4, 3, 105), (2, 1, 32), (3, 2, 32), (4, 4, 115),
    (4, 5, 32), (5, 10, 32), (5, 11, 45), (3, 3, 47), (4, 6, 47), (5, 12, 47),
    (5, 13, 52), (4, 7, 54), (5, 14, 54), (5, 15, 56), (1, 1, 0), (2, 2, 58),
    (3, 4, 61), (4, 8, 61), (5, 16, 61), (5, 17, 95), (4, 9, 100), (5, 18, 100),
    (5, 19, 103), (3, 5, 58), (4, 10, 108), (5, 20, 108), (5, 21, 110), (4, 11, 58),
    (5, 22, 114), (5, 23, 58), (6, 46, 58), (6, 47, 67), (2, 3, 0), (3, 6, 69),
    (4, 12, 69), (5, 24, 69), (6, 48, 69), (6, 49, 71), (5, 25, 73), (6, 50, 73),
    (6, 51, 75), (4, 13, 77), (5, 26, 77), (6, 52, 77), (6, 53, 79), (5, 27, 81),
    (6, 54, 81), (6, 55, 83), (3, 7, 0), (4, 14, 85), (5, 28, 85), (6, 56, 85),
    (6, 57, 87), (5, 29, 106), (6, 58, 106), (6, 59, 113), (4, 15, 0), (5, 30, 119),
    (6, 60, 119), (6, 61, 121), (5, 31, 0), (6, 62, 38), (7, 124, 38), (7, 125, 44),
    (6, 63, 0), (7, 126, 88), (7, 127, 0), (8, 254, 33), (9, 508, 33), (9, 509, 40),
    (8, 255, 0), (9, 510, 39), (10, 1021, 39), (9, 511, 0), (10, 1022, 35), (11, 2045, 35),
    (10, 1023, 0), (11, 2046, 0), (12, 4092, 0), (12, 4093, 64), (11, 2047, 1), (12, 4094, 93),
    (12, 4095, 1), (13, 8190, 94), (13, 8191, 1), (14, 16382, 60), (14, 16383, 1), (15, 32767, 1),
    (16, 65534, 92), (17, 131068, 92), (18, 262136, 92), (18, 262137, 128), (19, 524275, 128), (17, 131069, 131),
    (18, 262138, 131), (19, 524276, 131), (19, 524277, 184), (18, 262139, 153), (19, 524278, 224), (19, 524279, 153),
    (20, 1048558, 153), (20, 1048559, 167), (16, 65535, 1), (17, 131070, 129), (18, 262140, 176), (19, 524280, 176),
    (20, 1048560, 176), (20, 1048561, 179), (19, 524281, 216), (20, 1048562, 216), (20, 1048563, 227), (18, 262141, 129),
    (19, 524282, 129), (20, 1048564, 129), (21, 2097129, 129), (20, 1048565, 133), (21, 2097130, 133), (21, 2097131, 136),
    (19, 524283, 154), (20, 1048566, 154), (21, 2097132, 154), (21, 2097133, 160), (20, 1048567, 164), (21, 2097134, 164),
    (21, 2097135, 170), (17, 131071, 1), (18, 262142, 1), (19, 524284, 178), (20, 1048568, 178), (21, 2097136, 178),
    (21, 2097137, 185), (20, 1048569, 187), (21, 2097138, 187), (21, 2097139, 190), (19, 524285, 1), (20, 1048570, 198),
    (21, 2097140, 198), (21, 2097141, 232), (20, 1048571, 1), (21, 2097142, 1), (22, 4194284, 1), (22, 4194285, 137),
    (21, 2097143, 139), (22, 4194286, 139), (22, 4194287, 141), (18, 262143, 2), (19, 524286, 147), (20, 1048572, 147),
    (21, 2097144, 147), (22, 4194288, 147), (22, 4194289, 150), (21, 2097145, 152), (22, 4194290, 152), (22, 4194291, 157),
    (20, 1048573, 165), (21, 2097146, 165), (22, 4194292, 165), (22, 4194293, 168), (21, 2097147, 175), (22, 4194294, 175),
    (22, 4194295, 182), (19, 524287, 2), (20, 1048574, 9), (21, 2097148, 188), (22, 4194296, 188), (22, 4194297, 197),
    (21, 2097149, 9), (22, 4194298, 9), (23, 8388597, 9), (22, 4194299, 144), (23, 8388598, 144), (23, 8388599, 148),
    (20, 1048575, 2), (21, 2097150, 171), (22, 4194300, 171), (23, 8388600, 171), (23, 8388601, 215), (22, 4194301, 199),
    (23, 8388602, 236), (23, 8388603, 199), (24, 16777206, 199), (24, 16777207, 234), (21, 2097151, 2), (22, 4194302, 192),
    (23, 8388604, 192), (24, 16777208, 192), (25, 33554416, 192), (25, 33554417, 200), (24, 16777209, 202), (25, 33554418, 202),
    (25, 33554419, 210), (23, 8388605, 203), (24, 16777210, 218), (25, 33554420, 218), (25, 33554421, 238), (24, 16777211, 203),
    (25, 33554422, 242), (25, 33554423, 203), (26, 67108847, 203), (22, 4194303, 2), (23, 8388606, 211), (24, 16777212, 211),
    (25, 33554424, 211), (26, 67108848, 211), (26, 67108849, 214), (25, 33554425, 222), (26, 67108850, 222), (26, 67108851, 241),
    (24, 16777213, 245), (25, 33554426, 245), (26, 67108852, 245), (26, 67108853, 247), (25, 33554427, 250), (26, 67108854, 250),
    (26, 67108855, 252), (23, 8388607, 2), (24, 16777214, 2), (25, 33554428, 2), (26, 67108856, 2), (27, 134217713, 2),
    (26, 67108857, 4), (27, 134217714, 4), (27, 134217715, 6), (25, 33554429, 8), (26, 67108858, 8), (27, 134217716, 8),
    (27, 134217717, 12), (26, 67108859, 15), (27, 134217718, 15), (27, 134217719, 17), (24, 16777215, 10), (25, 33554430, 19),
    (26, 67108860, 19), (27, 134217720, 19), (27, 134217721, 21), (26, 67108861, 24), (27, 134217722, 24), (27, 134217723, 26),
    (25, 33554431, 10), (26, 67108862, 28), (27, 134217724, 28), (27, 134217725, 30), (26, 67108863, 10), (27, 134217726, 127),
    (27, 134217727, 10), (28, 268435455, 10), (29, 536870910, 10), (29, 536870911, 22)]"

definition HUFF_ORDER :: "nat list" where
  "HUFF_ORDER = [
    48, 49, 50, 97, 99, 101, 105, 111, 115, 116, 32, 37, 45, 46, 47, 51, 52, 53,
    54, 55, 56, 57, 61, 65, 95, 98, 100, 102, 103, 104, 108, 109, 110, 112, 114, 117,
    58, 66, 67, 68, 69, 70, 71, 72, 73, 74, 75, 76, 77, 78, 79, 80, 81, 82,
    83, 84, 85, 86, 87, 89, 106, 107, 113, 118, 119, 120, 121, 122, 38, 42, 44, 59,
    88, 90, 33, 34, 40, 41, 63, 39, 43, 124, 35, 62, 0, 36, 64, 91, 93, 126,
    94, 125, 60, 96, 123, 92, 195, 208, 128, 130, 131, 162, 184, 194, 224, 226, 153, 161,
    167, 172, 176, 177, 179, 209, 216, 217, 227, 229, 230, 129, 132, 133, 134, 136, 146, 154,
    156, 160, 163, 164, 169, 170, 173, 178, 181, 185, 186, 187, 189, 190, 196, 198, 228, 232,
    233, 1, 135, 137, 138, 139, 140, 141, 143, 147, 149, 150, 151, 152, 155, 157, 158, 165,
    166, 168, 174, 175, 180, 182, 183, 188, 191, 197, 231, 239, 9, 142, 144, 145, 148, 159,
    171, 206, 215, 225, 236, 237, 199, 207, 234, 235, 192, 193, 200, 201, 202, 205, 210, 213,
    218, 219, 238, 240, 242, 243, 255, 203, 204, 211, 212, 214, 221, 222, 223, 241, 244, 245,
    246, 247, 248, 250, 251, 252, 253, 254, 2, 3, 4, 5, 6, 7, 8, 11, 12, 14,
    15, 16, 17, 18, 19, 20, 21, 23, 24, 25, 26, 27, 28, 29, 30, 31, 127, 220,
    249, 10, 13, 22, 256]"

text \<open>
  An entry read in a state with \<open>n\<close> pending bits of value \<open>v\<close>: the pending bits and the nibble make
  an end-of-string code (error), or the code of the decoded byte followed by the bits of the next
  state, or just the bits of the next state. The flag \<open>MAYBE_EOS\<close> marks the next states whose bits
  are one to seven ones.
\<close>

definition entry_ok :: "nat \<times> nat \<times> nat \<Rightarrow> nat \<Rightarrow> nat \<times> u8 \<times> u8 \<Rightarrow> bool" where
  "entry_ok st nib e =
     (case st of (n, v, _) \<Rightarrow> case e of (next, byte, flags) \<Rightarrow>
        if flags AND 4 = 4
        then 30 \<le> n + 4 \<and> (16 * v + nib) div 2 ^ (n + 4 - 30) = 2 ^ 30 - 1
        else next < 256 \<and> (case HUFF_STATES ! next of (n', v', _) \<Rightarrow>
          (if flags AND 2 = 2
           then (case ENCODE_TABLE ! unat byte of (k, c) \<Rightarrow>
                   n + 4 = k + n' \<and> 16 * v + nib = unat c * 2 ^ n' + v')
           else n + 4 = n' \<and> 16 * v + nib = v')
          \<and> (flags AND 1 = 1 \<longleftrightarrow> 0 < n' \<and> n' < 8 \<and> v' = 2 ^ n' - 1)))"

definition row_ok :: "nat \<times> nat \<times> nat \<Rightarrow> decode_row \<Rightarrow> bool" where
  "row_ok st row = list_all2 (entry_ok st) [0..<16] row"

section \<open>Lookups\<close>

lemma encode_table_nth_0:
  "ENCODE_TABLE ! 0 = (13, 0x1ff8)"
  "ENCODE_TABLE ! Suc 0 = (23, 0x7fffd8)"
  "ENCODE_TABLE ! 2 = (28, 0xfffffe2)"
  "ENCODE_TABLE ! 3 = (28, 0xfffffe3)"
  "ENCODE_TABLE ! 4 = (28, 0xfffffe4)"
  "ENCODE_TABLE ! 5 = (28, 0xfffffe5)"
  "ENCODE_TABLE ! 6 = (28, 0xfffffe6)"
  "ENCODE_TABLE ! 7 = (28, 0xfffffe7)"
  "ENCODE_TABLE ! 8 = (28, 0xfffffe8)"
  "ENCODE_TABLE ! 9 = (24, 0xffffea)"
  "ENCODE_TABLE ! 10 = (30, 0x3ffffffc)"
  "ENCODE_TABLE ! 11 = (28, 0xfffffe9)"
  "ENCODE_TABLE ! 12 = (28, 0xfffffea)"
  "ENCODE_TABLE ! 13 = (30, 0x3ffffffd)"
  "ENCODE_TABLE ! 14 = (28, 0xfffffeb)"
  "ENCODE_TABLE ! 15 = (28, 0xfffffec)"
  "ENCODE_TABLE ! 16 = (28, 0xfffffed)"
  "ENCODE_TABLE ! 17 = (28, 0xfffffee)"
  "ENCODE_TABLE ! 18 = (28, 0xfffffef)"
  "ENCODE_TABLE ! 19 = (28, 0xffffff0)"
  "ENCODE_TABLE ! 20 = (28, 0xffffff1)"
  "ENCODE_TABLE ! 21 = (28, 0xffffff2)"
  "ENCODE_TABLE ! 22 = (30, 0x3ffffffe)"
  "ENCODE_TABLE ! 23 = (28, 0xffffff3)"
  "ENCODE_TABLE ! 24 = (28, 0xffffff4)"
  "ENCODE_TABLE ! 25 = (28, 0xffffff5)"
  "ENCODE_TABLE ! 26 = (28, 0xffffff6)"
  "ENCODE_TABLE ! 27 = (28, 0xffffff7)"
  "ENCODE_TABLE ! 28 = (28, 0xffffff8)"
  "ENCODE_TABLE ! 29 = (28, 0xffffff9)"
  "ENCODE_TABLE ! 30 = (28, 0xffffffa)"
  "ENCODE_TABLE ! 31 = (28, 0xffffffb)"
  "ENCODE_TABLE ! 32 = (6, 0x14)"
  "ENCODE_TABLE ! 33 = (10, 0x3f8)"
  "ENCODE_TABLE ! 34 = (10, 0x3f9)"
  "ENCODE_TABLE ! 35 = (12, 0xffa)"
  "ENCODE_TABLE ! 36 = (13, 0x1ff9)"
  "ENCODE_TABLE ! 37 = (6, 0x15)"
  "ENCODE_TABLE ! 38 = (8, 0xf8)"
  "ENCODE_TABLE ! 39 = (11, 0x7fa)"
  "ENCODE_TABLE ! 40 = (10, 0x3fa)"
  "ENCODE_TABLE ! 41 = (10, 0x3fb)"
  "ENCODE_TABLE ! 42 = (8, 0xf9)"
  "ENCODE_TABLE ! 43 = (11, 0x7fb)"
  "ENCODE_TABLE ! 44 = (8, 0xfa)"
  "ENCODE_TABLE ! 45 = (6, 0x16)"
  "ENCODE_TABLE ! 46 = (6, 0x17)"
  "ENCODE_TABLE ! 47 = (6, 0x18)"
  "ENCODE_TABLE ! 48 = (5, 0x0)"
  "ENCODE_TABLE ! 49 = (5, 0x1)"
  "ENCODE_TABLE ! 50 = (5, 0x2)"
  "ENCODE_TABLE ! 51 = (6, 0x19)"
  "ENCODE_TABLE ! 52 = (6, 0x1a)"
  "ENCODE_TABLE ! 53 = (6, 0x1b)"
  "ENCODE_TABLE ! 54 = (6, 0x1c)"
  "ENCODE_TABLE ! 55 = (6, 0x1d)"
  "ENCODE_TABLE ! 56 = (6, 0x1e)"
  "ENCODE_TABLE ! 57 = (6, 0x1f)"
  "ENCODE_TABLE ! 58 = (7, 0x5c)"
  "ENCODE_TABLE ! 59 = (8, 0xfb)"
  "ENCODE_TABLE ! 60 = (15, 0x7ffc)"
  "ENCODE_TABLE ! 61 = (6, 0x20)"
  "ENCODE_TABLE ! 62 = (12, 0xffb)"
  "ENCODE_TABLE ! 63 = (10, 0x3fc)"
  by (simp_all add: ENCODE_TABLE_def)

lemma encode_table_nth_1:
  "ENCODE_TABLE ! 64 = (13, 0x1ffa)"
  "ENCODE_TABLE ! 65 = (6, 0x21)"
  "ENCODE_TABLE ! 66 = (7, 0x5d)"
  "ENCODE_TABLE ! 67 = (7, 0x5e)"
  "ENCODE_TABLE ! 68 = (7, 0x5f)"
  "ENCODE_TABLE ! 69 = (7, 0x60)"
  "ENCODE_TABLE ! 70 = (7, 0x61)"
  "ENCODE_TABLE ! 71 = (7, 0x62)"
  "ENCODE_TABLE ! 72 = (7, 0x63)"
  "ENCODE_TABLE ! 73 = (7, 0x64)"
  "ENCODE_TABLE ! 74 = (7, 0x65)"
  "ENCODE_TABLE ! 75 = (7, 0x66)"
  "ENCODE_TABLE ! 76 = (7, 0x67)"
  "ENCODE_TABLE ! 77 = (7, 0x68)"
  "ENCODE_TABLE ! 78 = (7, 0x69)"
  "ENCODE_TABLE ! 79 = (7, 0x6a)"
  "ENCODE_TABLE ! 80 = (7, 0x6b)"
  "ENCODE_TABLE ! 81 = (7, 0x6c)"
  "ENCODE_TABLE ! 82 = (7, 0x6d)"
  "ENCODE_TABLE ! 83 = (7, 0x6e)"
  "ENCODE_TABLE ! 84 = (7, 0x6f)"
  "ENCODE_TABLE ! 85 = (7, 0x70)"
  "ENCODE_TABLE ! 86 = (7, 0x71)"
  "ENCODE_TABLE ! 87 = (7, 0x72)"
  "ENCODE_TABLE ! 88 = (8, 0xfc)"
  "ENCODE_TABLE ! 89 = (7, 0x73)"
  "ENCODE_TABLE ! 90 = (8, 0xfd)"
  "ENCODE_TABLE ! 91 = (13, 0x1ffb)"
  "ENCODE_TABLE ! 92 = (19, 0x7fff0)"
  "ENCODE_TABLE ! 93 = (13, 0x1ffc)"
  "ENCODE_TABLE ! 94 = (14, 0x3ffc)"
  "ENCODE_TABLE ! 95 = (6, 0x22)"
  "ENCODE_TABLE ! 96 = (15, 0x7ffd)"
  "ENCODE_TABLE ! 97 = (5, 0x3)"
  "ENCODE_TABLE ! 98 = (6, 0x23)"
  "ENCODE_TABLE ! 99 = (5, 0x4)"
  "ENCODE_TABLE ! 100 = (6, 0x24)"
  "ENCODE_TABLE ! 101 = (5, 0x5)"
  "ENCODE_TABLE ! 102 = (6, 0x25)"
  "ENCODE_TABLE ! 103 = (6, 0x26)"
  "ENCODE_TABLE ! 104 = (6, 0x27)"
  "ENCODE_TABLE ! 105 = (5, 0x6)"
  "ENCODE_TABLE ! 106 = (7, 0x74)"
  "ENCODE_TABLE ! 107 = (7, 0x75)"
  "ENCODE_TABLE ! 108 = (6, 0x28)"
  "ENCODE_TABLE ! 109 = (6, 0x29)"
  "ENCODE_TABLE ! 110 = (6, 0x2a)"
  "ENCODE_TABLE ! 111 = (5, 0x7)"
  "ENCODE_TABLE ! 112 = (6, 0x2b)"
  "ENCODE_TABLE ! 113 = (7, 0x76)"
  "ENCODE_TABLE ! 114 = (6, 0x2c)"
  "ENCODE_TABLE ! 115 = (5, 0x8)"
  "ENCODE_TABLE ! 116 = (5, 0x9)"
  "ENCODE_TABLE ! 117 = (6, 0x2d)"
  "ENCODE_TABLE ! 118 = (7, 0x77)"
  "ENCODE_TABLE ! 119 = (7, 0x78)"
  "ENCODE_TABLE ! 120 = (7, 0x79)"
  "ENCODE_TABLE ! 121 = (7, 0x7a)"
  "ENCODE_TABLE ! 122 = (7, 0x7b)"
  "ENCODE_TABLE ! 123 = (15, 0x7ffe)"
  "ENCODE_TABLE ! 124 = (11, 0x7fc)"
  "ENCODE_TABLE ! 125 = (14, 0x3ffd)"
  "ENCODE_TABLE ! 126 = (13, 0x1ffd)"
  "ENCODE_TABLE ! 127 = (28, 0xffffffc)"
  by (simp_all add: ENCODE_TABLE_def)

lemma encode_table_nth_2:
  "ENCODE_TABLE ! 128 = (20, 0xfffe6)"
  "ENCODE_TABLE ! 129 = (22, 0x3fffd2)"
  "ENCODE_TABLE ! 130 = (20, 0xfffe7)"
  "ENCODE_TABLE ! 131 = (20, 0xfffe8)"
  "ENCODE_TABLE ! 132 = (22, 0x3fffd3)"
  "ENCODE_TABLE ! 133 = (22, 0x3fffd4)"
  "ENCODE_TABLE ! 134 = (22, 0x3fffd5)"
  "ENCODE_TABLE ! 135 = (23, 0x7fffd9)"
  "ENCODE_TABLE ! 136 = (22, 0x3fffd6)"
  "ENCODE_TABLE ! 137 = (23, 0x7fffda)"
  "ENCODE_TABLE ! 138 = (23, 0x7fffdb)"
  "ENCODE_TABLE ! 139 = (23, 0x7fffdc)"
  "ENCODE_TABLE ! 140 = (23, 0x7fffdd)"
  "ENCODE_TABLE ! 141 = (23, 0x7fffde)"
  "ENCODE_TABLE ! 142 = (24, 0xffffeb)"
  "ENCODE_TABLE ! 143 = (23, 0x7fffdf)"
  "ENCODE_TABLE ! 144 = (24, 0xffffec)"
  "ENCODE_TABLE ! 145 = (24, 0xffffed)"
  "ENCODE_TABLE ! 146 = (22, 0x3fffd7)"
  "ENCODE_TABLE ! 147 = (23, 0x7fffe0)"
  "ENCODE_TABLE ! 148 = (24, 0xffffee)"
  "ENCODE_TABLE ! 149 = (23, 0x7fffe1)"
  "ENCODE_TABLE ! 150 = (23, 0x7fffe2)"
  "ENCODE_TABLE ! 151 = (23, 0x7fffe3)"
  "ENCODE_TABLE ! 152 = (23, 0x7fffe4)"
  "ENCODE_TABLE ! 153 = (21, 0x1fffdc)"
  "ENCODE_TABLE ! 154 = (22, 0x3fffd8)"
  "ENCODE_TABLE ! 155 = (23, 0x7fffe5)"
  "ENCODE_TABLE ! 156 = (22, 0x3fffd9)"
  "ENCODE_TABLE ! 157 = (23, 0x7fffe6)"
  "ENCODE_TABLE ! 158 = (23, 0x7fffe7)"
  "ENCODE_TABLE ! 159 = (24, 0xffffef)"
  "ENCODE_TABLE ! 160 = (22, 0x3fffda)"
  "ENCODE_TABLE ! 161 = (21, 0x1fffdd)"
  "ENCODE_TABLE ! 162 = (20, 0xfffe9)"
  "ENCODE_TABLE ! 163 = (22, 0x3fffdb)"
  "ENCODE_TABLE ! 164 = (22, 0x3fffdc)"
  "ENCODE_TABLE ! 165 = (23, 0x7fffe8)"
  "ENCODE_TABLE ! 166 = (23, 0x7fffe9)"
  "ENCODE_TABLE ! 167 = (21, 0x1fffde)"
  "ENCODE_TABLE ! 168 = (23, 0x7fffea)"
  "ENCODE_TABLE ! 169 = (22, 0x3fffdd)"
  "ENCODE_TABLE ! 170 = (22, 0x3fffde)"
  "ENCODE_TABLE ! 171 = (24, 0xfffff0)"
  "ENCODE_TABLE ! 172 = (21, 0x1fffdf)"
  "ENCODE_TABLE ! 173 = (22, 0x3fffdf)"
  "ENCODE_TABLE ! 174 = (23, 0x7fffeb)"
  "ENCODE_TABLE ! 175 = (23, 0x7fffec)"
  "ENCODE_TABLE ! 176 = (21, 0x1fffe0)"
  "ENCODE_TABLE ! 177 = (21, 0x1fffe1)"
  "ENCODE_TABLE ! 178 = (22, 0x3fffe0)"
  "ENCODE_TABLE ! 179 = (21, 0x1fffe2)"
  "ENCODE_TABLE ! 180 = (23, 0x7fffed)"
  "ENCODE_TABLE ! 181 = (22, 0x3fffe1)"
  "ENCODE_TABLE ! 182 = (23, 0x7fffee)"
  "ENCODE_TABLE ! 183 = (23, 0x7fffef)"
  "ENCODE_TABLE ! 184 = (20, 0xfffea)"
  "ENCODE_TABLE ! 185 = (22, 0x3fffe2)"
  "ENCODE_TABLE ! 186 = (22, 0x3fffe3)"
  "ENCODE_TABLE ! 187 = (22, 0x3fffe4)"
  "ENCODE_TABLE ! 188 = (23, 0x7ffff0)"
  "ENCODE_TABLE ! 189 = (22, 0x3fffe5)"
  "ENCODE_TABLE ! 190 = (22, 0x3fffe6)"
  "ENCODE_TABLE ! 191 = (23, 0x7ffff1)"
  by (simp_all add: ENCODE_TABLE_def)

lemma encode_table_nth_3:
  "ENCODE_TABLE ! 192 = (26, 0x3ffffe0)"
  "ENCODE_TABLE ! 193 = (26, 0x3ffffe1)"
  "ENCODE_TABLE ! 194 = (20, 0xfffeb)"
  "ENCODE_TABLE ! 195 = (19, 0x7fff1)"
  "ENCODE_TABLE ! 196 = (22, 0x3fffe7)"
  "ENCODE_TABLE ! 197 = (23, 0x7ffff2)"
  "ENCODE_TABLE ! 198 = (22, 0x3fffe8)"
  "ENCODE_TABLE ! 199 = (25, 0x1ffffec)"
  "ENCODE_TABLE ! 200 = (26, 0x3ffffe2)"
  "ENCODE_TABLE ! 201 = (26, 0x3ffffe3)"
  "ENCODE_TABLE ! 202 = (26, 0x3ffffe4)"
  "ENCODE_TABLE ! 203 = (27, 0x7ffffde)"
  "ENCODE_TABLE ! 204 = (27, 0x7ffffdf)"
  "ENCODE_TABLE ! 205 = (26, 0x3ffffe5)"
  "ENCODE_TABLE ! 206 = (24, 0xfffff1)"
  "ENCODE_TABLE ! 207 = (25, 0x1ffffed)"
  "ENCODE_TABLE ! 208 = (19, 0x7fff2)"
  "ENCODE_TABLE ! 209 = (21, 0x1fffe3)"
  "ENCODE_TABLE ! 210 = (26, 0x3ffffe6)"
  "ENCODE_TABLE ! 211 = (27, 0x7ffffe0)"
  "ENCODE_TABLE ! 212 = (27, 0x7ffffe1)"
  "ENCODE_TABLE ! 213 = (26, 0x3ffffe7)"
  "ENCODE_TABLE ! 214 = (27, 0x7ffffe2)"
  "ENCODE_TABLE ! 215 = (24, 0xfffff2)"
  "ENCODE_TABLE ! 216 = (21, 0x1fffe4)"
  "ENCODE_TABLE ! 217 = (21, 0x1fffe5)"
  "ENCODE_TABLE ! 218 = (26, 0x3ffffe8)"
  "ENCODE_TABLE ! 219 = (26, 0x3ffffe9)"
  "ENCODE_TABLE ! 220 = (28, 0xffffffd)"
  "ENCODE_TABLE ! 221 = (27, 0x7ffffe3)"
  "ENCODE_TABLE ! 222 = (27, 0x7ffffe4)"
  "ENCODE_TABLE ! 223 = (27, 0x7ffffe5)"
  "ENCODE_TABLE ! 224 = (20, 0xfffec)"
  "ENCODE_TABLE ! 225 = (24, 0xfffff3)"
  "ENCODE_TABLE ! 226 = (20, 0xfffed)"
  "ENCODE_TABLE ! 227 = (21, 0x1fffe6)"
  "ENCODE_TABLE ! 228 = (22, 0x3fffe9)"
  "ENCODE_TABLE ! 229 = (21, 0x1fffe7)"
  "ENCODE_TABLE ! 230 = (21, 0x1fffe8)"
  "ENCODE_TABLE ! 231 = (23, 0x7ffff3)"
  "ENCODE_TABLE ! 232 = (22, 0x3fffea)"
  "ENCODE_TABLE ! 233 = (22, 0x3fffeb)"
  "ENCODE_TABLE ! 234 = (25, 0x1ffffee)"
  "ENCODE_TABLE ! 235 = (25, 0x1ffffef)"
  "ENCODE_TABLE ! 236 = (24, 0xfffff4)"
  "ENCODE_TABLE ! 237 = (24, 0xfffff5)"
  "ENCODE_TABLE ! 238 = (26, 0x3ffffea)"
  "ENCODE_TABLE ! 239 = (23, 0x7ffff4)"
  "ENCODE_TABLE ! 240 = (26, 0x3ffffeb)"
  "ENCODE_TABLE ! 241 = (27, 0x7ffffe6)"
  "ENCODE_TABLE ! 242 = (26, 0x3ffffec)"
  "ENCODE_TABLE ! 243 = (26, 0x3ffffed)"
  "ENCODE_TABLE ! 244 = (27, 0x7ffffe7)"
  "ENCODE_TABLE ! 245 = (27, 0x7ffffe8)"
  "ENCODE_TABLE ! 246 = (27, 0x7ffffe9)"
  "ENCODE_TABLE ! 247 = (27, 0x7ffffea)"
  "ENCODE_TABLE ! 248 = (27, 0x7ffffeb)"
  "ENCODE_TABLE ! 249 = (28, 0xffffffe)"
  "ENCODE_TABLE ! 250 = (27, 0x7ffffec)"
  "ENCODE_TABLE ! 251 = (27, 0x7ffffed)"
  "ENCODE_TABLE ! 252 = (27, 0x7ffffee)"
  "ENCODE_TABLE ! 253 = (27, 0x7ffffef)"
  "ENCODE_TABLE ! 254 = (27, 0x7fffff0)"
  "ENCODE_TABLE ! 255 = (26, 0x3ffffee)"
  by (simp_all add: ENCODE_TABLE_def)

lemma encode_table_nth_4: "ENCODE_TABLE ! 256 = (30, 0x3fffffff)"
  by (simp add: ENCODE_TABLE_def)

lemmas encode_table_nth =
  encode_table_nth_0 encode_table_nth_1 encode_table_nth_2 encode_table_nth_3 encode_table_nth_4

lemma huff_states_nth_0:
  "HUFF_STATES ! 0 = (0, 0, 0)"
  "HUFF_STATES ! Suc 0 = (1, 0, 32)"
  "HUFF_STATES ! 2 = (2, 0, 48)"
  "HUFF_STATES ! 3 = (3, 0, 48)"
  "HUFF_STATES ! 4 = (4, 0, 48)"
  "HUFF_STATES ! 5 = (4, 1, 50)"
  "HUFF_STATES ! 6 = (3, 1, 99)"
  "HUFF_STATES ! 7 = (4, 2, 99)"
  "HUFF_STATES ! 8 = (4, 3, 105)"
  "HUFF_STATES ! 9 = (2, 1, 32)"
  "HUFF_STATES ! 10 = (3, 2, 32)"
  "HUFF_STATES ! 11 = (4, 4, 115)"
  "HUFF_STATES ! 12 = (4, 5, 32)"
  "HUFF_STATES ! 13 = (5, 10, 32)"
  "HUFF_STATES ! 14 = (5, 11, 45)"
  "HUFF_STATES ! 15 = (3, 3, 47)"
  "HUFF_STATES ! 16 = (4, 6, 47)"
  "HUFF_STATES ! 17 = (5, 12, 47)"
  "HUFF_STATES ! 18 = (5, 13, 52)"
  "HUFF_STATES ! 19 = (4, 7, 54)"
  "HUFF_STATES ! 20 = (5, 14, 54)"
  "HUFF_STATES ! 21 = (5, 15, 56)"
  "HUFF_STATES ! 22 = (1, 1, 0)"
  "HUFF_STATES ! 23 = (2, 2, 58)"
  "HUFF_STATES ! 24 = (3, 4, 61)"
  "HUFF_STATES ! 25 = (4, 8, 61)"
  "HUFF_STATES ! 26 = (5, 16, 61)"
  "HUFF_STATES ! 27 = (5, 17, 95)"
  "HUFF_STATES ! 28 = (4, 9, 100)"
  "HUFF_STATES ! 29 = (5, 18, 100)"
  "HUFF_STATES ! 30 = (5, 19, 103)"
  "HUFF_STATES ! 31 = (3, 5, 58)"
  "HUFF_STATES ! 32 = (4, 10, 108)"
  "HUFF_STATES ! 33 = (5, 20, 108)"
  "HUFF_STATES ! 34 = (5, 21, 110)"
  "HUFF_STATES ! 35 = (4, 11, 58)"
  "HUFF_STATES ! 36 = (5, 22, 114)"
  "HUFF_STATES ! 37 = (5, 23, 58)"
  "HUFF_STATES ! 38 = (6, 46, 58)"
  "HUFF_STATES ! 39 = (6, 47, 67)"
  "HUFF_STATES ! 40 = (2, 3, 0)"
  "HUFF_STATES ! 41 = (3, 6, 69)"
  "HUFF_STATES ! 42 = (4, 12, 69)"
  "HUFF_STATES ! 43 = (5, 24, 69)"
  "HUFF_STATES ! 44 = (6, 48, 69)"
  "HUFF_STATES ! 45 = (6, 49, 71)"
  "HUFF_STATES ! 46 = (5, 25, 73)"
  "HUFF_STATES ! 47 = (6, 50, 73)"
  "HUFF_STATES ! 48 = (6, 51, 75)"
  "HUFF_STATES ! 49 = (4, 13, 77)"
  "HUFF_STATES ! 50 = (5, 26, 77)"
  "HUFF_STATES ! 51 = (6, 52, 77)"
  "HUFF_STATES ! 52 = (6, 53, 79)"
  "HUFF_STATES ! 53 = (5, 27, 81)"
  "HUFF_STATES ! 54 = (6, 54, 81)"
  "HUFF_STATES ! 55 = (6, 55, 83)"
  "HUFF_STATES ! 56 = (3, 7, 0)"
  "HUFF_STATES ! 57 = (4, 14, 85)"
  "HUFF_STATES ! 58 = (5, 28, 85)"
  "HUFF_STATES ! 59 = (6, 56, 85)"
  "HUFF_STATES ! 60 = (6, 57, 87)"
  "HUFF_STATES ! 61 = (5, 29, 106)"
  "HUFF_STATES ! 62 = (6, 58, 106)"
  "HUFF_STATES ! 63 = (6, 59, 113)"
  by (simp_all add: HUFF_STATES_def)

lemma huff_states_nth_1:
  "HUFF_STATES ! 64 = (4, 15, 0)"
  "HUFF_STATES ! 65 = (5, 30, 119)"
  "HUFF_STATES ! 66 = (6, 60, 119)"
  "HUFF_STATES ! 67 = (6, 61, 121)"
  "HUFF_STATES ! 68 = (5, 31, 0)"
  "HUFF_STATES ! 69 = (6, 62, 38)"
  "HUFF_STATES ! 70 = (7, 124, 38)"
  "HUFF_STATES ! 71 = (7, 125, 44)"
  "HUFF_STATES ! 72 = (6, 63, 0)"
  "HUFF_STATES ! 73 = (7, 126, 88)"
  "HUFF_STATES ! 74 = (7, 127, 0)"
  "HUFF_STATES ! 75 = (8, 254, 33)"
  "HUFF_STATES ! 76 = (9, 508, 33)"
  "HUFF_STATES ! 77 = (9, 509, 40)"
  "HUFF_STATES ! 78 = (8, 255, 0)"
  "HUFF_STATES ! 79 = (9, 510, 39)"
  "HUFF_STATES ! 80 = (10, 1021, 39)"
  "HUFF_STATES ! 81 = (9, 511, 0)"
  "HUFF_STATES ! 82 = (10, 1022, 35)"
  "HUFF_STATES ! 83 = (11, 2045, 35)"
  "HUFF_STATES ! 84 = (10, 1023, 0)"
  "HUFF_STATES ! 85 = (11, 2046, 0)"
  "HUFF_STATES ! 86 = (12, 4092, 0)"
  "HUFF_STATES ! 87 = (12, 4093, 64)"
  "HUFF_STATES ! 88 = (11, 2047, 1)"
  "HUFF_STATES ! 89 = (12, 4094, 93)"
  "HUFF_STATES ! 90 = (12, 4095, 1)"
  "HUFF_STATES ! 91 = (13, 8190, 94)"
  "HUFF_STATES ! 92 = (13, 8191, 1)"
  "HUFF_STATES ! 93 = (14, 16382, 60)"
  "HUFF_STATES ! 94 = (14, 16383, 1)"
  "HUFF_STATES ! 95 = (15, 32767, 1)"
  "HUFF_STATES ! 96 = (16, 65534, 92)"
  "HUFF_STATES ! 97 = (17, 131068, 92)"
  "HUFF_STATES ! 98 = (18, 262136, 92)"
  "HUFF_STATES ! 99 = (18, 262137, 128)"
  "HUFF_STATES ! 100 = (19, 524275, 128)"
  "HUFF_STATES ! 101 = (17, 131069, 131)"
  "HUFF_STATES ! 102 = (18, 262138, 131)"
  "HUFF_STATES ! 103 = (19, 524276, 131)"
  "HUFF_STATES ! 104 = (19, 524277, 184)"
  "HUFF_STATES ! 105 = (18, 262139, 153)"
  "HUFF_STATES ! 106 = (19, 524278, 224)"
  "HUFF_STATES ! 107 = (19, 524279, 153)"
  "HUFF_STATES ! 108 = (20, 1048558, 153)"
  "HUFF_STATES ! 109 = (20, 1048559, 167)"
  "HUFF_STATES ! 110 = (16, 65535, 1)"
  "HUFF_STATES ! 111 = (17, 131070, 129)"
  "HUFF_STATES ! 112 = (18, 262140, 176)"
  "HUFF_STATES ! 113 = (19, 524280, 176)"
  "HUFF_STATES ! 114 = (20, 1048560, 176)"
  "HUFF_STATES ! 115 = (20, 1048561, 179)"
  "HUFF_STATES ! 116 = (19, 524281, 216)"
  "HUFF_STATES ! 117 = (20, 1048562, 216)"
  "HUFF_STATES ! 118 = (20, 1048563, 227)"
  "HUFF_STATES ! 119 = (18, 262141, 129)"
  "HUFF_STATES ! 120 = (19, 524282, 129)"
  "HUFF_STATES ! 121 = (20, 1048564, 129)"
  "HUFF_STATES ! 122 = (21, 2097129, 129)"
  "HUFF_STATES ! 123 = (20, 1048565, 133)"
  "HUFF_STATES ! 124 = (21, 2097130, 133)"
  "HUFF_STATES ! 125 = (21, 2097131, 136)"
  "HUFF_STATES ! 126 = (19, 524283, 154)"
  "HUFF_STATES ! 127 = (20, 1048566, 154)"
  by (simp_all add: HUFF_STATES_def)

lemma huff_states_nth_2:
  "HUFF_STATES ! 128 = (21, 2097132, 154)"
  "HUFF_STATES ! 129 = (21, 2097133, 160)"
  "HUFF_STATES ! 130 = (20, 1048567, 164)"
  "HUFF_STATES ! 131 = (21, 2097134, 164)"
  "HUFF_STATES ! 132 = (21, 2097135, 170)"
  "HUFF_STATES ! 133 = (17, 131071, 1)"
  "HUFF_STATES ! 134 = (18, 262142, 1)"
  "HUFF_STATES ! 135 = (19, 524284, 178)"
  "HUFF_STATES ! 136 = (20, 1048568, 178)"
  "HUFF_STATES ! 137 = (21, 2097136, 178)"
  "HUFF_STATES ! 138 = (21, 2097137, 185)"
  "HUFF_STATES ! 139 = (20, 1048569, 187)"
  "HUFF_STATES ! 140 = (21, 2097138, 187)"
  "HUFF_STATES ! 141 = (21, 2097139, 190)"
  "HUFF_STATES ! 142 = (19, 524285, 1)"
  "HUFF_STATES ! 143 = (20, 1048570, 198)"
  "HUFF_STATES ! 144 = (21, 2097140, 198)"
  "HUFF_STATES ! 145 = (21, 2097141, 232)"
  "HUFF_STATES ! 146 = (20, 1048571, 1)"
  "HUFF_STATES ! 147 = (21, 2097142, 1)"
  "HUFF_STATES ! 148 = (22, 4194284, 1)"
  "HUFF_STATES ! 149 = (22, 4194285, 137)"
  "HUFF_STATES ! 150 = (21, 2097143, 139)"
  "HUFF_STATES ! 151 = (22, 4194286, 139)"
  "HUFF_STATES ! 152 = (22, 4194287, 141)"
  "HUFF_STATES ! 153 = (18, 262143, 2)"
  "HUFF_STATES ! 154 = (19, 524286, 147)"
  "HUFF_STATES ! 155 = (20, 1048572, 147)"
  "HUFF_STATES ! 156 = (21, 2097144, 147)"
  "HUFF_STATES ! 157 = (22, 4194288, 147)"
  "HUFF_STATES ! 158 = (22, 4194289, 150)"
  "HUFF_STATES ! 159 = (21, 2097145, 152)"
  "HUFF_STATES ! 160 = (22, 4194290, 152)"
  "HUFF_STATES ! 161 = (22, 4194291, 157)"
  "HUFF_STATES ! 162 = (20, 1048573, 165)"
  "HUFF_STATES ! 163 = (21, 2097146, 165)"
  "HUFF_STATES ! 164 = (22, 4194292, 165)"
  "HUFF_STATES ! 165 = (22, 4194293, 168)"
  "HUFF_STATES ! 166 = (21, 2097147, 175)"
  "HUFF_STATES ! 167 = (22, 4194294, 175)"
  "HUFF_STATES ! 168 = (22, 4194295, 182)"
  "HUFF_STATES ! 169 = (19, 524287, 2)"
  "HUFF_STATES ! 170 = (20, 1048574, 9)"
  "HUFF_STATES ! 171 = (21, 2097148, 188)"
  "HUFF_STATES ! 172 = (22, 4194296, 188)"
  "HUFF_STATES ! 173 = (22, 4194297, 197)"
  "HUFF_STATES ! 174 = (21, 2097149, 9)"
  "HUFF_STATES ! 175 = (22, 4194298, 9)"
  "HUFF_STATES ! 176 = (23, 8388597, 9)"
  "HUFF_STATES ! 177 = (22, 4194299, 144)"
  "HUFF_STATES ! 178 = (23, 8388598, 144)"
  "HUFF_STATES ! 179 = (23, 8388599, 148)"
  "HUFF_STATES ! 180 = (20, 1048575, 2)"
  "HUFF_STATES ! 181 = (21, 2097150, 171)"
  "HUFF_STATES ! 182 = (22, 4194300, 171)"
  "HUFF_STATES ! 183 = (23, 8388600, 171)"
  "HUFF_STATES ! 184 = (23, 8388601, 215)"
  "HUFF_STATES ! 185 = (22, 4194301, 199)"
  "HUFF_STATES ! 186 = (23, 8388602, 236)"
  "HUFF_STATES ! 187 = (23, 8388603, 199)"
  "HUFF_STATES ! 188 = (24, 16777206, 199)"
  "HUFF_STATES ! 189 = (24, 16777207, 234)"
  "HUFF_STATES ! 190 = (21, 2097151, 2)"
  "HUFF_STATES ! 191 = (22, 4194302, 192)"
  by (simp_all add: HUFF_STATES_def)

lemma huff_states_nth_3:
  "HUFF_STATES ! 192 = (23, 8388604, 192)"
  "HUFF_STATES ! 193 = (24, 16777208, 192)"
  "HUFF_STATES ! 194 = (25, 33554416, 192)"
  "HUFF_STATES ! 195 = (25, 33554417, 200)"
  "HUFF_STATES ! 196 = (24, 16777209, 202)"
  "HUFF_STATES ! 197 = (25, 33554418, 202)"
  "HUFF_STATES ! 198 = (25, 33554419, 210)"
  "HUFF_STATES ! 199 = (23, 8388605, 203)"
  "HUFF_STATES ! 200 = (24, 16777210, 218)"
  "HUFF_STATES ! 201 = (25, 33554420, 218)"
  "HUFF_STATES ! 202 = (25, 33554421, 238)"
  "HUFF_STATES ! 203 = (24, 16777211, 203)"
  "HUFF_STATES ! 204 = (25, 33554422, 242)"
  "HUFF_STATES ! 205 = (25, 33554423, 203)"
  "HUFF_STATES ! 206 = (26, 67108847, 203)"
  "HUFF_STATES ! 207 = (22, 4194303, 2)"
  "HUFF_STATES ! 208 = (23, 8388606, 211)"
  "HUFF_STATES ! 209 = (24, 16777212, 211)"
  "HUFF_STATES ! 210 = (25, 33554424, 211)"
  "HUFF_STATES ! 211 = (26, 67108848, 211)"
  "HUFF_STATES ! 212 = (26, 67108849, 214)"
  "HUFF_STATES ! 213 = (25, 33554425, 222)"
  "HUFF_STATES ! 214 = (26, 67108850, 222)"
  "HUFF_STATES ! 215 = (26, 67108851, 241)"
  "HUFF_STATES ! 216 = (24, 16777213, 245)"
  "HUFF_STATES ! 217 = (25, 33554426, 245)"
  "HUFF_STATES ! 218 = (26, 67108852, 245)"
  "HUFF_STATES ! 219 = (26, 67108853, 247)"
  "HUFF_STATES ! 220 = (25, 33554427, 250)"
  "HUFF_STATES ! 221 = (26, 67108854, 250)"
  "HUFF_STATES ! 222 = (26, 67108855, 252)"
  "HUFF_STATES ! 223 = (23, 8388607, 2)"
  "HUFF_STATES ! 224 = (24, 16777214, 2)"
  "HUFF_STATES ! 225 = (25, 33554428, 2)"
  "HUFF_STATES ! 226 = (26, 67108856, 2)"
  "HUFF_STATES ! 227 = (27, 134217713, 2)"
  "HUFF_STATES ! 228 = (26, 67108857, 4)"
  "HUFF_STATES ! 229 = (27, 134217714, 4)"
  "HUFF_STATES ! 230 = (27, 134217715, 6)"
  "HUFF_STATES ! 231 = (25, 33554429, 8)"
  "HUFF_STATES ! 232 = (26, 67108858, 8)"
  "HUFF_STATES ! 233 = (27, 134217716, 8)"
  "HUFF_STATES ! 234 = (27, 134217717, 12)"
  "HUFF_STATES ! 235 = (26, 67108859, 15)"
  "HUFF_STATES ! 236 = (27, 134217718, 15)"
  "HUFF_STATES ! 237 = (27, 134217719, 17)"
  "HUFF_STATES ! 238 = (24, 16777215, 10)"
  "HUFF_STATES ! 239 = (25, 33554430, 19)"
  "HUFF_STATES ! 240 = (26, 67108860, 19)"
  "HUFF_STATES ! 241 = (27, 134217720, 19)"
  "HUFF_STATES ! 242 = (27, 134217721, 21)"
  "HUFF_STATES ! 243 = (26, 67108861, 24)"
  "HUFF_STATES ! 244 = (27, 134217722, 24)"
  "HUFF_STATES ! 245 = (27, 134217723, 26)"
  "HUFF_STATES ! 246 = (25, 33554431, 10)"
  "HUFF_STATES ! 247 = (26, 67108862, 28)"
  "HUFF_STATES ! 248 = (27, 134217724, 28)"
  "HUFF_STATES ! 249 = (27, 134217725, 30)"
  "HUFF_STATES ! 250 = (26, 67108863, 10)"
  "HUFF_STATES ! 251 = (27, 134217726, 127)"
  "HUFF_STATES ! 252 = (27, 134217727, 10)"
  "HUFF_STATES ! 253 = (28, 268435455, 10)"
  "HUFF_STATES ! 254 = (29, 536870910, 10)"
  "HUFF_STATES ! 255 = (29, 536870911, 22)"
  by (simp_all add: HUFF_STATES_def)

lemmas huff_states_nth = huff_states_nth_0 huff_states_nth_1 huff_states_nth_2 huff_states_nth_3

section \<open>The decoding table\<close>

lemmas row_simps = row_ok_def entry_ok_def encode_table_nth huff_states_nth upt_rec

lemma rows_ok_0: "list_all2 row_ok
    [(0, 0, 0), (1, 0, 32), (2, 0, 48), (3, 0, 48), (4, 0, 48), (4, 1, 50), (3, 1, 99),
     (4, 2, 99)]
    DECODE_ROWS_0"
  by (simp add: DECODE_ROWS_0_def row_simps)

lemma rows_ok_1: "list_all2 row_ok
    [(4, 3, 105), (2, 1, 32), (3, 2, 32), (4, 4, 115), (4, 5, 32), (5, 10, 32), (5, 11,
     45), (3, 3, 47)]
    DECODE_ROWS_1"
  by (simp add: DECODE_ROWS_1_def row_simps)

lemma rows_ok_2: "list_all2 row_ok
    [(4, 6, 47), (5, 12, 47), (5, 13, 52), (4, 7, 54), (5, 14, 54), (5, 15, 56), (1, 1,
     0), (2, 2, 58)]
    DECODE_ROWS_2"
  by (simp add: DECODE_ROWS_2_def row_simps)

lemma rows_ok_3: "list_all2 row_ok
    [(3, 4, 61), (4, 8, 61), (5, 16, 61), (5, 17, 95), (4, 9, 100), (5, 18, 100), (5, 19,
     103), (3, 5, 58)]
    DECODE_ROWS_3"
  by (simp add: DECODE_ROWS_3_def row_simps)

lemma rows_ok_4: "list_all2 row_ok
    [(4, 10, 108), (5, 20, 108), (5, 21, 110), (4, 11, 58), (5, 22, 114), (5, 23, 58), (6,
     46, 58), (6, 47, 67)]
    DECODE_ROWS_4"
  by (simp add: DECODE_ROWS_4_def row_simps)

lemma rows_ok_5: "list_all2 row_ok
    [(2, 3, 0), (3, 6, 69), (4, 12, 69), (5, 24, 69), (6, 48, 69), (6, 49, 71), (5, 25,
     73), (6, 50, 73)]
    DECODE_ROWS_5"
  by (simp add: DECODE_ROWS_5_def row_simps)

lemma rows_ok_6: "list_all2 row_ok
    [(6, 51, 75), (4, 13, 77), (5, 26, 77), (6, 52, 77), (6, 53, 79), (5, 27, 81), (6, 54,
     81), (6, 55, 83)]
    DECODE_ROWS_6"
  by (simp add: DECODE_ROWS_6_def row_simps)

lemma rows_ok_7: "list_all2 row_ok
    [(3, 7, 0), (4, 14, 85), (5, 28, 85), (6, 56, 85), (6, 57, 87), (5, 29, 106), (6, 58,
     106), (6, 59, 113)]
    DECODE_ROWS_7"
  by (simp add: DECODE_ROWS_7_def row_simps)

lemma rows_ok_8: "list_all2 row_ok
    [(4, 15, 0), (5, 30, 119), (6, 60, 119), (6, 61, 121), (5, 31, 0), (6, 62, 38), (7,
     124, 38), (7, 125, 44)]
    DECODE_ROWS_8"
  by (simp add: DECODE_ROWS_8_def row_simps)

lemma rows_ok_9: "list_all2 row_ok
    [(6, 63, 0), (7, 126, 88), (7, 127, 0), (8, 254, 33), (9, 508, 33), (9, 509, 40), (8,
     255, 0), (9, 510, 39)]
    DECODE_ROWS_9"
  by (simp add: DECODE_ROWS_9_def row_simps)

lemma rows_ok_10: "list_all2 row_ok
    [(10, 1021, 39), (9, 511, 0), (10, 1022, 35), (11, 2045, 35), (10, 1023, 0), (11,
     2046, 0), (12, 4092, 0), (12, 4093, 64)]
    DECODE_ROWS_10"
  by (simp add: DECODE_ROWS_10_def row_simps)

lemma rows_ok_11: "list_all2 row_ok
    [(11, 2047, 1), (12, 4094, 93), (12, 4095, 1), (13, 8190, 94), (13, 8191, 1), (14,
     16382, 60), (14, 16383, 1), (15, 32767, 1)]
    DECODE_ROWS_11"
  by (simp add: DECODE_ROWS_11_def row_simps)

lemma rows_ok_12: "list_all2 row_ok
    [(16, 65534, 92), (17, 131068, 92), (18, 262136, 92), (18, 262137, 128), (19, 524275,
     128), (17, 131069, 131), (18, 262138, 131), (19, 524276, 131)]
    DECODE_ROWS_12"
  by (simp add: DECODE_ROWS_12_def row_simps)

lemma rows_ok_13: "list_all2 row_ok
    [(19, 524277, 184), (18, 262139, 153), (19, 524278, 224), (19, 524279, 153), (20,
     1048558, 153), (20, 1048559, 167), (16, 65535, 1), (17, 131070, 129)]
    DECODE_ROWS_13"
  by (simp add: DECODE_ROWS_13_def row_simps)

lemma rows_ok_14: "list_all2 row_ok
    [(18, 262140, 176), (19, 524280, 176), (20, 1048560, 176), (20, 1048561, 179), (19,
     524281, 216), (20, 1048562, 216), (20, 1048563, 227), (18, 262141, 129)]
    DECODE_ROWS_14"
  by (simp add: DECODE_ROWS_14_def row_simps)

lemma rows_ok_15: "list_all2 row_ok
    [(19, 524282, 129), (20, 1048564, 129), (21, 2097129, 129), (20, 1048565, 133), (21,
     2097130, 133), (21, 2097131, 136), (19, 524283, 154), (20, 1048566, 154)]
    DECODE_ROWS_15"
  by (simp add: DECODE_ROWS_15_def row_simps)

lemma rows_ok_16: "list_all2 row_ok
    [(21, 2097132, 154), (21, 2097133, 160), (20, 1048567, 164), (21, 2097134, 164), (21,
     2097135, 170), (17, 131071, 1), (18, 262142, 1), (19, 524284, 178)]
    DECODE_ROWS_16"
  by (simp add: DECODE_ROWS_16_def row_simps)

lemma rows_ok_17: "list_all2 row_ok
    [(20, 1048568, 178), (21, 2097136, 178), (21, 2097137, 185), (20, 1048569, 187), (21,
     2097138, 187), (21, 2097139, 190), (19, 524285, 1), (20, 1048570, 198)]
    DECODE_ROWS_17"
  by (simp add: DECODE_ROWS_17_def row_simps)

lemma rows_ok_18: "list_all2 row_ok
    [(21, 2097140, 198), (21, 2097141, 232), (20, 1048571, 1), (21, 2097142, 1), (22,
     4194284, 1), (22, 4194285, 137), (21, 2097143, 139), (22, 4194286, 139)]
    DECODE_ROWS_18"
  by (simp add: DECODE_ROWS_18_def row_simps)

lemma rows_ok_19: "list_all2 row_ok
    [(22, 4194287, 141), (18, 262143, 2), (19, 524286, 147), (20, 1048572, 147), (21,
     2097144, 147), (22, 4194288, 147), (22, 4194289, 150), (21, 2097145, 152)]
    DECODE_ROWS_19"
  by (simp add: DECODE_ROWS_19_def row_simps)

lemma rows_ok_20: "list_all2 row_ok
    [(22, 4194290, 152), (22, 4194291, 157), (20, 1048573, 165), (21, 2097146, 165), (22,
     4194292, 165), (22, 4194293, 168), (21, 2097147, 175), (22, 4194294, 175)]
    DECODE_ROWS_20"
  by (simp add: DECODE_ROWS_20_def row_simps)

lemma rows_ok_21: "list_all2 row_ok
    [(22, 4194295, 182), (19, 524287, 2), (20, 1048574, 9), (21, 2097148, 188), (22,
     4194296, 188), (22, 4194297, 197), (21, 2097149, 9), (22, 4194298, 9)]
    DECODE_ROWS_21"
  by (simp add: DECODE_ROWS_21_def row_simps)

lemma rows_ok_22: "list_all2 row_ok
    [(23, 8388597, 9), (22, 4194299, 144), (23, 8388598, 144), (23, 8388599, 148), (20,
     1048575, 2), (21, 2097150, 171), (22, 4194300, 171), (23, 8388600, 171)]
    DECODE_ROWS_22"
  by (simp add: DECODE_ROWS_22_def row_simps)

lemma rows_ok_23: "list_all2 row_ok
    [(23, 8388601, 215), (22, 4194301, 199), (23, 8388602, 236), (23, 8388603, 199), (24,
     16777206, 199), (24, 16777207, 234), (21, 2097151, 2), (22, 4194302, 192)]
    DECODE_ROWS_23"
  by (simp add: DECODE_ROWS_23_def row_simps)

lemma rows_ok_24: "list_all2 row_ok
    [(23, 8388604, 192), (24, 16777208, 192), (25, 33554416, 192), (25, 33554417, 200),
     (24, 16777209, 202), (25, 33554418, 202), (25, 33554419, 210), (23, 8388605, 203)]
    DECODE_ROWS_24"
  by (simp add: DECODE_ROWS_24_def row_simps)

lemma rows_ok_25: "list_all2 row_ok
    [(24, 16777210, 218), (25, 33554420, 218), (25, 33554421, 238), (24, 16777211, 203),
     (25, 33554422, 242), (25, 33554423, 203), (26, 67108847, 203), (22, 4194303, 2)]
    DECODE_ROWS_25"
  by (simp add: DECODE_ROWS_25_def row_simps)

lemma rows_ok_26: "list_all2 row_ok
    [(23, 8388606, 211), (24, 16777212, 211), (25, 33554424, 211), (26, 67108848, 211),
     (26, 67108849, 214), (25, 33554425, 222), (26, 67108850, 222), (26, 67108851, 241)]
    DECODE_ROWS_26"
  by (simp add: DECODE_ROWS_26_def row_simps)

lemma rows_ok_27: "list_all2 row_ok
    [(24, 16777213, 245), (25, 33554426, 245), (26, 67108852, 245), (26, 67108853, 247),
     (25, 33554427, 250), (26, 67108854, 250), (26, 67108855, 252), (23, 8388607, 2)]
    DECODE_ROWS_27"
  by (simp add: DECODE_ROWS_27_def row_simps)

lemma rows_ok_28: "list_all2 row_ok
    [(24, 16777214, 2), (25, 33554428, 2), (26, 67108856, 2), (27, 134217713, 2), (26,
     67108857, 4), (27, 134217714, 4), (27, 134217715, 6), (25, 33554429, 8)]
    DECODE_ROWS_28"
  by (simp add: DECODE_ROWS_28_def row_simps)

lemma rows_ok_29: "list_all2 row_ok
    [(26, 67108858, 8), (27, 134217716, 8), (27, 134217717, 12), (26, 67108859, 15), (27,
     134217718, 15), (27, 134217719, 17), (24, 16777215, 10), (25, 33554430, 19)]
    DECODE_ROWS_29"
  by (simp add: DECODE_ROWS_29_def row_simps)

lemma rows_ok_30: "list_all2 row_ok
    [(26, 67108860, 19), (27, 134217720, 19), (27, 134217721, 21), (26, 67108861, 24),
     (27, 134217722, 24), (27, 134217723, 26), (25, 33554431, 10), (26, 67108862, 28)]
    DECODE_ROWS_30"
  by (simp add: DECODE_ROWS_30_def row_simps)

lemma rows_ok_31: "list_all2 row_ok
    [(27, 134217724, 28), (27, 134217725, 30), (26, 67108863, 10), (27, 134217726, 127),
     (27, 134217727, 10), (28, 268435455, 10), (29, 536870910, 10), (29, 536870911, 22)]
    DECODE_ROWS_31"
  by (simp add: DECODE_ROWS_31_def row_simps)

theorem decode_table_ok: "list_all2 row_ok HUFF_STATES DECODE_TABLE"
  unfolding HUFF_STATES_def DECODE_TABLE_def
  using list_all2_appendI [OF rows_ok_0 list_all2_appendI [OF rows_ok_1 list_all2_appendI [OF
    rows_ok_2 list_all2_appendI [OF rows_ok_3 list_all2_appendI [OF rows_ok_4 list_all2_appendI
    [OF rows_ok_5 list_all2_appendI [OF rows_ok_6 list_all2_appendI [OF rows_ok_7
    list_all2_appendI [OF rows_ok_8 list_all2_appendI [OF rows_ok_9 list_all2_appendI [OF
    rows_ok_10 list_all2_appendI [OF rows_ok_11 list_all2_appendI [OF rows_ok_12
    list_all2_appendI [OF rows_ok_13 list_all2_appendI [OF rows_ok_14 list_all2_appendI [OF
    rows_ok_15 list_all2_appendI [OF rows_ok_16 list_all2_appendI [OF rows_ok_17
    list_all2_appendI [OF rows_ok_18 list_all2_appendI [OF rows_ok_19 list_all2_appendI [OF
    rows_ok_20 list_all2_appendI [OF rows_ok_21 list_all2_appendI [OF rows_ok_22
    list_all2_appendI [OF rows_ok_23 list_all2_appendI [OF rows_ok_24 list_all2_appendI [OF
    rows_ok_25 list_all2_appendI [OF rows_ok_26 list_all2_appendI [OF rows_ok_27
    list_all2_appendI [OF rows_ok_28 list_all2_appendI [OF rows_ok_29 list_all2_appendI [OF
    rows_ok_30 rows_ok_31]]]]]]]]]]]]]]]]]]]]]]]]]]]]]]]
  by (simp only: append.simps)

section \<open>The code\<close>

definition code_interval :: "nat \<Rightarrow> nat \<times> nat" where
  "code_interval b =
     (case ENCODE_TABLE ! b of (k, c) \<Rightarrow> (unat c * 2 ^ (30 - k), (unat c + 1) * 2 ^ (30 - k)))"

text \<open>The left-aligned codes, in order, are adjacent intervals: prefix-free, and no gap.\<close>

lemma code_intervals:
  "successively (\<lambda>a b. snd (code_interval a) = fst (code_interval b)) HUFF_ORDER"
  by (simp add: HUFF_ORDER_def code_interval_def encode_table_nth)

lemma huff_order_range: "length HUFF_ORDER = 257" "list_all (\<lambda>b. b < 257) HUFF_ORDER"
  by (simp_all add: HUFF_ORDER_def)

lemma encode_table_ok:
  "length ENCODE_TABLE = 257"
  "list_all (\<lambda>(k, c). 5 \<le> k \<and> k \<le> 30 \<and> unat c < 2 ^ k) ENCODE_TABLE"
  by (simp_all add: ENCODE_TABLE_def)

text \<open>Each state's bits properly begin a code; the initial state has none pending.\<close>

lemma huff_states_ok:
  "length HUFF_STATES = 256"
  "list_all (\<lambda>(n, v, b). b < 257 \<and>
     (case ENCODE_TABLE ! b of (k, c) \<Rightarrow> n < k \<and> unat c div 2 ^ (k - n) = v)) HUFF_STATES"
  by (simp_all add: HUFF_STATES_def encode_table_nth)

lemma huff_states_zero:
  "list_all (\<lambda>(s, (n, v, b)). n = 0 \<longleftrightarrow> s = (0::nat)) (zip [0..<256] HUFF_STATES)"
  by (simp add: HUFF_STATES_def upt_rec)

end
