(* ===== verification/Error_Types.thy ===== *)
theory Error_Types
  imports Prelude
begin

text \<open>
  The error vocabulary of the library: the HTTP/2 error codes (\<open>frame/reason.rs\<close>), the HPACK
  decoder's errors (\<open>hpack/decoder.rs\<close>), the frame loaders' errors (\<open>frame/mod.rs\<close>), the errors of
  API users (\<open>codec/error.rs\<close>) and the stream and connection errors (\<open>proto/error.rs\<close>).
\<close>

section \<open>Identifiers and error codes\<close>

text \<open>\<open>StreamId(u32)\<close> and \<open>Reason(u32)\<close> are newtypes over \<open>u32\<close>.\<close>

type_synonym stream_id = u32

datatype reason = Reason (reason_code: u32)

definition NO_ERROR :: reason where "NO_ERROR = Reason 0"
definition PROTOCOL_ERROR :: reason where "PROTOCOL_ERROR = Reason 1"
definition INTERNAL_ERROR :: reason where "INTERNAL_ERROR = Reason 2"
definition FLOW_CONTROL_ERROR :: reason where "FLOW_CONTROL_ERROR = Reason 3"
definition SETTINGS_TIMEOUT :: reason where "SETTINGS_TIMEOUT = Reason 4"
definition STREAM_CLOSED :: reason where "STREAM_CLOSED = Reason 5"
definition FRAME_SIZE_ERROR :: reason where "FRAME_SIZE_ERROR = Reason 6"
definition REFUSED_STREAM :: reason where "REFUSED_STREAM = Reason 7"
definition CANCEL :: reason where "CANCEL = Reason 8"
definition COMPRESSION_ERROR :: reason where "COMPRESSION_ERROR = Reason 9"
definition CONNECT_ERROR :: reason where "CONNECT_ERROR = Reason 10"
definition ENHANCE_YOUR_CALM :: reason where "ENHANCE_YOUR_CALM = Reason 11"
definition INADEQUATE_SECURITY :: reason where "INADEQUATE_SECURITY = Reason 12"
definition HTTP_1_1_REQUIRED :: reason where "HTTP_1_1_REQUIRED = Reason 13"

lemmas reason_defs =
  NO_ERROR_def PROTOCOL_ERROR_def INTERNAL_ERROR_def FLOW_CONTROL_ERROR_def SETTINGS_TIMEOUT_def
  STREAM_CLOSED_def FRAME_SIZE_ERROR_def REFUSED_STREAM_def CANCEL_def COMPRESSION_ERROR_def
  CONNECT_ERROR_def ENHANCE_YOUR_CALM_def INADEQUATE_SECURITY_def HTTP_1_1_REQUIRED_def

section \<open>HPACK and frame errors\<close>

datatype need_more = UnexpectedEndOfStream | IntegerUnderflow | StringUnderflow

datatype decoder_error =
    InvalidRepresentation
  | InvalidIntegerPrefix
  | InvalidTableIndex
  | InvalidHuffmanCode
  | InvalidUtf8
  | InvalidStatusCode
  | InvalidPseudoheader
  | InvalidMaxDynamicSize
  | IntegerOverflow
  | NeedMore need_more

datatype frame_error =
    BadFrameSize
  | TooMuchPadding
  | InvalidSettingValue
  | InvalidWindowUpdateValue
  | InvalidPayloadLength
  | InvalidPayloadAckSettings
  | InvalidStreamId
  | MalformedMessage
  | InvalidDependencyId
  | Hpack decoder_error

section \<open>User, stream and connection errors\<close>

datatype user_error =
    InactiveStreamId
  | UnexpectedFrameType
  | PayloadTooBig
  | Rejected
  | ReleaseCapacityTooBig
  | OverflowedStreamId
  | MalformedHeaders
  | MissingUriSchemeAndAuthority
  | PollResetAfterSendResponse
  | SendPingWhilePending
  | SendSettingsWhilePending
  | PeerDisabledServerPush
  | BufferLimitExceeded

datatype initiator = User | Library | Remote

text \<open>
  The I/O error kinds the sources construct by name; the kinds the operating system reports are
  \<open>OtherKind\<close>, by number.
\<close>

datatype io_kind = BrokenPipe | InvalidInput | UnexpectedEof | OtherKind nat

datatype proto_error =
    PReset stream_id reason initiator
  | PGoAway bytes reason initiator
  | PIo io_kind "string option"

datatype send_error = SConnection proto_error | SUser user_error

fun initiator_is_local :: "initiator \<Rightarrow> bool" where
  "initiator_is_local User = True"
| "initiator_is_local Library = True"
| "initiator_is_local Remote = False"

definition initiator_is_library :: "initiator \<Rightarrow> bool" where
  "initiator_is_library i = (i = Library)"

fun proto_error_is_local :: "proto_error \<Rightarrow> bool" where
  "proto_error_is_local (PReset _ _ i) = initiator_is_local i"
| "proto_error_is_local (PGoAway _ _ i) = initiator_is_local i"
| "proto_error_is_local (PIo _ _) = True"

definition user_go_away :: "reason \<Rightarrow> proto_error" where
  "user_go_away r = PGoAway [] r User"

definition library_reset :: "stream_id \<Rightarrow> reason \<Rightarrow> proto_error" where
  "library_reset sid r = PReset sid r Library"

definition library_go_away :: "reason \<Rightarrow> proto_error" where
  "library_go_away r = PGoAway [] r Library"

definition library_go_away_data :: "reason \<Rightarrow> bytes \<Rightarrow> proto_error" where
  "library_go_away_data r d = PGoAway d r Library"

definition remote_reset :: "stream_id \<Rightarrow> reason \<Rightarrow> proto_error" where
  "remote_reset sid r = PReset sid r Remote"

definition remote_go_away :: "bytes \<Rightarrow> reason \<Rightarrow> proto_error" where
  "remote_go_away d r = PGoAway d r Remote"

lemmas proto_error_defs =
  user_go_away_def library_reset_def library_go_away_def library_go_away_data_def
  remote_reset_def remote_go_away_def

text \<open>Errors this endpoint raises itself are local; the ones its peer sends are not.\<close>

lemma proto_error_is_local_simps [simp]:
  "proto_error_is_local (user_go_away r)"
  "proto_error_is_local (library_reset sid r)"
  "proto_error_is_local (library_go_away r)"
  "proto_error_is_local (library_go_away_data r d)"
  "\<not> proto_error_is_local (remote_reset sid r)"
  "\<not> proto_error_is_local (remote_go_away d r)"
  by (simp_all add: proto_error_defs)

end
