(* ===== verification/Huffman.thy ===== *)
theory Huffman
  imports Huffman_Check Error_Types "HOL-Library.Sublist"
begin

text \<open>
  The HPACK Huffman coder (\<open>hpack/huffman/mod.rs\<close>): the bit-accumulating encoder and the decoder that
  reads four bits at a time through \<open>DECODE_TABLE\<close>. The reference is the code itself, a bit string per
  byte (\<open>huff_code\<close>). The main results: the encoder writes the codes of its input padded with ones to
  a byte boundary (\<open>huffman_encode_bits\<close>), and the decoder accepts exactly the strings of this form and
  returns the bytes coded (\<open>huffman_decode_iff\<close>).
\<close>

section \<open>The program\<close>

definition MAYBE_EOS :: u8 where "MAYBE_EOS = 1"
definition DECODED :: u8 where "DECODED = 2"
definition HUFF_ERROR :: u8 where "HUFF_ERROR = 4"

record huff_decoder =
  hd_state :: nat
  hd_maybe_eos :: bool

definition huff_decoder_new :: huff_decoder where
  "huff_decoder_new = \<lparr>hd_state = 0, hd_maybe_eos = False\<rparr>"

definition decode4 ::
  "huff_decoder \<Rightarrow> u8 \<Rightarrow> (u8 option \<times> huff_decoder, decoder_error) result" where
  "decode4 d input =
     (if hd_state d < length DECODE_TABLE \<and> unat input < length (DECODE_TABLE ! hd_state d) then
        (case DECODE_TABLE ! hd_state d ! unat input of (next, byte, flags) \<Rightarrow>
           if flags AND HUFF_ERROR = HUFF_ERROR then Err InvalidHuffmanCode
           else Ok (if flags AND DECODED = DECODED then Some byte else None,
                    \<lparr>hd_state = next, hd_maybe_eos = (flags AND MAYBE_EOS = MAYBE_EOS)\<rparr>))
      else Panic)"

definition huff_is_final :: "huff_decoder \<Rightarrow> bool" where
  "huff_is_final d = (hd_state d = 0 \<or> hd_maybe_eos d)"

definition put_opt :: "bytes \<Rightarrow> u8 option \<Rightarrow> bytes" where
  "put_opt buf r = (case r of Some b \<Rightarrow> buf @ [b] | None \<Rightarrow> buf)"

text \<open>
  The loop of \<open>decode\<close> over the source bytes. The output buffer is the caller's: it is returned with
  the outcome because a failing call leaves in it what was decoded before the failure.
\<close>

fun huff_decode_loop ::
  "huff_decoder \<Rightarrow> bytes \<Rightarrow> bytes \<Rightarrow> (huff_decoder, decoder_error) result \<times> bytes" where
  "huff_decode_loop d buf [] = (Ok d, buf)"
| "huff_decode_loop d buf (b # src) =
     (case decode4 d (drop_bit 4 b) of
        Err e \<Rightarrow> (Err e, buf)
      | Panic \<Rightarrow> (Panic, buf)
      | Ok (r1, d1) \<Rightarrow>
          let buf1 = put_opt buf r1 in
          (case decode4 d1 (b AND 0xf) of
             Err e \<Rightarrow> (Err e, buf1)
           | Panic \<Rightarrow> (Panic, buf1)
           | Ok (r2, d2) \<Rightarrow> huff_decode_loop d2 (put_opt buf1 r2) src))"

text \<open>\<open>decode\<close>: the outcome and the buffer left behind (\<open>buf.split()\<close> empties it on success).\<close>

definition huffman_decode ::
  "bytes \<Rightarrow> bytes \<Rightarrow> (bytes, decoder_error) result \<times> bytes" where
  "huffman_decode src buf =
     (case huff_decode_loop huff_decoder_new buf src of
        (Ok d, buf') \<Rightarrow> if \<not> huff_is_final d then (Err InvalidHuffmanCode, buf') else (Ok buf', [])
      | (Err e, buf') \<Rightarrow> (Err e, buf')
      | (Panic, buf') \<Rightarrow> (Panic, buf'))"

text \<open>The inner \<open>while bits_left <= 32\<close> loop of \<open>encode\<close>: bytes written, accumulator, bits left.\<close>

function huff_flush :: "u64 \<Rightarrow> nat \<Rightarrow> bytes \<times> u64 \<times> nat" where
  "huff_flush bits bits_left =
     (if bits_left \<le> 32
      then (case huff_flush (push_bit 8 bits) (bits_left + 8) of (out, r) \<Rightarrow>
              (ucast (drop_bit 32 bits) # out, r))
      else ([], bits, bits_left))"
  by pat_completeness auto
termination
  by (relation "measure (\<lambda>(b, n). 33 - n)") auto

declare huff_flush.simps [simp del]

fun huff_encode_loop :: "u64 \<Rightarrow> nat \<Rightarrow> bytes \<Rightarrow> bytes \<times> u64 \<times> nat" where
  "huff_encode_loop bits bits_left [] = ([], bits, bits_left)"
| "huff_encode_loop bits bits_left (b # src) =
     (case ENCODE_TABLE ! unat b of (nbits, code) \<Rightarrow>
        let bits1 = bits OR push_bit (bits_left - nbits) code;
            left1 = bits_left - nbits in
        case huff_flush bits1 left1 of (out1, bits2, left2) \<Rightarrow>
          (case huff_encode_loop bits2 left2 src of (out2, r) \<Rightarrow> (out1 @ out2, r)))"

definition huffman_encode :: "bytes \<Rightarrow> bytes" where
  "huffman_encode src =
     (case huff_encode_loop 0 40 src of (out, bits, bits_left) \<Rightarrow>
        if bits_left \<noteq> 40
        then out @ [ucast (drop_bit 32 (bits OR (push_bit bits_left 1 - 1)))]
        else out)"

section \<open>Bit strings\<close>

definition nbits :: "nat \<Rightarrow> nat \<Rightarrow> bool list" where
  "nbits n v = map (bit v) (rev [0..<n])"

lemma length_nbits [simp]: "length (nbits n v) = n"
  by (simp add: nbits_def)

lemma nbits_0 [simp]: "nbits 0 v = []"
  by (simp add: nbits_def)

lemma nth_nbits: "i < n \<Longrightarrow> nbits n v ! i = bit v (n - 1 - i)"
  by (simp add: nbits_def rev_nth)

lemma bit_mult_add:
  "w < 2 ^ m \<Longrightarrow> bit (v * 2 ^ m + w :: nat) i = (if i < m then bit w i else bit v (i - m))"
proof -
  assume w: "w < 2 ^ m"
  have "take_bit m (v * 2 ^ m + w) = w" using w by (simp add: take_bit_eq_mod)
  moreover have "drop_bit m (v * 2 ^ m + w) = v" using w by (simp add: drop_bit_eq_div)
  ultimately show ?thesis
    by (metis (no_types, lifting) bit_drop_bit_eq bit_take_bit_iff comp_apply le_add_diff_inverse not_less)
qed

lemma nbits_append: "w < 2 ^ m \<Longrightarrow> nbits (n + m) (v * 2 ^ m + w) = nbits n v @ nbits m w"
  by (rule nth_equalityI) (auto simp: nth_nbits nth_append bit_mult_add add.commute [of n m])

lemma take_nbits: "k \<le> n \<Longrightarrow> take k (nbits n v) = nbits k (v div 2 ^ (n - k))"
proof (rule nth_equalityI)
  fix i assume k: "k \<le> n" and "i < length (take k (nbits n v))"
  then have i: "i < k" by simp
  with k have "n - 1 - i = (n - k) + (k - 1 - i)" by simp
  then show "take k (nbits n v) ! i = nbits k (v div 2 ^ (n - k)) ! i"
    using i k by (simp add: nth_nbits bit_drop_bit_eq flip: drop_bit_eq_div)
qed simp

lemma nbits_inj: "v < 2 ^ n \<Longrightarrow> w < 2 ^ n \<Longrightarrow> nbits n v = nbits n w \<Longrightarrow> v = w"
proof -
  assume lt: "v < 2 ^ n" "w < 2 ^ n" and eq: "nbits n v = nbits n w"
  have "bit v i = bit w i" if "i < n" for i
  proof -
    from that have "n - 1 - (n - 1 - i) = i" by simp
    with that eq show ?thesis by (metis nth_nbits diff_less_Suc Suc_pred less_nat_zero_code
          bot_nat_0.not_eq_extremum diff_less zero_less_one diff_commute less_imp_diff_less)
  qed
  then have "take_bit n v = take_bit n w" by (intro bit_eqI) (auto simp: bit_take_bit_iff)
  with lt show "v = w" by (simp add: take_bit_nat_eq_self)
qed

lemma nbits_ones: "nbits n (2 ^ n - 1) = replicate n True"
proof -
  have "2 ^ n - 1 = (mask n :: nat)" by (simp add: mask_eq_exp_minus_1)
  then show ?thesis unfolding \<open>2 ^ n - 1 = mask n\<close>
    by (intro nth_equalityI) (auto simp: nth_nbits bit_mask_iff)
qed

lemma nbits_ones_Suc [simp]: "nbits n (2 ^ n - Suc 0) = replicate n True"
  using nbits_ones [of n] by simp

definition byte_bits :: "u8 \<Rightarrow> bool list" where
  "byte_bits b = nbits 8 (unat b)"

definition bytes_bits :: "bytes \<Rightarrow> bool list" where
  "bytes_bits bs = concat (map byte_bits bs)"

lemma bytes_bits_simps [simp]:
  "bytes_bits [] = []" "bytes_bits (b # bs) = byte_bits b @ bytes_bits bs"
  "bytes_bits (xs @ ys) = bytes_bits xs @ bytes_bits ys"
  by (simp_all add: bytes_bits_def)

lemma byte_bits_nibbles:
  "byte_bits b = nbits 4 (unat (drop_bit 4 b)) @ nbits 4 (unat (b AND 0xf))"
proof -
  have "(0xf :: u8) = mask 4" by (simp add: mask_eq_exp_minus_1)
  then have "b AND 0xf = take_bit 4 b" by (simp only: take_bit_eq_mask)
  then have "unat (b AND 0xf) = unat b mod 16"
    by (simp add: take_bit_eq_mod unat_mod)
  moreover have "unat (drop_bit 4 b) = unat b div 16"
    by (simp add: drop_bit_eq_div unat_div)
  ultimately show ?thesis
    using nbits_append [of "unat b mod 16" 4 4 "unat b div 16"] by (simp add: byte_bits_def)
qed

section \<open>The code\<close>

text \<open>The code of a symbol: of a byte, or of end-of-string (256).\<close>

definition huff_code :: "nat \<Rightarrow> bool list" where
  "huff_code b = (case ENCODE_TABLE ! b of (k, c) \<Rightarrow> nbits k (unat c))"

definition huff_codes :: "bytes \<Rightarrow> bool list" where
  "huff_codes bs = concat (map (\<lambda>b. huff_code (unat b)) bs)"

lemma huff_codes_simps [simp]:
  "huff_codes [] = []" "huff_codes (b # bs) = huff_code (unat b) @ huff_codes bs"
  "huff_codes (xs @ ys) = huff_codes xs @ huff_codes ys"
  by (simp_all add: huff_codes_def)

lemma unat_u8_lt: "unat (b :: u8) < 256"
  using unsigned_less [of b] by simp

lemma encode_table_entry:
  assumes "b < 257" and "ENCODE_TABLE ! b = (k, c)"
  shows "5 \<le> k" "k \<le> 30" "unat c < 2 ^ k"
  using encode_table_ok assms by (auto simp: list_all_length split: prod.splits)

lemma huff_code_256: "huff_code 256 = replicate 30 True"
  using nbits_ones [of 30] by (simp add: huff_code_def encode_table_nth)

lemma code_interval_nonempty: "fst (code_interval b) < snd (code_interval b)"
  by (auto simp: code_interval_def split: prod.splits)

lemma huff_order_sorted:
  "sorted_wrt (\<lambda>a b. snd (code_interval a) \<le> fst (code_interval b)) HUFF_ORDER"
proof (subst successively_iff_sorted_wrt_strong [symmetric])
  show "successively (\<lambda>a b. snd (code_interval a) \<le> fst (code_interval b)) HUFF_ORDER"
    by (rule successively_mono [OF code_intervals]) simp
next
  fix a b c assume "snd (code_interval a) \<le> fst (code_interval b)"
    and "snd (code_interval b) \<le> fst (code_interval c)"
  with code_interval_nonempty [of b] show "snd (code_interval a) \<le> fst (code_interval c)" by linarith
qed

lemma huff_order_set: "set HUFF_ORDER = {..<257}"
proof -
  have "distinct HUFF_ORDER"
    unfolding distinct_conv_nth
    using huff_order_sorted code_interval_nonempty
    by (metis linorder_neqE_nat not_le sorted_wrt_iff_nth_less)
  then have "card (set HUFF_ORDER) = card {..<257::nat}"
    using huff_order_range(1) by (simp add: distinct_card)
  moreover have "set HUFF_ORDER \<subseteq> {..<257}"
    using huff_order_range(2) by (auto simp: list_all_iff)
  ultimately show ?thesis by (simp add: card_subset_eq)
qed

lemma code_intervals_disjoint:
  assumes "a < 257" "b < 257" "a \<noteq> b"
  shows "snd (code_interval a) \<le> fst (code_interval b) \<or> snd (code_interval b) \<le> fst (code_interval a)"
proof -
  from assms obtain i j where "i < 257" "j < 257" "HUFF_ORDER ! i = a" "HUFF_ORDER ! j = b"
    using huff_order_set huff_order_range(1) by (metis in_set_conv_nth lessThan_iff)
  with assms(3) huff_order_range(1) show ?thesis
    using huff_order_sorted unfolding sorted_wrt_iff_nth_less by (metis linorder_neqE_nat)
qed

text \<open>The Huffman code is prefix-free.\<close>

lemma huff_code_prefix_free:
  assumes a: "a < 257" and b: "b < 257" and p: "prefix (huff_code a) (huff_code b)"
  shows "a = b"
proof (rule ccontr)
  assume "a \<noteq> b"
  obtain k c where ea: "ENCODE_TABLE ! a = (k, c)" by fastforce
  obtain k' c' where eb: "ENCODE_TABLE ! b = (k', c')" by fastforce
  note ka = encode_table_entry [OF a ea] and kb = encode_table_entry [OF b eb]
  from p have le: "k \<le> k'" using prefix_length_le by (fastforce simp: huff_code_def ea eb)
  define m where "m = k' - k"
  from p have "nbits k (unat c) = take k (nbits k' (unat c'))"
    by (auto simp: huff_code_def ea eb prefix_def)
  then have eq: "nbits k (unat c) = nbits k (unat c' div 2 ^ m)"
    using le by (simp add: take_nbits m_def)
  have "unat c' < 2 ^ k * 2 ^ m" using kb le by (simp add: m_def flip: power_add)
  then have "unat c' div 2 ^ m < 2 ^ k" by (simp add: less_mult_imp_div_less)
  with eq ka have c: "unat c = unat c' div 2 ^ m" by (blast intro: nbits_inj)
  have split: "2 ^ (30 - k) = 2 ^ m * (2 ^ (30 - k') :: nat)"
    using le kb by (simp add: m_def flip: power_add)
  have lo: "unat c * 2 ^ m \<le> unat c'" using c by simp
  have hi: "unat c' < (unat c + 1) * 2 ^ m"
    using c dividend_less_div_times [of "2 ^ m" "unat c'"] by (simp add: algebra_simps)
  have "fst (code_interval a) \<le> fst (code_interval b)"
    using mult_right_mono [OF lo, of "2 ^ (30 - k')"] by (simp add: code_interval_def ea eb split mult.assoc)
  moreover have "snd (code_interval a) = (unat c + 1) * 2 ^ m * 2 ^ (30 - k')"
    by (simp only: code_interval_def ea prod.case snd_conv split mult.assoc)
  then have "fst (code_interval b) < snd (code_interval a)"
    using mult_strict_right_mono [OF hi, of "2 ^ (30 - k')"] by (simp add: code_interval_def eb)
  ultimately show False
    using code_intervals_disjoint [OF a b \<open>a \<noteq> b\<close>] code_interval_nonempty [of b] by linarith
qed

text \<open>
  A bit string that decodes symbol by symbol and ends inside a code, or at an end-of-string code,
  decodes in one way only.
\<close>

definition huff_ends :: "bool list \<Rightarrow> bool" where
  "huff_ends r = ((\<exists>b < 257. strict_prefix r (huff_code b)) \<or> prefix (huff_code 256) r)"

lemma huff_code_not_in_end:
  assumes "huff_ends r" "b < 256"
  shows "\<not> prefix (huff_code b) r"
proof
  assume p: "prefix (huff_code b) r"
  from assms(1) consider b' where "b' < 257" "strict_prefix r (huff_code b')"
    | "prefix (huff_code 256) r"
    by (auto simp: huff_ends_def)
  then show False
  proof cases
    case 1
    then have "strict_prefix (huff_code b) (huff_code b')" using p by (meson prefix_order.le_less_trans)
    with 1 assms(2) huff_code_prefix_free [of b b'] show False
      by (auto simp: strict_prefix_def)
  next
    case 2
    then consider "prefix (huff_code b) (huff_code 256)" | "prefix (huff_code 256) (huff_code b)"
      using p prefix_same_cases by blast
    then show False using assms(2) huff_code_prefix_free [of b 256] huff_code_prefix_free [of 256 b]
      by cases auto
  qed
qed

lemma huff_code_not_ones:
  assumes "b < 256" shows "\<not> prefix (huff_code b) (replicate n True)"
proof
  assume "prefix (huff_code b) (replicate n True)"
  then have "\<forall>x \<in> set (huff_code b). x = True" by (auto dest!: set_mono_prefix)
  then have ones: "huff_code b = replicate (length (huff_code b)) True"
    by (metis replicate_length_same)
  obtain k c where e: "ENCODE_TABLE ! b = (k, c)" by fastforce
  have "length (huff_code b) \<le> 30"
    using encode_table_entry [OF _ e] assms by (simp add: huff_code_def e)
  then have "take (length (huff_code b)) (huff_code 256) = huff_code b"
    by (subst ones) (simp add: huff_code_256)
  then have "prefix (huff_code b) (huff_code 256)" by (metis take_is_prefix)
  with huff_code_prefix_free [of b 256] assms show False by simp
qed

lemma huff_codes_unique:
  assumes "huff_codes o1 @ r = huff_codes xs @ replicate pad True" and "huff_ends r"
  shows "o1 = xs \<and> r = replicate pad True"
  using assms(1)
proof (induction o1 arbitrary: xs)
  case Nil
  show ?case
  proof (cases xs)
    case (Cons x xs')
    with Nil have "prefix (huff_code (unat x)) r" by simp
    with huff_code_not_in_end [OF assms(2) unat_u8_lt] show ?thesis by blast
  qed (use Nil in simp)
next
  case (Cons y ys)
  show ?case
  proof (cases xs)
    case Nil
    with Cons.prems have "prefix (huff_code (unat y)) (replicate pad True)"
      by (metis append.assoc huff_codes_simps(1,2) prefixI self_append_conv2)
    with huff_code_not_ones [OF unat_u8_lt] show ?thesis by blast
  next
    case (Cons x xs')
    with Cons.prems have eq: "huff_code (unat y) @ (huff_codes ys @ r)
        = huff_code (unat x) @ (huff_codes xs' @ replicate pad True)" by simp
    then have "prefix (huff_code (unat y)) (huff_code (unat x))
        \<or> prefix (huff_code (unat x)) (huff_code (unat y))"
      by (metis prefixI prefix_same_cases)
    then have "unat y = unat x"
      using huff_code_prefix_free [of "unat y" "unat x"] huff_code_prefix_free [of "unat x" "unat y"]
        unat_u8_lt [of x] unat_u8_lt [of y] by auto
    then have "y = x" by (rule unsigned_word_eqI)
    with eq Cons.IH [of xs'] \<open>xs = x # xs'\<close> show ?thesis by simp
  qed
qed

section \<open>The decoder\<close>

text \<open>The bits a decoder state stands for.\<close>

definition state_bits :: "nat \<Rightarrow> bool list" where
  "state_bits s = (case HUFF_STATES ! s of (n, v, _) \<Rightarrow> nbits n v)"

lemma state_entry:
  assumes "s < 256" and "HUFF_STATES ! s = (n, v, b)"
  shows "b < 257" "\<exists>k c. ENCODE_TABLE ! b = (k, c) \<and> n < k \<and> unat c div 2 ^ (k - n) = v"
    "v < 2 ^ n" "n = 0 \<longleftrightarrow> s = 0"
proof -
  obtain k c where kc: "ENCODE_TABLE ! b = (k, c)" by fastforce
  have "b < 257 \<and> n < k \<and> unat c div 2 ^ (k - n) = v"
    using huff_states_ok assms kc by (auto simp: list_all_length split: prod.splits)
  with kc show b: "b < 257"
    and ex: "\<exists>k c. ENCODE_TABLE ! b = (k, c) \<and> n < k \<and> unat c div 2 ^ (k - n) = v" by auto
  from ex obtain k c where e: "ENCODE_TABLE ! b = (k, c)" "n < k" "unat c div 2 ^ (k - n) = v" by blast
  have "unat c < 2 ^ n * 2 ^ (k - n)"
    using encode_table_entry [OF b e(1)] e(2) by (simp flip: power_add)
  with e(3) show "v < 2 ^ n" by (auto simp: less_mult_imp_div_less)
  show "n = 0 \<longleftrightarrow> s = 0"
    using huff_states_zero assms huff_states_ok(1) by (auto simp: list_all_length split: prod.splits)
qed

lemma state_bits_ends: "s < 256 \<Longrightarrow> huff_ends (state_bits s)"
proof -
  assume s: "s < 256"
  obtain n v b where st: "HUFF_STATES ! s = (n, v, b)" by (metis prod_cases3)
  note e = state_entry [OF s st]
  then obtain k c where kc: "ENCODE_TABLE ! b = (k, c)" "n < k" "unat c div 2 ^ (k - n) = v" by blast
  then have "state_bits s = take n (huff_code b)"
    by (simp add: state_bits_def st huff_code_def take_nbits)
  moreover have "length (state_bits s) < length (huff_code b)"
    using kc by (simp add: state_bits_def st huff_code_def)
  ultimately have "strict_prefix (state_bits s) (huff_code b)"
    by (metis strict_prefixI take_is_prefix nat_less_le)
  with e(1) show ?thesis by (auto simp: huff_ends_def)
qed

lemma state_bits_Nil: "s < 256 \<Longrightarrow> state_bits s = [] \<longleftrightarrow> s = 0"
proof -
  assume s: "s < 256"
  obtain n v b where st: "HUFF_STATES ! s = (n, v, b)" by (metis prod_cases3)
  have "length (state_bits s) = n" by (simp add: state_bits_def st)
  with state_entry(4) [OF s st] show ?thesis by auto
qed

lemma decode_table_row: "s < 256 \<Longrightarrow> row_ok (HUFF_STATES ! s) (DECODE_TABLE ! s)"
  using decode_table_ok huff_states_ok(1) by (simp add: list_all2_conv_all_nth)

lemma decode_table_length: "length DECODE_TABLE = 256" "s < 256 \<Longrightarrow> length (DECODE_TABLE ! s) = 16"
  using decode_table_ok huff_states_ok(1) decode_table_row
  by (auto simp: list_all2_conv_all_nth row_ok_def dest: list_all2_lengthD)

lemma decode_table_entry:
  assumes "s < 256" "i < 16"
  shows "entry_ok (HUFF_STATES ! s) i (DECODE_TABLE ! s ! i)"
  using decode_table_row [OF assms(1)] assms(2) by (simp add: row_ok_def list_all2_conv_all_nth)

text \<open>What the decoder has read since the last symbol, and when it may stop.\<close>

definition huff_inv :: "huff_decoder \<Rightarrow> bool" where
  "huff_inv d = (hd_state d < 256 \<and>
     (huff_is_final d \<longleftrightarrow> (\<exists>n < 8. state_bits (hd_state d) = replicate n True)))"

definition opt_codes :: "u8 option \<Rightarrow> bool list" where
  "opt_codes r = (case r of None \<Rightarrow> [] | Some b \<Rightarrow> huff_code (unat b))"

lemma state_bits_ones:
  assumes "s < 256" and "HUFF_STATES ! s = (n, v, b)"
  shows "(\<exists>m < 8. state_bits s = replicate m True) \<longleftrightarrow> n < 8 \<and> v = 2 ^ n - 1"
proof -
  have "n = m \<and> v = 2 ^ n - 1" if "state_bits s = replicate m True" for m
  proof -
    from that have eq: "nbits n v = replicate m True" by (simp add: state_bits_def assms(2))
    then have "n = m" by (metis length_nbits length_replicate)
    with eq have "nbits n v = nbits n (2 ^ n - 1)" by (simp only: nbits_ones)
    with \<open>n = m\<close> show ?thesis using nbits_inj [OF state_entry(3) [OF assms], of "2 ^ n - 1"] by simp
  qed
  moreover have "v = 2 ^ n - 1 \<Longrightarrow> state_bits s = replicate n True"
    by (simp add: state_bits_def assms(2) nbits_ones)
  ultimately show ?thesis by blast
qed

lemma decode4_step:
  assumes d: "hd_state d < 256" and i: "unat i < 16"
  shows "decode4 d i \<noteq> Panic"
    and "decode4 d i = Err e \<Longrightarrow>
           e = InvalidHuffmanCode \<and> prefix (huff_code 256) (state_bits (hd_state d) @ nbits 4 (unat i))"
    and "decode4 d i = Ok (r, d') \<Longrightarrow> huff_inv d' \<and>
           state_bits (hd_state d) @ nbits 4 (unat i) = opt_codes r @ state_bits (hd_state d')"
proof -
  obtain n v b where st: "HUFF_STATES ! hd_state d = (n, v, b)" by (metis prod_cases3)
  obtain nx byte fl where en: "DECODE_TABLE ! hd_state d ! unat i = (nx, byte, fl)" by (metis prod_cases3)
  have ok: "entry_ok (n, v, b) (unat i) (nx, byte, fl)"
    using decode_table_entry [OF d i] by (simp add: st en)
  have bits: "state_bits (hd_state d) @ nbits 4 (unat i) = nbits (n + 4) (16 * v + unat i)"
    using nbits_append [of "unat i" 4 n v] i by (simp add: state_bits_def st mult.commute)
  have len: "hd_state d < length DECODE_TABLE" "unat i < length (DECODE_TABLE ! hd_state d)"
    using d i by (simp_all add: decode_table_length)
  show "decode4 d i \<noteq> Panic" by (simp add: decode4_def len en)
  show "e = InvalidHuffmanCode \<and> prefix (huff_code 256) (state_bits (hd_state d) @ nbits 4 (unat i))"
    if "decode4 d i = Err e"
  proof -
    from that have fl: "fl AND 4 = 4" and e: "e = InvalidHuffmanCode"
      by (auto simp: decode4_def len en HUFF_ERROR_def split: if_splits)
    with ok have "take 30 (nbits (n + 4) (16 * v + unat i)) = huff_code 256"
      by (simp add: entry_ok_def take_nbits huff_code_256 nbits_ones [of 30, simplified])
    then show ?thesis unfolding bits using e by (metis take_is_prefix)
  qed
  show "huff_inv d' \<and> state_bits (hd_state d) @ nbits 4 (unat i) = opt_codes r @ state_bits (hd_state d')"
    if "decode4 d i = Ok (r, d')"
  proof -
    from that have nf: "fl AND 4 \<noteq> 4" and r: "r = (if fl AND 2 = 2 then Some byte else None)"
      and d': "hd_state d' = nx" "hd_maybe_eos d' = (fl AND 1 = 1)"
      by (auto simp: decode4_def len en HUFF_ERROR_def DECODED_def MAYBE_EOS_def split: if_splits)
    obtain n' v' b' where st': "HUFF_STATES ! nx = (n', v', b')" by (metis prod_cases3)
    obtain k c where kc: "ENCODE_TABLE ! unat byte = (k, c)" by fastforce
    from ok nf have nx: "nx < 256"
      and eos: "fl AND 1 = 1 \<longleftrightarrow> 0 < n' \<and> n' < 8 \<and> v' = 2 ^ n' - 1"
      by (simp_all add: entry_ok_def st')
    note e' = state_entry [OF nx st']
    have "huff_inv d'"
      using e'(3,4) nx eos by (auto simp: huff_inv_def huff_is_final_def d' state_bits_ones [OF nx st'])
    moreover have "nbits (n + 4) (16 * v + unat i) = opt_codes r @ state_bits nx"
    proof (cases "fl AND 2 = 2")
      case True
      with ok nf have "n + 4 = k + n'" "16 * v + unat i = unat c * 2 ^ n' + v'"
        by (simp_all add: entry_ok_def st' kc)
      then show ?thesis using True r nbits_append [OF e'(3), of k "unat c"]
        by (simp add: opt_codes_def huff_code_def kc state_bits_def st')
    next
      case False
      with ok nf r show ?thesis by (simp add: entry_ok_def st' opt_codes_def state_bits_def)
    qed
    ultimately show ?thesis unfolding bits d' by blast
  qed
qed

lemma put_opt_eq: "put_opt buf r = buf @ (case r of None \<Rightarrow> [] | Some b \<Rightarrow> [b])"
  by (simp add: put_opt_def split: option.splits)

lemma opt_codes_eq: "opt_codes r = huff_codes (case r of None \<Rightarrow> [] | Some b \<Rightarrow> [b])"
  by (simp add: opt_codes_def split: option.splits)

text \<open>
  The loop invariant, for every outcome: the bits read are the codes of the bytes appended to the
  buffer, followed by the bits pending in the final state or by an end-of-string code.
\<close>

lemma nibble_lt: "unat (drop_bit 4 (b :: u8)) < 16" "unat (b AND 0xf) < 16"
proof -
  show "unat (drop_bit 4 b) < 16" using unat_u8_lt [of b] by (simp add: drop_bit_eq_div unat_div)
  have "unat (b AND 0xf) \<le> unat (0xf :: u8)"
    by (rule word_and_le1 [THEN word_le_nat_alt [THEN iffD1]])
  then show "unat (b AND 0xf) < 16" by simp
qed

lemma huff_decode_loop_spec:
  assumes "hd_state d < 256" and "huff_inv d"
  shows "\<exists>os r. state_bits (hd_state d) @ bytes_bits src = huff_codes os @ r
    \<and> snd (huff_decode_loop d buf src) = buf @ os
    \<and> (case fst (huff_decode_loop d buf src) of
         Ok d' \<Rightarrow> huff_inv d' \<and> r = state_bits (hd_state d')
       | Err e \<Rightarrow> e = InvalidHuffmanCode \<and> prefix (huff_code 256) r
       | Panic \<Rightarrow> False)"
  using assms
proof (induction src arbitrary: d buf)
  case (Cons b src)
  note s1 = decode4_step [OF Cons.prems(1) nibble_lt(1) [of b]]
  let ?hi = "nbits 4 (unat (drop_bit 4 b))" and ?lo = "nbits 4 (unat (b AND 0xf))"
  show ?case
  proof (cases "decode4 d (drop_bit 4 b)")
    case (Err e)
    with s1(2) obtain z where "state_bits (hd_state d) @ ?hi = huff_code 256 @ z"
      by (auto simp: prefix_def)
    then have "state_bits (hd_state d) @ bytes_bits (b # src)
        = huff_codes [] @ (huff_code 256 @ z @ ?lo @ bytes_bits src)"
      by (simp add: byte_bits_nibbles flip: append_assoc)
    moreover have "prefix (huff_code 256) (huff_code 256 @ z @ ?lo @ bytes_bits src)" by simp
    ultimately show ?thesis using Err s1(2) by fastforce
  next
    case (Ok rd)
    obtain r1 d1 where o1: "decode4 d (drop_bit 4 b) = Ok (r1, d1)" using Ok by (cases rd) auto
    with s1(3) have inv1: "huff_inv d1"
      and eq1: "state_bits (hd_state d) @ ?hi = opt_codes r1 @ state_bits (hd_state d1)" by auto
    then have st1: "hd_state d1 < 256" by (simp add: huff_inv_def)
    note s2 = decode4_step [OF st1 nibble_lt(2) [of b]]
    show ?thesis
    proof (cases "decode4 d1 (b AND 0xf)")
      case (Err e)
      with s2(2) obtain z where "state_bits (hd_state d1) @ ?lo = huff_code 256 @ z"
        by (auto simp: prefix_def)
      with eq1 have "state_bits (hd_state d) @ bytes_bits (b # src)
          = huff_codes (case r1 of None \<Rightarrow> [] | Some b \<Rightarrow> [b]) @ (huff_code 256 @ z @ bytes_bits src)"
        by (simp add: byte_bits_nibbles flip: append_assoc opt_codes_eq) (metis append.assoc)
      moreover have "prefix (huff_code 256) (huff_code 256 @ z @ bytes_bits src)" by simp
      ultimately show ?thesis using Err o1 s2(2)
        by (intro exI [of _ "case r1 of None \<Rightarrow> [] | Some b \<Rightarrow> [b]"]
            exI [of _ "huff_code 256 @ z @ bytes_bits src"]) (simp add: put_opt_eq Let_def)
    next
      case (Ok rd2)
      obtain r2 d2 where o2: "decode4 d1 (b AND 0xf) = Ok (r2, d2)" using Ok by (cases rd2) auto
      with s2(3) have inv2: "huff_inv d2"
        and eq2: "state_bits (hd_state d1) @ ?lo = opt_codes r2 @ state_bits (hd_state d2)" by auto
      then have st2: "hd_state d2 < 256" by (simp add: huff_inv_def)
      let ?buf = "put_opt (put_opt buf r1) r2"
      from Cons.IH [OF st2 inv2, of ?buf] obtain os r where
        IH: "state_bits (hd_state d2) @ bytes_bits src = huff_codes os @ r"
          "snd (huff_decode_loop d2 ?buf src) = ?buf @ os"
          "case fst (huff_decode_loop d2 ?buf src) of
             Ok d' \<Rightarrow> huff_inv d' \<and> r = state_bits (hd_state d')
           | Err e \<Rightarrow> e = InvalidHuffmanCode \<and> prefix (huff_code 256) r | Panic \<Rightarrow> False"
        by blast
      have "state_bits (hd_state d) @ bytes_bits (b # src)
          = (opt_codes r1 @ opt_codes r2 @ huff_codes os) @ r"
        using eq1 eq2 IH(1) by (simp add: byte_bits_nibbles) (metis append.assoc)
      then show ?thesis
        using IH(2,3) o1 o2
        by (intro exI [of _ "(case r1 of None \<Rightarrow> [] | Some b \<Rightarrow> [b])
              @ (case r2 of None \<Rightarrow> [] | Some b \<Rightarrow> [b]) @ os"] exI [of _ r])
          (simp add: put_opt_eq opt_codes_eq Let_def)
    qed (use s2(1) in simp)
  qed (use s1(1) in simp)
qed simp

text \<open>
  The decoder accepts exactly the strings that are the codes of some bytes padded with fewer than
  eight ones, and returns those bytes; everything else is \<open>InvalidHuffmanCode\<close>.
\<close>

lemma huff_inv_new: "huff_inv huff_decoder_new"
  by (auto simp: huff_inv_def huff_decoder_new_def huff_is_final_def state_bits_Nil intro!: exI [of _ 0])

lemma huffman_decode_cases:
  obtains (ok) out pad where "huffman_decode src buf = (Ok (buf @ out), [])"
      "pad < 8" "bytes_bits src = huff_codes out @ replicate pad True"
  | (err) out where "huffman_decode src buf = (Err InvalidHuffmanCode, buf @ out)"
      "\<And>out pad. pad < 8 \<Longrightarrow> bytes_bits src \<noteq> huff_codes out @ replicate pad True"
proof -
  have d0: "hd_state huff_decoder_new < 256" "state_bits (hd_state huff_decoder_new) = []"
    by (simp_all add: huff_decoder_new_def state_bits_Nil)
  obtain os r where bits: "bytes_bits src = huff_codes os @ r"
    and buf: "snd (huff_decode_loop huff_decoder_new buf src) = buf @ os"
    and res: "case fst (huff_decode_loop huff_decoder_new buf src) of
        Ok d' \<Rightarrow> huff_inv d' \<and> r = state_bits (hd_state d')
      | Err e \<Rightarrow> e = InvalidHuffmanCode \<and> prefix (huff_code 256) r | Panic \<Rightarrow> False"
    using huff_decode_loop_spec [OF d0(1) huff_inv_new, of src buf] d0(2) by auto
  have ends: "huff_ends r"
    using res state_bits_ends by (auto simp: huff_inv_def huff_ends_def split: result.splits)
  show thesis
  proof (cases "\<exists>pad < 8. r = replicate pad True")
    case True
    then obtain pad where pad: "pad < 8" "r = replicate pad True" by blast
    then have "\<not> prefix (huff_code 256) r"
      by (auto simp: huff_code_256 dest: prefix_length_le)
    with res pad obtain d' where "fst (huff_decode_loop huff_decoder_new buf src) = Ok d'" "huff_is_final d'"
      by (auto simp: huff_inv_def split: result.splits)
    with buf have "huffman_decode src buf = (Ok (buf @ os), [])"
      by (cases "huff_decode_loop huff_decoder_new buf src") (simp add: huffman_decode_def)
    with pad bits show thesis by (blast intro: ok)
  next
    case False
    then have "bytes_bits src \<noteq> huff_codes out @ replicate pad True" if "pad < 8" for out pad
      using that huff_codes_unique [OF _ ends] bits by metis
    moreover have "huffman_decode src buf = (Err InvalidHuffmanCode, buf @ os)"
      using buf res False
      by (cases "huff_decode_loop huff_decoder_new buf src")
        (auto simp: huffman_decode_def huff_inv_def split: result.splits)
    ultimately show thesis by (blast intro: err)
  qed
qed

lemma huffman_decode_iff:
  "fst (huffman_decode src buf) = Ok res \<longleftrightarrow>
     (\<exists>out pad. pad < 8 \<and> res = buf @ out \<and> bytes_bits src = huff_codes out @ replicate pad True)"
proof (cases rule: huffman_decode_cases [of src buf])
  case (ok out pad)
  have "huff_ends (replicate pad True)"
  proof -
    have "take pad (huff_code 256) = replicate pad True" using ok(2) by (simp add: huff_code_256)
    moreover have "length (replicate pad True) < length (huff_code 256)"
      using ok(2) by (simp add: huff_code_256)
    ultimately have "strict_prefix (replicate pad True) (huff_code 256)"
      by (metis strict_prefixI take_is_prefix nat_less_le)
    then show ?thesis unfolding huff_ends_def by (intro disjI1 exI [of _ 256]) simp
  qed
  then have "out' = out" if "bytes_bits src = huff_codes out' @ replicate pad' True" for out' pad'
    using huff_codes_unique [of out "replicate pad True" out' pad'] ok(3) that by auto
  then have "(\<exists>out' pad'. pad' < 8 \<and> res = buf @ out' \<and>
      bytes_bits src = huff_codes out' @ replicate pad' True) \<longleftrightarrow> res = buf @ out"
    using ok(2,3) by blast
  with ok(1) show ?thesis by auto
next
  case err
  then show ?thesis by (metis fst_conv result.distinct(1))
qed

section \<open>The encoder\<close>

text \<open>
  The accumulator holds the bits not yet written at positions 39 downwards, with zeros below; bits
  above position 39 have been written and are never looked at again.
\<close>

definition huff_acc :: "u64 \<Rightarrow> nat \<Rightarrow> bool list \<Rightarrow> bool" where
  "huff_acc bits left pend \<longleftrightarrow> left + length pend = 40 \<and> (\<forall>i < left. \<not> bit bits i)
     \<and> (\<forall>i < length pend. bit bits (39 - i) = pend ! i)"

lemma nth_byte_bits: "i < 8 \<Longrightarrow> byte_bits b ! i = bit b (7 - i)"
  by (simp add: byte_bits_def nth_nbits bit_unsigned_iff)

lemma byte_bits_of_acc:
  "i < 8 \<Longrightarrow> byte_bits (ucast (drop_bit 32 (w :: u64))) ! i = bit w (39 - i)"
  by (auto simp: nth_byte_bits bit_simps)

lemma length_byte_bits [simp]: "length (byte_bits b) = 8"
  by (simp add: byte_bits_def)

lemma huff_flush_spec:
  assumes "huff_acc bits left pend" and "huff_flush bits left = (out, bits', left')"
  shows "33 \<le> left' \<and> (\<exists>pend'. pend = bytes_bits out @ pend' \<and> huff_acc bits' left' pend')"
  using assms
proof (induction bits left arbitrary: pend out bits' left' rule: huff_flush.induct)
  case (1 bits left)
  show ?case
  proof (cases "left \<le> 32")
    case True
    let ?b = "ucast (drop_bit 32 bits) :: u8"
    obtain out2 where rec: "huff_flush (push_bit 8 bits) (left + 8) = (out2, bits', left')"
      and out: "out = ?b # out2"
      using "1.prems"(2) True by (subst (asm) huff_flush.simps) (auto split: prod.splits)
    have len: "8 \<le> length pend" using "1.prems"(1) True by (auto simp: huff_acc_def)
    have "byte_bits ?b = take 8 pend"
      using "1.prems"(1) len
      by (intro nth_equalityI) (auto simp: byte_bits_of_acc huff_acc_def)
    moreover have "bit bits (31 - i) = pend ! (8 + i)" if "i < length pend - 8" for i
      using "1.prems"(1) that by (auto simp: huff_acc_def dest!: spec [of _ "8 + i"])
    then have "huff_acc (push_bit 8 bits) (left + 8) (drop 8 pend)"
      using "1.prems"(1) len by (auto simp: huff_acc_def bit_simps)
    from "1.IH" [OF True this rec] obtain pend' where
      "33 \<le> left'" "drop 8 pend = bytes_bits out2 @ pend'" "huff_acc bits' left' pend'" by blast
    ultimately show ?thesis using out by (metis append_take_drop_id append.assoc bytes_bits_simps(2))
  next
    case False
    with "1.prems" show ?thesis by (auto simp: huff_flush.simps [of bits left])
  qed
qed

lemma bit_ge_False: "unat c < 2 ^ n \<Longrightarrow> n \<le> i \<Longrightarrow> \<not> bit (c :: u64) i"
proof -
  assume c: "unat c < 2 ^ n" and i: "n \<le> i"
  then have "take_bit n (unat c) = unat c" by (simp add: take_bit_nat_eq_self)
  then have "\<not> bit (unat c) i" using i by (metis bit_take_bit_iff not_less)
  then show ?thesis by (auto simp: bit_unsigned_iff dest: bit_imp_le_length)
qed

lemma huff_acc_add:
  assumes acc: "huff_acc bits left pend" and n: "n \<le> left" and c: "unat c < 2 ^ n"
  shows "huff_acc (bits OR push_bit (left - n) c) (left - n) (pend @ nbits n (unat c))"
proof -
  have len: "left + length pend = 40" using acc by (simp add: huff_acc_def)
  have "bit (bits OR push_bit (left - n) c) (39 - i) = (pend @ nbits n (unat c)) ! i"
    if i: "i < length pend + n" for i
  proof (cases "i < length pend")
    case True
    then have "n \<le> 39 - i - (left - n)" using len n by linarith
    then show ?thesis using True acc bit_ge_False [OF c] by (simp add: huff_acc_def nth_append bit_simps)
  next
    case False
    with i len n have lt: "39 - i < left" by linarith
    have "39 - i - (left - n) = n - 1 - (i - length pend)" "left - n \<le> 39 - i"
      using False i len n by linarith+
    then show ?thesis
      using False i lt acc by (simp add: huff_acc_def nth_append nth_nbits bit_simps bit_unsigned_iff)
  qed
  then show ?thesis using acc n by (auto simp: huff_acc_def bit_simps)
qed

lemma huff_encode_loop_spec:
  assumes "huff_acc bits left pend" and "33 \<le> left"
    and "huff_encode_loop bits left src = (out, bits', left')"
  shows "33 \<le> left' \<and>
    (\<exists>pend'. pend @ huff_codes src = bytes_bits out @ pend' \<and> huff_acc bits' left' pend')"
  using assms
proof (induction src arbitrary: bits left pend out)
  case (Cons b src)
  obtain n c where e: "ENCODE_TABLE ! unat b = (n, c)" by fastforce
  have n: "n \<le> 30" "unat c < 2 ^ n" using encode_table_entry [OF _ e] unat_u8_lt [of b] by auto
  let ?bits = "bits OR push_bit (left - n) c"
  obtain out1 bits2 left2 where fl: "huff_flush ?bits (left - n) = (out1, bits2, left2)"
    by (metis prod_cases3)
  with Cons.prems(3) obtain out2 where rec: "huff_encode_loop bits2 left2 src = (out2, bits', left')"
    and out: "out = out1 @ out2"
    by (auto simp: e Let_def split: prod.splits)
  have "huff_acc ?bits (left - n) (pend @ huff_code (unat b))"
    using huff_acc_add [OF Cons.prems(1) _ n(2)] n(1) Cons.prems(2) by (simp add: huff_code_def e)
  from huff_flush_spec [OF this fl] obtain pend2 where
    l2: "33 \<le> left2" and p2: "pend @ huff_code (unat b) = bytes_bits out1 @ pend2"
    and a2: "huff_acc bits2 left2 pend2" by blast
  from Cons.IH [OF a2 l2 rec] obtain pend' where "33 \<le> left'"
    "pend2 @ huff_codes src = bytes_bits out2 @ pend'" "huff_acc bits' left' pend'" by blast
  then show ?case using p2 out by (metis append.assoc huff_codes_simps(2) bytes_bits_simps(3))
qed auto

text \<open>The encoder writes the codes of its input, padded with ones to a byte boundary.\<close>

lemma huffman_encode_bits:
  "\<exists>pad < 8. bytes_bits (huffman_encode src) = huff_codes src @ replicate pad True"
proof -
  obtain out bits left where loop: "huff_encode_loop 0 40 src = (out, bits, left)" by (metis prod_cases3)
  have "huff_acc 0 40 []" by (simp add: huff_acc_def)
  from huff_encode_loop_spec [OF this _ loop] obtain pend where
    l: "33 \<le> left" and p: "huff_codes src = bytes_bits out @ pend" and a: "huff_acc bits left pend"
    by auto
  have len: "left + length pend = 40" using a by (simp add: huff_acc_def)
  show ?thesis
  proof (cases "left = 40")
    case True
    with loop p len show ?thesis by (auto simp: huffman_encode_def intro!: exI [of _ 0])
  next
    case False
    let ?b = "ucast (drop_bit 32 (bits OR (push_bit left 1 - 1))) :: u8"
    have mask: "push_bit left 1 - 1 = (mask left :: u64)" by (simp add: mask_eq_exp_minus_1 push_bit_eq_mult)
    have "byte_bits ?b = pend @ replicate (8 - length pend) True"
    proof (rule nth_equalityI)
      fix i assume "i < length (byte_bits ?b)"
      then have i: "i < 8" by simp
      then have "byte_bits ?b ! i = (bit bits (39 - i) \<or> 39 - i < left)"
        unfolding mask by (subst byte_bits_of_acc [OF i]) (auto simp: bit_simps)
      also have "\<dots> = (pend @ replicate (8 - length pend) True) ! i"
        using a i len l by (auto simp: huff_acc_def nth_append)
      finally show "byte_bits ?b ! i = (pend @ replicate (8 - length pend) True) ! i" .
    qed (use len l in simp)
    with loop p False len l show ?thesis
      by (auto simp: huffman_encode_def intro!: exI [of _ "8 - length pend"])
  qed
qed

text \<open>Decoding what was encoded gives the input back, whatever the buffer held.\<close>

lemma huffman_roundtrip: "huffman_decode (huffman_encode src) buf = (Ok (buf @ src), [])"
proof -
  from huffman_encode_bits [of src] obtain pad where
    "pad < 8" "bytes_bits (huffman_encode src) = huff_codes src @ replicate pad True" by blast
  then have ok: "fst (huffman_decode (huffman_encode src) buf) = Ok (buf @ src)"
    unfolding huffman_decode_iff by blast
  then show ?thesis by (cases rule: huffman_decode_cases [of "huffman_encode src" buf]) auto
qed

lemma huffman_decode_no_panic: "fst (huffman_decode src buf) \<noteq> Panic"
  by (cases rule: huffman_decode_cases [of src buf]) auto

end
