(* ===== verification/Hpack_Header.thy ===== *)
theory Hpack_Header
  imports Error_Types
begin

text \<open>
  Header fields as HPACK sees them (\<open>hpack/header.rs\<close>), the static table (\<open>get_static\<close> in
  \<open>hpack/decoder.rs\<close>) and the encoder's search of it (\<open>index_static\<close> in \<open>hpack/table.rs\<close>).

  Methods, status codes and the names of well-known headers belong to the crate \<open>header-plz\<close>, which
  is not part of the sources: they are the record \<open>ext\<close>, a parameter of the definitions, over an
  arbitrary type of methods and of status codes.
\<close>

section \<open>The external types\<close>

text \<open>The constants of \<open>header_plz::const_headers\<close> that the sources name.\<close>

datatype hconst =
    ACCEPT_CHARSET | ACCEPT_ENCODING | ACCEPT_LANGUAGE | ACCEPT_RANGES | ACCEPT
  | ACCESS_CONTROL_ALLOW_ORIGIN | AGE | ALLOW | AUTHORIZATION | CACHE_CONTROL
  | CONTENT_DISPOSITION | CONTENT_ENCODING | CONTENT_LANGUAGE | CONTENT_LENGTH
  | CONTENT_LOCATION | CONTENT_RANGE | CONTENT_TYPE | COOKIE | DATE | ETAG | EXPECT | EXPIRES
  | FROM | HOST | IF_MATCH | IF_MODIFIED_SINCE | IF_NONE_MATCH | IF_RANGE | IF_UNMODIFIED_SINCE
  | LAST_MODIFIED | LINK | LOCATION | MAX_FORWARDS | PROXY_AUTHENTICATE | PROXY_AUTHORIZATION
  | RANGE | REFERER | REFRESH | RETRY_AFTER | SERVER | SET_COOKIE | STRICT_TRANSPORT_SECURITY
  | TRANSFER_ENCODING | USER_AGENT | VARY | VIA | WWW_AUTHENTICATE | CONNECTION | UPGRADE | TE

record ('m, 'st) ext =
  method_from :: "bytes \<Rightarrow> 'm"
  method_as_ref :: "'m \<Rightarrow> bytes"
  METHOD_GET :: 'm
  METHOD_POST :: 'm
  status_from_bytes :: "bytes \<Rightarrow> 'st option"
  status_as_str :: "'st \<Rightarrow> bytes"
  status_u16 :: "'st \<Rightarrow> nat"
  STATUS_OK :: 'st
  STATUS_NO_CONTENT :: 'st
  STATUS_PARTIAL_CONTENT :: 'st
  STATUS_NOT_MODIFIED :: 'st
  STATUS_BAD_REQUEST :: 'st
  STATUS_NOT_FOUND :: 'st
  STATUS_INTERNAL_SERVER_ERROR :: 'st
  const_header :: "hconst \<Rightarrow> bytes"

section \<open>Strings\<close>

text \<open>The bytes of a string literal.\<close>

definition str :: "string \<Rightarrow> bytes" where
  "str s = map of_char s"

text \<open>\<open>std::str::from_utf8\<close>: well-formed UTF-8, as the Unicode standard tabulates it.\<close>

definition utf8_cont :: "u8 \<Rightarrow> bool" where
  "utf8_cont b = (0x80 \<le> b \<and> b \<le> 0xBF)"

fun utf8_valid :: "bytes \<Rightarrow> bool" where
  "utf8_valid [] = True"
| "utf8_valid (a # xs) =
     (if a < 0x80 then utf8_valid xs
      else if 0xC2 \<le> a \<and> a \<le> 0xDF then
        (case xs of b # ys \<Rightarrow> utf8_cont b \<and> utf8_valid ys | _ \<Rightarrow> False)
      else if 0xE0 \<le> a \<and> a \<le> 0xEF then
        (case xs of b # c # ys \<Rightarrow>
           utf8_cont b \<and> utf8_cont c \<and> (a = 0xE0 \<longrightarrow> 0xA0 \<le> b) \<and> (a = 0xED \<longrightarrow> b \<le> 0x9F) \<and> utf8_valid ys
         | _ \<Rightarrow> False)
      else if 0xF0 \<le> a \<and> a \<le> 0xF4 then
        (case xs of b # c # d # ys \<Rightarrow>
           utf8_cont b \<and> utf8_cont c \<and> utf8_cont d \<and> (a = 0xF0 \<longrightarrow> 0x90 \<le> b) \<and> (a = 0xF4 \<longrightarrow> b \<le> 0x8F)
           \<and> utf8_valid ys
         | _ \<Rightarrow> False)
      else False)"

text \<open>\<open>BytesStr::try_from\<close>; a \<open>Utf8Error\<close> becomes \<open>DecoderError::InvalidUtf8\<close>.\<close>

definition bytes_str_try_from :: "bytes \<Rightarrow> (bytes, decoder_error) result" where
  "bytes_str_try_from b = (if utf8_valid b then Ok b else Err InvalidUtf8)"

definition to_ascii_lowercase :: "u8 \<Rightarrow> u8" where
  "to_ascii_lowercase b = (if 0x41 \<le> b \<and> b \<le> 0x5A then b + 32 else b)"

text \<open>\<open>PartialEq<&str> for BytesStr\<close> ignores ASCII case.\<close>

definition bytes_str_eq :: "bytes \<Rightarrow> bytes \<Rightarrow> bool" where
  "bytes_str_eq a b = (map to_ascii_lowercase a = map to_ascii_lowercase b)"

section \<open>Headers\<close>

datatype ('m, 'st, 'n) header =
    Field 'n bytes
  | Authority bytes
  | Method 'm
  | Scheme bytes
  | Path bytes
  | Protocol bytes
  | Status 'st

datatype hname =
    NField bytes
  | NAuthority
  | NMethod
  | NScheme
  | NPath
  | NProtocol
  | NStatus

fun header_reify :: "('m, 'st, bytes option) header \<Rightarrow> ('m, 'st, bytes) header + bytes" where
  "header_reify (Field (Some n) v) = Inl (Field n v)"
| "header_reify (Field None v) = Inr v"
| "header_reify (Authority v) = Inl (Authority v)"
| "header_reify (Method v) = Inl (Method v)"
| "header_reify (Scheme v) = Inl (Scheme v)"
| "header_reify (Path v) = Inl (Path v)"
| "header_reify (Protocol v) = Inl (Protocol v)"
| "header_reify (Status v) = Inl (Status v)"

definition header_new ::
  "('m, 'st) ext \<Rightarrow> bytes \<Rightarrow> bytes \<Rightarrow> (('m, 'st, bytes) header, decoder_error) result" where
  "header_new e name value =
     (case name of
        [] \<Rightarrow> Err (NeedMore UnexpectedEndOfStream)
      | c # rest \<Rightarrow>
          if c = 0x3A then
            (if rest = str ''authority'' then map_ok Authority (bytes_str_try_from value)
             else if rest = str ''method'' then Ok (Method (method_from e value))
             else if rest = str ''scheme'' then map_ok Scheme (bytes_str_try_from value)
             else if rest = str ''path'' then map_ok Path (bytes_str_try_from value)
             else if rest = str ''protocol'' then map_ok Protocol (bytes_str_try_from value)
             else if rest = str ''status'' then
               (case status_from_bytes e value of Some s \<Rightarrow> Ok (Status s) | None \<Rightarrow> Err InvalidUtf8)
             else Err InvalidPseudoheader)
          else Ok (Field name value))"

fun header_len :: "('m, 'st) ext \<Rightarrow> ('m, 'st, bytes) header \<Rightarrow> nat" where
  "header_len e (Field n v) = 32 + length n + length v"
| "header_len e (Authority v) = 32 + 10 + length v"
| "header_len e (Method v) = 32 + 7 + length (method_as_ref e v)"
| "header_len e (Scheme v) = 32 + 7 + length v"
| "header_len e (Path v) = 32 + 5 + length v"
| "header_len e (Protocol v) = 32 + 9 + length v"
| "header_len e (Status _) = 32 + 7 + 3"

fun header_name :: "('m, 'st, bytes) header \<Rightarrow> hname" where
  "header_name (Field n _) = NField n"
| "header_name (Authority _) = NAuthority"
| "header_name (Method _) = NMethod"
| "header_name (Scheme _) = NScheme"
| "header_name (Path _) = NPath"
| "header_name (Protocol _) = NProtocol"
| "header_name (Status _) = NStatus"

fun header_value_slice :: "('m, 'st) ext \<Rightarrow> ('m, 'st, bytes) header \<Rightarrow> bytes" where
  "header_value_slice e (Field _ v) = v"
| "header_value_slice e (Authority v) = v"
| "header_value_slice e (Method v) = method_as_ref e v"
| "header_value_slice e (Scheme v) = v"
| "header_value_slice e (Path v) = v"
| "header_value_slice e (Protocol v) = v"
| "header_value_slice e (Status v) = status_as_str e v"

fun header_value_eq :: "('m, 'st, bytes) header \<Rightarrow> ('m, 'st, bytes) header \<Rightarrow> bool" where
  "header_value_eq (Field _ a) (Field _ b) = (a = b)"
| "header_value_eq (Authority a) (Authority b) = (a = b)"
| "header_value_eq (Method a) (Method b) = (a = b)"
| "header_value_eq (Scheme a) (Scheme b) = (a = b)"
| "header_value_eq (Path a) (Path b) = (a = b)"
| "header_value_eq (Protocol a) (Protocol b) = (a = b)"
| "header_value_eq (Status a) (Status b) = (a = b)"
| "header_value_eq _ _ = False"

definition header_is_sensitive :: "('m, 'st, bytes) header \<Rightarrow> bool" where
  "header_is_sensitive h = False"

fun header_skip_value_index :: "('m, 'st) ext \<Rightarrow> ('m, 'st, bytes) header \<Rightarrow> bool" where
  "header_skip_value_index e (Field n _) =
     (n \<in> const_header e ` {CONTENT_LENGTH, AGE, AUTHORIZATION, ETAG, IF_MODIFIED_SINCE,
        IF_NONE_MATCH, LOCATION, COOKIE, SET_COOKIE})"
| "header_skip_value_index e (Path _) = True"
| "header_skip_value_index e _ = False"

fun name_into_entry ::
  "('m, 'st) ext \<Rightarrow> hname \<Rightarrow> bytes \<Rightarrow> (('m, 'st, bytes) header, decoder_error) result" where
  "name_into_entry e (NField n) v = Ok (Field n v)"
| "name_into_entry e NAuthority v = map_ok Authority (bytes_str_try_from v)"
| "name_into_entry e NMethod v = Ok (Method (method_from e v))"
| "name_into_entry e NScheme v = map_ok Scheme (bytes_str_try_from v)"
| "name_into_entry e NPath v = map_ok Path (bytes_str_try_from v)"
| "name_into_entry e NProtocol v = map_ok Protocol (bytes_str_try_from v)"
| "name_into_entry e NStatus v =
     (case status_from_bytes e v of Some s \<Rightarrow> Ok (Status s) | None \<Rightarrow> Err InvalidStatusCode)"

fun name_as_slice :: "hname \<Rightarrow> bytes" where
  "name_as_slice (NField n) = n"
| "name_as_slice NAuthority = str '':authority''"
| "name_as_slice NMethod = str '':method''"
| "name_as_slice NScheme = str '':scheme''"
| "name_as_slice NPath = str '':path''"
| "name_as_slice NProtocol = str '':protocol''"
| "name_as_slice NStatus = str '':status''"

section \<open>The static table\<close>

text \<open>The regular fields of the static table, indices 15 to 61.\<close>

definition static_fields :: "(nat \<times> hconst) list" where
  "static_fields = [
    (15, ACCEPT_CHARSET), (16, ACCEPT_ENCODING), (17, ACCEPT_LANGUAGE), (18, ACCEPT_RANGES),
    (19, ACCEPT), (20, ACCESS_CONTROL_ALLOW_ORIGIN), (21, AGE), (22, ALLOW), (23,
    AUTHORIZATION), (24, CACHE_CONTROL), (25, CONTENT_DISPOSITION), (26, CONTENT_ENCODING),
    (27, CONTENT_LANGUAGE), (28, CONTENT_LENGTH), (29, CONTENT_LOCATION), (30, CONTENT_RANGE),
    (31, CONTENT_TYPE), (32, COOKIE), (33, DATE), (34, ETAG), (35, EXPECT), (36, EXPIRES),
    (37, FROM), (38, HOST), (39, IF_MATCH), (40, IF_MODIFIED_SINCE), (41, IF_NONE_MATCH), (42,
    IF_RANGE), (43, IF_UNMODIFIED_SINCE), (44, LAST_MODIFIED), (45, LINK), (46, LOCATION),
    (47, MAX_FORWARDS), (48, PROXY_AUTHENTICATE), (49, PROXY_AUTHORIZATION), (50, RANGE), (51,
    REFERER), (52, REFRESH), (53, RETRY_AFTER), (54, SERVER), (55, SET_COOKIE), (56,
    STRICT_TRANSPORT_SECURITY), (57, TRANSFER_ENCODING), (58, USER_AGENT), (59, VARY), (60,
    VIA), (61, WWW_AUTHENTICATE)]"

definition static_value :: "hconst \<Rightarrow> bytes" where
  "static_value c = (if c = ACCEPT_ENCODING then str ''gzip, deflate'' else [])"

text \<open>\<open>get_static\<close>; an index outside 1 to 61 is \<open>unreachable!()\<close>.\<close>

definition get_static :: "('m, 'st) ext \<Rightarrow> nat \<Rightarrow> (('m, 'st, bytes) header, 'er) result" where
  "get_static e idx =
     (if idx = 1 then Ok (Authority [])
      else if idx = 2 then Ok (Method (METHOD_GET e))
      else if idx = 3 then Ok (Method (METHOD_POST e))
      else if idx = 4 then Ok (Path (str ''/''))
      else if idx = 5 then Ok (Path (str ''/index.html''))
      else if idx = 6 then Ok (Scheme (str ''http''))
      else if idx = 7 then Ok (Scheme (str ''https''))
      else if idx = 8 then Ok (Status (STATUS_OK e))
      else if idx = 9 then Ok (Status (STATUS_NO_CONTENT e))
      else if idx = 10 then Ok (Status (STATUS_PARTIAL_CONTENT e))
      else if idx = 11 then Ok (Status (STATUS_NOT_MODIFIED e))
      else if idx = 12 then Ok (Status (STATUS_BAD_REQUEST e))
      else if idx = 13 then Ok (Status (STATUS_NOT_FOUND e))
      else if idx = 14 then Ok (Status (STATUS_INTERNAL_SERVER_ERROR e))
      else case map_of static_fields idx of
             Some c \<Rightarrow> Ok (Field (const_header e c) (static_value c))
           | None \<Rightarrow> Panic)"

text \<open>
  \<open>index_static\<close>: the index of the header, and whether the value is in the table too. The arms of the
  match on the name are tried in the order of the table.
\<close>

fun index_static :: "('m, 'st) ext \<Rightarrow> ('m, 'st, bytes) header \<Rightarrow> (nat \<times> bool) option" where
  "index_static e (Field name value) =
     (case map_of (map (\<lambda>(i, c). (const_header e c, (i, c))) static_fields) name of
        None \<Rightarrow> None
      | Some (i, c) \<Rightarrow>
          Some (i, c = ACCEPT_ENCODING \<and> bytes_str_eq value (str ''gzip, deflate'')))"
| "index_static e (Authority _) = Some (1, False)"
| "index_static e (Method v) =
     (if v = METHOD_GET e then Some (2, True) else if v = METHOD_POST e then Some (3, True)
      else Some (2, False))"
| "index_static e (Scheme v) =
     (if v = str ''http'' then Some (6, True) else if v = str ''https'' then Some (7, True)
      else Some (6, False))"
| "index_static e (Path v) =
     (if v = str ''/'' then Some (4, True) else if v = str ''/index.html'' then Some (5, True)
      else Some (4, False))"
| "index_static e (Protocol _) = None"
| "index_static e (Status v) =
     (if status_u16 e v = 200 then Some (8, True) else if status_u16 e v = 204 then Some (9, True)
      else if status_u16 e v = 206 then Some (10, True) else if status_u16 e v = 304 then Some (11, True)
      else if status_u16 e v = 400 then Some (12, True) else if status_u16 e v = 404 then Some (13, True)
      else if status_u16 e v = 500 then Some (14, True) else Some (8, False))"

section \<open>Properties\<close>

text \<open>
  The headers that the wire format can carry: a regular name is not empty and does not look like a
  pseudo-header, the string-valued pseudo-headers are UTF-8, and the method and the status are ones
  that \<open>header-plz\<close> reads back from their own text.
\<close>

fun header_wf :: "('m, 'st) ext \<Rightarrow> ('m, 'st, bytes) header \<Rightarrow> bool" where
  "header_wf e (Field n v) = (n \<noteq> [] \<and> hd n \<noteq> 0x3A)"
| "header_wf e (Authority v) = utf8_valid v"
| "header_wf e (Method m) = (method_from e (method_as_ref e m) = m)"
| "header_wf e (Scheme v) = utf8_valid v"
| "header_wf e (Path v) = utf8_valid v"
| "header_wf e (Protocol v) = utf8_valid v"
| "header_wf e (Status s) = (status_from_bytes e (status_as_str e s) = Some s)"

lemma of_char_u8_eq: "(of_char c :: u8) = of_char d \<longleftrightarrow> c = d"
proof
  assume eq: "(of_char c :: u8) = of_char d"
  have lt: "(of_char x :: nat) < 256" for x :: char by simp
  have "unat (of_char x :: u8) = of_char x" for x
  proof -
    have "unat (of_nat (of_char x) :: u8) = of_char x"
      using lt [of x] unat_of_nat [of "of_char x", where 'a = 8] by simp
    then show ?thesis by (simp only: of_nat_of_char)
  qed
  with eq have "(of_char c :: nat) = of_char d" by metis
  then show "c = d" by simp
qed simp

lemma str_eq_iff: "str s = str t \<longleftrightarrow> s = t"
  by (auto simp: str_def of_char_u8_eq dest: map_injective intro!: injI)

lemma str_Cons: "str (c # s) = of_char c # str s"
  by (simp add: str_def)

lemma of_char_colon: "(of_char CHR '':'' :: u8) = 0x3A"
  by simp

lemma header_new_of_parts:
  assumes "header_wf e h"
  shows "header_new e (name_as_slice (header_name h)) (header_value_slice e h) = Ok h"
proof (cases h)
  case (Field n v)
  with assms show ?thesis by (cases n) (simp_all add: header_new_def)
qed (use assms in \<open>simp_all add: header_new_def str_Cons [of "CHR '':''"] of_char_colon str_eq_iff
      bytes_str_try_from_def del: of_char_Char\<close>)

lemma name_into_entry_of_parts:
  "header_wf e h \<Longrightarrow> name_into_entry e (header_name h) (header_value_slice e h) = Ok h"
  by (cases h) (auto simp: bytes_str_try_from_def)

lemma header_name_value_eq:
  "header_name h = header_name h' \<Longrightarrow> header_value_eq h h' \<Longrightarrow> h = h'"
  by (cases h; cases h') auto

lemma header_new_no_panic: "header_new e n v \<noteq> Panic"
  by (auto simp: header_new_def bytes_str_try_from_def split: list.splits option.splits)

lemma name_into_entry_no_panic: "name_into_entry e n v \<noteq> Panic"
  by (cases n) (auto simp: bytes_str_try_from_def split: option.splits)

lemma header_new_Ok_wf:
  assumes "header_new e n v = Ok h" and "\<And>b. method_from e (method_as_ref e (method_from e b)) = method_from e b"
    and "\<And>b s. status_from_bytes e b = Some s \<Longrightarrow> status_from_bytes e (status_as_str e s) = Some s"
  shows "header_wf e h"
  using assms
  by (auto simp: header_new_def bytes_str_try_from_def split: list.splits option.splits if_splits)

text \<open>The static table has an entry exactly for the indices 1 to 61.\<close>

lemma static_fields_dom: "map_of static_fields i \<noteq> None \<longleftrightarrow> 15 \<le> i \<and> i \<le> 61"
proof -
  have "map fst static_fields = [15..<62]"
    by (simp add: static_fields_def upt_rec)
  then have "fst ` set static_fields = {15..<62}" by (metis list.set_map set_upt)
  then show ?thesis by (auto simp: map_of_eq_None_iff)
qed

lemma get_static_no_panic: "1 \<le> i \<Longrightarrow> i \<le> 61 \<Longrightarrow> get_static e i \<noteq> Panic"
  using static_fields_dom [of i] by (auto simp: get_static_def split: option.splits) arith

lemma get_static_no_err: "get_static e i \<noteq> Err er"
  by (auto simp: get_static_def split: option.splits)

lemma static_fields_distinct: "distinct (map fst static_fields)"
  by (simp add: static_fields_def)

text \<open>
  The encoder's search agrees with the decoder's table: an index found names the same header. When
  the search says the value matches as well, the entry is the header, except that the value of
  \<open>accept-encoding\<close> is compared without regard to case.
\<close>

definition ext_status_ok :: "('m, 'st) ext \<Rightarrow> bool" where
  "ext_status_ok e \<longleftrightarrow> inj (status_u16 e)
     \<and> status_u16 e (STATUS_OK e) = 200 \<and> status_u16 e (STATUS_NO_CONTENT e) = 204
     \<and> status_u16 e (STATUS_PARTIAL_CONTENT e) = 206 \<and> status_u16 e (STATUS_NOT_MODIFIED e) = 304
     \<and> status_u16 e (STATUS_BAD_REQUEST e) = 400 \<and> status_u16 e (STATUS_NOT_FOUND e) = 404
     \<and> status_u16 e (STATUS_INTERNAL_SERVER_ERROR e) = 500"

lemma index_static_field:
  assumes "index_static e (Field n v) = Some (i, b)"
  shows "\<exists>c. (i, c) \<in> set static_fields \<and> n = const_header e c \<and> map_of static_fields i = Some c
    \<and> b = (c = ACCEPT_ENCODING \<and> bytes_str_eq v (str ''gzip, deflate''))"
proof -
  from assms obtain c where
    c: "map_of (map (\<lambda>(i, c). (const_header e c, (i, c))) static_fields) n = Some (i, c)"
    and b: "b = (c = ACCEPT_ENCODING \<and> bytes_str_eq v (str ''gzip, deflate''))"
    by (auto split: option.splits)
  from map_of_SomeD [OF c] have "(i, c) \<in> set static_fields" "n = const_header e c" by auto
  with b static_fields_distinct show ?thesis by (auto intro: map_of_is_SomeI)
qed

lemma static_fields_ge: "(i, c) \<in> set static_fields \<Longrightarrow> 15 \<le> i \<and> i \<le> 61"
  using static_fields_dom [of i] by (metis weak_map_of_SomeI option.distinct(1))

lemma get_static_field:
  "map_of static_fields i = Some c \<Longrightarrow> 15 \<le> i \<Longrightarrow>
     get_static e i = Ok (Field (const_header e c) (static_value c))"
  by (simp add: get_static_def)

lemma index_static_name:
  assumes "index_static e h = Some (i, b)"
  shows "1 \<le> i \<and> i \<le> 61 \<and> (\<exists>h'. get_static e i = Ok h' \<and> header_name h' = header_name h)"
proof (cases h)
  case (Field n v)
  with assms index_static_field [of e n v i b] obtain c where
    "(i, c) \<in> set static_fields" "n = const_header e c" "map_of static_fields i = Some c" by auto
  with Field get_static_field [of i c e] static_fields_ge [of i c] show ?thesis by auto
qed (use assms in \<open>auto simp: get_static_def split: if_splits\<close>)

lemma index_static_full:
  assumes ok: "ext_status_ok e" and found: "index_static e h = Some (i, True)"
    and exact: "\<And>v. h = Field (const_header e ACCEPT_ENCODING) v \<Longrightarrow> v = str ''gzip, deflate''"
  shows "get_static e i = Ok h"
proof (cases h)
  case (Field n v)
  with found index_static_field [of e n v i True] obtain c where
    c: "(i, c) \<in> set static_fields" "n = const_header e c" "map_of static_fields i = Some c"
      "c = ACCEPT_ENCODING" by auto
  with Field exact have "v = str ''gzip, deflate''" by simp
  with Field c get_static_field [of i c e] static_fields_ge [of i c] show ?thesis
    by (simp add: static_value_def)
next
  case (Status s)
  with found ok show ?thesis
    by (auto simp: ext_status_ok_def get_static_def inj_eq split: if_splits dest: injD)
      (metis injD)+
qed (use found in \<open>auto simp: get_static_def split: if_splits\<close>)

end
