(* ===== verification/Hpack_Int.thy ===== *)
theory Hpack_Int
  imports Error_Types
begin

text \<open>
  HPACK integers: \<open>decode_int\<close> (\<open>hpack/decoder.rs\<close>) and \<open>encode_int\<close> (\<open>hpack/encoder.rs\<close>). A decoder
  returns its outcome with the bytes it has not read. The main result is that the two are inverse up
  to the decoder's limit of five bytes, and that the decoder refuses what lies beyond it.
\<close>

section \<open>Decoding\<close>

definition MAX_BYTES :: nat where "MAX_BYTES = 5"
definition VARINT_MASK :: u8 where "VARINT_MASK = 0x7F"
definition VARINT_FLAG :: u8 where "VARINT_FLAG = 0x80"

text \<open>The loop \<open>while buf.has_remaining()\<close>.\<close>

fun decode_int_loop ::
  "nat \<Rightarrow> nat \<Rightarrow> nat \<Rightarrow> bytes \<Rightarrow> (nat, decoder_error) result \<times> bytes" where
  "decode_int_loop ret n shift [] = (Err (NeedMore IntegerUnderflow), [])"
| "decode_int_loop ret n shift (b # buf) =
     (let n' = n + 1;
          ret' = ret + unat (b AND VARINT_MASK) * 2 ^ shift;
          shift' = shift + 7 in
      if b AND VARINT_FLAG = 0 then (Ok ret', buf)
      else if n' = MAX_BYTES then (Err IntegerOverflow, buf)
      else decode_int_loop ret' n' shift' buf)"

definition int_mask :: "nat \<Rightarrow> u8" where
  "int_mask prefix_size = (if prefix_size = 8 then 0xFF else push_bit prefix_size 1 - 1)"

definition decode_int :: "bytes \<Rightarrow> nat \<Rightarrow> (nat, decoder_error) result \<times> bytes" where
  "decode_int buf prefix_size =
     (if \<not> (1 \<le> prefix_size \<and> prefix_size \<le> 8) then (Err InvalidIntegerPrefix, buf)
      else case buf of
             [] \<Rightarrow> (Err (NeedMore IntegerUnderflow), buf)
           | b # buf' \<Rightarrow>
               let mask = int_mask prefix_size; ret = unat (b AND mask) in
               if ret < unat mask then (Ok ret, buf')
               else decode_int_loop ret 1 0 buf')"

section \<open>Encoding\<close>

definition encode_int_one_byte :: "nat \<Rightarrow> nat \<Rightarrow> bool" where
  "encode_int_one_byte value prefix_bits = (value < 2 ^ prefix_bits - 1)"

text \<open>The loop \<open>while value >= 128\<close> and the last byte.\<close>

fun encode_varint :: "nat \<Rightarrow> bytes" where
  "encode_varint value =
     (if value \<ge> 128 then (0x80 OR of_nat value) # encode_varint (value div 128) else [of_nat value])"

declare encode_varint.simps [simp del]

definition encode_int :: "nat \<Rightarrow> nat \<Rightarrow> u8 \<Rightarrow> bytes" where
  "encode_int value prefix_bits first_byte =
     (if encode_int_one_byte value prefix_bits then [first_byte OR of_nat value]
      else let low = 2 ^ prefix_bits - 1 in
        (first_byte OR of_nat low) # encode_varint (value - low))"

section \<open>Round trip\<close>

lemma int_mask_eq: "p \<le> 8 \<Longrightarrow> int_mask p = mask p"
  by (cases "p = 8") (simp_all add: int_mask_def mask_eq_exp_minus_1 push_bit_eq_mult)

lemma unat_int_mask: "p \<le> 8 \<Longrightarrow> unat (int_mask p) = 2 ^ p - 1"
proof -
  assume "p \<le> 8"
  then have "p = 0 \<or> p = 1 \<or> p = 2 \<or> p = 3 \<or> p = 4 \<or> p = 5 \<or> p = 6 \<or> p = 7 \<or> p = 8" by arith
  then show ?thesis by (elim disjE) (simp_all add: int_mask_def)
qed

lemma unat_or_and_int_mask:
  assumes p: "p \<le> 8" and f: "f AND int_mask p = 0" and v: "v \<le> 2 ^ p - 1"
  shows "unat ((f OR of_nat v) AND int_mask p) = v"
proof -
  have lt: "v < 2 ^ p" using v by (metis Suc_pred less_Suc_eq_le zero_less_numeral zero_less_power One_nat_def)
  have "(2::nat) ^ p \<le> 2 ^ 8" using p by (intro power_increasing) auto
  with lt have v256: "v < 256" by simp
  have "(f OR of_nat v) AND int_mask p = of_nat v AND mask p"
    using f p by (simp add: int_mask_eq bit.conj_disj_distrib2)
  also have "\<dots> = take_bit p (of_nat v)" by (simp add: take_bit_eq_mask)
  finally have "unat ((f OR of_nat v) AND int_mask p) = take_bit p (unat (of_nat v :: u8))"
    by (simp add: unsigned_take_bit_eq)
  also have "\<dots> = v" using lt v256 by (simp add: unat_of_nat take_bit_nat_eq_self)
  finally show ?thesis .
qed

lemma varint_low:
  "unat ((0x80 OR of_nat v) AND VARINT_MASK) = v mod 128" "(0x80 OR of_nat v :: u8) AND VARINT_FLAG \<noteq> 0"
proof -
  have m: "VARINT_MASK = mask 7" by (simp add: VARINT_MASK_def mask_eq_exp_minus_1)
  have "(0x80 OR of_nat v) AND VARINT_MASK = (of_nat v AND mask 7 :: u8)"
    unfolding m [symmetric] by (simp add: VARINT_MASK_def bit.conj_disj_distrib2)
  also have "\<dots> = take_bit 7 (of_nat v)" by (simp add: take_bit_eq_mask)
  finally have "unat ((0x80 OR of_nat v) AND VARINT_MASK) = take_bit 7 (unat (of_nat v :: u8))"
    by (simp add: unsigned_take_bit_eq)
  also have "\<dots> = v mod 256 mod 128" by (simp add: unat_of_nat take_bit_eq_mod)
  also have "\<dots> = v mod 128" by (rule mod_mod_cancel) simp
  finally show "unat ((0x80 OR of_nat v) AND VARINT_MASK) = v mod 128" .
  have "bit ((0x80 OR of_nat v :: u8) AND VARINT_FLAG) 7"
    by (simp add: VARINT_FLAG_def bit_simps)
  then show "(0x80 OR of_nat v :: u8) AND VARINT_FLAG \<noteq> 0" by (metis bit_0_eq bot_apply bot_bool_def)
qed

lemma varint_last:
  assumes "v < 128"
  shows "unat (of_nat v AND VARINT_MASK) = v" "(of_nat v :: u8) AND VARINT_FLAG = 0"
proof -
  have m: "VARINT_MASK = mask 7" by (simp add: VARINT_MASK_def mask_eq_exp_minus_1)
  have "unat (of_nat v AND VARINT_MASK) = take_bit 7 (unat (of_nat v :: u8))"
    unfolding m by (simp add: unsigned_take_bit_eq flip: take_bit_eq_mask)
  also have "\<dots> = v" using assms by (simp add: unat_of_nat take_bit_nat_eq_self)
  finally show "unat (of_nat v AND VARINT_MASK) = v" .
  have "VARINT_FLAG = push_bit 7 1" by (simp add: VARINT_FLAG_def)
  moreover have "\<not> bit (of_nat v :: u8) 7"
  proof -
    have "v div 2 ^ 7 = 0" using assms by simp
    then have "\<not> bit v 7" by (simp add: bit_iff_odd)
    then show ?thesis by (simp add: bit_simps)
  qed
  ultimately show "(of_nat v :: u8) AND VARINT_FLAG = 0" by (metis and_mask_eq_0_iff)
qed

text \<open>Reading back a varint of at most \<open>k\<close> seven-bit groups, with \<open>k\<close> bytes still allowed.\<close>

lemma decode_varint:
  "v < 128 ^ k \<Longrightarrow> 0 < k \<Longrightarrow> n + k = MAX_BYTES \<Longrightarrow>
     decode_int_loop ret n shift (encode_varint v @ rest) = (Ok (ret + v * 2 ^ shift), rest)"
proof (induction k arbitrary: v n ret shift)
  case (Suc k)
  show ?case
  proof (cases "v < 128")
    case True
    then show ?thesis by (simp add: encode_varint.simps [of v] varint_last)
  next
    case False
    with Suc.prems have k: "0 < k" by (cases k) auto
    have "v div 128 < 128 ^ k" using Suc.prems(1) by (simp add: less_mult_imp_div_less)
    moreover have "n + 1 + k = MAX_BYTES" using Suc.prems(3) by simp
    ultimately have "decode_int_loop (ret + v mod 128 * 2 ^ shift) (n + 1) (shift + 7)
        (encode_varint (v div 128) @ rest)
      = (Ok (ret + v mod 128 * 2 ^ shift + v div 128 * 2 ^ (shift + 7)), rest)"
      using k by (intro Suc.IH)
    also have "ret + v mod 128 * 2 ^ shift + v div 128 * 2 ^ (shift + 7) = ret + v * 2 ^ shift"
    proof -
      have "v * 2 ^ shift = (v mod 128 + v div 128 * 128) * 2 ^ shift" by simp
      also have "\<dots> = v mod 128 * 2 ^ shift + v div 128 * 2 ^ (shift + 7)"
        by (subst distrib_right) (simp add: power_add)
      finally show ?thesis by simp
    qed
    finally show ?thesis
      using False Suc.prems(3) k by (simp add: encode_varint.simps [of v] varint_low Let_def)
  qed
qed simp

text \<open>More than \<open>k\<close> groups, with \<open>k\<close> bytes still allowed, is an overflow.\<close>

lemma decode_varint_overflow:
  "128 ^ k \<le> v \<Longrightarrow> 0 < k \<Longrightarrow> n + k = MAX_BYTES \<Longrightarrow>
     fst (decode_int_loop ret n shift (encode_varint v @ rest)) = Err IntegerOverflow"
proof (induction k arbitrary: v n ret shift)
  case (Suc k)
  from Suc.prems(1) have ge: "128 \<le> v"
    by (metis le_trans mult_le_mono2 one_le_power power_Suc nat_mult_1_right one_le_numeral)
  show ?case
  proof (cases "k = 0")
    case True
    with ge Suc.prems(3) show ?thesis by (simp add: encode_varint.simps [of v] varint_low Let_def)
  next
    case False
    have "128 ^ k \<le> v div 128" using Suc.prems(1) by (simp add: less_eq_div_iff_mult_less_eq mult.commute)
    with Suc.IH [of "v div 128" "n + 1"] False Suc.prems(3) ge show ?thesis
      by (simp add: encode_varint.simps [of v] varint_low Let_def)
  qed
qed simp

lemma decode_int_encode:
  assumes p: "1 \<le> p" "p \<le> 8" and f: "f AND int_mask p = 0" and v: "v < 2 ^ p - 1 + 2 ^ 28"
  shows "decode_int (encode_int v p f @ rest) p = (Ok v, rest)"
proof (cases "v < 2 ^ p - 1")
  case True
  then show ?thesis using p unat_or_and_int_mask [OF p(2) f, of v]
    by (simp add: decode_int_def encode_int_def encode_int_one_byte_def Let_def unat_int_mask)
next
  case False
  then have "v - (2 ^ p - 1) < 128 ^ 4" using v by simp
  then have "decode_int_loop (2 ^ p - 1) 1 0 (encode_varint (v - (2 ^ p - 1)) @ rest)
      = (Ok (2 ^ p - 1 + (v - (2 ^ p - 1)) * 2 ^ 0), rest)"
    by (intro decode_varint) (simp_all add: MAX_BYTES_def)
  then show ?thesis using False p unat_or_and_int_mask [OF p(2) f, of "2 ^ p - 1"]
    by (simp add: decode_int_def encode_int_def encode_int_one_byte_def Let_def unat_int_mask)
qed

lemma decode_int_overflow:
  assumes p: "1 \<le> p" "p \<le> 8" and f: "f AND int_mask p = 0" and v: "2 ^ p - 1 + 2 ^ 28 \<le> v"
  shows "fst (decode_int (encode_int v p f @ rest) p) = Err IntegerOverflow"
proof -
  have "128 ^ 4 \<le> v - (2 ^ p - 1)" using v by simp
  then have "fst (decode_int_loop (2 ^ p - 1) 1 0 (encode_varint (v - (2 ^ p - 1)) @ rest))
      = Err IntegerOverflow"
    by (intro decode_varint_overflow) (simp_all add: MAX_BYTES_def)
  moreover have "\<not> v < 2 ^ p - 1" using v by linarith
  ultimately show ?thesis using p unat_or_and_int_mask [OF p(2) f, of "2 ^ p - 1"]
    by (simp add: decode_int_def encode_int_def encode_int_one_byte_def Let_def unat_int_mask)
qed

section \<open>Bounds\<close>

text \<open>
  The result of a decoded integer never exceeds 28 bits beyond its prefix, so it fits an unsigned
  32-bit integer; the bytes left are a suffix of the input, at least one shorter on success.
\<close>

lemma unat_varint_le: "unat (b AND VARINT_MASK) \<le> 127"
proof -
  have "unat (b AND VARINT_MASK) \<le> unat VARINT_MASK"
    by (rule word_and_le1 [THEN word_le_nat_alt [THEN iffD1]])
  then show ?thesis by (simp add: VARINT_MASK_def)
qed

lemma decode_int_loop_bound:
  "decode_int_loop ret n shift buf = (Ok v, rest) \<Longrightarrow> n + k = MAX_BYTES \<Longrightarrow> 0 < k \<Longrightarrow>
     v + 2 ^ shift \<le> ret + 2 ^ (shift + 7 * k) \<and> length rest < length buf"
proof (induction buf arbitrary: ret n shift k)
  case (Cons b buf)
  let ?ret = "ret + unat (b AND VARINT_MASK) * 2 ^ shift"
  have le: "?ret + 2 ^ shift \<le> ret + 2 ^ (shift + 7)"
  proof -
    have "unat (b AND VARINT_MASK) * 2 ^ shift \<le> 127 * (2 ^ shift :: nat)"
      using unat_varint_le [of b] by (rule mult_right_mono) simp
    then show ?thesis by (simp add: power_add)
  qed
  have mono: "(2::nat) ^ (shift + 7) \<le> 2 ^ (shift + 7 * k)"
    using Cons.prems(3) by (intro power_increasing) auto
  show ?case
  proof (cases "b AND VARINT_FLAG = 0")
    case True
    with Cons.prems have "v = ?ret" "rest = buf" by (auto simp: Let_def)
    moreover have "?ret + 2 ^ shift \<le> ret + 2 ^ (shift + 7 * k)" using le mono by linarith
    ultimately show ?thesis by simp
  next
    case False
    with Cons.prems(1) have ne: "n + 1 \<noteq> MAX_BYTES"
      and rec: "decode_int_loop ?ret (n + 1) (shift + 7) buf = (Ok v, rest)"
      by (auto simp: Let_def split: if_splits)
    obtain j where k: "k = Suc j" "0 < j" using ne Cons.prems(2,3) by (cases k) auto
    with Cons.IH [OF rec, of j] Cons.prems(2)
    have "v + 2 ^ (shift + 7) \<le> ?ret + 2 ^ (shift + 7 * k)" "length rest < length buf"
      by (auto simp: add.assoc)
    with le show ?thesis by simp
  qed
qed simp

lemma decode_int_bound:
  assumes "decode_int buf p = (Ok v, rest)"
  shows "v < 2 ^ p + 2 ^ 28 \<and> length rest < length buf"
proof -
  from assms have p: "1 \<le> p" "p \<le> 8" by (auto simp: decode_int_def split: if_splits)
  from assms obtain b buf' where buf: "buf = b # buf'"
    by (auto simp: decode_int_def split: if_splits list.splits)
  let ?r = "unat (b AND int_mask p)"
  have "?r \<le> unat (int_mask p)" by (rule word_and_le1 [THEN word_le_nat_alt [THEN iffD1]])
  then have r: "?r < 2 ^ p" using unat_int_mask [OF p(2)]
    by (metis Suc_pred' le_imp_less_Suc zero_less_numeral zero_less_power)
  show ?thesis
  proof (cases "?r < unat (int_mask p)")
    case True
    with assms buf p r show ?thesis by (auto simp: decode_int_def Let_def)
  next
    case False
    with assms buf p have "decode_int_loop ?r 1 0 buf' = (Ok v, rest)"
      by (auto simp: decode_int_def Let_def)
    from decode_int_loop_bound [OF this, of 4] r buf show ?thesis by (auto simp: MAX_BYTES_def)
  qed
qed

lemma decode_int_loop_suffix: "\<exists>used. buf = used @ snd (decode_int_loop ret n shift buf)"
proof (induction buf arbitrary: ret n shift)
  case (Cons b buf)
  show ?case
    using Cons.IH [of "ret + unat (b AND VARINT_MASK) * 2 ^ shift" "n + 1" "shift + 7"]
    by (auto simp: Let_def) (metis append_Cons)
qed simp

lemma decode_int_suffix: "\<exists>used. buf = used @ snd (decode_int buf p)"
proof (cases buf)
  case (Cons b buf')
  then show ?thesis
    using decode_int_loop_suffix [of buf' "unat (b AND int_mask p)" 1 0]
    by (auto simp: decode_int_def Let_def) (metis append_Cons)
qed (simp add: decode_int_def)

lemma decode_int_no_panic: "fst (decode_int buf p) \<noteq> Panic"
proof -
  have "fst (decode_int_loop ret n shift b) \<noteq> Panic" for ret n shift b
    by (induction b arbitrary: ret n shift) (auto simp: Let_def)
  then show ?thesis by (auto simp: decode_int_def Let_def split: list.splits)
qed

end
