(* ===== verification/Hpack_Decoder.thy ===== *)
theory Hpack_Decoder
  imports Hpack_Header Hpack_Int Huffman
begin

text \<open>
  The HPACK decoder (\<open>hpack/decoder.rs\<close>): its dynamic table with eviction, the cursor over the
  connection's header buffer, string literals, the five representations and the decoding loop. A
  computation of the decoder is a function from its state (the decoder and the cursor) to an outcome
  and the state it leaves, which the caller observes also after an error.
\<close>

section \<open>The dynamic table\<close>

record ('m, 'st) dtable =
  dt_entries :: "('m, 'st, bytes) header list"
  dt_size :: nat
  dt_max_size :: nat

definition dtable_new :: "nat \<Rightarrow> ('m, 'st) dtable" where
  "dtable_new n = \<lparr>dt_entries = [], dt_size = 0, dt_max_size = n\<rparr>"

definition dtable_get ::
  "('m, 'st) ext \<Rightarrow> ('m, 'st) dtable \<Rightarrow> nat \<Rightarrow> (('m, 'st, bytes) header, decoder_error) result" where
  "dtable_get e t index =
     (if index = 0 then Err InvalidTableIndex
      else if index \<le> 61 then get_static e index
      else if index - 62 < length (dt_entries t) then Ok (dt_entries t ! (index - 62))
      else Err InvalidTableIndex)"

text \<open>The entry at the back of the deque is dropped and its length taken off the size.\<close>

definition dtable_pop_back :: "('m, 'st) ext \<Rightarrow> ('m, 'st) dtable \<Rightarrow> ('m, 'st) dtable" where
  "dtable_pop_back e t = t\<lparr>dt_entries := butlast (dt_entries t),
     dt_size := dt_size t - header_len e (last (dt_entries t))\<rparr>"

function dtable_reserve ::
  "('m, 'st) ext \<Rightarrow> nat \<Rightarrow> ('m, 'st) dtable \<Rightarrow> ('m, 'st) dtable" where
  "dtable_reserve e sz t =
     (if dt_size t + sz > dt_max_size t
      then if dt_entries t = [] then t else dtable_reserve e sz (dtable_pop_back e t)
      else t)"
  by pat_completeness auto
termination
  by (relation "measure (\<lambda>(e, sz, t). length (dt_entries t))") (auto simp: dtable_pop_back_def)

declare dtable_reserve.simps [simp del]

definition dtable_insert ::
  "('m, 'st) ext \<Rightarrow> ('m, 'st, bytes) header \<Rightarrow> ('m, 'st) dtable \<Rightarrow> ('m, 'st) dtable" where
  "dtable_insert e entry t =
     (let len = header_len e entry; t1 = dtable_reserve e len t in
      if dt_size t1 + len \<le> dt_max_size t1
      then t1\<lparr>dt_size := dt_size t1 + len, dt_entries := entry # dt_entries t1\<rparr>
      else t1)"

text \<open>\<open>consolidate\<close> panics if the size is still too large when no entry is left.\<close>

function dtable_consolidate ::
  "('m, 'st) ext \<Rightarrow> ('m, 'st) dtable \<Rightarrow> (('m, 'st) dtable, decoder_error) result" where
  "dtable_consolidate e t =
     (if dt_size t > dt_max_size t
      then if dt_entries t = [] then Panic else dtable_consolidate e (dtable_pop_back e t)
      else Ok t)"
  by pat_completeness auto
termination
  by (relation "measure (\<lambda>(e, t). length (dt_entries t))") (auto simp: dtable_pop_back_def)

declare dtable_consolidate.simps [simp del]

definition dtable_set_max_size ::
  "('m, 'st) ext \<Rightarrow> nat \<Rightarrow> ('m, 'st) dtable \<Rightarrow> (('m, 'st) dtable, decoder_error) result" where
  "dtable_set_max_size e n t = dtable_consolidate e (t\<lparr>dt_max_size := n\<rparr>)"

section \<open>Decoder state and cursor\<close>

record ('m, 'st) hpack_decoder =
  dec_max_size_update :: "nat option"
  dec_last_max_update :: nat
  dec_table :: "('m, 'st) dtable"
  dec_buffer :: bytes

definition hpack_decoder_new :: "nat \<Rightarrow> ('m, 'st) hpack_decoder" where
  "hpack_decoder_new n = \<lparr>dec_max_size_update = None, dec_last_max_update = n,
     dec_table = dtable_new n, dec_buffer = []\<rparr>"

definition queue_size_update :: "nat \<Rightarrow> ('m, 'st) hpack_decoder \<Rightarrow> ('m, 'st) hpack_decoder" where
  "queue_size_update n d = d\<lparr>dec_max_size_update :=
     Some (case dec_max_size_update d of Some v \<Rightarrow> max v n | None \<Rightarrow> n)\<rparr>"

text \<open>\<open>Cursor<&mut BytesMut>\<close>: a position in a buffer that can also be cut at the front.\<close>

record cursor =
  c_pos :: nat
  c_inner :: bytes

definition cursor_rest :: "cursor \<Rightarrow> bytes" where
  "cursor_rest c = drop (c_pos c) (c_inner c)"

text \<open>Moves the cursor to where \<open>rest\<close> is what remains.\<close>

definition cursor_at :: "cursor \<Rightarrow> bytes \<Rightarrow> cursor" where
  "cursor_at c rest = c\<lparr>c_pos := length (c_inner c) - length rest\<rparr>"

definition cursor_advance :: "nat \<Rightarrow> cursor \<Rightarrow> (cursor, decoder_error) result" where
  "cursor_advance n c =
     (if c_pos c + n \<le> length (c_inner c) then Ok (c\<lparr>c_pos := c_pos c + n\<rparr>) else Panic)"

definition peek_u8 :: "cursor \<Rightarrow> u8 option" where
  "peek_u8 c = (case cursor_rest c of [] \<Rightarrow> None | b # _ \<Rightarrow> Some b)"

text \<open>\<open>take\<close>: cut the next \<open>n\<close> bytes, and all before them, off the buffer.\<close>

definition cursor_take :: "nat \<Rightarrow> cursor \<Rightarrow> (bytes \<times> cursor, decoder_error) result" where
  "cursor_take n c =
     (if c_pos c + n \<le> length (c_inner c)
      then Ok (take n (drop (c_pos c) (c_inner c)),
               \<lparr>c_pos = 0, c_inner = drop (c_pos c + n) (c_inner c)\<rparr>)
      else Panic)"

type_synonym ('m, 'st) dstate = "('m, 'st) hpack_decoder \<times> cursor"
type_synonym ('m, 'st, 'a) dcomp =
  "('m, 'st) dstate \<Rightarrow> ('a, decoder_error) result \<times> ('m, 'st) dstate"

definition dret :: "'a \<Rightarrow> ('m, 'st, 'a) dcomp" where
  "dret x s = (Ok x, s)"

definition dbind :: "('m, 'st, 'a) dcomp \<Rightarrow> ('a \<Rightarrow> ('m, 'st, 'b) dcomp) \<Rightarrow> ('m, 'st, 'b) dcomp" where
  "dbind m f s =
     (case m s of (Ok x, s') \<Rightarrow> f x s' | (Err er, s') \<Rightarrow> (Err er, s') | (Panic, s') \<Rightarrow> (Panic, s'))"

text \<open>Lifting: a pure outcome, a change of the cursor, an integer read at the cursor.\<close>

definition dlift :: "('a, decoder_error) result \<Rightarrow> ('m, 'st, 'a) dcomp" where
  "dlift r s = (r, s)"

definition dcursor ::
  "(cursor \<Rightarrow> ('a \<times> cursor, decoder_error) result) \<Rightarrow> ('m, 'st, 'a) dcomp" where
  "dcursor f s = (case f (snd s) of
     Ok (x, c) \<Rightarrow> (Ok x, (fst s, c)) | Err er \<Rightarrow> (Err er, s) | Panic \<Rightarrow> (Panic, s))"

definition dint :: "nat \<Rightarrow> ('m, 'st, nat) dcomp" where
  "dint prefix_size s =
     (case decode_int (cursor_rest (snd s)) prefix_size of (r, rest) \<Rightarrow>
        (r, (fst s, cursor_at (snd s) rest)))"

definition dpos :: "('m, 'st, nat) dcomp" where
  "dpos s = (Ok (c_pos (snd s)), s)"

definition dset_pos :: "nat \<Rightarrow> ('m, 'st, unit) dcomp" where
  "dset_pos p s = (Ok (), (fst s, (snd s)\<lparr>c_pos := p\<rparr>))"

text \<open>\<open>consume\<close>: \<open>take(buf, 0)\<close>, the permanent cursor position.\<close>

definition dconsume :: "('m, 'st, unit) dcomp" where
  "dconsume = dbind (dcursor (cursor_take 0)) (\<lambda>_. dret ())"

section \<open>Strings\<close>

record string_marker =
  sm_offset :: nat
  sm_len :: nat
  sm_string :: "bytes option"

definition HUFF_FLAG :: u8 where "HUFF_FLAG = 0x80"

text \<open>The Huffman branch: the source buffer is advanced whether or not the code is valid.\<close>

definition try_decode_huffman :: "nat \<Rightarrow> nat \<Rightarrow> ('m, 'st, string_marker) dcomp" where
  "try_decode_huffman offset len s =
     (case s of (d, c) \<Rightarrow>
        case huffman_decode (take len (cursor_rest c)) (dec_buffer d) of (r, buf) \<Rightarrow>
          case cursor_advance len c of
            Ok c' \<Rightarrow> (map_ok (\<lambda>b. \<lparr>sm_offset = offset, sm_len = len, sm_string = Some b\<rparr>) r,
                      (d\<lparr>dec_buffer := buf\<rparr>, c'))
          | _ \<Rightarrow> (Panic, (d\<lparr>dec_buffer := buf\<rparr>, c)))"

definition try_decode_string :: "('m, 'st, string_marker) dcomp" where
  "try_decode_string =
     dbind dpos (\<lambda>old_pos s.
       case peek_u8 (snd s) of
         None \<Rightarrow> (Err (NeedMore UnexpectedEndOfStream), s)
       | Some hdr \<Rightarrow>
           let huff = (hdr AND HUFF_FLAG = HUFF_FLAG) in
           dbind (dint 7) (\<lambda>len s1.
             if len > length (cursor_rest (snd s1)) then (Err (NeedMore StringUnderflow), s1)
             else let offset = c_pos (snd s1) - old_pos in
               if huff then try_decode_huffman offset len s1
               else dbind (dcursor (\<lambda>c. map_ok (\<lambda>c'. ((), c')) (cursor_advance len c)))
                      (\<lambda>_. dret \<lparr>sm_offset = offset, sm_len = len, sm_string = None\<rparr>) s1) s)"

definition marker_consume :: "string_marker \<Rightarrow> cursor \<Rightarrow> (bytes \<times> cursor, decoder_error) result" where
  "marker_consume m c =
     rbind (cursor_advance (sm_offset m) c) (\<lambda>c1.
       case sm_string m of
         Some s \<Rightarrow> rbind (cursor_advance (sm_len m) c1) (\<lambda>c2. Ok (s, c2))
       | None \<Rightarrow> cursor_take (sm_len m) c1)"

definition decode_string :: "('m, 'st, bytes) dcomp" where
  "decode_string =
     dbind dpos (\<lambda>old_pos.
     dbind try_decode_string (\<lambda>marker.
     dbind (dset_pos old_pos) (\<lambda>_.
     dcursor (marker_consume marker))))"

section \<open>Representations\<close>

datatype representation =
    Indexed | LiteralWithIndexing | LiteralWithoutIndexing | LiteralNeverIndexed | SizeUpdate

definition representation_load :: "u8 \<Rightarrow> (representation, decoder_error) result" where
  "representation_load byte =
     (if byte AND 0x80 = 0x80 then Ok Indexed
      else if byte AND 0x40 = 0x40 then Ok LiteralWithIndexing
      else if byte AND 0xF0 = 0 then Ok LiteralWithoutIndexing
      else if byte AND 0xF0 = 0x10 then Ok LiteralNeverIndexed
      else if byte AND 0xE0 = 0x20 then Ok SizeUpdate
      else Err InvalidRepresentation)"

definition process_size_update :: "('m, 'st) ext \<Rightarrow> ('m, 'st, unit) dcomp" where
  "process_size_update e =
     dbind (dint 5) (\<lambda>new_size (d, c).
       if new_size > dec_last_max_update d then (Err InvalidMaxDynamicSize, (d, c))
       else case dtable_set_max_size e new_size (dec_table d) of
              Ok t \<Rightarrow> (Ok (), (d\<lparr>dec_table := t\<rparr>, c))
            | Err er \<Rightarrow> (Err er, (d, c))
            | Panic \<Rightarrow> (Panic, (d, c)))"

definition decode_indexed :: "('m, 'st) ext \<Rightarrow> ('m, 'st, ('m, 'st, bytes) header) dcomp" where
  "decode_indexed e = dbind (dint 7) (\<lambda>index s. (dtable_get e (dec_table (fst s)) index, s))"

definition decode_literal ::
  "('m, 'st) ext \<Rightarrow> bool \<Rightarrow> ('m, 'st, ('m, 'st, bytes) header) dcomp" where
  "decode_literal e index =
     dbind (dint (if index then 6 else 4)) (\<lambda>table_idx.
       if table_idx = 0 then
         dbind dpos (\<lambda>old_pos.
         dbind try_decode_string (\<lambda>name_marker.
         dbind try_decode_string (\<lambda>value_marker.
         dbind (dset_pos old_pos) (\<lambda>_.
         dbind (dcursor (marker_consume name_marker)) (\<lambda>name.
         dbind (dcursor (marker_consume value_marker)) (\<lambda>value.
         dlift (header_new e name value)))))))
       else
         dbind (\<lambda>s. (dtable_get e (dec_table (fst s)) table_idx, s)) (\<lambda>entry.
         dbind decode_string (\<lambda>value.
         dlift (name_into_entry e (header_name entry) value))))"

definition dinsert :: "('m, 'st) ext \<Rightarrow> ('m, 'st, bytes) header \<Rightarrow> ('m, 'st, unit) dcomp" where
  "dinsert e entry s =
     (Ok (), ((fst s)\<lparr>dec_table := dtable_insert e entry (dec_table (fst s))\<rparr>, snd s))"

section \<open>The decoding loop\<close>

text \<open>
  One turn of \<open>while let Some(ty) = peek_u8(src)\<close>: the new value of \<open>can_resize\<close> and the header
  passed to the callback, if any.
\<close>

definition decode_one ::
  "('m, 'st) ext \<Rightarrow> bool \<Rightarrow> u8 \<Rightarrow> ('m, 'st, bool \<times> ('m, 'st, bytes) header option) dcomp" where
  "decode_one e can_resize ty =
     dbind (dlift (representation_load ty)) (\<lambda>rep.
       case rep of
         Indexed \<Rightarrow>
           dbind (decode_indexed e) (\<lambda>entry. dbind dconsume (\<lambda>_. dret (False, Some entry)))
       | LiteralWithIndexing \<Rightarrow>
           dbind (decode_literal e True) (\<lambda>entry.
           dbind (dinsert e entry) (\<lambda>_. dbind dconsume (\<lambda>_. dret (False, Some entry))))
       | LiteralWithoutIndexing \<Rightarrow>
           dbind (decode_literal e False) (\<lambda>entry. dbind dconsume (\<lambda>_. dret (False, Some entry)))
       | LiteralNeverIndexed \<Rightarrow>
           dbind (decode_literal e False) (\<lambda>entry. dbind dconsume (\<lambda>_. dret (False, Some entry)))
       | SizeUpdate \<Rightarrow>
           if \<not> can_resize then dlift (Err InvalidMaxDynamicSize)
           else dbind (process_size_update e) (\<lambda>_. dbind dconsume (\<lambda>_. dret (can_resize, None))))"

section \<open>Invariants of the table\<close>

text \<open>The recorded size is the sum of the entry lengths, and within the maximum.\<close>

definition dtable_ok :: "('m, 'st) ext \<Rightarrow> ('m, 'st) dtable \<Rightarrow> bool" where
  "dtable_ok e t \<longleftrightarrow>
     dt_size t = sum_list (map (header_len e) (dt_entries t)) \<and> dt_size t \<le> dt_max_size t"

definition dtable_sized :: "('m, 'st) ext \<Rightarrow> ('m, 'st) dtable \<Rightarrow> bool" where
  "dtable_sized e t \<longleftrightarrow> dt_size t = sum_list (map (header_len e) (dt_entries t))"

lemma dtable_ok_sized: "dtable_ok e t \<longleftrightarrow> dtable_sized e t \<and> dt_size t \<le> dt_max_size t"
  by (simp add: dtable_ok_def dtable_sized_def)

lemma dtable_new_ok: "dtable_ok e (dtable_new n)"
  by (simp add: dtable_ok_def dtable_new_def)

lemma sum_list_butlast_last:
  "xs \<noteq> [] \<Longrightarrow> sum_list (map f xs) = sum_list (map f (butlast xs)) + (f (last xs) :: nat)"
  by (induction xs rule: rev_induct) simp_all

lemma dtable_pop_back_sized:
  "dtable_sized e t \<Longrightarrow> dt_entries t \<noteq> [] \<Longrightarrow> dtable_sized e (dtable_pop_back e t)"
  by (simp add: dtable_sized_def dtable_pop_back_def sum_list_butlast_last)

lemma dtable_pop_back_max [simp]: "dt_max_size (dtable_pop_back e t) = dt_max_size t"
  by (simp add: dtable_pop_back_def)

text \<open>
  Eviction keeps the newest entries: what is left is the longest prefix (newest first) that leaves
  room, and nothing is evicted when there is room already.
\<close>

lemma dtable_reserve_spec:
  "dtable_sized e t \<Longrightarrow>
   (let t' = dtable_reserve e sz t; n = length (dt_entries t') in
      dtable_sized e t' \<and> dt_max_size t' = dt_max_size t
    \<and> dt_entries t' = take n (dt_entries t) \<and> n \<le> length (dt_entries t)
    \<and> (dt_size t' + sz \<le> dt_max_size t \<or> dt_entries t' = [])
    \<and> (n < length (dt_entries t) \<longrightarrow>
         sum_list (map (header_len e) (take (Suc n) (dt_entries t))) + sz > dt_max_size t))"
proof (induction e sz t rule: dtable_reserve.induct)
  case (1 e sz t)
  show ?case
  proof (cases "dt_size t + sz > dt_max_size t \<and> dt_entries t \<noteq> []")
    case False
    then show ?thesis using 1 by (auto simp: dtable_reserve.simps [of e sz t] Let_def)
  next
    case True
    let ?t = "dtable_pop_back e t" let ?t' = "dtable_reserve e sz ?t"
    let ?n = "length (dt_entries ?t')"
    have step: "dtable_reserve e sz t = ?t'"
      using True by (simp add: dtable_reserve.simps [of e sz t])
    have es: "dt_entries ?t = butlast (dt_entries t)" by (simp add: dtable_pop_back_def)
    have "dtable_sized e ?t" using True 1(2) by (intro dtable_pop_back_sized) auto
    with 1(1) True have IH: "dtable_sized e ?t'" "dt_max_size ?t' = dt_max_size t"
        "dt_entries ?t' = take ?n (dt_entries ?t)" "?n \<le> length (dt_entries ?t)"
        "dt_size ?t' + sz \<le> dt_max_size t \<or> dt_entries ?t' = []"
        "?n < length (dt_entries ?t) \<longrightarrow>
          sum_list (map (header_len e) (take (Suc ?n) (dt_entries ?t))) + sz > dt_max_size t"
      by (simp_all add: Let_def)
    have lt: "?n < length (dt_entries t)" 
      using IH(4) True length_greater_0_conv [of "dt_entries t"]
      unfolding es length_butlast by linarith
    have tk: "take ?n (butlast (dt_entries t)) = take ?n (dt_entries t)"
      using lt by (simp add: take_butlast)
    have "sum_list (map (header_len e) (take (Suc ?n) (dt_entries t))) + sz > dt_max_size t"
    proof (cases "?n < length (dt_entries ?t)")
      case True
      then have "take (Suc ?n) (dt_entries ?t) = take (Suc ?n) (dt_entries t)"
        by (simp add: es take_butlast)
      with True IH(6) show ?thesis by simp
    next
      case False
      with lt es have "Suc ?n = length (dt_entries t)" by simp
      with True 1(2) show ?thesis by (simp add: dtable_sized_def)
    qed
    with IH lt tk step es show ?thesis by (simp add: Let_def)
  qed
qed

lemma dtable_insert_ok:
  assumes "dtable_ok e t" shows "dtable_ok e (dtable_insert e h t)"
proof -
  from assms have "dtable_sized e t" by (simp add: dtable_ok_sized)
  from dtable_reserve_spec [OF this, of "header_len e h"] assms show ?thesis
    by (auto simp: dtable_insert_def dtable_ok_def dtable_sized_def Let_def)
qed

lemma dtable_consolidate_ok:
  "dtable_sized e t \<Longrightarrow>
     \<exists>t'. dtable_consolidate e t = Ok t' \<and> dtable_ok e t' \<and> dt_max_size t' = dt_max_size t"
proof (induction e t rule: dtable_consolidate.induct)
  case (1 e t)
  show ?case
  proof (cases "dt_size t > dt_max_size t")
    case True
    then have ne: "dt_entries t \<noteq> []" using 1(2) by (auto simp: dtable_sized_def)
    with True 1(1) [OF True ne] dtable_pop_back_sized [OF 1(2) ne] show ?thesis
      by (auto simp: dtable_consolidate.simps [of e t])
  qed (use 1 in \<open>simp add: dtable_consolidate.simps [of e t] dtable_ok_sized\<close>)
qed

lemma dtable_set_max_size_ok:
  "dtable_sized e t \<Longrightarrow>
     \<exists>t'. dtable_set_max_size e n t = Ok t' \<and> dtable_ok e t' \<and> dt_max_size t' = n"
  using dtable_consolidate_ok [of e "t\<lparr>dt_max_size := n\<rparr>"]
  by (simp add: dtable_set_max_size_def dtable_sized_def)

lemma dtable_get_no_panic: "dtable_get e t i \<noteq> Panic"
  using get_static_no_panic [of i e] by (auto simp: dtable_get_def)

section \<open>What every decoder computation keeps\<close>

definition cursor_ok :: "cursor \<Rightarrow> bool" where
  "cursor_ok c \<longleftrightarrow> c_pos c \<le> length (c_inner c)"

definition is_need_more :: "decoder_error \<Rightarrow> bool" where
  "is_need_more er \<longleftrightarrow> (case er of NeedMore _ \<Rightarrow> True | _ \<Rightarrow> False)"

text \<open>
  \<open>dgood e n m\<close>: from a cursor within its buffer, \<open>m\<close> leaves one, and on success has read at least
  \<open>n\<close> bytes; with a table in order it does not panic and leaves the table in order; and the Huffman
  scratch buffer, when empty, is empty again after success and after a request for more input.
\<close>

definition dgood_step :: "('m, 'st) ext \<Rightarrow> nat \<Rightarrow> ('m, 'st) dstate \<Rightarrow>
    ('a, decoder_error) result \<times> ('m, 'st) dstate \<Rightarrow> bool" where
  "dgood_step e n = (\<lambda>(d, c) (r, (d', c')).
     cursor_ok c'
   \<and> (\<forall>x. r = Ok x \<longrightarrow> length (cursor_rest c') + n \<le> length (cursor_rest c))
   \<and> (dtable_ok e (dec_table d) \<longrightarrow> r \<noteq> Panic \<and> dtable_ok e (dec_table d'))
   \<and> (dec_buffer d = [] \<longrightarrow> (\<forall>er. r = Err er \<longrightarrow> is_need_more er) \<longrightarrow> r \<noteq> Panic \<longrightarrow> dec_buffer d' = [])
   \<and> dec_last_max_update d' = dec_last_max_update d
   \<and> dec_max_size_update d' = dec_max_size_update d)"

definition dgood :: "('m, 'st) ext \<Rightarrow> nat \<Rightarrow> ('m, 'st, 'a) dcomp \<Rightarrow> bool" where
  "dgood e n m \<longleftrightarrow> (\<forall>d c. cursor_ok c \<longrightarrow> dgood_step e n (d, c) (m (d, c)))"

lemma dgoodI:
  "(\<And>d c r d' c'. cursor_ok c \<Longrightarrow> m (d, c) = (r, (d', c')) \<Longrightarrow> dgood_step e n (d, c) (r, (d', c')))
    \<Longrightarrow> dgood e n m"
  unfolding dgood_def by (metis surj_pair)

lemma dgoodD: "dgood e n m \<Longrightarrow> cursor_ok c \<Longrightarrow> m (d, c) = x \<Longrightarrow> dgood_step e n (d, c) x"
  by (auto simp: dgood_def)

lemma dgood_step_trans:
  "dgood_step e n (d, c) (Ok x, (d1, c1)) \<Longrightarrow> dgood_step e k (d1, c1) y \<Longrightarrow>
     dgood_step e (n + k) (d, c) y"
  by (fastforce simp: dgood_step_def split: prod.splits)

lemma dgood_dbind:
  assumes m: "dgood e n m" and f: "\<And>x. dgood e k (f x)"
  shows "dgood e (n + k) (dbind m f)"
proof (rule dgoodI)
  fix d c r d' c'
  assume c: "cursor_ok c" and run: "dbind m f (d, c) = (r, d', c')"
  obtain r1 d1 c1 where m1: "m (d, c) = (r1, d1, c1)" by (cases "m (d, c)") auto
  note M = dgoodD [OF m c m1]
  show "dgood_step e (n + k) (d, c) (r, d', c')"
  proof (cases r1)
    case (Ok x)
    with run m1 have "f x (d1, c1) = (r, d', c')" by (simp add: dbind_def)
    with dgoodD [OF f _ this] M Ok dgood_step_trans show ?thesis
      by (metis (no_types, lifting) dgood_step_def case_prod_conv)
  qed (use M run m1 in \<open>auto simp: dbind_def dgood_step_def\<close>)
qed

lemma dgood_mono: "dgood e n m \<Longrightarrow> k \<le> n \<Longrightarrow> dgood e k m"
  by (rule dgoodI, drule (2) dgoodD) (auto simp: dgood_step_def)

lemma dbind_dlift: "dbind (dlift (Ok x)) f = f x"
  by (simp add: fun_eq_iff dbind_def dlift_def)

lemma dgood_dret: "dgood e 0 (dret x)"
  by (simp add: dgood_def dgood_step_def dret_def)

lemma dgood_dlift: "r \<noteq> Panic \<Longrightarrow> dgood e 0 (dlift r)"
  by (simp add: dgood_def dgood_step_def dlift_def)

lemma dgood_table_get: "dgood e 0 (\<lambda>s. (dtable_get e (dec_table (fst s)) i, s))"
  by (simp add: dgood_def dgood_step_def dtable_get_no_panic)

lemma dgood_dinsert: "dgood e 0 (dinsert e h)"
  by (auto simp: dgood_def dgood_step_def dinsert_def dtable_insert_ok)

lemma cursor_rest_at:
  "length rest \<le> length (cursor_rest c) \<Longrightarrow> cursor_ok c \<Longrightarrow> cursor_rest c = used @ rest \<Longrightarrow>
     cursor_rest (cursor_at c rest) = rest \<and> cursor_ok (cursor_at c rest)"
proof -
  assume ok: "cursor_ok c" and eq: "cursor_rest c = used @ rest"
  have "length (c_inner c) = c_pos c + length used + length rest"
    using arg_cong [OF eq, of length] ok by (simp add: cursor_rest_def cursor_ok_def)
  moreover have "drop (c_pos c + length used) (c_inner c) = rest"
    using eq by (metis add.commute append_eq_conv_conj cursor_rest_def drop_drop)
  ultimately show ?thesis by (simp add: cursor_rest_def cursor_at_def cursor_ok_def)
qed

lemma dint_Ok:
  assumes "cursor_ok c" "dint p (d, c) = (r, (d', c'))"
  shows "d' = d \<and> cursor_ok c' \<and> c_inner c' = c_inner c \<and> c_pos c \<le> c_pos c'
    \<and> (r, cursor_rest c') = decode_int (cursor_rest c) p
    \<and> (\<forall>v. r = Ok v \<longrightarrow> length (cursor_rest c') < length (cursor_rest c) \<and> c_pos c < c_pos c')"
proof -
  let ?b = "cursor_rest c"
  obtain used where used: "?b = used @ snd (decode_int ?b p)" using decode_int_suffix by blast
  have le: "length (snd (decode_int ?b p)) \<le> length ?b"
    using arg_cong [OF used, of length] by simp
  note at = cursor_rest_at [OF le assms(1) used]
  have c': "d' = d" "r = fst (decode_int ?b p)" "c' = cursor_at c (snd (decode_int ?b p))"
    using assms(2) by (auto simp: dint_def split: prod.splits)
  have "c_pos c \<le> c_pos c'" using le assms(1) by (simp add: c' cursor_at_def cursor_rest_def cursor_ok_def)
  moreover have "length (cursor_rest c') < length ?b \<and> c_pos c < c_pos c'" if "r = Ok v" for v
  proof -
    have lt: "length (cursor_rest c') < length ?b"
      using decode_int_bound [of ?b p v "snd (decode_int ?b p)"] that c' at by (metis prod.collapse)
    have inner: "c_inner c' = c_inner c" by (simp add: c' cursor_at_def)
    have "c_pos c < c_pos c'" using lt unfolding cursor_rest_def length_drop inner by linarith
    with lt show ?thesis ..
  qed
  ultimately show ?thesis using at c' by (auto simp: cursor_at_def)
qed

lemma dgood_dint:
  fixes e :: "('m, 'st) ext" shows "dgood e 1 (dint p)"
proof (rule dgoodI)
  fix d d' :: "('m, 'st) hpack_decoder" and c c' r
  assume run: "cursor_ok c" "dint p (d, c) = (r, d', c')"
  show "dgood_step e 1 (d, c) (r, d', c')"
    using dint_Ok [OF run] decode_int_no_panic [of "cursor_rest c" p]
    by (auto simp: dgood_step_def dest: sym)
qed

text \<open>A string is measured without cutting the buffer; the marker says how far to read.\<close>

lemma try_decode_huffman_spec:
  assumes "cursor_ok c" "len \<le> length (cursor_rest c)"
    "try_decode_huffman off len (d, c) = (r, (d', c'))"
  shows "c' = c\<lparr>c_pos := c_pos c + len\<rparr> \<and> cursor_ok c' \<and> (\<exists>b. d' = d\<lparr>dec_buffer := b\<rparr>)
    \<and> ((\<exists>out. r = Ok \<lparr>sm_offset = off, sm_len = len, sm_string = Some out\<rparr> \<and> dec_buffer d' = [])
       \<or> r = Err InvalidHuffmanCode)"
proof -
  have "c_pos c + len \<le> length (c_inner c)"
    using assms(1,2) by (simp add: cursor_ok_def cursor_rest_def)
  then show ?thesis using assms
    by (cases rule: huffman_decode_cases [of "take len (cursor_rest c)" "dec_buffer d"])
      (auto simp: try_decode_huffman_def cursor_advance_def cursor_ok_def)
qed

lemma cursor_advance_Ok:
  "cursor_ok c \<Longrightarrow> n \<le> length (cursor_rest c) \<Longrightarrow>
     cursor_advance n c = Ok (c\<lparr>c_pos := c_pos c + n\<rparr>) \<and> cursor_ok (c\<lparr>c_pos := c_pos c + n\<rparr>)"
  by (simp add: cursor_ok_def cursor_rest_def cursor_advance_def)

lemma try_decode_string_spec:
  assumes c: "cursor_ok c" and run: "try_decode_string (d, c) = (r, (d', c'))"
  shows "r \<noteq> Panic \<and> cursor_ok c' \<and> c_inner c' = c_inner c \<and> c_pos c \<le> c_pos c'
    \<and> (\<exists>b. d' = d\<lparr>dec_buffer := b\<rparr>)
    \<and> (dec_buffer d = [] \<longrightarrow> (\<forall>er. r = Err er \<longrightarrow> is_need_more er) \<longrightarrow> dec_buffer d' = [])
    \<and> (\<forall>m. r = Ok m \<longrightarrow> 0 < sm_offset m \<and> c_pos c' = c_pos c + sm_offset m + sm_len m)"
proof (cases "peek_u8 c")
  case None
  with run c show ?thesis
    by (auto simp: try_decode_string_def dbind_def dpos_def intro: exI [of _ "dec_buffer d"])
next
  case (Some hdr)
  obtain r1 d1 c1 where int: "dint 7 (d, c) = (r1, (d1, c1))" by (cases "dint 7 (d, c)") auto
  note I = dint_Ok [OF c int]
  have np: "r1 \<noteq> Panic" using I decode_int_no_panic [of "cursor_rest c" 7] by (metis fst_conv)
  show ?thesis
  proof (cases r1)
    case (Ok len)
    show ?thesis
    proof (cases "len \<le> length (cursor_rest c1)")
      case True
      show ?thesis
      proof (cases "hdr AND HUFF_FLAG = HUFF_FLAG")
        case huff: True
        have "try_decode_huffman (c_pos c1 - c_pos c) len (d1, c1) = (r, (d', c'))"
          using run Some int Ok True huff by (simp add: try_decode_string_def dbind_def dpos_def Let_def)
        from try_decode_huffman_spec [OF _ True this] I Ok show ?thesis
          by (auto simp: is_need_more_def)
      next
        case False
        from cursor_advance_Ok [OF _ True] run Some int Ok True False I show ?thesis
          by (auto simp: try_decode_string_def dbind_def dpos_def Let_def dcursor_def dret_def
              intro: exI [of _ "dec_buffer d"])
      qed
    next
      case False
      with run Some int Ok I show ?thesis
        by (auto simp: try_decode_string_def dbind_def dpos_def Let_def
            intro: exI [of _ "dec_buffer d"])
    qed
  next
    case (Err er)
    with run Some int I show ?thesis
      by (auto simp: try_decode_string_def dbind_def dpos_def Let_def intro: exI [of _ "dec_buffer d"])
  qed (use np in simp)
qed

lemma marker_consume_Ok:
  assumes "cursor_ok c" "sm_offset m + sm_len m \<le> length (cursor_rest c)"
  shows "\<exists>b c'. marker_consume m c = Ok (b, c') \<and> cursor_ok c'
    \<and> cursor_rest c' = drop (sm_offset m + sm_len m) (cursor_rest c)
    \<and> b = (case sm_string m of Some s \<Rightarrow> s
           | None \<Rightarrow> take (sm_len m) (drop (sm_offset m) (cursor_rest c)))"
  using assms
  by (auto simp: marker_consume_def cursor_advance_def cursor_take_def cursor_ok_def cursor_rest_def
      add.commute add.left_commute split: option.splits)

lemma length_cursor_rest: "length (cursor_rest c) = length (c_inner c) - c_pos c"
  by (simp add: cursor_rest_def)

lemma cursor_rest_back:
  "c_inner c' = c_inner c \<Longrightarrow> c'\<lparr>c_pos := c_pos c\<rparr> = c" for c c' :: cursor
  by (cases c; cases c') simp

lemma dgood_decode_string:
  fixes e :: "('m, 'st) ext" shows "dgood e 1 decode_string"
proof (rule dgoodI)
  fix d d' :: "('m, 'st) hpack_decoder" and c c' r
  assume c: "cursor_ok c" and run: "decode_string (d, c) = (r, d', c')"
  obtain r1 d1 c1 where t: "try_decode_string (d, c) = (r1, (d1, c1))"
    by (cases "try_decode_string (d, c)") auto
  note T = try_decode_string_spec [OF c t]
  show "dgood_step e 1 (d, c) (r, d', c')"
  proof (cases r1)
    case (Ok m)
    with T have m: "0 < sm_offset m" "c_pos c1 = c_pos c + sm_offset m + sm_len m" by auto
    then have le: "sm_offset m + sm_len m \<le> length (cursor_rest c)"
      using T by (auto simp: length_cursor_rest cursor_ok_def)
    from marker_consume_Ok [OF c le] run t Ok T le m(1) show ?thesis
      by (auto simp: decode_string_def dbind_def dpos_def dset_pos_def dcursor_def dgood_step_def
          cursor_rest_back)
  next
    case (Err er)
    with run t T show ?thesis
      by (auto simp: decode_string_def dbind_def dpos_def dgood_step_def)
  qed (use T in simp)
qed

text \<open>A literal name and a literal value, measured first and then cut off.\<close>

definition decode_name_value :: "('m, 'st) ext \<Rightarrow> ('m, 'st, ('m, 'st, bytes) header) dcomp" where
  "decode_name_value e =
     dbind dpos (\<lambda>old_pos.
     dbind try_decode_string (\<lambda>name_marker.
     dbind try_decode_string (\<lambda>value_marker.
     dbind (dset_pos old_pos) (\<lambda>_.
     dbind (dcursor (marker_consume name_marker)) (\<lambda>name.
     dbind (dcursor (marker_consume value_marker)) (\<lambda>value.
     dlift (header_new e name value)))))))"

lemma dgood_decode_name_value:
  fixes e :: "('m, 'st) ext" shows "dgood e 1 (decode_name_value e)"
proof (rule dgoodI)
  fix d d' :: "('m, 'st) hpack_decoder" and c c' r
  assume c: "cursor_ok c" and run: "decode_name_value e (d, c) = (r, d', c')"
  obtain r1 d1 c1 where t1: "try_decode_string (d, c) = (r1, (d1, c1))"
    by (cases "try_decode_string (d, c)") auto
  note T1 = try_decode_string_spec [OF c t1]
  obtain r2 d2 c2 where t2: "try_decode_string (d1, c1) = (r2, (d2, c2))"
    by (cases "try_decode_string (d1, c1)") auto
  note T2 = try_decode_string_spec [OF conjunct1 [OF conjunct2 [OF T1]] t2]
  show "dgood_step e 1 (d, c) (r, d', c')"
  proof (cases "\<exists>m1 m2. r1 = Ok m1 \<and> r2 = Ok m2")
    case True
    then obtain m1 m2 where m: "r1 = Ok m1" "r2 = Ok m2" by blast
    have le: "sm_offset m1 + sm_len m1 + (sm_offset m2 + sm_len m2) \<le> length (cursor_rest c)"
      using T1 T2 m by (auto simp: length_cursor_rest cursor_ok_def)
    have o: "0 < sm_offset m1" using T1 m by simp
    from marker_consume_Ok [OF c, of m1] le obtain b1 c3 where
      c3: "marker_consume m1 c = Ok (b1, c3)" "cursor_ok c3"
        "cursor_rest c3 = drop (sm_offset m1 + sm_len m1) (cursor_rest c)" by auto
    from marker_consume_Ok [OF c3(2), of m2] le c3(3) obtain b2 c4 where
      c4: "marker_consume m2 c3 = Ok (b2, c4)" "cursor_ok c4"
        "cursor_rest c4 = drop (sm_offset m2 + sm_len m2) (cursor_rest c3)" by force
    have "c_inner c2 = c_inner c" using T1 T2 by simp
    then have "(r, d', c') = (header_new e b1 b2, d2, c4)"
      using run t1 t2 m c3 c4
      by (simp add: decode_name_value_def dbind_def dpos_def dset_pos_def dcursor_def dlift_def
          cursor_rest_back)
    with T1 T2 c3 c4 o le m header_new_no_panic [of e b1 b2] show ?thesis
      by (auto simp: dgood_step_def)
  next
    case False
    with run t1 t2 T1 T2 show ?thesis
      by (cases r1; cases r2) (auto simp: decode_name_value_def dbind_def dpos_def dgood_step_def)
  qed
qed

lemma decode_literal_eq:
  "decode_literal e index =
     dbind (dint (if index then 6 else 4)) (\<lambda>table_idx.
       if table_idx = 0 then decode_name_value e
       else dbind (\<lambda>s. (dtable_get e (dec_table (fst s)) table_idx, s)) (\<lambda>entry.
         dbind decode_string (\<lambda>value.
         dlift (name_into_entry e (header_name entry) value))))"
  by (simp only: decode_literal_def decode_name_value_def)

lemma dgood_decode_literal: "dgood e 2 (decode_literal e index)"
proof -
  have "dgood e (0 + (1 + 0)) (dbind (\<lambda>s. (dtable_get e (dec_table (fst s)) i, s)) (\<lambda>entry.
      dbind decode_string (\<lambda>value. dlift (name_into_entry e (header_name entry) value))))" for i
    by (intro dgood_dbind dgood_table_get dgood_decode_string dgood_dlift name_into_entry_no_panic)
  then have "dgood e (1 + 1) (decode_literal e index)"
    unfolding decode_literal_eq
    by (intro dgood_dbind dgood_dint)
      (use dgood_decode_name_value in \<open>auto simp del: One_nat_def\<close>)
  then show ?thesis by (simp only: one_add_one)
qed

lemma dgood_decode_indexed: "dgood e 1 (decode_indexed e)"
  using dgood_dbind [OF dgood_dint dgood_table_get, of e 7] by (simp add: decode_indexed_def)

lemma dgood_process_size_update:
  fixes e :: "('m, 'st) ext" shows "dgood e 1 (process_size_update e)"
proof -
  have "dgood e 0 (\<lambda>(d, c). if n > dec_last_max_update d then (Err InvalidMaxDynamicSize, (d, c))
       else case dtable_set_max_size e n (dec_table d) of
              Ok t \<Rightarrow> (Ok (), (d\<lparr>dec_table := t\<rparr>, c))
            | Err er \<Rightarrow> (Err er, (d, c))
            | Panic \<Rightarrow> (Panic, (d, c)))" for n
    by (rule dgoodI)
      (auto simp: dgood_step_def dtable_ok_sized is_need_more_def dest: dtable_set_max_size_ok [of e _ n]
        split: if_splits result.splits)
  from dgood_dbind [OF dgood_dint this] show ?thesis by (simp add: process_size_update_def)
qed

lemma dgood_dconsume:
  fixes e :: "('m, 'st) ext" shows "dgood e 0 dconsume"
  by (rule dgoodI) (auto simp: dconsume_def dbind_def dcursor_def cursor_take_def dret_def
      dgood_step_def cursor_ok_def cursor_rest_def)

lemma representation_load_total: "\<exists>rep. representation_load b = Ok rep"
proof -
  have "b AND 0xE0 = 0x20" if "b AND 0x80 \<noteq> 0x80" "b AND 0x40 \<noteq> 0x40" "b AND 0xF0 \<noteq> 0"
    "b AND 0xF0 \<noteq> 0x10"
    using that by (auto simp: u8_eq_iff_bits bit_and_iff)
  then show ?thesis by (auto simp: representation_load_def)
qed

lemma dgood_decode_one:
  fixes e :: "('m, 'st) ext" shows "dgood e 1 (decode_one e can_resize ty)"
proof -
  have tail: "dgood e (0 + 0) (dbind dconsume (\<lambda>_. dret x))"
    for x :: "bool \<times> ('m, 'st, bytes) header option"
    by (intro dgood_dbind dgood_dconsume dgood_dret)
  note T = tail [unfolded add_0]
  have 1: "dgood e (1 + 0) (dbind (decode_indexed e) (\<lambda>h. dbind dconsume (\<lambda>_. dret (False, Some h))))"
    by (intro dgood_dbind dgood_decode_indexed T)
  have 2: "dgood e (2 + 0) (dbind (decode_literal e i) (\<lambda>h. dbind dconsume (\<lambda>_. dret (False, Some h))))" for i
    by (intro dgood_dbind dgood_decode_literal T)
  have 3: "dgood e (2 + (0 + 0)) (dbind (decode_literal e True) (\<lambda>h. dbind (dinsert e h) (\<lambda>_.
      dbind dconsume (\<lambda>_. dret (False, Some h)))))"
    by (intro dgood_dbind dgood_decode_literal dgood_dinsert T)
  have 4: "dgood e (1 + 0) (dbind (process_size_update e) (\<lambda>_. dbind dconsume (\<lambda>_. dret (b, None :: ('m, 'st, bytes) header option))))" for b :: bool
    by (intro dgood_dbind dgood_process_size_update T)
  obtain rep where "representation_load ty = Ok rep" using representation_load_total by blast
  moreover have "dgood e 1 (dlift (Err InvalidMaxDynamicSize)
      :: ('m, 'st, bool \<times> ('m, 'st, bytes) header option) dcomp)"
    by (simp add: dgood_def dgood_step_def dlift_def is_need_more_def)
  ultimately show ?thesis using 1 4 2 [THEN dgood_mono, of 1] 3 [THEN dgood_mono, of 1]
    by (cases rep) (simp_all add: decode_one_def dbind_dlift)
qed

section \<open>The decoding loop\<close>

text \<open>
  \<open>while let Some(ty) = peek_u8(src)\<close>, with the headers passed to the callback in their order. Each
  turn reads at least one byte, so the loop ends.
\<close>

lemma decode_one_shrinks:
  assumes "peek_u8 c = Some ty" "decode_one e can_resize ty (d, c) = (Ok x, (d', c'))"
  shows "length (cursor_rest c') < length (cursor_rest c)"
proof -
  have "cursor_ok c" using assms(1)
    by (cases "c_pos c \<le> length (c_inner c)") (simp_all add: peek_u8_def cursor_rest_def cursor_ok_def)
  from dgoodD [OF dgood_decode_one this assms(2)] show ?thesis by (simp add: dgood_step_def)
qed

function decode_loop ::
  "('m, 'st) ext \<Rightarrow> bool \<Rightarrow> ('m, 'st, bytes) header list \<Rightarrow> ('m, 'st) hpack_decoder \<Rightarrow> cursor \<Rightarrow>
     (unit, decoder_error) result \<times> ('m, 'st, bytes) header list \<times> ('m, 'st) dstate" where
  "decode_loop e can_resize hs d c =
     (case peek_u8 c of
        None \<Rightarrow> (Ok (), hs, (d, c))
      | Some ty \<Rightarrow>
          (case decode_one e can_resize ty (d, c) of
             (Ok (cr, h), (d', c')) \<Rightarrow>
               decode_loop e cr (hs @ (case h of None \<Rightarrow> [] | Some x \<Rightarrow> [x])) d' c'
           | (Err er, s') \<Rightarrow> (Err er, hs, s')
           | (Panic, s') \<Rightarrow> (Panic, hs, s')))"
  by pat_completeness auto
termination
  by (relation "measure (\<lambda>(e, cr, hs, d, c). length (cursor_rest c))")
    (auto intro: decode_one_shrinks [OF _ sym])

declare decode_loop.simps [simp del]

definition decode ::
  "('m, 'st) ext \<Rightarrow> ('m, 'st) hpack_decoder \<Rightarrow> cursor \<Rightarrow>
     (unit, decoder_error) result \<times> ('m, 'st, bytes) header list \<times> ('m, 'st) dstate" where
  "decode e d c =
     (let d1 = (case dec_max_size_update d of
                  Some n \<Rightarrow> d\<lparr>dec_max_size_update := None, dec_last_max_update := n\<rparr>
                | None \<Rightarrow> d) in
      decode_loop e True [] d1 c)"

text \<open>
  On any input the decoder returns, without a panic, with its table in order; success means that
  the whole buffer was read.
\<close>

lemma decode_loop_safe:
  "cursor_ok c \<Longrightarrow> dtable_ok e (dec_table d) \<Longrightarrow> decode_loop e cr hs d c = (r, hs', (d', c')) \<Longrightarrow>
     r \<noteq> Panic \<and> dtable_ok e (dec_table d') \<and> cursor_ok c' \<and> (r = Ok () \<longrightarrow> cursor_rest c' = [])
   \<and> (dec_buffer d = [] \<longrightarrow> (\<forall>er. r = Err er \<longrightarrow> is_need_more er) \<longrightarrow> dec_buffer d' = [])
   \<and> dec_last_max_update d' = dec_last_max_update d \<and> dec_max_size_update d' = dec_max_size_update d
   \<and> prefix hs hs'"
proof (induction e cr hs d c arbitrary: r hs' d' c' rule: decode_loop.induct)
  case (1 e cr hs d c)
  show ?case
  proof (cases "peek_u8 c")
    case None
    with "1.prems" show ?thesis
      by (auto simp: decode_loop.simps [of e cr hs d c] peek_u8_def split: list.splits)
  next
    case (Some ty)
    obtain r1 d1 c1 where one: "decode_one e cr ty (d, c) = (r1, (d1, c1))"
      by (cases "decode_one e cr ty (d, c)") auto
    note G = dgoodD [OF dgood_decode_one "1.prems"(1) one, unfolded dgood_step_def prod.case]
    show ?thesis
    proof (cases r1)
      case (Ok y)
      obtain cr1 h where y: "y = (cr1, h)" by (cases y)
      let ?hs = "hs @ (case h of None \<Rightarrow> [] | Some x \<Rightarrow> [x])"
      have rec: "decode_loop e cr1 ?hs d1 c1 = (r, hs', (d', c'))"
        using "1.prems"(3) Some one Ok y by (simp add: decode_loop.simps [of e cr hs d c])
      have G1: "cursor_ok c1" "dtable_ok e (dec_table d1)" "dec_buffer d = [] \<longrightarrow> dec_buffer d1 = []"
        "dec_last_max_update d1 = dec_last_max_update d"
        "dec_max_size_update d1 = dec_max_size_update d"
        using G "1.prems"(2) Ok by auto
      from "1.IH" [OF Some one [symmetric] Ok y [symmetric] refl G1(1,2) rec] G1
      show ?thesis by (auto dest: append_prefixD)
    qed (use G "1.prems" Some one in \<open>auto simp: decode_loop.simps [of e cr hs d c]\<close>)
  qed
qed

end
