(* ===== verification/Hpack_Encoder.thy ===== *)
theory Hpack_Encoder
  imports Hpack_Decoder
begin

text \<open>
  The HPACK encoder's output functions (\<open>hpack/encoder.rs\<close>): strings, the representations of a
  header for a given index, size updates and the queue of pending ones; and that the decoder reads
  each of them back. The destination buffer is the list of its bytes. \<open>Panic\<close> stands for the
  fixed eight-byte area of \<open>encode_str\<close> being too small and for the failed assertions.
\<close>

section \<open>Strings\<close>

definition PLACEHOLDER_LEN :: nat where "PLACEHOLDER_LEN = 8"

text \<open>\<open>for i in 0..huff_len\<close>: the coded string is moved up by \<open>head_len - 1\<close>, last byte first.\<close>

definition shift_forward :: "nat \<Rightarrow> nat \<Rightarrow> nat \<Rightarrow> bytes \<Rightarrow> bytes" where
  "shift_forward idx head_len huff_len dst =
     fold (\<lambda>i d. d[idx + head_len + (huff_len - (i + 1)) := d ! (idx + 1 + (huff_len - (i + 1)))])
       [0..<huff_len] dst"

text \<open>\<open>for i in 0..head_len\<close>: the head is copied in front of it.\<close>

definition copy_head :: "nat \<Rightarrow> bytes \<Rightarrow> bytes \<Rightarrow> bytes" where
  "copy_head idx buf dst = fold (\<lambda>i d. d[idx + i := buf ! i]) [0..<length buf] dst"

definition encode_str :: "bytes \<Rightarrow> bytes \<Rightarrow> (bytes, unit) result" where
  "encode_str val dst =
     (if val \<noteq> [] then
        let idx = length dst;
            dst1 = dst @ [0] @ huffman_encode val;
            huff_len = length dst1 - (idx + 1) in
        if encode_int_one_byte huff_len 7
        then Ok (dst1[idx := 0x80 OR of_nat huff_len])
        else
          let buf = encode_int huff_len 7 0x80; head_len = length buf in
          if head_len > PLACEHOLDER_LEN then Panic
          else
            let dst2 = dst1 @ take (head_len - 1) (drop 1 buf);
                dst3 = shift_forward idx head_len huff_len dst2 in
            Ok (copy_head idx buf dst3)
      else Ok (dst @ [0]))"

section \<open>Representations\<close>

datatype ('m, 'st) table_index =
    IdxIndexed nat "('m, 'st, bytes) header"
  | IdxName nat "('m, 'st, bytes) header"
  | IdxInserted nat
  | IdxInsertedValue nat nat
  | IdxNotIndexed "('m, 'st, bytes) header"

definition encode_size_update :: "nat \<Rightarrow> bytes \<Rightarrow> bytes" where
  "encode_size_update v dst = dst @ encode_int v 5 0x20"

definition encode_not_indexed :: "nat \<Rightarrow> bytes \<Rightarrow> bool \<Rightarrow> bytes \<Rightarrow> (bytes, unit) result" where
  "encode_not_indexed name value sensitive dst =
     encode_str value (if sensitive then dst @ encode_int name 4 0x10 else dst @ encode_int name 4 0)"

definition encode_not_indexed2 :: "bytes \<Rightarrow> bytes \<Rightarrow> bool \<Rightarrow> bytes \<Rightarrow> (bytes, unit) result" where
  "encode_not_indexed2 name value sensitive dst =
     rbind (encode_str name (if sensitive then dst @ [0x10] else dst @ [0])) (encode_str value)"

text \<open>
  \<open>Encoder::encode_header\<close>, with the headers of the table's slots (newest first) as they are when
  it is called, right after \<open>Table::index\<close>.
\<close>

definition table_resolve ::
  "('m, 'st, bytes) header list \<Rightarrow> ('m, 'st) table_index \<Rightarrow> (('m, 'st, bytes) header, unit) result" where
  "table_resolve slots index =
     (case index of
        IdxIndexed _ h \<Rightarrow> Ok h
      | IdxName _ h \<Rightarrow> Ok h
      | IdxInserted i \<Rightarrow> if i < length slots then Ok (slots ! i) else Panic
      | IdxInsertedValue _ i \<Rightarrow> if i < length slots then Ok (slots ! i) else Panic
      | IdxNotIndexed h \<Rightarrow> Ok h)"

definition DYN_OFFSET :: nat where "DYN_OFFSET = 62"

definition table_resolve_idx :: "('m, 'st) table_index \<Rightarrow> (nat, unit) result" where
  "table_resolve_idx index =
     (case index of
        IdxIndexed i _ \<Rightarrow> Ok i
      | IdxName i _ \<Rightarrow> Ok i
      | IdxInserted i \<Rightarrow> Ok (i + DYN_OFFSET)
      | IdxInsertedValue _ i \<Rightarrow> Ok (i + DYN_OFFSET)
      | IdxNotIndexed _ \<Rightarrow> Panic)"

definition encode_header ::
  "('m, 'st) ext \<Rightarrow> ('m, 'st, bytes) header list \<Rightarrow> ('m, 'st) table_index \<Rightarrow> bytes \<Rightarrow> (bytes, unit) result" where
  "encode_header e slots index dst =
     rbind (table_resolve slots index) (\<lambda>h.
       case index of
         IdxIndexed i _ \<Rightarrow> Ok (dst @ encode_int i 7 0x80)
       | IdxName i _ \<Rightarrow> encode_not_indexed i (header_value_slice e h) (header_is_sensitive h) dst
       | IdxInserted _ \<Rightarrow>
           if header_is_sensitive h then Panic
           else rbind (encode_str (name_as_slice (header_name h)) (dst @ [0x40]))
                  (encode_str (header_value_slice e h))
       | IdxInsertedValue i _ \<Rightarrow>
           if header_is_sensitive h then Panic
           else encode_str (header_value_slice e h) (dst @ encode_int i 6 0x40)
       | IdxNotIndexed _ \<Rightarrow>
           encode_not_indexed2 (name_as_slice (header_name h)) (header_value_slice e h)
             (header_is_sensitive h) dst)"

definition encode_header_without_name ::
  "('m, 'st, bytes) header list \<Rightarrow> ('m, 'st) table_index \<Rightarrow> bytes \<Rightarrow> bytes \<Rightarrow> (bytes, unit) result" where
  "encode_header_without_name slots last_index value dst =
     (case last_index of
        IdxNotIndexed _ \<Rightarrow>
          rbind (table_resolve slots last_index) (\<lambda>h.
            encode_not_indexed2 (name_as_slice (header_name h)) value False dst)
      | _ \<Rightarrow> rbind (table_resolve_idx last_index) (\<lambda>i. encode_not_indexed i value False dst))"

section \<open>Pending size updates\<close>

datatype size_update = SizeUpdateOne nat | SizeUpdateTwo nat nat

text \<open>\<open>Encoder::update_max_size\<close> on the queue, with the table's current maximum.\<close>

definition update_max_size :: "nat \<Rightarrow> nat \<Rightarrow> size_update option \<Rightarrow> size_update option" where
  "update_max_size table_max v q =
     (case q of
        Some (SizeUpdateOne old) \<Rightarrow>
          if v > old then
            if old > table_max then Some (SizeUpdateOne v) else Some (SizeUpdateTwo old v)
          else Some (SizeUpdateOne v)
      | Some (SizeUpdateTwo mn _) \<Rightarrow>
          if v < mn then Some (SizeUpdateOne v) else Some (SizeUpdateTwo mn v)
      | None \<Rightarrow> if v \<noteq> table_max then Some (SizeUpdateOne v) else None)"

text \<open>The sizes \<open>encode_size_updates\<close> applies to the table and writes, in order.\<close>

definition size_updates :: "size_update option \<Rightarrow> nat list" where
  "size_updates q =
     (case q of None \<Rightarrow> [] | Some (SizeUpdateOne v) \<Rightarrow> [v] | Some (SizeUpdateTwo mn mx) \<Rightarrow> [mn, mx])"

definition encode_size_updates :: "size_update option \<Rightarrow> bytes \<Rightarrow> bytes \<times> nat list" where
  "encode_size_updates q dst = (fold encode_size_update (size_updates q) dst, size_updates q)"

section \<open>The string head is written in place\<close>

lemma length_shift_loop:
  "length (fold (\<lambda>i d. d[f i := d ! g i]) xs dst) = length dst"
  by (induction xs arbitrary: dst) auto

lemma nth_shift_loop:
  assumes "k \<le> n" "idx + hl + n \<le> length dst" "0 < hl" "j < length dst"
  shows "fold (\<lambda>i d. d[idx + hl + (n - (i + 1)) := d ! (idx + 1 + (n - (i + 1)))]) [0..<k] dst ! j
    = (if idx + hl + (n - k) \<le> j \<and> j < idx + hl + n then dst ! (j - hl + 1) else dst ! j)"
  using assms
proof (induction k arbitrary: j)
  case (Suc k)
  let ?F = "fold (\<lambda>i d. d[idx + hl + (n - (i + 1)) := d ! (idx + 1 + (n - (i + 1)))]) [0..<k] dst"
  have len: "length ?F = length dst" by (rule length_shift_loop)
  have src: "?F ! (idx + 1 + (n - (k + 1))) = dst ! (idx + 1 + (n - (k + 1)))"
    using Suc.prems Suc.IH [of "idx + 1 + (n - (k + 1))"] by auto
  show ?case
  proof (cases "j = idx + hl + (n - (k + 1))")
    case True
    with Suc.prems src len show ?thesis by auto
  next
    case False
    with Suc.prems Suc.IH [of j] len show ?thesis by auto
  qed
qed auto

lemma length_copy_loop: "length (fold (\<lambda>i d. d[idx + i := buf ! i]) xs dst) = length dst"
  by (induction xs arbitrary: dst) auto

lemma nth_copy_head:
  assumes "k \<le> length buf" "idx + k \<le> length dst" "j < length dst"
  shows "fold (\<lambda>i d. d[idx + i := buf ! i]) [0..<k] dst ! j
    = (if idx \<le> j \<and> j < idx + k then buf ! (j - idx) else dst ! j)"
  using assms by (induction k) (auto simp: nth_list_update length_copy_loop)

lemma length_shift_forward: "length (shift_forward idx hl n dst) = length dst"
  by (simp add: shift_forward_def length_shift_loop)

lemma length_copy_head: "length (copy_head idx buf dst) = length dst"
  by (simp add: copy_head_def length_copy_loop)

text \<open>Shifting and copying leave the head followed by the coded string.\<close>

lemma shift_and_copy:
  assumes "buf \<noteq> []" "length x = 1"
  shows "copy_head (length dst) buf (shift_forward (length dst) (length buf) (length h)
      (dst @ x @ h @ tl buf)) = dst @ buf @ h"
proof (rule nth_equalityI)
  let ?d = "dst @ x @ h @ tl buf"
  let ?s = "shift_forward (length dst) (length buf) (length h) ?d"
  have ld: "length ?d = length dst + length buf + length h" using assms by (cases buf) auto
  have ls: "length ?s = length ?d" by (rule length_shift_forward)
  have hl: "0 < length buf" using assms by simp
  show "length (copy_head (length dst) buf ?s) = length (dst @ buf @ h)"
    using ls ld by (simp only: length_copy_head length_append add.assoc)
  fix j assume "j < length (copy_head (length dst) buf ?s)"
  then have j: "j < length ?d"
    using ls ld by (simp only: length_copy_head length_append add.assoc)
  have "copy_head (length dst) buf ?s ! j =
      (if length dst \<le> j \<and> j < length dst + length buf then buf ! (j - length dst) else ?s ! j)"
    using nth_copy_head [of "length buf" buf "length dst" ?s j] j ls ld by (simp add: copy_head_def)
  moreover have "?s ! j = (if length dst + length buf \<le> j \<and> j < length dst + length buf + length h
      then ?d ! (j - length buf + 1) else ?d ! j)"
    unfolding shift_forward_def
    using nth_shift_loop [of "length h" "length h" "length dst" "length buf" ?d j] j ld hl by simp
  moreover have "?d ! (j - length buf + 1) = h ! (j - length dst - length buf)"
    if "length dst + length buf \<le> j"
  proof -
    have "j - length buf + 1 = length dst + (length x + (j - length dst - length buf))"
      using that assms(2) by simp
    moreover have "j - length dst - length buf < length h" using that j ld by simp
    ultimately show ?thesis by (simp only: nth_append_length_plus) (simp add: nth_append)
  qed
  moreover have "(dst @ buf @ h) ! j = h ! (j - length dst - length buf)"
    if "length dst + length buf \<le> j"
    using that by (auto simp: nth_append)
  ultimately show "copy_head (length dst) buf ?s ! j = (dst @ buf @ h) ! j"
    using j ld by (cases "j < length dst"; cases "j < length dst + length buf")
      (auto simp: nth_append)
qed

lemma length_encode_varint: "v < 128 ^ k \<Longrightarrow> 0 < k \<Longrightarrow> length (encode_varint v) \<le> k"
proof (induction v arbitrary: k rule: encode_varint.induct)
  case (1 v)
  show ?case
  proof (cases "v \<ge> 128")
    case True
    with "1.prems" obtain j where k: "k = Suc j" "0 < j" by (cases k; cases "k - 1") auto
    have "v div 128 < 128 ^ j" using "1.prems" k by (simp add: less_mult_imp_div_less mult.commute)
    with True 1 k show ?thesis by (subst encode_varint.simps) auto
  qed (use "1.prems" in \<open>subst encode_varint.simps, simp\<close>)
qed

definition str_max :: nat where "str_max = 127 + 2 ^ 28"

lemma encode_str_eq:
  assumes "val \<noteq> []" "length (huffman_encode val) < str_max"
  shows "encode_str val dst
    = Ok (dst @ encode_int (length (huffman_encode val)) 7 0x80 @ huffman_encode val)"
proof (cases "encode_int_one_byte (length (huffman_encode val)) 7")
  case True
  with assms(1) show ?thesis
    by (simp add: encode_str_def encode_int_def Let_def list_update_append)
next
  case False
  let ?h = "huffman_encode val" let ?buf = "encode_int (length ?h) 7 0x80"
  have "length (encode_varint (length ?h - 127)) \<le> 7"
    using assms(2) by (intro length_encode_varint) (simp_all add: str_max_def)
  with False have buf: "?buf \<noteq> []" "length ?buf \<le> PLACEHOLDER_LEN"
    by (simp_all add: encode_int_def PLACEHOLDER_LEN_def Let_def)
  have "take (length ?buf - 1) (drop 1 ?buf) = tl ?buf" by (simp add: drop_Suc)
  with False assms(1) buf shift_and_copy [OF buf(1), of "[0]" dst ?h] show ?thesis
    by (simp add: encode_str_def Let_def)
qed

lemma encode_str_Nil: "encode_str [] dst = Ok (dst @ [0])"
  by (simp add: encode_str_def)

text \<open>The bytes a string is written as.\<close>

definition str_bytes :: "bytes \<Rightarrow> bytes" where
  "str_bytes val = (if val = [] then [0]
     else encode_int (length (huffman_encode val)) 7 0x80 @ huffman_encode val)"

lemma encode_str_bytes:
  "length (huffman_encode val) < str_max \<Longrightarrow> encode_str val dst = Ok (dst @ str_bytes val)"
  by (cases "val = []") (simp_all add: str_bytes_def encode_str_eq encode_str_Nil)

section \<open>The decoder reads what the encoder writes\<close>

lemma cursor_rest_advance:
  assumes "cursor_ok c" "cursor_rest c = xs @ rest"
  shows "cursor_at c rest = c\<lparr>c_pos := c_pos c + length xs\<rparr>"
    and "cursor_ok (c\<lparr>c_pos := c_pos c + length xs\<rparr>)"
    and "cursor_rest (c\<lparr>c_pos := c_pos c + length xs\<rparr>) = rest"
proof -
  have len: "length (c_inner c) = c_pos c + length xs + length rest"
    using arg_cong [OF assms(2), of length] assms(1) by (simp add: cursor_rest_def cursor_ok_def)
  then show "cursor_at c rest = c\<lparr>c_pos := c_pos c + length xs\<rparr>"
    "cursor_ok (c\<lparr>c_pos := c_pos c + length xs\<rparr>)" by (simp_all add: cursor_at_def cursor_ok_def)
  show "cursor_rest (c\<lparr>c_pos := c_pos c + length xs\<rparr>) = rest"
    using assms(2) by (simp add: cursor_rest_def add.commute [of "c_pos c"] flip: drop_drop)
qed

lemma dint_encode:
  assumes "1 \<le> p" "p \<le> 8" "f AND int_mask p = 0" "v < 2 ^ p - 1 + 2 ^ 28"
    and "cursor_ok c" "cursor_rest c = encode_int v p f @ rest"
  shows "dint p (d, c) = (Ok v, (d, c\<lparr>c_pos := c_pos c + length (encode_int v p f)\<rparr>))"
  using decode_int_encode [OF assms(1-4), of rest] cursor_rest_advance(1) [OF assms(5,6)] assms(6)
  by (simp add: dint_def)

lemma encode_int_ne [simp]: "encode_int v p f \<noteq> []"
  by (simp add: encode_int_def Let_def)

lemma bit_hd_encode_int:
  assumes "p \<le> n" "n < 8"
  shows "bit (hd (encode_int v p f)) n \<longleftrightarrow> bit f n"
proof -
  have "\<not> bit (of_nat x :: u8) n" if "x < 2 ^ p" for x
  proof -
    have "x < 2 ^ n" using that assms(1) by (meson less_le_trans one_le_numeral power_increasing)
    then have "\<not> bit x n" by (simp add: bit_iff_odd)
    then show ?thesis by (simp add: bit_of_nat_iff)
  qed
  from this [of v] this [of "2 ^ p - 1"] show ?thesis
    by (auto simp: encode_int_def encode_int_one_byte_def Let_def bit_or_iff)
qed

lemma str_bytes_ne [simp]: "str_bytes v \<noteq> []"
  by (simp add: str_bytes_def)

lemma int_mask_7_flag: "(0x80 :: u8) AND int_mask 7 = 0"
  by (simp add: int_mask_def)

text \<open>A string is measured over exactly its bytes and consumed to exactly its value.\<close>

lemma try_decode_string_bytes:
  assumes c: "cursor_ok c" and rest: "cursor_rest c = str_bytes v @ rest"
    and d: "dec_buffer d = []" and v: "length (huffman_encode v) < str_max"
  obtains m where "try_decode_string (d, c) = (Ok m, (d, c\<lparr>c_pos := c_pos c + length (str_bytes v)\<rparr>))"
    "\<And>c' rest'. cursor_ok c' \<Longrightarrow> cursor_rest c' = str_bytes v @ rest' \<Longrightarrow>
       \<exists>c''. marker_consume m c' = Ok (v, c'') \<and> cursor_ok c'' \<and> cursor_rest c'' = rest'"
proof (cases "v = []")
  case True
  then have b: "str_bytes v = [0]" by (simp add: str_bytes_def)
  have e0: "encode_int 0 7 0 = [0]" by (simp add: encode_int_def encode_int_one_byte_def)
  have int: "dint 7 (d, c) = (Ok 0, (d, c\<lparr>c_pos := c_pos c + 1\<rparr>))"
    using dint_encode [of 7 0 0 c rest d] c rest b e0 by simp
  let ?m = "\<lparr>sm_offset = 1, sm_len = 0, sm_string = None\<rparr>"
  have adv: "cursor_ok (c\<lparr>c_pos := c_pos c + 1\<rparr>)"
    using cursor_rest_advance(2) [OF c rest] b by simp
  have t: "try_decode_string (d, c) = (Ok ?m, (d, c\<lparr>c_pos := c_pos c + 1\<rparr>))"
    using int adv rest b
    by (simp add: try_decode_string_def dbind_def dpos_def peek_u8_def HUFF_FLAG_def dcursor_def dret_def
        cursor_advance_def cursor_ok_def)
  show thesis
  proof (rule that [of ?m])
    show "\<exists>c''. marker_consume ?m c' = Ok (v, c'') \<and> cursor_ok c'' \<and> cursor_rest c'' = rest'"
      if "cursor_ok c'" "cursor_rest c' = str_bytes v @ rest'" for c' rest'
      using marker_consume_Ok [OF that(1), of ?m] that(2) b True by auto
  qed (use t b in simp)
next
  case False
  let ?h = "huffman_encode v" let ?n = "length ?h" let ?i = "encode_int ?n 7 0x80"
  let ?c1 = "c\<lparr>c_pos := c_pos c + length ?i\<rparr>"
  have b: "str_bytes v = ?i @ ?h" using False by (simp add: str_bytes_def)
  have rest1: "cursor_rest c = ?i @ (?h @ rest)" using rest b by simp
  note adv = cursor_rest_advance [OF c rest1]
  have int: "dint 7 (d, c) = (Ok ?n, (d, ?c1))"
    using v c rest1 by (intro dint_encode [OF _ _ int_mask_7_flag]) (simp_all add: str_max_def)
  have flag: "hd (?i) AND HUFF_FLAG = HUFF_FLAG"
    using bit_hd_encode_int [of 7 7 ?n "0x80"]
    by (simp add: u8_eq_iff_bits bit_and_iff HUFF_FLAG_def)
  have peek: "peek_u8 c = Some (hd ?i)"
    using rest1 by (cases ?i) (simp_all add: peek_u8_def)
  let ?m = "\<lparr>sm_offset = length ?i, sm_len = ?n, sm_string = Some v\<rparr>"
  have "try_decode_huffman (length ?i) ?n (d, ?c1) = (Ok ?m, (d, ?c1\<lparr>c_pos := c_pos ?c1 + ?n\<rparr>))"
    using cursor_advance_Ok [OF adv(2), of ?n] adv(3) huffman_roundtrip [of v "[]"] d
    by (simp add: try_decode_huffman_def)
  then have t: "try_decode_string (d, c) = (Ok ?m, (d, c\<lparr>c_pos := c_pos c + length (str_bytes v)\<rparr>))"
    using int adv(3) flag peek b
    by (simp add: try_decode_string_def dbind_def dpos_def add.assoc Let_def)
  show thesis
  proof (rule that [of ?m])
    show "\<exists>c''. marker_consume ?m c' = Ok (v, c'') \<and> cursor_ok c'' \<and> cursor_rest c'' = rest'"
      if "cursor_ok c'" "cursor_rest c' = str_bytes v @ rest'" for c' rest'
      using marker_consume_Ok [OF that(1), of ?m] that(2) b by auto
  qed (use t in simp)
qed

lemma decode_string_bytes:
  assumes "cursor_ok c" "cursor_rest c = str_bytes v @ rest" "dec_buffer d = []"
    "length (huffman_encode v) < str_max"
  shows "\<exists>c'. decode_string (d, c) = (Ok v, (d, c')) \<and> cursor_ok c' \<and> cursor_rest c' = rest"
proof -
  obtain m where m:
    "try_decode_string (d, c) = (Ok m, (d, c\<lparr>c_pos := c_pos c + length (str_bytes v)\<rparr>))"
    "\<And>c' rest'. cursor_ok c' \<Longrightarrow> cursor_rest c' = str_bytes v @ rest' \<Longrightarrow>
       \<exists>c''. marker_consume m c' = Ok (v, c'') \<and> cursor_ok c'' \<and> cursor_rest c'' = rest'"
    by (rule try_decode_string_bytes [OF assms]) blast
  from m(2) [OF assms(1,2)] m(1) show ?thesis
    by (auto simp: decode_string_def dbind_def dpos_def dset_pos_def dcursor_def)
qed

lemma decode_name_value_bytes:
  assumes c: "cursor_ok c" and rest: "cursor_rest c = str_bytes n @ str_bytes v @ rest"
    and d: "dec_buffer d = []"
    and len: "length (huffman_encode n) < str_max" "length (huffman_encode v) < str_max"
  shows "\<exists>c'. decode_name_value e (d, c) = (header_new e n v, (d, c')) \<and> cursor_ok c'
    \<and> cursor_rest c' = rest"
proof -
  let ?c1 = "c\<lparr>c_pos := c_pos c + length (str_bytes n)\<rparr>"
  obtain m1 where m1: "try_decode_string (d, c) = (Ok m1, (d, ?c1))"
    "\<And>c' rest'. cursor_ok c' \<Longrightarrow> cursor_rest c' = str_bytes n @ rest' \<Longrightarrow>
       \<exists>c''. marker_consume m1 c' = Ok (n, c'') \<and> cursor_ok c'' \<and> cursor_rest c'' = rest'"
    by (rule try_decode_string_bytes [OF c rest d len(1)]) blast
  note adv = cursor_rest_advance [OF c rest]
  obtain m2 where
    m2: "try_decode_string (d, ?c1) = (Ok m2, (d, ?c1\<lparr>c_pos := c_pos ?c1 + length (str_bytes v)\<rparr>))"
    "\<And>c' rest'. cursor_ok c' \<Longrightarrow> cursor_rest c' = str_bytes v @ rest' \<Longrightarrow>
       \<exists>c''. marker_consume m2 c' = Ok (v, c'') \<and> cursor_ok c'' \<and> cursor_rest c'' = rest'"
    by (rule try_decode_string_bytes [OF adv(2,3) d len(2)]) blast
  from m1(2) [OF c rest] obtain c3 where
    c3: "marker_consume m1 c = Ok (n, c3)" "cursor_ok c3" "cursor_rest c3 = str_bytes v @ rest" by blast
  from m2(2) [OF c3(2,3)] obtain c4 where
    c4: "marker_consume m2 c3 = Ok (v, c4)" "cursor_ok c4" "cursor_rest c4 = rest" by blast
  show ?thesis using m1(1) m2(1) c3(1) c4
    by (auto simp: decode_name_value_def dbind_def dpos_def dset_pos_def dcursor_def dlift_def)
qed

text \<open>The representation of each first byte, and the prefix conditions of its integer.\<close>

lemma representation_load_hd:
  "representation_load (hd (encode_int v 7 0x80)) = Ok Indexed"
  "representation_load (hd (encode_int v 6 0x40)) = Ok LiteralWithIndexing"
  "representation_load (hd (encode_int v 4 0)) = Ok LiteralWithoutIndexing"
  "representation_load (hd (encode_int v 4 0x10)) = Ok LiteralNeverIndexed"
  "representation_load (hd (encode_int v 5 0x20)) = Ok SizeUpdate"
  using bit_hd_encode_int [of 7 7 v "0x80"]
    bit_hd_encode_int [of 6 7 v "0x40"] bit_hd_encode_int [of 6 6 v "0x40"]
    bit_hd_encode_int [of 4 4 v 0] bit_hd_encode_int [of 4 5 v 0]
    bit_hd_encode_int [of 4 6 v 0] bit_hd_encode_int [of 4 7 v 0]
    bit_hd_encode_int [of 4 4 v "0x10"] bit_hd_encode_int [of 4 5 v "0x10"]
    bit_hd_encode_int [of 4 6 v "0x10"] bit_hd_encode_int [of 4 7 v "0x10"]
    bit_hd_encode_int [of 5 5 v "0x20"] bit_hd_encode_int [of 5 6 v "0x20"]
    bit_hd_encode_int [of 5 7 v "0x20"]
  by (simp_all add: representation_load_def u8_eq_iff_bits bit_and_iff)

lemma int_mask_flags:
  "(0x80 :: u8) AND int_mask 7 = 0" "(0x40 :: u8) AND int_mask 6 = 0" "(0 :: u8) AND int_mask 4 = 0"
  "(0x10 :: u8) AND int_mask 4 = 0" "(0x20 :: u8) AND int_mask 5 = 0"
  by (simp_all add: int_mask_def)

lemma encode_int_0: "encode_int 0 6 0x40 = [0x40]" "encode_int 0 4 0x10 = [0x10]" "encode_int 0 4 0 = [0]"
  by (simp_all add: encode_int_def encode_int_one_byte_def)

lemma dconsume_eq:
  "cursor_ok c \<Longrightarrow> dconsume (d, c) = (Ok (), (d, \<lparr>c_pos = 0, c_inner = cursor_rest c\<rparr>))"
  by (simp add: dconsume_def dbind_def dcursor_def cursor_take_def cursor_ok_def cursor_rest_def dret_def)

text \<open>Literal fields: with a literal name and with a name from the table.\<close>

lemma decode_literal_new:
  assumes p: "(p, f) \<in> {(6, 0x40), (4, 0x10), (4, 0)}" and i: "i = (p = 6)"
    and c: "cursor_ok c" and rest: "cursor_rest c = encode_int 0 p f @ str_bytes n @ str_bytes v @ rest"
    and d: "dec_buffer d = []"
    and len: "length (huffman_encode n) < str_max" "length (huffman_encode v) < str_max"
  shows "\<exists>c'. decode_literal e i (d, c) = (header_new e n v, (d, c')) \<and> cursor_ok c'
    \<and> cursor_rest c' = rest"
proof -
  note adv = cursor_rest_advance [OF c rest]
  have "dint p (d, c) = (Ok 0, (d, c\<lparr>c_pos := c_pos c + length (encode_int 0 p f)\<rparr>))"
    by (rule dint_encode [OF _ _ _ _ c rest]) (use p int_mask_flags in auto)
  with decode_name_value_bytes [OF adv(2,3) d len, of e] p i show ?thesis
    by (auto simp: decode_literal_eq dbind_def)
qed

lemma decode_literal_named:
  assumes p: "(p, f) \<in> {(6, 0x40), (4, 0x10), (4, 0)}" and i: "i = (p = 6)"
    and k: "0 < k" "k < 2 ^ 28" and g: "dtable_get e (dec_table d) k = Ok g"
    and c: "cursor_ok c" and rest: "cursor_rest c = encode_int k p f @ str_bytes v @ rest"
    and d: "dec_buffer d = []" and len: "length (huffman_encode v) < str_max"
  shows "\<exists>c'. decode_literal e i (d, c) = (name_into_entry e (header_name g) v, (d, c')) \<and> cursor_ok c'
    \<and> cursor_rest c' = rest"
proof -
  note adv = cursor_rest_advance [OF c rest]
  have "dint p (d, c) = (Ok k, (d, c\<lparr>c_pos := c_pos c + length (encode_int k p f)\<rparr>))"
    by (rule dint_encode [OF _ _ _ _ c rest]) (use p k int_mask_flags in auto)
  with decode_string_bytes [OF adv(2,3) d len] p i k g show ?thesis
    by (auto simp: decode_literal_eq dbind_def dlift_def)
qed

section \<open>One header through encoder and decoder\<close>

text \<open>
  What the encoder's choice of index promises, against the decoder's table \<open>t\<close>: an index denotes the
  header (or a header of the same name), and a header said to be inserted is in the slot.
\<close>

definition index_sound ::
  "('m, 'st) ext \<Rightarrow> ('m, 'st) dtable \<Rightarrow> ('m, 'st, bytes) header list \<Rightarrow> ('m, 'st) table_index \<Rightarrow>
     ('m, 'st, bytes) header \<Rightarrow> bool" where
  "index_sound e t slots index h \<longleftrightarrow>
     (case index of
        IdxIndexed i h' \<Rightarrow> h' = h \<and> i < 2 ^ 28 \<and> dtable_get e t i = Ok h
      | IdxName i h' \<Rightarrow> h' = h \<and> 0 < i \<and> i < 2 ^ 28
          \<and> (\<exists>g. dtable_get e t i = Ok g \<and> header_name g = header_name h)
      | IdxInserted i \<Rightarrow> i < length slots \<and> slots ! i = h \<and> \<not> header_is_sensitive h
      | IdxInsertedValue i j \<Rightarrow> j < length slots \<and> slots ! j = h \<and> \<not> header_is_sensitive h
          \<and> 0 < i \<and> i < 2 ^ 28 \<and> (\<exists>g. dtable_get e t i = Ok g \<and> header_name g = header_name h)
      | IdxNotIndexed h' \<Rightarrow> h' = h)"

definition index_inserts :: "('m, 'st) table_index \<Rightarrow> bool" where
  "index_inserts index \<longleftrightarrow>
     (case index of IdxInserted _ \<Rightarrow> True | IdxInsertedValue _ _ \<Rightarrow> True | _ \<Rightarrow> False)"

definition header_fits :: "('m, 'st) ext \<Rightarrow> ('m, 'st, bytes) header \<Rightarrow> bool" where
  "header_fits e h \<longleftrightarrow> length (huffman_encode (name_as_slice (header_name h))) < str_max
     \<and> length (huffman_encode (header_value_slice e h)) < str_max"

text \<open>The bytes of a header, for its index.\<close>

definition header_bytes :: "('m, 'st) ext \<Rightarrow> ('m, 'st) table_index \<Rightarrow> ('m, 'st, bytes) header \<Rightarrow> bytes" where
  "header_bytes e index h =
     (let n = str_bytes (name_as_slice (header_name h)); v = str_bytes (header_value_slice e h);
          f = (if header_is_sensitive h then 0x10 else 0) in
      case index of
        IdxIndexed i _ \<Rightarrow> encode_int i 7 0x80
      | IdxName i _ \<Rightarrow> encode_int i 4 f @ v
      | IdxInserted _ \<Rightarrow> encode_int 0 6 0x40 @ n @ v
      | IdxInsertedValue i _ \<Rightarrow> encode_int i 6 0x40 @ v
      | IdxNotIndexed _ \<Rightarrow> encode_int 0 4 f @ n @ v)"

lemma encode_header_bytes:
  "index_sound e t slots index h \<Longrightarrow> header_fits e h \<Longrightarrow>
     encode_header e slots index dst = Ok (dst @ header_bytes e index h)"
  by (cases index) (simp_all add: encode_header_def table_resolve_def header_bytes_def index_sound_def
      header_fits_def encode_not_indexed_def encode_not_indexed2_def encode_str_bytes encode_int_0)

lemma decode_one_literal:
  assumes lit: "\<exists>c1. decode_literal e i (d, c) = (Ok h, (d, c1)) \<and> cursor_ok c1 \<and> cursor_rest c1 = rest"
    and rep: "representation_load b = Ok rep"
      "rep = LiteralWithIndexing \<and> i \<or> rep \<in> {LiteralWithoutIndexing, LiteralNeverIndexed} \<and> \<not> i"
  shows "decode_one e cr b (d, c) = (Ok (False, Some h),
    (if i then d\<lparr>dec_table := dtable_insert e h (dec_table d)\<rparr> else d, \<lparr>c_pos = 0, c_inner = rest\<rparr>))"
proof -
  from lit obtain c1 where "decode_literal e i (d, c) = (Ok h, (d, c1))" "cursor_ok c1" "cursor_rest c1 = rest"
    by blast
  with rep show ?thesis
    by (elim disjE conjE) (auto simp: decode_one_def dbind_dlift dbind_def dconsume_eq dinsert_def dret_def)
qed

lemma hd_encode_int_append: "hd (encode_int v p f @ xs) = hd (encode_int v p f)"
  by simp

lemma decode_one_header:
  assumes sound: "index_sound e (dec_table d) slots index h" and wf: "header_wf e h" "header_fits e h"
    and c: "cursor_ok c" and rest: "cursor_rest c = header_bytes e index h @ rest"
    and d: "dec_buffer d = []"
  shows "decode_one e cr (hd (header_bytes e index h)) (d, c) = (Ok (False, Some h),
    (if index_inserts index then d\<lparr>dec_table := dtable_insert e h (dec_table d)\<rparr> else d,
     \<lparr>c_pos = 0, c_inner = rest\<rparr>))"
proof -
  let ?n = "name_as_slice (header_name h)" and ?v = "header_value_slice e h"
  let ?f = "if header_is_sensitive h then 0x10 else 0 :: u8"
  note new = header_new_of_parts [OF wf(1)] and entry = name_into_entry_of_parts [OF wf(1)]
  have len: "length (huffman_encode ?n) < str_max" "length (huffman_encode ?v) < str_max"
    using wf(2) by (simp_all add: header_fits_def)
  have pf: "(4, ?f) \<in> {(6, 0x40), (4, 0x10), (4, 0)}" by simp
  have rep4: "\<exists>rep. representation_load (hd (encode_int k 4 ?f)) = Ok rep
      \<and> rep \<in> {LiteralWithoutIndexing, LiteralNeverIndexed}" for k
    by (simp add: representation_load_hd)
  show ?thesis
  proof (cases index)
    case (IdxIndexed i h')
    with rest have r: "cursor_rest c = encode_int i 7 0x80 @ rest" by (simp add: header_bytes_def)
    note adv = cursor_rest_advance [OF c r]
    have "dint 7 (d, c) = (Ok i, (d, c\<lparr>c_pos := c_pos c + length (encode_int i 7 0x80)\<rparr>))"
      by (rule dint_encode [OF _ _ int_mask_flags(1) _ c r])
        (use sound IdxIndexed in \<open>simp_all add: index_sound_def\<close>)
    with sound IdxIndexed adv show ?thesis
      by (simp add: decode_one_def header_bytes_def representation_load_hd dbind_dlift dbind_def
          decode_indexed_def index_sound_def dconsume_eq dret_def index_inserts_def)
  next
    case (IdxName i h')
    with sound obtain g where g: "0 < i" "i < 2 ^ 28" "dtable_get e (dec_table d) i = Ok g"
      "header_name g = header_name h" by (auto simp: index_sound_def)
    from rest IdxName have r: "cursor_rest c = encode_int i 4 ?f @ str_bytes ?v @ rest"
      by (simp add: header_bytes_def Let_def)
    from decode_literal_named [OF pf refl g(1-3) c r d len(2)] g(4) entry
    have lit: "\<exists>c1. decode_literal e False (d, c) = (Ok h, (d, c1)) \<and> cursor_ok c1 \<and> cursor_rest c1 = rest"
      by simp
    from rep4 [of i] decode_one_literal [OF lit] IdxName show ?thesis
      by (auto simp: header_bytes_def Let_def index_inserts_def)
  next
    case (IdxInserted i)
    from rest IdxInserted have r: "cursor_rest c = encode_int 0 6 0x40 @ str_bytes ?n @ str_bytes ?v @ rest"
      by (simp add: header_bytes_def Let_def)
    from decode_literal_new [OF _ _ c r d len, of True e] new
    have lit: "\<exists>c1. decode_literal e True (d, c) = (Ok h, (d, c1)) \<and> cursor_ok c1 \<and> cursor_rest c1 = rest"
      by simp
    from decode_one_literal [OF lit representation_load_hd(2)] IdxInserted show ?thesis
      by (simp add: header_bytes_def Let_def index_inserts_def)
  next
    case (IdxInsertedValue i j)
    with sound obtain g where g: "0 < i" "i < 2 ^ 28" "dtable_get e (dec_table d) i = Ok g"
      "header_name g = header_name h" by (auto simp: index_sound_def)
    from rest IdxInsertedValue have r: "cursor_rest c = encode_int i 6 0x40 @ str_bytes ?v @ rest"
      by (simp add: header_bytes_def Let_def)
    from decode_literal_named [OF _ _ g(1-3) c r d len(2), of True] g(4) entry
    have lit: "\<exists>c1. decode_literal e True (d, c) = (Ok h, (d, c1)) \<and> cursor_ok c1 \<and> cursor_rest c1 = rest"
      by simp
    from decode_one_literal [OF lit representation_load_hd(2)] IdxInsertedValue show ?thesis
      by (simp add: header_bytes_def Let_def index_inserts_def)
  next
    case (IdxNotIndexed h')
    from rest IdxNotIndexed have r: "cursor_rest c = encode_int 0 4 ?f @ str_bytes ?n @ str_bytes ?v @ rest"
      by (simp add: header_bytes_def Let_def)
    from decode_literal_new [OF pf refl c r d len, of e] new
    have lit: "\<exists>c1. decode_literal e False (d, c) = (Ok h, (d, c1)) \<and> cursor_ok c1 \<and> cursor_rest c1 = rest"
      by simp
    from rep4 [of 0] decode_one_literal [OF lit] IdxNotIndexed show ?thesis
      by (auto simp: header_bytes_def Let_def index_inserts_def)
  qed
qed

text \<open>A size update within the announced maximum resizes the decoder's table.\<close>

lemma decode_one_size_update:
  assumes c: "cursor_ok c" and rest: "cursor_rest c = encode_size_update v [] @ rest"
    and v: "v \<le> dec_last_max_update d" "v < 2 ^ 28" and t: "dtable_ok e (dec_table d)"
  shows "\<exists>t'. dtable_set_max_size e v (dec_table d) = Ok t' \<and> dtable_ok e t' \<and> dt_max_size t' = v
    \<and> decode_one e True (hd (encode_size_update v [])) (d, c)
      = (Ok (True, None), (d\<lparr>dec_table := t'\<rparr>, \<lparr>c_pos = 0, c_inner = rest\<rparr>))"
proof -
  from rest have r: "cursor_rest c = encode_int v 5 0x20 @ rest" by (simp add: encode_size_update_def)
  note adv = cursor_rest_advance [OF c r]
  have int: "dint 5 (d, c) = (Ok v, (d, c\<lparr>c_pos := c_pos c + length (encode_int v 5 0x20)\<rparr>))"
    by (rule dint_encode [OF _ _ int_mask_flags(5) _ c r]) (use v in simp_all)
  from t dtable_set_max_size_ok [of e "dec_table d" v] obtain t' where
    t': "dtable_set_max_size e v (dec_table d) = Ok t'" "dtable_ok e t'" "dt_max_size t' = v"
    by (auto simp: dtable_ok_sized)
  with int adv v show ?thesis
    by (simp add: decode_one_def encode_size_update_def representation_load_hd dbind_dlift dbind_def
        process_size_update_def dconsume_eq dret_def)
qed

section \<open>Size updates announce the smallest and the last size\<close>

text \<open>
  RFC 7541, section 4.2: of several changes between two header blocks the smallest maximum and the
  final one are to be signalled, at most two updates in all.
\<close>

definition queue_wf :: "nat \<Rightarrow> size_update option \<Rightarrow> bool" where
  "queue_wf table_max q \<longleftrightarrow>
     (case q of Some (SizeUpdateTwo mn mx) \<Rightarrow> mn \<le> table_max \<and> mn \<le> mx | _ \<Rightarrow> True)"

lemma update_max_size_last:
  assumes "queue_wf m q"
  shows "queue_wf m (update_max_size m v q)"
    "last (m # size_updates (update_max_size m v q)) = v"
    "length (size_updates (update_max_size m v q)) \<le> 2"
  using assms
  by (auto simp: queue_wf_def update_max_size_def size_updates_def split: option.splits size_update.splits)

lemma update_max_size_min:
  assumes "queue_wf m q"
  shows "fold min (size_updates (update_max_size m v q)) m = fold min (size_updates q @ [v]) m"
  using assms
  by (auto simp: queue_wf_def update_max_size_def size_updates_def split: option.splits size_update.splits)

end
