(* ===== verification/Robin_Hood.thy ===== *)
theory Robin_Hood
  imports Prelude "HOL-Library.Multiset"
begin

text \<open>
  Open addressing with robin-hood order, as the indices of the HPACK encoder's table use it
  (\<open>hpack/table.rs\<close>): the probe loop, the position a hash asks for and the distance from it, and the
  order that insertion, deletion by shifting back and growing keep. An array of \<open>n\<close> cells is read as
  a periodic function on the integers, so that a probe that wraps around is an interval.
\<close>

section \<open>Positions and distances\<close>

text \<open>\<open>Pos\<close>: the index of a slot relative to the number of insertions, and the hash.\<close>

record pos =
  pos_index :: u64
  pos_hash :: u64

definition desired_pos :: "u64 \<Rightarrow> u64 \<Rightarrow> nat" where
  "desired_pos m h = unat (h AND m)"

definition probe_distance :: "u64 \<Rightarrow> u64 \<Rightarrow> nat \<Rightarrow> nat" where
  "probe_distance m h current = unat ((of_nat current - of_nat (desired_pos m h)) AND m)"

text \<open>
  The macro \<open>probe_loop!\<close>: the body is run on the positions in turn, starting again at the front, until
  it leaves the loop with a value. \<open>None\<close> is a loop that never ends.
\<close>

partial_function (option) probe_loop ::
  "nat \<Rightarrow> (nat \<Rightarrow> 's \<Rightarrow> 's + 'r) \<Rightarrow> nat \<Rightarrow> 's \<Rightarrow> 'r option" where
  "probe_loop len body probe s =
     (if probe < len then
        (case body probe s of Inl s' \<Rightarrow> probe_loop len body (probe + 1) s' | Inr r \<Rightarrow> Some r)
      else probe_loop len body 0 s)"

lemma probe_loop_at: "0 < len \<Longrightarrow> p \<le> len \<Longrightarrow> probe_loop len body p s =
    (case body (p mod len) s of Inl s' \<Rightarrow> probe_loop len body (p mod len + 1) s' | Inr r \<Rightarrow> Some r)"
proof -
  assume p: "0 < len" "p \<le> len"
  then have "probe_loop len body p s = probe_loop len body (p mod len) s"
    by (cases "p = len") (simp_all add: probe_loop.simps [of len body len])
  moreover have "p mod len < len" using p by simp
  ultimately show ?thesis by (simp only: probe_loop.simps [of len body "p mod len"] if_True)
qed

text \<open>
  The rule for a probe loop that leaves at its turn number \<open>K\<close>: an invariant of the turns before it,
  and what the turn \<open>K\<close> returns.
\<close>

lemma probe_loop_rule:
  assumes len: "0 < len" and p: "p \<le> len" and init: "I 0 s"
    and step: "\<And>k s. k < K \<Longrightarrow> I k s \<Longrightarrow> \<exists>s'. body ((p + k) mod len) s = Inl s' \<and> I (Suc k) s'"
    and exit: "\<And>s. I K s \<Longrightarrow> \<exists>r. body ((p + K) mod len) s = Inr r \<and> Q r"
  shows "\<exists>r. probe_loop len body p s = Some r \<and> Q r"
proof -
  have "\<exists>r. probe_loop len body q s = Some r \<and> Q r"
    if "m \<le> K" "I (K - m) s" "q \<le> len" "q mod len = (p + (K - m)) mod len" for m q s
    using that
  proof (induction m arbitrary: q s)
    case 0
    with exit [of s] show ?case by (auto simp: probe_loop_at [OF len 0(3)])
  next
    case (Suc m)
    from step [of "K - Suc m" s] Suc.prems obtain s' where
      s': "body (q mod len) s = Inl s'" "I (K - m) s'" by (auto simp: Suc_diff_Suc)
    have "(q mod len + 1) mod len = (p + (K - m)) mod len"
      using Suc.prems by (simp add: mod_simps Suc_diff_Suc)
    moreover have "q mod len + 1 \<le> len" using len by (simp add: Suc_leI)
    ultimately show ?case using Suc.IH [of s' "q mod len + 1"] Suc.prems(1) s'
      by (auto simp: probe_loop_at [OF len Suc.prems(3)])
  qed
  from this [of K s p] init p show ?thesis by simp
qed

section \<open>Cells on a circle\<close>

definition cell :: "'a list \<Rightarrow> int \<Rightarrow> 'a" where
  "cell ix z = ix ! nat (z mod int (length ix))"

definition dist :: "nat \<Rightarrow> pos \<Rightarrow> int \<Rightarrow> int" where
  "dist n x z = (z - uint (pos_hash x)) mod int n"

text \<open>
  The order: an entry that is not where it wants to be follows an entry that is at most one step
  better off.
\<close>

definition adj :: "nat \<Rightarrow> int \<Rightarrow> pos option \<Rightarrow> pos option \<Rightarrow> bool" where
  "adj n z a b \<longleftrightarrow> (\<forall>x. b = Some x \<longrightarrow> dist n x (z + 1) > 0 \<longrightarrow>
     (\<exists>y. a = Some y \<and> dist n x (z + 1) \<le> dist n y z + 1))"

definition rh :: "pos option list \<Rightarrow> bool" where
  "rh ix \<longleftrightarrow> (\<forall>z. adj (length ix) z (cell ix z) (cell ix (z + 1)))"

lemma cell_period: "cell ix (z + int (length ix)) = cell ix z"
  by (simp add: cell_def)

lemma cell_mod: "z mod int (length ix) = w mod int (length ix) \<Longrightarrow> cell ix z = cell ix w"
  by (simp add: cell_def)

lemma cell_nat: "i < length ix \<Longrightarrow> cell ix (int i) = ix ! i"
  by (simp add: cell_def)

lemma cell_nat_mod: "ix \<noteq> [] \<Longrightarrow> cell ix (int i) = ix ! (i mod length ix)"
  by (simp add: cell_def nat_mod_as_int)

lemma cell_update:
  "i < length ix \<Longrightarrow> cell (ix[i := v]) z = (if z mod int (length ix) = int i then v else cell ix z)"
  by (auto simp: cell_def nth_list_update)

lemma dist_bounds: "0 < n \<Longrightarrow> 0 \<le> dist n x z \<and> dist n x z < int n"
  by (simp add: dist_def)

lemma dist_period: "dist n x (z + int n) = dist n x z"
  by (simp add: dist_def) (metis add_diff_eq diff_add_eq mod_add_self2)

lemma dist_cong: "z mod int n = w mod int n \<Longrightarrow> dist n x z = dist n x w"
  by (metis dist_def mod_diff_left_eq)

lemma dist_Suc: "0 < n \<Longrightarrow> dist n x (z + 1) = (if dist n x z = int n - 1 then 0 else dist n x z + 1)"
proof -
  assume n: "0 < n"
  have "dist n x (z + 1) = (dist n x z + 1) mod int n"
    by (simp add: dist_def mod_simps algebra_simps)
  moreover have "0 \<le> dist n x z" "dist n x z < int n" using n by (simp_all add: dist_def)
  ultimately show ?thesis by (auto simp: mod_pos_pos_trivial)
qed

lemma dist_back: "0 < n \<Longrightarrow> 0 < dist n x (z + 1) \<Longrightarrow> dist n x z = dist n x (z + 1) - 1"
  by (simp add: dist_Suc split: if_splits)

lemma rhD:
  "rh ix \<Longrightarrow> cell ix (z + 1) = Some x \<Longrightarrow> 0 < dist (length ix) x (z + 1) \<Longrightarrow>
     \<exists>y. cell ix z = Some y \<and> dist (length ix) x (z + 1) \<le> dist (length ix) y z + 1"
  by (simp add: rh_def adj_def)

text \<open>From an entry back to where it wants to be every cell is taken, by entries as badly off.\<close>

lemma rh_back:
  assumes "rh ix" "cell ix z = Some x" "int k \<le> dist (length ix) x z"
  shows "\<exists>y. cell ix (z - int k) = Some y \<and> dist (length ix) x z - int k \<le> dist (length ix) y (z - int k)"
  using assms(3)
proof (induction k)
  case 0
  show ?case using assms(2) by auto
next
  case (Suc k)
  then obtain y where y: "cell ix (z - int k) = Some y"
    "dist (length ix) x z - int k \<le> dist (length ix) y (z - int k)" by auto
  with Suc.prems rhD [OF assms(1), of "z - int (Suc k)" y] obtain y' where
    "cell ix (z - int (Suc k)) = Some y'"
    "dist (length ix) y (z - int k) \<le> dist (length ix) y' (z - int (Suc k)) + 1" by auto
  with y(2) show ?case by auto
qed

text \<open>With a free cell no entry is the whole circle away from its place.\<close>

definition has_free :: "'a option list \<Rightarrow> bool" where
  "has_free ix \<longleftrightarrow> None \<in> set ix"

lemma has_free_cell:
  assumes "has_free ix"
  shows "\<exists>k < length ix. cell ix (z + int k) = None"
proof -
  from assms obtain i where i: "i < length ix" "ix ! i = None" by (auto simp: has_free_def in_set_conv_nth)
  let ?n = "int (length ix)" and ?k = "nat ((int i - z) mod int (length ix))"
  have n: "0 < ?n" using i by auto
  have "(z + int ?k) mod ?n = int i mod ?n" using n by (simp add: mod_simps)
  with i have "cell ix (z + int ?k) = None" by (metis cell_mod cell_nat)
  moreover have "?k < length ix" using n by (simp add: nat_less_iff)
  ultimately show ?thesis by blast
qed

lemma rh_dist_less:
  assumes "rh ix" "has_free ix" "cell ix z = Some x"
  shows "dist (length ix) x z < int (length ix) - 1"
proof (rule ccontr)
  assume "\<not> ?thesis"
  moreover from has_free_cell [OF assms(2), of "z + 1"] obtain k where
    k: "k < length ix" "cell ix (z + 1 + int k) = None" by blast
  moreover have "cell ix (z - int (length ix - 1 - k)) = cell ix (z + 1 + int k)"
    using k(1) cell_period [of ix "z - int (length ix - 1 - k)"] by (simp add: of_nat_diff algebra_simps)
  ultimately show False
    using rh_back [OF assms(1,3), of "length ix - 1 - k"] by (auto simp: of_nat_diff)
qed

text \<open>It is enough to look at one turn of the circle.\<close>

lemma rhI:
  assumes "ix \<noteq> []"
    and "\<And>k. k < length ix \<Longrightarrow> adj (length ix) (p + int k) (cell ix (p + int k)) (cell ix (p + int k + 1))"
  shows "rh ix"
  unfolding rh_def
proof
  fix z
  let ?n = "int (length ix)" let ?k = "nat ((z - p) mod ?n)"
  have n: "0 < ?n" using assms(1) by simp
  then have k: "?k < length ix" by (simp add: nat_less_iff)
  have mods: "(p + int ?k) mod ?n = z mod ?n" using n by (simp add: mod_simps)
  then have mods': "(p + int ?k + 1) mod ?n = (z + 1) mod ?n" by (metis mod_add_left_eq)
  have "adj (length ix) z a b \<longleftrightarrow> adj (length ix) (p + int ?k) a b" for a b
    using mods' mods dist_cong [of _ "length ix"] unfolding adj_def by (metis (no_types, opaque_lifting))
  with assms(2) [OF k] cell_mod [OF mods] cell_mod [OF mods']
  show "adj (length ix) z (cell ix z) (cell ix (z + 1))" by simp
qed

section \<open>The mask\<close>

definition mask_of :: "nat \<Rightarrow> u64 \<Rightarrow> bool" where
  "mask_of n m \<longleftrightarrow> (\<exists>k < 64. n = 2 ^ k \<and> m = mask k)"

lemma mask_of_pos: "mask_of n m \<Longrightarrow> 0 < n"
  by (auto simp: mask_of_def)

lemma uint_and_mask_of: "mask_of n m \<Longrightarrow> uint (h AND m) = uint h mod int n" for h :: u64
  by (auto simp: mask_of_def uint_and uint_mask_eq min_def take_bit_eq_mask [symmetric] take_bit_eq_mod)

lemma desired_pos_eq: "mask_of n m \<Longrightarrow> int (desired_pos m h) = uint h mod int n"
  using uint_and_mask_of [of n m h] by (simp add: desired_pos_def)

lemma desired_pos_less: "mask_of n m \<Longrightarrow> desired_pos m h < n"
  using desired_pos_eq [of n m h] mask_of_pos [of n m]
  by (metis of_nat_0_less_iff of_nat_less_iff pos_mod_bound)

lemma probe_distance_eq:
  assumes "mask_of n m" "i < n"
  shows "int (probe_distance m (pos_hash x) i) = dist n x (int i)"
proof -
  from assms(1) obtain k where k: "k < 64" "n = 2 ^ k" by (auto simp: mask_of_def)
  then have dv: "int n dvd 2 ^ 64" using le_imp_power_dvd [of k 64 "2 :: int"] by simp
  have n: "n \<le> 2 ^ 63" using k power_increasing [of k 63 "2 :: nat"] by simp
  have u: "uint (of_nat j :: u64) = int j" if "j < n" for j
    using that n by (simp add: unsigned_of_nat take_bit_nat_eq_self_iff)
  have "uint (of_nat i - of_nat (desired_pos m (pos_hash x)) :: u64)
      = (int i - uint (pos_hash x) mod int n) mod 2 ^ 64"
    using u [OF assms(2)] u [OF desired_pos_less [OF assms(1)]] desired_pos_eq [OF assms(1)]
    by (simp add: uint_word_ariths)
  then show ?thesis using assms(1) dv
    by (simp add: probe_distance_def uint_and_mask_of dist_def mod_mod_cancel mod_simps)
qed

lemma probe_distance_mod:
  assumes "mask_of n m"
  shows "int (probe_distance m (pos_hash x) (i mod n)) = dist n x (int i)"
  using probe_distance_eq [OF assms, of "i mod n" x] mask_of_pos [OF assms] dist_cong [of "int i" n "int (i mod n)" x]
  by (simp add: of_nat_mod)

section \<open>Shifting back\<close>

text \<open>\<open>remove_phase_two\<close>: the entries displaced by the one removed at \<open>probe\<close> move back by one cell.\<close>

definition remove_step ::
  "u64 \<Rightarrow> nat \<Rightarrow> pos option list \<times> nat \<Rightarrow> pos option list \<times> nat + pos option list" where
  "remove_step m probe s =
     (case s of (ix, last_probe) \<Rightarrow>
        (case ix ! probe of
           Some pos \<Rightarrow>
             if probe_distance m (pos_hash pos) probe > 0
             then Inl (ix[last_probe := ix ! probe, probe := None], probe)
             else Inr ix
         | None \<Rightarrow> Inr ix))"

definition remove_phase_two :: "u64 \<Rightarrow> pos option list \<Rightarrow> nat \<Rightarrow> pos option list option" where
  "remove_phase_two m ix probe = probe_loop (length ix) (remove_step m) (probe + 1) (ix, probe)"

text \<open>The run of displaced entries behind \<open>p\<close>, and the array with it shifted by \<open>k\<close> cells.\<close>

definition run_end :: "pos option list \<Rightarrow> int \<Rightarrow> nat \<Rightarrow> bool" where
  "run_end ix p s \<longleftrightarrow> 0 < s \<and> s < length ix
     \<and> (\<forall>j. 0 < j \<longrightarrow> j < s \<longrightarrow> (\<exists>x. cell ix (p + int j) = Some x \<and> 0 < dist (length ix) x (p + int j)))
     \<and> (\<forall>x. cell ix (p + int s) = Some x \<longrightarrow> dist (length ix) x (p + int s) = 0)"

definition shifted :: "pos option list \<Rightarrow> int \<Rightarrow> nat \<Rightarrow> pos option list \<Rightarrow> bool" where
  "shifted ix p k ix' \<longleftrightarrow> length ix' = length ix
     \<and> (\<forall>j < length ix. cell ix' (p + int j) =
          (if j < k then cell ix (p + int j + 1) else if j = k then None else cell ix (p + int j)))"

lemma run_end_ex:
  assumes "has_free ix" "cell ix p \<noteq> None"
  shows "\<exists>s. run_end ix p s"
proof -
  let ?P = "\<lambda>s. 0 < s \<and> (\<forall>x. cell ix (p + int s) = Some x \<longrightarrow> dist (length ix) x (p + int s) = 0)"
  from has_free_cell [OF assms(1), of p] obtain k where k: "k < length ix" "cell ix (p + int k) = None"
    by blast
  with assms(2) have "?P k" by (cases k) auto
  then have "?P (LEAST s. ?P s)" "(LEAST s. ?P s) \<le> k" by (rule LeastI, rule Least_le)
  moreover have "\<exists>x. cell ix (p + int j) = Some x \<and> 0 < dist (length ix) x (p + int j)"
    if "0 < j" "j < (LEAST s. ?P s)" for j
  proof -
    from not_less_Least [OF that(2)] that(1) obtain x where
      x: "cell ix (p + int j) = Some x" "dist (length ix) x (p + int j) \<noteq> 0" by auto
    moreover have "0 < length ix" using k(1) by linarith
    ultimately show ?thesis using dist_bounds [of "length ix" x "p + int j"] by auto
  qed
  ultimately show ?thesis using k(1) unfolding run_end_def by (intro exI [of _ "LEAST s. ?P s"]) auto
qed

lemma rh_shifted:
  assumes "rh ix" "run_end ix p s" "shifted ix p (s - 1) ix'"
  shows "rh ix'"
proof -
  let ?n = "length ix" and ?C = "cell ix"
  from assms(2) have s: "0 < s" "s < ?n" by (simp_all add: run_end_def)
  then have n: "0 < ?n" by linarith
  have len: "length ix' = ?n" using assms(3) by (simp add: shifted_def)
  have new: "cell ix' (p + int j) = (if j + 1 < s then ?C (p + int j + 1) else if j + 1 = s then None else ?C (p + int j))"
    if "j < ?n" for j
    using assms(3) that s by (auto simp: shifted_def)
  have new': "cell ix' (p + int j + 1) = (if j + 2 < s then ?C (p + int j + 2) else if j + 2 = s then None
      else if j + 1 < ?n then ?C (p + int j + 1) else cell ix' p)" if "j < ?n" for j
  proof (cases "j + 1 = ?n")
    case True
    then have "p + int j + 1 = p + int (length ix')" using len by simp
    then have "cell ix' (p + int j + 1) = cell ix' p" by (simp only: cell_period)
    with True s show ?thesis by simp
  qed (use new [of "j + 1"] that s in \<open>auto simp: algebra_simps\<close>)
  have old: "adj ?n z (?C z) (?C (z + 1))" for z using assms(1) by (simp add: rh_def)
  show ?thesis
  proof (rule rhI [of ix' p], use s len in force)
    fix j assume j: "j < length ix'"
    then have j: "j < ?n" by (simp add: len)
    let ?z = "p + int j"
    have z2: "?z + 1 + 1 = ?z + 2" by simp
    consider "j + 2 < s" | "j + 2 = s" | "j + 1 = s" | "s < j + 1" "j + 1 < ?n" | "j + 1 = ?n" "s < j + 1"
      using j s by linarith
    then show "adj (length ix') ?z (cell ix' ?z) (cell ix' (?z + 1))"
    proof cases
      case 1
      from assms(2) 1 obtain x where x: "?C (?z + 1) = Some x" "0 < dist ?n x (?z + 1)"
        by (auto simp: run_end_def elim!: allE [of _ "j + 1"] simp: algebra_simps)
      from assms(2) 1 obtain y where y: "?C (?z + 2) = Some y" "0 < dist ?n y (?z + 2)"
        by (auto simp: run_end_def elim!: allE [of _ "j + 2"] simp: algebra_simps)
      have "dist ?n y (?z + 2) \<le> dist ?n x (?z + 1) + 1"
        using old [of "?z + 1", unfolded adj_def z2] x y by auto
      moreover have "dist ?n x ?z = dist ?n x (?z + 1) - 1" by (rule dist_back [OF n x(2)])
      moreover have "dist ?n y (?z + 1) = dist ?n y (?z + 2) - 1"
        by (rule dist_back [OF n, of y "?z + 1", unfolded z2, OF y(2)])
      ultimately show ?thesis using 1 new [OF j] new' [OF j] x y by (simp add: adj_def len)
    next
      case 3
      then have z: "?z + 1 = p + int s" by simp
      have "cell ix' (?z + 1) = ?C (?z + 1)" using 3 s new' [OF j] by simp
      with assms(2) show ?thesis unfolding z by (auto simp: adj_def len run_end_def z)
    next
      case 4
      with old [of ?z] new [OF j] new' [OF j] show ?thesis by (simp add: len)
    next
      case 5
      then have z: "?z + 1 = p + int ?n" by simp
      have "cell ix' (?z + 1) = (if 1 < s then ?C (p + 1) else None)"
        using new [OF n] new' [OF j] s 5 by simp
      moreover have "\<exists>y. ?C ?z = Some y \<and> dist ?n x p \<le> dist ?n y ?z + 1"
        if s1: "1 < s" and x: "?C (p + 1) = Some x" and dx: "0 < dist ?n x p" for x
      proof -
        have d1: "dist ?n x (p + 1) = dist ?n x p + 1"
          using assms(2) s1 x dist_back [OF n, of x p]
          by (auto simp: run_end_def elim!: allE [of _ 1])
        with old [of p] x dx obtain y where y: "?C p = Some y" "dist ?n x p \<le> dist ?n y p"
          by (auto simp: adj_def)
        have "?C (?z + 1) = Some y" "dist ?n y (?z + 1) = dist ?n y p"
          unfolding z by (simp_all only: y cell_period dist_period)
        with old [of ?z] y dx obtain y' where "?C ?z = Some y'" "dist ?n y p \<le> dist ?n y' ?z + 1"
          by (auto simp: adj_def)
        with y show ?thesis by auto
      qed
      ultimately show ?thesis
        using 5 new [OF j] s dist_period [of ?n _ p, folded z] by (simp add: adj_def len)
    qed (use j new new' in \<open>simp add: adj_def\<close>)
  qed
qed

lemma window_eq:
  assumes "j < n" "k < n" "(p + int j) mod int n = (p + int k) mod int n"
  shows "j = k"
proof -
  from assms(3) have "int n dvd int j - int k" by (metis add_diff_cancel_left mod_eq_dvd_iff)
  then show ?thesis using assms(1,2) zdvd_imp_le [of "int n" "\<bar>int j - int k\<bar>"] by (cases "j = k") auto
qed

lemma window_eq_nat: "j < n \<Longrightarrow> k < n \<Longrightarrow> (p + j) mod n = (p + k) mod n \<Longrightarrow> j = k" for p :: nat
  using window_eq [of j n k "int p"] by (metis of_nat_add of_nat_mod)

lemma cell_nth: "ix \<noteq> [] \<Longrightarrow> ix ! ((p + k) mod length ix) = cell ix (int p + int k)"
  using cell_nat_mod [of ix "p + k"] by simp

lemma cell_window_update:
  assumes "j < length ix" "k < length ix"
  shows "cell (ix[(p + k) mod length ix := v]) (int p + int j) = (if j = k then v else cell ix (int p + int j))"
proof -
  have "0 < length ix" using assms(1) by linarith
  then have "(p + k) mod length ix < length ix" by (rule mod_less_divisor)
  moreover have "(int p + int j) mod int (length ix) = int ((p + k) mod length ix) \<longleftrightarrow> j = k"
    using window_eq [OF assms, of "int p"] by (auto simp: of_nat_mod)
  ultimately show ?thesis by (simp add: cell_update)
qed

lemma shifted_0: "p < length ix \<Longrightarrow> shifted ix (int p) 0 (ix[p := None])"
proof -
  assume p: "p < length ix"
  then have "0 < length ix" by linarith
  from cell_window_update [OF _ this, of _ p None] p show ?thesis by (simp add: shifted_def)
qed

lemma shifted_Suc:
  assumes "shifted ix (int p) k ix'" "Suc k < length ix"
  shows "shifted ix (int p) (Suc k)
    (ix'[(p + k) mod length ix := cell ix' (int p + int (Suc k)), (p + Suc k) mod length ix := None])"
proof -
  let ?v = "cell ix' (int p + int (Suc k))"
  have len: "length ix' = length ix" using assms(1) by (simp add: shifted_def)
  have v: "?v = cell ix (int p + int (Suc k))" using assms by (simp add: shifted_def del: of_nat_Suc)
  have "cell (ix'[(p + k) mod length ix := ?v, (p + Suc k) mod length ix := None]) (int p + int j)
      = (if j = Suc k then None else if j = k then ?v else cell ix' (int p + int j))" if "j < length ix" for j
    using cell_window_update [of j "ix'[(p + k) mod length ix := ?v]" "Suc k" p None]
      cell_window_update [of j ix' k p ?v] that assms(2) len by simp
  with assms len v show ?thesis by (simp add: shifted_def less_Suc_eq add.assoc add.commute [of 1])
qed

lemma remove_phase_two_ok:
  assumes m: "mask_of (length ix) m" and p: "p < length ix" and x: "ix ! p = Some x"
    and r: "run_end ix (int p) s"
  shows "\<exists>ix'. remove_phase_two m (ix[p := None]) p = Some ix' \<and> shifted ix (int p) (s - 1) ix'
    \<and> mset ix' = mset (ix[p := None])"
proof -
  let ?n = "length ix"
  let ?I = "\<lambda>k (ix', last). shifted ix (int p) k ix' \<and> last = (p + k) mod ?n \<and> mset ix' = mset (ix[p := None])"
  from r have s: "0 < s" "s < ?n" by (simp_all add: run_end_def)
  have at: "ix' ! ((p + 1 + k) mod ?n) = cell ix (int p + int (Suc k))"
    if "shifted ix (int p) k ix'" "Suc k < ?n" for k ix'
  proof -
    have "ix' \<noteq> []" using that by (auto simp: shifted_def)
    then have "ix' ! ((p + Suc k) mod ?n) = cell ix' (int p + int (Suc k))"
      using that(1) cell_nth [of ix' p "Suc k"] by (simp add: shifted_def)
    with that show ?thesis by (simp add: shifted_def del: of_nat_Suc)
  qed
  have pd: "int (probe_distance m (pos_hash y) ((p + 1 + k) mod ?n)) = dist ?n y (int p + int (Suc k))" for y k
    using probe_distance_mod [OF m, of y "p + 1 + k"] by (simp add: algebra_simps)
  show ?thesis
    unfolding remove_phase_two_def length_list_update
  proof (rule probe_loop_rule [where I = ?I and K = "s - 1" and Q = "\<lambda>ix'. shifted ix (int p) (s - 1) ix'
      \<and> mset ix' = mset (ix[p := None])"])
    show "?I 0 (ix[p := None], p)" using p by (simp add: shifted_0)
  next
    fix k t assume k: "k < s - 1" and I: "?I k t"
    obtain ix' last where t: "t = (ix', last)" by fastforce
    from I t have ix': "shifted ix (int p) k ix'" "last = (p + k) mod ?n" "mset ix' = mset (ix[p := None])" by auto
    from r k obtain y where y: "cell ix (int p + int (Suc k)) = Some y" "0 < dist ?n y (int p + int (Suc k))"
      unfolding run_end_def by (metis Suc_less_eq Suc_pred' s(1) zero_less_Suc)
    have len: "length ix' = ?n" using ix'(1) by (simp add: shifted_def)
    have none: "ix' ! last = None"
    proof -
      have "ix' \<noteq> []" using len p by auto
      with cell_nth [of ix' p k] ix'(1,2) k s show ?thesis by (simp add: shifted_def)
    qed
    have "mset (ix'[last := ix' ! ((p + 1 + k) mod ?n), (p + 1 + k) mod ?n := None]) = mset ix'"
    proof -
      have "0 < ?n" using p by linarith
      then have "last < length ix'" "(p + 1 + k) mod ?n < length ix'" using ix'(2) len by simp_all
      from mset_swap [OF this(2,1)] show ?thesis unfolding none .
    qed
    moreover have q: "ix' ! ((p + 1 + k) mod ?n) = Some y" using at [OF ix'(1)] y k s by simp
    moreover have "cell ix' (int p + int (Suc k)) = Some y"
      using ix'(1) k s y by (simp add: shifted_def del: of_nat_Suc)
    then have "shifted ix (int p) (Suc k) (ix'[last := Some y, (p + 1 + k) mod ?n := None])"
      using shifted_Suc [OF ix'(1)] k s ix'(2) by simp
    moreover have "remove_step m ((p + 1 + k) mod ?n) t
        = Inl (ix'[last := Some y, (p + 1 + k) mod ?n := None], (p + 1 + k) mod ?n)"
      using q y pd [of y k] t by (simp add: remove_step_def)
    ultimately show "\<exists>s'. remove_step m ((p + 1 + k) mod ?n) t = Inl s' \<and> ?I (Suc k) s'"
      using ix'(3) by simp
  next
    fix t assume I: "?I (s - 1) t"
    obtain ix' last where t: "t = (ix', last)" by fastforce
    with I have ix': "shifted ix (int p) (s - 1) ix'" "mset ix' = mset (ix[p := None])" by auto
    have "probe_distance m (pos_hash y) ((p + s) mod ?n) = 0" if "cell ix (int p + int s) = Some y" for y
      using r that pd [of y "s - 1"] s by (simp add: run_end_def)
    with at [OF ix'(1)] s t ix'
    show "\<exists>r. remove_step m ((p + 1 + (s - 1)) mod ?n) t = Inr r \<and> shifted ix (int p) (s - 1) r
      \<and> mset r = mset (ix[p := None])"
      by (auto simp: remove_step_def split: option.split)
  qed (use p in auto)
qed

text \<open>Whether the cell \<open>z\<close> gives way to an entry at distance \<open>d\<close>.\<close>

definition yields :: "pos option list \<Rightarrow> int \<Rightarrow> int \<Rightarrow> bool" where
  "yields ix z d \<longleftrightarrow> (\<forall>x. cell ix z = Some x \<longrightarrow> dist (length ix) x z < d)"

lemma window_ex:
  assumes "0 < n"
  shows "\<exists>j < n. z mod int n = (p + int j) mod int n"
proof -
  let ?j = "nat ((z - p) mod int n)"
  have "z mod int n = (p + int ?j) mod int n" using assms by (simp add: mod_simps)
  moreover have "?j < n" using assms by (simp add: nat_less_iff)
  ultimately show ?thesis by blast
qed

lemma shifted_yields:
  assumes "rh ix" "run_end ix p s" "shifted ix p (s - 1) ix'" "yields ix z d"
  shows "yields ix' z d"
proof -
  let ?n = "length ix"
  have s: "0 < s" "s < ?n" using assms(2) by (simp_all add: run_end_def)
  then have n: "0 < ?n" by linarith
  have len: "length ix' = ?n" using assms(3) by (simp add: shifted_def)
  from window_ex [OF n, of z p] obtain j where j: "j < ?n" "z mod int ?n = (p + int j) mod int ?n" by blast
  have cz: "cell ix z = cell ix (p + int j)" "cell ix' z = cell ix' (p + int j)"
    "dist ?n x z = dist ?n x (p + int j)" for x
    using j(2) cell_mod [of z ix] cell_mod [of z ix'] dist_cong [of z ?n] len by simp_all
  show ?thesis
  proof (cases "j < s - 1")
    case True
    from assms(2) True obtain x where x: "cell ix (p + int (Suc j)) = Some x" "0 < dist ?n x (p + int (Suc j))"
      unfolding run_end_def by (metis Suc_less_eq Suc_pred' s(1) zero_less_Suc)
    have e: "p + int (Suc j) = p + int j + 1" by simp
    from rhD [OF assms(1) x [unfolded e]] obtain y where
      y: "cell ix (p + int j) = Some y" "dist ?n x (p + int j + 1) \<le> dist ?n y (p + int j) + 1" by blast
    have "dist ?n x (p + int j) = dist ?n x (p + int j + 1) - 1" by (rule dist_back [OF n x(2) [unfolded e]])
    moreover have "cell ix' (p + int j) = Some x"
      using assms(3) True j(1) x(1) [unfolded e] by (simp add: shifted_def)
    ultimately show ?thesis using y assms(4) by (simp add: yields_def cz len)
  qed (use assms(3,4) j(1) in \<open>simp add: yields_def cz shifted_def\<close>)
qed

lemma remove_ok:
  assumes "rh ix" "has_free ix" "mask_of (length ix) m" "p < length ix" "ix ! p = Some x"
  shows "\<exists>ix'. remove_phase_two m (ix[p := None]) p = Some ix' \<and> length ix' = length ix \<and> rh ix'
    \<and> mset ix' = mset (ix[p := None]) \<and> (\<forall>z d. yields ix z d \<longrightarrow> yields ix' z d)"
proof -
  from run_end_ex [OF assms(2), of "int p"] assms(4,5) obtain s where s: "run_end ix (int p) s"
    by (auto simp: cell_nat)
  from remove_phase_two_ok [OF assms(3-5) s] obtain ix' where
    "remove_phase_two m (ix[p := None]) p = Some ix'" "shifted ix (int p) (s - 1) ix'"
    "mset ix' = mset (ix[p := None])" by blast
  with rh_shifted [OF assms(1) s] shifted_yields [OF assms(1) s] show ?thesis
    by (auto simp: shifted_def)
qed

section \<open>Shifting forward\<close>

text \<open>
  The end of \<open>index_vacant\<close>: the new entry replaces the one at \<open>probe\<close>, which replaces the next, up to
  the first free cell.
\<close>

definition forward_step :: "nat \<Rightarrow> pos option list \<times> pos \<Rightarrow> pos option list \<times> pos + pos option list" where
  "forward_step probe s =
     (case s of (ix, prev) \<Rightarrow>
        (case ix ! probe of
           Some p \<Rightarrow> Inl (ix[probe := Some prev], p)
         | None \<Rightarrow> Inr (ix[probe := Some prev])))"

definition place :: "pos option list \<Rightarrow> nat \<Rightarrow> pos \<Rightarrow> pos option list option" where
  "place ix probe new =
     (case ix ! probe of
        Some prev \<Rightarrow> probe_loop (length ix) forward_step (probe + 1) (ix[probe := Some new], prev)
      | None \<Rightarrow> Some (ix[probe := Some new]))"

definition pushed :: "pos option list \<Rightarrow> int \<Rightarrow> pos \<Rightarrow> nat \<Rightarrow> pos option list \<Rightarrow> bool" where
  "pushed ix p new k ix' \<longleftrightarrow> length ix' = length ix
     \<and> (\<forall>j < length ix. cell ix' (p + int j) =
          (if j = 0 then Some new else if j \<le> k then cell ix (p + int j - 1) else cell ix (p + int j)))"

lemma mset_replace: "i < length xs \<Longrightarrow> add_mset (xs ! i) (mset (xs[i := v])) = add_mset v (mset xs)"
  by (simp add: mset_update)

lemma pushed_0: "p < length ix \<Longrightarrow> pushed ix (int p) new 0 (ix[p := Some new])"
proof -
  assume p: "p < length ix"
  then have "0 < length ix" by linarith
  from cell_window_update [OF _ this, of _ p "Some new"] p show ?thesis by (simp add: pushed_def)
qed

lemma pushed_Suc:
  assumes "pushed ix (int p) new k ix'" "Suc k < length ix"
  shows "pushed ix (int p) new (Suc k) (ix'[(p + Suc k) mod length ix := cell ix (int p + int k)])"
proof -
  have len: "length ix' = length ix" using assms(1) by (simp add: pushed_def)
  have "cell (ix'[(p + Suc k) mod length ix := cell ix (int p + int k)]) (int p + int j)
      = (if j = Suc k then cell ix (int p + int k) else cell ix' (int p + int j))" if "j < length ix" for j
    using cell_window_update [of j ix' "Suc k" p] that assms(2) len by simp
  moreover have "int p + int (Suc k) - 1 = int p + int k" by simp
  ultimately show ?thesis using assms len by (auto simp: pushed_def le_Suc_eq)
qed

lemma place_ok:
  assumes p: "p < length ix" and free: "has_free ix"
  shows "\<exists>ix' k. place ix p new = Some ix' \<and> k < length ix \<and> cell ix (int p + int k) = None
    \<and> pushed ix (int p) new k ix' \<and> add_mset None (mset ix') = add_mset (Some new) (mset ix)
    \<and> (\<forall>j < k. cell ix (int p + int j) \<noteq> None)"
proof -
  let ?n = "length ix"
  let ?K = "LEAST k. cell ix (int p + int k) = None"
  from has_free_cell [OF free] obtain k0 where k0: "k0 < ?n" "cell ix (int p + int k0) = None" by blast
  have K: "cell ix (int p + int ?K) = None" "?K < ?n"
    using LeastI [where P = "\<lambda>k. cell ix (int p + int k) = None", OF k0(2)]
      Least_le [where P = "\<lambda>k. cell ix (int p + int k) = None", OF k0(2)] k0(1) by auto
  have before: "\<exists>x. cell ix (int p + int j) = Some x" if "j < ?K" for j using not_less_Least [OF that] by auto
  show ?thesis
  proof (cases ?K)
    case 0
    with K p have none: "ix ! p = None" by (simp add: cell_nat)
    with mset_replace [OF p, of "Some new"]
    have "add_mset None (mset (ix[p := Some new])) = add_mset (Some new) (mset ix)" by simp
    with none pushed_0 [OF p] 0 K show ?thesis
      by (intro exI [of _ "ix[p := Some new]"] exI [of _ 0]) (simp add: place_def)
  next
    case (Suc K)
    obtain x where x: "ix ! p = Some x" using before [of 0] Suc p by (auto simp: cell_nat)
    let ?I = "\<lambda>k (ix', prev). pushed ix (int p) new k ix' \<and> cell ix (int p + int k) = Some prev
      \<and> add_mset (Some prev) (mset ix') = add_mset (Some new) (mset ix)"
    let ?Q = "\<lambda>ix'. pushed ix (int p) new ?K ix' \<and> add_mset None (mset ix') = add_mset (Some new) (mset ix)"
    have at: "ix' ! ((p + 1 + k) mod ?n) = cell ix (int p + int (Suc k))"
      if "pushed ix (int p) new k ix'" "Suc k < ?n" for k ix'
    proof -
      have "ix' \<noteq> []" using that by (auto simp: pushed_def)
      then have "ix' ! ((p + Suc k) mod ?n) = cell ix' (int p + int (Suc k))"
        using that(1) cell_nth [of ix' p "Suc k"] by (simp add: pushed_def)
      with that show ?thesis by (simp add: pushed_def del: of_nat_Suc)
    qed
    have upd: "pushed ix (int p) new (Suc k) (ix'[(p + 1 + k) mod ?n := Some prev])
        \<and> add_mset (cell ix (int p + int (Suc k))) (mset (ix'[(p + 1 + k) mod ?n := Some prev]))
          = add_mset (Some new) (mset ix)"
      if I: "?I k (ix', prev)" and k: "Suc k < ?n" for k ix' prev
    proof -
      from I have P: "pushed ix (int p) new k ix'" "cell ix (int p + int k) = Some prev" by auto
      have "0 < ?n" using p by linarith
      then have "(p + 1 + k) mod ?n < length ix'" using P(1) by (simp add: pushed_def)
      from mset_replace [OF this, of "Some prev"] I pushed_Suc [OF P(1) k] P(2) at [OF P(1) k]
      show ?thesis by (simp del: of_nat_Suc)
    qed
    have "\<exists>r. probe_loop ?n forward_step (p + 1) (ix[p := Some new], x) = Some r \<and> ?Q r"
    proof (rule probe_loop_rule [where I = ?I and K = K])
      show "?I 0 (ix[p := Some new], x)"
        using pushed_0 [OF p] p x mset_replace [OF p, of "Some new"] by (simp add: cell_nat)
    next
      fix k t assume k: "k < K" and I: "?I k t"
      obtain ix' prev where t: "t = (ix', prev)" by fastforce
      from k Suc K have k': "Suc k < ?n" "Suc k < ?K" by auto
      from before [OF k'(2)] obtain y where y: "cell ix (int p + int (Suc k)) = Some y" by blast
      with at [of k ix'] I t k'(1) have "forward_step ((p + 1 + k) mod ?n) t = Inl (ix'[(p + 1 + k) mod ?n := Some prev], y)"
        by (simp add: forward_step_def)
      with upd [OF I [unfolded t] k'(1)] y show "\<exists>s'. forward_step ((p + 1 + k) mod ?n) t = Inl s' \<and> ?I (Suc k) s'"
        by simp
    next
      fix t assume I: "?I K t"
      obtain ix' prev where t: "t = (ix', prev)" by fastforce
      from at [of K ix'] I t K Suc have "forward_step ((p + 1 + K) mod ?n) t = Inr (ix'[(p + 1 + K) mod ?n := Some prev])"
        by (simp add: forward_step_def)
      with upd [OF I [unfolded t]] K Suc show "\<exists>r. forward_step ((p + 1 + K) mod ?n) t = Inr r \<and> ?Q r"
        by (simp del: of_nat_Suc)
    qed (use p in auto)
    with x K before show ?thesis by (auto simp: place_def)
  qed
qed

text \<open>
  The order is kept when the new entry stands where the cell gives way to it and the cell before does
  not let it through.
\<close>

definition fits_behind :: "pos option list \<Rightarrow> int \<Rightarrow> int \<Rightarrow> bool" where
  "fits_behind ix z d \<longleftrightarrow> d = 0 \<or> (\<exists>y. cell ix (z - 1) = Some y \<and> d \<le> dist (length ix) y (z - 1) + 1)"

lemma rh_pushed:
  assumes "rh ix" "has_free ix" "pushed ix p new e ix'" "e < length ix" "cell ix (p + int e) = None"
    and "yields ix p (dist (length ix) new p)" "fits_behind ix p (dist (length ix) new p)"
    and run: "\<And>j. j < e \<Longrightarrow> cell ix (p + int j) \<noteq> None"
  shows "rh ix'"
proof -
  let ?n = "length ix" and ?C = "cell ix"
  have n: "0 < ?n" using assms(4) by linarith
  have len: "length ix' = ?n" using assms(3) by (simp add: pushed_def)
  have new: "cell ix' (p + int j) = (if j = 0 then Some new else if j \<le> e then ?C (p + int j - 1) else ?C (p + int j))"
    if "j < ?n" for j using assms(3) that by (simp add: pushed_def)
  have new': "cell ix' (p + int j + 1) = (if j + 1 = ?n then Some new else if j + 1 \<le> e then ?C (p + int j)
      else ?C (p + int j + 1))" if "j < ?n" for j
  proof (cases "j + 1 = ?n")
    case True
    then have "p + int j + 1 = p + int (length ix')" using len by simp
    then have "cell ix' (p + int j + 1) = cell ix' p" by (simp only: cell_period)
    with True new [OF n] show ?thesis by simp
  qed (use new [of "j + 1"] that in \<open>simp add: add.assoc add.commute [of 1]\<close>)
  have old: "adj ?n z (?C z) (?C (z + 1))" for z using assms(1) by (simp add: rh_def)
  have up: "dist ?n x (z + 1) = dist ?n x z + 1" if "?C z = Some x" for x z
    using rh_dist_less [OF assms(1,2) that] by (simp add: dist_Suc [OF n])
  show ?thesis
  proof (rule rhI [of ix' p], use n len in force)
    fix j assume "j < length ix'"
    then have j: "j < ?n" by (simp add: len)
    let ?z = "p + int j"
    have z: "?z - 1 + 1 = ?z" by simp
    consider "j + 1 = ?n" | "j + 1 \<le> e" "j = 0" | "j + 1 \<le> e" "0 < j" | "j = e" "j + 1 < ?n" | "e < j" "j + 1 < ?n"
      using j assms(4) by linarith
    then show "adj (length ix') ?z (cell ix' ?z) (cell ix' (?z + 1))"
    proof cases
      case 1
      then have zn: "?z + 1 = p + int ?n" by simp
      have d: "dist ?n new (?z + 1) = dist ?n new p" unfolding zn by (rule dist_period)
      show ?thesis
      proof (cases "dist ?n new p = 0")
        case False
        with assms(7) obtain y where y: "?C (p - 1) = Some y" "dist ?n new p \<le> dist ?n y (p - 1) + 1"
          by (auto simp: fits_behind_def)
        have "?z = p - 1 + int ?n" using 1 by simp
        then have zz: "?C ?z = ?C (p - 1)" "dist ?n y ?z = dist ?n y (p - 1)"
          by (simp_all only: cell_period dist_period)
        with y have "j \<noteq> e" using assms(5) by auto
        have "j \<noteq> 0"
        proof
          assume "j = 0"
          with 1 have "?n = 1" by simp
          with dist_bounds [OF n, of new p] False show False by simp
        qed
        with \<open>j \<noteq> e\<close> 1 assms(4) have "cell ix' ?z = ?C ?z" using new [OF j] by simp
        with new' [OF j] 1 y zz d show ?thesis by (simp add: adj_def len)
      qed (use new' [OF j] 1 d in \<open>simp add: adj_def len\<close>)
    next
      case 2
      with new [OF j] new' [OF j] assms(4,6) up [of p] show ?thesis by (auto simp: adj_def len yields_def)
    next
      case 3
      from run [of j] 3 obtain x where x: "?C ?z = Some x" by auto
      have "j - 1 < e" "p + int (j - 1) = ?z - 1" using 3 by linarith+
      with run [of "j - 1"] obtain y where y: "?C (?z - 1) = Some y" by (metis not_None_eq)
      have "dist ?n x ?z \<le> dist ?n y (?z - 1) + 1"
        using old [of "?z - 1", unfolded adj_def z] x y dist_bounds [OF n, of y "?z - 1"]
        by (cases "0 < dist ?n x ?z") auto
      moreover have "dist ?n y ?z = dist ?n y (?z - 1) + 1" using up [OF y] unfolding z .
      ultimately show ?thesis using 3 new [OF j] new' [OF j] assms(4) x y up [OF x] by (simp add: adj_def len)
    next
      case 4
      with old [of ?z] new' [OF j] assms(5) show ?thesis by (auto simp: adj_def len)
    next
      case 5
      with old [of ?z] new [OF j] new' [OF j] show ?thesis by (simp add: len)
    qed
  qed
qed

lemma place_rh:
  assumes "rh ix" "has_free ix" "p < length ix"
    and "yields ix (int p) (dist (length ix) new (int p))" "fits_behind ix (int p) (dist (length ix) new (int p))"
  shows "\<exists>ix'. place ix p new = Some ix' \<and> length ix' = length ix \<and> rh ix'
    \<and> add_mset None (mset ix') = add_mset (Some new) (mset ix)"
proof -
  from place_ok [OF assms(3,2)] obtain ix' k where
    k: "place ix p new = Some ix'" "k < length ix" "cell ix (int p + int k) = None"
      "pushed ix (int p) new k ix'" "add_mset None (mset ix') = add_mset (Some new) (mset ix)"
      "\<forall>j < k. cell ix (int p + int j) \<noteq> None" by blast
  with rh_pushed [OF assms(1,2) k(4,2,3) assms(4,5)] show ?thesis by (auto simp: pushed_def)
qed

section \<open>Growing\<close>

text \<open>The entries stored in an array.\<close>

definition stored :: "'a option list \<Rightarrow> 'a multiset" where
  "stored ix = image_mset the (filter_mset (\<lambda>c. c \<noteq> None) (mset ix))"

text \<open>\<open>reinsert_entry_in_order\<close>, with the debug assertion on the entries passed over.\<close>

definition reinsert_step ::
  "u64 \<Rightarrow> pos \<Rightarrow> nat \<Rightarrow> pos option list \<Rightarrow> pos option list + (pos option list, unit) result" where
  "reinsert_step m pos probe ix =
     (case ix ! probe of
        None \<Rightarrow> Inr (Ok (ix[probe := Some pos]))
      | Some them \<Rightarrow>
          if probe_distance m (pos_hash them) probe \<ge> probe_distance m (pos_hash pos) probe
          then Inl ix else Inr Panic)"

definition reinsert_entry_in_order ::
  "u64 \<Rightarrow> pos option \<Rightarrow> pos option list \<Rightarrow> (pos option list, unit) result option" where
  "reinsert_entry_in_order m entry ix =
     (case entry of
        None \<Rightarrow> Some (Ok ix)
      | Some pos \<Rightarrow> probe_loop (length ix) (reinsert_step m pos) (desired_pos m (pos_hash pos)) ix)"

fun reinsert_all ::
  "u64 \<Rightarrow> pos option list \<Rightarrow> pos option list \<Rightarrow> (pos option list, unit) result option" where
  "reinsert_all m [] ix = Some (Ok ix)"
| "reinsert_all m (p # ps) ix =
     (case reinsert_entry_in_order m p ix of
        Some (Ok ix') \<Rightarrow> reinsert_all m ps ix'
      | r \<Rightarrow> r)"

text \<open>The first entry that is where it wants to be, in front of which no run of entries is cut.\<close>

definition first_ideal :: "u64 \<Rightarrow> pos option list \<Rightarrow> nat" where
  "first_ideal m ix =
     (case find (\<lambda>i. case ix ! i of Some pos \<Rightarrow> probe_distance m (pos_hash pos) i = 0 | None \<Rightarrow> False)
             [0..<length ix] of
        Some i \<Rightarrow> i
      | None \<Rightarrow> 0)"

text \<open>The indices and the mask that \<open>grow\<close> leaves.\<close>

definition grow ::
  "u64 \<Rightarrow> pos option list \<Rightarrow> nat \<Rightarrow> (u64 \<times> pos option list, unit) result option" where
  "grow m ix new_raw_cap =
     (let f = first_ideal m ix; m' = of_nat new_raw_cap - 1 in
      case reinsert_all m' (drop f ix @ take f ix) (replicate new_raw_cap None) of
        Some r \<Rightarrow> Some (map_ok (\<lambda>ix'. (m', ix')) r)
      | None \<Rightarrow> None)"

lemma stored_replicate [simp]: "stored (replicate n None) = {#}"
  by (induction n) (simp_all add: stored_def)

lemma stored_place: "add_mset None (mset ix') = add_mset (Some x) (mset ix) \<Longrightarrow> stored ix' = add_mset x (stored ix)"
  by (drule arg_cong [where f = "filter_mset (\<lambda>c. c \<noteq> None)"]) (simp add: stored_def)

lemma stored_update_None:
  "i < length ix \<Longrightarrow> ix ! i = None \<Longrightarrow> stored (ix[i := Some x]) = add_mset x (stored ix)"
  using mset_replace [of i ix "Some x"] by (intro stored_place) simp

lemma stored_append: "stored (xs @ ys) = stored xs + stored ys"
  by (simp add: stored_def)

lemma stored_rotate: "stored (drop k ix @ take k ix) = stored ix"
  by (metis append_take_drop_id stored_append union_commute)

lemma stored_cell: "x \<in># stored ix \<longleftrightarrow> (\<exists>i < length ix. ix ! i = Some x)"
  by (force simp: stored_def in_set_conv_nth)

text \<open>Positions counted from the ideal entry at \<open>f\<close>.\<close>

definition rdes :: "nat \<Rightarrow> int \<Rightarrow> pos \<Rightarrow> int" where
  "rdes n f x = (uint (pos_hash x) - f) mod int n"

lemma rdes_dist:
  assumes "0 < n" "dist n x (f + int k) \<le> int k" "k < n"
  shows "dist n x (f + int k) = int k - rdes n f x" "rdes n f x \<le> int k"
proof -
  have "rdes n f x = (int k - dist n x (f + int k)) mod int n"
    by (simp add: rdes_def dist_def mod_simps algebra_simps)
  then have "rdes n f x = int k - dist n x (f + int k)"
    using assms dist_bounds [OF assms(1), of x "f + int k"] by (simp add: mod_pos_pos_trivial)
  then show "dist n x (f + int k) = int k - rdes n f x" "rdes n f x \<le> int k"
    using dist_bounds [OF assms(1), of x "f + int k"] by simp_all
qed

lemma dist_rdes:
  assumes "rdes n f x \<le> int k" "k < n"
  shows "dist n x (f + int k) = int k - rdes n f x"
proof -
  have n: "0 < n" using assms(2) by linarith
  have "dist n x (f + int k) = (int k - rdes n f x) mod int n"
    by (simp add: rdes_def dist_def mod_simps algebra_simps)
  moreover have "0 \<le> rdes n f x" using n by (simp add: rdes_def)
  ultimately show ?thesis using assms by (simp add: mod_pos_pos_trivial)
qed

definition ideal_at :: "pos option list \<Rightarrow> int \<Rightarrow> bool" where
  "ideal_at ix f \<longleftrightarrow> (\<forall>x. cell ix f = Some x \<longrightarrow> dist (length ix) x f = 0)"

lemma ideal_dist:
  assumes "rh ix" "ideal_at ix f" "ix \<noteq> []"
  shows "k < length ix \<Longrightarrow> cell ix (f + int k) = Some x \<Longrightarrow> dist (length ix) x (f + int k) \<le> int k"
proof (induction k arbitrary: x)
  case 0
  with assms(2) show ?case by (simp add: ideal_at_def)
next
  case (Suc k)
  let ?n = "length ix"
  have e: "f + int (Suc k) = f + int k + 1" by simp
  show ?case
  proof (cases "0 < dist ?n x (f + int k + 1)")
    case True
    from rhD [OF assms(1) Suc.prems(2) [unfolded e] True] obtain y where
      "cell ix (f + int k) = Some y" "dist ?n x (f + int k + 1) \<le> dist ?n y (f + int k) + 1" by blast
    with Suc.IH [of y] Suc.prems(1) show ?thesis unfolding e by simp
  next
    case False
    then show ?thesis unfolding e by simp
  qed
qed

lemma ideal_rdes:
  assumes "rh ix" "ideal_at ix f" "k < length ix" "cell ix (f + int k) = Some x"
  shows "dist (length ix) x (f + int k) = int k - rdes (length ix) f x" "rdes (length ix) f x \<le> int k"
proof -
  have n: "0 < length ix" using assms(3) by linarith
  then have "ix \<noteq> []" by simp
  from rdes_dist [OF n ideal_dist [OF assms(1,2) this assms(3,4)] assms(3)]
  show "dist (length ix) x (f + int k) = int k - rdes (length ix) f x" "rdes (length ix) f x \<le> int k" by simp_all
qed

text \<open>From there on the entries stand in the order of the places they want.\<close>

lemma ideal_mono:
  assumes "rh ix" "ideal_at ix f" "cell ix (f + int i) = Some x"
  shows "i \<le> k \<Longrightarrow> k < length ix \<Longrightarrow> cell ix (f + int k) = Some y \<Longrightarrow> rdes (length ix) f x \<le> rdes (length ix) f y"
proof (induction k arbitrary: y)
  case 0
  with assms(3) show ?case by simp
next
  case (Suc k)
  let ?n = "length ix"
  note ry = ideal_rdes [OF assms(1,2) Suc.prems(2,3)]
  show ?case
  proof (cases "i = Suc k")
    case False
    then have ik: "i \<le> k" "k < ?n" using Suc.prems by simp_all
    have rx: "rdes ?n f x \<le> int i" using ideal_rdes [OF assms(1,2) _ assms(3)] ik by simp
    have e: "f + int (Suc k) = f + int k + 1" by simp
    show ?thesis
    proof (cases "0 < dist ?n y (f + int k + 1)")
      case True
      from rhD [OF assms(1) Suc.prems(3) [unfolded e] True] obtain w where
        w: "cell ix (f + int k) = Some w" "dist ?n y (f + int k + 1) \<le> dist ?n w (f + int k) + 1" by blast
      with ideal_rdes [OF assms(1,2) ik(2) w(1)] ry have "rdes ?n f w \<le> rdes ?n f y" unfolding e by simp
      with Suc.IH [OF ik w(1)] show ?thesis by simp
    next
      case False
      with ry dist_bounds [of ?n y "f + int k + 1"] ik have "rdes ?n f y = int (Suc k)" unfolding e by fastforce
      with rx ik show ?thesis by simp
    qed
  qed (use assms(3) Suc.prems in simp)
qed

text \<open>
  What holds of the new array when the first \<open>k\<close> cells behind \<open>f\<close> are done: an entry stays within the half
  of the array that its hash selects, not farther from \<open>f\<close> than it was.
\<close>

definition rslot :: "nat \<Rightarrow> int \<Rightarrow> pos \<Rightarrow> nat" where
  "rslot n f x = nat (rdes (2 * n) f x)"

definition regrown :: "nat \<Rightarrow> int \<Rightarrow> pos option list \<Rightarrow> nat \<Rightarrow> pos option list \<Rightarrow> bool" where
  "regrown n f ps k jx \<longleftrightarrow> length jx = 2 * n \<and> rh jx \<and> stored jx = stored (take k ps)
     \<and> (\<forall>q < 2 * n. \<forall>x. cell jx (f + int q) = Some x \<longrightarrow>
          q mod n < k \<and> rslot n f x \<le> q \<and> rslot n f x div n = q div n \<and> Some x \<in> set (take k ps))"

lemma rslot_facts:
  assumes "0 < n"
  shows "rdes (2 * n) f x = int (rslot n f x)" "rslot n f x < 2 * n" "int (rslot n f x mod n) = rdes n f x"
    "(f + int (rslot n f x)) mod int (2 * n) = uint (pos_hash x) mod int (2 * n)"
proof -
  have b: "0 \<le> rdes (2 * n) f x" "rdes (2 * n) f x < int (2 * n)"
    using assms unfolding rdes_def by (auto intro: pos_mod_bound)
  show r: "rdes (2 * n) f x = int (rslot n f x)" using b by (simp add: rslot_def)
  show "rslot n f x < 2 * n" using b by (simp add: rslot_def nat_less_iff)
  have "int (rslot n f x mod n) = rdes (2 * n) f x mod int n" using r by (simp add: of_nat_mod)
  also have "\<dots> = rdes n f x" unfolding rdes_def by (rule mod_mod_cancel) simp
  finally show "int (rslot n f x mod n) = rdes n f x" .
  have "(f + rdes (2 * n) f x) mod int (2 * n) = uint (pos_hash x) mod int (2 * n)"
    unfolding rdes_def by (simp add: mod_add_right_eq)
  then show "(f + int (rslot n f x)) mod int (2 * n) = uint (pos_hash x) mod int (2 * n)" by (simp only: r)
qed

lemma regrown_dist:
  assumes "regrown n f ps k jx" "q < 2 * n" "cell jx (f + int q) = Some x" "0 < n"
  shows "dist (2 * n) x (f + int q) = int q - int (rslot n f x)"
  using assms rslot_facts [OF assms(4), of f x] dist_rdes [of "2 * n" f x q] by (simp add: regrown_def)

lemma half_bounds:
  fixes n :: nat
  assumes "b mod n \<le> k" "k < n" "b \<le> q" "q \<le> b div n * n + k"
  shows "q div n = b div n" "q mod n \<le> k"
proof -
  have "b div n * n \<le> q" using assms(3) by (metis div_times_less_eq_dividend le_trans)
  then obtain r where r: "q = b div n * n + r" using le_Suc_ex by blast
  with assms(4) have "r \<le> k" by simp
  with r assms(2) show "q div n = b div n" "q mod n \<le> k" by simp_all
qed

text \<open>
  The cells an entry passes over: from the place it wants, \<open>K\<close> entries that want places not behind it,
  then a free cell of the same half.
\<close>

definition passes :: "nat \<Rightarrow> int \<Rightarrow> pos option list \<Rightarrow> pos \<Rightarrow> nat \<Rightarrow> nat \<Rightarrow> bool" where
  "passes n f jx x k K \<longleftrightarrow>
     cell jx (f + int (rslot n f x + K)) = None
   \<and> (\<forall>t < K. \<exists>y. cell jx (f + int (rslot n f x + t)) = Some y
        \<and> int t \<le> dist (2 * n) y (f + int (rslot n f x + t)))
   \<and> (\<forall>t \<le> K. dist (2 * n) x (f + int (rslot n f x + t)) = int t)
   \<and> (rslot n f x + K) div n = rslot n f x div n \<and> (rslot n f x + K) mod n \<le> k \<and> rslot n f x + K < 2 * n"

lemma passes_ex:
  assumes ix: "rh ix" "ideal_at ix f" and ps: "length ps = length ix" "\<And>i. i < length ix \<Longrightarrow> ps ! i = cell ix (f + int i)"
    and jx: "regrown (length ix) f ps k jx" and k: "k < length ix" "ps ! k = Some x"
  shows "\<exists>K. passes (length ix) f jx x k K"
proof -
  let ?n = "length ix" and ?b = "rslot (length ix) f x"
  have n: "0 < ?n" using k by linarith
  note b = rslot_facts [OF n, of f x]
  have rx: "rdes ?n f x \<le> int k" using ideal_rdes(2) [OF ix k(1)] ps(2) [OF k(1)] k(2) by simp
  then have bk: "?b mod ?n \<le> k" using b(3) by (metis of_nat_le_iff)
  let ?q0 = "?b div ?n * ?n + k"
  have "?b div ?n < 2" using b(2) n by (simp add: less_mult_imp_div_less)
  then have "?b div ?n * ?n \<le> ?n" using n by (cases "?b div ?n") auto
  then have q0: "?q0 < 2 * ?n" "?b \<le> ?q0" "?q0 mod ?n = k"
    using k(1) bk by (linarith, metis add_le_mono div_mult_mod_eq le_refl, simp)
  have free0: "cell jx (f + int ?q0) = None"
    using jx q0(1,3) unfolding regrown_def by (cases "cell jx (f + int ?q0)") force+
  let ?K = "LEAST t. cell jx (f + int (?b + t)) = None"
  have K: "cell jx (f + int (?b + ?K)) = None" "?K \<le> ?q0 - ?b"
    using LeastI [where P = "\<lambda>t. cell jx (f + int (?b + t)) = None" and k = "?q0 - ?b"]
      Least_le [where P = "\<lambda>t. cell jx (f + int (?b + t)) = None" and k = "?q0 - ?b"] free0 q0(2) by simp_all
  have within: "(?b + t) div ?n = ?b div ?n" "(?b + t) mod ?n \<le> k" "?b + t < 2 * ?n" if "t \<le> ?K" for t
    using half_bounds [OF bk k(1), of "?b + t"] that K(2) q0 by linarith+
  have "\<exists>y. cell jx (f + int (?b + t)) = Some y \<and> int t \<le> dist (2 * ?n) y (f + int (?b + t))" if "t < ?K" for t
  proof -
    from not_less_Least [OF that] obtain y where y: "cell jx (f + int (?b + t)) = Some y" by blast
    have t: "t \<le> ?K" using that by simp
    from jx within(3) [OF t] y have Y: "Some y \<in> set (take k ps)" "rslot ?n f y div ?n = (?b + t) div ?n"
      by (auto simp: regrown_def)
    then obtain i where i: "i < k" "ps ! i = Some y" by (auto simp: in_set_conv_nth)
    with ps(2) [of i] k(1) ideal_mono [OF ix, of i y k x] ps(2) [OF k(1)] k(2)
    have "rdes ?n f y \<le> rdes ?n f x" by simp
    then have "rslot ?n f y mod ?n \<le> ?b mod ?n" using rslot_facts(3) [OF n] by (metis of_nat_le_iff)
    moreover have "rslot ?n f y div ?n = ?b div ?n" using Y(2) within(1) [OF t] by simp
    ultimately have "rslot ?n f y \<le> ?b" by (metis add_le_cancel_left div_mult_mod_eq)
    with regrown_dist [OF jx within(3) [OF t] y n] y show ?thesis by simp
  qed
  moreover have "dist (2 * ?n) x (f + int (?b + t)) = int t" if "t \<le> ?K" for t
    using dist_rdes [of "2 * ?n" f x "?b + t"] within(3) [OF that] b(1) by simp
  ultimately have "passes ?n f jx x k ?K"
    using K(1) within [of ?K] unfolding passes_def by (intro conjI) simp_all
  then show ?thesis by blast
qed

lemma rslot_probe:
  assumes "mask_of (2 * n) m" "length jx = 2 * n"
  shows "int (desired_pos m (pos_hash x) + t) mod int (2 * n) = (f + int (rslot n f x + t)) mod int (2 * n)"
    "jx ! ((desired_pos m (pos_hash x) + t) mod (2 * n)) = cell jx (f + int (rslot n f x + t))"
    "int (probe_distance m (pos_hash y) ((desired_pos m (pos_hash x) + t) mod (2 * n)))
       = dist (2 * n) y (f + int (rslot n f x + t))"
proof -
  let ?P = "desired_pos m (pos_hash x)" and ?b = "rslot n f x"
  have n: "0 < n" using mask_of_pos [OF assms(1)] by simp
  have "int ?P mod int (2 * n) = (f + int ?b) mod int (2 * n)"
    using desired_pos_eq [OF assms(1)] rslot_facts(4) [OF n] by simp
  then have "(int ?P + int t) mod int (2 * n) = (f + int ?b + int t) mod int (2 * n)" by (rule mod_add_cong) simp
  then show mods: "int (?P + t) mod int (2 * n) = (f + int (?b + t)) mod int (2 * n)" by (simp add: add.assoc)
  have "jx \<noteq> []" using assms(2) n by auto
  then have "jx ! ((?P + t) mod (2 * n)) = cell jx (int (?P + t))" using cell_nat_mod [of jx "?P + t"] assms(2) by simp
  also have "\<dots> = cell jx (f + int (?b + t))" using cell_mod [of "int (?P + t)" jx] mods assms(2) by simp
  finally show "jx ! ((?P + t) mod (2 * n)) = cell jx (f + int (?b + t))" .
  show "int (probe_distance m (pos_hash y) ((?P + t) mod (2 * n))) = dist (2 * n) y (f + int (?b + t))"
    using probe_distance_mod [OF assms(1), of y "?P + t"] dist_cong [OF mods, of y] by simp
qed

lemma reinsert_runs:
  assumes m: "mask_of (2 * n) m" and jx: "length jx = 2 * n" and K: "passes n f jx x k K"
  shows "reinsert_entry_in_order m (Some x) jx
    = Some (Ok (jx[(desired_pos m (pos_hash x) + K) mod (2 * n) := Some x]))"
proof -
  let ?P = "desired_pos m (pos_hash x)" and ?b = "rslot n f x"
  note at = rslot_probe [OF m jx, where x = x and f = f]
  have "\<exists>r. probe_loop (length jx) (reinsert_step m x) ?P jx = Some r \<and> r = Ok (jx[(?P + K) mod (2 * n) := Some x])"
  proof (rule probe_loop_rule [where I = "\<lambda>t s. s = jx" and K = K])
    fix t s assume t: "t < K" and s: "s = jx"
    with K obtain y where y: "cell jx (f + int (?b + t)) = Some y" "int t \<le> dist (2 * n) y (f + int (?b + t))"
      by (auto simp: passes_def)
    have "dist (2 * n) x (f + int (?b + t)) = int t" using K t by (simp add: passes_def)
    with y have "probe_distance m (pos_hash x) ((?P + t) mod (2 * n)) \<le> probe_distance m (pos_hash y) ((?P + t) mod (2 * n))"
      using at(3) [of x t] at(3) [of y t] by simp
    with y at(2) [of t] s jx show "\<exists>s'. reinsert_step m x ((?P + t) mod length jx) s = Inl s' \<and> s' = jx"
      by (simp add: reinsert_step_def)
  next
    fix s assume "s = jx"
    with at(2) [of K] K jx
    show "\<exists>r. reinsert_step m x ((?P + K) mod length jx) s = Inr r \<and> r = Ok (jx[(?P + K) mod (2 * n) := Some x])"
      by (simp add: reinsert_step_def passes_def)
  qed (use jx mask_of_pos [OF m] desired_pos_less [OF m, of "pos_hash x"] in auto)
  then show ?thesis by (simp add: reinsert_entry_in_order_def)
qed

lemma reinsert_rh:
  assumes m: "mask_of (2 * n) m" and jx: "length jx = 2 * n" "rh jx" and K: "passes n f jx x k K"
  shows "rh (jx[(desired_pos m (pos_hash x) + K) mod (2 * n) := Some x])"
proof -
  let ?P = "desired_pos m (pos_hash x)" and ?b = "rslot n f x" let ?p = "(?P + K) mod (2 * n)"
  note at = rslot_probe [OF m jx(1), where x = x and f = f]
  have p: "?p < length jx" using jx(1) mask_of_pos [OF m] by simp
  have none: "jx ! ?p = None" using at(2) [of K] K by (simp add: passes_def)
  have pm: "int ?p mod int (2 * n) = (f + int (?b + K)) mod int (2 * n)" using at(1) [of K] by (simp add: of_nat_mod)
  have d: "dist (length jx) x (int ?p) = int K"
    using dist_cong [OF pm, of x] K jx(1) by (simp add: passes_def)
  show ?thesis
  proof (rule rh_pushed [OF jx(2) _ pushed_0 [OF p]])
    show "has_free jx" using none p by (metis has_free_def nth_mem)
    show "0 < length jx" using p by linarith
    show "cell jx (int ?p + int 0) = None" using none p by (simp add: cell_nat)
    then show "yields jx (int ?p) (dist (length jx) x (int ?p))" by (simp add: yields_def)
    show "fits_behind jx (int ?p) (dist (length jx) x (int ?p))"
    proof (cases K)
      case (Suc t)
      with K obtain y where y: "cell jx (f + int (?b + t)) = Some y" "int t \<le> dist (2 * n) y (f + int (?b + t))"
        by (auto simp: passes_def)
      have "(int ?p - 1) mod int (2 * n) = (f + int (?b + K) - 1) mod int (2 * n)" using pm by (metis mod_diff_left_eq)
      then have e: "(int ?p - 1) mod int (2 * n) = (f + int (?b + t)) mod int (2 * n)" using Suc by simp
      have "cell jx (int ?p - 1) = Some y" "int t \<le> dist (length jx) y (int ?p - 1)"
        using y dist_cong [OF e, of y] cell_mod [of "int ?p - 1" jx] e jx(1) by simp_all
      with d Suc show ?thesis by (simp add: fits_behind_def)
    qed (use d in \<open>simp add: fits_behind_def\<close>)
  qed simp
qed

lemma reinsert_ok:
  assumes ix: "rh ix" "ideal_at ix f" and ps: "length ps = length ix" "\<And>i. i < length ix \<Longrightarrow> ps ! i = cell ix (f + int i)"
    and m: "mask_of (2 * length ix) m" and jx: "regrown (length ix) f ps k jx" and k: "k < length ix" "ps ! k = Some x"
  shows "\<exists>jx'. reinsert_entry_in_order m (Some x) jx = Some (Ok jx') \<and> regrown (length ix) f ps (Suc k) jx'"
proof -
  let ?n = "length ix" and ?b = "rslot (length ix) f x" and ?P = "desired_pos m (pos_hash x)"
  have n: "0 < ?n" using k by linarith
  have J: "length jx = 2 * ?n" "rh jx" "stored jx = stored (take k ps)" using jx by (simp_all add: regrown_def)
  from passes_ex [OF ix ps jx k] obtain K where K: "passes ?n f jx x k K" by blast
  let ?p = "(?P + K) mod (2 * ?n)"
  have p: "?p < length jx" using n J(1) by simp
  note at = rslot_probe [OF m J(1), where x = x and f = f and t = K]
  have none: "jx ! ?p = None" using at(2) K by (simp add: passes_def)
  have pm: "int ?p = (f + int (?b + K)) mod int (2 * ?n)" using at(1) by (simp add: of_nat_mod)
  have "stored (jx[?p := Some x]) = stored (take (Suc k) ps)"
    using stored_update_None [OF p none] J(3) k ps(1) by (simp add: take_Suc_conv_app_nth stored_append) (simp add: stored_def)
  moreover have "q mod ?n < Suc k \<and> rslot ?n f y \<le> q \<and> rslot ?n f y div ?n = q div ?n \<and> Some y \<in> set (take (Suc k) ps)"
    if q: "q < 2 * ?n" and y: "cell (jx[?p := Some x]) (f + int q) = Some y" for q y
  proof (cases "q = ?b + K")
    case True
    have "cell (jx[?p := Some x]) (f + int q) = Some x" using p pm True J(1) by (simp add: cell_update)
    with y have "y = x" by simp
    with True K k ps(1) show ?thesis by (auto simp: take_Suc_conv_app_nth passes_def)
  next
    case False
    have "(f + int q) mod int (2 * ?n) \<noteq> int ?p"
      using window_eq [OF q, of "?b + K" f] K False pm by (auto simp: passes_def)
    with y p J(1) have "cell jx (f + int q) = Some y" by (simp add: cell_update)
    with jx q have "q mod ?n < k \<and> rslot ?n f y \<le> q \<and> rslot ?n f y div ?n = q div ?n \<and> Some y \<in> set (take k ps)"
      unfolding regrown_def by blast
    with k ps(1) show ?thesis by (auto simp: take_Suc_conv_app_nth)
  qed
  ultimately have "regrown ?n f ps (Suc k) (jx[?p := Some x])"
    using J(1) reinsert_rh [OF m J(1,2) K] by (simp add: regrown_def)
  with reinsert_runs [OF m J(1) K] show ?thesis by blast
qed

lemma regrown_None:
  "regrown n f ps k jx \<Longrightarrow> k < length ps \<Longrightarrow> ps ! k = None \<Longrightarrow> regrown n f ps (Suc k) jx"
  by (fastforce simp: regrown_def take_Suc_conv_app_nth stored_append stored_def)

lemma reinsert_all_ok:
  assumes "rh ix" "ideal_at ix f" "length ps = length ix" "\<And>i. i < length ix \<Longrightarrow> ps ! i = cell ix (f + int i)"
    "mask_of (2 * length ix) m"
  shows "k \<le> length ix \<Longrightarrow> regrown (length ix) f ps k jx \<Longrightarrow>
    \<exists>jx'. reinsert_all m (drop k ps) jx = Some (Ok jx') \<and> regrown (length ix) f ps (length ix) jx'"
proof (induction "length ix - k" arbitrary: k jx)
  case 0
  then show ?case using assms(3) by simp
next
  case (Suc j)
  then have k: "k < length ps" "drop k ps = ps ! k # drop (Suc k) ps" using assms(3) by (simp_all add: Cons_nth_drop_Suc)
  have "\<exists>jx'. reinsert_entry_in_order m (ps ! k) jx = Some (Ok jx') \<and> regrown (length ix) f ps (Suc k) jx'"
  proof (cases "ps ! k")
    case None
    with regrown_None [OF Suc.prems(2) k(1)] show ?thesis by (simp add: reinsert_entry_in_order_def)
  next
    case (Some x)
    with reinsert_ok [OF assms Suc.prems(2)] k(1) assms(3) show ?thesis by simp
  qed
  with Suc.hyps(1) [of "Suc k"] Suc.hyps(2) k assms(3) show ?case by fastforce
qed

lemma first_ideal_ok:
  assumes "rh ix" "has_free ix" "mask_of (length ix) m"
  shows "first_ideal m ix < length ix \<and> ideal_at ix (int (first_ideal m ix))"
proof -
  let ?P = "\<lambda>i. case ix ! i of Some pos \<Rightarrow> probe_distance m (pos_hash pos) i = 0 | None \<Rightarrow> False"
  have n: "0 < length ix" using mask_of_pos [OF assms(3)] .
  show ?thesis
  proof (cases "find ?P [0..<length ix]")
    case None
    then have no: "\<not> ?P i" if "i < length ix" for i using that by (simp add: find_None_iff)
    have run: "cell ix (z + int k) = None" if z: "cell ix z = None" for z k
    proof (induction k)
      case (Suc k)
      show ?case
      proof (rule ccontr)
        assume "cell ix (z + int (Suc k)) \<noteq> None"
        then obtain x where x: "cell ix (z + int k + 1) = Some x" by (auto simp: add.assoc add.commute [of 1])
        let ?i = "nat ((z + int k + 1) mod int (length ix))"
        have i: "?i < length ix" "int ?i mod int (length ix) = (z + int k + 1) mod int (length ix)"
          using n by (simp_all add: nat_less_iff)
        have "dist (length ix) x (z + int k + 1) = 0"
          using rhD [OF assms(1) x] Suc dist_bounds [OF n, of x "z + int k + 1"] by force
        then have "probe_distance m (pos_hash x) ?i = 0"
          using probe_distance_eq [OF assms(3) i(1), of x] dist_cong [OF i(2), of x] by simp
        moreover have "ix ! ?i = Some x" using x by (simp add: cell_def)
        ultimately show False using no [OF i(1)] by simp
      qed
    qed (use z in simp)
    from has_free_cell [OF assms(2), of 0] obtain k0 where k0: "k0 < length ix" "cell ix (int k0) = None" by auto
    have "int k0 + int (length ix - k0) = 0 + int (length ix)" using k0(1) by simp
    with run [OF k0(2), of "length ix - k0"] have "cell ix 0 = None" by (metis cell_period)
    with None n show ?thesis by (simp add: first_ideal_def ideal_at_def)
  next
    case (Some i)
    then have i: "i < length ix" "?P i" by (auto simp: find_Some_iff)
    then obtain y where y: "ix ! i = Some y" "probe_distance m (pos_hash y) i = 0" by (auto split: option.splits)
    with Some i(1) probe_distance_eq [OF assms(3) i(1), of y] show ?thesis
      by (simp add: first_ideal_def ideal_at_def cell_nat)
  qed
qed

lemma mask_of_double: "mask_of n m \<Longrightarrow> 2 * n < 2 ^ 64 \<Longrightarrow> mask_of (2 * n) (of_nat (2 * n) - 1)"
proof -
  assume "mask_of n m" "2 * n < 2 ^ 64"
  then obtain k where k: "n = 2 ^ k" "k < 64" by (auto simp: mask_of_def)
  with \<open>2 * n < 2 ^ 64\<close> have "2 ^ Suc k < (2 :: nat) ^ 64" by simp
  then have "Suc k < 64" by (rule power_less_imp_less_exp [rotated]) simp
  moreover have "of_nat (2 * n) - 1 = (mask (Suc k) :: u64)" using k by (simp add: mask_eq_exp_minus_1)
  ultimately show ?thesis using k unfolding mask_of_def by (intro exI [of _ "Suc k"]) simp
qed

lemma grow_ok:
  assumes "rh ix" "has_free ix" "mask_of (length ix) m" "2 * length ix < 2 ^ 64"
  shows "\<exists>m' jx. grow m ix (2 * length ix) = Some (Ok (m', jx)) \<and> length jx = 2 * length ix
    \<and> mask_of (length jx) m' \<and> rh jx \<and> stored jx = stored ix"
proof -
  let ?n = "length ix" and ?f = "first_ideal m ix" and ?m = "of_nat (2 * length ix) - 1 :: u64"
  let ?ps = "drop ?f ix @ take ?f ix"
  have n: "0 < ?n" using mask_of_pos [OF assms(3)] .
  have f: "?f < ?n" "ideal_at ix (int ?f)" using first_ideal_ok [OF assms(1-3)] by simp_all
  have m: "mask_of (2 * ?n) ?m" by (rule mask_of_double [OF assms(3,4)])
  have ps: "length ?ps = ?n" "?ps ! i = cell ix (int ?f + int i)" if "i < ?n" for i
  proof -
    show "length ?ps = ?n" using f(1) by simp
    have "?ps = rotate ?f ix" using f(1) by (simp add: rotate_drop_take)
    with that n cell_nth [of ix ?f i] show "?ps ! i = cell ix (int ?f + int i)" by (simp add: nth_rotate)
  qed
  have "regrown ?n (int ?f) ?ps 0 (replicate (2 * ?n) None)"
    using n by (auto simp: regrown_def rh_def adj_def cell_def stored_def nat_less_iff)
  from reinsert_all_ok [OF assms(1) f(2) ps(1) [OF n] ps(2) m _ this]
  obtain jx where jx: "reinsert_all ?m ?ps (replicate (2 * ?n) None) = Some (Ok jx)"
    "regrown ?n (int ?f) ?ps ?n jx" by auto
  then have "length jx = 2 * ?n" "rh jx" "stored jx = stored ix"
    using f(1) by (simp_all add: regrown_def stored_rotate)
  with jx(1) m show ?thesis by (simp add: grow_def Let_def)
qed

section \<open>Searching\<close>

text \<open>
  The probe that starts where an entry wants to be reaches it, over cells that are taken by entries not
  nearer to their own places than the probe is to its start.
\<close>

lemma probe_reach:
  assumes "rh ix" "mask_of (length ix) m" "i < length ix" "ix ! i = Some x"
  shows "\<exists>K. (desired_pos m (pos_hash x) + K) mod length ix = i \<and> int K = dist (length ix) x (int i)
    \<and> (\<forall>k < K. (desired_pos m (pos_hash x) + k) mod length ix \<noteq> i
        \<and> (\<exists>y. ix ! ((desired_pos m (pos_hash x) + k) mod length ix) = Some y
            \<and> k \<le> probe_distance m (pos_hash y) ((desired_pos m (pos_hash x) + k) mod length ix)))"
proof -
  let ?n = "length ix" and ?P = "desired_pos m (pos_hash x)"
  have n: "0 < ?n" using assms(3) by linarith
  obtain K where K: "int K = dist ?n x (int i)" "K < ?n"
    using dist_bounds [OF n, of x "int i"] by (metis nonneg_int_cases of_nat_less_iff)
  have P: "(int ?P + dist ?n x (int i)) mod int ?n = int i"
    using assms(3) by (simp add: desired_pos_eq [OF assms(2)] dist_def mod_simps)
  then have i: "(?P + K) mod ?n = i" using K(1) by (metis of_nat_add of_nat_eq_iff of_nat_mod)
  have mods: "(int i - int (K - k)) mod int ?n = int (?P + k) mod int ?n" if "k < K" for k
  proof -
    have "int (?P + k) = int ?P + dist ?n x (int i) - int (K - k)" using that K(1) by simp
    then have "int (?P + k) mod int ?n = (int i - int (K - k)) mod int ?n" using P by (metis mod_diff_left_eq)
    then show ?thesis by simp
  qed
  have "(?P + k) mod ?n \<noteq> i \<and> (\<exists>y. ix ! ((?P + k) mod ?n) = Some y
      \<and> k \<le> probe_distance m (pos_hash y) ((?P + k) mod ?n))" if k: "k < K" for k
  proof
    show "(?P + k) mod ?n \<noteq> i"
      using window_eq_nat [of k ?n K ?P] i k K(2) by linarith
    have "cell ix (int i) = Some x" "int (K - k) \<le> dist ?n x (int i)"
      using assms(3,4) unfolding K(1) [symmetric] by (simp_all add: cell_nat)
    from rh_back [OF assms(1) this] obtain y where
      y: "cell ix (int i - int (K - k)) = Some y" "int k \<le> dist ?n y (int i - int (K - k))" using K(1) k by auto
    have "ix \<noteq> []" using n by simp
    then have "ix ! ((?P + k) mod ?n) = Some y"
      using y(1) cell_mod [OF mods [OF k]] cell_nat_mod [of ix "?P + k"] by simp
    moreover have "k \<le> probe_distance m (pos_hash y) ((?P + k) mod ?n)"
      using y(2) dist_cong [OF mods [OF k], of y] probe_distance_mod [OF assms(2), of y "?P + k"] by simp
    ultimately show "\<exists>y. ix ! ((?P + k) mod ?n) = Some y \<and> k \<le> probe_distance m (pos_hash y) ((?P + k) mod ?n)" by blast
  qed
  with i K(1) show ?thesis by blast
qed

lemma dist_desired:
  assumes "mask_of n m" "K < n"
  shows "dist n x (int ((desired_pos m (pos_hash x) + K) mod n)) = int K"
proof -
  let ?P = "int (desired_pos m (pos_hash x))"
  have "dist n x (int ((desired_pos m (pos_hash x) + K) mod n)) = (?P - uint (pos_hash x) + int K) mod int n"
    by (simp add: dist_def of_nat_mod mod_simps algebra_simps)
  also have "(?P - uint (pos_hash x)) mod int n = 0"
    using desired_pos_eq [OF assms(1), of "pos_hash x"] by (simp add: mod_diff_left_eq)
  then have "(?P - uint (pos_hash x) + int K) mod int n = int K mod int n" by (metis add_0 mod_add_left_eq)
  finally show ?thesis using assms(2) by simp
qed

text \<open>The place where a new entry for the hash \<open>h\<close> goes: the first that gives way to it.\<close>

lemma probe_vacant:
  assumes "rh ix" "has_free ix" "mask_of (length ix) m" "pos_hash x = h"
  shows "\<exists>K. (let p = (desired_pos m h + K) mod length ix in
       (\<forall>y. ix ! p = Some y \<longrightarrow> probe_distance m (pos_hash y) p < K)
     \<and> dist (length ix) x (int p) = int K \<and> fits_behind ix (int p) (int K) \<and> yields ix (int p) (int K))
   \<and> (\<forall>k < K. \<exists>y. ix ! ((desired_pos m h + k) mod length ix) = Some y
        \<and> k \<le> probe_distance m (pos_hash y) ((desired_pos m h + k) mod length ix))"
proof -
  let ?n = "length ix" and ?P = "desired_pos m h"
  let ?S = "\<lambda>k. \<forall>y. ix ! ((?P + k) mod ?n) = Some y \<longrightarrow> probe_distance m (pos_hash y) ((?P + k) mod ?n) < k"
  have n: "0 < ?n" using mask_of_pos [OF assms(3)] .
  then have ne: "ix \<noteq> []" by simp
  from has_free_cell [OF assms(2), of "int ?P"] obtain k0 where k0: "k0 < ?n" "ix ! ((?P + k0) mod ?n) = None"
    using cell_nth [OF ne, of ?P] by auto
  then have "?S k0" by simp
  then obtain K where K: "?S K" "K \<le> k0" and no: "\<And>k. k < K \<Longrightarrow> \<not> ?S k"
    using exists_least_iff [of ?S] by (metis not_le)
  let ?p = "(?P + K) mod ?n"
  have p: "?p < ?n" using n by simp
  have before: "\<exists>y. ix ! ((?P + k) mod ?n) = Some y \<and> k \<le> probe_distance m (pos_hash y) ((?P + k) mod ?n)"
    if "k < K" for k using no [OF that] by (auto simp: not_less)
  have d: "dist ?n x (int ?p) = int K" using dist_desired [OF assms(3), of K x] K(2) k0(1) assms(4) by simp
  have "fits_behind ix (int ?p) (int K)"
  proof (cases K)
    case (Suc t)
    then have "t < K" by simp
    from before [OF this] obtain y where y: "ix ! ((?P + t) mod ?n) = Some y"
      "t \<le> probe_distance m (pos_hash y) ((?P + t) mod ?n)" by blast
    have e: "(int ?p - 1) mod int ?n = int (?P + t) mod int ?n" unfolding Suc by (simp add: of_nat_mod mod_simps)
    have "cell ix (int ?p - 1) = Some y" using y(1) cell_mod [OF e] cell_nat_mod [OF ne, of "?P + t"] by simp
    moreover have "int t \<le> dist ?n y (int ?p - 1)"
      using y(2) dist_cong [OF e, of y] probe_distance_mod [OF assms(3), of y "?P + t"] by simp
    ultimately show ?thesis unfolding fits_behind_def Suc by (intro disjI2 exI [of _ y]) simp
  qed (simp add: fits_behind_def)
  moreover have "yields ix (int ?p) (int K)"
    unfolding yields_def cell_nat [OF p] using K(1) probe_distance_eq [OF assms(3) p] by (metis of_nat_less_iff)
  ultimately show ?thesis using K(1) d before unfolding Let_def by blast
qed

text \<open>Entries that differ in some respect are in one cell each.\<close>

lemma stored_list: "stored ix = mset (map the (filter (\<lambda>c. c \<noteq> None) ix))"
  by (simp add: stored_def)

lemma stored_distinct_less:
  "distinct (map f (map the (filter (\<lambda>c. c \<noteq> None) ix))) \<Longrightarrow> i < j \<Longrightarrow> j < length ix \<Longrightarrow> ix ! i = Some a \<Longrightarrow>
     ix ! j = Some b \<Longrightarrow> f a \<noteq> f b"
proof (induction ix arbitrary: i j)
  case (Cons c ix)
  show ?case
  proof (cases i)
    case 0
    with Cons.prems have "ix ! (j - 1) = Some b" "j - 1 < length ix" "c = Some a" by (auto simp: nth_Cons')
    then have "Some b \<in> set ix" "c = Some a" by (metis nth_mem)+
    with Cons.prems(1) show ?thesis by force
  next
    case (Suc i')
    with Cons.prems Cons.IH [of i' "j - 1"] show ?thesis by (auto split: if_splits simp: nth_Cons')
  qed
qed simp

lemma stored_inj:
  assumes "\<And>v. count (image_mset f (stored ix)) v \<le> 1"
    "i < length ix" "j < length ix" "ix ! i = Some a" "ix ! j = Some b" "f a = f b"
  shows "i = j"
proof -
  let ?ys = "map f (map the (filter (\<lambda>c. c \<noteq> None) ix))"
  have "count (mset ?ys) v \<le> 1" for v using assms(1) [of v] unfolding stored_list by (simp only: mset_map)
  then have "distinct ?ys"
    unfolding distinct_count_atmost_1 by (metis count_greater_zero_iff le_antisym less_one not_in_iff not_less set_mset_mset)
  from stored_distinct_less [OF this] assms show ?thesis by (metis linorder_neqE_nat)
qed

text \<open>The order depends on the hashes only.\<close>

lemma cell_map: "ix \<noteq> [] \<Longrightarrow> cell (map f ix) z = f (cell ix z)"
  by (simp add: cell_def nat_less_iff)

lemma adj_hash:
  "adj n z a b \<longleftrightarrow> (\<forall>h. map_option pos_hash b = Some h \<longrightarrow> 0 < (z + 1 - uint h) mod int n \<longrightarrow>
     (\<exists>g. map_option pos_hash a = Some g \<and> (z + 1 - uint h) mod int n \<le> (z - uint g) mod int n + 1))"
  by (cases a; cases b) (auto simp: adj_def dist_def)

lemma rehash:
  assumes "map (map_option pos_hash) ix' = map (map_option pos_hash) ix"
  shows "rh ix' \<longleftrightarrow> rh ix" "yields ix' z d \<longleftrightarrow> yields ix z d"
proof -
  have len: "length ix' = length ix" using assms by (metis length_map)
  have c: "map_option pos_hash (cell ix' z) = map_option pos_hash (cell ix z)" if "ix \<noteq> []" for z
    using assms that len by (metis cell_map length_0_conv)
  show "rh ix' \<longleftrightarrow> rh ix"
  proof (cases "ix = []")
    case False
    with c show ?thesis by (simp add: rh_def adj_hash len)
  qed (use len in simp)
  show "yields ix' z d \<longleftrightarrow> yields ix z d"
  proof (cases "ix = []")
    case False
    with c [of z] show ?thesis by (cases "cell ix z"; cases "cell ix' z") (auto simp: yields_def dist_def len)
  qed (use len in simp)
qed

lemma rehash_update:
  assumes "i < length ix" "ix ! i = Some p" "pos_hash q = pos_hash p"
  shows "rh (ix[i := Some q]) \<longleftrightarrow> rh ix" "yields (ix[i := Some q]) z d \<longleftrightarrow> yields ix z d"
  using assms by (auto intro!: rehash simp: map_update list_update_same_conv)

end
