(* ===== verification/Hpack_Table.thy ===== *)
theory Hpack_Table
  imports Hpack_Encoder Robin_Hood
begin

text \<open>
  The HPACK encoder's table (\<open>hpack/table.rs\<close>): the slots with the headers, newest first, and the
  robin-hood array of indices that finds them by name. Slots of the same name are linked from the
  oldest to the newest; the array holds the oldest. An index is stored relative to the number of
  insertions, in wrapping \<open>usize\<close> arithmetic (64 bits); \<open>inserted + 1\<close> in \<open>evict\<close> wraps too, as without
  overflow checks.

  The hash of a name is the crate \<open>fnv\<close>'s and a parameter. \<open>None\<close> is a loop that does not end, \<open>Panic\<close>
  an index out of range, an \<open>unwrap\<close> of \<open>None\<close>, an underflow or a failed debug assertion.
\<close>

section \<open>Outcomes\<close>

type_synonym 'a outcome = "('a, unit) result option"

definition obind :: "'a outcome \<Rightarrow> ('a \<Rightarrow> 'b outcome) \<Rightarrow> 'b outcome" where
  "obind r f = (case r of Some (Ok a) \<Rightarrow> f a | Some (Err u) \<Rightarrow> Some (Err u) | Some Panic \<Rightarrow> Some Panic | None \<Rightarrow> None)"

abbreviation okay :: "'a \<Rightarrow> 'a outcome" where "okay x \<equiv> Some (Ok x)"

lemma obind_okay [simp]: "obind (okay x) f = f x"
  by (simp add: obind_def)

section \<open>The table\<close>

record ('m, 'st) hslot =
  sl_hash :: u64
  sl_header :: "('m, 'st, bytes) header"
  sl_next :: "u64 option"

record ('m, 'st) htable =
  tb_mask :: u64
  tb_indices :: "pos option list"
  tb_slots :: "('m, 'st) hslot list"
  tb_inserted :: u64
  tb_size :: nat
  tb_max_size :: nat

definition usable_capacity :: "nat \<Rightarrow> nat" where
  "usable_capacity cap = cap - cap div 4"

definition to_raw_capacity :: "nat \<Rightarrow> nat" where
  "to_raw_capacity n = n + n div 3"

text \<open>\<open>usize::next_power_of_two\<close>.\<close>

function power_of_two_from :: "nat \<Rightarrow> nat \<Rightarrow> nat" where
  "power_of_two_from k n = (if n \<le> 2 ^ k then 2 ^ k else power_of_two_from (Suc k) n)"
  by pat_completeness auto
termination
  by (relation "measure (\<lambda>(k, n). n - 2 ^ k)") (auto intro: diff_less_mono2)

declare power_of_two_from.simps [simp del]

definition next_power_of_two :: "nat \<Rightarrow> nat" where
  "next_power_of_two n = power_of_two_from 0 n"

definition htable_new :: "nat \<Rightarrow> nat \<Rightarrow> ('m, 'st) htable" where
  "htable_new max_size cap =
     (if cap = 0 then \<lparr>tb_mask = 0, tb_indices = [], tb_slots = [], tb_inserted = 0, tb_size = 0, tb_max_size = max_size\<rparr>
      else let c = max (next_power_of_two (to_raw_capacity cap)) 8 in
        \<lparr>tb_mask = of_nat c - 1, tb_indices = replicate c None, tb_slots = [], tb_inserted = 0, tb_size = 0,
         tb_max_size = max_size\<rparr>)"

definition htable_capacity :: "('m, 'st) htable \<Rightarrow> nat" where
  "htable_capacity T = usable_capacity (length (tb_indices T))"

definition HASH_MASK :: u64 where "HASH_MASK = 0xFFFF"

definition hash_header :: "(hname \<Rightarrow> u64) \<Rightarrow> ('m, 'st, bytes) header \<Rightarrow> u64" where
  "hash_header fnv h = fnv (header_name h) AND HASH_MASK"

text \<open>\<open>pos.index.wrapping_add(self.inserted)\<close>: the position in the deque of slots.\<close>

definition real_idx :: "u64 \<Rightarrow> u64 \<Rightarrow> nat" where
  "real_idx inserted index = unat (index + inserted)"

definition index_new :: "(nat \<times> bool) option \<Rightarrow> ('m, 'st, bytes) header \<Rightarrow> ('m, 'st) table_index" where
  "index_new v h =
     (case v of
        None \<Rightarrow> IdxNotIndexed h
      | Some (n, True) \<Rightarrow> IdxIndexed n h
      | Some (n, False) \<Rightarrow> IdxName n h)"

section \<open>Insertion and eviction\<close>

definition htable_insert :: "('m, 'st, bytes) header \<Rightarrow> u64 \<Rightarrow> ('m, 'st) htable \<Rightarrow> ('m, 'st) htable" where
  "htable_insert h hash T =
     T\<lparr>tb_inserted := tb_inserted T + 1, tb_slots := \<lparr>sl_hash = hash, sl_header = h, sl_next = None\<rparr> # tb_slots T\<rparr>"

text \<open>
  The turn of the loop of \<open>evict\<close> that finds the position of the evicted slot: the next slot of the
  same name takes its place, or the slot about to be inserted, or the position is freed.
\<close>

definition evict_step ::
  "u64 \<Rightarrow> u64 option \<Rightarrow> u64 option \<Rightarrow> u64 \<Rightarrow> pos option list \<Rightarrow> u64 \<Rightarrow> nat \<Rightarrow> unit \<Rightarrow> unit + pos option list outcome" where
  "evict_step pos_idx next prev_idx inserted ix m probe s =
     (case ix ! probe of
        None \<Rightarrow> Inr (Some Panic)
      | Some pos \<Rightarrow>
          if pos_index pos = pos_idx then
            Inr (case next of
                   Some idx \<Rightarrow> okay (ix[probe := Some (pos\<lparr>pos_index := idx\<rparr>)])
                 | None \<Rightarrow>
                     if Some (pos_index pos) = prev_idx
                     then okay (ix[probe := Some (pos\<lparr>pos_index := 0 - (inserted + 1)\<rparr>)])
                     else map_option Ok (remove_phase_two m (ix[probe := None]) probe))
          else Inl ())"

definition evict ::
  "('m, 'st) ext \<Rightarrow> u64 option \<Rightarrow> ('m, 'st) htable \<Rightarrow> ('m, 'st) htable outcome" where
  "evict e prev_idx T =
     (if tb_slots T = [] then Some Panic
      else
        let pos_idx = of_nat (length (tb_slots T) - 1) - tb_inserted T;
            slot = last (tb_slots T); len = header_len e (sl_header slot); ix = tb_indices T in
        if tb_size T < len then Some Panic
        else if length (filter (\<lambda>p. pos_index p = pos_idx) (map the (filter (\<lambda>c. c \<noteq> None) ix))) \<noteq> 1 then Some Panic
        else
          case probe_loop (length ix) (evict_step pos_idx (sl_next slot) prev_idx (tb_inserted T) ix (tb_mask T))
                 (desired_pos (tb_mask T) (sl_hash slot)) () of
            Some r \<Rightarrow> obind r (\<lambda>ix'.
              okay (T\<lparr>tb_slots := butlast (tb_slots T), tb_size := tb_size T - len, tb_indices := ix'\<rparr>))
          | None \<Rightarrow> None)"

lemma evict_shrinks:
  assumes "evict e prev_idx T = okay T'"
  shows "length (tb_slots T') < length (tb_slots T)"
proof (cases "tb_slots T = []")
  case False
  then have "length (butlast (tb_slots T)) < length (tb_slots T)" by simp
  with assms show ?thesis
    by (auto simp: evict_def Let_def obind_def split: if_splits option.splits result.splits)
qed (use assms in \<open>simp add: evict_def\<close>)

function converge ::
  "('m, 'st) ext \<Rightarrow> u64 option \<Rightarrow> bool \<Rightarrow> ('m, 'st) htable \<Rightarrow> (bool \<times> ('m, 'st) htable) outcome" where
  "converge e prev_idx ret T =
     (if tb_size T > tb_max_size T then
        (case evict e prev_idx T of
           Some (Ok T') \<Rightarrow> converge e prev_idx True T'
         | Some (Err u) \<Rightarrow> Some (Err u)
         | Some Panic \<Rightarrow> Some Panic
         | None \<Rightarrow> None)
      else okay (ret, T))"
  by pat_completeness auto
termination
  by (relation "measure (\<lambda>(e, prev_idx, ret, T). length (tb_slots T))") (auto intro: evict_shrinks)

declare converge.simps [simp del]

definition update_size ::
  "('m, 'st) ext \<Rightarrow> nat \<Rightarrow> u64 option \<Rightarrow> ('m, 'st) htable \<Rightarrow> (bool \<times> ('m, 'st) htable) outcome" where
  "update_size e len prev_idx T = converge e prev_idx False (T\<lparr>tb_size := tb_size T + len\<rparr>)"

definition htable_resize :: "('m, 'st) ext \<Rightarrow> nat \<Rightarrow> ('m, 'st) htable \<Rightarrow> ('m, 'st) htable outcome" where
  "htable_resize e sz T =
     (let T1 = T\<lparr>tb_max_size := sz\<rparr> in
      if sz = 0 then
        okay (T1\<lparr>tb_size := 0, tb_indices := map (\<lambda>_. None) (tb_indices T1), tb_slots := [], tb_inserted := 0\<rparr>)
      else obind (converge e None False T1) (\<lambda>(_, T2). okay T2))"

definition reserve_one :: "('m, 'st) htable \<Rightarrow> ('m, 'st) htable outcome" where
  "reserve_one T =
     (let len = length (tb_slots T) in
      if len = htable_capacity T then
        if len = 0 then okay (T\<lparr>tb_mask := 8 - 1, tb_indices := replicate 8 None\<rparr>)
        else obind (grow (tb_mask T) (tb_indices T) (2 * length (tb_indices T))) (\<lambda>(m, ix).
          okay (T\<lparr>tb_mask := m, tb_indices := ix\<rparr>))
      else okay T)"

section \<open>Indexing\<close>

text \<open>
  The loop over the slots of one name: the position of the header if it is found, else the last slot
  (its index and position).
\<close>

datatype chain_result = ChainMatch nat | ChainEnd u64 nat

partial_function (option) chain_walk ::
  "('m, 'st) htable \<Rightarrow> ('m, 'st, bytes) header \<Rightarrow> u64 \<Rightarrow> chain_result outcome" where
  "chain_walk T h index =
     (let real = real_idx (tb_inserted T) index in
      if real < length (tb_slots T) then
        if header_value_eq (sl_header (tb_slots T ! real)) h then okay (ChainMatch real)
        else case sl_next (tb_slots T ! real) of
               Some next \<Rightarrow> chain_walk T h next
             | None \<Rightarrow> okay (ChainEnd index real)
      else Some Panic)"

text \<open>The previous slot of the name, unless it was evicted, is linked to the slot just inserted.\<close>

definition link_new :: "u64 \<Rightarrow> ('m, 'st) htable \<Rightarrow> ('m, 'st) htable" where
  "link_new index T =
     (let new_real = real_idx (tb_inserted T) index in
      if new_real < length (tb_slots T)
      then T\<lparr>tb_slots := (tb_slots T)[new_real := (tb_slots T ! new_real)\<lparr>sl_next := Some (0 - tb_inserted T)\<rparr>]\<rparr>
      else T)"

definition index_occupied ::
  "('m, 'st) ext \<Rightarrow> ('m, 'st) htable \<Rightarrow> ('m, 'st, bytes) header \<Rightarrow> u64 \<Rightarrow> u64 \<Rightarrow> nat option \<Rightarrow>
     (('m, 'st) table_index \<times> ('m, 'st) htable) outcome" where
  "index_occupied e T h hash index statik =
     obind (chain_walk T h index) (\<lambda>r.
       case r of
         ChainMatch real \<Rightarrow> okay (IdxIndexed (real + DYN_OFFSET) h, T)
       | ChainEnd index real \<Rightarrow>
           if header_is_sensitive h then okay (IdxName (real + DYN_OFFSET) h, T)
           else
             obind (update_size e (header_len e h) (Some index) T) (\<lambda>(_, T1).
               okay (case statik of
                       Some n \<Rightarrow> IdxInsertedValue n 0
                     | None \<Rightarrow> IdxInsertedValue (real + DYN_OFFSET) 0, link_new index (htable_insert h hash T1))))"

text \<open>\<open>probe.wrapping_sub(1) & self.mask\<close>.\<close>

definition probe_back :: "u64 \<Rightarrow> nat \<Rightarrow> nat" where
  "probe_back m probe = unat ((of_nat probe - 1) AND m)"

text \<open>The loop \<open>while dist != 0\<close> of \<open>index_vacant\<close>, which follows entries that eviction moved back.\<close>

fun vacant_back :: "u64 \<Rightarrow> pos option list \<Rightarrow> nat \<Rightarrow> nat \<Rightarrow> nat" where
  "vacant_back m ix 0 probe = probe"
| "vacant_back m ix (Suc d) probe =
     (let back = probe_back m probe in
      case ix ! back of
        Some pos \<Rightarrow>
          if probe_distance m (pos_hash pos) back < d then vacant_back m ix d back else probe
      | None \<Rightarrow> vacant_back m ix d back)"

definition index_vacant ::
  "('m, 'st) ext \<Rightarrow> ('m, 'st) htable \<Rightarrow> ('m, 'st, bytes) header \<Rightarrow> u64 \<Rightarrow> nat \<Rightarrow> nat \<Rightarrow> (nat \<times> bool) option \<Rightarrow>
     (('m, 'st) table_index \<times> ('m, 'st) htable) outcome" where
  "index_vacant e T h hash d probe statik =
     (if header_is_sensitive h then okay (index_new statik h, T)
      else if \<not> (d = 0 \<or> tb_indices T ! probe_back (tb_mask T) probe \<noteq> None) then Some Panic
      else
        obind (update_size e (header_len e h) None T) (\<lambda>(evicted, T1).
          let probe1 = (if evicted then vacant_back (tb_mask T1) (tb_indices T1) d probe else probe);
              T2 = htable_insert h hash T1 in
          case place (tb_indices T2) probe1 \<lparr>pos_index = 0 - tb_inserted T2, pos_hash = hash\<rparr> of
            Some ix \<Rightarrow>
              okay (case statik of Some (n, _) \<Rightarrow> IdxInsertedValue n 0 | None \<Rightarrow> IdxInserted 0,
                    T2\<lparr>tb_indices := ix\<rparr>)
          | None \<Rightarrow> None))"

text \<open>The search of \<open>index_dynamic\<close>: where the header would go, or the oldest slot of its name.\<close>

datatype probe_result = Vacant nat nat | Occupied u64

definition index_step ::
  "('m, 'st) htable \<Rightarrow> ('m, 'st, bytes) header \<Rightarrow> u64 \<Rightarrow> nat \<Rightarrow> nat \<Rightarrow> nat + (probe_result, unit) result" where
  "index_step T h hash probe d =
     (case tb_indices T ! probe of
        Some pos \<Rightarrow>
          if probe_distance (tb_mask T) (pos_hash pos) probe < d then Inr (Ok (Vacant d probe))
          else if pos_hash pos = hash then
            let slot_idx = real_idx (tb_inserted T) (pos_index pos) in
            if slot_idx < length (tb_slots T) then
              if header_name (sl_header (tb_slots T ! slot_idx)) = header_name h
              then Inr (Ok (Occupied (pos_index pos)))
              else Inl (d + 1)
            else Inr Panic
          else Inl (d + 1)
      | None \<Rightarrow> Inr (Ok (Vacant d probe)))"

definition index_dynamic ::
  "('m, 'st) ext \<Rightarrow> (hname \<Rightarrow> u64) \<Rightarrow> ('m, 'st, bytes) header \<Rightarrow> (nat \<times> bool) option \<Rightarrow> ('m, 'st) htable \<Rightarrow>
     (('m, 'st) table_index \<times> ('m, 'st) htable) outcome" where
  "index_dynamic e fnv h statik T =
     obind (if header_len e h + tb_size T < tb_max_size T \<or> \<not> header_is_sensitive h then reserve_one T else okay T) (\<lambda>T1.
       if tb_indices T1 = [] then okay (index_new statik h, T1)
       else
         let hash = hash_header fnv h in
         obind (probe_loop (length (tb_indices T1)) (index_step T1 h hash) (desired_pos (tb_mask T1) hash) 0) (\<lambda>r.
           case r of
             Vacant d probe \<Rightarrow> index_vacant e T1 h hash d probe statik
           | Occupied index \<Rightarrow> index_occupied e T1 h hash index (map_option fst statik)))"

definition htable_index ::
  "('m, 'st) ext \<Rightarrow> (hname \<Rightarrow> u64) \<Rightarrow> ('m, 'st, bytes) header \<Rightarrow> ('m, 'st) htable \<Rightarrow>
     (('m, 'st) table_index \<times> ('m, 'st) htable) outcome" where
  "htable_index e fnv h T =
     (let statik = index_static e h in
      if header_skip_value_index e h then
        if statik = None then Some Panic else okay (index_new statik h, T)
      else
        case statik of
          Some (n, True) \<Rightarrow> okay (IdxIndexed n h, T)
        | _ \<Rightarrow>
            if header_len e h * 4 > tb_max_size T * 3 then okay (index_new statik h, T)
            else index_dynamic e fnv h statik T)"

end
