(* ===== verification/Hpack_Table_Inv.thy ===== *)
theory Hpack_Table_Inv
  imports Hpack_Table
begin

text \<open>
  The invariant of the HPACK encoder's table and that eviction keeps it: the array is in robin-hood
  order with free cells, every slot is referred to exactly once (by the array or by the slot before it of
  the same name), links lead to newer slots, and the recorded size is that of the headers.
\<close>

section \<open>Positions of slots\<close>

text \<open>The position a stored index has before the slot it means is inserted.\<close>

definition FUTURE :: nat where "FUTURE = 2 ^ 64 - 1"

lemma unat_less_64: "unat (w :: u64) < 2 ^ 64"
  using unsigned_less [of w, where ?'a = nat] by simp

lemma real_idx_le: "real_idx ins i \<le> FUTURE"
  using unat_less_64 [of "i + ins"] by (simp add: real_idx_def FUTURE_def)

lemma real_idx_inj: "real_idx ins i = real_idx ins j \<longleftrightarrow> i = j"
  by (simp add: real_idx_def flip: word_unat_eq_iff)

lemma real_idx_Suc: "real_idx ins i < FUTURE \<Longrightarrow> real_idx (ins + 1) i = Suc (real_idx ins i)"
proof -
  assume "real_idx ins i < FUTURE"
  then have "Suc (unat (i + ins)) < 2 ^ 64" by (simp add: real_idx_def FUTURE_def)
  then have "unat (1 + (i + ins)) \<noteq> 0 \<and> unat (1 + (i + ins)) = Suc (unat (i + ins))"
    by (simp add: unat_word_ariths unsigned_1)
  then show ?thesis by (simp add: real_idx_def algebra_simps)
qed

lemma real_idx_FUTURE: "real_idx ins i = FUTURE \<Longrightarrow> real_idx (ins + 1) i = 0"
proof -
  assume "real_idx ins i = FUTURE"
  then have "unat (i + ins) = 2 ^ 64 - 1" by (simp add: real_idx_def FUTURE_def)
  then have "unat (1 + (i + ins)) = 0" by (simp add: unat_word_ariths unsigned_1)
  then show ?thesis by (simp add: real_idx_def algebra_simps)
qed

lemma real_idx_new: "real_idx ins (0 - ins) = 0"
  by (simp add: real_idx_def)

lemma real_idx_next: "real_idx ins (0 - (ins + 1)) = FUTURE"
proof -
  have "0 - (ins + 1) + ins = (- 1 :: u64)" by simp
  then show ?thesis unfolding real_idx_def FUTURE_def by (simp add: unsigned_minus_1_eq_mask mask_eq_exp_minus_1)
qed

lemma real_idx_next_simps [simp]: "real_idx ins (- ins - 1) = FUTURE" "real_idx ins (- 1 - ins) = FUTURE"
proof -
  show "real_idx ins (- ins - 1) = FUTURE" using real_idx_next [of ins] by simp
  then show "real_idx ins (- 1 - ins) = FUTURE" by (simp only: minus_diff_commute [of ins 1])
qed

lemma real_idx_of_nat: "n < 2 ^ 64 \<Longrightarrow> real_idx ins (of_nat n - ins) = n"
  by (simp add: real_idx_def unat_of_nat)

section \<open>The invariant\<close>

type_synonym ('m, 'st) header_list = "('m, 'st, bytes) header list"

definition headers :: "('m, 'st) htable \<Rightarrow> ('m, 'st) header_list" where
  "headers T = map sl_header (tb_slots T)"

definition hash_name :: "(hname \<Rightarrow> u64) \<Rightarrow> hname \<Rightarrow> u64" where
  "hash_name fnv n = fnv n AND HASH_MASK"

text \<open>The references to slots: from the array and from the links.\<close>

definition refs :: "('m, 'st) htable \<Rightarrow> nat multiset" where
  "refs T = image_mset (\<lambda>p. real_idx (tb_inserted T) (pos_index p)) (stored (tb_indices T))
     + image_mset (real_idx (tb_inserted T)) (stored (map sl_next (tb_slots T)))"

text \<open>
  While room is made for a header of the name \<open>n0\<close>, the last slot \<open>prev\<close> of that name may go; its place
  in the array then refers to the slot to come.
\<close>

definition future :: "u64 option \<Rightarrow> ('m, 'st) htable \<Rightarrow> nat multiset" where
  "future prev T =
     (case prev of
        None \<Rightarrow> {#}
      | Some x \<Rightarrow> if real_idx (tb_inserted T) x < length (tb_slots T) then {#} else {#FUTURE#})"

definition slot_name :: "hname \<Rightarrow> ('m, 'st) htable \<Rightarrow> nat \<Rightarrow> hname" where
  "slot_name n0 T r = (if r < length (tb_slots T) then header_name (headers T ! r) else n0)"

abbreviation pos_name :: "hname \<Rightarrow> ('m, 'st) htable \<Rightarrow> pos \<Rightarrow> hname" where
  "pos_name n0 T p \<equiv> slot_name n0 T (real_idx (tb_inserted T) (pos_index p))"

definition links_ok :: "('m, 'st) htable \<Rightarrow> bool" where
  "links_ok T \<longleftrightarrow> (\<forall>j < length (tb_slots T). \<forall>x. sl_next (tb_slots T ! j) = Some x \<longrightarrow>
     real_idx (tb_inserted T) x < j
   \<and> header_name (headers T ! real_idx (tb_inserted T) x) = header_name (headers T ! j))"

definition prev_ok :: "u64 option \<Rightarrow> hname \<Rightarrow> ('m, 'st) htable \<Rightarrow> bool" where
  "prev_ok prev n0 T \<longleftrightarrow> (\<forall>x. prev = Some x \<longrightarrow> real_idx (tb_inserted T) x < FUTURE
   \<and> (real_idx (tb_inserted T) x < length (tb_slots T) \<longrightarrow>
        sl_next (tb_slots T ! real_idx (tb_inserted T) x) = None
      \<and> header_name (headers T ! real_idx (tb_inserted T) x) = n0))"

definition chained :: "(hname \<Rightarrow> u64) \<Rightarrow> u64 option \<Rightarrow> hname \<Rightarrow> ('m, 'st) htable \<Rightarrow> bool" where
  "chained fnv prev n0 T \<longleftrightarrow>
     refs T = mset_set {..<length (tb_slots T)} + future prev T
   \<and> (\<forall>s \<in> set (tb_slots T). sl_hash s = hash_name fnv (header_name (sl_header s)))
   \<and> (\<forall>p \<in># stored (tb_indices T). pos_hash p = hash_name fnv (pos_name n0 T p))
   \<and> (\<forall>p \<in># stored (tb_indices T). \<forall>q \<in># stored (tb_indices T). pos_name n0 T p = pos_name n0 T q \<longrightarrow> p = q)
   \<and> links_ok T \<and> prev_ok prev n0 T"

definition arrayed :: "('m, 'st) htable \<Rightarrow> bool" where
  "arrayed T \<longleftrightarrow> mask_of (length (tb_indices T)) (tb_mask T) \<and> 8 \<le> length (tb_indices T)
     \<and> length (tb_indices T) \<le> 2 ^ 32 \<and> rh (tb_indices T) \<and> length (tb_slots T) \<le> htable_capacity T"

definition hsizes :: "('m, 'st) ext \<Rightarrow> ('m, 'st) header_list \<Rightarrow> nat" where
  "hsizes e hs = sum_list (map (header_len e) hs)"

definition htable_ok :: "('m, 'st) ext \<Rightarrow> (hname \<Rightarrow> u64) \<Rightarrow> ('m, 'st) htable \<Rightarrow> bool" where
  "htable_ok e fnv T \<longleftrightarrow>
     (tb_indices T = [] \<and> tb_slots T = [] \<or> arrayed T \<and> (\<forall>n0. chained fnv None n0 T))
   \<and> tb_size T = hsizes e (headers T) \<and> tb_size T \<le> tb_max_size T \<and> tb_max_size T < 2 ^ 32
   \<and> distinct (headers T)"

lemma length_headers [simp]: "length (headers T) = length (tb_slots T)"
  by (simp add: headers_def)

lemma future_None [simp]: "future None T = {#}"
  by (simp add: future_def)

lemma size_refs: "size (stored (tb_indices T)) \<le> size (refs T)"
  by (simp add: refs_def)

lemma size_future: "size (future prev T) \<le> 1"
  by (simp add: future_def split: option.split)

lemma size_stored: "size (stored ix) + count (mset ix) None = length ix"
  by (induction ix) (auto simp: stored_def)

lemma chained_free:
  assumes "chained fnv prev n0 T" "arrayed T"
  shows "has_free (tb_indices T)"
proof -
  let ?n = "length (tb_indices T)"
  have "size (refs T) \<le> length (tb_slots T) + 1" using assms(1) size_future [of prev T] by (simp add: chained_def)
  with size_refs [of T] assms(2) have "size (stored (tb_indices T)) \<le> ?n - ?n div 4 + 1"
    by (simp add: arrayed_def htable_capacity_def usable_capacity_def)
  moreover have "2 \<le> ?n div 4" using assms(2) by (simp add: arrayed_def) linarith
  moreover have "?n div 4 \<le> ?n" by simp
  ultimately have "count (mset (tb_indices T)) None > 0" using size_stored [of "tb_indices T"] by linarith
  then show ?thesis by (simp add: has_free_def)
qed

lemma arrayed_slots: "arrayed T \<Longrightarrow> length (tb_slots T) < FUTURE"
  by (auto simp: arrayed_def htable_capacity_def usable_capacity_def FUTURE_def)

lemma chained_count:
  assumes "chained fnv prev n0 T" "arrayed T"
  shows "count (refs T) v \<le> 1"
proof -
  note L = arrayed_slots [OF assms(2)]
  have "count (mset_set {..<length (tb_slots T)}) v = (if v < length (tb_slots T) then 1 else 0)"
    by (simp add: count_mset_set')
  with assms(1) L show ?thesis by (auto simp: chained_def future_def split: option.splits)
qed

section \<open>Eviction\<close>

lemma stored_replace:
  "i < length ix \<Longrightarrow> ix ! i = Some p \<Longrightarrow>
     add_mset p (stored (ix[i := c])) = stored ix + (case c of None \<Rightarrow> {#} | Some q \<Rightarrow> {#q#})"
  using arg_cong [OF mset_replace [of i ix c], of "\<lambda>M. image_mset the (filter_mset (\<lambda>c. c \<noteq> None) M)"]
  by (auto simp: stored_def split: option.split)

lemma stored_butlast:
  "xs \<noteq> [] \<Longrightarrow> stored (map f xs) = stored (map f (butlast xs)) + (case f (last xs) of None \<Rightarrow> {#} | Some x \<Rightarrow> {#x#})"
  by (induction xs rule: rev_induct) (auto simp: stored_append stored_def split: option.split)

lemma stored_next: "x \<in># stored (map sl_next ss) \<longleftrightarrow> (\<exists>j < length ss. sl_next (ss ! j) = Some x)"
  by (auto simp: stored_cell)

text \<open>The oldest slot is not linked to, so the array refers to it, in one cell.\<close>

lemma oldest_head:
  assumes "chained fnv prev n0 T" "arrayed T" "tb_slots T \<noteq> []"
  shows "\<exists>i p. i < length (tb_indices T) \<and> tb_indices T ! i = Some p
    \<and> real_idx (tb_inserted T) (pos_index p) = length (tb_slots T) - 1"
proof -
  let ?L = "length (tb_slots T)"
  have "?L - 1 \<in># refs T" using assms(1,3) by (simp add: chained_def)
  moreover have "?L - 1 \<notin># image_mset (real_idx (tb_inserted T)) (stored (map sl_next (tb_slots T)))"
  proof
    assume "?L - 1 \<in># image_mset (real_idx (tb_inserted T)) (stored (map sl_next (tb_slots T)))"
    then obtain x j where x: "j < ?L" "sl_next (tb_slots T ! j) = Some x" "real_idx (tb_inserted T) x = ?L - 1"
      by (auto simp: stored_next)
    with assms(1) have "?L - 1 < j" by (auto simp: chained_def links_ok_def)
    with x(1) show False by simp
  qed
  ultimately have "?L - 1 \<in># image_mset (\<lambda>p. real_idx (tb_inserted T) (pos_index p)) (stored (tb_indices T))"
    by (simp add: refs_def)
  then show ?thesis by (auto simp: stored_cell) metis
qed

lemma array_inj:
  assumes "chained fnv prev n0 T" "arrayed T" "i < length (tb_indices T)" "j < length (tb_indices T)"
    "tb_indices T ! i = Some p" "tb_indices T ! j = Some q"
    "real_idx (tb_inserted T) (pos_index p) = real_idx (tb_inserted T) (pos_index q)"
  shows "i = j"
proof (rule stored_inj [OF _ assms(3-7)])
  fix v
  show "count (image_mset (\<lambda>p. real_idx (tb_inserted T) (pos_index p)) (stored (tb_indices T))) v \<le> 1"
    using chained_count [OF assms(1,2), of v] by (simp add: refs_def)
qed

text \<open>What eviction does with the place \<open>p\<close> of the evicted slot.\<close>

definition successor :: "u64 option \<Rightarrow> u64 option \<Rightarrow> u64 \<Rightarrow> pos \<Rightarrow> pos option" where
  "successor next prev ins p =
     (case next of
        Some x \<Rightarrow> Some (p\<lparr>pos_index := x\<rparr>)
      | None \<Rightarrow> if Some (pos_index p) = prev then Some (p\<lparr>pos_index := 0 - (ins + 1)\<rparr>) else None)"

lemma future_evict:
  assumes "chained fnv prev n0 T" "tb_slots T \<noteq> []" "real_idx (tb_inserted T) (pos_index p) = length (tb_slots T) - 1"
    and T': "tb_slots T' = butlast (tb_slots T)" "tb_inserted T' = tb_inserted T"
  shows "sl_next (last (tb_slots T)) = None \<Longrightarrow> Some (pos_index p) = prev \<Longrightarrow>
      future prev T = {#} \<and> future prev T' = {#FUTURE#} \<and> header_name (headers T ! (length (tb_slots T) - 1)) = n0"
    "\<not> (sl_next (last (tb_slots T)) = None \<and> Some (pos_index p) = prev) \<Longrightarrow> future prev T' = future prev T"
proof -
  let ?L = "length (tb_slots T)"
  have prev: "prev_ok prev n0 T" using assms(1) by (simp add: chained_def)
  show "future prev T = {#} \<and> future prev T' = {#FUTURE#} \<and> header_name (headers T ! (?L - 1)) = n0"
    if "sl_next (last (tb_slots T)) = None" "Some (pos_index p) = prev"
    using that(2) [symmetric] assms(2,3) T' prev by (auto simp: future_def prev_ok_def)
  show "future prev T' = future prev T" if no: "\<not> (sl_next (last (tb_slots T)) = None \<and> Some (pos_index p) = prev)"
  proof (cases prev)
    case (Some y)
    have "real_idx (tb_inserted T) y \<noteq> ?L - 1"
    proof
      assume y: "real_idx (tb_inserted T) y = ?L - 1"
      with assms(3) have "y = pos_index p" by (metis real_idx_inj)
      moreover have "sl_next (last (tb_slots T)) = None"
        using prev Some y assms(2) by (auto simp: prev_ok_def last_conv_nth)
      ultimately show False using no Some by simp
    qed
    with Some T' show ?thesis by (auto simp: future_def)
  qed simp
qed

lemma refs_evict:
  assumes "chained fnv prev n0 T" "tb_slots T \<noteq> []" "real_idx (tb_inserted T) (pos_index p) = length (tb_slots T) - 1"
    and T': "tb_slots T' = butlast (tb_slots T)" "tb_inserted T' = tb_inserted T"
    and st: "stored (tb_indices T) = add_mset p M"
      "stored (tb_indices T') = M + (case successor (sl_next (last (tb_slots T))) prev (tb_inserted T) p of
         None \<Rightarrow> {#} | Some q \<Rightarrow> {#q#})"
  shows "refs T' = mset_set {..<length (tb_slots T')} + future prev T'"
proof -
  let ?L = "length (tb_slots T)" and ?next = "sl_next (last (tb_slots T))"
  let ?r = "real_idx (tb_inserted T)"
  have L: "{..<?L} = insert (?L - 1) {..<?L - 1}" using assms(2) by (cases ?L) (auto simp: lessThan_Suc)
  have "refs T = add_mset (?L - 1) (mset_set {..<?L - 1}) + future prev T"
    using assms(1) by (simp add: chained_def L)
  moreover have "refs T = add_mset (?L - 1) (image_mset (\<lambda>p. ?r (pos_index p)) M
      + image_mset ?r (stored (map sl_next (butlast (tb_slots T)))) + (case ?next of None \<Rightarrow> {#} | Some x \<Rightarrow> {#?r x#}))"
    using assms(3) st(1) stored_butlast [OF assms(2), of sl_next]
    by (auto simp: refs_def split: option.split)
  ultimately have eq: "image_mset (\<lambda>p. ?r (pos_index p)) M + image_mset ?r (stored (map sl_next (butlast (tb_slots T))))
      + (case ?next of None \<Rightarrow> {#} | Some x \<Rightarrow> {#?r x#}) = mset_set {..<?L - 1} + future prev T"
    by (simp add: ac_simps)
  show ?thesis
    using eq future_evict [OF assms(1-3) T'] T' st(2)
    by (auto simp: refs_def successor_def real_idx_next ac_simps split: option.splits if_splits)
qed

lemma chained_evict:
  assumes "chained fnv prev n0 T" "arrayed T" "tb_slots T \<noteq> []"
    and p: "real_idx (tb_inserted T) (pos_index p) = length (tb_slots T) - 1"
    and T': "tb_slots T' = butlast (tb_slots T)" "tb_inserted T' = tb_inserted T"
    and st: "stored (tb_indices T) = add_mset p M"
      "stored (tb_indices T') = M + (case successor (sl_next (last (tb_slots T))) prev (tb_inserted T) p of
         None \<Rightarrow> {#} | Some q \<Rightarrow> {#q#})"
  shows "chained fnv prev n0 T'"
proof -
  let ?L = "length (tb_slots T)" and ?next = "sl_next (last (tb_slots T))"
  let ?r = "real_idx (tb_inserted T)"
  have L: "0 < ?L" using assms(3) by simp
  have lnk: "links_ok T" "prev_ok prev n0 T" using assms(1) by (simp_all add: chained_def)
  have slots': "tb_slots T' ! j = tb_slots T ! j" "headers T' ! j = headers T ! j" if "j < ?L - 1" for j
    using that T' by (simp_all add: nth_butlast headers_def)
  have name': "slot_name n0 T' j = slot_name n0 T j" if "j \<noteq> ?L - 1" for j
    using that T' slots' by (auto simp: slot_name_def)
  have M: "?r (pos_index q) \<noteq> ?L - 1" if "q \<in># M" for q
  proof
    assume "?r (pos_index q) = ?L - 1"
    with that p st(1) have "2 \<le> count (refs T) (?L - 1)"
      by (auto simp: refs_def dest!: multi_member_split)
    with chained_count [OF assms(1,2), of "?L - 1"] show False by simp
  qed
  have q: "pos_hash q = pos_hash p \<and> pos_name n0 T' q = pos_name n0 T p"
    if "successor ?next prev (tb_inserted T) p = Some q" for q
  proof (cases ?next)
    case None
    with that have "q = p\<lparr>pos_index := 0 - (tb_inserted T + 1)\<rparr>" "Some (pos_index p) = prev"
      by (auto simp: successor_def split: if_splits)
    with future_evict(1) [OF assms(1,3) p T' None] arrayed_slots [OF assms(2)] p L T' show ?thesis
      by (auto simp: slot_name_def)
  next
    case (Some x)
    with lnk(1) L have "?r x < ?L - 1 \<and> header_name (headers T ! ?r x) = header_name (headers T ! (?L - 1))"
      by (auto simp: links_ok_def last_conv_nth assms(3))
    with that Some p L T' slots' show ?thesis by (auto simp: successor_def slot_name_def)
  qed
  have mem: "\<exists>y \<in># stored (tb_indices T). pos_hash y = pos_hash q \<and> pos_name n0 T y = pos_name n0 T' q
      \<and> (y = p \<longrightarrow> successor ?next prev (tb_inserted T) p = Some q) \<and> (y \<noteq> p \<longrightarrow> y = q)"
    if "q \<in># stored (tb_indices T')" for q
  proof (cases "q \<in># M")
    case True
    with M [OF True] name' T' p st(1) show ?thesis by (intro bexI [of _ q]) auto
  next
    case False
    with that st(2) have "successor ?next prev (tb_inserted T) p = Some q" by (auto split: option.splits)
    with q [of q] st(1) show ?thesis by (intro bexI [of _ p]) auto
  qed
  have "pos_hash x = hash_name fnv (pos_name n0 T' x)" if "x \<in># stored (tb_indices T')" for x
    using mem [OF that] assms(1) unfolding chained_def by metis
  moreover have "x = y" if "x \<in># stored (tb_indices T')" "y \<in># stored (tb_indices T')"
      "pos_name n0 T' x = pos_name n0 T' y" for x y
    using mem [OF that(1)] mem [OF that(2)] that(3) assms(1) unfolding chained_def by (metis option.inject)
  moreover have "links_ok T'"
    unfolding links_ok_def
  proof (intro allI impI)
    fix j x assume j: "j < length (tb_slots T')" and x: "sl_next (tb_slots T' ! j) = Some x"
    with T' slots' have "j < ?L - 1" "sl_next (tb_slots T ! j) = Some x" by simp_all
    with lnk(1) L have "?r x < j \<and> header_name (headers T ! ?r x) = header_name (headers T ! j)"
      by (simp add: links_ok_def)
    with \<open>j < ?L - 1\<close> slots' T' show "real_idx (tb_inserted T') x < j
        \<and> header_name (headers T' ! real_idx (tb_inserted T') x) = header_name (headers T' ! j)" by simp
  qed
  moreover have "prev_ok prev n0 T'" using lnk(2) T' slots' by (auto simp: prev_ok_def)
  moreover have "\<forall>s \<in> set (tb_slots T'). sl_hash s = hash_name fnv (header_name (sl_header s))"
    using assms(1) T' by (auto simp: chained_def dest: in_set_butlastD)
  ultimately show ?thesis using refs_evict [OF assms(1,3) p T' st] by (auto simp: chained_def)
qed

lemma remove_stored:
  assumes "rh ix" "has_free ix" "mask_of (length ix) m" "i < length ix" "ix ! i = Some p" "stored ix = add_mset p M"
  shows "\<exists>ix'. remove_phase_two m (ix[i := None]) i = Some ix' \<and> length ix' = length ix \<and> rh ix'
    \<and> stored ix' = M \<and> (\<forall>z d. yields ix z d \<longrightarrow> yields ix' z d)"
  using remove_ok [OF assms(1-5)] stored_replace [OF assms(4,5), of None] assms(6) by (auto simp: stored_def)

lemma evict_step_found:
  assumes ix: "rh ix" "has_free ix" "mask_of (length ix) m" and i: "i < length ix" "ix ! i = Some p"
    and M: "stored ix = add_mset p M"
  shows "\<exists>ix'. evict_step (pos_index p) next prev ins ix m i () = Inr (okay ix') \<and> length ix' = length ix \<and> rh ix'
    \<and> stored ix' = M + (case successor next prev ins p of None \<Rightarrow> {#} | Some q \<Rightarrow> {#q#})
    \<and> (\<forall>z d. yields ix z d \<longrightarrow> yields ix' z d)"
proof (cases "successor next prev ins p")
  case None
  with remove_stored [OF ix i M] i show ?thesis
    by (auto simp: evict_step_def successor_def split: option.splits if_splits)
next
  case (Some q)
  then have "pos_hash q = pos_hash p" by (auto simp: successor_def split: option.splits if_splits)
  note r = rehash_update [OF i this]
  have "evict_step (pos_index p) next prev ins ix m i () = Inr (okay (ix[i := Some q]))"
    using Some i by (auto simp: evict_step_def successor_def split: option.splits if_splits)
  with r ix(1) stored_replace [OF i, of "Some q"] M Some show ?thesis by auto
qed

lemma oldest_count:
  assumes "chained fnv prev n0 T" "arrayed T" "stored (tb_indices T) = add_mset p M"
    "pos_index p = pos_idx"
  shows "length (filter (\<lambda>p. pos_index p = pos_idx) (map the (filter (\<lambda>c. c \<noteq> None) (tb_indices T)))) = 1"
proof -
  let ?f = "\<lambda>p. real_idx (tb_inserted T) (pos_index p)"
  have "pos_index q \<noteq> pos_idx" if "q \<in># M" for q
  proof
    assume "pos_index q = pos_idx"
    with that assms(3,4) have "2 \<le> count (refs T) (?f p)" by (auto simp: refs_def dest!: multi_member_split)
    with chained_count [OF assms(1,2), of "?f p"] show False by simp
  qed
  then have "filter_mset (\<lambda>p. pos_index p = pos_idx) (stored (tb_indices T)) = {#p#}"
    using assms(3,4) by (auto intro: filter_mset_False)
  then show ?thesis unfolding stored_list by (metis mset_filter size_mset size_single)
qed

lemma evict_ok:
  assumes ch: "chained fnv prev n0 T" and arr: "arrayed T" and ne: "tb_slots T \<noteq> []"
    and size: "tb_size T = hsizes e (headers T) + extra"
  shows "\<exists>T'. evict e prev T = okay T' \<and> tb_slots T' = butlast (tb_slots T) \<and> tb_size T' = hsizes e (headers T') + extra
    \<and> tb_max_size T' = tb_max_size T \<and> tb_inserted T' = tb_inserted T \<and> tb_mask T' = tb_mask T
    \<and> length (tb_indices T') = length (tb_indices T)
    \<and> arrayed T' \<and> chained fnv prev n0 T' \<and> (\<forall>z d. yields (tb_indices T) z d \<longrightarrow> yields (tb_indices T') z d)"
proof -
  let ?ix = "tb_indices T" and ?m = "tb_mask T" and ?L = "length (tb_slots T)"
  let ?idx = "of_nat (?L - 1) - tb_inserted T :: u64" and ?s = "last (tb_slots T)"
  have A: "mask_of (length ?ix) ?m" "rh ?ix" using arr by (simp_all add: arrayed_def)
  from oldest_head [OF ch arr ne] obtain i p where
    i: "i < length ?ix" "?ix ! i = Some p" and p: "real_idx (tb_inserted T) (pos_index p) = ?L - 1" by blast
  have "?L - 1 < 2 ^ 64" using arrayed_slots [OF arr] by (simp add: FUTURE_def)
  from real_idx_of_nat [OF this] p have idx: "pos_index p = ?idx" by (metis real_idx_inj)
  from i obtain M where M: "stored ?ix = add_mset p M" by (metis stored_cell multi_member_split)
  have h: "pos_hash p = sl_hash ?s"
  proof -
    have "pos_hash p = hash_name fnv (header_name (headers T ! (?L - 1)))"
      using ch M p ne by (auto simp: chained_def slot_name_def)
    also have "headers T ! (?L - 1) = sl_header ?s" using ne by (simp add: headers_def last_conv_nth)
    finally show ?thesis using ch ne by (simp add: chained_def)
  qed
  have sz: "header_len e (sl_header ?s) \<le> tb_size T" "tb_size T - header_len e (sl_header ?s) = hsizes e (map sl_header (butlast (tb_slots T))) + extra"
    using size ne sum_list_butlast_last [of "tb_slots T" "\<lambda>s. header_len e (sl_header s)"]
    by (simp_all add: hsizes_def headers_def o_def)
  from probe_reach [OF A(2,1) i] obtain K where
    K: "(desired_pos ?m (sl_hash ?s) + K) mod length ?ix = i"
      "\<And>k. k < K \<Longrightarrow> (desired_pos ?m (sl_hash ?s) + k) mod length ?ix \<noteq> i
        \<and> (\<exists>y. ?ix ! ((desired_pos ?m (sl_hash ?s) + k) mod length ?ix) = Some y)" unfolding h by blast
  let ?step = "evict_step ?idx (sl_next ?s) prev (tb_inserted T) ?ix ?m"
  let ?Q = "\<lambda>r. \<exists>ix'. r = okay ix' \<and> length ix' = length ?ix \<and> rh ix'
    \<and> stored ix' = M + (case successor (sl_next ?s) prev (tb_inserted T) p of None \<Rightarrow> {#} | Some q \<Rightarrow> {#q#})
    \<and> (\<forall>z d. yields ?ix z d \<longrightarrow> yields ix' z d)"
  have n: "0 < length ?ix" using i by linarith
  have "\<exists>r. probe_loop (length ?ix) ?step (desired_pos ?m (sl_hash ?s)) () = Some r \<and> ?Q r"
  proof (rule probe_loop_rule [where I = "\<lambda>_ _. True" and K = K])
    fix k :: nat and u :: unit assume k: "k < K"
    with K(2) [OF k] n array_inj [OF ch arr _ i(1) _ i(2)] idx
    show "\<exists>s'. ?step ((desired_pos ?m (sl_hash ?s) + k) mod length ?ix) u = Inl s' \<and> True"
      by (fastforce simp: evict_step_def)
  next
    fix u :: unit
    show "\<exists>r. ?step ((desired_pos ?m (sl_hash ?s) + K) mod length ?ix) u = Inr r \<and> ?Q r"
      using evict_step_found [OF A(2) chained_free [OF ch arr] A(1) i M, of "sl_next ?s" prev "tb_inserted T"] K(1) idx by auto
  qed (use n desired_pos_less [OF A(1), of "sl_hash ?s"] in auto)
  then obtain ix' where ix': "probe_loop (length ?ix) ?step (desired_pos ?m (sl_hash ?s)) () = Some (okay ix')"
    "length ix' = length ?ix" "rh ix'" "\<forall>z d. yields ?ix z d \<longrightarrow> yields ix' z d"
    "stored ix' = M + (case successor (sl_next ?s) prev (tb_inserted T) p of None \<Rightarrow> {#} | Some q \<Rightarrow> {#q#})" by blast
  let ?T = "T\<lparr>tb_slots := butlast (tb_slots T), tb_size := tb_size T - header_len e (sl_header ?s), tb_indices := ix'\<rparr>"
  have "evict e prev T = okay ?T"
    using ne sz(1) oldest_count [OF ch arr M idx] ix'(1) by (simp add: evict_def Let_def)
  moreover have "chained fnv prev n0 ?T"
    by (rule chained_evict [OF ch arr ne p _ _ M]) (use ix'(5) in simp_all)
  moreover have "arrayed ?T" using arr ix'(2,3) by (auto simp: arrayed_def htable_capacity_def)
  ultimately show ?thesis using ix' sz(2) by (intro exI [of _ ?T]) (simp add: headers_def)
qed

section \<open>Making room\<close>

text \<open>The newest headers that fit into \<open>room\<close>.\<close>

fun keep_newest :: "('m, 'st) ext \<Rightarrow> nat \<Rightarrow> ('m, 'st) header_list \<Rightarrow> ('m, 'st) header_list" where
  "keep_newest e room [] = []"
| "keep_newest e room (h # hs) =
     (if header_len e h \<le> room then h # keep_newest e (room - header_len e h) hs else [])"

lemma hsizes_simps [simp]:
  "hsizes e [] = 0" "hsizes e (h # hs) = header_len e h + hsizes e hs" "hsizes e (xs @ ys) = hsizes e xs + hsizes e ys"
  by (simp_all add: hsizes_def)

lemma keep_newest_all: "hsizes e hs \<le> room \<Longrightarrow> keep_newest e room hs = hs"
  by (induction hs arbitrary: room) auto

lemma keep_newest_snoc: "hsizes e (hs @ [h]) > room \<Longrightarrow> keep_newest e room (hs @ [h]) = keep_newest e room hs"
  by (induction hs arbitrary: room) auto

lemma keep_newest_butlast: "hsizes e hs > room \<Longrightarrow> keep_newest e room (butlast hs) = keep_newest e room hs"
  using keep_newest_snoc [of room e "butlast hs" "last hs"] by (cases "hs = []") simp_all

lemma keep_newest_size: "hsizes e (keep_newest e room hs) \<le> room"
proof (induction hs arbitrary: room)
  case (Cons h hs)
  from Cons.IH [of "room - header_len e h"] show ?case by auto
qed simp

lemma keep_newest_prefix: "\<exists>k. keep_newest e room hs = take k hs"
proof (induction hs arbitrary: room)
  case (Cons h hs)
  from Cons.IH [of "room - header_len e h"] obtain k where "keep_newest e (room - header_len e h) hs = take k hs" by blast
  then show ?case by (cases "header_len e h \<le> room") (auto intro: exI [of _ "Suc k"] exI [of _ 0])
qed simp

text \<open>What eviction leaves alone.\<close>

definition evicted_to :: "('m, 'st) htable \<Rightarrow> ('m, 'st) htable \<Rightarrow> bool" where
  "evicted_to T T' \<longleftrightarrow> tb_max_size T' = tb_max_size T \<and> tb_inserted T' = tb_inserted T \<and> tb_mask T' = tb_mask T
     \<and> length (tb_indices T') = length (tb_indices T) \<and> (\<exists>k. tb_slots T' = take k (tb_slots T))
     \<and> (\<forall>z d. yields (tb_indices T) z d \<longrightarrow> yields (tb_indices T') z d)"

lemma evicted_to_refl: "evicted_to T T"
  by (auto simp: evicted_to_def intro: exI [of _ "length (tb_slots T)"])

lemma evicted_to_trans: "evicted_to T T' \<Longrightarrow> evicted_to T' T'' \<Longrightarrow> evicted_to T T''"
  by (auto simp: evicted_to_def)

lemma converge_ok:
  assumes "chained fnv prev n0 T" "arrayed T" "tb_size T = hsizes e (headers T) + extra" "extra \<le> tb_max_size T"
  shows "\<exists>ret' T'. converge e prev ret T = okay (ret', T') \<and> headers T' = keep_newest e (tb_max_size T - extra) (headers T)
    \<and> tb_size T' = hsizes e (headers T') + extra \<and> tb_size T' \<le> tb_max_size T'
    \<and> arrayed T' \<and> chained fnv prev n0 T' \<and> evicted_to T T' \<and> (\<not> ret' \<longrightarrow> T' = T)"
  using assms
proof (induction "length (tb_slots T)" arbitrary: T ret rule: less_induct)
  case less
  show ?case
  proof (cases "tb_size T > tb_max_size T")
    case True
    then have big: "hsizes e (headers T) > tb_max_size T - extra" using less.prems by simp
    then have ne: "tb_slots T \<noteq> []" by (auto simp: headers_def)
    from evict_ok [OF less.prems(1,2) ne less.prems(3)] obtain T1 where
      T1: "evict e prev T = okay T1" "tb_slots T1 = butlast (tb_slots T)" "tb_size T1 = hsizes e (headers T1) + extra"
        "arrayed T1" "chained fnv prev n0 T1" "tb_max_size T1 = tb_max_size T" "tb_inserted T1 = tb_inserted T"
        "tb_mask T1 = tb_mask T" "length (tb_indices T1) = length (tb_indices T)"
        "\<forall>z d. yields (tb_indices T) z d \<longrightarrow> yields (tb_indices T1) z d" by blast
    have hs: "headers T1 = butlast (headers T)" using T1(2) by (simp add: headers_def map_butlast)
    have ev: "evicted_to T T1" using T1(2,6-10) by (auto simp: evicted_to_def butlast_conv_take)
    have "length (tb_slots T1) < length (tb_slots T)" "extra \<le> tb_max_size T1" using T1 ne less.prems by simp_all
    from less.hyps [OF this(1) T1(5,4,3) this(2), of True] obtain ret' T' where
      T': "converge e prev True T1 = okay (ret', T')" "headers T' = keep_newest e (tb_max_size T1 - extra) (headers T1)"
        "tb_size T' = hsizes e (headers T') + extra" "tb_size T' \<le> tb_max_size T'" "arrayed T'"
        "chained fnv prev n0 T'" "evicted_to T1 T'" "\<not> ret' \<longrightarrow> T' = T1" by blast
    have ret: "ret'" if "converge e prev True S = okay (ret', S')" for S S'
      using that
    proof (induction "length (tb_slots S)" arbitrary: S rule: less_induct)
      case (less S)
      then show ?case
        by (auto simp: converge.simps [of e prev True S] split: if_splits option.splits result.splits intro: evict_shrinks)
    qed
    have "converge e prev ret T = okay (ret', T')" using True T1(1) T'(1) by (simp add: converge.simps [of e prev ret T])
    moreover have "headers T' = keep_newest e (tb_max_size T - extra) (headers T)"
      using T'(2) hs T1(6) keep_newest_butlast [OF big] by simp
    ultimately show ?thesis using T' evicted_to_trans [OF ev T'(7)] ret [OF T'(1)] by blast
  next
    case False
    with less.prems evicted_to_refl [of T] show ?thesis
      by (simp add: converge.simps [of e prev ret T] keep_newest_all)
  qed
qed

end
