(* ===== verification/Hpack_Table_Spec.thy ===== *)
theory Hpack_Table_Spec
  imports Hpack_Table_Inv
begin

text \<open>
  The HPACK encoder's table against its specification: a list of headers, newest first, that is searched
  from end to end and cut to the newest ones that fit. Indexing a header, resizing and growing implement
  it, and none of the loops runs forever or panics.
\<close>

section \<open>Inserting a slot\<close>

text \<open>An insertion moves every position up by one, and makes the slot to come the first.\<close>

definition moved :: "nat \<Rightarrow> nat" where
  "moved r = (if r < FUTURE then Suc r else 0)"

lemma real_idx_moved: "real_idx (ins + 1) i = moved (real_idx ins i)"
  using real_idx_le [of ins i] real_idx_Suc [of ins i] real_idx_FUTURE [of ins i]
  by (cases "real_idx ins i < FUTURE") (simp_all add: moved_def)

lemma htable_insert_simps [simp]:
  "tb_inserted (htable_insert h hash T) = tb_inserted T + 1"
  "tb_slots (htable_insert h hash T) = \<lparr>sl_hash = hash, sl_header = h, sl_next = None\<rparr> # tb_slots T"
  "tb_indices (htable_insert h hash T) = tb_indices T" "tb_mask (htable_insert h hash T) = tb_mask T"
  "tb_size (htable_insert h hash T) = tb_size T" "tb_max_size (htable_insert h hash T) = tb_max_size T"
  "headers (htable_insert h hash T) = h # headers T"
  by (simp_all add: htable_insert_def headers_def)

lemma indices_update_simps [simp]:
  "headers (T\<lparr>tb_indices := ix\<rparr>) = headers T" "slot_name n0 (T\<lparr>tb_indices := ix\<rparr>) = slot_name n0 T"
  "links_ok (T\<lparr>tb_indices := ix\<rparr>) = links_ok T"
  by (simp_all add: headers_def slot_name_def fun_eq_iff links_ok_def)

lemma refs_insert: "refs (htable_insert h hash T) = image_mset moved (refs T)"
proof -
  have "stored (map sl_next (tb_slots (htable_insert h hash T))) = stored (map sl_next (tb_slots T))"
    by (simp add: stored_def)
  moreover have "real_idx (tb_inserted T + 1) = (\<lambda>i. moved (real_idx (tb_inserted T) i))"
    by (simp add: fun_eq_iff real_idx_moved)
  ultimately show ?thesis by (simp add: refs_def multiset.map_comp o_def)
qed

lemma moved_mset: "L < FUTURE \<Longrightarrow> add_mset 0 (image_mset moved (mset_set {..<L})) = mset_set {..<Suc L}"
proof -
  assume L: "L < FUTURE"
  have "image_mset moved (mset_set {..<L}) = image_mset Suc (mset_set {..<L})"
    using L by (intro image_mset_cong) (auto simp: moved_def)
  also have "\<dots> = mset_set (Suc ` {..<L})" by (simp add: image_mset_mset_set)
  finally show ?thesis unfolding lessThan_Suc_eq_insert_0 by simp
qed

lemma chained_bound:
  assumes "chained fnv prev n0 T" "p \<in># stored (tb_indices T)"
  shows "real_idx (tb_inserted T) (pos_index p) < length (tb_slots T)
    \<or> real_idx (tb_inserted T) (pos_index p) = FUTURE \<and> future prev T \<noteq> {#}"
proof -
  have "real_idx (tb_inserted T) (pos_index p) \<in># refs T" using assms(2) by (simp add: refs_def)
  then have "real_idx (tb_inserted T) (pos_index p) \<in># mset_set {..<length (tb_slots T)} + future prev T"
    using assms(1) by (simp add: chained_def)
  then show ?thesis by (auto simp: future_def split: option.splits if_splits)
qed

lemma pos_name_insert:
  assumes "chained fnv prev (header_name h) T" "arrayed T" "p \<in># stored (tb_indices T)"
  shows "pos_name n0 (htable_insert h hash T) p = pos_name (header_name h) T p"
  using chained_bound [OF assms(1,3)] arrayed_slots [OF assms(2)]
  by (auto simp: slot_name_def real_idx_moved moved_def)

lemma links_insert:
  assumes "links_ok T" "arrayed T"
  shows "links_ok (htable_insert h hash T)"
  unfolding links_ok_def
proof (intro allI impI)
  fix j x assume j: "j < length (tb_slots (htable_insert h hash T))"
    and x: "sl_next (tb_slots (htable_insert h hash T) ! j) = Some x"
  then obtain i where i: "j = Suc i" "i < length (tb_slots T)" "sl_next (tb_slots T ! i) = Some x" by (cases j) auto
  with assms(1) have "real_idx (tb_inserted T) x < i
    \<and> header_name (headers T ! real_idx (tb_inserted T) x) = header_name (headers T ! i)" by (simp add: links_ok_def)
  with i arrayed_slots [OF assms(2)] show "real_idx (tb_inserted (htable_insert h hash T)) x < j
    \<and> header_name (headers (htable_insert h hash T) ! real_idx (tb_inserted (htable_insert h hash T)) x)
      = header_name (headers (htable_insert h hash T) ! j)"
    by (simp add: real_idx_moved moved_def)
qed

text \<open>A header of a new name gets a place in the array.\<close>

lemma chained_insert_vacant:
  assumes ch: "chained fnv None (header_name h) T" and arr: "arrayed T" and hash: "hash = hash_name fnv (header_name h)"
    and new: "\<And>p. p \<in># stored (tb_indices T) \<Longrightarrow> pos_name (header_name h) T p \<noteq> header_name h"
    and ix: "stored ix = add_mset \<lparr>pos_index = 0 - (tb_inserted T + 1), pos_hash = hash\<rparr> (stored (tb_indices T))"
  shows "chained fnv None n0 (htable_insert h hash T\<lparr>tb_indices := ix\<rparr>)"
proof -
  let ?p = "\<lparr>pos_index = 0 - (tb_inserted T + 1), pos_hash = hash\<rparr>"
  let ?S = "htable_insert h hash T" let ?T = "?S\<lparr>tb_indices := ix\<rparr>"
  have new0: "pos_name n0 ?T ?p = header_name h"
    using real_idx_new [of "tb_inserted T + 1"] by (simp add: slot_name_def)
  have old: "pos_name n0 ?T p = pos_name (header_name h) T p" if "p \<in># stored (tb_indices T)" for p
    using pos_name_insert [OF ch arr that, of n0 hash] by simp
  have "refs ?T = add_mset 0 (refs ?S)"
    using ix real_idx_new [of "tb_inserted T + 1"] by (simp add: refs_def)
  also have "\<dots> = add_mset 0 (image_mset moved (mset_set {..<length (tb_slots T)}))"
    using ch by (simp add: refs_insert chained_def)
  finally have "refs ?T = mset_set {..<length (tb_slots ?T)}" using moved_mset [OF arrayed_slots [OF arr]] by simp
  moreover have "links_ok ?T" using links_insert [OF _ arr, of h hash] ch by (simp add: chained_def)
  moreover have "\<forall>s \<in> set (tb_slots ?T). sl_hash s = hash_name fnv (header_name (sl_header s))"
    using ch hash by (simp add: chained_def)
  moreover have "pos_hash p = hash_name fnv (pos_name n0 ?T p)" if "p \<in># stored (tb_indices ?T)" for p
  proof (cases "p = ?p")
    case False
    with that have p: "p \<in># stored (tb_indices T)" by (simp add: ix)
    with ch have "pos_hash p = hash_name fnv (pos_name (header_name h) T p)" by (simp add: chained_def)
    with old [OF p] show ?thesis by (simp only:)
  qed (use new0 hash in \<open>simp only: pos.simps\<close>)
  moreover have "p = q" if "p \<in># stored (tb_indices ?T)" "q \<in># stored (tb_indices ?T)"
      "pos_name n0 ?T p = pos_name n0 ?T q" for p q
  proof -
    have "p = ?p \<or> p \<in># stored (tb_indices T)" "q = ?p \<or> q \<in># stored (tb_indices T)" using that(1,2) by (auto simp: ix)
    moreover have "p = q" if "p \<in># stored (tb_indices T)" "q \<in># stored (tb_indices T)"
        "pos_name (header_name h) T p = pos_name (header_name h) T q"
      using ch that by (simp add: chained_def)
    ultimately show ?thesis using that(3) old new new0 by metis
  qed
  ultimately show ?thesis by (simp add: chained_def prev_ok_def)
qed

text \<open>A header of a known name is linked from the slot before it, or inherits the place of an evicted one.\<close>

lemma link_new_simps [simp]:
  "tb_inserted (link_new x T) = tb_inserted T" "tb_indices (link_new x T) = tb_indices T"
  "tb_mask (link_new x T) = tb_mask T" "tb_size (link_new x T) = tb_size T" "tb_max_size (link_new x T) = tb_max_size T"
  "length (tb_slots (link_new x T)) = length (tb_slots T)" "headers (link_new x T) = headers T"
  "slot_name n0 (link_new x T) = slot_name n0 T"
proof -
  show "headers (link_new x T) = headers T"
    by (auto simp: link_new_def headers_def Let_def map_update list_update_same_conv)
  moreover show "length (tb_slots (link_new x T)) = length (tb_slots T)" by (simp add: link_new_def Let_def)
  ultimately show "slot_name n0 (link_new x T) = slot_name n0 T" by (simp add: slot_name_def fun_eq_iff)
qed (simp_all add: link_new_def Let_def)

lemma link_new_nth:
  assumes "j < length (tb_slots T)"
  shows "sl_next (tb_slots (link_new x T) ! j) = (if real_idx (tb_inserted T) x = j then Some (0 - tb_inserted T) else sl_next (tb_slots T ! j))"
    "sl_hash (tb_slots (link_new x T) ! j) = sl_hash (tb_slots T ! j)"
    "sl_header (tb_slots (link_new x T) ! j) = sl_header (tb_slots T ! j)"
  using assms by (simp_all add: link_new_def Let_def nth_list_update)

lemma refs_link:
  assumes "chained fnv (Some x) (header_name h) T" "arrayed T"
  shows "refs (link_new x (htable_insert h hash T)) = mset_set {..<Suc (length (tb_slots T))}"
proof -
  let ?L = "length (tb_slots T)" and ?S = "htable_insert h hash T" let ?r = "real_idx (tb_inserted T) x"
  have S: "refs ?S = image_mset moved (mset_set {..<?L}) + image_mset moved (future (Some x) T)"
    using assms(1) by (simp add: refs_insert chained_def)
  show ?thesis
  proof (cases "?r < ?L")
    case True
    then have r: "real_idx (tb_inserted ?S) x = Suc ?r"
      using arrayed_slots [OF assms(2)] by (simp add: real_idx_moved moved_def)
    have "sl_next (tb_slots T ! ?r) = None" using assms(1) True by (simp add: chained_def prev_ok_def)
    then have "stored ((map sl_next (tb_slots T))[?r := Some (0 - (tb_inserted T + 1))])
        = add_mset (0 - (tb_inserted T + 1)) (stored (map sl_next (tb_slots T)))"
      using True by (intro stored_update_None) simp_all
    then have "stored (map sl_next (tb_slots (link_new x ?S))) = add_mset (0 - (tb_inserted T + 1)) (stored (map sl_next (tb_slots ?S)))"
      using True r by (simp add: link_new_def map_update) (simp add: stored_def)
    then have "refs (link_new x ?S) = add_mset 0 (refs ?S)"
      using real_idx_new [of "tb_inserted T + 1"] by (simp add: refs_def)
    with S True moved_mset [OF arrayed_slots [OF assms(2)]] show ?thesis by (simp add: future_def)
  next
    case False
    have "?r < FUTURE" using assms(1) by (simp add: chained_def prev_ok_def)
    with False have "link_new x ?S = ?S" by (simp add: link_new_def real_idx_moved moved_def)
    with S False moved_mset [OF arrayed_slots [OF assms(2)]] show ?thesis by (simp add: future_def moved_def)
  qed
qed

lemma links_link:
  assumes "chained fnv (Some x) (header_name h) T" "arrayed T"
  shows "links_ok (link_new x (htable_insert h hash T))"
  unfolding links_ok_def
proof (intro allI impI)
  let ?S = "htable_insert h hash T" let ?T = "link_new x ?S" let ?r = "real_idx (tb_inserted T) x"
  fix j y assume j: "j < length (tb_slots ?T)" and y: "sl_next (tb_slots ?T ! j) = Some y"
  have p: "prev_ok (Some x) (header_name h) T" "links_ok T" using assms(1) by (simp_all add: chained_def)
  show "real_idx (tb_inserted ?T) y < j \<and> header_name (headers ?T ! real_idx (tb_inserted ?T) y) = header_name (headers ?T ! j)"
  proof (cases "?r < length (tb_slots T) \<and> j = Suc ?r")
    case True
    then have "real_idx (tb_inserted ?S) x = j"
      using arrayed_slots [OF assms(2)] by (simp add: real_idx_moved moved_def)
    with y j link_new_nth(1) [of j ?S x] have "y = 0 - (tb_inserted T + 1)" by simp
    with True p(1) real_idx_new [of "tb_inserted T + 1"] show ?thesis by (simp add: prev_ok_def)
  next
    case False
    have "?r < FUTURE" using p(1) by (simp add: prev_ok_def)
    with False j have "real_idx (tb_inserted ?S) x \<noteq> j" by (auto simp: real_idx_moved moved_def)
    with y j link_new_nth(1) [of j ?S x] have "sl_next (tb_slots ?S ! j) = Some y" by simp
    with links_insert [OF p(2) assms(2), of h hash] j show ?thesis by (simp add: links_ok_def)
  qed
qed

lemma chained_insert_occupied:
  assumes ch: "chained fnv (Some x) (header_name h) T" and arr: "arrayed T" and hash: "hash = hash_name fnv (header_name h)"
  shows "chained fnv None n0 (link_new x (htable_insert h hash T))"
proof -
  let ?S = "htable_insert h hash T" let ?T = "link_new x ?S"
  have old: "pos_name n0 ?T p = pos_name (header_name h) T p" if "p \<in># stored (tb_indices T)" for p
    using pos_name_insert [OF ch arr that, of n0 hash] by simp
  have "sl_hash s = hash_name fnv (header_name (sl_header s))" if "s \<in> set (tb_slots ?T)" for s
  proof -
    from that obtain j where j: "j < length (tb_slots ?S)" "s = tb_slots ?T ! j"
      by (metis in_set_conv_nth link_new_simps(6))
    then have "tb_slots ?S ! j \<in> set (tb_slots ?S)" by (metis nth_mem)
    with ch hash j link_new_nth(2,3) [OF j(1)] show ?thesis by (auto simp: chained_def)
  qed
  moreover have "pos_hash p = hash_name fnv (pos_name n0 ?T p)" if "p \<in># stored (tb_indices ?T)" for p
    using ch that old [of p] by (simp add: chained_def del: link_new_simps(8))
  moreover have "p = q" if "p \<in># stored (tb_indices ?T)" "q \<in># stored (tb_indices ?T)"
      "pos_name n0 ?T p = pos_name n0 ?T q" for p q
    using ch that old [of p] old [of q] by (simp add: chained_def del: link_new_simps(8))
  ultimately show ?thesis using refs_link [OF ch arr] links_link [OF ch arr] by (simp add: chained_def prev_ok_def)
qed

section \<open>The slots of one name\<close>

definition name_slots :: "('m, 'st) htable \<Rightarrow> hname \<Rightarrow> nat set" where
  "name_slots T n = {k. k < length (tb_slots T) \<and> header_name (headers T ! k) = n}"

text \<open>A slot of the name is the one the array refers to, or is linked from an older one of the name.\<close>

lemma slot_referrer:
  assumes "chained fnv None n0 T" "k \<in> name_slots T n"
  shows "(\<exists>p \<in># stored (tb_indices T). real_idx (tb_inserted T) (pos_index p) = k \<and> pos_name n0 T p = n)
    \<or> (\<exists>j \<in> name_slots T n. \<exists>x. k < j \<and> sl_next (tb_slots T ! j) = Some x \<and> real_idx (tb_inserted T) x = k)"
proof -
  from assms have "k \<in># refs T" by (simp add: chained_def name_slots_def)
  then consider p where "p \<in># stored (tb_indices T)" "real_idx (tb_inserted T) (pos_index p) = k"
    | x where "x \<in># stored (map sl_next (tb_slots T))" "real_idx (tb_inserted T) x = k" by (auto simp: refs_def)
  then show ?thesis
  proof cases
    case 1
    with assms(2) show ?thesis by (intro disjI1 bexI [of _ p]) (auto simp: slot_name_def name_slots_def)
  next
    case 2
    then obtain j where j: "j < length (tb_slots T)" "sl_next (tb_slots T ! j) = Some x" by (auto simp: stored_next)
    with assms(1) 2 have "k < j" "header_name (headers T ! k) = header_name (headers T ! j)"
      by (auto simp: chained_def links_ok_def)
    with j 2 assms(2) show ?thesis by (intro disjI2 bexI [of _ j] exI [of _ x]) (auto simp: name_slots_def)
  qed
qed

lemma head_oldest:
  assumes "chained fnv None n0 T" "p \<in># stored (tb_indices T)" "pos_name n0 T p = n" "k \<in> name_slots T n"
  shows "k \<le> real_idx (tb_inserted T) (pos_index p)"
proof -
  let ?S = "name_slots T n"
  have fin: "finite ?S" by (simp add: name_slots_def)
  have M: "Max ?S \<in> ?S" using Max_in [OF fin] assms(4) by blast
  have "\<not> (\<exists>j \<in> ?S. Max ?S < j)" using Max_ge [OF fin] by (meson not_le)
  with slot_referrer [OF assms(1) M] obtain q where
    q: "q \<in># stored (tb_indices T)" "real_idx (tb_inserted T) (pos_index q) = Max ?S" "pos_name n0 T q = n" by blast
  have "q = p" using assms(1-3) q unfolding chained_def by metis
  with q(2) Max_ge [OF fin assms(4)] show ?thesis by simp
qed

text \<open>The walk is at \<open>r\<close>: every older slot of the name has its link to \<open>r\<close> or an older one.\<close>

definition walk_at :: "('m, 'st) htable \<Rightarrow> hname \<Rightarrow> nat \<Rightarrow> bool" where
  "walk_at T n r \<longleftrightarrow> r \<in> name_slots T n
     \<and> (\<forall>j \<in> name_slots T n. r < j \<longrightarrow> (\<exists>x. sl_next (tb_slots T ! j) = Some x \<and> r \<le> real_idx (tb_inserted T) x))"

lemma walk_newer:
  assumes ch: "chained fnv None n0 T" and p: "p \<in># stored (tb_indices T)" "pos_name n0 T p = n"
    and w: "walk_at T n r" and k: "k \<in> name_slots T n" "k < r"
  shows "\<exists>x. sl_next (tb_slots T ! r) = Some x \<and> k \<le> real_idx (tb_inserted T) x"
proof -
  let ?S = "name_slots T n \<inter> {..<r}"
  have fin: "finite ?S" by simp
  have M: "Max ?S \<in> ?S" using Max_in [OF fin] k by blast
  have "r \<le> real_idx (tb_inserted T) (pos_index p)" using head_oldest [OF ch p] w by (simp add: walk_at_def)
  moreover have "q = p" if "q \<in># stored (tb_indices T)" "pos_name n0 T q = n" for q
    using ch p that unfolding chained_def by metis
  ultimately obtain j x where
    j: "j \<in> name_slots T n" "Max ?S < j" "sl_next (tb_slots T ! j) = Some x" "real_idx (tb_inserted T) x = Max ?S"
    using slot_referrer [OF ch, of "Max ?S" n] M by force
  have "r \<le> j"
  proof (rule ccontr)
    assume "\<not> r \<le> j"
    with j(1) Max_ge [OF fin, of j] have "j \<le> Max ?S" by simp
    with j(2) show False by simp
  qed
  moreover have "\<not> r < j" using w j M by (auto simp: walk_at_def)
  ultimately have "j = r" by simp
  with j(3,4) Max_ge [OF fin, of k] k show ?thesis by auto
qed

lemma walk_step:
  assumes ch: "chained fnv None n0 T" and p: "p \<in># stored (tb_indices T)" "pos_name n0 T p = n"
    and w: "walk_at T n r" and x: "sl_next (tb_slots T ! r) = Some x"
  shows "walk_at T n (real_idx (tb_inserted T) x)" "real_idx (tb_inserted T) x < r"
proof -
  let ?x = "real_idx (tb_inserted T) x"
  have r: "r \<in> name_slots T n" using w by (simp add: walk_at_def)
  with ch x have lt: "?x < r" "header_name (headers T ! ?x) = n"
    by (auto simp: chained_def links_ok_def name_slots_def)
  then show "?x < r" by simp
  have "\<exists>y. sl_next (tb_slots T ! j) = Some y \<and> ?x \<le> real_idx (tb_inserted T) y"
    if j: "j \<in> name_slots T n" "?x < j" for j
  proof -
    consider "j < r" | "j = r" | "r < j" by linarith
    then show ?thesis
    proof cases
      case 1
      with walk_newer [OF ch p w j(1)] x j(2) show ?thesis by auto
    next
      case 3
      with w j(1) lt(1) show ?thesis by (fastforce simp: walk_at_def)
    qed (use x in auto)
  qed
  with lt r show "walk_at T n ?x" by (auto simp: walk_at_def name_slots_def)
qed

lemma header_value_eq_refl [simp]: "header_value_eq h h"
  by (cases h) simp_all

text \<open>The walk finds the header, or ends at the newest slot of the name.\<close>

lemma chain_walk_ok:
  assumes ch: "chained fnv None n0 T" and p: "p \<in># stored (tb_indices T)" "pos_name n0 T p = header_name h"
  shows "walk_at T (header_name h) (real_idx (tb_inserted T) i) \<Longrightarrow>
    (\<forall>k \<in> name_slots T (header_name h). real_idx (tb_inserted T) i < k \<longrightarrow> headers T ! k \<noteq> h) \<Longrightarrow>
    (\<exists>k. chain_walk T h i = okay (ChainMatch k) \<and> k < length (tb_slots T) \<and> headers T ! k = h)
  \<or> h \<notin> set (headers T) \<and> (\<exists>x. chain_walk T h i = okay (ChainEnd x (real_idx (tb_inserted T) x))
      \<and> real_idx (tb_inserted T) x \<in> name_slots T (header_name h)
      \<and> sl_next (tb_slots T ! real_idx (tb_inserted T) x) = None
      \<and> (\<forall>k \<in> name_slots T (header_name h). real_idx (tb_inserted T) x \<le> k))"
proof (induction "real_idx (tb_inserted T) i" arbitrary: i rule: less_induct)
  case less
  let ?r = "real_idx (tb_inserted T) i"
  have r: "?r < length (tb_slots T)" "header_name (headers T ! ?r) = header_name h"
    using less.prems(1) by (simp_all add: walk_at_def name_slots_def)
  have hr: "sl_header (tb_slots T ! ?r) = headers T ! ?r" using r(1) by (simp add: headers_def)
  note cw = chain_walk.simps [of T h i]
  show ?case
  proof (cases "headers T ! ?r = h")
    case True
    with r hr show ?thesis by (intro disjI1 exI [of _ ?r]) (simp add: cw Let_def)
  next
    case False
    then have nv: "\<not> header_value_eq (sl_header (tb_slots T ! ?r)) h"
      using header_name_value_eq [of "headers T ! ?r" h] r(2) hr by auto
    show ?thesis
    proof (cases "sl_next (tb_slots T ! ?r)")
      case None
      have newest: "?r \<le> k" if "k \<in> name_slots T (header_name h)" for k
        using walk_newer [OF ch p less.prems(1) that] None by fastforce
      have "h \<notin> set (headers T)"
      proof
        assume "h \<in> set (headers T)"
        then obtain k where k: "k < length (tb_slots T)" "headers T ! k = h" by (auto simp: in_set_conv_nth)
        then have "k \<in> name_slots T (header_name h)" by (simp add: name_slots_def)
        with newest [OF this] less.prems(2) k False show False by (metis le_neq_implies_less)
      qed
      with None nv r newest less.prems(1) show ?thesis
        by (intro disjI2 conjI exI [of _ i]) (simp_all add: cw Let_def walk_at_def)
    next
      case (Some x)
      note st = walk_step [OF ch p less.prems(1) Some]
      have "headers T ! k \<noteq> h" if k: "k \<in> name_slots T (header_name h)" "real_idx (tb_inserted T) x < k" for k
      proof -
        have "\<not> k < ?r" using walk_newer [OF ch p less.prems(1) k(1)] Some k(2) by auto
        with k(1) less.prems(2) False show ?thesis by (metis linorder_neqE_nat)
      qed
      with less.hyps [OF st(2,1)] Some nv r(1) show ?thesis by (simp add: cw Let_def)
    qed
  qed
qed

section \<open>The search\<close>

lemma hash_header_name: "hash_header fnv h = hash_name fnv (header_name h)"
  by (simp add: hash_header_def hash_name_def)

lemma probe_back_eq:
  assumes "mask_of n m" "i < n"
  shows "int (probe_back m i) = (int i - 1) mod int n" "probe_back m i < n"
proof -
  from assms(1) obtain k where k: "k < 64" "n = 2 ^ k" by (auto simp: mask_of_def)
  then have dv: "int n dvd 2 ^ 64" using le_imp_power_dvd [of k 64 "2 :: int"] by simp
  have "n \<le> 2 ^ 63" using k power_increasing [of k 63 "2 :: nat"] by simp
  with assms(2) have "take_bit 64 i = i" by (intro take_bit_nat_eq_self) simp
  then have "uint (of_nat i - 1 :: u64) = (int i - 1) mod 2 ^ 64"
    by (simp add: uint_word_ariths unsigned_of_nat)
  then have "uint ((of_nat i - 1 :: u64) AND m) = (int i - 1) mod int n"
    using dv by (simp add: uint_and_mask_of [OF assms(1)] mod_mod_cancel)
  then show r: "int (probe_back m i) = (int i - 1) mod int n" by (simp add: probe_back_def)
  then show "probe_back m i < n" using mask_of_pos [OF assms(1)] by (metis of_nat_0_less_iff of_nat_less_iff pos_mod_bound)
qed

lemma probe_back_cell:
  assumes "mask_of (length ix) m" "i < length ix"
  shows "ix ! probe_back m i = cell ix (int i - 1)"
    "int (probe_distance m (pos_hash y) (probe_back m i)) = dist (length ix) y (int i - 1)"
    "dist (length ix) y (int (probe_back m i)) = dist (length ix) y (int i - 1)"
proof -
  note b = probe_back_eq [OF assms]
  have e: "int (probe_back m i) mod int (length ix) = (int i - 1) mod int (length ix)" using b by simp
  show "ix ! probe_back m i = cell ix (int i - 1)" using cell_mod [OF e] cell_nat [OF b(2)] by simp
  show d: "dist (length ix) y (int (probe_back m i)) = dist (length ix) y (int i - 1)" by (rule dist_cong [OF e])
  show "int (probe_distance m (pos_hash y) (probe_back m i)) = dist (length ix) y (int i - 1)"
    using probe_distance_eq [OF assms(1) b(2)] d by simp
qed

text \<open>Where \<open>index_vacant\<close> places the new entry after evictions is still the right place.\<close>

lemma vacant_back_ok:
  assumes m: "mask_of (length ix) m"
  shows "i < length ix \<Longrightarrow> dist (length ix) x (int i) = int d \<Longrightarrow> yields ix (int i) (int d) \<Longrightarrow>
    (let p = vacant_back m ix d i in p < length ix \<and> yields ix (int p) (dist (length ix) x (int p))
       \<and> fits_behind ix (int p) (dist (length ix) x (int p)))"
proof (induction d arbitrary: i)
  case 0
  then show ?case by (simp add: fits_behind_def)
next
  case (Suc d)
  let ?n = "length ix" and ?b = "probe_back m i"
  note b = probe_back_cell [OF m Suc.prems(1)] and bl = probe_back_eq(2) [OF m Suc.prems(1)]
  have "dist ?n x (int i - 1) = int d"
    using dist_back [OF mask_of_pos [OF m], of x "int i - 1"] Suc.prems(2) by simp
  with b(3) have db: "dist ?n x (int ?b) = int d" by simp
  show ?case
  proof (cases "ix ! ?b")
    case None
    with bl have "yields ix (int ?b) (int d)" by (simp add: yields_def cell_nat)
    with Suc.IH [OF bl db] None show ?thesis by simp
  next
    case (Some pos)
    show ?thesis
    proof (cases "probe_distance m (pos_hash pos) ?b < d")
      case True
      with Some bl b(2,3) have "yields ix (int ?b) (int d)"
        by (simp add: yields_def cell_nat) (metis of_nat_less_iff)
      with Suc.IH [OF bl db] Some True show ?thesis by simp
    next
      case False
      with Some b(1,2) have "fits_behind ix (int i) (int (Suc d))"
        unfolding fits_behind_def by (intro disjI2 exI [of _ pos]) (simp, metis not_less of_nat_le_iff)
      with Some False Suc.prems show ?thesis by simp
    qed
  qed
qed

lemma index_step_other:
  assumes ch: "chained fnv None n0 T" and i: "i < length (tb_indices T)" "tb_indices T ! i = Some q"
    and d: "d \<le> probe_distance (tb_mask T) (pos_hash q) i" and n: "pos_name n0 T q \<noteq> header_name h"
  shows "index_step T h hash i d = Inl (d + 1)"
proof -
  have "q \<in># stored (tb_indices T)" using i by (auto simp: stored_cell)
  with chained_bound [OF ch] have "real_idx (tb_inserted T) (pos_index q) < length (tb_slots T)" by fastforce
  with i d n show ?thesis by (auto simp: index_step_def slot_name_def Let_def headers_def)
qed

lemma search_occupied:
  assumes ch: "chained fnv None n0 T" and arr: "arrayed T"
    and p: "p \<in># stored (tb_indices T)" "pos_name n0 T p = header_name h"
  shows "probe_loop (length (tb_indices T)) (index_step T h (hash_header fnv h)) (desired_pos (tb_mask T) (hash_header fnv h)) 0
    = okay (Occupied (pos_index p))"
proof -
  let ?ix = "tb_indices T" and ?m = "tb_mask T" and ?h = "hash_header fnv h"
  have A: "mask_of (length ?ix) ?m" "rh ?ix" using arr by (simp_all add: arrayed_def)
  from p(1) obtain i where i: "i < length ?ix" "?ix ! i = Some p" by (auto simp: stored_cell)
  have h: "pos_hash p = ?h" using ch p by (simp add: chained_def hash_header_name)
  from probe_reach [OF A(2,1) i] obtain K where
    K: "(desired_pos ?m ?h + K) mod length ?ix = i" "int K = dist (length ?ix) p (int i)"
      "\<And>k. k < K \<Longrightarrow> (desired_pos ?m ?h + k) mod length ?ix \<noteq> i
        \<and> (\<exists>y. ?ix ! ((desired_pos ?m ?h + k) mod length ?ix) = Some y
            \<and> k \<le> probe_distance ?m (pos_hash y) ((desired_pos ?m ?h + k) mod length ?ix))" unfolding h by blast
  have n: "0 < length ?ix" using i by linarith
  have "\<exists>r. probe_loop (length ?ix) (index_step T h ?h) (desired_pos ?m ?h) 0 = Some r \<and> r = Ok (Occupied (pos_index p))"
  proof (rule probe_loop_rule [where I = "\<lambda>k d. d = k" and K = K])
    fix k d assume k: "k < K" and d: "d = k"
    let ?j = "(desired_pos ?m ?h + k) mod length ?ix"
    from K(3) [OF k] obtain y where y: "?j \<noteq> i" "?ix ! ?j = Some y" "k \<le> probe_distance ?m (pos_hash y) ?j" by blast
    have j: "?j < length ?ix" using n by simp
    have "pos_name n0 T y \<noteq> header_name h"
    proof
      assume "pos_name n0 T y = header_name h"
      moreover have "y \<in># stored ?ix" using y(2) j by (metis stored_cell)
      ultimately have "y = p" using ch p unfolding chained_def by metis
      with array_inj [OF ch arr j i(1) y(2) i(2)] y(1) show False by simp
    qed
    with index_step_other [OF ch j y(2)] y(3) d show "\<exists>s'. index_step T h ?h ?j d = Inl s' \<and> s' = Suc k" by simp
  next
    fix d assume d: "d = K"
    have "real_idx (tb_inserted T) (pos_index p) < length (tb_slots T)" using chained_bound [OF ch p(1)] by fastforce
    moreover have "probe_distance ?m (pos_hash p) i = K" using K(2) probe_distance_eq [OF A(1) i(1), of p] by simp
    ultimately show "\<exists>r. index_step T h ?h ((desired_pos ?m ?h + K) mod length ?ix) d = Inr r \<and> r = Ok (Occupied (pos_index p))"
      using i(2) K(1) d h p(2) by (simp add: index_step_def slot_name_def Let_def headers_def)
  qed (use n desired_pos_less [OF A(1), of ?h] in auto)
  then show ?thesis by simp
qed

lemma search_vacant:
  assumes ch: "chained fnv None n0 T" and arr: "arrayed T" and x: "pos_hash x = hash_header fnv h"
    and no: "\<And>p. p \<in># stored (tb_indices T) \<Longrightarrow> pos_name n0 T p \<noteq> header_name h"
  shows "\<exists>d i. probe_loop (length (tb_indices T)) (index_step T h (hash_header fnv h)) (desired_pos (tb_mask T) (hash_header fnv h)) 0
      = okay (Vacant d i) \<and> i < length (tb_indices T) \<and> dist (length (tb_indices T)) x (int i) = int d
    \<and> yields (tb_indices T) (int i) (int d) \<and> fits_behind (tb_indices T) (int i) (int d)"
proof -
  let ?ix = "tb_indices T" and ?m = "tb_mask T" and ?h = "hash_header fnv h"
  have A: "mask_of (length ?ix) ?m" "rh ?ix" using arr by (simp_all add: arrayed_def)
  have n: "0 < length ?ix" using mask_of_pos [OF A(1)] .
  from probe_vacant [OF A(2) chained_free [OF ch arr] A(1) x] obtain K where
    K: "let p = (desired_pos ?m ?h + K) mod length ?ix in
         (\<forall>y. ?ix ! p = Some y \<longrightarrow> probe_distance ?m (pos_hash y) p < K)
       \<and> dist (length ?ix) x (int p) = int K \<and> fits_behind ?ix (int p) (int K) \<and> yields ?ix (int p) (int K)"
      "\<And>k. k < K \<Longrightarrow> \<exists>y. ?ix ! ((desired_pos ?m ?h + k) mod length ?ix) = Some y
        \<and> k \<le> probe_distance ?m (pos_hash y) ((desired_pos ?m ?h + k) mod length ?ix)" by blast
  let ?p = "(desired_pos ?m ?h + K) mod length ?ix"
  have "\<exists>r. probe_loop (length ?ix) (index_step T h ?h) (desired_pos ?m ?h) 0 = Some r \<and> r = Ok (Vacant K ?p)"
  proof (rule probe_loop_rule [where I = "\<lambda>k d. d = k" and K = K])
    fix k d assume k: "k < K" and d: "d = k"
    let ?j = "(desired_pos ?m ?h + k) mod length ?ix"
    from K(2) [OF k] obtain y where y: "?ix ! ?j = Some y" "k \<le> probe_distance ?m (pos_hash y) ?j" by blast
    have j: "?j < length ?ix" using n by simp
    with y(1) have "pos_name n0 T y \<noteq> header_name h" using no by (metis stored_cell)
    with index_step_other [OF ch j y(1)] y(2) d show "\<exists>s'. index_step T h ?h ?j d = Inl s' \<and> s' = Suc k" by simp
  next
    fix d assume "d = K"
    with K(1) show "\<exists>r. index_step T h ?h ?p d = Inr r \<and> r = Ok (Vacant K ?p)"
      by (auto simp: index_step_def Let_def split: option.split)
  qed (use n desired_pos_less [OF A(1), of ?h] in auto)
  with K(1) n show ?thesis by (auto simp: Let_def intro!: exI [of _ K] exI [of _ ?p])
qed

section \<open>Growing in time\<close>

text \<open>Only the entries, the slots and the count of insertions matter to the links.\<close>

lemma chained_cong:
  assumes "tb_slots T' = tb_slots T" "tb_inserted T' = tb_inserted T" "stored (tb_indices T') = stored (tb_indices T)"
  shows "chained fnv prev n0 T' \<longleftrightarrow> chained fnv prev n0 T"
proof -
  have h: "headers T' = headers T" using assms(1) by (simp add: headers_def)
  then have "slot_name n0 T' = slot_name n0 T" using assms(1) by (simp add: slot_name_def fun_eq_iff)
  moreover have "refs T' = refs T" "future prev T' = future prev T" using assms by (simp_all add: refs_def future_def split: option.split)
  moreover have "links_ok T' = links_ok T" "prev_ok prev n0 T' = prev_ok prev n0 T"
    using assms h by (simp_all add: links_ok_def prev_ok_def)
  ultimately show ?thesis using assms by (simp only: chained_def)
qed

lemma hsizes_length: "32 * length hs \<le> hsizes e hs"
proof (induction hs)
  case (Cons h hs)
  moreover have "32 \<le> header_len e h" by (cases h) simp_all
  ultimately show ?case by simp
qed simp

lemma mask_of_8: "mask_of 8 (8 - 1)"
  unfolding mask_of_def by (intro exI [of _ 3]) (simp add: mask_eq_exp_minus_1)

lemma rh_replicate: "0 < n \<Longrightarrow> rh (replicate n None)"
  by (simp add: rh_def adj_def cell_def nat_less_iff)

definition ready :: "('m, 'st) ext \<Rightarrow> (hname \<Rightarrow> u64) \<Rightarrow> ('m, 'st) htable \<Rightarrow> bool" where
  "ready e fnv T \<longleftrightarrow> htable_ok e fnv T \<and> arrayed T \<and> (\<forall>n0. chained fnv None n0 T)
     \<and> length (tb_slots T) < htable_capacity T"

lemma reserve_one_ok:
  assumes "htable_ok e fnv T"
  shows "\<exists>T'. reserve_one T = okay T' \<and> ready e fnv T' \<and> tb_slots T' = tb_slots T \<and> tb_inserted T' = tb_inserted T
    \<and> tb_size T' = tb_size T \<and> tb_max_size T' = tb_max_size T"
proof -
  let ?n = "length (tb_indices T)" and ?L = "length (tb_slots T)"
  have size: "tb_size T = hsizes e (headers T)" "tb_size T \<le> tb_max_size T" "tb_max_size T < 2 ^ 32" "distinct (headers T)"
    using assms by (simp_all add: htable_ok_def)
  consider "tb_indices T = []" "tb_slots T = []" | "arrayed T" "\<forall>n0. chained fnv None n0 T"
    using assms by (auto simp: htable_ok_def)
  then show ?thesis
  proof cases
    case 1
    let ?T = "T\<lparr>tb_mask := 8 - 1, tb_indices := replicate 8 None\<rparr>"
    have "reserve_one T = okay ?T" using 1 by (simp add: reserve_one_def htable_capacity_def usable_capacity_def)
    moreover have arr: "arrayed ?T"
      using 1 mask_of_8 rh_replicate [of 8] by (simp add: arrayed_def htable_capacity_def usable_capacity_def)
    moreover have "chained fnv None n0 ?T" for n0
      using 1 by (simp add: chained_def refs_def links_ok_def prev_ok_def) (simp add: stored_def)
    ultimately have "ready e fnv ?T" "reserve_one T = okay ?T" using 1 size
      by (simp_all add: ready_def htable_ok_def headers_def htable_capacity_def usable_capacity_def)
    then show ?thesis by (intro exI [of _ ?T]) simp
  next
    case 2
    show ?thesis
    proof (cases "?L = htable_capacity T")
      case False
      with 2 assms have "ready e fnv T" by (simp add: ready_def arrayed_def)
      with False show ?thesis by (simp add: reserve_one_def)
    next
      case True
      have n: "8 \<le> ?n" "?L = ?n - ?n div 4" using 2(1) True by (simp_all add: arrayed_def htable_capacity_def usable_capacity_def)
      have "32 * ?L \<le> tb_size T" using hsizes_length [of "headers T" e] size(1) by simp
      with size have "32 * ?L < 2 ^ 32" by linarith
      moreover have "3 * ?n \<le> 4 * ?L" using n(2) by linarith
      ultimately have small: "2 * ?n \<le> 2 ^ 32" by simp
      then have "2 * ?n < 2 ^ 64" by simp
      have A: "rh (tb_indices T)" "mask_of ?n (tb_mask T)" "has_free (tb_indices T)"
        using 2 chained_free [of fnv None] by (auto simp: arrayed_def)
      from grow_ok [OF A(1,3,2) \<open>2 * ?n < 2 ^ 64\<close>] obtain m ix where
        g: "grow (tb_mask T) (tb_indices T) (2 * ?n) = okay (m, ix)" "length ix = 2 * ?n" "mask_of (length ix) m" "rh ix"
          "stored ix = stored (tb_indices T)" by blast
      let ?T = "T\<lparr>tb_mask := m, tb_indices := ix\<rparr>"
      have L0: "?L \<noteq> 0" using n by linarith
      then have "reserve_one T = okay ?T" using True g(1) by (simp add: reserve_one_def Let_def)
      moreover have cap: "?L < htable_capacity ?T" using n g(2) by (simp add: htable_capacity_def usable_capacity_def)
      moreover have "arrayed ?T" using g cap small n(1) by (simp add: arrayed_def)
      moreover have "chained fnv None n0 ?T" for n0 using 2(2) g(5) chained_cong [of ?T T] by simp
      ultimately have "ready e fnv ?T" "reserve_one T = okay ?T" using size
        by (simp_all add: ready_def htable_ok_def headers_def htable_capacity_def)
      then show ?thesis by (intro exI [of _ ?T]) simp
    qed
  qed
qed

section \<open>The specification\<close>

definition position :: "'a \<Rightarrow> 'a list \<Rightarrow> nat" where
  "position x xs = length (takeWhile (\<lambda>y. y \<noteq> x) xs)"

definition spec_insert ::
  "('m, 'st) ext \<Rightarrow> nat \<Rightarrow> ('m, 'st, bytes) header \<Rightarrow> ('m, 'st) header_list \<Rightarrow> ('m, 'st) header_list" where
  "spec_insert e mx h hs = h # keep_newest e (mx - header_len e h) hs"

text \<open>
  The header is looked for in the whole list. If it is not there it goes to the front, except for the
  headers that are not to be indexed, those in the static table and large ones; its name is given by the
  static table or by the newest header of the name.
\<close>

definition spec_index ::
  "('m, 'st) ext \<Rightarrow> nat \<Rightarrow> ('m, 'st, bytes) header \<Rightarrow> ('m, 'st) header_list \<Rightarrow>
     ('m, 'st) table_index \<times> ('m, 'st) header_list" where
  "spec_index e mx h hs =
     (let statik = index_static e h in
      if header_skip_value_index e h \<or> map_option snd statik = Some True \<or> header_len e h * 4 > mx * 3
      then (index_new statik h, hs)
      else if h \<in> set hs then (IdxIndexed (position h hs + DYN_OFFSET) h, hs)
      else
        (case statik of
           Some (n, _) \<Rightarrow> IdxInsertedValue n 0
         | None \<Rightarrow>
             if header_name h \<in> header_name ` set hs
             then IdxInsertedValue (position (header_name h) (map header_name hs) + DYN_OFFSET) 0
             else IdxInserted 0,
         spec_insert e mx h hs))"

lemma position_eq: "k < length xs \<Longrightarrow> xs ! k = x \<Longrightarrow> (\<And>j. j < k \<Longrightarrow> xs ! j \<noteq> x) \<Longrightarrow> position x xs = k"
  unfolding position_def by (subst takeWhile_eq_take_P_nth [of k]) auto

lemma not_sensitive [simp]: "\<not> header_is_sensitive h"
  by (simp add: header_is_sensitive_def)

lemma skip_static: "header_skip_value_index e h \<Longrightarrow> index_static e h \<noteq> None"
proof (cases h)
  case (Field n v)
  assume "header_skip_value_index e h"
  with Field obtain c where c: "n = const_header e c"
    "c \<in> {CONTENT_LENGTH, AGE, AUTHORIZATION, ETAG, IF_MODIFIED_SINCE, IF_NONE_MATCH, LOCATION, COOKIE, SET_COOKIE}" by auto
  then have "c \<in> snd ` set static_fields" by (auto simp: static_fields_def)
  then have "n \<in> fst ` set (map (\<lambda>(i, c). (const_header e c, (i, c))) static_fields)" using c(1) by force
  then have "map_of (map (\<lambda>(i, c). (const_header e c, (i, c))) static_fields) n \<noteq> None" by (simp add: map_of_eq_None_iff)
  with Field show ?thesis by (auto split: option.splits)
qed auto

text \<open>The room made for a header.\<close>

lemma update_size_ok:
  assumes r: "ready e fnv T" and ch: "chained fnv prev n0 T" and len: "header_len e h \<le> tb_max_size T"
  shows "\<exists>ret T'. update_size e (header_len e h) prev T = okay (ret, T')
    \<and> headers T' = keep_newest e (tb_max_size T - header_len e h) (headers T)
    \<and> tb_size T' = hsizes e (h # headers T') \<and> tb_size T' \<le> tb_max_size T \<and> tb_max_size T' = tb_max_size T
    \<and> arrayed T' \<and> chained fnv prev n0 T' \<and> evicted_to T T' \<and> length (tb_slots T') < htable_capacity T'
    \<and> (\<not> ret \<longrightarrow> tb_indices T' = tb_indices T)"
proof -
  let ?T = "T\<lparr>tb_size := tb_size T + header_len e h\<rparr>"
  have hs: "headers ?T = headers T" by (simp add: headers_def)
  have "chained fnv prev n0 ?T" using ch chained_cong [of ?T T] by simp
  moreover have "arrayed ?T" using r by (simp add: ready_def arrayed_def htable_capacity_def)
  moreover have "tb_size ?T = hsizes e (headers ?T) + header_len e h" using r hs by (simp add: ready_def htable_ok_def)
  moreover have "header_len e h \<le> tb_max_size ?T" using len by simp
  ultimately obtain ret T' where T': "converge e prev False ?T = okay (ret, T')"
    "headers T' = keep_newest e (tb_max_size ?T - header_len e h) (headers ?T)"
    "tb_size T' = hsizes e (headers T') + header_len e h" "tb_size T' \<le> tb_max_size T'"
    "arrayed T'" "chained fnv prev n0 T'" "evicted_to ?T T'" "\<not> ret \<longrightarrow> T' = ?T" using converge_ok [of fnv prev n0 ?T e] by blast
  have ev: "evicted_to T T'" using T'(7) by (simp add: evicted_to_def)
  moreover have "length (tb_slots T') < htable_capacity T'"
    using ev r by (auto simp: evicted_to_def ready_def htable_capacity_def)
  ultimately show ?thesis using T' hs by (auto simp: update_size_def evicted_to_def)
qed

lemma headers_keep:
  assumes "headers T' = keep_newest e room (headers T)"
  shows "set (headers T') \<subseteq> set (headers T)" "distinct (headers T) \<Longrightarrow> distinct (headers T')"
  using keep_newest_prefix [of e room "headers T"] assms by (auto dest: in_set_takeD)

lemma ready_insert:
  assumes r: "ready e fnv T" and len: "header_len e h \<le> tb_max_size T" and new: "h \<notin> set (headers T)"
    and T': "headers T' = keep_newest e (tb_max_size T - header_len e h) (headers T)"
    and T'': "headers T'' = h # headers T'" "tb_size T'' = hsizes e (h # headers T')" "tb_size T'' \<le> tb_max_size T"
      "tb_max_size T'' = tb_max_size T" "arrayed T''" "\<And>n0. chained fnv None n0 T''"
  shows "htable_ok e fnv T''" "headers T'' = spec_insert e (tb_max_size T) h (headers T)"
proof -
  have "tb_max_size T < 2 ^ 32" "distinct (headers T)" using r by (simp_all add: ready_def htable_ok_def)
  with headers_keep [OF T'] new T'' show "htable_ok e fnv T''" by (auto simp: htable_ok_def)
  show "headers T'' = spec_insert e (tb_max_size T) h (headers T)" using T' T''(1) by (simp add: spec_insert_def)
qed

section \<open>Indexing implements the specification\<close>

lemma pos_name_in:
  assumes "chained fnv None n0 T" "p \<in># stored (tb_indices T)"
  shows "pos_name n0 T p \<in> header_name ` set (headers T)"
  using chained_bound [OF assms] by (auto simp: slot_name_def)

lemma place_vacant:
  assumes r: "ready e fnv T" and T': "evicted_to T T'" "arrayed T'" "chained fnv None (header_name h) T'"
      "\<not> ret \<longrightarrow> tb_indices T' = tb_indices T"
    and i: "i < length (tb_indices T)" "dist (length (tb_indices T)) x (int i) = int d"
      "yields (tb_indices T) (int i) (int d)" "fits_behind (tb_indices T) (int i) (int d)"
  shows "\<exists>ix. place (tb_indices T') (if ret then vacant_back (tb_mask T') (tb_indices T') d i else i) x = Some ix
    \<and> length ix = length (tb_indices T') \<and> rh ix \<and> stored ix = add_mset x (stored (tb_indices T'))"
proof -
  let ?ix = "tb_indices T'" and ?p = "if ret then vacant_back (tb_mask T') (tb_indices T') d i else i"
  have A: "mask_of (length ?ix) (tb_mask T')" "rh ?ix" using T'(2) by (simp_all add: arrayed_def)
  have len: "length ?ix = length (tb_indices T)" "yields ?ix (int i) (int d)" using T'(1) i(3) by (simp_all add: evicted_to_def)
  have "?p < length ?ix \<and> yields ?ix (int ?p) (dist (length ?ix) x (int ?p)) \<and> fits_behind ?ix (int ?p) (dist (length ?ix) x (int ?p))"
  proof (cases ret)
    case True
    with vacant_back_ok [OF A(1), of i x d] i len show ?thesis by (simp add: Let_def)
  qed (use T'(4) i len in simp)
  then obtain p where p: "p = ?p" "p < length ?ix" "yields ?ix (int p) (dist (length ?ix) x (int p))"
    "fits_behind ?ix (int p) (dist (length ?ix) x (int p))" by blast
  from place_rh [OF A(2) chained_free [OF T'(3,2)] p(2-4)] stored_place [of _ x ?ix] show ?thesis
    unfolding p(1) [symmetric] by blast
qed

lemma index_vacant_ok:
  assumes r: "ready e fnv T" and len: "header_len e h \<le> tb_max_size T"
    and new: "header_name h \<notin> header_name ` set (headers T)" and x: "pos_hash x = hash_header fnv h"
    and i: "i < length (tb_indices T)" "dist (length (tb_indices T)) x (int i) = int d"
      "yields (tb_indices T) (int i) (int d)" "fits_behind (tb_indices T) (int i) (int d)"
  shows "\<exists>T'. index_vacant e T h (hash_header fnv h) d i statik
      = okay (case statik of Some (n, _) \<Rightarrow> IdxInsertedValue n 0 | None \<Rightarrow> IdxInserted 0, T')
    \<and> htable_ok e fnv T' \<and> headers T' = spec_insert e (tb_max_size T) h (headers T) \<and> tb_max_size T' = tb_max_size T"
proof -
  let ?h = "hash_header fnv h"
  have ch: "chained fnv None (header_name h) T" and arr: "arrayed T" using r by (simp_all add: ready_def)
  have "d = 0 \<or> tb_indices T ! probe_back (tb_mask T) i \<noteq> None"
    using i(4) probe_back_cell(1) [of "tb_indices T" "tb_mask T" i] i(1) arr by (auto simp: fits_behind_def arrayed_def)
  moreover from update_size_ok [OF r ch len] obtain ret T1 where
    T1: "update_size e (header_len e h) None T = okay (ret, T1)"
      "headers T1 = keep_newest e (tb_max_size T - header_len e h) (headers T)"
      "tb_size T1 = hsizes e (h # headers T1)" "tb_size T1 \<le> tb_max_size T" "tb_max_size T1 = tb_max_size T"
      "arrayed T1" "chained fnv None (header_name h) T1" "evicted_to T T1" "length (tb_slots T1) < htable_capacity T1"
      "\<not> ret \<longrightarrow> tb_indices T1 = tb_indices T" by blast
  let ?p = "if ret then vacant_back (tb_mask T1) (tb_indices T1) d i else i"
  let ?x = "\<lparr>pos_index = 0 - (tb_inserted T1 + 1), pos_hash = ?h\<rparr>"
  have "dist (length (tb_indices T)) ?x (int i) = int d" using i(2) x by (simp add: dist_def)
  from place_vacant [OF r T1(8,6,7,10) i(1) this i(3,4)] obtain ix where
    ix: "place (tb_indices T1) ?p ?x = Some ix" "length ix = length (tb_indices T1)" "rh ix"
      "stored ix = add_mset ?x (stored (tb_indices T1))" by blast
  let ?T = "htable_insert h ?h T1\<lparr>tb_indices := ix\<rparr>"
  have "index_vacant e T h ?h d i statik
      = okay (case statik of Some (n, _) \<Rightarrow> IdxInsertedValue n 0 | None \<Rightarrow> IdxInserted 0, ?T)"
    using calculation T1(1) ix(1) by (simp add: index_vacant_def Let_def)
  moreover have "arrayed ?T" using T1(6,9) ix(2,3) by (simp add: arrayed_def htable_capacity_def)
  moreover have "chained fnv None n0 ?T" for n0
  proof (rule chained_insert_vacant [OF T1(7,6) hash_header_name _ ix(4)])
    fix p assume "p \<in># stored (tb_indices T1)"
    from pos_name_in [OF T1(7) this] headers_keep(1) [OF T1(2)] new
    show "pos_name (header_name h) T1 p \<noteq> header_name h" by auto
  qed
  moreover have "h \<notin> set (headers T)" using new by auto
  ultimately show ?thesis
    using ready_insert [OF r len _ T1(2), of ?T] T1(3-5) by (intro exI [of _ ?T]) simp
qed

lemma index_occupied_ok:
  assumes r: "ready e fnv T" and len: "header_len e h \<le> tb_max_size T"
    and p: "p \<in># stored (tb_indices T)" "pos_name n0 T p = header_name h"
  shows "\<exists>T'. index_occupied e T h (hash_header fnv h) (pos_index p) statik
      = okay (if h \<in> set (headers T) then IdxIndexed (position h (headers T) + DYN_OFFSET) h
              else case statik of
                     Some n \<Rightarrow> IdxInsertedValue n 0
                   | None \<Rightarrow> IdxInsertedValue (position (header_name h) (map header_name (headers T)) + DYN_OFFSET) 0, T')
    \<and> htable_ok e fnv T' \<and> tb_max_size T' = tb_max_size T
    \<and> headers T' = (if h \<in> set (headers T) then headers T else spec_insert e (tb_max_size T) h (headers T))"
proof -
  let ?h = "hash_header fnv h" and ?r = "real_idx (tb_inserted T)" let ?S = "name_slots T (header_name h)"
  have ch: "chained fnv None n0 T" and arr: "arrayed T" using r by (simp_all add: ready_def)
  have old: "k \<le> ?r (pos_index p)" if "k \<in> ?S" for k using head_oldest [OF ch p that] .
  have "?r (pos_index p) \<in> ?S"
    using chained_bound [OF ch p(1)] p(2) by (auto simp: slot_name_def name_slots_def split: if_splits)
  then have "walk_at T (header_name h) (?r (pos_index p))" using old by (auto simp: walk_at_def dest: leD)
  moreover have "\<forall>k \<in> ?S. ?r (pos_index p) < k \<longrightarrow> headers T ! k \<noteq> h" using old by (auto dest: leD)
  ultimately consider (found) k where "chain_walk T h (pos_index p) = okay (ChainMatch k)" "k < length (tb_slots T)" "headers T ! k = h"
    | (missing) x where "h \<notin> set (headers T)" "chain_walk T h (pos_index p) = okay (ChainEnd x (?r x))" "?r x \<in> ?S"
        "sl_next (tb_slots T ! ?r x) = None" "\<forall>k \<in> ?S. ?r x \<le> k" using chain_walk_ok [OF ch p] by blast
  then show ?thesis
  proof cases
    case found
    have "position h (headers T) = k"
    proof (rule position_eq)
      show "headers T ! j \<noteq> h" if "j < k" for j
        using r found that by (auto simp: ready_def htable_ok_def distinct_conv_nth)
    qed (use found in simp_all)
    moreover have "h \<in> set (headers T)" using found by (metis length_headers nth_mem)
    ultimately show ?thesis using found(1) r by (auto simp: index_occupied_def ready_def)
  next
    case missing
    have x: "?r x < length (tb_slots T)" "header_name (headers T ! ?r x) = header_name h" using missing(3) by (simp_all add: name_slots_def)
    have pos: "position (header_name h) (map header_name (headers T)) = ?r x"
    proof (rule position_eq)
      fix j assume j: "j < ?r x"
      with x(1) have "j \<in> ?S \<or> header_name (headers T ! j) \<noteq> header_name h" by (auto simp: name_slots_def)
      with missing(5) j x(1) show "map header_name (headers T) ! j \<noteq> header_name h" by (auto dest: leD)
    qed (use x in simp_all)
    have "chained fnv None (header_name h) T" using r by (simp add: ready_def)
    then have "chained fnv (Some x) (header_name h) T"
      using x missing(4) arrayed_slots [OF arr] by (simp add: chained_def future_def prev_ok_def)
    from update_size_ok [OF r this len] obtain ret T1 where
      T1: "update_size e (header_len e h) (Some x) T = okay (ret, T1)"
        "headers T1 = keep_newest e (tb_max_size T - header_len e h) (headers T)"
        "tb_size T1 = hsizes e (h # headers T1)" "tb_size T1 \<le> tb_max_size T" "tb_max_size T1 = tb_max_size T"
        "arrayed T1" "chained fnv (Some x) (header_name h) T1" "length (tb_slots T1) < htable_capacity T1" by blast
    let ?T = "link_new x (htable_insert h ?h T1)"
    have "index_occupied e T h ?h (pos_index p) statik
        = okay (case statik of Some n \<Rightarrow> IdxInsertedValue n 0 | None \<Rightarrow> IdxInsertedValue (?r x + DYN_OFFSET) 0, ?T)"
      using missing(2) T1(1) by (simp add: index_occupied_def)
    moreover have "arrayed ?T" using T1(6,8) by (simp add: arrayed_def htable_capacity_def)
    ultimately show ?thesis
      using ready_insert [OF r len missing(1) T1(2), of ?T] chained_insert_occupied [OF T1(7,6) hash_header_name] T1(3-5) pos missing(1)
      by (intro exI [of _ ?T]) (simp split: option.split)
  qed
qed

text \<open>
  \<open>Table::index\<close>: the index returned and the headers left are those of the specification, and the
  invariant is kept; in particular the call returns.
\<close>

lemma htable_index_ok:
  assumes ok: "htable_ok e fnv T"
  shows "\<exists>i T'. htable_index e fnv h T = okay (i, T') \<and> (i, headers T') = spec_index e (tb_max_size T) h (headers T)
    \<and> htable_ok e fnv T' \<and> tb_max_size T' = tb_max_size T"
proof -
  let ?st = "index_static e h"
  consider "header_skip_value_index e h" | n where "\<not> header_skip_value_index e h" "?st = Some (n, True)"
    | "\<not> header_skip_value_index e h" "\<nexists>n. ?st = Some (n, True)" "header_len e h * 4 > tb_max_size T * 3"
    | (dyn) "\<not> header_skip_value_index e h" "\<nexists>n. ?st = Some (n, True)" "header_len e h * 4 \<le> tb_max_size T * 3"
    using not_less [of "tb_max_size T * 3" "header_len e h * 4"] by blast
  then show ?thesis
  proof cases
    case dyn
    then have dyn': "htable_index e fnv h T = index_dynamic e fnv h ?st T"
      by (auto simp: htable_index_def Let_def split: option.split bool.split)
    have len: "header_len e h \<le> tb_max_size T" using dyn(3) by simp
    from reserve_one_ok [OF ok] obtain T1 where T1: "reserve_one T = okay T1" "ready e fnv T1" "tb_slots T1 = tb_slots T"
      "tb_max_size T1 = tb_max_size T" by blast
    have hs: "headers T1 = headers T" using T1(3) by (simp add: headers_def)
    have ch: "chained fnv None n0 T1" and arr: "arrayed T1" for n0 using T1(2) by (simp_all add: ready_def)
    have ne: "tb_indices T1 \<noteq> []" using arr by (auto simp: arrayed_def)
    let ?loop = "probe_loop (length (tb_indices T1)) (index_step T1 h (hash_header fnv h)) (desired_pos (tb_mask T1) (hash_header fnv h)) 0"
    have eq: "index_dynamic e fnv h ?st T = obind ?loop (\<lambda>r. case r of
        Vacant d probe \<Rightarrow> index_vacant e T1 h (hash_header fnv h) d probe ?st
      | Occupied index \<Rightarrow> index_occupied e T1 h (hash_header fnv h) index (map_option fst ?st))"
      using T1(1) ne by (simp add: index_dynamic_def Let_def)
    show ?thesis
    proof (cases "header_name h \<in> header_name ` set (headers T)")
      case True
      then obtain k where k: "k \<in> name_slots T1 (header_name h)" using hs by (auto simp: name_slots_def in_set_conv_nth T1(3))
      have "\<exists>p \<in># stored (tb_indices T1). pos_name NStatus T1 p = header_name h"
      proof -
        have fin: "finite (name_slots T1 (header_name h))" by (simp add: name_slots_def)
        have "Max (name_slots T1 (header_name h)) \<in> name_slots T1 (header_name h)" using Max_in [OF fin] k by blast
        from slot_referrer [OF ch this] Max_ge [OF fin] show ?thesis by (metis leD)
      qed
      then obtain p where p: "p \<in># stored (tb_indices T1)" "pos_name NStatus T1 p = header_name h" by blast
      from index_occupied_ok [OF T1(2) _ p, of "map_option fst ?st"] search_occupied [OF ch arr p] len T1(4) hs eq dyn dyn' True
      show ?thesis by (auto simp: spec_index_def Let_def split: option.split)
    next
      case False
      let ?x = "\<lparr>pos_index = 0, pos_hash = hash_header fnv h\<rparr>"
      have "pos_name NStatus T1 p \<noteq> header_name h" if "p \<in># stored (tb_indices T1)" for p
        using pos_name_in [OF ch that, of NStatus] False hs by auto
      from search_vacant [OF ch arr, of ?x h NStatus, OF _ this] obtain d i where
        di: "?loop = okay (Vacant d i)" "i < length (tb_indices T1)" "dist (length (tb_indices T1)) ?x (int i) = int d"
          "yields (tb_indices T1) (int i) (int d)" "fits_behind (tb_indices T1) (int i) (int d)" by auto
      have "h \<notin> set (headers T)" using False by auto
      with index_vacant_ok [OF T1(2), of h ?x i d ?st] di len T1(4) hs eq dyn dyn' False
      show ?thesis by (auto simp: spec_index_def Let_def split: option.split)
    qed
  qed (use ok skip_static [of e h] in \<open>auto simp: htable_index_def spec_index_def Let_def index_new_def split: option.splits bool.splits\<close>)
qed

section \<open>New tables and new limits\<close>

lemma power_of_two_from_ex:
  "\<exists>j. power_of_two_from k n = 2 ^ j \<and> k \<le> j \<and> (j = k \<or> 2 ^ j < 2 * n)"
proof (induction k n rule: power_of_two_from.induct)
  case (1 k n)
  show ?case
  proof (cases "n \<le> 2 ^ k")
    case False
    with 1 obtain j where j: "power_of_two_from (Suc k) n = 2 ^ j" "Suc k \<le> j" "j = Suc k \<or> 2 ^ j < 2 * n" by blast
    from j(3) False have "2 ^ j < 2 * n" by auto
    with False j show ?thesis by (intro exI [of _ j]) (simp add: power_of_two_from.simps [of k n])
  qed (simp add: power_of_two_from.simps [of k n])
qed

lemma chained_empty: "tb_slots T = [] \<Longrightarrow> stored (tb_indices T) = {#} \<Longrightarrow> chained fnv None n0 T"
  by (simp add: chained_def refs_def links_ok_def prev_ok_def) (simp add: stored_def)

lemma mask_of_power: "k < 64 \<Longrightarrow> mask_of (2 ^ k) (of_nat (2 ^ k) - 1)"
  unfolding mask_of_def by (intro exI [of _ k]) (simp add: mask_eq_exp_minus_1)

lemma htable_new_ok:
  assumes "mx < 2 ^ 32" "cap \<le> 2 ^ 30" and new: "T = htable_new mx cap"
  shows "htable_ok e fnv T" "headers T = []" "tb_max_size T = mx"
proof -
  let ?T = T
  show hs: "headers T = []" and mx: "tb_max_size T = mx"
    by (simp_all add: new htable_new_def headers_def Let_def)
  show "htable_ok e fnv ?T"
  proof (cases "cap = 0")
    case True
    then show ?thesis using assms by (simp add: htable_new_def htable_ok_def headers_def)
  next
    case False
    let ?c = "max (next_power_of_two (to_raw_capacity cap)) 8"
    obtain j where j: "next_power_of_two (to_raw_capacity cap) = 2 ^ j" "j = 0 \<or> 2 ^ j < 2 * to_raw_capacity cap"
      using power_of_two_from_ex [of 0 "to_raw_capacity cap"] by (auto simp: next_power_of_two_def)
    have "(2 :: nat) ^ j < 2 ^ 32" using j(2) assms(2) by (auto simp: to_raw_capacity_def)
    then have "j < 32" by (rule power_less_imp_less_exp [rotated]) simp
    define k where "k = max j 3"
    have k: "?c = 2 ^ k" "k < 64" "3 \<le> k" "k \<le> 32"
    proof -
      show "?c = 2 ^ k"
        using j(1) power_increasing [of j 3 "2 :: nat"] power_increasing [of 3 j "2 :: nat"]
        by (cases "j \<le> 3") (simp_all add: k_def max_def)
    qed (use \<open>j < 32\<close> in \<open>auto simp: k_def\<close>)
    have T: "tb_mask ?T = of_nat (2 ^ k) - 1" "tb_indices ?T = replicate (2 ^ k) None" "tb_slots ?T = []" "tb_size ?T = 0"
      using False k(1) by (simp_all add: new htable_new_def Let_def)
    have "8 \<le> (2 :: nat) ^ k" "(2 :: nat) ^ k \<le> 2 ^ 32"
      using power_increasing [OF k(3), of "2 :: nat"] power_increasing [OF k(4), of "2 :: nat"] by simp_all
    with T have "arrayed ?T" using rh_replicate [of "2 ^ k"] mask_of_power [OF k(2)] by (simp add: arrayed_def)
    moreover have "chained fnv None n0 ?T" for n0 by (rule chained_empty) (use T in simp_all)
    ultimately show ?thesis using hs mx T assms(1) by (simp add: htable_ok_def)
  qed
qed

lemma keep_newest_0: "keep_newest e 0 hs = []"
proof (cases hs)
  case (Cons h hs')
  moreover have "header_len e h \<noteq> 0" by (cases h) simp_all
  ultimately show ?thesis by simp
qed simp

lemma htable_resize_ok:
  assumes ok: "htable_ok e fnv T" and n: "n < 2 ^ 32"
  shows "\<exists>T'. htable_resize e n T = okay T' \<and> headers T' = keep_newest e n (headers T)
    \<and> htable_ok e fnv T' \<and> tb_max_size T' = n"
proof -
  let ?T = "T\<lparr>tb_max_size := n\<rparr>"
  have hs: "headers ?T = headers T" by (simp add: headers_def)
  have size: "tb_size T = hsizes e (headers T)" "distinct (headers T)" using ok by (simp_all add: htable_ok_def)
  show ?thesis
  proof (cases "n = 0")
    case True
    let ?E = "?T\<lparr>tb_size := 0, tb_indices := map (\<lambda>_. None) (tb_indices T), tb_slots := [], tb_inserted := 0\<rparr>"
    have "chained fnv None n0 ?E" for n0 by (rule chained_empty) (simp_all add: map_replicate_const)
    moreover have "arrayed ?E" if "arrayed T"
    proof -
      have "0 < length (tb_indices T)" using that unfolding arrayed_def by linarith
      from that rh_replicate [OF this] show ?thesis by (simp add: arrayed_def htable_capacity_def map_replicate_const)
    qed
    ultimately have "htable_ok e fnv ?E" using ok True by (auto simp: htable_ok_def headers_def)
    with True show ?thesis by (intro exI [of _ ?E]) (simp add: htable_resize_def headers_def keep_newest_0)
  next
    case False
    have "\<exists>ret T'. converge e None False ?T = okay (ret, T') \<and> headers T' = keep_newest e n (headers T)
      \<and> htable_ok e fnv T' \<and> tb_max_size T' = n"
    proof (cases "tb_indices T = [] \<and> tb_slots T = []")
      case True
      with ok n False size show ?thesis
        by (intro exI [of _ False] exI [of _ ?T]) (simp add: converge.simps [of e None False ?T] htable_ok_def headers_def)
    next
      case False
      with ok have "arrayed ?T" "chained fnv None n0 ?T" for n0
        using chained_cong [of ?T T] by (auto simp: htable_ok_def arrayed_def htable_capacity_def)
      note A = this
      have "tb_size ?T = hsizes e (headers ?T) + 0" "0 \<le> tb_max_size ?T" using hs size by simp_all
      from converge_ok [where ret = False, OF A(2) [of NStatus] A(1) this] obtain ret T' where
        T': "converge e None False ?T = okay (ret, T')" "headers T' = keep_newest e n (headers T)"
          "tb_size T' = hsizes e (headers T')" "tb_size T' \<le> tb_max_size T'" "arrayed T'" "chained fnv None NStatus T'"
          "evicted_to ?T T'" by (auto simp: hs)
      have "chained fnv None n0 T'" for n0
      proof -
        have "slot_name n0 T' (real_idx (tb_inserted T') (pos_index p)) = slot_name NStatus T' (real_idx (tb_inserted T') (pos_index p))"
          if "p \<in># stored (tb_indices T')" for p
          using chained_bound [OF T'(6) that] by (simp add: slot_name_def)
        with T'(6) show ?thesis by (simp add: chained_def prev_ok_def)
      qed
      with T' n headers_keep(2) [OF T'(2)] size(2) show ?thesis by (auto simp: htable_ok_def evicted_to_def)
    qed
    with False show ?thesis by (auto simp: htable_resize_def)
  qed
qed

section \<open>Any sequence of calls\<close>

datatype ('m, 'st) table_call = CallIndex "('m, 'st, bytes) header" | CallResize nat

text \<open>The calls run one after the other, on the table and on the list; the indices they answer, in order.\<close>

fun run_table ::
  "('m, 'st) ext \<Rightarrow> (hname \<Rightarrow> u64) \<Rightarrow> ('m, 'st) table_call list \<Rightarrow> ('m, 'st) htable \<Rightarrow>
     (('m, 'st) table_index list \<times> ('m, 'st) htable) outcome" where
  "run_table e fnv [] T = okay ([], T)"
| "run_table e fnv (CallIndex h # cs) T =
     obind (htable_index e fnv h T) (\<lambda>(i, T1). obind (run_table e fnv cs T1) (\<lambda>(is, T2). okay (i # is, T2)))"
| "run_table e fnv (CallResize n # cs) T = obind (htable_resize e n T) (run_table e fnv cs)"

fun spec_run ::
  "('m, 'st) ext \<Rightarrow> nat \<Rightarrow> ('m, 'st) table_call list \<Rightarrow> ('m, 'st) header_list \<Rightarrow>
     ('m, 'st) table_index list \<times> ('m, 'st) header_list" where
  "spec_run e mx [] hs = ([], hs)"
| "spec_run e mx (CallIndex h # cs) hs =
     (let (i, hs1) = spec_index e mx h hs; (is, hs2) = spec_run e mx cs hs1 in (i # is, hs2))"
| "spec_run e mx (CallResize n # cs) hs = spec_run e n cs (keep_newest e n hs)"

lemma run_table_ok:
  assumes "htable_ok e fnv T" "\<forall>n. CallResize n \<in> set cs \<longrightarrow> n < 2 ^ 32"
  shows "\<exists>is T'. run_table e fnv cs T = okay (is, T') \<and> (is, headers T') = spec_run e (tb_max_size T) cs (headers T)
    \<and> htable_ok e fnv T'"
  using assms
proof (induction cs arbitrary: T)
  case (Cons c cs)
  show ?case
  proof (cases c)
    case (CallIndex h)
    from htable_index_ok [OF Cons.prems(1), of h] obtain i T1 where
      1: "htable_index e fnv h T = okay (i, T1)" "(i, headers T1) = spec_index e (tb_max_size T) h (headers T)"
        "htable_ok e fnv T1" "tb_max_size T1 = tb_max_size T" by blast
    from Cons.IH [OF 1(3)] Cons.prems(2) obtain "is" T2 where
      2: "run_table e fnv cs T1 = okay (is, T2)" "(is, headers T2) = spec_run e (tb_max_size T1) cs (headers T1)"
        "htable_ok e fnv T2" by auto
    have "spec_run e (tb_max_size T) cs (headers T1) = (is, headers T2)"
      "spec_index e (tb_max_size T) h (headers T) = (i, headers T1)" using 1(2,4) 2(2) by simp_all
    with 1(1) 2(1,3) CallIndex show ?thesis by simp
  next
    case (CallResize n)
    with Cons.prems(2) have "n < 2 ^ 32" by simp
    from htable_resize_ok [OF Cons.prems(1) this] obtain T1 where
      1: "htable_resize e n T = okay T1" "headers T1 = keep_newest e n (headers T)" "htable_ok e fnv T1" "tb_max_size T1 = n"
      by blast
    from Cons.IH [OF 1(3)] Cons.prems(2) 1 CallResize show ?thesis by simp
  qed
qed simp

end
