(* ===== verification/Hpack_Codec.thy ===== *)
theory Hpack_Codec
  imports Hpack_Table_Spec
begin

text \<open>
  The HPACK encoder as a whole (\<open>Encoder\<close> in \<open>hpack/encoder.rs\<close>): size updates, then every header
  through the table and the representation its index asks for. The table enters as an interface: what a
  table promises that keeps a list of headers. Whatever the encoder writes, the decoder reads back, and
  afterwards the two dynamic tables hold the same headers.
\<close>

section \<open>The encoder\<close>

record ('m, 'st) hpack_encoder =
  he_table :: "('m, 'st) htable"
  he_size_update :: "size_update option"

definition encoder_new :: "nat \<Rightarrow> nat \<Rightarrow> ('m, 'st) hpack_encoder" where
  "encoder_new max_size cap = \<lparr>he_table = htable_new max_size cap, he_size_update = None\<rparr>"

definition encoder_default :: "('m, 'st) hpack_encoder" where
  "encoder_default = encoder_new 4096 0"

definition encoder_update_max_size :: "nat \<Rightarrow> ('m, 'st) hpack_encoder \<Rightarrow> ('m, 'st) hpack_encoder" where
  "encoder_update_max_size v enc =
     enc\<lparr>he_size_update := update_max_size (tb_max_size (he_table enc)) v (he_size_update enc)\<rparr>"

definition encoder_size_updates ::
  "('m, 'st) ext \<Rightarrow> ('m, 'st) hpack_encoder \<Rightarrow> bytes \<Rightarrow> (bytes \<times> ('m, 'st) hpack_encoder) outcome" where
  "encoder_size_updates e enc dst =
     (case he_size_update enc of
        Some (SizeUpdateOne v) \<Rightarrow>
          obind (htable_resize e v (he_table enc)) (\<lambda>T.
          okay (encode_size_update v dst, \<lparr>he_table = T, he_size_update = None\<rparr>))
      | Some (SizeUpdateTwo mn mx) \<Rightarrow>
          obind (htable_resize e mn (he_table enc)) (\<lambda>T.
          obind (htable_resize e mx T) (\<lambda>T'.
          okay (encode_size_update mx (encode_size_update mn dst), \<lparr>he_table = T', he_size_update = None\<rparr>)))
      | None \<Rightarrow> okay (dst, enc))"

text \<open>The loop over the headers, with the index of the last header that had a name.\<close>

fun encode_headers ::
  "('m, 'st) ext \<Rightarrow> (hname \<Rightarrow> u64) \<Rightarrow> ('m, 'st, bytes option) header list \<Rightarrow> ('m, 'st) table_index option \<Rightarrow>
     ('m, 'st) htable \<Rightarrow> bytes \<Rightarrow> (bytes \<times> ('m, 'st) htable) outcome" where
  "encode_headers e fnv [] last_index T dst = okay (dst, T)"
| "encode_headers e fnv (h # hs) last_index T dst =
     (case header_reify h of
        Inl header \<Rightarrow>
          obind (htable_index e fnv header T) (\<lambda>(index, T').
          obind (Some (encode_header e (headers T') index dst)) (\<lambda>dst'.
          encode_headers e fnv hs (Some index) T' dst'))
      | Inr value \<Rightarrow>
          (case last_index of
             None \<Rightarrow> Some Panic
           | Some index \<Rightarrow>
               obind (Some (encode_header_without_name (headers T) index value dst)) (\<lambda>dst'.
               encode_headers e fnv hs last_index T dst')))"

definition encoder_encode ::
  "('m, 'st) ext \<Rightarrow> (hname \<Rightarrow> u64) \<Rightarrow> ('m, 'st, bytes option) header list \<Rightarrow> ('m, 'st) hpack_encoder \<Rightarrow> bytes \<Rightarrow>
     (bytes \<times> ('m, 'st) hpack_encoder) outcome" where
  "encoder_encode e fnv hs enc dst =
     obind (encoder_size_updates e enc dst) (\<lambda>(dst1, enc1).
     obind (encode_headers e fnv hs None (he_table enc1) dst1) (\<lambda>(dst2, T).
     okay (dst2, enc1\<lparr>he_table := T\<rparr>)))"

section \<open>Two tables in step\<close>

definition in_sync :: "('m, 'st) ext \<Rightarrow> ('m, 'st) dtable \<Rightarrow> ('m, 'st) header_list \<Rightarrow> nat \<Rightarrow> bool" where
  "in_sync e t hs mx \<longleftrightarrow> dtable_ok e t \<and> dt_entries t = hs \<and> dt_max_size t = mx"

text \<open>The decoder's eviction leaves the newest headers that fit.\<close>

lemma keep_newest_take:
  "n \<le> length hs \<Longrightarrow> hsizes e (take n hs) \<le> room \<Longrightarrow> (n < length hs \<Longrightarrow> room < hsizes e (take (Suc n) hs)) \<Longrightarrow>
     keep_newest e room hs = take n hs"
proof (induction hs arbitrary: n room)
  case (Cons h hs)
  show ?case
  proof (cases n)
    case (Suc m)
    have "header_len e h \<le> room" using Cons.prems(2) Suc by simp
    moreover have "keep_newest e (room - header_len e h) hs = take m hs"
    proof (rule Cons.IH)
      show "room - header_len e h < hsizes e (take (Suc m) hs)" if "m < length hs"
        using Cons.prems(3) that Suc \<open>header_len e h \<le> room\<close> by (simp add: less_diff_conv2)
    qed (use Cons.prems Suc in simp_all)
    ultimately show ?thesis using Suc by simp
  qed (use Cons.prems in simp)
qed simp

lemma dtable_ok_hsizes: "dtable_ok e t \<longleftrightarrow> dt_size t = hsizes e (dt_entries t) \<and> dt_size t \<le> dt_max_size t"
  by (simp add: dtable_ok_def hsizes_def)

lemma dtable_insert_sync:
  assumes "in_sync e t hs mx" "header_len e h \<le> mx"
  shows "in_sync e (dtable_insert e h t) (spec_insert e mx h hs) mx"
proof -
  let ?len = "header_len e h" let ?t = "dtable_reserve e ?len t" let ?n = "length (dt_entries ?t)"
  have t: "dtable_ok e t" "dt_entries t = hs" "dt_max_size t = mx" using assms(1) by (simp_all add: in_sync_def)
  then have "dtable_sized e t" by (simp add: dtable_ok_sized)
  from dtable_reserve_spec [OF this, of ?len] have
    r: "dtable_sized e ?t" "dt_max_size ?t = mx" "dt_entries ?t = take ?n hs" "?n \<le> length hs"
      "dt_size ?t + ?len \<le> mx \<or> dt_entries ?t = []"
      "?n < length hs \<longrightarrow> hsizes e (take (Suc ?n) hs) + ?len > mx"
    by (simp_all add: t Let_def hsizes_def)
  have sz: "dt_size ?t = hsizes e (take ?n hs)"
    using r(1) unfolding dtable_sized_def hsizes_def by (subst (asm) r(3)) simp
  have fit: "dt_size ?t + ?len \<le> mx"
  proof (cases "dt_entries ?t = []")
    case True
    with sz assms(2) show ?thesis by simp
  qed (use r(5) in blast)
  have "keep_newest e (mx - ?len) hs = take ?n hs"
  proof (rule keep_newest_take [OF r(4)])
    show "hsizes e (take ?n hs) \<le> mx - ?len" using sz fit by simp
    show "mx - ?len < hsizes e (take (Suc ?n) hs)" if "?n < length hs" using r(6) that assms(2) by simp
  qed
  then have "dt_entries ?t = keep_newest e (mx - ?len) hs" using r(3) by metis
  with r(2) fit t dtable_insert_ok [OF t(1), of h] show ?thesis
    by (simp add: in_sync_def dtable_insert_def Let_def spec_insert_def)
qed

lemma dtable_consolidate_entries:
  "dtable_sized e t \<Longrightarrow> dtable_consolidate e t = Ok t' \<Longrightarrow> dt_entries t' = keep_newest e (dt_max_size t) (dt_entries t)"
proof (induction e t rule: dtable_consolidate.induct)
  case (1 e t)
  have size: "dt_size t = hsizes e (dt_entries t)" using 1(2) by (simp add: dtable_sized_def hsizes_def)
  show ?case
  proof (cases "dt_size t > dt_max_size t")
    case True
    then have ne: "dt_entries t \<noteq> []" using size by auto
    with True 1(3) have "dtable_consolidate e (dtable_pop_back e t) = Ok t'" by (simp add: dtable_consolidate.simps [of e t])
    from 1(1) [OF True ne dtable_pop_back_sized [OF 1(2) ne] this] keep_newest_butlast [of "dt_max_size t" e "dt_entries t"] True size
    show ?thesis by (simp add: dtable_pop_back_def)
  next
    case False
    with 1(3) size show ?thesis by (simp add: dtable_consolidate.simps [of e t] keep_newest_all)
  qed
qed

lemma dtable_set_max_size_sync:
  assumes "in_sync e t hs mx"
  shows "\<exists>t'. dtable_set_max_size e n t = Ok t' \<and> in_sync e t' (keep_newest e n hs) n"
proof -
  have sized: "dtable_sized e t" using assms by (simp add: in_sync_def dtable_ok_sized)
  from dtable_set_max_size_ok [OF this, of n] obtain t' where
    t': "dtable_set_max_size e n t = Ok t'" "dtable_ok e t'" "dt_max_size t' = n" by blast
  have "dtable_sized e (t\<lparr>dt_max_size := n\<rparr>)" using sized by (simp add: dtable_sized_def)
  from dtable_consolidate_entries [OF this, of t'] t'(1) assms have "dt_entries t' = keep_newest e n hs"
    by (simp add: dtable_set_max_size_def in_sync_def)
  with t' show ?thesis by (auto simp: in_sync_def)
qed

section \<open>The choice of an index is sound\<close>

text \<open>
  The value of \<open>accept-encoding\<close> is compared with the static entry without regard to case; only when the
  case is the same does the index stand for the header.
\<close>

definition exact_value :: "('m, 'st) ext \<Rightarrow> ('m, 'st, bytes) header \<Rightarrow> bool" where
  "exact_value e h \<longleftrightarrow> (\<forall>v. h = Field (const_header e ACCEPT_ENCODING) v \<longrightarrow>
     bytes_str_eq v (str ''gzip, deflate'') \<longrightarrow> v = str ''gzip, deflate'')"

lemma static_sound:
  assumes "ext_status_ok e" "exact_value e h" "index_static e h = Some (i, b)"
  shows "0 < i" "i \<le> 61" "\<exists>g. dtable_get e t i = Ok g \<and> header_name g = header_name h" "b \<Longrightarrow> dtable_get e t i = Ok h"
proof -
  from index_static_name [OF assms(3)] show i: "0 < i" "i \<le> 61" and "\<exists>g. dtable_get e t i = Ok g \<and> header_name g = header_name h"
    by (auto simp: dtable_get_def)
  show "dtable_get e t i = Ok h" if b
  proof -
    have "v = str ''gzip, deflate''" if h: "h = Field (const_header e ACCEPT_ENCODING) v" for v
    proof -
      from index_static_field [of e "const_header e ACCEPT_ENCODING" v i True] assms(3) \<open>b\<close> h
      have "bytes_str_eq v (str ''gzip, deflate'')" by auto
      with assms(2) h show ?thesis by (simp add: exact_value_def)
    qed
    with index_static_full [OF assms(1), of h i] assms(3) \<open>b\<close> i show ?thesis by (simp add: dtable_get_def)
  qed
qed

lemma position_nth: "x \<in> set xs \<Longrightarrow> position x xs < length xs \<and> xs ! position x xs = x"
proof -
  assume x: "x \<in> set xs"
  then have "takeWhile (\<lambda>y. y \<noteq> x) xs \<noteq> xs" by (auto simp: takeWhile_eq_all_conv)
  then have lt: "position x xs < length xs"
    unfolding position_def by (metis le_neq_implies_less length_takeWhile_le takeWhile_eq_take take_all_iff le_refl)
  with nth_length_takeWhile [of "\<lambda>y. y \<noteq> x" xs] show ?thesis by (simp add: position_def)
qed

lemma dynamic_get: "k < length (dt_entries t) \<Longrightarrow> dtable_get e t (k + DYN_OFFSET) = Ok (dt_entries t ! k)"
  by (simp add: dtable_get_def DYN_OFFSET_def)

lemma spec_index_sound:
  assumes ext: "ext_status_ok e" and h: "exact_value e h" and sync: "in_sync e t hs mx" and mx: "mx < 2 ^ 32"
    and idx: "spec_index e mx h hs = (i, hs')"
  shows "index_sound e t hs' i h \<and> in_sync e (if index_inserts i then dtable_insert e h t else t) hs' mx"
proof -
  have "32 * length hs \<le> mx" using hsizes_length [of hs e] sync by (auto simp: in_sync_def dtable_ok_hsizes)
  with mx have small: "length hs + DYN_OFFSET < 2 ^ 28" by (simp add: DYN_OFFSET_def)
  have es: "dt_entries t = hs" using sync by (simp add: in_sync_def)
  have dyn: "0 < k + DYN_OFFSET \<and> k + DYN_OFFSET < 2 ^ 28 \<and> dtable_get e t (k + DYN_OFFSET) = Ok (hs ! k)"
    if "k < length hs" for k
    using that small dynamic_get [of k t e] es by (simp add: DYN_OFFSET_def)
  consider "(i, hs') = (index_new (index_static e h) h, hs)"
    | "h \<in> set hs" "i = IdxIndexed (position h hs + DYN_OFFSET) h" "hs' = hs"
    | "header_len e h \<le> mx" "hs' = spec_insert e mx h hs"
      "i = (case index_static e h of
           Some (n, _) \<Rightarrow> IdxInsertedValue n 0
         | None \<Rightarrow>
             if header_name h \<in> header_name ` set hs
             then IdxInsertedValue (position (header_name h) (map header_name hs) + DYN_OFFSET) 0
             else IdxInserted 0)"
  proof -
    let ?c = "header_skip_value_index e h \<or> map_option snd (index_static e h) = Some True \<or> header_len e h * 4 > mx * 3"
    show thesis
    proof (cases ?c)
      case True
      with idx have "(i, hs') = (index_new (index_static e h) h, hs)" by (simp only: spec_index_def Let_def if_True)
      then show thesis by (rule that(1))
    next
      case no: False
      then have "header_len e h \<le> mx" by simp
      show thesis
      proof (cases "h \<in> set hs")
        case True
        with idx no have "(i, hs') = (IdxIndexed (position h hs + DYN_OFFSET) h, hs)"
          by (simp only: spec_index_def Let_def if_False if_True)
        with True that(2) show thesis by simp
      next
        case False
        note idx' = idx [unfolded spec_index_def Let_def if_not_P [OF no] if_not_P [OF False], symmetric]
        show thesis by (rule that(3)) (use \<open>header_len e h \<le> mx\<close> idx' in simp_all)
      qed
    qed
  qed
  then show ?thesis
  proof cases
    case 1
    have "index_sound e t hs (index_new (index_static e h) h) h \<and> \<not> index_inserts (index_new (index_static e h) h)"
    proof (cases "index_static e h")
      case None
      then show ?thesis by (simp add: index_new_def index_sound_def index_inserts_def)
    next
      case (Some nb)
      obtain n b where nb: "nb = (n, b)" by fastforce
      then have "index_static e h = Some (n, b)" using Some by simp
      note st = static_sound [OF ext h this]
      show ?thesis
      proof (cases b)
        case True
        have "dtable_get e t n = Ok h" "n < 2 ^ 28" using st True by simp_all
        with Some nb True show ?thesis by (simp add: index_new_def index_sound_def index_inserts_def)
      next
        case False
        have "\<exists>g. dtable_get e t n = Ok g \<and> header_name g = header_name h" "0 < n" "n < 2 ^ 28" using st by simp_all
        with Some nb False show ?thesis by (simp add: index_new_def index_sound_def index_inserts_def)
      qed
    qed
    with 1 sync show ?thesis by simp
  next
    case 2
    with position_nth [OF 2(1)] dyn sync show ?thesis by (simp add: index_sound_def index_inserts_def)
  next
    case 3
    have ins: "index_inserts i" using 3(3) by (simp add: index_inserts_def split: option.split)
    have name: "\<exists>g. dtable_get e t k = Ok g \<and> header_name g = header_name h" "0 < k" "k < 2 ^ 28"
      if "header_name h \<in> header_name ` set hs" "k = position (header_name h) (map header_name hs) + DYN_OFFSET" for k
      using position_nth [of "header_name h" "map header_name hs"] that dyn by auto
    have "index_sound e t hs' i h"
    proof (cases "index_static e h")
      case None
      with 3 name show ?thesis by (auto simp: index_sound_def spec_insert_def split: if_splits)
    next
      case (Some nb)
      then have st: "index_static e h = Some (fst nb, snd nb)" by simp
      from Some 3 have "i = IdxInsertedValue (fst nb) 0" by (simp split: prod.splits)
      with static_sound [OF ext h st] 3(2) show ?thesis by (simp add: index_sound_def spec_insert_def)
    qed
    with ins 3 dtable_insert_sync [OF sync 3(1)] show ?thesis by simp
  qed
qed

section \<open>What the encoder relies on\<close>

text \<open>
  A table of headers: indexing answers as the specification on the list it keeps, a new limit leaves the
  newest headers that fit.
\<close>

locale header_table =
  fixes e :: "('m, 'st) ext"
    and index :: "('m, 'st, bytes) header \<Rightarrow> 't \<Rightarrow> (('m, 'st) table_index \<times> 't) outcome"
    and resize :: "nat \<Rightarrow> 't \<Rightarrow> 't outcome"
    and view :: "'t \<Rightarrow> ('m, 'st) header_list"
    and limit :: "'t \<Rightarrow> nat"
    and valid :: "'t \<Rightarrow> bool"
  assumes index_spec: "valid T \<Longrightarrow> \<exists>i T'. index h T = okay (i, T') \<and> (i, view T') = spec_index e (limit T) h (view T)
      \<and> valid T' \<and> limit T' = limit T"
    and resize_spec: "valid T \<Longrightarrow> n < 2 ^ 32 \<Longrightarrow> \<exists>T'. resize n T = okay T' \<and> view T' = keep_newest e n (view T)
      \<and> valid T' \<and> limit T' = n"
    and limit_bound: "valid T \<Longrightarrow> limit T < 2 ^ 32"
begin

lemma index_synced:
  assumes "valid T" "in_sync e t (view T) (limit T)" "ext_status_ok e" "exact_value e h"
  shows "\<exists>i T'. index h T = okay (i, T') \<and> valid T' \<and> index_sound e t (view T') i h
    \<and> in_sync e (if index_inserts i then dtable_insert e h t else t) (view T') (limit T')"
proof -
  from index_spec [OF assms(1), of h] obtain i T' where
    T': "index h T = okay (i, T')" "(i, view T') = spec_index e (limit T) h (view T)" "valid T'" "limit T' = limit T" by blast
  from spec_index_sound [OF assms(3,4,2) limit_bound [OF assms(1)] T'(2) [symmetric]] T' show ?thesis by auto
qed

lemma resize_synced:
  assumes "valid T" "in_sync e t (view T) (limit T)" "n < 2 ^ 32"
  shows "\<exists>T' t'. resize n T = okay T' \<and> valid T' \<and> dtable_set_max_size e n t = Ok t' \<and> in_sync e t' (view T') (limit T')"
  using resize_spec [OF assms(1,3)] dtable_set_max_size_sync [OF assms(2), of n] by fastforce

end

interpretation ht: header_table e "htable_index e fnv" "htable_resize e" headers tb_max_size "htable_ok e fnv"
  for e fnv
  by unfold_locales (rule htable_index_ok, simp, rule htable_resize_ok, simp_all add: htable_ok_def)

section \<open>The decoder reads back what the encoder writes\<close>

text \<open>The headers meant: a field without a name has the name of the field before it.\<close>

fun fill_names :: "hname option \<Rightarrow> ('m, 'st, bytes option) header list \<Rightarrow> ('m, 'st) header_list option" where
  "fill_names n [] = Some []"
| "fill_names n (h # hs) =
     (case header_reify h of
        Inl h' \<Rightarrow> map_option ((#) h') (fill_names (Some (header_name h')) hs)
      | Inr v \<Rightarrow> (case n of Some (NField name) \<Rightarrow> map_option ((#) (Field name v)) (fill_names n hs) | _ \<Rightarrow> None))"

definition sendable :: "('m, 'st) ext \<Rightarrow> ('m, 'st, bytes) header \<Rightarrow> bool" where
  "sendable e h \<longleftrightarrow> header_wf e h \<and> header_fits e h \<and> exact_value e h"

lemma header_bytes_ne: "header_bytes e i h \<noteq> []"
  by (simp add: header_bytes_def Let_def split: table_index.split)

lemma peek_append: "cursor_rest c = bs @ rest \<Longrightarrow> bs \<noteq> [] \<Longrightarrow> peek_u8 c = Some (hd bs)"
  by (cases bs) (simp_all add: peek_u8_def)

lemma decode_loop_header:
  assumes "index_sound e (dec_table d) slots i h" "header_wf e h" "header_fits e h" "cursor_ok c"
    "cursor_rest c = header_bytes e i h @ rest" "dec_buffer d = []"
  shows "decode_loop e cr acc d c = decode_loop e False (acc @ [h])
    (d\<lparr>dec_table := if index_inserts i then dtable_insert e h (dec_table d) else dec_table d\<rparr>) \<lparr>c_pos = 0, c_inner = rest\<rparr>"
  using peek_append [OF assms(5) header_bytes_ne] decode_one_header [OF assms(1-6), of cr]
  by (simp add: decode_loop.simps [of e cr acc d c])

text \<open>The index of the last named header, as far as it is used for its name.\<close>

definition names_last :: "('m, 'st) ext \<Rightarrow> ('m, 'st) dtable \<Rightarrow> ('m, 'st) table_index \<Rightarrow> hname \<Rightarrow> bool" where
  "names_last e t i n \<longleftrightarrow>
     (case i of
        IdxNotIndexed h \<Rightarrow> header_name h = n
      | _ \<Rightarrow> \<exists>j g. table_resolve_idx i = Ok j \<and> 0 < j \<and> j < 2 ^ 28 \<and> dtable_get e t j = Ok g \<and> header_name g = n)"

lemma names_last_sound:
  assumes "index_sound e t slots i h" and t': "t' = (if index_inserts i then dtable_insert e h t else t)"
    and "in_sync e t' slots mx" "mx < 2 ^ 32"
  shows "names_last e t' i (header_name h)"
proof -
  have "32 * length slots \<le> mx" using hsizes_length [of slots e] assms(3) by (auto simp: in_sync_def dtable_ok_hsizes)
  with assms(4) have small: "k + DYN_OFFSET < 2 ^ 28" if "k < length slots" for k using that by (simp add: DYN_OFFSET_def)
  have dyn: "dtable_get e t' (k + DYN_OFFSET) = Ok (slots ! k)" if "k < length slots" for k
    using dynamic_get [of k t' e] that assms(3) by (simp add: in_sync_def)
  show ?thesis
  proof (cases i)
    case (IdxIndexed j h')
    with assms(1) have "dtable_get e t j = Ok h" "j < 2 ^ 28" by (simp_all add: index_sound_def)
    moreover from this have "j \<noteq> 0" by (cases "j = 0") (simp_all add: dtable_get_def)
    ultimately show ?thesis using IdxIndexed t' by (simp add: names_last_def table_resolve_idx_def index_inserts_def)
  qed (use assms(1) t' small dyn in \<open>auto simp: names_last_def table_resolve_idx_def index_sound_def index_inserts_def DYN_OFFSET_def\<close>)
qed

lemma encode_nameless:
  assumes "names_last e t i (NField n)" "header_fits e (Field n v)"
  shows "\<exists>j. (\<forall>dst. encode_header_without_name slots i v dst = Ok (dst @ header_bytes e j (Field n v)))
    \<and> index_sound e t slots j (Field n v) \<and> \<not> index_inserts j"
proof (cases "\<exists>h. i = IdxNotIndexed h")
  case True
  with assms show ?thesis
    by (intro exI [of _ "IdxNotIndexed (Field n v)"])
      (auto simp: encode_header_without_name_def table_resolve_def names_last_def header_bytes_def index_sound_def
        index_inserts_def encode_not_indexed2_def encode_str_bytes header_fits_def encode_int_0 header_is_sensitive_def)
next
  case False
  with assms(1) obtain j g where
    j: "table_resolve_idx i = Ok j" "0 < j" "j < 2 ^ 28" "dtable_get e t j = Ok g" "header_name g = NField n"
    by (cases i) (auto simp: names_last_def)
  have "encode_header_without_name slots i v dst = encode_not_indexed j v False dst" for dst
    using False j(1) by (cases i) (simp_all add: encode_header_without_name_def)
  with j assms(2) show ?thesis
    by (intro exI [of _ "IdxName j (Field n v)"])
      (auto simp: header_bytes_def index_sound_def index_inserts_def encode_not_indexed_def encode_str_bytes header_fits_def
        header_is_sensitive_def)
qed

text \<open>What is between the two ends after some headers, and what the rest of a block does to it.\<close>

definition coupled ::
  "('m, 'st) ext \<Rightarrow> (hname \<Rightarrow> u64) \<Rightarrow> ('m, 'st) htable \<Rightarrow> ('m, 'st) hpack_decoder \<Rightarrow> bool" where
  "coupled e fnv T d \<longleftrightarrow> htable_ok e fnv T \<and> in_sync e (dec_table d) (headers T) (tb_max_size T) \<and> dec_buffer d = []"

definition reads ::
  "('m, 'st) ext \<Rightarrow> ('m, 'st) hpack_decoder \<Rightarrow> bytes \<Rightarrow> ('m, 'st) header_list \<Rightarrow> ('m, 'st) hpack_decoder \<Rightarrow> bool" where
  "reads e d bs hs d' \<longleftrightarrow> (\<forall>cr acc c rest. cursor_ok c \<longrightarrow> cursor_rest c = bs @ rest \<longrightarrow>
     (\<exists>cr' c'. cursor_ok c' \<and> cursor_rest c' = rest \<and> decode_loop e cr acc d c = decode_loop e cr' (acc @ hs) d' c'))"

lemma reads_Nil: "reads e d [] [] d"
  by (auto simp: reads_def)

lemma reads_header:
  assumes "index_sound e (dec_table d) slots i h" "header_wf e h" "header_fits e h" "dec_buffer d = []"
    and "reads e (d\<lparr>dec_table := if index_inserts i then dtable_insert e h (dec_table d) else dec_table d\<rparr>) bs hs d'"
  shows "reads e d (header_bytes e i h @ bs) (h # hs) d'"
  unfolding reads_def
proof (intro allI impI)
  fix cr acc c rest assume c: "cursor_ok c" "cursor_rest c = (header_bytes e i h @ bs) @ rest"
  have "cursor_ok \<lparr>c_pos = 0, c_inner = bs @ rest\<rparr>" "cursor_rest \<lparr>c_pos = 0, c_inner = bs @ rest\<rparr> = bs @ rest"
    by (simp_all add: cursor_ok_def cursor_rest_def)
  with decode_loop_header [OF assms(1-3) c(1) _ assms(4), of "bs @ rest" cr acc] c(2) assms(5)
  show "\<exists>cr' c'. cursor_ok c' \<and> cursor_rest c' = rest \<and> decode_loop e cr acc d c = decode_loop e cr' (acc @ h # hs) d' c'"
    unfolding reads_def by (metis append.assoc append_Cons append_Nil)
qed

lemma encode_headers_read:
  assumes "ext_status_ok e"
  shows "coupled e fnv T d \<Longrightarrow>
    (\<And>i. last_index = Some i \<Longrightarrow> \<exists>n. nm = Some n \<and> names_last e (dec_table d) i n) \<Longrightarrow> (last_index = None \<Longrightarrow> nm = None) \<Longrightarrow>
    fill_names nm hs = Some hs' \<Longrightarrow> \<forall>h \<in> set hs'. sendable e h \<Longrightarrow>
    \<exists>bs T' t'. (\<forall>dst. encode_headers e fnv hs last_index T dst = okay (dst @ bs, T'))
      \<and> coupled e fnv T' (d\<lparr>dec_table := t'\<rparr>) \<and> reads e d bs hs' (d\<lparr>dec_table := t'\<rparr>)"
proof (induction hs arbitrary: T d last_index nm hs')
  case Nil
  then show ?case by (intro exI [of _ "[]"] exI [of _ T] exI [of _ "dec_table d"]) (simp add: reads_Nil)
next
  case (Cons hh hs)
  have c: "htable_ok e fnv T" "in_sync e (dec_table d) (headers T) (tb_max_size T)" "dec_buffer d = []"
    using Cons.prems(1) by (simp_all add: coupled_def)
  show ?case
  proof (cases "header_reify hh")
    case (Inl h)
    with Cons.prems(4) obtain hs1 where hs1: "fill_names (Some (header_name h)) hs = Some hs1" "hs' = h # hs1" by auto
    with Cons.prems(5) have h: "header_wf e h" "header_fits e h" "exact_value e h" and rest: "\<forall>h \<in> set hs1. sendable e h"
      by (simp_all add: sendable_def)
    from ht.index_synced [OF c(1,2) assms h(3)] obtain i T1 where
      T1: "htable_index e fnv h T = okay (i, T1)" "htable_ok e fnv T1" "index_sound e (dec_table d) (headers T1) i h"
        "in_sync e (if index_inserts i then dtable_insert e h (dec_table d) else dec_table d) (headers T1) (tb_max_size T1)" by blast
    let ?d = "d\<lparr>dec_table := if index_inserts i then dtable_insert e h (dec_table d) else dec_table d\<rparr>"
    have "coupled e fnv T1 ?d" using T1 c(3) by (simp add: coupled_def)
    moreover have "names_last e (dec_table ?d) i (header_name h)"
      using names_last_sound [OF T1(3) refl T1(4) ht.limit_bound [OF T1(2)]] by simp
    ultimately obtain bs T' t' where
      IH: "\<And>dst. encode_headers e fnv hs (Some i) T1 dst = okay (dst @ bs, T')" "coupled e fnv T' (?d\<lparr>dec_table := t'\<rparr>)"
        "reads e ?d bs hs1 (?d\<lparr>dec_table := t'\<rparr>)" using Cons.IH [of T1 ?d "Some i" "Some (header_name h)" hs1] hs1(1) rest by auto
    have "encode_headers e fnv (hh # hs) last_index T dst = okay (dst @ header_bytes e i h @ bs, T')" for dst
      using Inl T1(1) encode_header_bytes [OF T1(3) h(2)] IH(1) by simp
    moreover have "reads e d (header_bytes e i h @ bs) hs' (d\<lparr>dec_table := t'\<rparr>)"
      using reads_header [OF T1(3) h(1,2) c(3)] IH(3) hs1(2) by simp
    ultimately show ?thesis using IH(2) by (intro exI [of _ "header_bytes e i h @ bs"] exI [of _ T'] exI [of _ t']) simp
  next
    case (Inr v)
    with Cons.prems(4) obtain n hs1 where
      n: "nm = Some (NField n)" "fill_names nm hs = Some hs1" "hs' = Field n v # hs1" by (auto split: option.splits hname.splits)
    then obtain i where i: "last_index = Some i" "names_last e (dec_table d) i (NField n)"
      using Cons.prems(2,3) by (cases last_index) auto
    from Cons.prems(5) n(3) have h: "header_wf e (Field n v)" "header_fits e (Field n v)" and rest: "\<forall>h \<in> set hs1. sendable e h"
      by (simp_all add: sendable_def)
    from encode_nameless [OF i(2) h(2), of "headers T"] obtain j where
      j: "\<And>dst. encode_header_without_name (headers T) i v dst = Ok (dst @ header_bytes e j (Field n v))"
        "index_sound e (dec_table d) (headers T) j (Field n v)" "\<not> index_inserts j" by blast
    from Cons.IH [OF Cons.prems(1-3) n(2) rest] obtain bs T' t' where
      IH: "\<And>dst. encode_headers e fnv hs last_index T dst = okay (dst @ bs, T')" "coupled e fnv T' (d\<lparr>dec_table := t'\<rparr>)"
        "reads e d bs hs1 (d\<lparr>dec_table := t'\<rparr>)" by blast
    have "encode_headers e fnv (hh # hs) last_index T dst = okay (dst @ header_bytes e j (Field n v) @ bs, T')" for dst
      using Inr i(1) j(1) IH(1) by simp
    moreover have "reads e d (header_bytes e j (Field n v) @ bs) hs' (d\<lparr>dec_table := t'\<rparr>)"
      using reads_header [OF j(2) h c(3)] IH(3) j(3) n(3) by simp
    ultimately show ?thesis
      using IH(2) by (intro exI [of _ "header_bytes e j (Field n v) @ bs"] exI [of _ T'] exI [of _ t']) simp
  qed
qed

text \<open>Size updates stand in front of the headers of a block.\<close>

definition reads_updates ::
  "('m, 'st) ext \<Rightarrow> ('m, 'st) hpack_decoder \<Rightarrow> bytes \<Rightarrow> ('m, 'st) hpack_decoder \<Rightarrow> bool" where
  "reads_updates e d bs d' \<longleftrightarrow> (\<forall>acc c rest. cursor_ok c \<longrightarrow> cursor_rest c = bs @ rest \<longrightarrow>
     (\<exists>c'. cursor_ok c' \<and> cursor_rest c' = rest \<and> decode_loop e True acc d c = decode_loop e True acc d' c'))"

lemma reads_updatesD:
  "reads_updates e d bs d' \<Longrightarrow> cursor_ok c \<Longrightarrow> cursor_rest c = bs @ rest \<Longrightarrow>
     \<exists>c'. cursor_ok c' \<and> cursor_rest c' = rest \<and> decode_loop e True acc d c = decode_loop e True acc d' c'"
  unfolding reads_updates_def by blast

lemma reads_updates_append:
  assumes "reads_updates e d bs d'" "reads_updates e d' bs' d''"
  shows "reads_updates e d (bs @ bs') d''"
  unfolding reads_updates_def
proof (intro allI impI)
  fix acc c rest assume c: "cursor_ok c" "cursor_rest c = (bs @ bs') @ rest"
  then have "cursor_rest c = bs @ bs' @ rest" by simp
  from reads_updatesD [OF assms(1) c(1) this] obtain c1 where c1: "cursor_ok c1" "cursor_rest c1 = bs' @ rest"
    "decode_loop e True acc d c = decode_loop e True acc d' c1" by blast
  from reads_updatesD [OF assms(2) c1(1,2), of acc] c1(3) show "\<exists>c'. cursor_ok c' \<and> cursor_rest c' = rest \<and> decode_loop e True acc d c = decode_loop e True acc d'' c'"
    by simp
qed

lemma resize_read:
  assumes "coupled e fnv T d" "v \<le> dec_last_max_update d" "v < 2 ^ 28"
  shows "\<exists>T' t'. htable_resize e v T = okay T' \<and> coupled e fnv T' (d\<lparr>dec_table := t'\<rparr>)
    \<and> reads_updates e d (encode_size_update v []) (d\<lparr>dec_table := t'\<rparr>)"
proof -
  have c: "htable_ok e fnv T" "in_sync e (dec_table d) (headers T) (tb_max_size T)" "dec_buffer d = []"
    using assms(1) by (simp_all add: coupled_def)
  have "v < 2 ^ 32" using assms(3) by simp
  from ht.resize_synced [OF c(1,2) this] obtain T' t' where
    T': "htable_resize e v T = okay T'" "htable_ok e fnv T'" "dtable_set_max_size e v (dec_table d) = Ok t'"
      "in_sync e t' (headers T') (tb_max_size T')" by blast
  have ok: "dtable_ok e (dec_table d)" using c(2) by (simp add: in_sync_def)
  have ne: "encode_size_update v [] \<noteq> []" by (simp add: encode_size_update_def)
  have "reads_updates e d (encode_size_update v []) (d\<lparr>dec_table := t'\<rparr>)"
    unfolding reads_updates_def
  proof (intro allI impI)
    fix acc c rest assume c: "cursor_ok c" "cursor_rest c = encode_size_update v [] @ rest"
    from decode_one_size_update [OF c assms(2,3) ok] T'(3)
    have "decode_one e True (hd (encode_size_update v [])) (d, c)
        = (Ok (True, None), (d\<lparr>dec_table := t'\<rparr>, \<lparr>c_pos = 0, c_inner = rest\<rparr>))" by auto
    with peek_append [OF c(2) ne] show "\<exists>c'. cursor_ok c' \<and> cursor_rest c' = rest
        \<and> decode_loop e True acc d c = decode_loop e True acc (d\<lparr>dec_table := t'\<rparr>) c'"
      by (intro exI [of _ "\<lparr>c_pos = 0, c_inner = rest\<rparr>"])
        (simp add: decode_loop.simps [of e True acc d c] cursor_ok_def cursor_rest_def)
  qed
  with T' c(3) show ?thesis by (auto simp: coupled_def)
qed

lemma size_updates_read:
  assumes "coupled e fnv (he_table enc) d"
    and "\<forall>v \<in> set (size_updates (he_size_update enc)). v \<le> dec_last_max_update d \<and> v < 2 ^ 28"
  shows "\<exists>bs enc' t'. (\<forall>dst. encoder_size_updates e enc dst = okay (dst @ bs, enc')) \<and> he_size_update enc' = None
    \<and> coupled e fnv (he_table enc') (d\<lparr>dec_table := t'\<rparr>) \<and> reads_updates e d bs (d\<lparr>dec_table := t'\<rparr>)"
proof (cases "he_size_update enc")
  case None
  have "reads_updates e d [] d" by (auto simp: reads_updates_def)
  with None assms(1) show ?thesis
    by (intro exI [of _ "[]"] exI [of _ enc] exI [of _ "dec_table d"]) (simp add: encoder_size_updates_def)
next
  case (Some u)
  show ?thesis
  proof (cases u)
    case (SizeUpdateOne v)
    with Some assms(2) resize_read [OF assms(1), of v] obtain T t where
      T: "htable_resize e v (he_table enc) = okay T" "coupled e fnv T (d\<lparr>dec_table := t\<rparr>)"
        "reads_updates e d (encode_size_update v []) (d\<lparr>dec_table := t\<rparr>)" by (auto simp: size_updates_def)
    with Some SizeUpdateOne show ?thesis
      by (intro exI [of _ "encode_size_update v []"] exI [of _ "\<lparr>he_table = T, he_size_update = None\<rparr>"] exI [of _ t])
        (simp add: encoder_size_updates_def encode_size_update_def)
  next
    case (SizeUpdateTwo mn mx)
    with Some assms(2) resize_read [OF assms(1), of mn] obtain T t where
      T: "htable_resize e mn (he_table enc) = okay T" "coupled e fnv T (d\<lparr>dec_table := t\<rparr>)"
        "reads_updates e d (encode_size_update mn []) (d\<lparr>dec_table := t\<rparr>)" by (auto simp: size_updates_def)
    from SizeUpdateTwo Some assms(2) resize_read [OF T(2), of mx] obtain T' t' where
      T': "htable_resize e mx T = okay T'" "coupled e fnv T' (d\<lparr>dec_table := t'\<rparr>)"
        "reads_updates e (d\<lparr>dec_table := t\<rparr>) (encode_size_update mx []) (d\<lparr>dec_table := t'\<rparr>)" by (auto simp: size_updates_def)
    have "encode_size_update mx (encode_size_update mn dst) = dst @ encode_size_update mn [] @ encode_size_update mx []" for dst
      by (simp add: encode_size_update_def)
    with Some SizeUpdateTwo T(1) T' reads_updates_append [OF T(3) T'(3)] show ?thesis
      by (intro exI [of _ "encode_size_update mn [] @ encode_size_update mx []"]
          exI [of _ "\<lparr>he_table = T', he_size_update = None\<rparr>"] exI [of _ t']) (simp add: encoder_size_updates_def)
  qed
qed

text \<open>The limit on size updates that \<open>decode\<close> puts in force.\<close>

definition update_limit :: "('m, 'st) hpack_decoder \<Rightarrow> nat" where
  "update_limit d = (case dec_max_size_update d of Some n \<Rightarrow> n | None \<Rightarrow> dec_last_max_update d)"

lemma encode_decode:
  assumes ext: "ext_status_ok e" and c: "coupled e fnv (he_table enc) d"
    and ups: "\<forall>v \<in> set (size_updates (he_size_update enc)). v \<le> update_limit d \<and> v < 2 ^ 28"
    and hs: "fill_names None hs = Some hs'" "\<forall>h \<in> set hs'. sendable e h"
  shows "\<exists>bs enc' d' c'. (\<forall>dst. encoder_encode e fnv hs enc dst = okay (dst @ bs, enc'))
    \<and> decode e d \<lparr>c_pos = 0, c_inner = bs\<rparr> = (Ok (), hs', (d', c')) \<and> cursor_ok c' \<and> cursor_rest c' = []
    \<and> coupled e fnv (he_table enc') d' \<and> he_size_update enc' = None"
proof -
  let ?d = "case dec_max_size_update d of
    Some n \<Rightarrow> d\<lparr>dec_max_size_update := None, dec_last_max_update := n\<rparr> | None \<Rightarrow> d"
  have "coupled e fnv (he_table enc) ?d" using c by (simp add: coupled_def split: option.split)
  moreover have "dec_last_max_update ?d = update_limit d" by (simp add: update_limit_def split: option.split)
  ultimately obtain us enc1 t1 where
    u: "\<And>dst. encoder_size_updates e enc dst = okay (dst @ us, enc1)" "he_size_update enc1 = None"
      "coupled e fnv (he_table enc1) (?d\<lparr>dec_table := t1\<rparr>)" "reads_updates e ?d us (?d\<lparr>dec_table := t1\<rparr>)"
    using size_updates_read [of e fnv enc ?d] ups by auto
  from encode_headers_read [OF ext u(3), of None None hs hs'] hs obtain bs T' t' where
    b: "\<And>dst. encode_headers e fnv hs None (he_table enc1) dst = okay (dst @ bs, T')"
      "coupled e fnv T' (?d\<lparr>dec_table := t'\<rparr>)" "reads e (?d\<lparr>dec_table := t1\<rparr>) bs hs' (?d\<lparr>dec_table := t'\<rparr>)" by auto
  let ?c = "\<lparr>c_pos = 0, c_inner = us @ bs\<rparr>"
  have "cursor_ok ?c" "cursor_rest ?c = us @ bs" by (simp_all add: cursor_ok_def cursor_rest_def)
  from reads_updatesD [OF u(4) this, of "[]"] obtain c1 where c1: "cursor_ok c1" "cursor_rest c1 = bs @ []"
    "decode_loop e True [] ?d ?c = decode_loop e True [] (?d\<lparr>dec_table := t1\<rparr>) c1" by auto
  with b(3) obtain cr c2 where c2: "cursor_ok c2" "cursor_rest c2 = []"
    "decode_loop e True [] (?d\<lparr>dec_table := t1\<rparr>) c1 = decode_loop e cr hs' (?d\<lparr>dec_table := t'\<rparr>) c2"
    unfolding reads_def by (metis append_Nil)
  have "decode_loop e cr hs' (?d\<lparr>dec_table := t'\<rparr>) c2 = (Ok (), hs', (?d\<lparr>dec_table := t'\<rparr>, c2))"
    using c2(2) by (simp add: decode_loop.simps [of e cr hs'] peek_u8_def)
  with c1(3) c2(3) have "decode e d ?c = (Ok (), hs', (?d\<lparr>dec_table := t'\<rparr>, c2))" by (simp add: decode_def Let_def)
  moreover have "encoder_encode e fnv hs enc dst = okay (dst @ us @ bs, enc1\<lparr>he_table := T'\<rparr>)" for dst
    by (simp add: encoder_encode_def u(1) b(1))
  ultimately show ?thesis
    using b(2) c2(1,2) u(2)
    by (intro exI [of _ "us @ bs"] exI [of _ "enc1\<lparr>he_table := T'\<rparr>"] exI [of _ "?d\<lparr>dec_table := t'\<rparr>"] exI [of _ c2]) simp
qed

lemma encoder_new_coupled:
  assumes "mx < 2 ^ 32" "cap \<le> 2 ^ 30" "enc = encoder_new mx cap"
  shows "coupled e fnv (he_table enc) (hpack_decoder_new mx)"
proof -
  have "he_table enc = htable_new mx cap" using assms(3) by (simp add: encoder_new_def)
  note new = htable_new_ok [OF assms(1,2) this]
  have "in_sync e (dtable_new mx) (headers (he_table enc)) (tb_max_size (he_table enc))"
    by (simp add: in_sync_def dtable_new_ok new) (simp add: dtable_new_def)
  with new show ?thesis by (simp add: coupled_def hpack_decoder_new_def)
qed

end
