(* ===== verification/Frame_Head.thy ===== *)
theory Frame_Head
  imports Error_Types
begin

text \<open>
  Stream identifiers (\<open>frame/stream_id.rs\<close>) and the nine-byte frame head (\<open>frame/head.rs\<close>): parsing,
  encoding, and their round trips. The last section states, as the locale \<open>frame_codec\<close>, what every
  frame type promises the codec: its loader inverts its encoder and never panics. The frame
  theories interpret it.
\<close>

section \<open>Reading from a slice\<close>

text \<open>The macro \<open>unpack_octets_4!\<close>; an index out of range panics.\<close>

definition unpack_octets_4 :: "bytes \<Rightarrow> nat \<Rightarrow> (u32, 'e) result" where
  "unpack_octets_4 buf off =
     (if off + 3 < length buf
      then Ok (be32 (buf ! off) (buf ! (off + 1)) (buf ! (off + 2)) (buf ! (off + 3)))
      else Panic)"

section \<open>Stream identifiers\<close>

definition STREAM_ID_MASK :: u32 where
  "STREAM_ID_MASK = push_bit 31 1"

definition STREAM_ID_ZERO :: stream_id where
  "STREAM_ID_ZERO = 0"

definition STREAM_ID_MAX :: stream_id where
  "STREAM_ID_MAX = drop_bit 1 (- 1)"

definition stream_id_parse :: "bytes \<Rightarrow> (stream_id \<times> bool, 'e) result" where
  "stream_id_parse buf =
     (if length buf < 4 then Panic
      else let unpacked = be32 (buf ! 0) (buf ! 1) (buf ! 2) (buf ! 3);
               flag = (unpacked AND STREAM_ID_MASK = STREAM_ID_MASK)
           in Ok (unpacked AND NOT STREAM_ID_MASK, flag))"

definition is_client_initiated :: "stream_id \<Rightarrow> bool" where
  "is_client_initiated sid = (sid \<noteq> 0 \<and> sid mod 2 = 1)"

definition is_server_initiated :: "stream_id \<Rightarrow> bool" where
  "is_server_initiated sid = (sid \<noteq> 0 \<and> sid mod 2 = 0)"

definition stream_id_is_zero :: "stream_id \<Rightarrow> bool" where
  "stream_id_is_zero sid = (sid = 0)"

text \<open>\<open>next_id\<close>: \<open>None\<close> is \<open>StreamIdOverflow\<close>.\<close>

definition next_id :: "stream_id \<Rightarrow> stream_id option" where
  "next_id sid = (let next = sid + 2 in if next > STREAM_ID_MAX then None else Some next)"

text \<open>\<open>From<u32> for StreamId\<close> asserts that the reserved bit is clear.\<close>

definition stream_id_from_u32 :: "u32 \<Rightarrow> (stream_id, 'e) result" where
  "stream_id_from_u32 src = (if src AND STREAM_ID_MASK = 0 then Ok src else Panic)"

text \<open>The type invariant of \<open>StreamId\<close>: thirty-one bits.\<close>

definition valid_stream_id :: "stream_id \<Rightarrow> bool" where
  "valid_stream_id sid = (\<not> bit sid 31)"

lemma bit31_iff: "bit (w :: u32) 31 \<longleftrightarrow> 2 ^ 31 \<le> uint w"
proof -
  have lt: "uint w < 2 ^ 32" using uint_lt2p [of w] by simp
  have "uint w div 2 ^ 31 = (if 2 ^ 31 \<le> uint w then 1 else 0)"
    using lt uint_ge_0 [of w] by (simp add: div_pos_geq)
  moreover have "bit w 31 \<longleftrightarrow> odd (uint w div 2 ^ 31)"
    by (metis bit_iff_odd bit_uint_iff bit_imp_le_length)
  ultimately show ?thesis by simp
qed

lemma valid_stream_id_iff: "valid_stream_id sid \<longleftrightarrow> sid \<le> STREAM_ID_MAX"
proof -
  have "uint STREAM_ID_MAX = 2 ^ 31 - 1"
    by (simp add: STREAM_ID_MAX_def mask_eq_exp_minus_1)
  then show ?thesis
    unfolding valid_stream_id_def bit31_iff word_le_def by linarith
qed

lemma valid_stream_id_0 [simp]: "valid_stream_id 0"
  by (simp add: valid_stream_id_def)

lemma stream_id_mask_simps:
  "\<not> bit w 31 \<Longrightarrow> w AND NOT STREAM_ID_MASK = w"
  "w AND STREAM_ID_MASK = STREAM_ID_MASK \<longleftrightarrow> bit w 31"
  "w AND STREAM_ID_MASK = 0 \<longleftrightarrow> \<not> bit w 31"
  "\<not> bit (w AND NOT STREAM_ID_MASK) 31"
  unfolding STREAM_ID_MASK_def
  by (rule and_not_mask_id, assumption, subst word_eq_and_mask_iff_bit, simp,
      rule and_mask_eq_0_iff, rule bit_and_not_mask)

text \<open>Parsing always yields a valid identifier, and the flag is the reserved bit.\<close>

lemma stream_id_parse_Ok:
  "stream_id_parse buf = Ok (sid, fl) \<Longrightarrow> valid_stream_id sid"
  by (auto simp: stream_id_parse_def valid_stream_id_def Let_def stream_id_mask_simps
      split: if_splits)

lemma stream_id_parse_put [codec_simps]:
  "valid_stream_id sid \<Longrightarrow> stream_id_parse (put_u32 sid @ rest) = Ok (sid, False)"
  by (simp add: stream_id_parse_def put_u32_def be32_put valid_stream_id_def stream_id_mask_simps)

lemma stream_id_parse_no_panic: "4 \<le> length buf \<Longrightarrow> stream_id_parse buf \<noteq> Panic"
  by (simp add: stream_id_parse_def Let_def)

lemma stream_id_from_u32_Ok: "stream_id_from_u32 w = Ok sid \<longleftrightarrow> valid_stream_id w \<and> sid = w"
  by (auto simp: stream_id_from_u32_def valid_stream_id_def stream_id_mask_simps)

text \<open>
  Successor identifiers keep the initiator and never leave the 31-bit space: the addition cannot
  wrap for a valid identifier.
\<close>

lemma uint_STREAM_ID_MAX: "uint STREAM_ID_MAX = 2 ^ 31 - 1"
  by (simp add: STREAM_ID_MAX_def mask_eq_exp_minus_1)

lemma uint_next: "valid_stream_id sid \<Longrightarrow> uint (sid + 2) = uint sid + 2"
  by (simp add: valid_stream_id_def bit31_iff uint_word_ariths)

lemma next_id_Some:
  assumes "valid_stream_id sid" and "next_id sid = Some n"
  shows "valid_stream_id n \<and> uint n = uint sid + 2"
  using assms by (auto simp: next_id_def Let_def uint_next valid_stream_id_iff split: if_splits)

lemma next_id_None:
  assumes "valid_stream_id sid"
  shows "next_id sid = None \<longleftrightarrow> 2 ^ 31 - 2 \<le> uint sid"
  using assms
  by (auto simp: next_id_def Let_def word_less_def uint_next uint_STREAM_ID_MAX split: if_splits)

lemma initiated_partition:
  "sid \<noteq> 0 \<Longrightarrow> is_client_initiated sid \<longleftrightarrow> \<not> is_server_initiated sid"
  by (auto simp: is_client_initiated_def is_server_initiated_def mod_2_eq_odd)

section \<open>Frame heads\<close>

datatype kind =
    KData
  | KHeaders
  | KPriority
  | KReset
  | KSettings
  | KPushPromise
  | KPing
  | KGoAway
  | KWindowUpdate
  | KContinuation
  | KUnknown

text \<open>\<open>kind as u8\<close>: the discriminants of the enum; \<open>Unknown\<close> follows \<open>Continuation\<close>.\<close>

fun kind_as_u8 :: "kind \<Rightarrow> u8" where
  "kind_as_u8 KData = 0"
| "kind_as_u8 KHeaders = 1"
| "kind_as_u8 KPriority = 2"
| "kind_as_u8 KReset = 3"
| "kind_as_u8 KSettings = 4"
| "kind_as_u8 KPushPromise = 5"
| "kind_as_u8 KPing = 6"
| "kind_as_u8 KGoAway = 7"
| "kind_as_u8 KWindowUpdate = 8"
| "kind_as_u8 KContinuation = 9"
| "kind_as_u8 KUnknown = 10"

definition kind_new :: "u8 \<Rightarrow> kind" where
  "kind_new byte =
     (if byte = 0 then KData else if byte = 1 then KHeaders else if byte = 2 then KPriority
      else if byte = 3 then KReset else if byte = 4 then KSettings
      else if byte = 5 then KPushPromise else if byte = 6 then KPing else if byte = 7 then KGoAway
      else if byte = 8 then KWindowUpdate else if byte = 9 then KContinuation else KUnknown)"

record head =
  h_kind :: kind
  h_flag :: u8
  h_stream_id :: stream_id

definition HEADER_LEN :: nat where
  "HEADER_LEN = 9"

definition head_new :: "kind \<Rightarrow> u8 \<Rightarrow> stream_id \<Rightarrow> head" where
  "head_new k f s = \<lparr>h_kind = k, h_flag = f, h_stream_id = s\<rparr>"

definition head_parse :: "bytes \<Rightarrow> (head, 'e) result" where
  "head_parse header =
     (if length header < 5 then Panic
      else rbind (stream_id_parse (drop 5 header)) (\<lambda>(sid, _).
             Ok \<lparr>h_kind = kind_new (header ! 3), h_flag = header ! 4, h_stream_id = sid\<rparr>))"

definition head_encode :: "head \<Rightarrow> nat \<Rightarrow> bytes" where
  "head_encode h payload_len =
     put_uint3 (of_nat payload_len) @ [kind_as_u8 (h_kind h)] @ [h_flag h] @ put_u32 (h_stream_id h)"

lemma kind_new_as_u8 [simp]: "kind_new (kind_as_u8 k) = k"
  by (cases k) (simp_all add: kind_new_def)

lemma head_encode_length [simp]: "length (head_encode h n) = 9"
  by (simp add: head_encode_def)

lemma head_parse_encode [codec_simps]:
  assumes "valid_stream_id (h_stream_id h)"
  shows "head_parse (head_encode h n @ payload) = Ok h"
  using assms by (simp add: head_parse_def head_encode_def put_uint3_def stream_id_parse_put)

lemma head_parse_no_panic: "9 \<le> length buf \<Longrightarrow> head_parse buf \<noteq> Panic"
  by (auto simp: head_parse_def stream_id_parse_def Let_def)

lemma head_parse_valid: "head_parse buf = Ok h \<Longrightarrow> valid_stream_id (h_stream_id h)"
  by (auto simp: head_parse_def rbind_eq_Ok split: if_splits dest!: stream_id_parse_Ok)

text \<open>
  The length field: the first three bytes hold the payload length whenever it fits 24 bits, which
  is the field the length-delimited transport codec splits the byte stream on.
\<close>

definition frame_len :: "bytes \<Rightarrow> nat" where
  "frame_len buf = unat (be24 (buf ! 0) (buf ! 1) (buf ! 2))"

lemma unat_be24_of_nat:
  assumes "n < 2 ^ 24"
  shows "unat (ucast (take_bit 24 (of_nat n :: u64)) :: u32) = n"
proof -
  have "take_bit 24 n = n" using assms by (simp add: take_bit_nat_eq_self)
  moreover have "n < 2 ^ 32" using assms by simp
  ultimately show ?thesis
    by (simp add: unsigned_ucast_eq unsigned_take_bit_eq unsigned_of_nat take_bit_nat_eq_self
        del: take_bit_of_nat)
qed

lemma frame_len_encode: "n < 2 ^ 24 \<Longrightarrow> frame_len (head_encode h n @ payload) = n"
  by (simp add: frame_len_def head_encode_def put_uint3_def be24_put_uint3 unat_be24_of_nat)

section \<open>What a frame type promises\<close>

text \<open>
  \<open>frame_codec\<close> is the contract between a frame type and the codec: its encoder writes the head for
  its payload and then the payload, its loader inverts the encoder on well-formed frames, only
  yields well-formed frames, and never panics.
\<close>

locale frame_codec =
  fixes head_of :: "'a \<Rightarrow> head"
    and payload_of :: "'a \<Rightarrow> bytes"
    and encode :: "'a \<Rightarrow> bytes"
    and load :: "head \<Rightarrow> bytes \<Rightarrow> ('a, frame_error) result"
    and wf :: "'a \<Rightarrow> bool"
  assumes encode_split: "encode x = head_encode (head_of x) (length (payload_of x)) @ payload_of x"
    and load_payload: "wf x \<Longrightarrow> load (head_of x) (payload_of x) = Ok x"
    and head_valid: "wf x \<Longrightarrow> valid_stream_id (h_stream_id (head_of x))"
    and load_no_panic: "load h p \<noteq> Panic"
begin

lemma encode_length: "length (encode x) = 9 + length (payload_of x)"
  by (simp add: encode_split)

text \<open>The bytes written parse back to the head and the frame.\<close>

lemma roundtrip:
  assumes "wf x"
  shows "rbind (head_parse (encode x)) (\<lambda>h. load h (drop HEADER_LEN (encode x))) = Ok x"
  using assms by (simp add: encode_split head_parse_encode head_valid HEADER_LEN_def load_payload)

text \<open>
  In a byte stream that starts with an encoded frame the length field delimits exactly that frame.
\<close>

lemma delimited:
  assumes "length (payload_of x) < 2 ^ 24"
  shows "take (9 + frame_len (encode x @ rest)) (encode x @ rest) = encode x"
  using assms by (simp add: encode_split frame_len_encode)

end

end
