(* ===== verification/Frame_Control.thy ===== *)
theory Frame_Control
  imports Frame_Head
begin

text \<open>
  The fixed-format frames: RST_STREAM (\<open>frame/reset.rs\<close>), WINDOW_UPDATE (\<open>frame/window_update.rs\<close>),
  PRIORITY (\<open>frame/priority.rs\<close>), GOAWAY (\<open>frame/go_away.rs\<close>), PING (\<open>frame/ping.rs\<close>), padding
  (\<open>frame/util.rs\<close>) and DATA (\<open>frame/data.rs\<close>). Each frame type that the library both writes and reads
  interprets the contract \<open>frame_codec\<close>.
\<close>

lemma unpack_octets_4_put [codec_simps]:
  "unpack_octets_4 (pre @ put_u32 w @ post) (length pre) = Ok w"
  by (simp add: unpack_octets_4_def put_u32_def nth_append be32_put)

lemma unpack_octets_4_put0 [codec_simps]: "unpack_octets_4 (put_u32 w @ post) 0 = Ok w"
  using unpack_octets_4_put [of "[]" w post] by simp

lemma unpack_octets_4_put_only [codec_simps]: "unpack_octets_4 (put_u32 w) 0 = Ok w"
  using unpack_octets_4_put0 [of w "[]"] by simp

lemma unpack_octets_4_put4 [codec_simps]:
  "unpack_octets_4 (put_u32 v @ put_u32 w @ post) 4 = Ok w"
  using unpack_octets_4_put [of "put_u32 v" w post] by simp

lemma unpack_octets_4_no_panic: "off + 3 < length buf \<Longrightarrow> unpack_octets_4 buf off \<noteq> Panic"
  by (simp add: unpack_octets_4_def)

section \<open>RST_STREAM\<close>

record reset_frame =
  rst_stream_id :: stream_id
  rst_error_code :: reason

definition reset_new :: "stream_id \<Rightarrow> reason \<Rightarrow> reset_frame" where
  "reset_new sid e = \<lparr>rst_stream_id = sid, rst_error_code = e\<rparr>"

definition reset_load :: "head \<Rightarrow> bytes \<Rightarrow> (reset_frame, frame_error) result" where
  "reset_load h payload =
     (if length payload \<noteq> 4 then Err InvalidPayloadLength
      else rbind (unpack_octets_4 payload 0) (\<lambda>error_code.
        Ok \<lparr>rst_stream_id = h_stream_id h, rst_error_code = Reason error_code\<rparr>))"

definition reset_head :: "reset_frame \<Rightarrow> head" where
  "reset_head f = head_new KReset 0 (rst_stream_id f)"

definition reset_encode :: "reset_frame \<Rightarrow> bytes" where
  "reset_encode f = head_encode (reset_head f) 4 @ put_u32 (reason_code (rst_error_code f))"

interpretation rst: frame_codec
  reset_head "\<lambda>f. put_u32 (reason_code (rst_error_code f))" reset_encode reset_load
  "\<lambda>f. valid_stream_id (rst_stream_id f)"
  by unfold_locales
    (auto simp: reset_head_def head_new_def reset_encode_def reset_load_def codec_simps
      unpack_octets_4_no_panic rbind_eq_Panic)

section \<open>WINDOW_UPDATE\<close>

definition SIZE_INCREMENT_MASK :: u32 where
  "SIZE_INCREMENT_MASK = push_bit 31 1"

record window_update_frame =
  wu_stream_id :: stream_id
  wu_size_increment :: u32

definition window_update_new :: "stream_id \<Rightarrow> u32 \<Rightarrow> window_update_frame" where
  "window_update_new sid inc = \<lparr>wu_stream_id = sid, wu_size_increment = inc\<rparr>"

definition window_update_load :: "head \<Rightarrow> bytes \<Rightarrow> (window_update_frame, frame_error) result" where
  "window_update_load h payload =
     (if length payload \<noteq> 4 then Err BadFrameSize
      else rbind (unpack_octets_4 payload 0) (\<lambda>raw.
        let size_increment = raw AND NOT SIZE_INCREMENT_MASK in
        if size_increment = 0 then Err InvalidWindowUpdateValue
        else Ok \<lparr>wu_stream_id = h_stream_id h, wu_size_increment = size_increment\<rparr>))"

definition window_update_head :: "window_update_frame \<Rightarrow> head" where
  "window_update_head f = head_new KWindowUpdate 0 (wu_stream_id f)"

definition window_update_encode :: "window_update_frame \<Rightarrow> bytes" where
  "window_update_encode f = head_encode (window_update_head f) 4 @ put_u32 (wu_size_increment f)"

text \<open>A WINDOW_UPDATE carries an increment between 1 and \<open>2\<^sup>3\<^sup>1 - 1\<close>.\<close>

definition window_update_wf :: "window_update_frame \<Rightarrow> bool" where
  "window_update_wf f =
     (valid_stream_id (wu_stream_id f) \<and> wu_size_increment f \<noteq> 0 \<and> \<not> bit (wu_size_increment f) 31)"

lemma size_increment_mask_simps:
  "\<not> bit w 31 \<Longrightarrow> w AND NOT SIZE_INCREMENT_MASK = w"
  "\<not> bit (w AND NOT SIZE_INCREMENT_MASK) 31"
  unfolding SIZE_INCREMENT_MASK_def
  by (rule and_not_mask_id, assumption, rule bit_and_not_mask)

interpretation wu: frame_codec
  window_update_head "\<lambda>f. put_u32 (wu_size_increment f)" window_update_encode window_update_load
  window_update_wf
  by unfold_locales
    (auto simp: window_update_head_def head_new_def window_update_encode_def window_update_load_def
      codec_simps window_update_wf_def size_increment_mask_simps unpack_octets_4_no_panic
      rbind_eq_Panic Let_def split: if_splits)

lemma window_update_load_wf:
  "valid_stream_id (h_stream_id h) \<Longrightarrow> window_update_load h p = Ok f \<Longrightarrow> window_update_wf f"
  by (auto simp: window_update_load_def window_update_wf_def rbind_eq_Ok Let_def
      size_increment_mask_simps split: if_splits)

section \<open>PRIORITY\<close>

record stream_dependency =
  dependency_id :: stream_id
  weight :: u8
  is_exclusive :: bool

record priority_frame =
  pri_stream_id :: stream_id
  pri_dependency :: stream_dependency

definition stream_dependency_load :: "bytes \<Rightarrow> (stream_dependency, frame_error) result" where
  "stream_dependency_load src =
     (if length src \<noteq> 5 then Err InvalidPayloadLength
      else rbind (stream_id_parse (take 4 src)) (\<lambda>(dep, excl).
        Ok \<lparr>dependency_id = dep, weight = src ! 4, is_exclusive = excl\<rparr>))"

definition priority_load :: "head \<Rightarrow> bytes \<Rightarrow> (priority_frame, frame_error) result" where
  "priority_load h payload =
     rbind (stream_dependency_load payload) (\<lambda>dep.
       if dependency_id dep = h_stream_id h then Err InvalidDependencyId
       else Ok \<lparr>pri_stream_id = h_stream_id h, pri_dependency = dep\<rparr>)"

lemma stream_dependency_load_no_panic: "stream_dependency_load src \<noteq> Panic"
  by (auto simp: stream_dependency_load_def stream_id_parse_def Let_def)

lemma priority_load_no_panic: "priority_load h p \<noteq> Panic"
  by (auto simp: priority_load_def rbind_eq_Panic stream_dependency_load_no_panic)

lemma stream_dependency_load_valid:
  "stream_dependency_load src = Ok d \<Longrightarrow> valid_stream_id (dependency_id d)"
  by (auto simp: stream_dependency_load_def rbind_eq_Ok split: if_splits dest!: stream_id_parse_Ok)

text \<open>No PRIORITY frame that loads makes a stream depend on itself.\<close>

lemma priority_load_Ok:
  "priority_load h p = Ok f \<Longrightarrow> pri_stream_id f = h_stream_id h
     \<and> dependency_id (pri_dependency f) \<noteq> pri_stream_id f"
  by (auto simp: priority_load_def rbind_eq_Ok split: if_splits)

section \<open>GOAWAY\<close>

record go_away_frame =
  ga_last_stream_id :: stream_id
  ga_error_code :: reason
  ga_debug_data :: bytes

definition go_away_new :: "stream_id \<Rightarrow> reason \<Rightarrow> go_away_frame" where
  "go_away_new sid r = \<lparr>ga_last_stream_id = sid, ga_error_code = r, ga_debug_data = []\<rparr>"

definition go_away_with_debug_data :: "stream_id \<Rightarrow> reason \<Rightarrow> bytes \<Rightarrow> go_away_frame" where
  "go_away_with_debug_data sid r d =
     \<lparr>ga_last_stream_id = sid, ga_error_code = r, ga_debug_data = d\<rparr>"

definition go_away_load :: "bytes \<Rightarrow> (go_away_frame, frame_error) result" where
  "go_away_load payload =
     (if length payload < 8 then Err BadFrameSize
      else rbind (stream_id_parse (take 4 payload)) (\<lambda>(sid, _).
        rbind (unpack_octets_4 payload 4) (\<lambda>code.
          Ok \<lparr>ga_last_stream_id = sid, ga_error_code = Reason code,
              ga_debug_data = drop 8 payload\<rparr>)))"

definition go_away_head :: "go_away_frame \<Rightarrow> head" where
  "go_away_head f = head_new KGoAway 0 STREAM_ID_ZERO"

definition go_away_payload :: "go_away_frame \<Rightarrow> bytes" where
  "go_away_payload f =
     put_u32 (ga_last_stream_id f) @ put_u32 (reason_code (ga_error_code f)) @ ga_debug_data f"

definition go_away_encode :: "go_away_frame \<Rightarrow> bytes" where
  "go_away_encode f =
     head_encode (go_away_head f) (8 + length (ga_debug_data f))
       @ put_u32 (ga_last_stream_id f) @ put_u32 (reason_code (ga_error_code f)) @ ga_debug_data f"

lemma stream_id_parse_put_only [codec_simps]:
  "valid_stream_id sid \<Longrightarrow> stream_id_parse (put_u32 sid) = Ok (sid, False)"
  using stream_id_parse_put [of sid "[]"] by simp

lemma go_away_load_payload:
  "valid_stream_id (ga_last_stream_id f) \<Longrightarrow> go_away_load (go_away_payload f) = Ok f"
  by (simp add: go_away_load_def go_away_payload_def codec_simps)

lemma go_away_load_no_panic: "go_away_load p \<noteq> Panic"
  by (auto simp: go_away_load_def rbind_eq_Panic unpack_octets_4_no_panic stream_id_parse_no_panic)

interpretation ga: frame_codec
  go_away_head go_away_payload go_away_encode "\<lambda>_. go_away_load"
  "\<lambda>f. valid_stream_id (ga_last_stream_id f)"
  by unfold_locales
    (auto simp: go_away_head_def head_new_def go_away_encode_def go_away_load_payload
      STREAM_ID_ZERO_def go_away_load_no_panic, simp_all add: go_away_payload_def)

section \<open>PING\<close>

definition PING_ACK_FLAG :: u8 where
  "PING_ACK_FLAG = 1"

record ping_frame =
  ping_ack :: bool
  ping_payload :: bytes

definition SHUTDOWN_PAYLOAD :: bytes where
  "SHUTDOWN_PAYLOAD = [0x0b, 0x7b, 0xa2, 0xf0, 0x8b, 0x9b, 0xfe, 0x54]"

definition USER_PAYLOAD :: bytes where
  "USER_PAYLOAD = [0x3b, 0x7c, 0xdb, 0x7a, 0x0b, 0x87, 0x16, 0xb4]"

definition ping_new :: "bytes \<Rightarrow> ping_frame" where
  "ping_new p = \<lparr>ping_ack = False, ping_payload = p\<rparr>"

definition ping_pong :: "bytes \<Rightarrow> ping_frame" where
  "ping_pong p = \<lparr>ping_ack = True, ping_payload = p\<rparr>"

definition ping_load :: "head \<Rightarrow> bytes \<Rightarrow> (ping_frame, frame_error) result" where
  "ping_load h bs =
     (if \<not> stream_id_is_zero (h_stream_id h) then Err InvalidStreamId
      else if length bs \<noteq> 8 then Err BadFrameSize
      else Ok \<lparr>ping_ack = (h_flag h AND PING_ACK_FLAG \<noteq> 0), ping_payload = bs\<rparr>)"

definition ping_head :: "ping_frame \<Rightarrow> head" where
  "ping_head f = head_new KPing (if ping_ack f then PING_ACK_FLAG else 0) STREAM_ID_ZERO"

definition ping_encode :: "ping_frame \<Rightarrow> bytes" where
  "ping_encode f = head_encode (ping_head f) (length (ping_payload f)) @ ping_payload f"

text \<open>\<open>Payload = [u8; 8]\<close>: a PING payload has eight bytes by its type.\<close>

interpretation pi: frame_codec
  ping_head ping_payload ping_encode ping_load "\<lambda>f. length (ping_payload f) = 8"
  by unfold_locales
    (auto simp: ping_head_def head_new_def ping_encode_def ping_load_def PING_ACK_FLAG_def
      STREAM_ID_ZERO_def stream_id_is_zero_def)

section \<open>Padding\<close>

text \<open>\<open>strip_padding\<close> returns the padding length and the payload it leaves.\<close>

definition strip_padding :: "bytes \<Rightarrow> (u8 \<times> bytes, frame_error) result" where
  "strip_padding payload =
     (let payload_len = length payload in
      if payload_len = 0 then Err TooMuchPadding
      else let pad_len = unat (payload ! 0) in
        if pad_len \<ge> payload_len then Err TooMuchPadding
        else Ok (of_nat pad_len, take (payload_len - pad_len - 1) (drop 1 payload)))"

lemma strip_padding_no_panic: "strip_padding p \<noteq> Panic"
  by (simp add: strip_padding_def Let_def)

text \<open>Stripping undoes padding with any filler, and fails only when no payload could have been padded.\<close>

lemma strip_padding_padded:
  "length pad = unat n \<Longrightarrow> strip_padding (n # data @ pad) = Ok (n, data)"
  by (simp add: strip_padding_def Let_def)

lemma strip_padding_Ok:
  assumes "strip_padding p = Ok (n, data)"
  shows "\<exists>pad. p = n # data @ pad \<and> length pad = unat n"
proof -
  from assms obtain b bs where p: "p = b # bs"
    by (cases p) (auto simp: strip_padding_def)
  with assms have le: "unat b \<le> length bs" and n: "n = b"
    and d: "data = take (length bs - unat b) bs"
    by (auto simp: strip_padding_def Let_def split: if_splits)
  then have "p = n # data @ drop (length bs - unat b) bs" using p by simp
  with le n show ?thesis by (metis diff_diff_cancel length_drop)
qed

section \<open>DATA\<close>

definition DATA_END_STREAM :: u8 where "DATA_END_STREAM = 1"
definition DATA_PADDED :: u8 where "DATA_PADDED = 8"
definition DATA_ALL :: u8 where "DATA_ALL = DATA_END_STREAM OR DATA_PADDED"

record data_frame =
  d_stream_id :: stream_id
  d_data :: bytes
  d_flags :: u8
  d_pad_len :: "u8 option"

definition data_flags_load :: "u8 \<Rightarrow> u8" where
  "data_flags_load bits = bits AND DATA_ALL"

definition data_flags_is_end_stream :: "u8 \<Rightarrow> bool" where
  "data_flags_is_end_stream f = (f AND DATA_END_STREAM = DATA_END_STREAM)"

definition data_flags_is_padded :: "u8 \<Rightarrow> bool" where
  "data_flags_is_padded f = (f AND DATA_PADDED = DATA_PADDED)"

definition data_new :: "stream_id \<Rightarrow> bytes \<Rightarrow> (data_frame, 'e) result" where
  "data_new sid payload =
     (if stream_id_is_zero sid then Panic
      else Ok \<lparr>d_stream_id = sid, d_data = payload, d_flags = 0, d_pad_len = None\<rparr>)"

definition data_is_end_stream :: "data_frame \<Rightarrow> bool" where
  "data_is_end_stream f = data_flags_is_end_stream (d_flags f)"

definition data_set_end_stream :: "bool \<Rightarrow> data_frame \<Rightarrow> data_frame" where
  "data_set_end_stream val f =
     f\<lparr>d_flags := (if val then d_flags f OR DATA_END_STREAM else d_flags f AND NOT DATA_END_STREAM)\<rparr>"

definition data_head :: "data_frame \<Rightarrow> head" where
  "data_head f = head_new KData (d_flags f) (d_stream_id f)"

definition data_load :: "head \<Rightarrow> bytes \<Rightarrow> (data_frame, frame_error) result" where
  "data_load h payload =
     (let flags = data_flags_load (h_flag h) in
      if stream_id_is_zero (h_stream_id h) then Err InvalidStreamId
      else if data_flags_is_padded flags then
        rbind (strip_padding payload) (\<lambda>(len, rest).
          Ok \<lparr>d_stream_id = h_stream_id h, d_data = rest, d_flags = flags, d_pad_len = Some len\<rparr>)
      else
        Ok \<lparr>d_stream_id = h_stream_id h, d_data = payload, d_flags = flags, d_pad_len = None\<rparr>)"

definition data_encode_chunk :: "data_frame \<Rightarrow> bytes" where
  "data_encode_chunk f = head_encode (data_head f) (length (d_data f)) @ d_data f"

text \<open>
  The DATA frames this library builds: a non-zero stream, no padding, no flag but END_STREAM.
  \<open>data_new\<close> makes such a frame and \<open>data_set_end_stream\<close> keeps it one.
\<close>

definition data_wf :: "data_frame \<Rightarrow> bool" where
  "data_wf f = (valid_stream_id (d_stream_id f) \<and> d_stream_id f \<noteq> 0 \<and> d_pad_len f = None
     \<and> (d_flags f = 0 \<or> d_flags f = DATA_END_STREAM))"

lemma data_new_wf: "valid_stream_id sid \<Longrightarrow> data_new sid p = Ok f \<Longrightarrow> data_wf f"
  by (auto simp: data_new_def data_wf_def stream_id_is_zero_def split: if_splits)

lemma data_set_end_stream_wf: "data_wf f \<Longrightarrow> data_wf (data_set_end_stream v f)"
  by (auto simp: data_wf_def data_set_end_stream_def DATA_END_STREAM_def)

lemma data_set_end_stream_is: "data_is_end_stream (data_set_end_stream v f) = v"
proof -
  have "(w OR 1) AND 1 = (1 :: u8)" for w by (rule bit_word_eqI) (auto simp: bit_simps)
  moreover have "(w AND NOT 1) AND 1 = (0 :: u8)" for w
    by (rule bit_word_eqI) (auto simp: bit_simps)
  ultimately show ?thesis
    by (auto simp: data_is_end_stream_def data_flags_is_end_stream_def data_set_end_stream_def
        DATA_END_STREAM_def)
qed

interpretation da: frame_codec data_head d_data data_encode_chunk data_load data_wf
  by unfold_locales
    (auto simp: data_head_def head_new_def data_encode_chunk_def data_load_def data_wf_def
      data_flags_load_def data_flags_is_padded_def DATA_END_STREAM_def DATA_PADDED_def DATA_ALL_def
      stream_id_is_zero_def Let_def rbind_eq_Panic strip_padding_no_panic)

end
