(* ===== verification/Frame_Headers.thy ===== *)
theory Frame_Headers
  imports Frame_Control Hpack_Encoder
begin

text \<open>
  HEADERS, PUSH_PROMISE and CONTINUATION frames (\<open>frame/headers.rs\<close>): flags, loading with padding and
  priority, collecting the decoded header list under its size limit, the order in which a block is
  encoded, and the splitting of an encoded block over frames. The header map is the crate
  \<open>header-plz\<close>'s: the record \<open>hmap\<close> of its operations is a parameter.
\<close>

section \<open>Flags\<close>

definition END_STREAM :: u8 where "END_STREAM = 0x1"
definition END_HEADERS :: u8 where "END_HEADERS = 0x4"
definition PADDED :: u8 where "PADDED = 0x8"
definition PRIORITY :: u8 where "PRIORITY = 0x20"
definition HEADERS_ALL :: u8 where "HEADERS_ALL = END_STREAM OR END_HEADERS OR PADDED OR PRIORITY"

lemmas headers_flag_defs = END_STREAM_def END_HEADERS_def PADDED_def PRIORITY_def

definition headers_flag_load :: "u8 \<Rightarrow> u8" where "headers_flag_load bits = bits AND HEADERS_ALL"
definition flag_is_end_stream :: "u8 \<Rightarrow> bool" where "flag_is_end_stream f \<longleftrightarrow> f AND END_STREAM = END_STREAM"
definition flag_set_end_stream :: "u8 \<Rightarrow> u8" where "flag_set_end_stream f = f OR END_STREAM"
definition flag_unset_end_stream :: "u8 \<Rightarrow> u8" where "flag_unset_end_stream f = f AND NOT END_STREAM"
definition flag_is_end_headers :: "u8 \<Rightarrow> bool" where "flag_is_end_headers f \<longleftrightarrow> f AND END_HEADERS = END_HEADERS"
definition flag_set_end_headers :: "u8 \<Rightarrow> u8" where "flag_set_end_headers f = f OR END_HEADERS"
definition flag_is_padded :: "u8 \<Rightarrow> bool" where "flag_is_padded f \<longleftrightarrow> f AND PADDED = PADDED"
definition flag_is_priority :: "u8 \<Rightarrow> bool" where "flag_is_priority f \<longleftrightarrow> f AND PRIORITY = PRIORITY"

lemmas headers_flag_op_defs = headers_flag_load_def flag_is_end_stream_def flag_set_end_stream_def
  flag_unset_end_stream_def flag_is_end_headers_def flag_set_end_headers_def flag_is_padded_def
  flag_is_priority_def

section \<open>Blocks and frames\<close>

text \<open>The operations of \<open>HeaderMap\<close> that the sources use.\<close>

record 'h hmap =
  hm_new :: 'h
  hm_is_empty :: "'h \<Rightarrow> bool"
  hm_insert :: "bytes \<Rightarrow> bytes \<Rightarrow> 'h \<Rightarrow> 'h"
  hm_list :: "'h \<Rightarrow> (bytes \<times> bytes) list"
  hm_lens :: "'h \<Rightarrow> nat list"
  hm_value_of_key :: "bytes \<Rightarrow> 'h \<Rightarrow> bytes option"

text \<open>The methods of the \<open>HeaderMap\<close> type, as its documentation has them: a list in insertion order.\<close>

definition hmap_ok :: "'h hmap \<Rightarrow> bool" where
  "hmap_ok H \<longleftrightarrow> hm_list H (hm_new H) = []
     \<and> (\<forall>n v h. hm_list H (hm_insert H n v h) = hm_list H h @ [(n, v)])
     \<and> (\<forall>h. hm_is_empty H h \<longleftrightarrow> hm_list H h = [])"

record ('m, 'st) pseudo =
  ps_method :: "'m option"
  ps_scheme :: "bytes option"
  ps_authority :: "bytes option"
  ps_path :: "bytes option"
  ps_protocol :: "bytes option"
  ps_status :: "'st option"

definition pseudo_default :: "('m, 'st) pseudo" where
  "pseudo_default = \<lparr>ps_method = None, ps_scheme = None, ps_authority = None, ps_path = None,
     ps_protocol = None, ps_status = None\<rparr>"

definition pseudo_response :: "'st \<Rightarrow> ('m, 'st) pseudo" where
  "pseudo_response s = pseudo_default\<lparr>ps_status := Some s\<rparr>"

text \<open>\<open>StatusCode::is_informational\<close>: a 1xx code.\<close>

definition pseudo_is_informational :: "('m, 'st) ext \<Rightarrow> ('m, 'st) pseudo \<Rightarrow> bool" where
  "pseudo_is_informational e p =
     (case ps_status p of Some s \<Rightarrow> 100 \<le> status_u16 e s \<and> status_u16 e s < 200 | None \<Rightarrow> False)"

record ('m, 'st, 'h) header_block =
  hb_fields :: 'h
  hb_field_size :: nat
  hb_is_over_size :: bool
  hb_pseudo :: "('m, 'st) pseudo"

record ('m, 'st, 'h) headers_frame =
  hf_stream_id :: stream_id
  hf_stream_dep :: "stream_dependency option"
  hf_block :: "('m, 'st, 'h) header_block"
  hf_flags :: u8

record ('m, 'st, 'h) push_promise_frame =
  ppf_stream_id :: stream_id
  ppf_promised_id :: stream_id
  ppf_block :: "('m, 'st, 'h) header_block"
  ppf_flags :: u8

definition decoded_header_size :: "nat \<Rightarrow> nat \<Rightarrow> nat" where
  "decoded_header_size name value = name + value + 32"

definition calculate_headermap_size :: "'h hmap \<Rightarrow> 'h \<Rightarrow> nat" where
  "calculate_headermap_size H m = sum_list (map (\<lambda>l. l + 32) (hm_lens H m))"

definition empty_block :: "'h hmap \<Rightarrow> ('m, 'st, 'h) header_block" where
  "empty_block H = \<lparr>hb_fields = hm_new H, hb_field_size = 0, hb_is_over_size = False,
     hb_pseudo = pseudo_default\<rparr>"

definition headers_new ::
  "'h hmap \<Rightarrow> stream_id \<Rightarrow> ('m, 'st) pseudo \<Rightarrow> 'h \<Rightarrow> ('m, 'st, 'h) headers_frame" where
  "headers_new H sid p flds = \<lparr>hf_stream_id = sid, hf_stream_dep = None,
     hf_block = \<lparr>hb_fields = flds, hb_field_size = calculate_headermap_size H flds,
       hb_is_over_size = False, hb_pseudo = p\<rparr>,
     hf_flags = END_HEADERS\<rparr>"

definition headers_trailers :: "'h hmap \<Rightarrow> stream_id \<Rightarrow> 'h \<Rightarrow> ('m, 'st, 'h) headers_frame" where
  "headers_trailers H sid flds =
     (headers_new H sid pseudo_default flds)\<lparr>hf_flags := flag_set_end_stream END_HEADERS\<rparr>"

definition push_promise_new ::
  "'h hmap \<Rightarrow> stream_id \<Rightarrow> stream_id \<Rightarrow> ('m, 'st) pseudo \<Rightarrow> 'h \<Rightarrow> ('m, 'st, 'h) push_promise_frame" where
  "push_promise_new H sid promised p flds = \<lparr>ppf_stream_id = sid, ppf_promised_id = promised,
     ppf_block = \<lparr>hb_fields = flds, hb_field_size = calculate_headermap_size H flds,
       hb_is_over_size = False, hb_pseudo = p\<rparr>,
     ppf_flags = END_HEADERS\<rparr>"

definition headers_is_end_stream :: "('m, 'st, 'h) headers_frame \<Rightarrow> bool" where
  "headers_is_end_stream f = flag_is_end_stream (hf_flags f)"

definition headers_is_end_headers :: "('m, 'st, 'h) headers_frame \<Rightarrow> bool" where
  "headers_is_end_headers f = flag_is_end_headers (hf_flags f)"

definition headers_set_end_stream :: "('m, 'st, 'h) headers_frame \<Rightarrow> ('m, 'st, 'h) headers_frame" where
  "headers_set_end_stream f = f\<lparr>hf_flags := flag_set_end_stream (hf_flags f)\<rparr>"

definition headers_unset_end_stream :: "('m, 'st, 'h) headers_frame \<Rightarrow> ('m, 'st, 'h) headers_frame" where
  "headers_unset_end_stream f = f\<lparr>hf_flags := flag_unset_end_stream (hf_flags f)\<rparr>"

section \<open>Loading\<close>

text \<open>The padding length is read in front, the padding itself is cut off at the end.\<close>

definition take_pad_len :: "bool \<Rightarrow> bytes \<Rightarrow> (nat \<times> bytes, frame_error) result" where
  "take_pad_len padded src =
     (if \<not> padded then Ok (0, src)
      else case src of [] \<Rightarrow> Err MalformedMessage | p # rest \<Rightarrow> Ok (unat p, rest))"

definition drop_padding :: "nat \<Rightarrow> bytes \<Rightarrow> (bytes, frame_error) result" where
  "drop_padding pad src =
     (if pad > 0 then if pad > length src then Err TooMuchPadding else Ok (take (length src - pad) src)
      else Ok src)"

definition headers_load ::
  "'h hmap \<Rightarrow> head \<Rightarrow> bytes \<Rightarrow> (('m, 'st, 'h) headers_frame \<times> bytes, frame_error) result" where
  "headers_load H head src =
     (let flags = h_flag head in
      if stream_id_is_zero (h_stream_id head) then Err InvalidStreamId
      else
        rbind (take_pad_len (flag_is_padded flags) src) (\<lambda>(pad, src1).
        rbind (if flag_is_priority flags then
                 if length src1 < 5 then Err MalformedMessage
                 else rbind (stream_dependency_load (take 5 src1)) (\<lambda>dep.
                   if dependency_id dep = h_stream_id head then Err InvalidDependencyId
                   else Ok (Some dep, drop 5 src1))
               else Ok (None, src1)) (\<lambda>(dep, src2).
        rbind (drop_padding pad src2) (\<lambda>payload.
        Ok (\<lparr>hf_stream_id = h_stream_id head, hf_stream_dep = dep, hf_block = empty_block H,
             hf_flags = flags\<rparr>, payload)))))"

definition push_promise_load ::
  "'h hmap \<Rightarrow> head \<Rightarrow> bytes \<Rightarrow> (('m, 'st, 'h) push_promise_frame \<times> bytes, frame_error) result" where
  "push_promise_load H head src =
     (let flags = h_flag head in
      if stream_id_is_zero (h_stream_id head) then Err InvalidStreamId
      else
        rbind (take_pad_len (flag_is_padded flags) src) (\<lambda>(pad, src1).
        if length src1 < 5 then Err MalformedMessage
        else
          rbind (stream_id_parse (take 4 src1)) (\<lambda>(promised, _).
          rbind (drop_padding pad (drop 4 src1)) (\<lambda>payload.
          Ok (\<lparr>ppf_stream_id = h_stream_id head, ppf_promised_id = promised,
               ppf_block = empty_block H, ppf_flags = flags\<rparr>, payload)))))"

section \<open>The header list\<close>

definition pseudo_size :: "nat \<Rightarrow> bytes option \<Rightarrow> nat" where
  "pseudo_size name v = (case v of Some s \<Rightarrow> decoded_header_size (name + 1) (length s) | None \<Rightarrow> 0)"

text \<open>\<open>calculate_header_list_size\<close>; the protocol is not among its terms.\<close>

definition calculate_header_list_size :: "('m, 'st) ext \<Rightarrow> ('m, 'st, 'h) header_block \<Rightarrow> nat" where
  "calculate_header_list_size e b =
     (let p = hb_pseudo b in
      pseudo_size 6 (map_option (method_as_ref e) (ps_method p))
      + pseudo_size 6 (ps_scheme p)
      + pseudo_size 6 (map_option (status_as_str e) (ps_status p))
      + pseudo_size 9 (ps_authority p)
      + pseudo_size 4 (ps_path p)
      + hb_field_size b)"

text \<open>The locals of \<open>HeaderBlock::load\<close> that its callback changes.\<close>

record ('m, 'st, 'h) block_loading =
  bl_reg :: bool
  bl_malformed :: bool
  bl_headers_size :: nat
  bl_block :: "('m, 'st, 'h) header_block"

text \<open>
  \<open>set_pseudo!\<close> for a pseudo header whose name (without the colon) has \<open>name\<close> letters, whose value
  prints as \<open>val\<close>; \<open>present\<close> says it was seen before and \<open>store\<close> is the assignment.
\<close>

definition set_pseudo ::
  "nat \<Rightarrow> nat \<Rightarrow> bytes \<Rightarrow> bool \<Rightarrow> (('m, 'st) pseudo \<Rightarrow> ('m, 'st) pseudo) \<Rightarrow>
     ('m, 'st, 'h) block_loading \<Rightarrow> ('m, 'st, 'h) block_loading" where
  "set_pseudo max_header_list_size name val present store s =
     (if bl_reg s then s\<lparr>bl_malformed := True\<rparr>
      else if present then s\<lparr>bl_malformed := True\<rparr>
      else
        let sz = bl_headers_size s + decoded_header_size (name + 1) (length val);
            s1 = s\<lparr>bl_headers_size := sz\<rparr>; b = bl_block s in
        if sz < max_header_list_size then s1\<lparr>bl_block := b\<lparr>hb_pseudo := store (hb_pseudo b)\<rparr>\<rparr>
        else s1\<lparr>bl_block := b\<lparr>hb_is_over_size := True\<rparr>\<rparr>)"

definition connection_header :: "('m, 'st) ext \<Rightarrow> bytes \<Rightarrow> bool" where
  "connection_header e name \<longleftrightarrow>
     name = const_header e CONNECTION \<or> name = const_header e TRANSFER_ENCODING
   \<or> name = const_header e UPGRADE \<or> name = str ''keep-alive'' \<or> name = str ''proxy-connection''"

definition load_header ::
  "('m, 'st) ext \<Rightarrow> 'h hmap \<Rightarrow> nat \<Rightarrow> ('m, 'st, bytes) header \<Rightarrow>
     ('m, 'st, 'h) block_loading \<Rightarrow> ('m, 'st, 'h) block_loading" where
  "load_header e H max_header_list_size hdr s =
     (let p = hb_pseudo (bl_block s) in
      case hdr of
        Field name value \<Rightarrow>
          if connection_header e name then s\<lparr>bl_malformed := True\<rparr>
          else if name = const_header e TE \<and> \<not> bytes_str_eq value (str ''trailers'') then s\<lparr>bl_malformed := True\<rparr>
          else
            let sz = bl_headers_size s + decoded_header_size (length name) (length value);
                s1 = s\<lparr>bl_reg := True, bl_headers_size := sz\<rparr>; b = bl_block s in
            if sz < max_header_list_size
            then s1\<lparr>bl_block := b\<lparr>hb_field_size := hb_field_size b + decoded_header_size (length name) (length value),
                                  hb_fields := hm_insert H name value (hb_fields b)\<rparr>\<rparr>
            else s1\<lparr>bl_block := b\<lparr>hb_is_over_size := True\<rparr>\<rparr>
      | Authority v \<Rightarrow> set_pseudo max_header_list_size 9 v (ps_authority p \<noteq> None) (\<lambda>q. q\<lparr>ps_authority := Some v\<rparr>) s
      | Method v \<Rightarrow> set_pseudo max_header_list_size 6 (method_as_ref e v) (ps_method p \<noteq> None)
          (\<lambda>q. q\<lparr>ps_method := Some v\<rparr>) s
      | Scheme v \<Rightarrow> set_pseudo max_header_list_size 6 v (ps_scheme p \<noteq> None) (\<lambda>q. q\<lparr>ps_scheme := Some v\<rparr>) s
      | Path v \<Rightarrow> set_pseudo max_header_list_size 4 v (ps_path p \<noteq> None) (\<lambda>q. q\<lparr>ps_path := Some v\<rparr>) s
      | Protocol v \<Rightarrow> set_pseudo max_header_list_size 8 v (ps_protocol p \<noteq> None) (\<lambda>q. q\<lparr>ps_protocol := Some v\<rparr>) s
      | Status v \<Rightarrow> set_pseudo max_header_list_size 6 (status_as_str e v) (ps_status p \<noteq> None)
          (\<lambda>q. q\<lparr>ps_status := Some v\<rparr>) s)"

text \<open>
  \<open>HeaderBlock::load\<close>: the outcome, the block, what is left of the source buffer, and the decoder.
  The HPACK error is looked at before the \<open>malformed\<close> flag.
\<close>

definition block_load ::
  "('m, 'st) ext \<Rightarrow> 'h hmap \<Rightarrow> bytes \<Rightarrow> nat \<Rightarrow> ('m, 'st) hpack_decoder \<Rightarrow> ('m, 'st, 'h) header_block \<Rightarrow>
     (unit, frame_error) result \<times> ('m, 'st, 'h) header_block \<times> bytes \<times> ('m, 'st) hpack_decoder" where
  "block_load e H src max_header_list_size dec b =
     (case decode e dec \<lparr>c_pos = 0, c_inner = src\<rparr> of (res, hs, (dec', c)) \<Rightarrow>
        let s0 = \<lparr>bl_reg = \<not> hm_is_empty H (hb_fields b), bl_malformed = False,
                  bl_headers_size = calculate_header_list_size e b, bl_block = b\<rparr>;
            s = fold (load_header e H max_header_list_size) hs s0 in
        (case res of
           Ok _ \<Rightarrow> if bl_malformed s then Err MalformedMessage else Ok ()
         | Err er \<Rightarrow> Err (Hpack er)
         | Panic \<Rightarrow> Panic,
         bl_block s, c_inner c, dec'))"

section \<open>Encoding\<close>

text \<open>
  The order of \<open>Iter\<close>: the pseudo headers first, then the fields. A field name or value that is not
  UTF-8 makes its \<open>unwrap\<close> panic.
\<close>

definition pseudo_headers :: "('m, 'st) pseudo \<Rightarrow> ('m, 'st, bytes) header list" where
  "pseudo_headers p =
     (case ps_method p of Some v \<Rightarrow> [Method v] | None \<Rightarrow> [])
     @ (case ps_scheme p of Some v \<Rightarrow> [Scheme v] | None \<Rightarrow> [])
     @ (case ps_authority p of Some v \<Rightarrow> [Authority v] | None \<Rightarrow> [])
     @ (case ps_path p of Some v \<Rightarrow> [Path v] | None \<Rightarrow> [])
     @ (case ps_protocol p of Some v \<Rightarrow> [Protocol v] | None \<Rightarrow> [])
     @ (case ps_status p of Some v \<Rightarrow> [Status v] | None \<Rightarrow> [])"

definition block_iter :: "'h hmap \<Rightarrow> ('m, 'st, 'h) header_block \<Rightarrow> (('m, 'st, bytes) header list, unit) result" where
  "block_iter H b =
     (if \<forall>(n, v) \<in> set (hm_list H (hb_fields b)). utf8_valid n \<and> utf8_valid v
      then Ok (pseudo_headers (hb_pseudo b) @ map (\<lambda>(n, v). Field n v) (hm_list H (hb_fields b)))
      else Panic)"

text \<open>
  \<open>EncodingHeaderBlock::encode\<close>: the frame written into a buffer with room for \<open>limit\<close> bytes, and the
  rest of the block for a CONTINUATION. The head is written with length 0 and END_HEADERS and then
  corrected in place; \<open>extra\<close> is what the frame has before the block.
\<close>

definition block_encode :: "head \<Rightarrow> nat \<Rightarrow> bytes \<Rightarrow> bytes \<Rightarrow> (bytes \<times> bytes option, unit) result" where
  "block_encode hd0 limit extra hpack =
     (if limit < HEADER_LEN + length extra then Panic
      else
        let room = limit - HEADER_LEN - length extra;
            more = (length hpack > room);
            body = (if more then take room hpack else hpack);
            payload_len = length extra + length body in
        if payload_len \<ge> 2 ^ 24 then Panic
        else
          let frame = head_encode hd0 0 @ extra @ body;
              frame1 = take 3 (put_uint3 (of_nat payload_len)) @ drop 3 frame in
          if more then
            if frame1 ! 4 AND END_HEADERS \<noteq> END_HEADERS then Panic
            else Ok (frame1[4 := frame1 ! 4 - END_HEADERS], Some (drop room hpack))
          else Ok (frame1, None))"

definition headers_head :: "('m, 'st, 'h) headers_frame \<Rightarrow> head" where
  "headers_head f = head_new KHeaders (hf_flags f) (hf_stream_id f)"

definition push_promise_head :: "('m, 'st, 'h) push_promise_frame \<Rightarrow> head" where
  "push_promise_head f = head_new KPushPromise (ppf_flags f) (ppf_stream_id f)"

definition continuation_head :: "stream_id \<Rightarrow> head" where
  "continuation_head sid = head_new KContinuation END_HEADERS sid"

section \<open>Content length\<close>

fun parse_u64_loop :: "u64 \<Rightarrow> bytes \<Rightarrow> (u64, unit) result" where
  "parse_u64_loop ret [] = Ok ret"
| "parse_u64_loop ret (d # src) =
     (if \<not> (0x30 \<le> d \<and> d \<le> 0x39) then Err ()
      else parse_u64_loop (ret * 10 + ucast (d - 0x30)) src)"

definition parse_u64 :: "bytes \<Rightarrow> (u64, unit) result" where
  "parse_u64 src = (if length src > 19 then Err () else parse_u64_loop 0 src)"

section \<open>The number in a content-length\<close>

definition digits_value :: "bytes \<Rightarrow> nat" where
  "digits_value src = foldl (\<lambda>a d. a * 10 + unat (d - 0x30)) 0 src"

definition is_digit :: "u8 \<Rightarrow> bool" where "is_digit d \<longleftrightarrow> 0x30 \<le> d \<and> d \<le> 0x39"

lemma unat_digit: "is_digit d \<Longrightarrow> unat (d - 0x30) \<le> 9"
  by (auto simp: is_digit_def word_le_nat_alt unat_sub_if_size word_size)

lemma parse_u64_loop_spec:
  "unat ret < 10 ^ k \<Longrightarrow> k + length src \<le> 19 \<Longrightarrow>
     (\<forall>d \<in> set src. is_digit d) \<and> (\<exists>n. parse_u64_loop ret src = Ok n
        \<and> unat n = foldl (\<lambda>a d. a * 10 + unat (d - 0x30)) (unat ret) src)
   \<or> \<not> (\<forall>d \<in> set src. is_digit d) \<and> parse_u64_loop ret src = Err ()"
proof (induction src arbitrary: ret k)
  case (Cons d src)
  show ?case
  proof (cases "is_digit d")
    case True
    let ?r = "ret * 10 + ucast (d - 0x30) :: u64"
    have d9: "unat (d - 0x30) \<le> 9" using True by (rule unat_digit)
    have b: "unat ret * 10 + unat (d - 0x30) < 10 ^ Suc k" using Cons.prems(1) d9 by simp
    have "(10 :: nat) ^ Suc k \<le> 10 ^ 19" using Cons.prems(2) by (intro power_increasing) simp_all
    then have lt: "unat ret * 10 + unat (d - 0x30) < 2 ^ 64" using b by simp
    have "?r = of_nat (unat ret * 10 + unat (d - 0x30))" by simp
    then have r: "unat ?r = unat ret * 10 + unat (d - 0x30)"
      using lt by (simp add: unat_of_nat take_bit_nat_eq_self del: of_nat_add of_nat_mult)
    from Cons.IH [of ?r "Suc k"] b r Cons.prems(2) True show ?thesis by (auto simp: is_digit_def)
  qed (auto simp: is_digit_def)
qed simp

lemma parse_u64_spec:
  "parse_u64 src = Ok n \<longleftrightarrow> length src \<le> 19 \<and> (\<forall>d \<in> set src. is_digit d) \<and> unat n = digits_value src"
  "parse_u64 src \<noteq> Panic"
proof -
  have "length src \<le> 19 \<Longrightarrow> (\<forall>d \<in> set src. is_digit d) \<and> (\<exists>n. parse_u64_loop 0 src = Ok n \<and> unat n = digits_value src)
      \<or> \<not> (\<forall>d \<in> set src. is_digit d) \<and> parse_u64_loop 0 src = Err ()"
    using parse_u64_loop_spec [of 0 0 src] by (simp add: digits_value_def)
  then show "parse_u64 src = Ok n \<longleftrightarrow> length src \<le> 19 \<and> (\<forall>d \<in> set src. is_digit d) \<and> unat n = digits_value src"
    "parse_u64 src \<noteq> Panic"
    by (auto simp: parse_u64_def not_less word_unat_eq_iff)
qed

section \<open>Loading never panics\<close>

lemma take_pad_len_no_panic: "take_pad_len b src \<noteq> Panic"
  by (auto simp: take_pad_len_def split: list.splits)

lemma drop_padding_no_panic: "drop_padding pad src \<noteq> Panic"
  by (auto simp: drop_padding_def)

lemma promised_id_no_panic: "4 \<le> length src \<Longrightarrow> stream_id_parse (take 4 src) \<noteq> Panic"
  by (auto simp: stream_id_parse_def Let_def)

lemma headers_load_no_panic: "headers_load H hd0 src \<noteq> Panic"
  by (auto simp: headers_load_def Let_def rbind_eq_Panic take_pad_len_no_panic drop_padding_no_panic
      stream_dependency_load_no_panic split: if_splits)

lemma push_promise_load_no_panic: "push_promise_load H hd0 src \<noteq> Panic"
  by (auto simp: push_promise_load_def Let_def rbind_eq_Panic take_pad_len_no_panic drop_padding_no_panic
      promised_id_no_panic split: if_splits)

text \<open>A loaded frame is on the stream of its head, and its payload is a part of the source.\<close>

lemma headers_load_Ok:
  assumes "headers_load H hd0 src = Ok (f, payload)"
  shows "hf_stream_id f = h_stream_id hd0" "hf_flags f = h_flag hd0" "hf_block f = empty_block H"
    "length payload \<le> length src"
    "\<not> flag_is_padded (h_flag hd0) \<Longrightarrow> \<not> flag_is_priority (h_flag hd0) \<Longrightarrow> payload = src"
  using assms
  by (auto simp: headers_load_def Let_def rbind_eq_Ok take_pad_len_def drop_padding_def
      split: if_splits list.splits)

section \<open>Splitting a block over frames\<close>

text \<open>
  The frames the connection writes for one block: the first with \<open>extra\<close>, then CONTINUATION frames
  (\<open>FramedWrite::buffer\<close> and \<open>unset_frame\<close>), each into a buffer of the same limit. It need not end
  when a frame has no room for the block.
\<close>

partial_function (option) header_frames ::
  "head \<Rightarrow> nat \<Rightarrow> bytes \<Rightarrow> bytes \<Rightarrow> (bytes list, unit) result option" where
  "header_frames hd0 limit extra hpack =
     (case block_encode hd0 limit extra hpack of
        Ok (frame, None) \<Rightarrow> Some (Ok [frame])
      | Ok (frame, Some rest) \<Rightarrow>
          Option.bind (header_frames (continuation_head (h_stream_id hd0)) limit [] rest)
            (\<lambda>r. Some (map_ok (\<lambda>fs. frame # fs) r))
      | Err er \<Rightarrow> Some (Err er)
      | Panic \<Rightarrow> Some Panic)"

lemma take3_put_uint3 [simp]: "take 3 (put_uint3 w) = put_uint3 w"
  by (simp add: put_uint3_def)

lemma head_encode_relen: "put_uint3 (of_nat n) @ drop 3 (head_encode h m @ xs) = head_encode h n @ xs"
  by (simp add: head_encode_def put_uint3_def numeral_eq_Suc)

lemma nth4_head_encode: "(head_encode h n @ xs) ! 4 = h_flag h"
  by (simp add: head_encode_def put_uint3_def)

lemma list_update4_head_encode: "(head_encode h n @ xs)[4 := f] = head_encode (h\<lparr>h_flag := f\<rparr>) n @ xs"
  by (simp add: head_encode_def put_uint3_def numeral_eq_Suc)

lemma block_encode_eq:
  assumes "HEADER_LEN + length extra \<le> limit" "limit - HEADER_LEN < 2 ^ 24" "flag_is_end_headers (h_flag hd0)"
  shows "block_encode hd0 limit extra hpack =
    (let room = limit - HEADER_LEN - length extra in
     if length hpack > room
     then Ok (head_encode (hd0\<lparr>h_flag := h_flag hd0 - END_HEADERS\<rparr>) (limit - HEADER_LEN) @ extra @ take room hpack,
              Some (drop room hpack))
     else Ok (head_encode hd0 (length extra + length hpack) @ extra @ hpack, None))"
proof -
  let ?room = "limit - HEADER_LEN - length extra"
  have full: "length extra + ?room = limit - HEADER_LEN" using assms(1) by simp
  have small: "\<not> limit < HEADER_LEN + length extra" using assms(1) by simp
  have endh: "h_flag hd0 AND END_HEADERS = END_HEADERS" using assms(3) by (simp add: flag_is_end_headers_def)
  show ?thesis
  proof (cases "length hpack > ?room")
    case True
    then have "length (take ?room hpack) = ?room" by simp
    moreover have "\<not> 2 ^ 24 \<le> limit - HEADER_LEN" using assms(2) by simp
    ultimately show ?thesis using True full small endh
      by (simp only: block_encode_def Let_def if_True if_False take3_put_uint3 head_encode_relen
          nth4_head_encode list_update4_head_encode simp_thms)
  next
    case False
    then have "\<not> length extra + length hpack \<ge> 2 ^ 24" using assms(2) full by linarith
    with False small show ?thesis
      by (simp only: block_encode_def Let_def if_False take3_put_uint3 head_encode_relen)
  qed
qed

lemma flag_minus_eq:
  assumes "flag_is_end_headers f"
  shows "f - END_HEADERS = f AND NOT END_HEADERS"
proof -
  have "f = (f AND NOT END_HEADERS) OR END_HEADERS"
    using assms by (auto simp: flag_is_end_headers_def u8_eq_iff_bits bit_simps END_HEADERS_def)
  moreover have "(f AND NOT END_HEADERS) AND END_HEADERS = 0"
    by (simp add: u8_eq_iff_bits bit_simps END_HEADERS_def)
  ultimately show ?thesis
    using disjunctive_add_eq_or [of "f AND NOT END_HEADERS" END_HEADERS] by (metis add_diff_cancel_right')
qed

lemma flag_minus_end_headers:
  assumes "flag_is_end_headers f"
  shows "\<not> flag_is_end_headers (f - END_HEADERS)" "flag_set_end_headers (f - END_HEADERS) = f"
    "flag_is_padded (f - END_HEADERS) = flag_is_padded f" "flag_is_priority (f - END_HEADERS) = flag_is_priority f"
  unfolding flag_minus_eq [OF assms] using assms
  by (auto simp: headers_flag_op_defs headers_flag_defs u8_eq_iff_bits bit_simps)

text \<open>What the frames of a block look like to a reader.\<close>

definition frame_head :: "bytes \<Rightarrow> head" where
  "frame_head f = (case head_parse f :: (head, frame_error) result of Ok h \<Rightarrow> h | _ \<Rightarrow> head_new KUnknown 0 0)"

definition frame_payload :: "bytes \<Rightarrow> bytes" where
  "frame_payload f = drop HEADER_LEN f"

lemma frame_head_encode: "valid_stream_id (h_stream_id h) \<Longrightarrow> frame_head (head_encode h n @ xs) = h"
  by (simp add: frame_head_def head_parse_encode)

lemma frame_payload_encode: "frame_payload (head_encode h n @ xs) = xs"
  by (simp add: frame_payload_def HEADER_LEN_def)

lemma header_frames_spec:
  assumes "HEADER_LEN + length extra < limit" "limit - HEADER_LEN < 2 ^ 24"
    "flag_is_end_headers (h_flag hd0)" "valid_stream_id (h_stream_id hd0)"
  shows "\<exists>fs. header_frames hd0 limit extra hpack = Some (Ok fs) \<and> fs \<noteq> []
    \<and> concat (map frame_payload fs) = extra @ hpack
    \<and> (\<forall>f \<in> set fs. 9 \<le> length f \<and> frame_len f = length (frame_payload f)
         \<and> length (frame_payload f) \<le> limit - HEADER_LEN \<and> h_stream_id (frame_head f) = h_stream_id hd0)
    \<and> h_kind (frame_head (hd fs)) = h_kind hd0
    \<and> (\<forall>f \<in> set (tl fs). h_kind (frame_head f) = KContinuation)
    \<and> flag_is_end_headers (h_flag (frame_head (last fs)))
    \<and> (\<forall>f \<in> set (butlast fs). \<not> flag_is_end_headers (h_flag (frame_head f)))"
  using assms
proof (induction "length hpack" arbitrary: hpack hd0 extra rule: less_induct)
  case less
  note eq = block_encode_eq [OF less_imp_le [OF less.prems(1)] less.prems(2,3), of hpack]
  let ?room = "limit - HEADER_LEN - length extra"
  show ?case
  proof (cases "length hpack > ?room")
    case False
    have "frame_len (head_encode hd0 (length extra + length hpack) @ extra @ hpack) = length extra + length hpack"
      using False less.prems(1,2) by (intro frame_len_encode) linarith
    with False eq less.prems show ?thesis
      by (subst header_frames.simps) (auto simp: frame_payload_encode frame_head_encode)
  next
    case True
    let ?h = "hd0\<lparr>h_flag := h_flag hd0 - END_HEADERS\<rparr>"
    let ?f = "head_encode ?h (limit - HEADER_LEN) @ extra @ take ?room hpack"
    let ?c = "continuation_head (h_stream_id hd0)" and ?rest = "drop ?room hpack"
    have c: "flag_is_end_headers (h_flag ?c)" "valid_stream_id (h_stream_id ?c)" "h_stream_id ?c = h_stream_id hd0"
      "h_kind ?c = KContinuation"
      using less.prems(4) by (simp_all add: continuation_head_def head_new_def flag_is_end_headers_def)
    have f: "frame_head ?f = ?h" "frame_payload ?f = extra @ take ?room hpack"
      "frame_len ?f = limit - HEADER_LEN" "length (extra @ take ?room hpack) = limit - HEADER_LEN"
      using less.prems True by (simp_all add: frame_head_encode frame_payload_encode frame_len_encode)
    have "length ?rest < length hpack" using True less.prems(1) by simp
    from less.hyps [OF this, of "[]" ?c] less.prems c obtain fs where
      rec: "header_frames ?c limit [] ?rest = Some (Ok fs)" "fs \<noteq> []" "concat (map frame_payload fs) = ?rest"
        "\<forall>f \<in> set fs. 9 \<le> length f \<and> frame_len f = length (frame_payload f)
          \<and> length (frame_payload f) \<le> limit - HEADER_LEN \<and> h_stream_id (frame_head f) = h_stream_id hd0"
        "h_kind (frame_head (hd fs)) = KContinuation" "\<forall>f \<in> set (tl fs). h_kind (frame_head f) = KContinuation"
        "flag_is_end_headers (h_flag (frame_head (last fs)))"
        "\<forall>f \<in> set (butlast fs). \<not> flag_is_end_headers (h_flag (frame_head f))"
      by auto
    have step: "header_frames hd0 limit extra hpack = Some (Ok (?f # fs))"
      using True eq rec(1) by (subst header_frames.simps) (simp add: Let_def)
    have all: "\<forall>f \<in> set fs. h_kind (frame_head f) = KContinuation"
      using rec(2,5,6) by (cases fs) auto
    show ?thesis
      using rec(2-4,7,8) f all flag_minus_end_headers(1) [OF less.prems(3)] less.prems(1)
      by (intro exI [of _ "?f # fs"]) (simp add: step)
  qed
qed

section \<open>What a loaded block holds\<close>

lemma set_pseudo_frame [simp]:
  "bl_reg (set_pseudo m n v pr st s) = bl_reg s"
  "hb_fields (bl_block (set_pseudo m n v pr st s)) = hb_fields (bl_block s)"
  "hb_field_size (bl_block (set_pseudo m n v pr st s)) = hb_field_size (bl_block s)"
  by (auto simp: set_pseudo_def Let_def)

lemma set_pseudo_clean:
  "\<not> bl_malformed (set_pseudo m n v pr st s) \<Longrightarrow> \<not> bl_malformed s \<and> \<not> bl_reg s \<and> \<not> pr"
  "\<not> hb_is_over_size (bl_block (set_pseudo m n v pr st s)) \<Longrightarrow> \<not> hb_is_over_size (bl_block s)"
  "\<not> bl_malformed (set_pseudo m n v pr st s) \<Longrightarrow> \<not> hb_is_over_size (bl_block (set_pseudo m n v pr st s)) \<Longrightarrow>
     hb_pseudo (bl_block (set_pseudo m n v pr st s)) = st (hb_pseudo (bl_block s))"
  by (auto simp: set_pseudo_def Let_def split: if_splits)

lemma load_header_clean:
  "\<not> bl_malformed (load_header e H m h s) \<Longrightarrow> \<not> bl_malformed s"
  "\<not> hb_is_over_size (bl_block (load_header e H m h s)) \<Longrightarrow> \<not> hb_is_over_size (bl_block s)"
  by (auto simp: load_header_def Let_def split: header.splits if_splits dest: set_pseudo_clean)

lemma fold_load_header_clean:
  "\<not> bl_malformed (fold (load_header e H m) hs s) \<Longrightarrow> \<not> bl_malformed s"
  "\<not> hb_is_over_size (bl_block (fold (load_header e H m) hs s)) \<Longrightarrow> \<not> hb_is_over_size (bl_block s)"
  by (induction hs arbitrary: s) (auto dest: load_header_clean)

text \<open>The field lines of a header list, in order.\<close>

fun field_lines :: "('m, 'st, bytes) header list \<Rightarrow> (bytes \<times> bytes) list" where
  "field_lines [] = []"
| "field_lines (Field n v # hs) = (n, v) # field_lines hs"
| "field_lines (_ # hs) = field_lines hs"

lemma field_lines_append: "field_lines (xs @ ys) = field_lines xs @ field_lines ys"
  by (induction xs rule: field_lines.induct) simp_all

lemma field_lines_Cons: "field_lines (h # hs) = field_lines [h] @ field_lines hs"
  using field_lines_append [of "[h]" hs] by simp

lemma load_header_field_lines:
  assumes "hmap_ok H" "\<not> bl_malformed (load_header e H m h s)" "\<not> hb_is_over_size (bl_block (load_header e H m h s))"
  shows "hm_list H (hb_fields (bl_block (load_header e H m h s)))
    = hm_list H (hb_fields (bl_block s)) @ field_lines [h]"
  using assms by (cases h) (auto simp: load_header_def Let_def hmap_ok_def split: if_splits)

text \<open>Neither malformed nor over size, a block has every field line it was sent, in order.\<close>

lemma load_headers_complete:
  assumes "hmap_ok H" "\<not> bl_malformed (fold (load_header e H m) hs s)"
    "\<not> hb_is_over_size (bl_block (fold (load_header e H m) hs s))"
  shows "hm_list H (hb_fields (bl_block (fold (load_header e H m) hs s)))
    = hm_list H (hb_fields (bl_block s)) @ field_lines hs"
  using assms(2,3)
proof (induction hs arbitrary: s)
  case (Cons h hs)
  let ?s = "load_header e H m h s"
  have "\<not> bl_malformed ?s" "\<not> hb_is_over_size (bl_block ?s)"
    using fold_load_header_clean [of e H m hs ?s] Cons.prems by auto
  from load_header_field_lines [OF assms(1) this] Cons show ?case
    by (simp add: field_lines_Cons [of h hs])
qed simp

text \<open>
  The list size the block accounts for stays below the limit, whatever is sent: a header that would
  reach it is dropped.
\<close>

definition load_bounded :: "('m, 'st) ext \<Rightarrow> nat \<Rightarrow> ('m, 'st, 'h) block_loading \<Rightarrow> bool" where
  "load_bounded e m s \<longleftrightarrow> calculate_header_list_size e (bl_block s) \<le> bl_headers_size s
     \<and> (calculate_header_list_size e (bl_block s) = 0 \<or> calculate_header_list_size e (bl_block s) < m)"

lemma load_header_bounded:
  assumes "load_bounded e m s"
  shows "load_bounded e m (load_header e H m h s)"
  using assms
  by (cases h) (auto simp: load_bounded_def load_header_def set_pseudo_def calculate_header_list_size_def
      pseudo_size_def decoded_header_size_def Let_def)

lemma fold_load_header_bounded:
  "load_bounded e m s \<Longrightarrow> load_bounded e m (fold (load_header e H m) hs s)"
  by (induction hs arbitrary: s) (simp_all add: load_header_bounded)

lemma block_load_bounded:
  assumes "block_load e H src m dec b = (r, b', rest, dec')"
    "calculate_header_list_size e b = 0 \<or> calculate_header_list_size e b < m"
  shows "calculate_header_list_size e b' = 0 \<or> calculate_header_list_size e b' < m"
proof -
  let ?s0 = "\<lparr>bl_reg = \<not> hm_is_empty H (hb_fields b), bl_malformed = False,
    bl_headers_size = calculate_header_list_size e b, bl_block = b\<rparr>"
  obtain res hs d c where dec: "decode e dec \<lparr>c_pos = 0, c_inner = src\<rparr> = (res, hs, (d, c))"
    by (metis prod.exhaust)
  have "load_bounded e m ?s0" using assms(2) by (simp add: load_bounded_def)
  from fold_load_header_bounded [OF this, of H hs] show ?thesis
    using assms(1) dec by (auto simp: block_load_def Let_def load_bounded_def)
qed

section \<open>Reading back what a block writes\<close>

definition field_clean :: "('m, 'st) ext \<Rightarrow> bytes \<times> bytes \<Rightarrow> bool" where
  "field_clean e f \<longleftrightarrow> \<not> connection_header e (fst f)
     \<and> (fst f = const_header e TE \<longrightarrow> bytes_str_eq (snd f) (str ''trailers''))"

definition load_start :: "'h hmap \<Rightarrow> ('m, 'st, 'h) block_loading" where
  "load_start H = \<lparr>bl_reg = False, bl_malformed = False, bl_headers_size = 0, bl_block = empty_block H\<rparr>"

definition list_size :: "('m, 'st) ext \<Rightarrow> ('m, 'st, bytes) header list \<Rightarrow> nat" where
  "list_size e hs = sum_list (map (\<lambda>h. (case h of Status st \<Rightarrow> 39 + length (status_as_str e st) | _ \<Rightarrow> header_len e h)) hs)"

lemma list_size_simps [simp]:
  "list_size e [] = 0"
  "list_size e (h # hs) = (case h of Status st \<Rightarrow> 39 + length (status_as_str e st) | _ \<Rightarrow> header_len e h) + list_size e hs"
  "list_size e (xs @ ys) = list_size e xs + list_size e ys"
  by (simp_all add: list_size_def)

lemma load_pseudo_headers:
  assumes "list_size e (pseudo_headers p) < m"
  shows "fold (load_header e H m) (pseudo_headers p) (load_start H)
    = (load_start H)\<lparr>bl_headers_size := list_size e (pseudo_headers p),
        bl_block := (empty_block H)\<lparr>hb_pseudo := p\<rparr>\<rparr>"
  using assms
  by (cases p; cases "ps_method p"; cases "ps_scheme p"; cases "ps_authority p"; cases "ps_path p";
      cases "ps_protocol p"; cases "ps_status p")
    (simp_all add: pseudo_headers_def load_header_def set_pseudo_def load_start_def empty_block_def
      pseudo_default_def decoded_header_size_def Let_def)

lemma load_fields:
  assumes "hmap_ok H" "\<forall>f \<in> set fs. field_clean e f"
    "bl_headers_size s + list_size e (map (\<lambda>(n, v). Field n v) fs) < m"
  shows "\<exists>h. fold (load_header e H m) (map (\<lambda>(n, v). Field n v) fs) s
    = s\<lparr>bl_reg := bl_reg s \<or> fs \<noteq> [],
        bl_headers_size := bl_headers_size s + list_size e (map (\<lambda>(n, v). Field n v) fs),
        bl_block := (bl_block s)\<lparr>hb_fields := h,
          hb_field_size := hb_field_size (bl_block s) + list_size e (map (\<lambda>(n, v). Field n v) fs)\<rparr>\<rparr>
    \<and> hm_list H h = hm_list H (hb_fields (bl_block s)) @ fs"
  using assms(2,3)
proof (induction fs arbitrary: s)
  case Nil
  show ?case by (rule exI [of _ "hb_fields (bl_block s)"]) simp
next
  case (Cons f fs)
  obtain n v where f: "f = (n, v)" by fastforce
  let ?s = "load_header e H m (Field n v) s" and ?sz = "decoded_header_size (length n) (length v)"
  have s: "?s = s\<lparr>bl_reg := True, bl_headers_size := bl_headers_size s + ?sz,
      bl_block := (bl_block s)\<lparr>hb_field_size := hb_field_size (bl_block s) + ?sz,
        hb_fields := hm_insert H n v (hb_fields (bl_block s))\<rparr>\<rparr>"
    using Cons.prems f
    by (auto simp: load_header_def Let_def field_clean_def decoded_header_size_def)
  have "hm_list H (hm_insert H n v (hb_fields (bl_block s))) = hm_list H (hb_fields (bl_block s)) @ [(n, v)]"
    using assms(1) by (simp add: hmap_ok_def)
  moreover have "\<forall>f \<in> set fs. field_clean e f"
    "bl_headers_size ?s + list_size e (map (\<lambda>(n, v). Field n v) fs) < m"
    using Cons.prems f s by (simp_all add: decoded_header_size_def)
  note Cons.IH [OF this]
  ultimately show ?case
    using s f by (auto simp: decoded_header_size_def add.assoc add.commute add.left_commute)
qed

lemma load_block_iter:
  assumes "hmap_ok H" "block_iter H b = Ok hs" "\<forall>f \<in> set (hm_list H (hb_fields b)). field_clean e f"
    "list_size e hs < m"
  shows "\<not> bl_malformed (fold (load_header e H m) hs (load_start H))"
    "\<not> hb_is_over_size (bl_block (fold (load_header e H m) hs (load_start H)))"
    "hb_pseudo (bl_block (fold (load_header e H m) hs (load_start H))) = hb_pseudo b"
    "hm_list H (hb_fields (bl_block (fold (load_header e H m) hs (load_start H)))) = hm_list H (hb_fields b)"
proof -
  let ?ps = "pseudo_headers (hb_pseudo b)" and ?fs = "hm_list H (hb_fields b)"
  have hs: "hs = ?ps @ map (\<lambda>(n, v). Field n v) ?fs"
    using assms(2) by (auto simp: block_iter_def split: if_splits)
  let ?s = "fold (load_header e H m) ?ps (load_start H)"
  have ps: "?s = (load_start H)\<lparr>bl_headers_size := list_size e ?ps,
      bl_block := (empty_block H)\<lparr>hb_pseudo := hb_pseudo b\<rparr>\<rparr>"
    using assms(4) hs by (intro load_pseudo_headers) simp
  have "bl_headers_size ?s + list_size e (map (\<lambda>(n, v). Field n v) ?fs) < m"
    using assms(4) hs by (simp add: ps)
  from load_fields [OF assms(1,3) this] hs ps assms(1)
  show "\<not> bl_malformed (fold (load_header e H m) hs (load_start H))"
    "\<not> hb_is_over_size (bl_block (fold (load_header e H m) hs (load_start H)))"
    "hb_pseudo (bl_block (fold (load_header e H m) hs (load_start H))) = hb_pseudo b"
    "hm_list H (hb_fields (bl_block (fold (load_header e H m) hs (load_start H)))) = hm_list H (hb_fields b)"
    by (auto simp: load_start_def empty_block_def hmap_ok_def)
qed

end
