(* ===== verification/Frame_Settings.thy ===== *)
theory Frame_Settings
  imports Frame_Control
begin

text \<open>
  SETTINGS frames (\<open>frame/settings.rs\<close>): the parameters, their validation while loading, and the
  round trip through the encoder, which writes the parameters present in a fixed order.
\<close>

section \<open>State and constants\<close>

definition SETTINGS_ACK :: u8 where "SETTINGS_ACK = 1"
definition SETTINGS_ALL :: u8 where "SETTINGS_ALL = SETTINGS_ACK"

definition DEFAULT_SETTINGS_HEADER_TABLE_SIZE :: nat where
  "DEFAULT_SETTINGS_HEADER_TABLE_SIZE = 4096"
definition DEFAULT_INITIAL_WINDOW_SIZE :: u32 where
  "DEFAULT_INITIAL_WINDOW_SIZE = 65535"
definition DEFAULT_MAX_FRAME_SIZE :: u32 where
  "DEFAULT_MAX_FRAME_SIZE = 16384"
definition MAX_INITIAL_WINDOW_SIZE :: nat where
  "MAX_INITIAL_WINDOW_SIZE = 2 ^ 31 - 1"
definition MAX_MAX_FRAME_SIZE :: u32 where
  "MAX_MAX_FRAME_SIZE = 2 ^ 24 - 1"

record settings =
  s_flags :: u8
  s_header_table_size :: "u32 option"
  s_enable_push :: "u32 option"
  s_max_concurrent_streams :: "u32 option"
  s_initial_window_size :: "u32 option"
  s_max_frame_size :: "u32 option"
  s_max_header_list_size :: "u32 option"
  s_enable_connect_protocol :: "u32 option"

datatype setting =
    HeaderTableSize u32
  | EnablePush u32
  | MaxConcurrentStreams u32
  | InitialWindowSize u32
  | MaxFrameSize u32
  | MaxHeaderListSize u32
  | EnableConnectProtocol u32

definition settings_default :: settings where
  "settings_default = \<lparr>s_flags = 0, s_header_table_size = None, s_enable_push = None,
     s_max_concurrent_streams = None, s_initial_window_size = None, s_max_frame_size = None,
     s_max_header_list_size = None, s_enable_connect_protocol = None\<rparr>"

definition settings_flags_load :: "u8 \<Rightarrow> u8" where
  "settings_flags_load bits = bits AND SETTINGS_ALL"

definition settings_flags_is_ack :: "u8 \<Rightarrow> bool" where
  "settings_flags_is_ack f = (f AND SETTINGS_ACK = SETTINGS_ACK)"

definition settings_ack :: settings where
  "settings_ack = settings_default\<lparr>s_flags := SETTINGS_ACK\<rparr>"

definition settings_is_ack :: "settings \<Rightarrow> bool" where
  "settings_is_ack s = settings_flags_is_ack (s_flags s)"

definition is_push_enabled :: "settings \<Rightarrow> bool option" where
  "is_push_enabled s = map_option (\<lambda>v. v \<noteq> 0) (s_enable_push s)"

definition set_enable_push :: "bool \<Rightarrow> settings \<Rightarrow> settings" where
  "set_enable_push e s = s\<lparr>s_enable_push := Some (of_bool e)\<rparr>"

definition is_extended_connect_protocol_enabled :: "settings \<Rightarrow> bool option" where
  "is_extended_connect_protocol_enabled s = map_option (\<lambda>v. v \<noteq> 0) (s_enable_connect_protocol s)"

definition settings_set_max_frame_size :: "u32 option \<Rightarrow> settings \<Rightarrow> (settings, 'e) result" where
  "settings_set_max_frame_size sz s =
     (case sz of
        Some val \<Rightarrow> if DEFAULT_MAX_FRAME_SIZE \<le> val \<and> val \<le> MAX_MAX_FRAME_SIZE
                    then Ok (s\<lparr>s_max_frame_size := sz\<rparr>) else Panic
      | None \<Rightarrow> Ok (s\<lparr>s_max_frame_size := sz\<rparr>))"

section \<open>One setting\<close>

definition setting_from_id :: "u16 \<Rightarrow> u32 \<Rightarrow> setting option" where
  "setting_from_id sid val =
     (if sid = 1 then Some (HeaderTableSize val) else if sid = 2 then Some (EnablePush val)
      else if sid = 3 then Some (MaxConcurrentStreams val)
      else if sid = 4 then Some (InitialWindowSize val) else if sid = 5 then Some (MaxFrameSize val)
      else if sid = 6 then Some (MaxHeaderListSize val)
      else if sid = 8 then Some (EnableConnectProtocol val) else None)"

definition setting_load :: "bytes \<Rightarrow> (setting option, 'e) result" where
  "setting_load raw =
     (if length raw < 2 then Panic
      else let sid = be16 (raw ! 0) (raw ! 1) in
        rbind (unpack_octets_4 raw 2) (\<lambda>val. Ok (setting_from_id sid val)))"

fun setting_id_val :: "setting \<Rightarrow> u16 \<times> u32" where
  "setting_id_val (HeaderTableSize v) = (1, v)"
| "setting_id_val (EnablePush v) = (2, v)"
| "setting_id_val (MaxConcurrentStreams v) = (3, v)"
| "setting_id_val (InitialWindowSize v) = (4, v)"
| "setting_id_val (MaxFrameSize v) = (5, v)"
| "setting_id_val (MaxHeaderListSize v) = (6, v)"
| "setting_id_val (EnableConnectProtocol v) = (8, v)"

definition setting_encode :: "setting \<Rightarrow> bytes" where
  "setting_encode s = (case setting_id_val s of (k, v) \<Rightarrow> put_u16 k @ put_u32 v)"

lemma setting_encode_length [simp]: "length (setting_encode s) = 6"
  by (simp add: setting_encode_def split: prod.splits)

lemma setting_from_id_val [simp]: "setting_id_val s = (k, v) \<Longrightarrow> setting_from_id k v = Some s"
  by (cases s) (auto simp: setting_from_id_def)

lemma unpack_octets_4_put2: "unpack_octets_4 (put_u16 k @ put_u32 v) 2 = Ok v"
  using unpack_octets_4_put [of "put_u16 k" v "[]"] by simp

lemma setting_load_encode [codec_simps]: "setting_load (setting_encode s) = Ok (Some s)"
proof -
  obtain k v where kv: "setting_id_val s = (k, v)" by fastforce
  have "be16 ((put_u16 k @ put_u32 v) ! 0) ((put_u16 k @ put_u32 v) ! 1) = k"
    by (simp add: put_u16_def be16_put)
  with kv show ?thesis
    by (simp add: setting_load_def setting_encode_def unpack_octets_4_put2)
qed

section \<open>Loading a SETTINGS frame\<close>

text \<open>One turn of the loop over the six-byte chunks of the payload.\<close>

definition settings_apply :: "settings \<Rightarrow> setting \<Rightarrow> (settings, frame_error) result" where
  "settings_apply s st =
     (case st of
        HeaderTableSize val \<Rightarrow> Ok (s\<lparr>s_header_table_size := Some val\<rparr>)
      | EnablePush val \<Rightarrow>
          if val = 0 \<or> val = 1 then Ok (s\<lparr>s_enable_push := Some val\<rparr>) else Err InvalidSettingValue
      | MaxConcurrentStreams val \<Rightarrow> Ok (s\<lparr>s_max_concurrent_streams := Some val\<rparr>)
      | InitialWindowSize val \<Rightarrow>
          if unat val > MAX_INITIAL_WINDOW_SIZE then Err InvalidSettingValue
          else Ok (s\<lparr>s_initial_window_size := Some val\<rparr>)
      | MaxFrameSize val \<Rightarrow>
          if DEFAULT_MAX_FRAME_SIZE \<le> val \<and> val \<le> MAX_MAX_FRAME_SIZE
          then Ok (s\<lparr>s_max_frame_size := Some val\<rparr>) else Err InvalidSettingValue
      | MaxHeaderListSize val \<Rightarrow> Ok (s\<lparr>s_max_header_list_size := Some val\<rparr>)
      | EnableConnectProtocol val \<Rightarrow>
          if val = 0 \<or> val = 1 then Ok (s\<lparr>s_enable_connect_protocol := Some val\<rparr>)
          else Err InvalidSettingValue)"

fun settings_load_chunks :: "settings \<Rightarrow> bytes list \<Rightarrow> (settings, frame_error) result" where
  "settings_load_chunks s [] = Ok s"
| "settings_load_chunks s (raw # raws) =
     rbind (setting_load raw) (\<lambda>m.
       case m of
         Some st \<Rightarrow> rbind (settings_apply s st) (\<lambda>s'. settings_load_chunks s' raws)
       | None \<Rightarrow> settings_load_chunks s raws)"

definition settings_load :: "head \<Rightarrow> bytes \<Rightarrow> (settings, frame_error) result" where
  "settings_load h payload =
     (if \<not> stream_id_is_zero (h_stream_id h) then Err InvalidStreamId
      else let flag = settings_flags_load (h_flag h) in
        if settings_flags_is_ack flag then
          (if payload \<noteq> [] then Err InvalidPayloadLength else Ok settings_ack)
        else if \<not> 6 dvd length payload then Err InvalidPayloadAckSettings
        else settings_load_chunks settings_default (chunks 6 payload))"

section \<open>Encoding a SETTINGS frame\<close>

text \<open>\<open>for_each\<close> visits the settings that are present in this order.\<close>

definition settings_for_each :: "settings \<Rightarrow> setting list" where
  "settings_for_each s =
     map HeaderTableSize (case s_header_table_size s of None \<Rightarrow> [] | Some v \<Rightarrow> [v])
     @ map EnablePush (case s_enable_push s of None \<Rightarrow> [] | Some v \<Rightarrow> [v])
     @ map MaxConcurrentStreams (case s_max_concurrent_streams s of None \<Rightarrow> [] | Some v \<Rightarrow> [v])
     @ map InitialWindowSize (case s_initial_window_size s of None \<Rightarrow> [] | Some v \<Rightarrow> [v])
     @ map MaxFrameSize (case s_max_frame_size s of None \<Rightarrow> [] | Some v \<Rightarrow> [v])
     @ map MaxHeaderListSize (case s_max_header_list_size s of None \<Rightarrow> [] | Some v \<Rightarrow> [v])
     @ map EnableConnectProtocol (case s_enable_connect_protocol s of None \<Rightarrow> [] | Some v \<Rightarrow> [v])"

definition settings_payload_len :: "settings \<Rightarrow> nat" where
  "settings_payload_len s = sum_list (map (\<lambda>_. 6) (settings_for_each s))"

definition settings_head :: "settings \<Rightarrow> head" where
  "settings_head s = head_new KSettings (s_flags s) STREAM_ID_ZERO"

definition settings_payload :: "settings \<Rightarrow> bytes" where
  "settings_payload s = concat (map setting_encode (settings_for_each s))"

definition settings_encode :: "settings \<Rightarrow> bytes" where
  "settings_encode s = head_encode (settings_head s) (settings_payload_len s)
     @ concat (map setting_encode (settings_for_each s))"

section \<open>Validity and the round trip\<close>

text \<open>The values a peer accepts, and an ACK without parameters.\<close>

definition settings_valid :: "settings \<Rightarrow> bool" where
  "settings_valid s =
     ((case s_enable_push s of None \<Rightarrow> True | Some v \<Rightarrow> v = 0 \<or> v = 1)
      \<and> (case s_initial_window_size s of None \<Rightarrow> True | Some v \<Rightarrow> unat v \<le> MAX_INITIAL_WINDOW_SIZE)
      \<and> (case s_max_frame_size s of None \<Rightarrow> True
         | Some v \<Rightarrow> DEFAULT_MAX_FRAME_SIZE \<le> v \<and> v \<le> MAX_MAX_FRAME_SIZE)
      \<and> (case s_enable_connect_protocol s of None \<Rightarrow> True | Some v \<Rightarrow> v = 0 \<or> v = 1))"

definition settings_wf :: "settings \<Rightarrow> bool" where
  "settings_wf s = (settings_valid s \<and> (s_flags s = 0 \<or> s = settings_ack))"

fun settings_apply_all :: "settings \<Rightarrow> setting list \<Rightarrow> (settings, frame_error) result" where
  "settings_apply_all s [] = Ok s"
| "settings_apply_all s (st # sts) = rbind (settings_apply s st) (\<lambda>s'. settings_apply_all s' sts)"

lemma settings_apply_all_append:
  "settings_apply_all s (xs @ ys) = rbind (settings_apply_all s xs) (\<lambda>s'. settings_apply_all s' ys)"
proof (induction xs arbitrary: s)
  case (Cons x xs)
  then show ?case by (cases "settings_apply s x") simp_all
qed simp

lemma chunks_encoded: "chunks 6 (concat (map setting_encode sts)) = map setting_encode sts"
  by (induction sts) (simp_all add: chunks_append)

lemma settings_load_chunks_encoded:
  "settings_load_chunks s (map setting_encode sts) = settings_apply_all s sts"
  by (induction sts arbitrary: s) (simp_all add: codec_simps)

lemma settings_payload_dvd: "6 dvd length (settings_payload s)"
proof -
  have "length (concat (map setting_encode xs)) = 6 * length xs" for xs
    by (induction xs) simp_all
  then show ?thesis by (simp add: settings_payload_def)
qed

text \<open>
  Replaying the visited settings on the default rebuilds the parameters: one field at a time, a
  field still unset takes the value that was visited.
\<close>

lemma settings_apply_opt:
  "s_header_table_size s = None \<Longrightarrow> settings_apply_all s (map HeaderTableSize (case opt of None \<Rightarrow> [] | Some v \<Rightarrow> [v]))
       = Ok (s\<lparr>s_header_table_size := opt\<rparr>)"
  "s_enable_push s = None \<Longrightarrow> (case opt of None \<Rightarrow> True | Some v \<Rightarrow> v = 0 \<or> v = 1) \<Longrightarrow>
     settings_apply_all s (map EnablePush (case opt of None \<Rightarrow> [] | Some v \<Rightarrow> [v]))
       = Ok (s\<lparr>s_enable_push := opt\<rparr>)"
  "s_max_concurrent_streams s = None \<Longrightarrow> settings_apply_all s (map MaxConcurrentStreams (case opt of None \<Rightarrow> [] | Some v \<Rightarrow> [v]))
       = Ok (s\<lparr>s_max_concurrent_streams := opt\<rparr>)"
  "s_initial_window_size s = None \<Longrightarrow> (case opt of None \<Rightarrow> True | Some v \<Rightarrow> unat v \<le> MAX_INITIAL_WINDOW_SIZE) \<Longrightarrow>
     settings_apply_all s (map InitialWindowSize (case opt of None \<Rightarrow> [] | Some v \<Rightarrow> [v]))
       = Ok (s\<lparr>s_initial_window_size := opt\<rparr>)"
  "s_max_frame_size s = None \<Longrightarrow> (case opt of None \<Rightarrow> True | Some v \<Rightarrow> DEFAULT_MAX_FRAME_SIZE \<le> v \<and> v \<le> MAX_MAX_FRAME_SIZE) \<Longrightarrow>
     settings_apply_all s (map MaxFrameSize (case opt of None \<Rightarrow> [] | Some v \<Rightarrow> [v]))
       = Ok (s\<lparr>s_max_frame_size := opt\<rparr>)"
  "s_max_header_list_size s = None \<Longrightarrow> settings_apply_all s (map MaxHeaderListSize (case opt of None \<Rightarrow> [] | Some v \<Rightarrow> [v]))
       = Ok (s\<lparr>s_max_header_list_size := opt\<rparr>)"
  "s_enable_connect_protocol s = None \<Longrightarrow> (case opt of None \<Rightarrow> True | Some v \<Rightarrow> v = 0 \<or> v = 1) \<Longrightarrow>
     settings_apply_all s (map EnableConnectProtocol (case opt of None \<Rightarrow> [] | Some v \<Rightarrow> [v]))
       = Ok (s\<lparr>s_enable_connect_protocol := opt\<rparr>)"
  by (cases opt; cases s; simp add: settings_apply_def not_less)+

lemma settings_apply_for_each:
  assumes "settings_valid s"
  shows "settings_apply_all settings_default (settings_for_each s) = Ok (s\<lparr>s_flags := 0\<rparr>)"
proof -
  have fields: "case s_enable_push s of None \<Rightarrow> True | Some v \<Rightarrow> v = 0 \<or> v = 1"
    "case s_initial_window_size s of None \<Rightarrow> True | Some v \<Rightarrow> unat v \<le> MAX_INITIAL_WINDOW_SIZE"
    "case s_max_frame_size s of None \<Rightarrow> True
     | Some v \<Rightarrow> DEFAULT_MAX_FRAME_SIZE \<le> v \<and> v \<le> MAX_MAX_FRAME_SIZE"
    "case s_enable_connect_protocol s of None \<Rightarrow> True | Some v \<Rightarrow> v = 0 \<or> v = 1"
    using assms by (simp_all add: settings_valid_def)
  show ?thesis
    unfolding settings_for_each_def settings_apply_all_append settings_default_def
    by (simp add: settings_apply_opt fields)
qed

lemma settings_load_payload:
  assumes "settings_wf s"
  shows "settings_load (settings_head s) (settings_payload s) = Ok s"
proof (cases "s = settings_ack")
  case True
  have "settings_payload settings_ack = []"
    by (simp add: settings_payload_def settings_for_each_def settings_ack_def settings_default_def)
  moreover have "settings_flags_is_ack (settings_flags_load (s_flags settings_ack))"
    by (simp add: settings_flags_is_ack_def settings_flags_load_def settings_ack_def
        SETTINGS_ACK_def SETTINGS_ALL_def)
  ultimately show ?thesis using True
    by (simp add: settings_load_def settings_head_def head_new_def STREAM_ID_ZERO_def
        stream_id_is_zero_def)
next
  case False
  with assms have 0: "s_flags s = 0" and v: "settings_valid s" by (auto simp: settings_wf_def)
  have "\<not> settings_flags_is_ack (settings_flags_load 0)"
    by (simp add: settings_flags_is_ack_def settings_flags_load_def SETTINGS_ACK_def)
  then show ?thesis using 0 settings_apply_for_each [OF v] settings_payload_dvd [of s]
    by (simp add: settings_load_def settings_head_def head_new_def STREAM_ID_ZERO_def
        stream_id_is_zero_def settings_payload_def chunks_encoded settings_load_chunks_encoded)
qed

lemma setting_load_no_panic: "length raw = 6 \<Longrightarrow> setting_load raw \<noteq> Panic"
  by (auto simp: setting_load_def Let_def unpack_octets_4_def)

lemma settings_apply_no_panic: "settings_apply s st \<noteq> Panic"
  by (auto simp: settings_apply_def split: setting.splits)

lemma settings_load_chunks_no_panic:
  "\<forall>c\<in>set cs. length c = 6 \<Longrightarrow> settings_load_chunks s cs \<noteq> Panic"
  by (induction cs arbitrary: s)
    (auto simp: rbind_eq_Panic setting_load_no_panic settings_apply_no_panic split: option.splits)

lemma settings_load_no_panic: "settings_load h p \<noteq> Panic"
  by (auto simp: settings_load_def Let_def settings_load_chunks_no_panic length_chunks_exact)

lemma settings_payload_len_eq: "settings_payload_len s = length (settings_payload s)"
proof -
  have "sum_list (map (\<lambda>_. 6) xs) = length (concat (map setting_encode xs))" for xs
    by (induction xs) simp_all
  then show ?thesis by (simp add: settings_payload_len_def settings_payload_def)
qed

interpretation se: frame_codec
  settings_head settings_payload settings_encode settings_load settings_wf
proof unfold_locales
  show "settings_encode s
      = head_encode (settings_head s) (length (settings_payload s)) @ settings_payload s" for s
    by (simp add: settings_encode_def settings_payload_len_eq, simp add: settings_payload_def)
  show "valid_stream_id (h_stream_id (settings_head s))" for s
    by (simp add: settings_head_def head_new_def STREAM_ID_ZERO_def)
qed (rule settings_load_payload settings_load_no_panic; assumption?)+

text \<open>Whatever the loader accepts is valid: no out-of-range value reaches the connection.\<close>

lemma settings_apply_valid:
  "settings_valid s \<Longrightarrow> settings_apply s st = Ok s' \<Longrightarrow> settings_valid s' \<and> s_flags s' = s_flags s"
  by (auto simp: settings_apply_def settings_valid_def split: setting.splits if_splits)

lemma settings_load_chunks_valid:
  "settings_valid s \<Longrightarrow> settings_load_chunks s cs = Ok s' \<Longrightarrow>
     settings_valid s' \<and> s_flags s' = s_flags s"
proof (induction cs arbitrary: s)
  case (Cons c cs)
  then show ?case
    by (fastforce simp: rbind_eq_Ok split: option.splits dest: settings_apply_valid)
qed simp

lemma settings_default_valid: "settings_valid settings_default"
  by (simp add: settings_valid_def settings_default_def)

lemma settings_load_wf: "settings_load h p = Ok s \<Longrightarrow> settings_wf s"
  using settings_load_chunks_valid [OF settings_default_valid]
  by (auto simp: settings_load_def settings_wf_def Let_def settings_ack_def settings_valid_def
      settings_default_def split: if_splits)

end
