(* ===== verification/Hpack_Resume.thy ===== *)
theory Hpack_Resume
  imports Hpack_Decoder
begin

text \<open>
  Resumption of HPACK decoding. A block arrives in fragments; \<open>decode\<close> runs on what is there, keeps
  the bytes of an unfinished representation and is run again when more has come. The lemmas show
  that a decoder computation either does not look past the buffer it has, or asks for more without
  having changed anything, and lift this to the loop.
\<close>

definition cext :: "bytes \<Rightarrow> cursor \<Rightarrow> cursor" where
  "cext ys c = c\<lparr>c_inner := c_inner c @ ys\<rparr>"

lemma cext_simps [simp]:
  "c_pos (cext ys c) = c_pos c"
  "c_inner (cext ys c) = c_inner c @ ys"
  "cursor_ok c \<Longrightarrow> cursor_ok (cext ys c)"
  "cursor_ok c \<Longrightarrow> cursor_rest (cext ys c) = cursor_rest c @ ys"
  "cext ys (c\<lparr>c_pos := p\<rparr>) = (cext ys c)\<lparr>c_pos := p\<rparr>"
  "(cext ys c)\<lparr>c_pos := c_pos c\<rparr> = cext ys c"
  by (simp_all add: cext_def cursor_ok_def cursor_rest_def)

text \<open>
  \<open>dres m\<close>: success carries over to a longer buffer; a failure does too, or it asks for more input
  with the state untouched.
\<close>

definition dres :: "('m, 'st, 'a) dcomp \<Rightarrow> bool" where
  "dres m \<longleftrightarrow> (\<forall>d c r d' c'. cursor_ok c \<longrightarrow> dec_buffer d = [] \<longrightarrow> m (d, c) = (r, (d', c')) \<longrightarrow>
     (case r of
        Ok x \<Rightarrow> cursor_ok c' \<and> dec_buffer d' = [] \<and> (\<forall>ys. m (d, cext ys c) = (Ok x, (d', cext ys c')))
      | Err er \<Rightarrow> (\<forall>ys. fst (m (d, cext ys c)) = Err er) \<or> is_need_more er \<and> d' = d \<and> c_inner c' = c_inner c
      | Panic \<Rightarrow> True))"

definition dfirm :: "('m, 'st, 'a) dcomp \<Rightarrow> bool" where
  "dfirm m \<longleftrightarrow> dres m \<and> (\<forall>d c er d' c'. cursor_ok c \<longrightarrow> dec_buffer d = [] \<longrightarrow>
     m (d, c) = (Err er, (d', c')) \<longrightarrow> (\<forall>ys. fst (m (d, cext ys c)) = Err er))"

definition dpure :: "('m, 'st, 'a) dcomp \<Rightarrow> bool" where
  "dpure m \<longleftrightarrow> (\<forall>d c x d' c'. cursor_ok c \<longrightarrow> dec_buffer d = [] \<longrightarrow> m (d, c) = (Ok x, (d', c')) \<longrightarrow>
     d' = d \<and> c_inner c' = c_inner c)"

lemma dpureD:
  "dpure m \<Longrightarrow> cursor_ok c \<Longrightarrow> dec_buffer d = [] \<Longrightarrow> m (d, c) = (Ok x, (d', c')) \<Longrightarrow> d' = d \<and> c_inner c' = c_inner c"
  unfolding dpure_def by blast

lemma dresD:
  assumes "dres m" "cursor_ok c" "dec_buffer d = []" "m (d, c) = (r, (d', c'))"
  shows "r = Ok x \<Longrightarrow> cursor_ok c' \<and> dec_buffer d' = [] \<and> m (d, cext ys c) = (Ok x, (d', cext ys c'))"
    "r = Err er \<Longrightarrow> (\<forall>ys. fst (m (d, cext ys c)) = Err er) \<or> is_need_more er \<and> d' = d \<and> c_inner c' = c_inner c"
  using assms by (fastforce simp: dres_def)+

lemma dresI:
  assumes "\<And>d c x d' c' ys. cursor_ok c \<Longrightarrow> dec_buffer d = [] \<Longrightarrow> m (d, c) = (Ok x, (d', c')) \<Longrightarrow>
      cursor_ok c' \<and> dec_buffer d' = [] \<and> m (d, cext ys c) = (Ok x, (d', cext ys c'))"
    "\<And>d c er d' c'. cursor_ok c \<Longrightarrow> dec_buffer d = [] \<Longrightarrow> m (d, c) = (Err er, (d', c')) \<Longrightarrow>
      (\<forall>ys. fst (m (d, cext ys c)) = Err er) \<or> is_need_more er \<and> d' = d \<and> c_inner c' = c_inner c"
  shows "dres m"
  unfolding dres_def
proof (intro allI impI)
  fix d c r d' c'
  assume a: "cursor_ok c" "dec_buffer d = []" "m (d, c) = (r, (d', c'))"
  show "case r of
        Ok x \<Rightarrow> cursor_ok c' \<and> dec_buffer d' = [] \<and> (\<forall>ys. m (d, cext ys c) = (Ok x, (d', cext ys c')))
      | Err er \<Rightarrow> (\<forall>ys. fst (m (d, cext ys c)) = Err er) \<or> is_need_more er \<and> d' = d \<and> c_inner c' = c_inner c
      | Panic \<Rightarrow> True"
  proof (cases r)
    case (Ok x)
    with assms(1) [of c d x d' c'] a show ?thesis by simp
  next
    case (Err er)
    with assms(2) [of c d er d' c'] a show ?thesis by simp
  qed simp
qed

lemma dfirm_dres: "dfirm m \<Longrightarrow> dres m"
  by (simp add: dfirm_def)

lemma dbind_cases:
  assumes "dbind m f (d, c) = (r, (d', c'))"
  obtains x d1 c1 where "m (d, c) = (Ok x, (d1, c1))" "f x (d1, c1) = (r, (d', c'))"
  | er where "m (d, c) = (Err er, (d', c'))" "r = Err er"
  | "m (d, c) = (Panic, (d', c'))" "r = Panic"
proof -
  obtain r1 d1 c1 where 1: "m (d, c) = (r1, (d1, c1))" by (cases "m (d, c)") auto
  show thesis by (cases r1) (use assms 1 that in \<open>auto simp: dbind_def\<close>)
qed

lemma dbind_Err: "fst (m s) = Err er \<Longrightarrow> fst (dbind m f s) = Err er"
  by (cases "m s") (simp add: dbind_def)

lemma dres_dbind_pure:
  assumes m: "dres m" "dpure m" and f: "\<And>x. dres (f x)"
  shows "dres (dbind m f)"
proof (rule dresI)
  fix d c x d' c' ys
  assume a: "cursor_ok c" "dec_buffer d = []" "dbind m f (d, c) = (Ok x, (d', c'))"
  from a(3) obtain y d1 c1 where 1: "m (d, c) = (Ok y, (d1, c1))" "f y (d1, c1) = (Ok x, (d', c'))"
    by (cases rule: dbind_cases) auto
  from dresD(1) [OF m(1) a(1,2) 1(1) refl, of ys] 1(2)
  show "cursor_ok c' \<and> dec_buffer d' = [] \<and> dbind m f (d, cext ys c) = (Ok x, (d', cext ys c'))"
    using dresD(1) [OF f _ _ 1(2) refl, of ys] by (simp add: dbind_def)
next
  fix d c er d' c'
  assume a: "cursor_ok c" "dec_buffer d = []" "dbind m f (d, c) = (Err er, (d', c'))"
  from a(3) show "(\<forall>ys. fst (dbind m f (d, cext ys c)) = Err er) \<or> is_need_more er \<and> d' = d \<and> c_inner c' = c_inner c"
  proof (cases rule: dbind_cases)
    case (1 y d1 c1)
    note M = dresD(1) [OF m(1) a(1,2) 1(1) refl]
    have p: "d1 = d" "c_inner c1 = c_inner c" using dpureD [OF m(2) a(1,2) 1(1)] by simp_all
    have ext: "dbind m f (d, cext ys c) = f y (d1, cext ys c1)" for ys using M [of ys] by (simp add: dbind_def)
    from dresD(2) [OF f _ _ 1(2) refl] M p show ?thesis by (simp add: ext)
  next
    case (2 er')
    from dresD(2) [OF m(1) a(1,2) 2(1) refl] 2(2) dbind_Err [of m _ er f] show ?thesis by blast
  qed simp
qed

lemma dres_dbind_firm:
  assumes m: "dres m" and f: "\<And>x. dfirm (f x)"
  shows "dres (dbind m f)"
proof (rule dresI)
  fix d c x d' c' ys
  assume a: "cursor_ok c" "dec_buffer d = []" "dbind m f (d, c) = (Ok x, (d', c'))"
  from a(3) obtain y d1 c1 where 1: "m (d, c) = (Ok y, (d1, c1))" "f y (d1, c1) = (Ok x, (d', c'))"
    by (cases rule: dbind_cases) auto
  from dresD(1) [OF m(1) a(1,2) 1(1) refl, of ys] 1(2)
  show "cursor_ok c' \<and> dec_buffer d' = [] \<and> dbind m f (d, cext ys c) = (Ok x, (d', cext ys c'))"
    using dresD(1) [OF dfirm_dres [OF f] _ _ 1(2) refl, of ys] by (simp add: dbind_def)
next
  fix d c er d' c'
  assume a: "cursor_ok c" "dec_buffer d = []" "dbind m f (d, c) = (Err er, (d', c'))"
  from a(3) show "(\<forall>ys. fst (dbind m f (d, cext ys c)) = Err er) \<or> is_need_more er \<and> d' = d \<and> c_inner c' = c_inner c"
  proof (cases rule: dbind_cases)
    case (1 y d1 c1)
    note M = dresD(1) [OF m(1) a(1,2) 1(1) refl]
    then have "\<forall>ys. fst (f y (d1, cext ys c1)) = Err er" using f [of y] 1(2) by (auto simp: dfirm_def)
    with M show ?thesis by (auto simp: dbind_def)
  next
    case (2 er')
    from dresD(2) [OF m(1) a(1,2) 2(1) refl] 2(2) dbind_Err [of m _ er f] show ?thesis by blast
  qed simp
qed

lemma dfirm_dbind:
  assumes m: "dfirm m" and f: "\<And>x. dfirm (f x)"
  shows "dfirm (dbind m f)"
  unfolding dfirm_def
proof (intro conjI allI impI)
  show "dres (dbind m f)" using dres_dbind_firm [OF dfirm_dres [OF m] f] .
  fix d c er d' c' ys
  assume a: "cursor_ok c" "dec_buffer d = []" "dbind m f (d, c) = (Err er, (d', c'))"
  from a(3) show "fst (dbind m f (d, cext ys c)) = Err er"
  proof (cases rule: dbind_cases)
    case (1 y d1 c1)
    note M = dresD(1) [OF dfirm_dres [OF m] a(1,2) 1(1) refl]
    then have "fst (f y (d1, cext ys c1)) = Err er" using f [of y] 1(2) by (auto simp: dfirm_def)
    with M show ?thesis by (auto simp: dbind_def)
  next
    case (2 er')
    then have "fst (m (d, cext ys c)) = Err er" using m a by (auto simp: dfirm_def)
    then show ?thesis by (rule dbind_Err)
  qed simp
qed

section \<open>The decoder's computations\<close>

lemma dfirm_dret: "dfirm (dret x)"
  by (auto simp: dfirm_def dres_def dret_def)

lemma dfirm_dlift: "dfirm (dlift r)"
  by (auto simp: dfirm_def dres_def dlift_def split: result.split)

lemma dfirm_table_get: "dfirm (\<lambda>s. (dtable_get e (dec_table (fst s)) i, s))"
  by (auto simp: dfirm_def dres_def split: result.split)

lemma dpure_table_get: "dpure (\<lambda>s. (dtable_get e (dec_table (fst s)) i, s))"
  by (simp add: dpure_def)

lemma dfirm_dinsert: "dfirm (dinsert e h)"
  by (auto simp: dfirm_def dres_def dinsert_def)

lemma dfirm_dpos: "dfirm dpos"
  by (auto simp: dfirm_def dres_def dpos_def)

lemma dpure_dpos: "dpure dpos"
  by (simp add: dpure_def dpos_def)

lemma cursor_advance_ext: "cursor_advance n c = Ok c' \<Longrightarrow> cursor_advance n (cext ys c) = Ok (cext ys c')"
  by (auto simp: cursor_advance_def split: if_splits)

lemma cursor_take_ext: "cursor_take n c = Ok (b, c') \<Longrightarrow> cursor_take n (cext ys c) = Ok (b, cext ys c')"
  by (auto simp: cursor_take_def cext_def split: if_splits)

lemma marker_consume_ext:
  assumes "marker_consume m c = Ok (b, c')"
  shows "marker_consume m (cext ys c) = Ok (b, cext ys c') \<and> cursor_ok c'"
proof -
  from assms obtain c1 where 1: "cursor_advance (sm_offset m) c = Ok c1"
    by (auto simp: marker_consume_def rbind_eq_Ok)
  note 2 = cursor_advance_ext [OF this, of ys]
  show ?thesis
  proof (cases "sm_string m")
    case None
    with assms 1 have t: "cursor_take (sm_len m) c1 = Ok (b, c')" by (simp add: marker_consume_def)
    then have "cursor_ok c'" by (auto simp: cursor_take_def cursor_ok_def split: if_splits)
    with None 2 cursor_take_ext [OF t] show ?thesis by (simp add: marker_consume_def)
  next
    case (Some str)
    with assms 1 have t: "cursor_advance (sm_len m) c1 = Ok c'" "b = str"
      by (auto simp: marker_consume_def rbind_eq_Ok)
    then have "cursor_ok c'" by (auto simp: cursor_advance_def cursor_ok_def split: if_splits)
    with Some 2 cursor_advance_ext [OF t(1)] t(2) show ?thesis by (simp add: marker_consume_def)
  qed
qed

lemma marker_consume_no_err: "marker_consume m c \<noteq> Err er"
  by (auto simp: marker_consume_def rbind_eq_Err cursor_take_def cursor_advance_def split: option.splits)

lemma dcursor_marker:
  "dcursor (marker_consume m) (d, c) = (r, (d', c')) \<Longrightarrow>
     d' = d \<and> (r = Panic \<or> (\<exists>b. r = Ok b \<and> marker_consume m c = Ok (b, c')))"
  using marker_consume_no_err [of m c]
  by (auto simp: dcursor_def split: result.splits)

lemma dfirm_marker_consume: "dfirm (dcursor (marker_consume m))"
  unfolding dfirm_def
proof (rule conjI, rule dresI)
  fix d :: "('a, 'b) hpack_decoder" and c x d' c' ys
  assume a: "cursor_ok c" "dec_buffer d = []" "dcursor (marker_consume m) (d, c) = (Ok x, d', c')"
  from dcursor_marker [OF a(3)] have 1: "d' = d" "marker_consume m c = Ok (x, c')" by auto
  from marker_consume_ext [OF 1(2), of ys] 1 a(2)
  show "cursor_ok c' \<and> dec_buffer d' = [] \<and> dcursor (marker_consume m) (d, cext ys c) = (Ok x, d', cext ys c')"
    by (simp add: dcursor_def)
qed (auto dest: dcursor_marker)

lemma dconsume_ok: "cursor_ok c \<Longrightarrow> dconsume (d, c) = (Ok (), (d, \<lparr>c_pos = 0, c_inner = drop (c_pos c) (c_inner c)\<rparr>))"
  by (simp add: dconsume_def dbind_def dcursor_def cursor_take_def dret_def cursor_ok_def)

lemma dfirm_dconsume: "dfirm dconsume"
  by (auto simp: dfirm_def dres_def dconsume_ok) (simp_all add: cursor_ok_def cext_def)

lemma decode_int_loop_append:
  "decode_int_loop ret n shift xs = (r, rest) \<Longrightarrow>
     (\<forall>v. r = Ok v \<longrightarrow> decode_int_loop ret n shift (xs @ ys) = (Ok v, rest @ ys))
   \<and> (\<forall>er. r = Err er \<longrightarrow> fst (decode_int_loop ret n shift (xs @ ys)) = Err er \<or> is_need_more er)"
  by (induction ret n shift xs arbitrary: r rest rule: decode_int_loop.induct)
    (auto simp: Let_def is_need_more_def split: if_splits)

lemma decode_int_append:
  "decode_int xs p = (r, rest) \<Longrightarrow>
     (\<forall>v. r = Ok v \<longrightarrow> decode_int (xs @ ys) p = (Ok v, rest @ ys))
   \<and> (\<forall>er. r = Err er \<longrightarrow> fst (decode_int (xs @ ys) p) = Err er \<or> is_need_more er)"
  using decode_int_loop_append [of "unat (hd xs AND int_mask p)" 1 0 "tl xs" r rest ys]
  by (auto simp: decode_int_def Let_def is_need_more_def split: list.splits if_splits)

lemma dint_ext:
  assumes "cursor_ok c" "dint p (d, c) = (r, (d', c'))"
  shows "r = Ok v \<Longrightarrow> dint p (d, cext ys c) = (Ok v, (d, cext ys c'))"
    "r = Err er \<Longrightarrow> fst (dint p (d, cext ys c)) = Err er \<or> is_need_more er"
proof -
  let ?b = "cursor_rest c"
  obtain rest where i: "decode_int ?b p = (r, rest)" "c' = cursor_at c rest"
    using assms(2) by (auto simp: dint_def split: prod.splits)
  note I = decode_int_append [OF i(1), of ys]
  show "dint p (d, cext ys c) = (Ok v, (d, cext ys c'))" if "r = Ok v"
    using I that assms(1) i(2) by (simp add: dint_def cursor_at_def)
  show "fst (dint p (d, cext ys c)) = Err er \<or> is_need_more er" if "r = Err er"
    using I that assms(1) by (auto simp: dint_def split: prod.splits)
qed

lemma dres_dint: "dres (dint p)"
proof (rule dresI)
  fix d :: "('a, 'b) hpack_decoder" and c x d' c' ys
  assume a: "cursor_ok c" "dec_buffer d = []" "dint p (d, c) = (Ok x, d', c')"
  from dint_Ok [OF a(1,3)] dint_ext(1) [OF a(1,3) refl] a(2)
  show "cursor_ok c' \<and> dec_buffer d' = [] \<and> dint p (d, cext ys c) = (Ok x, d', cext ys c')" by simp
next
  fix d :: "('a, 'b) hpack_decoder" and c er d' c'
  assume a: "cursor_ok c" "dec_buffer d = []" "dint p (d, c) = (Err er, d', c')"
  from dint_Ok [OF a(1,3)] dint_ext(2) [OF a(1,3) refl]
  show "(\<forall>ys. fst (dint p (d, cext ys c)) = Err er) \<or> is_need_more er \<and> d' = d \<and> c_inner c' = c_inner c" by blast
qed

lemma dpure_dint: "dpure (dint p)"
  unfolding dpure_def using dint_Ok by blast

lemma dec_buffer_update_same: "dec_buffer d = b \<Longrightarrow> d\<lparr>dec_buffer := b\<rparr> = d"
  by (cases d) simp

lemma dpure_try_decode_string: "dpure try_decode_string"
  unfolding dpure_def
proof (intro allI impI)
  fix d :: "('a, 'b) hpack_decoder" and c x d' c'
  assume a: "cursor_ok c" "dec_buffer d = []" "try_decode_string (d, c) = (Ok x, d', c')"
  from try_decode_string_spec [OF a(1,3)] a(2) show "d' = d \<and> c_inner c' = c_inner c"
    by (auto simp: dec_buffer_update_same)
qed

text \<open>The part of \<open>try_decode_string\<close> after the length, on a string that is there.\<close>

definition string_body :: "bool \<Rightarrow> nat \<Rightarrow> nat \<Rightarrow> ('m, 'st, string_marker) dcomp" where
  "string_body huff old_pos len s1 =
     (if len > length (cursor_rest (snd s1)) then (Err (NeedMore StringUnderflow), s1)
      else let offset = c_pos (snd s1) - old_pos in
        if huff then try_decode_huffman offset len s1
        else dbind (dcursor (\<lambda>c. map_ok (\<lambda>c'. ((), c')) (cursor_advance len c)))
               (\<lambda>_. dret \<lparr>sm_offset = offset, sm_len = len, sm_string = None\<rparr>) s1)"

lemma string_body_eq:
  assumes "cursor_ok c"
  shows "string_body huff pos len (d, c) =
    (if len > length (cursor_rest c) then (Err (NeedMore StringUnderflow), (d, c))
     else if huff then
       (case huffman_decode (take len (cursor_rest c)) (dec_buffer d) of (r, buf) \<Rightarrow>
          (map_ok (\<lambda>b. \<lparr>sm_offset = c_pos c - pos, sm_len = len, sm_string = Some b\<rparr>) r,
           (d\<lparr>dec_buffer := buf\<rparr>, c\<lparr>c_pos := c_pos c + len\<rparr>)))
     else (Ok \<lparr>sm_offset = c_pos c - pos, sm_len = len, sm_string = None\<rparr>, (d, c\<lparr>c_pos := c_pos c + len\<rparr>)))"
  using cursor_advance_Ok [OF assms, of len]
  by (auto simp: string_body_def try_decode_huffman_def Let_def dbind_def dcursor_def dret_def
      split: prod.split)

lemma cursor_rest_advance_ok: "cursor_ok c \<Longrightarrow> len \<le> length (cursor_rest c) \<Longrightarrow> cursor_ok (c\<lparr>c_pos := c_pos c + len\<rparr>)"
  by (simp add: cursor_ok_def cursor_rest_def)

lemma dres_string_body: "dres (string_body huff pos len)"
proof (rule dresI)
  fix d :: "('a, 'b) hpack_decoder" and c x d' c' ys
  assume a: "cursor_ok c" "dec_buffer d = []" "string_body huff pos len (d, c) = (Ok x, d', c')"
  have le: "len \<le> length (cursor_rest c)" using a(1,3) by (auto simp: string_body_eq split: if_splits)
  show "cursor_ok c' \<and> dec_buffer d' = [] \<and> string_body huff pos len (d, cext ys c) = (Ok x, d', cext ys c')"
    using a le cursor_rest_advance_ok [OF a(1) le]
    by (cases rule: huffman_decode_cases [of "take len (cursor_rest c)" "[]"])
      (auto simp: string_body_eq split: if_splits)
next
  fix d :: "('a, 'b) hpack_decoder" and c er d' c'
  assume a: "cursor_ok c" "dec_buffer d = []" "string_body huff pos len (d, c) = (Err er, d', c')"
  show "(\<forall>ys. fst (string_body huff pos len (d, cext ys c)) = Err er) \<or> is_need_more er \<and> d' = d \<and> c_inner c' = c_inner c"
    using a
    by (cases rule: huffman_decode_cases [of "take len (cursor_rest c)" "[]"])
      (auto simp: string_body_eq is_need_more_def split: if_splits)
qed

lemma try_decode_string_eq:
  "try_decode_string = dbind dpos (\<lambda>pos s.
     case peek_u8 (snd s) of
       None \<Rightarrow> (Err (NeedMore UnexpectedEndOfStream), s)
     | Some hdr \<Rightarrow> dbind (dint 7) (string_body (hdr AND HUFF_FLAG = HUFF_FLAG) pos) s)"
  unfolding try_decode_string_def string_body_def Let_def by (rule refl)

lemma peek_ext: "cursor_ok c \<Longrightarrow> peek_u8 c = Some b \<Longrightarrow> peek_u8 (cext ys c) = Some b"
  by (auto simp: peek_u8_def split: list.splits)

lemma dres_try_decode_string: "dres (try_decode_string :: ('m, 'st, string_marker) dcomp)"
  unfolding try_decode_string_eq
proof (rule dres_dbind_pure [OF dfirm_dres [OF dfirm_dpos] dpure_dpos])
  fix pos
  let ?f = "(\<lambda>s. case peek_u8 (snd s) of
       None \<Rightarrow> (Err (NeedMore UnexpectedEndOfStream), s)
     | Some hdr \<Rightarrow> dbind (dint 7) (string_body (hdr AND HUFF_FLAG = HUFF_FLAG) pos) s) :: ('m, 'st, string_marker) dcomp"
  have R: "dres (dbind (dint 7) (string_body h pos))" for h
    by (rule dres_dbind_pure [OF dres_dint dpure_dint dres_string_body])
  show "dres ?f"
  proof (rule dresI)
    fix d c x d' c' ys
    assume a: "cursor_ok c" "dec_buffer d = []" "?f (d, c) = (Ok x, d', c')"
    then obtain h where h: "peek_u8 c = Some h" by (cases "peek_u8 c") auto
    with a dresD(1) [OF R a(1,2) _ refl, of "h AND HUFF_FLAG = HUFF_FLAG" x d' c' ys] peek_ext [OF a(1) h, of ys]
    show "cursor_ok c' \<and> dec_buffer d' = [] \<and> ?f (d, cext ys c) = (Ok x, d', cext ys c')" by simp
  next
    fix d c er d' c'
    assume a: "cursor_ok c" "dec_buffer d = []" "?f (d, c) = (Err er, d', c')"
    show "(\<forall>ys. fst (?f (d, cext ys c)) = Err er) \<or> is_need_more er \<and> d' = d \<and> c_inner c' = c_inner c"
    proof (cases "peek_u8 c")
      case (Some h)
      with a dresD(2) [OF R a(1,2) _ refl, of "h AND HUFF_FLAG = HUFF_FLAG" er d' c'] peek_ext [OF a(1) Some]
      show ?thesis by simp
    qed (use a in \<open>auto simp: is_need_more_def\<close>)
  qed
qed

lemma dbind_assoc: "dbind (dbind m f) g = dbind m (\<lambda>x. dbind (f x) g)"
  by (rule ext) (simp add: dbind_def split: prod.split result.split)

lemma dbind_dret: "dbind (dret x) f = f x"
  by (rule ext) (simp add: dbind_def dret_def)

lemma dfirm_consume_at: "dfirm (dbind (dset_pos p) (\<lambda>_. dcursor (marker_consume m)))"
  unfolding dfirm_def
proof (rule conjI, rule dresI)
  fix d :: "('a, 'b) hpack_decoder" and c x d' c' ys
  assume a: "cursor_ok c" "dec_buffer d = []"
    "dbind (dset_pos p) (\<lambda>_. dcursor (marker_consume m)) (d, c) = (Ok x, d', c')"
  then have "dcursor (marker_consume m) (d, c\<lparr>c_pos := p\<rparr>) = (Ok x, d', c')" by (simp add: dbind_def dset_pos_def)
  from dcursor_marker [OF this] have 1: "d' = d" "marker_consume m (c\<lparr>c_pos := p\<rparr>) = Ok (x, c')" by auto
  from marker_consume_ext [OF 1(2), of ys] 1 a(2)
  show "cursor_ok c' \<and> dec_buffer d' = []
      \<and> dbind (dset_pos p) (\<lambda>_. dcursor (marker_consume m)) (d, cext ys c) = (Ok x, d', cext ys c')"
    by (simp add: dcursor_def dbind_def dset_pos_def)
qed (auto simp: dbind_def dset_pos_def dest: dcursor_marker)

lemmas dres_pure_intros = dres_dbind_pure [OF dfirm_dres [OF dfirm_dpos] dpure_dpos]
  dres_dbind_pure [OF dres_try_decode_string dpure_try_decode_string]
  dres_dbind_pure [OF dres_dint dpure_dint]
  dres_dbind_pure [OF dfirm_dres [OF dfirm_table_get] dpure_table_get]

lemma dres_decode_string: "dres decode_string"
  unfolding decode_string_def by (intro dres_pure_intros dfirm_dres dfirm_consume_at)

lemma dres_decode_name_value: "dres (decode_name_value e)"
proof -
  have eq: "decode_name_value e =
     dbind dpos (\<lambda>old_pos.
     dbind try_decode_string (\<lambda>name_marker.
     dbind try_decode_string (\<lambda>value_marker.
     dbind (dbind (dset_pos old_pos) (\<lambda>_. dcursor (marker_consume name_marker))) (\<lambda>name.
     dbind (dcursor (marker_consume value_marker)) (\<lambda>value.
     dlift (header_new e name value))))))"
    by (simp add: decode_name_value_def dbind_assoc)
  show ?thesis unfolding eq
    by (intro dres_pure_intros dfirm_dres dfirm_dbind dfirm_consume_at dfirm_marker_consume dfirm_dlift)
qed

lemma dres_decode_literal: "dres (decode_literal e index)"
  unfolding decode_literal_eq
proof (rule dres_dbind_pure [OF dres_dint dpure_dint])
  fix i
  show "dres (if i = 0 then decode_name_value e
       else dbind (\<lambda>s. (dtable_get e (dec_table (fst s)) i, s)) (\<lambda>entry.
         dbind decode_string (\<lambda>value. dlift (name_into_entry e (header_name entry) value))))"
    by (cases "i = 0") (simp add: dres_decode_name_value, simp only: if_False,
      intro dres_pure_intros dres_dbind_firm [OF dres_decode_string] dfirm_dlift)
qed

lemma dres_decode_indexed: "dres (decode_indexed e)"
  unfolding decode_indexed_def by (intro dres_dbind_pure [OF dres_dint dpure_dint] dfirm_dres dfirm_table_get)

lemma dres_process_size_update: "dres (process_size_update e)"
  unfolding process_size_update_def
proof (rule dres_dbind_pure [OF dres_dint dpure_dint])
  fix n
  show "dres (\<lambda>(d, c). if n > dec_last_max_update d then (Err InvalidMaxDynamicSize, (d, c))
       else case dtable_set_max_size e n (dec_table d) of
              Ok t \<Rightarrow> (Ok (), (d\<lparr>dec_table := t\<rparr>, c))
            | Err er \<Rightarrow> (Err er, (d, c))
            | Panic \<Rightarrow> (Panic, (d, c)))"
    by (rule dresI) (auto split: if_splits result.splits)
qed

lemma dres_decode_one: "dres (decode_one e can_resize ty)"
proof -
  obtain rep where rep: "representation_load ty = Ok rep" using representation_load_total by blast
  have c: "dfirm (dbind dconsume (\<lambda>_. dret y))" for y
    by (intro dfirm_dbind dfirm_dconsume dfirm_dret)
  note d = dres_dbind_firm [OF _ c] dres_dbind_firm [OF _ dfirm_dbind [OF dfirm_dinsert c]]
  show ?thesis
    by (cases rep) (simp_all add: decode_one_def rep dbind_dlift d dres_decode_indexed dres_decode_literal
        dres_process_size_update dfirm_dres dfirm_dlift)
qed

text \<open>After a turn of the loop the cursor stands at the front of its buffer.\<close>

lemma dbind_consume_pos:
  assumes "dbind m (\<lambda>x. dbind dconsume (\<lambda>_. dret (f x))) (d, c) = (Ok y, (d', c'))"
  shows "c_pos c' = 0"
proof -
  from assms obtain x d1 c1 where "dbind dconsume (\<lambda>_. dret (f x)) (d1, c1) = (Ok y, (d', c'))"
    by (cases rule: dbind_cases) auto
  then show ?thesis
    by (cases "c_pos c1 \<le> length (c_inner c1)")
      (auto simp: dconsume_def dbind_def dcursor_def cursor_take_def dret_def)
qed

lemma decode_one_pos:
  assumes "decode_one e can_resize ty (d, c) = (Ok y, (d', c'))"
  shows "c_pos c' = 0"
proof -
  obtain rep where rep: "representation_load ty = Ok rep" using representation_load_total by blast
  show ?thesis
  proof (cases rep)
    case LiteralWithIndexing
    with assms rep have "dbind (dbind (decode_literal e True) (\<lambda>h. dbind (dinsert e h) (\<lambda>_. dret h)))
        (\<lambda>h. dbind dconsume (\<lambda>_. dret (False, Some h))) (d, c) = (Ok y, (d', c'))"
      by (simp add: decode_one_def dbind_dlift dbind_assoc dbind_dret)
    then show ?thesis by (rule dbind_consume_pos)
  qed (use assms rep in \<open>auto simp: decode_one_def dbind_dlift dlift_def dest: dbind_consume_pos split: if_splits\<close>)
qed

section \<open>The loop\<close>

lemma decode_one_can_resize:
  assumes "decode_one e False ty s = (Ok x, s')"
  shows "decode_one e True ty s = (Ok x, s')"
proof -
  obtain rep where rep: "representation_load ty = Ok rep" using representation_load_total by blast
  with assms show ?thesis by (cases rep) (simp_all add: decode_one_def dbind_dlift dlift_def)
qed

lemma decode_loop_can_resize:
  assumes "decode_loop e cr hs d c = (Ok (), hs', s')"
  shows "decode_loop e True hs d c = (Ok (), hs', s')"
proof (cases cr)
  case False
  show ?thesis
  proof (cases "peek_u8 c")
    case (Some ty)
    with assms False obtain x s1 where one: "decode_one e False ty (d, c) = (Ok x, s1)"
      by (subst (asm) decode_loop.simps) (auto split: prod.splits result.splits)
    from assms False Some one decode_one_can_resize [OF one] show ?thesis
      by (simp add: decode_loop.simps [of e _ hs d c] split: prod.splits)
  qed (use assms in \<open>simp add: decode_loop.simps [of e _ _ d c]\<close>)
qed (use assms in simp)

lemma decode_loop_acc:
  "decode_loop e cr (xs @ hs) d c = (case decode_loop e cr hs d c of (r, hs', s) \<Rightarrow> (r, xs @ hs', s))"
proof (induction e cr hs d c rule: decode_loop.induct)
  case (1 e cr hs d c)
  show ?case
  proof (cases "peek_u8 c")
    case (Some ty)
    obtain r1 d1 c1 where one: "decode_one e cr ty (d, c) = (r1, (d1, c1))"
      by (cases "decode_one e cr ty (d, c)") auto
    show ?thesis
    proof (cases r1)
      case (Ok y)
      obtain cr1 h where y: "y = (cr1, h)" by (cases y)
      from "1.IH" [OF Some one [symmetric] Ok y [symmetric] refl] Some one Ok y show ?thesis
        by (simp add: decode_loop.simps [of e cr _ d c])
    qed (use Some one in \<open>simp_all add: decode_loop.simps [of e cr _ d c]\<close>)
  qed (simp add: decode_loop.simps [of e cr _ d c])
qed

text \<open>
  A block that decodes as a whole decodes in two parts: the first part ends or asks for more, and
  the second part, put behind what the first has left, completes it with the same headers, table
  and rest.
\<close>

lemma decode_loop_resume:
  "cursor_ok c \<Longrightarrow> c_pos c = 0 \<Longrightarrow> dec_buffer d = [] \<Longrightarrow> dtable_ok e (dec_table d) \<Longrightarrow>
   decode_loop e cr hs d (cext ys c) = (Ok (), hs', s') \<Longrightarrow>
   \<exists>r hs1 d1 c1. decode_loop e cr hs d c = (r, hs1, (d1, c1)) \<and> (r = Ok () \<or> (\<exists>n. r = Err (NeedMore n)))
     \<and> decode_loop e True hs1 d1 \<lparr>c_pos = 0, c_inner = c_inner c1 @ ys\<rparr> = (Ok (), hs', s')"
proof (induction e cr hs d c rule: decode_loop.induct)
  case (1 e cr hs d c)
  have ext: "cext ys c = \<lparr>c_pos = 0, c_inner = c_inner c @ ys\<rparr>" using "1.prems"(2) by (simp add: cext_def)
  have whole: "decode_loop e True hs d \<lparr>c_pos = 0, c_inner = c_inner c @ ys\<rparr> = (Ok (), hs', s')"
    using decode_loop_can_resize [OF "1.prems"(5)] by (simp add: ext)
  show ?case
  proof (cases "peek_u8 c")
    case None
    with whole show ?thesis by (simp add: decode_loop.simps [of e cr hs d c])
  next
    case (Some ty)
    note peek = peek_ext [OF "1.prems"(1) Some, of ys]
    obtain r1 d1 c1 where one: "decode_one e cr ty (d, c) = (r1, (d1, c1))"
      by (cases "decode_one e cr ty (d, c)") auto
    note G = dgoodD [OF dgood_decode_one "1.prems"(1) one, unfolded dgood_step_def prod.case]
    show ?thesis
    proof (cases r1)
      case (Ok y)
      obtain cr1 h where y: "y = (cr1, h)" by (cases y)
      let ?hs = "hs @ (case h of None \<Rightarrow> [] | Some x \<Rightarrow> [x])"
      note E = dresD(1) [OF dres_decode_one "1.prems"(1,3) one Ok, of ys]
      have "decode_loop e cr1 ?hs d1 (cext ys c1) = (Ok (), hs', s')"
        using "1.prems"(5) peek E y by (simp add: decode_loop.simps [of e cr hs d "cext ys c"])
      from "1.IH" [OF Some one [symmetric] Ok y [symmetric] refl _ _ _ _ this] E G "1.prems"(4)
        decode_one_pos [of e cr ty d c y d1 c1] one Ok
      show ?thesis using Some y by (simp add: decode_loop.simps [of e cr hs d c])
    next
      case (Err er)
      from dresD(2) [OF dres_decode_one "1.prems"(1,3) one Err]
      have "is_need_more er \<and> d1 = d \<and> c_inner c1 = c_inner c"
      proof
        assume "\<forall>ys. fst (decode_one e cr ty (d, cext ys c)) = Err er"
        then have "fst (decode_one e cr ty (d, cext ys c)) = Err er" ..
        with "1.prems"(5) peek show ?thesis
          by (cases "decode_one e cr ty (d, cext ys c)")
            (simp add: decode_loop.simps [of e cr hs d "cext ys c"] split: prod.splits)
      qed
      with whole Some one Err show ?thesis
        by (simp add: decode_loop.simps [of e cr hs d c] is_need_more_def split: decoder_error.splits)
    next
      case Panic
      with G "1.prems"(4) show ?thesis by simp
    qed
  qed
qed

text \<open>No turn of the loop grows the buffer, whatever its outcome.\<close>

definition dshrinks :: "('m, 'st, 'a) dcomp \<Rightarrow> bool" where
  "dshrinks m \<longleftrightarrow> (\<forall>d c. length (c_inner (snd (snd (m (d, c))))) \<le> length (c_inner c))"

lemma dshrinks_dbind:
  assumes "dshrinks m" "\<And>x. dshrinks (f x)"
  shows "dshrinks (dbind m f)"
  unfolding dshrinks_def
proof (intro allI)
  fix d c
  obtain r d1 c1 where m: "m (d, c) = (r, (d1, c1))" by (cases "m (d, c)") auto
  have "length (c_inner c1) \<le> length (c_inner c)" using assms(1) m unfolding dshrinks_def by (metis snd_conv)
  moreover have "length (c_inner (snd (snd (f x (d1, c1))))) \<le> length (c_inner c1)" for x
    using assms(2) unfolding dshrinks_def by blast
  ultimately show "length (c_inner (snd (snd (dbind m f (d, c))))) \<le> length (c_inner c)"
    using m by (cases r) (auto simp: dbind_def intro: order_trans)
qed

lemma dshrinks_basic:
  "dshrinks (dret x)" "dshrinks (dlift r)" "dshrinks dpos" "dshrinks (dset_pos p)" "dshrinks (dint p)"
  "dshrinks (\<lambda>s. (dtable_get e (dec_table (fst s)) i, s))" "dshrinks (dinsert e h)"
  by (simp_all add: dshrinks_def dret_def dlift_def dpos_def dset_pos_def dint_def dinsert_def cursor_at_def
      split: prod.split)

lemma dshrinks_dcursor:
  assumes "\<And>c x c'. f c = Ok (x, c') \<Longrightarrow> length (c_inner c') \<le> length (c_inner c)"
  shows "dshrinks (dcursor f)"
  using assms by (auto simp: dshrinks_def dcursor_def split: result.split)

lemma dshrinks_marker_consume: "dshrinks (dcursor (marker_consume m))"
  by (rule dshrinks_dcursor)
    (auto simp: marker_consume_def rbind_eq_Ok cursor_advance_def cursor_take_def split: option.splits if_splits)

lemma dshrinks_dconsume: "dshrinks dconsume"
  unfolding dconsume_def
  by (intro dshrinks_dbind dshrinks_basic dshrinks_dcursor) (auto simp: cursor_take_def split: if_splits)

lemma dshrinks_string_body: "dshrinks (string_body huff pos len)"
  by (auto simp: dshrinks_def string_body_def try_decode_huffman_def Let_def dbind_def dcursor_def dret_def
      cursor_advance_def split: prod.split)

lemma dshrinks_try_decode_string: "dshrinks try_decode_string"
  unfolding try_decode_string_eq
proof (rule dshrinks_dbind [OF dshrinks_basic(3)])
  fix pos
  have "dshrinks (dbind (dint 7) (string_body h pos))" for h
    by (intro dshrinks_dbind dshrinks_basic dshrinks_string_body)
  then show "dshrinks (\<lambda>s. case peek_u8 (snd s) of
       None \<Rightarrow> (Err (NeedMore UnexpectedEndOfStream), s)
     | Some hdr \<Rightarrow> dbind (dint 7) (string_body (hdr AND HUFF_FLAG = HUFF_FLAG) pos) s)"
    unfolding dshrinks_def by (auto split: option.split)
qed

lemma dshrinks_decode_one: "dshrinks (decode_one e cr ty)"
proof -
  obtain rep where rep: "representation_load ty = Ok rep" using representation_load_total by blast
  have nv: "dshrinks (decode_name_value e)"
    unfolding decode_name_value_def
    by (rule dshrinks_dbind dshrinks_basic dshrinks_try_decode_string dshrinks_marker_consume)+
  have st: "dshrinks decode_string"
    unfolding decode_string_def
    by (rule dshrinks_dbind dshrinks_basic dshrinks_try_decode_string dshrinks_marker_consume)+
  have named: "dshrinks (dbind (\<lambda>s. (dtable_get e (dec_table (fst s)) j, s)) (\<lambda>entry.
      dbind decode_string (\<lambda>value. dlift (name_into_entry e (header_name entry) value))))" for j
    by (rule dshrinks_dbind dshrinks_basic st)+
  have lit: "dshrinks (decode_literal e i)" for i
    unfolding decode_literal_eq by (rule dshrinks_dbind [OF dshrinks_basic(5)]) (simp add: nv named)
  have upd: "dshrinks (process_size_update e)"
    unfolding process_size_update_def
    by (rule dshrinks_dbind [OF dshrinks_basic(5)]) (simp add: dshrinks_def split: result.split)
  have ind: "dshrinks (decode_indexed e)"
    unfolding decode_indexed_def by (intro dshrinks_dbind dshrinks_basic)
  note b = dshrinks_dbind dshrinks_basic dshrinks_dconsume lit upd ind
  show ?thesis by (cases rep) (simp_all add: decode_one_def rep dbind_dlift b)
qed

lemma decode_loop_shrinks:
  "decode_loop e cr hs d c = (r, hs', (d', c')) \<Longrightarrow> length (c_inner c') \<le> length (c_inner c)"
proof (induction e cr hs d c arbitrary: r hs' d' c' rule: decode_loop.induct)
  case (1 e cr hs d c)
  show ?case
  proof (cases "peek_u8 c")
    case (Some ty)
    obtain r1 d1 c1 where one: "decode_one e cr ty (d, c) = (r1, (d1, c1))"
      by (cases "decode_one e cr ty (d, c)") auto
    have le: "length (c_inner c1) \<le> length (c_inner c)"
      using dshrinks_decode_one [of e cr ty] one unfolding dshrinks_def by (metis snd_conv)
    show ?thesis
    proof (cases r1)
      case (Ok y)
      obtain cr1 h where y: "y = (cr1, h)" by (cases y)
      from "1.IH" [OF Some one [symmetric] Ok y [symmetric] refl] "1.prems" Some one Ok y le
      show ?thesis by (fastforce simp: decode_loop.simps [of e cr hs d c])
    qed (use "1.prems" Some one le in \<open>auto simp: decode_loop.simps [of e cr hs d c]\<close>)
  qed (use "1.prems" in \<open>auto simp: decode_loop.simps [of e cr hs d c]\<close>)
qed

end
