(* ===== verification/Framed_Read.thy ===== *)
theory Framed_Read
  imports Frame_Headers Frame_Settings Hpack_Resume
begin

text \<open>
  The reading half of the codec (\<open>codec/framed_read.rs\<close>): one length-delimited frame at a time is
  turned into a \<open>frame\<close>, header blocks are collected over CONTINUATION frames, and errors are turned
  into stream resets or GOAWAYs. The delimiting of the byte stream is \<open>tokio_util\<close>'s.
\<close>

section \<open>Frames\<close>

datatype ('m, 'st, 'h) frame =
    FData data_frame
  | FHeaders "('m, 'st, 'h) headers_frame"
  | FPriority priority_frame
  | FPushPromise "('m, 'st, 'h) push_promise_frame"
  | FSettings settings
  | FPing ping_frame
  | FGoAway go_away_frame
  | FWindowUpdate window_update_frame
  | FReset reset_frame

fun frame_kind :: "('m, 'st, 'h) frame \<Rightarrow> kind" where
  "frame_kind (FData _) = KData"
| "frame_kind (FHeaders _) = KHeaders"
| "frame_kind (FPriority _) = KPriority"
| "frame_kind (FPushPromise _) = KPushPromise"
| "frame_kind (FSettings _) = KSettings"
| "frame_kind (FPing _) = KPing"
| "frame_kind (FGoAway _) = KGoAway"
| "frame_kind (FWindowUpdate _) = KWindowUpdate"
| "frame_kind (FReset _) = KReset"

datatype ('m, 'st, 'h) continuable =
    CHeaders "('m, 'st, 'h) headers_frame"
  | CPushPromise "('m, 'st, 'h) push_promise_frame"

fun cont_stream_id :: "('m, 'st, 'h) continuable \<Rightarrow> stream_id" where
  "cont_stream_id (CHeaders h) = hf_stream_id h"
| "cont_stream_id (CPushPromise p) = ppf_stream_id p"

fun cont_block :: "('m, 'st, 'h) continuable \<Rightarrow> ('m, 'st, 'h) header_block" where
  "cont_block (CHeaders h) = hf_block h"
| "cont_block (CPushPromise p) = ppf_block p"

definition cont_is_over_size :: "('m, 'st, 'h) continuable \<Rightarrow> bool" where
  "cont_is_over_size f = hb_is_over_size (cont_block f)"

fun cont_is_end_headers :: "('m, 'st, 'h) continuable \<Rightarrow> bool" where
  "cont_is_end_headers (CHeaders h) = flag_is_end_headers (hf_flags h)"
| "cont_is_end_headers (CPushPromise p) = flag_is_end_headers (ppf_flags p)"

fun cont_set_block :: "('m, 'st, 'h) header_block \<Rightarrow> ('m, 'st, 'h) continuable \<Rightarrow> ('m, 'st, 'h) continuable" where
  "cont_set_block b (CHeaders h) = CHeaders (h\<lparr>hf_block := b\<rparr>)"
| "cont_set_block b (CPushPromise p) = CPushPromise (p\<lparr>ppf_block := b\<rparr>)"

text \<open>\<open>Continuable::load_hpack\<close>: the outcome, the frame, what is left of the buffer and the decoder.\<close>

definition cont_load_hpack ::
  "('m, 'st) ext \<Rightarrow> 'h hmap \<Rightarrow> bytes \<Rightarrow> nat \<Rightarrow> ('m, 'st) hpack_decoder \<Rightarrow> ('m, 'st, 'h) continuable \<Rightarrow>
     (unit, frame_error) result \<times> ('m, 'st, 'h) continuable \<times> bytes \<times> ('m, 'st) hpack_decoder" where
  "cont_load_hpack e H src max_header_list_size dec f =
     (case block_load e H src max_header_list_size dec (cont_block f) of (r, b, rest, dec') \<Rightarrow>
        (r, cont_set_block b f, rest, dec'))"

text \<open>A whole frame into a \<open>Frame\<close>, and \<open>From<Continuable>\<close>, which sets END_HEADERS.\<close>

fun cont_frame :: "('m, 'st, 'h) continuable \<Rightarrow> ('m, 'st, 'h) frame" where
  "cont_frame (CHeaders h) = FHeaders h"
| "cont_frame (CPushPromise p) = FPushPromise p"

fun frame_from_continuable :: "('m, 'st, 'h) continuable \<Rightarrow> ('m, 'st, 'h) frame" where
  "frame_from_continuable (CHeaders h) = FHeaders (h\<lparr>hf_flags := flag_set_end_headers (hf_flags h)\<rparr>)"
| "frame_from_continuable (CPushPromise p) = FPushPromise (p\<lparr>ppf_flags := flag_set_end_headers (ppf_flags p)\<rparr>)"

section \<open>State\<close>

record ('m, 'st, 'h) partial =
  pt_frame :: "('m, 'st, 'h) continuable"
  pt_buf :: bytes
  pt_continuation_frames_count :: nat

text \<open>\<open>fr_max_frame_length\<close> is the limit kept by the length-delimited decoder.\<close>

record ('m, 'st, 'h) framed_read =
  fr_hpack :: "('m, 'st) hpack_decoder"
  fr_max_header_list_size :: nat
  fr_max_continuation_frames :: nat
  fr_max_frame_length :: nat
  fr_partial :: "('m, 'st, 'h) partial option"

definition DEFAULT_SETTINGS_MAX_HEADER_LIST_SIZE :: nat where
  "DEFAULT_SETTINGS_MAX_HEADER_LIST_SIZE = 16 * 2 ^ 20"

definition usize_MAX :: nat where "usize_MAX = 2 ^ 64 - 1"

text \<open>The division panics on 0; \<open>set_max_frame_size\<close> refuses such a value.\<close>

definition calc_max_continuation_frames :: "nat \<Rightarrow> nat \<Rightarrow> (nat, unit) result" where
  "calc_max_continuation_frames header_max frame_max =
     (if frame_max = 0 then Panic
      else
        let min_frames_for_list = max (header_max div frame_max) 1;
            padding = min_frames_for_list div 4 in
        Ok (max (min usize_MAX (min_frames_for_list + padding)) 5))"

definition framed_read_new :: "nat \<Rightarrow> (('m, 'st, 'h) framed_read, unit) result" where
  "framed_read_new max_frame_length =
     rbind (calc_max_continuation_frames DEFAULT_SETTINGS_MAX_HEADER_LIST_SIZE max_frame_length) (\<lambda>n.
       Ok \<lparr>fr_hpack = hpack_decoder_new DEFAULT_SETTINGS_HEADER_TABLE_SIZE,
           fr_max_header_list_size = DEFAULT_SETTINGS_MAX_HEADER_LIST_SIZE,
           fr_max_continuation_frames = n, fr_max_frame_length = max_frame_length, fr_partial = None\<rparr>)"

definition set_max_frame_size ::
  "nat \<Rightarrow> ('m, 'st, 'h) framed_read \<Rightarrow> (('m, 'st, 'h) framed_read, unit) result" where
  "set_max_frame_size val fr =
     (if unat DEFAULT_MAX_FRAME_SIZE \<le> val \<and> val \<le> unat MAX_MAX_FRAME_SIZE
      then rbind (calc_max_continuation_frames (fr_max_header_list_size fr) val) (\<lambda>n.
        Ok (fr\<lparr>fr_max_frame_length := val, fr_max_continuation_frames := n\<rparr>))
      else Panic)"

definition set_max_header_list_size ::
  "nat \<Rightarrow> ('m, 'st, 'h) framed_read \<Rightarrow> (('m, 'st, 'h) framed_read, unit) result" where
  "set_max_header_list_size val fr =
     rbind (calc_max_continuation_frames val (fr_max_frame_length fr)) (\<lambda>n.
       Ok (fr\<lparr>fr_max_header_list_size := val, fr_max_continuation_frames := n\<rparr>))"

definition set_header_table_size :: "nat \<Rightarrow> ('m, 'st, 'h) framed_read \<Rightarrow> ('m, 'st, 'h) framed_read" where
  "set_header_table_size val fr = fr\<lparr>fr_hpack := queue_size_update val (fr_hpack fr)\<rparr>"

text \<open>\<open>map_err\<close>: a frame longer than the limit is a FRAME_SIZE_ERROR; \<open>too_long\<close> is the type test on the error.\<close>

definition framed_read_map_err :: "bool \<Rightarrow> proto_error \<Rightarrow> proto_error" where
  "framed_read_map_err too_long err = (if too_long then library_go_away FRAME_SIZE_ERROR else err)"

section \<open>Decoding a frame\<close>

type_synonym ('m, 'st, 'h) decoded =
  "(('m, 'st, 'h) frame option, proto_error) result \<times> ('m, 'st, 'h) framed_read"

text \<open>\<open>res.map_err(...)?.into()\<close> for the frames without a header block.\<close>

definition plain_frame ::
  "('a \<Rightarrow> ('m, 'st, 'h) frame) \<Rightarrow> ('a, frame_error) result \<Rightarrow> (('m, 'st, 'h) frame option, proto_error) result" where
  "plain_frame into res =
     map_ok (\<lambda>f. Some (into f)) (map_err (\<lambda>_. library_go_away PROTOCOL_ERROR) res)"

text \<open>The errors of \<open>load_hpack\<close>: \<open>None\<close> lets the frame pass.\<close>

definition hpack_outcome ::
  "bool \<Rightarrow> stream_id \<Rightarrow> (unit, frame_error) result \<Rightarrow> (unit, proto_error) result" where
  "hpack_outcome is_end_headers sid r =
     (case r of
        Ok _ \<Rightarrow> Ok ()
      | Err (Hpack (NeedMore _)) \<Rightarrow> if \<not> is_end_headers then Ok () else Err (library_go_away PROTOCOL_ERROR)
      | Err MalformedMessage \<Rightarrow> Err (library_reset sid PROTOCOL_ERROR)
      | Err _ \<Rightarrow> Err (library_go_away PROTOCOL_ERROR)
      | Panic \<Rightarrow> Panic)"

text \<open>The macro \<open>header_block!\<close>, with \<open>loaded\<close> the result of \<open>Headers::load\<close> or \<open>PushPromise::load\<close>.\<close>

definition decode_header_block ::
  "('m, 'st) ext \<Rightarrow> 'h hmap \<Rightarrow> head \<Rightarrow> (('m, 'st, 'h) continuable \<times> bytes, frame_error) result \<Rightarrow>
     ('m, 'st, 'h) framed_read \<Rightarrow> ('m, 'st, 'h) decoded" where
  "decode_header_block e H head loaded fr =
     (case loaded of
        Panic \<Rightarrow> (Panic, fr)
      | Err InvalidDependencyId \<Rightarrow> (Err (library_reset (h_stream_id head) PROTOCOL_ERROR), fr)
      | Err _ \<Rightarrow> (Err (library_go_away PROTOCOL_ERROR), fr)
      | Ok (frame, payload) \<Rightarrow>
          let is_end_headers = cont_is_end_headers frame in
          (case cont_load_hpack e H payload (fr_max_header_list_size fr) (fr_hpack fr) frame of
             (r, frame', rest, dec) \<Rightarrow>
               let fr1 = fr\<lparr>fr_hpack := dec\<rparr> in
               (case hpack_outcome is_end_headers (h_stream_id head) r of
                  Panic \<Rightarrow> (Panic, fr1)
                | Err er \<Rightarrow> (Err er, fr1)
                | Ok _ \<Rightarrow>
                    if is_end_headers then (Ok (Some (cont_frame frame')), fr1)
                    else (Ok None, fr1\<lparr>fr_partial := Some \<lparr>pt_frame = frame', pt_buf = rest,
                                           pt_continuation_frames_count = 0\<rparr>\<rparr>))))"

definition decode_priority :: "head \<Rightarrow> bytes \<Rightarrow> (('m, 'st, 'h) frame option, proto_error) result" where
  "decode_priority head payload =
     (if h_stream_id head = 0 then Err (library_go_away PROTOCOL_ERROR)
      else case priority_load head payload of
        Ok f \<Rightarrow> Ok (Some (FPriority f))
      | Err InvalidDependencyId \<Rightarrow> Err (library_reset (h_stream_id head) PROTOCOL_ERROR)
      | Err _ \<Rightarrow> Err (library_go_away PROTOCOL_ERROR)
      | Panic \<Rightarrow> Panic)"

definition too_many_continuations :: bytes where "too_many_continuations = str ''too_many_continuations''"

definition decode_continuation ::
  "('m, 'st) ext \<Rightarrow> 'h hmap \<Rightarrow> head \<Rightarrow> bytes \<Rightarrow> ('m, 'st, 'h) framed_read \<Rightarrow> ('m, 'st, 'h) decoded" where
  "decode_continuation e H head bs fr =
     (let is_end_headers = (h_flag head AND 0x4 = 0x4); fr0 = fr\<lparr>fr_partial := None\<rparr> in
      case fr_partial fr of
        None \<Rightarrow> (Err (library_go_away PROTOCOL_ERROR), fr0)
      | Some pt \<Rightarrow>
          if cont_stream_id (pt_frame pt) \<noteq> h_stream_id head then (Err (library_go_away PROTOCOL_ERROR), fr0)
          else
            let cnt = (if is_end_headers then 0 else pt_continuation_frames_count pt + 1) in
            if \<not> is_end_headers \<and> cnt > fr_max_continuation_frames fr
            then (Err (library_go_away_data ENHANCE_YOUR_CALM too_many_continuations), fr0)
            else if pt_buf pt \<noteq> [] \<and> cont_is_over_size (pt_frame pt)
                 \<and> length (pt_buf pt) + length bs > fr_max_header_list_size fr
            then (Err (library_go_away COMPRESSION_ERROR), fr0)
            else
              let buf = (if pt_buf pt = [] then drop HEADER_LEN bs else pt_buf pt @ drop HEADER_LEN bs) in
              (case cont_load_hpack e H buf (fr_max_header_list_size fr) (fr_hpack fr) (pt_frame pt) of
                 (r, frame', rest, dec) \<Rightarrow>
                   let fr1 = fr0\<lparr>fr_hpack := dec\<rparr> in
                   (case hpack_outcome is_end_headers (h_stream_id head) r of
                      Panic \<Rightarrow> (Panic, fr1)
                    | Err er \<Rightarrow> (Err er, fr1)
                    | Ok _ \<Rightarrow>
                        if is_end_headers then (Ok (Some (frame_from_continuable frame')), fr1)
                        else (Ok None, fr1\<lparr>fr_partial := Some \<lparr>pt_frame = frame', pt_buf = rest,
                                               pt_continuation_frames_count = cnt\<rparr>\<rparr>))))"

text \<open>The \<open>match kind\<close>.\<close>

definition decode_kind ::
  "('m, 'st) ext \<Rightarrow> 'h hmap \<Rightarrow> head \<Rightarrow> bytes \<Rightarrow> ('m, 'st, 'h) framed_read \<Rightarrow> ('m, 'st, 'h) decoded" where
  "decode_kind e H head bs fr =
     (let payload = drop HEADER_LEN bs in
      case h_kind head of
        KSettings \<Rightarrow> (plain_frame FSettings (settings_load head payload), fr)
      | KPing \<Rightarrow> (plain_frame FPing (ping_load head payload), fr)
      | KWindowUpdate \<Rightarrow> (plain_frame FWindowUpdate (window_update_load head payload), fr)
      | KData \<Rightarrow> (plain_frame FData (data_load head payload), fr)
      | KHeaders \<Rightarrow> decode_header_block e H head
          (map_ok (\<lambda>(f, p). (CHeaders f, p)) (headers_load H head payload)) fr
      | KReset \<Rightarrow> (plain_frame FReset (reset_load head payload), fr)
      | KGoAway \<Rightarrow> (plain_frame FGoAway (go_away_load payload), fr)
      | KPushPromise \<Rightarrow> decode_header_block e H head
          (map_ok (\<lambda>(f, p). (CPushPromise f, p)) (push_promise_load H head payload)) fr
      | KPriority \<Rightarrow> (decode_priority head payload, fr)
      | KContinuation \<Rightarrow> decode_continuation e H head bs fr
      | KUnknown \<Rightarrow> (Ok None, fr))"

definition decode_frame ::
  "('m, 'st) ext \<Rightarrow> 'h hmap \<Rightarrow> bytes \<Rightarrow> ('m, 'st, 'h) framed_read \<Rightarrow> ('m, 'st, 'h) decoded" where
  "decode_frame e H bs fr =
     (case head_parse bs :: (head, proto_error) result of
        Panic \<Rightarrow> (Panic, fr)
      | Err er \<Rightarrow> (Err er, fr)
      | Ok head \<Rightarrow>
          if fr_partial fr \<noteq> None \<and> h_kind head \<noteq> KContinuation
          then (Err (library_go_away PROTOCOL_ERROR), fr)
          else decode_kind e H head bs fr)"

text \<open>
  \<open>poll_next\<close> over the frames the delimiter has ready: the first frame delivered or error, and what is
  left; \<open>Ok None\<close> when they run out.
\<close>

fun poll_next ::
  "('m, 'st) ext \<Rightarrow> 'h hmap \<Rightarrow> bytes list \<Rightarrow> ('m, 'st, 'h) framed_read \<Rightarrow>
     (('m, 'st, 'h) frame option, proto_error) result \<times> bytes list \<times> ('m, 'st, 'h) framed_read" where
  "poll_next e H [] fr = (Ok None, [], fr)"
| "poll_next e H (bs # frames) fr =
     (case decode_frame e H bs fr of
        (Ok None, fr') \<Rightarrow> poll_next e H frames fr'
      | (r, fr') \<Rightarrow> (r, frames, fr'))"

section \<open>Loading a block in parts\<close>

definition block_state :: "('m, 'st) ext \<Rightarrow> 'h hmap \<Rightarrow> ('m, 'st, 'h) header_block \<Rightarrow> ('m, 'st, 'h) block_loading" where
  "block_state e H b = \<lparr>bl_reg = \<not> hm_is_empty H (hb_fields b), bl_malformed = False,
     bl_headers_size = calculate_header_list_size e b, bl_block = b\<rparr>"

definition decoder_start :: "('m, 'st) hpack_decoder \<Rightarrow> ('m, 'st) hpack_decoder" where
  "decoder_start d = (case dec_max_size_update d of
     Some n \<Rightarrow> d\<lparr>dec_max_size_update := None, dec_last_max_update := n\<rparr> | None \<Rightarrow> d)"

lemma decoder_start_simps [simp]:
  "dec_table (decoder_start d) = dec_table d" "dec_buffer (decoder_start d) = dec_buffer d"
  "dec_max_size_update (decoder_start d) = None"
  "dec_max_size_update d = None \<Longrightarrow> decoder_start d = d"
  by (auto simp: decoder_start_def split: option.split)

lemma block_load_eq:
  "block_load e H src m dec b =
     (case decode_loop e True [] (decoder_start dec) \<lparr>c_pos = 0, c_inner = src\<rparr> of (res, hs, (dec', c)) \<Rightarrow>
        let s = fold (load_header e H m) hs (block_state e H b) in
        (case res of
           Ok _ \<Rightarrow> if bl_malformed s then Err MalformedMessage else Ok ()
         | Err er \<Rightarrow> Err (Hpack er)
         | Panic \<Rightarrow> Panic,
         bl_block s, c_inner c, dec'))"
  by (simp add: block_load_def decode_def block_state_def decoder_start_def Let_def)

text \<open>What the collection of headers keeps while nothing is malformed or dropped.\<close>

definition load_ok :: "('m, 'st) ext \<Rightarrow> 'h hmap \<Rightarrow> ('m, 'st, 'h) block_loading \<Rightarrow> bool" where
  "load_ok e H s \<longleftrightarrow> (bl_reg s \<longleftrightarrow> \<not> hm_is_empty H (hb_fields (bl_block s)))
     \<and> calculate_header_list_size e (bl_block s) \<le> bl_headers_size s"

lemma load_ok_block_state: "load_ok e H (block_state e H b)"
  by (simp add: load_ok_def block_state_def)

lemma load_ok_step:
  assumes "hmap_ok H" "load_ok e H s" "\<not> bl_malformed (load_header e H m h s)"
    "\<not> hb_is_over_size (bl_block (load_header e H m h s))"
  shows "load_ok e H (load_header e H m h s)"
  using assms
  by (cases h) (auto simp: load_ok_def load_header_def set_pseudo_def calculate_header_list_size_def
      pseudo_size_def decoded_header_size_def Let_def hmap_ok_def split: if_splits)

lemma load_ok_fold:
  assumes "hmap_ok H" "load_ok e H s" "\<not> bl_malformed (fold (load_header e H m) hs s)"
    "\<not> hb_is_over_size (bl_block (fold (load_header e H m) hs s))"
  shows "load_ok e H (fold (load_header e H m) hs s)"
  using assms(2-)
proof (induction hs arbitrary: s)
  case (Cons h hs)
  let ?s = "load_header e H m h s"
  have "\<not> bl_malformed ?s" "\<not> hb_is_over_size (bl_block ?s)"
    using fold_load_header_clean [of e H m hs ?s] Cons.prems by auto
  from Cons.IH [OF load_ok_step [OF assms(1) Cons.prems(1) this]] Cons.prems show ?case by simp
qed simp

text \<open>A lower running size does not change a clean collection.\<close>

lemma load_header_less_size:
  assumes "bl_headers_size s' \<le> bl_headers_size s" "s' = s\<lparr>bl_headers_size := bl_headers_size s'\<rparr>"
    "\<not> bl_malformed (load_header e H m h s)" "\<not> hb_is_over_size (bl_block (load_header e H m h s))"
  shows "bl_headers_size (load_header e H m h s') \<le> bl_headers_size (load_header e H m h s)
    \<and> load_header e H m h s' = (load_header e H m h s)\<lparr>bl_headers_size := bl_headers_size (load_header e H m h s')\<rparr>"
  using assms
  by (cases s; cases s'; cases h) (auto simp: load_header_def set_pseudo_def Let_def split: if_splits)

lemma fold_load_header_less_size:
  assumes "bl_headers_size s' \<le> bl_headers_size s" "s' = s\<lparr>bl_headers_size := bl_headers_size s'\<rparr>"
    "\<not> bl_malformed (fold (load_header e H m) hs s)" "\<not> hb_is_over_size (bl_block (fold (load_header e H m) hs s))"
  shows "bl_block (fold (load_header e H m) hs s') = bl_block (fold (load_header e H m) hs s)
    \<and> bl_malformed (fold (load_header e H m) hs s') = bl_malformed (fold (load_header e H m) hs s)"
  using assms
proof (induction hs arbitrary: s s')
  case Nil
  then show ?case by (cases s; cases s') simp
next
  case (Cons h hs)
  let ?s = "load_header e H m h s"
  have "\<not> bl_malformed ?s" "\<not> hb_is_over_size (bl_block ?s)"
    using fold_load_header_clean [of e H m hs ?s] Cons.prems by auto
  from load_header_less_size [OF Cons.prems(1,2) this] Cons.prems(3,4) Cons.IH [of "load_header e H m h s'" ?s]
  show ?case by simp
qed

lemma block_load_resume:
  assumes H: "hmap_ok H" and dec: "dtable_ok e (dec_table dec)" "dec_buffer dec = []"
    and whole: "block_load e H (xs @ ys) m dec b = (Ok (), b', rest, dec')" and fits: "\<not> hb_is_over_size b'"
  shows "\<exists>r b1 rest1 dec1. block_load e H xs m dec b = (r, b1, rest1, dec1)
    \<and> (r = Ok () \<or> (\<exists>n. r = Err (Hpack (NeedMore n)))) \<and> \<not> hb_is_over_size b1
    \<and> dtable_ok e (dec_table dec1) \<and> dec_buffer dec1 = []
    \<and> block_load e H (rest1 @ ys) m dec1 b1 = (Ok (), b', rest, dec')"
proof -
  let ?d = "decoder_start dec" and ?c = "\<lparr>c_pos = 0, c_inner = xs\<rparr>" and ?F = "fold (load_header e H m)"
  let ?s0 = "block_state e H b"
  obtain res hs c where loop: "decode_loop e True [] ?d (cext ys ?c) = (res, hs, (dec', c))"
    "c_inner c = rest" "bl_block (?F hs ?s0) = b'" and ok: "res = Ok ()" "\<not> bl_malformed (?F hs ?s0)"
  proof -
    obtain res hs d c where l: "decode_loop e True [] ?d (cext ys ?c) = (res, hs, (d, c))" by (metis prod.exhaust)
    have "cext ys ?c = \<lparr>c_pos = 0, c_inner = xs @ ys\<rparr>" by (simp add: cext_def)
    with whole l have "d = dec'" "c_inner c = rest" "bl_block (?F hs ?s0) = b'" "res = Ok ()" "\<not> bl_malformed (?F hs ?s0)"
      by (auto simp: block_load_eq Let_def split: result.splits if_splits)
    with l show thesis by (intro that [of res hs c]) simp_all
  qed
  have c_ok: "cursor_ok ?c" by (simp add: cursor_ok_def)
  from decode_loop_resume [OF c_ok _ _ _ loop(1) [unfolded ok(1)]] dec obtain r hs1 d1 c1 where
    part: "decode_loop e True [] ?d ?c = (r, hs1, (d1, c1))" "r = Ok () \<or> (\<exists>n. r = Err (NeedMore n))"
    "decode_loop e True hs1 d1 \<lparr>c_pos = 0, c_inner = c_inner c1 @ ys\<rparr> = (Ok (), hs, (dec', c))"
    by auto
  have safe: "dtable_ok e (dec_table d1)" "dec_buffer d1 = []" "dec_max_size_update d1 = None"
    using decode_loop_safe [OF c_ok _ part(1)] dec part(2) by (auto simp: is_need_more_def)
  obtain hs2 where hs: "hs = hs1 @ hs2"
    "decode_loop e True [] d1 \<lparr>c_pos = 0, c_inner = c_inner c1 @ ys\<rparr> = (Ok (), hs2, (dec', c))"
    using part(3) decode_loop_acc [of e True hs1 "[]" d1 "\<lparr>c_pos = 0, c_inner = c_inner c1 @ ys\<rparr>"]
    by (auto split: prod.splits)
  let ?s1 = "?F hs1 ?s0"
  have final: "?F hs ?s0 = ?F hs2 ?s1" by (simp add: hs(1))
  have s1: "\<not> bl_malformed ?s1" "\<not> hb_is_over_size (bl_block ?s1)"
    using fold_load_header_clean [of e H m hs2 ?s1] ok(2) fits loop(3) final by auto
  have l1: "load_ok e H ?s1" using load_ok_fold [OF H load_ok_block_state s1] .
  let ?t = "block_state e H (bl_block ?s1)"
  have "bl_headers_size ?t \<le> bl_headers_size ?s1" "?t = ?s1\<lparr>bl_headers_size := bl_headers_size ?t\<rparr>"
    using l1 s1(1) by (simp_all add: block_state_def load_ok_def)
  from fold_load_header_less_size [OF this, of e H m hs2] final ok(2) fits loop(3)
  have t: "bl_block (?F hs2 ?t) = b'" "\<not> bl_malformed (?F hs2 ?t)" by auto
  have "block_load e H (c_inner c1 @ ys) m d1 (bl_block ?s1) = (Ok (), b', rest, dec')"
    using hs(2) safe(3) t loop(2) by (simp add: block_load_eq Let_def)
  moreover have "block_load e H xs m dec b
      = (case r of Ok _ \<Rightarrow> Ok () | Err er \<Rightarrow> Err (Hpack er) | Panic \<Rightarrow> Panic, bl_block ?s1, c_inner c1, d1)"
    using part(1) s1(1) by (simp add: block_load_eq Let_def split: result.split)
  ultimately show ?thesis using part(2) s1(2) safe by auto
qed

section \<open>Frames without a header block\<close>

lemma decode_frame_head:
  assumes "valid_stream_id (h_stream_id hd0)"
  shows "head_parse (head_encode hd0 n @ p) = Ok hd0" "drop HEADER_LEN (head_encode hd0 n @ p) = p"
  using assms by (simp_all add: head_parse_encode HEADER_LEN_def)

text \<open>The encoders of the frames that are written without the HPACK encoder.\<close>

fun frame_encode :: "('m, 'st, 'h) frame \<Rightarrow> bytes option" where
  "frame_encode (FData f) = Some (data_encode_chunk f)"
| "frame_encode (FSettings f) = Some (settings_encode f)"
| "frame_encode (FPing f) = Some (ping_encode f)"
| "frame_encode (FGoAway f) = Some (go_away_encode f)"
| "frame_encode (FWindowUpdate f) = Some (window_update_encode f)"
| "frame_encode (FReset f) = Some (reset_encode f)"
| "frame_encode _ = None"

fun frame_wf :: "('m, 'st, 'h) frame \<Rightarrow> bool" where
  "frame_wf (FData f) = data_wf f"
| "frame_wf (FSettings f) = settings_wf f"
| "frame_wf (FPing f) = (length (ping_payload f) = 8)"
| "frame_wf (FGoAway f) = valid_stream_id (ga_last_stream_id f)"
| "frame_wf (FWindowUpdate f) = window_update_wf f"
| "frame_wf (FReset f) = valid_stream_id (rst_stream_id f)"
| "frame_wf _ = False"

lemma decode_frame_split:
  assumes "valid_stream_id (h_stream_id hd0)" "bs = head_encode hd0 n @ p" "fr_partial fr = None \<or> h_kind hd0 = KContinuation"
  shows "decode_frame e H bs fr = decode_kind e H hd0 bs fr \<and> drop HEADER_LEN bs = p"
  using assms by (auto simp: decode_frame_def head_parse_encode HEADER_LEN_def)

lemma frame_heads [simp]:
  "h_kind (data_head d) = KData" "h_kind (settings_head st) = KSettings" "h_kind (ping_head pf) = KPing"
  "h_kind (go_away_head g) = KGoAway" "h_kind (window_update_head w) = KWindowUpdate"
  "h_kind (reset_head r) = KReset"
  by (simp_all add: data_head_def settings_head_def ping_head_def go_away_head_def window_update_head_def
      reset_head_def head_new_def)

text \<open>Between header blocks, what is written is read: every such frame comes back as it was.\<close>

lemma decode_frame_encode:
  assumes "frame_wf f" "frame_encode f = Some bs" "fr_partial fr = None"
  shows "decode_frame e H bs fr = (Ok (Some f), fr)"
proof (cases f)
  case (FData x)
  with assms da.load_payload [of x] decode_frame_split [OF da.head_valid [of x] da.encode_split disjI1 [OF assms(3)]] show ?thesis
    by (simp add: plain_frame_def decode_kind_def Let_def)
next
  case (FSettings x)
  with assms se.load_payload [of x] decode_frame_split [OF se.head_valid [of x] se.encode_split disjI1 [OF assms(3)]] show ?thesis
    by (simp add: plain_frame_def decode_kind_def Let_def)
next
  case (FPing x)
  with assms pi.load_payload [of x] decode_frame_split [OF pi.head_valid [of x] pi.encode_split disjI1 [OF assms(3)]] show ?thesis
    by (simp add: plain_frame_def decode_kind_def Let_def)
next
  case (FGoAway x)
  with assms ga.load_payload [of x] decode_frame_split [OF ga.head_valid [of x] ga.encode_split disjI1 [OF assms(3)]] show ?thesis
    by (simp add: plain_frame_def decode_kind_def Let_def)
next
  case (FWindowUpdate x)
  with assms wu.load_payload [of x] decode_frame_split [OF wu.head_valid [of x] wu.encode_split disjI1 [OF assms(3)]] show ?thesis
    by (simp add: plain_frame_def decode_kind_def Let_def)
next
  case (FReset x)
  with assms rst.load_payload [of x] decode_frame_split [OF rst.head_valid [of x] rst.encode_split disjI1 [OF assms(3)]] show ?thesis
    by (simp add: plain_frame_def decode_kind_def Let_def)
qed (use assms in simp_all)

section \<open>Invariant\<close>

definition list_within :: "('m, 'st) ext \<Rightarrow> nat \<Rightarrow> ('m, 'st, 'h) header_block \<Rightarrow> bool" where
  "list_within e m b \<longleftrightarrow> calculate_header_list_size e b = 0 \<or> calculate_header_list_size e b < m"

text \<open>
  The HPACK table is in order; a block in progress is within the list size limit and its CONTINUATION
  count within the limit.
\<close>

definition framed_read_ok :: "('m, 'st) ext \<Rightarrow> ('m, 'st, 'h) framed_read \<Rightarrow> bool" where
  "framed_read_ok e fr \<longleftrightarrow> dtable_ok e (dec_table (fr_hpack fr))
     \<and> (\<forall>pt. fr_partial fr = Some pt \<longrightarrow>
          list_within e (fr_max_header_list_size fr) (cont_block (pt_frame pt))
        \<and> pt_continuation_frames_count pt \<le> fr_max_continuation_frames fr)"

lemma cont_set_block_simps [simp]:
  "cont_block (cont_set_block b f) = b" "cont_stream_id (cont_set_block b f) = cont_stream_id f"
  "cont_is_end_headers (cont_set_block b f) = cont_is_end_headers f"
  by (cases f; simp)+

lemma block_load_safe:
  assumes "dtable_ok e (dec_table dec)" "block_load e H src m dec b = (r, b', rest, dec')"
  shows "r \<noteq> Panic \<and> dtable_ok e (dec_table dec') \<and> length rest \<le> length src"
proof -
  let ?c = "\<lparr>c_pos = 0, c_inner = src\<rparr>"
  obtain res hs d c where l: "decode_loop e True [] (decoder_start dec) ?c = (res, hs, (d, c))" by (metis prod.exhaust)
  have "cursor_ok ?c" by (simp add: cursor_ok_def)
  from decode_loop_safe [OF this _ l] decode_loop_shrinks [OF l] l assms show ?thesis
    by (auto simp: block_load_eq Let_def split: result.splits if_splits)
qed

lemma cont_load_hpack_safe:
  assumes "dtable_ok e (dec_table dec)" "list_within e m (cont_block f)"
    "cont_load_hpack e H src m dec f = (r, f', rest, dec')"
  shows "r \<noteq> Panic \<and> dtable_ok e (dec_table dec') \<and> length rest \<le> length src
    \<and> list_within e m (cont_block f') \<and> (\<exists>b. f' = cont_set_block b f)"
proof -
  obtain r0 b rest0 d where l: "block_load e H src m dec (cont_block f) = (r0, b, rest0, d)" by (metis prod.exhaust)
  from block_load_safe [OF assms(1) l] block_load_bounded [OF l] assms(2,3) l show ?thesis
    by (auto simp: cont_load_hpack_def list_within_def)
qed

lemma hpack_outcome_no_panic: "r \<noteq> Panic \<Longrightarrow> hpack_outcome eh sid r \<noteq> Panic"
  by (auto simp: hpack_outcome_def split: result.split frame_error.split decoder_error.split)

lemma list_within_empty [simp]: "list_within e m (empty_block H)"
  by (simp add: list_within_def empty_block_def calculate_header_list_size_def pseudo_default_def pseudo_size_def)

definition delivered_within :: "('m, 'st) ext \<Rightarrow> nat \<Rightarrow> ('m, 'st, 'h) frame \<Rightarrow> bool" where
  "delivered_within e m f = (case f of
     FHeaders h \<Rightarrow> list_within e m (hf_block h) | FPushPromise p \<Rightarrow> list_within e m (ppf_block p) | _ \<Rightarrow> True)"

lemma delivered_within_cont [simp]:
  "delivered_within e m (cont_frame f) = list_within e m (cont_block f)"
  "delivered_within e m (frame_from_continuable f) = list_within e m (cont_block f)"
  by (cases f; simp add: delivered_within_def)+

definition decoded_ok :: "('m, 'st) ext \<Rightarrow> ('m, 'st, 'h) framed_read \<Rightarrow> ('m, 'st, 'h) decoded \<Rightarrow> bool" where
  "decoded_ok e fr out = (case out of (r, fr') \<Rightarrow>
     r \<noteq> Panic \<and> framed_read_ok e fr' \<and> fr_max_header_list_size fr' = fr_max_header_list_size fr
   \<and> fr_max_continuation_frames fr' = fr_max_continuation_frames fr
   \<and> (\<forall>f. r = Ok (Some f) \<longrightarrow> delivered_within e (fr_max_header_list_size fr) f))"

lemma decode_header_block_ok:
  assumes fr: "framed_read_ok e fr" and l: "loaded \<noteq> Panic"
    "\<And>f p. loaded = Ok (f, p) \<Longrightarrow> cont_block f = empty_block H"
  shows "decoded_ok e fr (decode_header_block e H hd0 loaded fr)"
proof (cases loaded)
  case (Ok fp)
  obtain f p where fp: "fp = (f, p)" by fastforce
  obtain r f' rest d where h: "cont_load_hpack e H p (fr_max_header_list_size fr) (fr_hpack fr) f = (r, f', rest, d)"
    by (metis prod.exhaust)
  from cont_load_hpack_safe [OF _ _ h] fr l(2) Ok fp
  have "r \<noteq> Panic" "dtable_ok e (dec_table d)" "list_within e (fr_max_header_list_size fr) (cont_block f')"
    by (auto simp: framed_read_ok_def)
  with Ok fp h hpack_outcome_no_panic [of r _ "h_stream_id hd0"] fr show ?thesis
    by (auto simp: decode_header_block_def decoded_ok_def framed_read_ok_def Let_def split: result.splits)
next
  case (Err er)
  with fr show ?thesis
    by (cases er) (auto simp: decode_header_block_def decoded_ok_def)
qed (use l in simp)

lemma decode_continuation_ok:
  assumes fr: "framed_read_ok e fr"
  shows "decoded_ok e fr (decode_continuation e H hd0 bs fr)"
proof (cases "fr_partial fr")
  case None
  with fr show ?thesis by (simp add: decode_continuation_def decoded_ok_def framed_read_ok_def)
next
  case (Some pt)
  let ?buf = "if pt_buf pt = [] then drop HEADER_LEN bs else pt_buf pt @ drop HEADER_LEN bs"
  obtain r f' rest d where h:
    "cont_load_hpack e H ?buf (fr_max_header_list_size fr) (fr_hpack fr) (pt_frame pt) = (r, f', rest, d)"
    by (metis prod.exhaust)
  from cont_load_hpack_safe [OF _ _ h] fr Some
  have "r \<noteq> Panic" "dtable_ok e (dec_table d)" "list_within e (fr_max_header_list_size fr) (cont_block f')"
    by (auto simp: framed_read_ok_def)
  with Some h hpack_outcome_no_panic [of r _ "h_stream_id hd0"] fr show ?thesis
    by (auto simp: decode_continuation_def decoded_ok_def framed_read_ok_def Let_def split: result.splits)
qed

lemma plain_frame_no_panic: "res \<noteq> Panic \<Longrightarrow> plain_frame into res \<noteq> Panic"
  by (simp add: plain_frame_def)

lemma plain_frame_ok:
  assumes "framed_read_ok e fr" "res \<noteq> Panic" "\<And>x m. delivered_within e m (into x)"
  shows "decoded_ok e fr (plain_frame into res, fr)"
  using assms by (auto simp: decoded_ok_def plain_frame_no_panic) (auto simp: plain_frame_def)

lemma decode_priority_ok: "framed_read_ok e fr \<Longrightarrow> decoded_ok e fr (decode_priority hd0 p, fr)"
  by (auto simp: decoded_ok_def decode_priority_def delivered_within_def priority_load_no_panic
      split: result.splits frame_error.splits if_splits)

text \<open>On a complete frame head the reader never panics and keeps its invariant.\<close>

lemma decode_frame_ok:
  assumes fr: "framed_read_ok e fr" and "9 \<le> length bs"
  shows "decoded_ok e fr (decode_frame e H bs fr)"
proof -
  obtain hd0 where h: "(head_parse bs :: (head, proto_error) result) = Ok hd0"
    using head_parse_no_panic [OF assms(2)]
    by (cases "head_parse bs :: (head, proto_error) result")
      (auto simp: head_parse_def stream_id_parse_def rbind_eq_Err Let_def split: if_splits)
  let ?p = "drop HEADER_LEN bs"
  have hl: "headers_load H hd0 ?p = Ok (f, q) \<Longrightarrow> hf_block f = empty_block H" for f q
    by (rule headers_load_Ok(3))
  have pl: "push_promise_load H hd0 ?p = Ok (f, q) \<Longrightarrow> ppf_block f = empty_block H" for f q
    by (auto simp: push_promise_load_def rbind_eq_Ok Let_def split: if_splits)
  have bad: "decoded_ok e fr (Err er, fr)" "decoded_ok e fr (Ok None, fr)" for er
    using fr by (simp_all add: decoded_ok_def)
  have dw: "delivered_within e m (FSettings a)" "delivered_within e m (FPing b)" "delivered_within e m (FGoAway g)"
    "delivered_within e m (FWindowUpdate w)" "delivered_within e m (FReset r)" "delivered_within e m (FData d)" for m a b g w r d
    by (simp_all add: delivered_within_def)
  show ?thesis
  proof (cases "fr_partial fr \<noteq> None \<and> h_kind hd0 \<noteq> KContinuation")
    case True
    then show ?thesis using h bad by (simp add: decode_frame_def)
  next
    case False
    have eq: "decode_frame e H bs fr = decode_kind e H hd0 bs fr"
      unfolding decode_frame_def h result.case by (rule if_not_P [OF False])
    show ?thesis unfolding eq decode_kind_def Let_def
      using hl pl headers_load_no_panic [of H hd0 ?p] push_promise_load_no_panic [of H hd0 ?p]
      by (cases "h_kind hd0")
        (auto intro!: plain_frame_ok [OF fr] decode_header_block_ok [OF fr] decode_continuation_ok [OF fr]
          decode_priority_ok [OF fr] bad
          simp: dw se.load_no_panic pi.load_no_panic wu.load_no_panic da.load_no_panic rst.load_no_panic
            go_away_load_no_panic)
  qed
qed

section \<open>Header blocks split over frames\<close>

lemma head_parse_frame_head:
  assumes "9 \<le> length f"
  shows "(head_parse f :: (head, proto_error) result) = Ok (frame_head f)"
  using assms by (simp add: frame_head_def head_parse_def stream_id_parse_def Let_def)

lemma END_HEADERS_eq: "(h_flag hd0 AND 0x4 = 0x4) = flag_is_end_headers (h_flag hd0)"
  by (simp add: flag_is_end_headers_def END_HEADERS_def)

lemma cont_set_block_twice [simp]: "cont_set_block b (cont_set_block b0 f) = cont_set_block b f"
  by (cases f) simp_all

text \<open>The frames that continue a block on stream \<open>sid\<close>: END_HEADERS on the last and only there.\<close>

definition continues :: "stream_id \<Rightarrow> bytes list \<Rightarrow> bool" where
  "continues sid fs \<longleftrightarrow> fs \<noteq> []
     \<and> (\<forall>f \<in> set fs. 9 \<le> length f \<and> h_kind (frame_head f) = KContinuation \<and> h_stream_id (frame_head f) = sid)
     \<and> flag_is_end_headers (h_flag (frame_head (last fs)))
     \<and> (\<forall>f \<in> set (butlast fs). \<not> flag_is_end_headers (h_flag (frame_head f)))"

lemma decode_continuation_step:
  assumes "fr_partial fr = Some pt" "9 \<le> length f" "h_kind (frame_head f) = KContinuation"
    "h_stream_id (frame_head f) = cont_stream_id (pt_frame pt)"
    "\<not> cont_is_over_size (pt_frame pt)"
    "\<not> flag_is_end_headers (h_flag (frame_head f)) \<Longrightarrow> pt_continuation_frames_count pt < fr_max_continuation_frames fr"
    "block_load e H (pt_buf pt @ frame_payload f) (fr_max_header_list_size fr) (fr_hpack fr) (cont_block (pt_frame pt))
       = (r, b, rest, dec)"
    "r = Ok () \<or> \<not> flag_is_end_headers (h_flag (frame_head f)) \<and> (\<exists>n. r = Err (Hpack (NeedMore n)))"
  shows "decode_frame e H f fr =
    (if flag_is_end_headers (h_flag (frame_head f))
     then (Ok (Some (frame_from_continuable (cont_set_block b (pt_frame pt)))), fr\<lparr>fr_partial := None, fr_hpack := dec\<rparr>)
     else (Ok None, fr\<lparr>fr_partial := Some \<lparr>pt_frame = cont_set_block b (pt_frame pt), pt_buf = rest,
             pt_continuation_frames_count = pt_continuation_frames_count pt + 1\<rparr>, fr_hpack := dec\<rparr>))"
proof -
  let ?eh = "flag_is_end_headers (h_flag (frame_head f))"
  have load: "cont_load_hpack e H (if pt_buf pt = [] then drop HEADER_LEN f else pt_buf pt @ drop HEADER_LEN f)
      (fr_max_header_list_size fr) (fr_hpack fr) (pt_frame pt) = (r, cont_set_block b (pt_frame pt), rest, dec)"
    using assms(7) by (cases "pt_buf pt = []") (simp_all add: cont_load_hpack_def frame_payload_def)
  have out: "hpack_outcome ?eh (cont_stream_id (pt_frame pt)) r = Ok ()"
    using assms(8) by (auto simp: hpack_outcome_def)
  have dec: "decode_frame e H f fr = decode_continuation e H (frame_head f) f fr"
    using assms(2,3) by (simp add: decode_frame_def head_parse_frame_head decode_kind_def Let_def)
  have cnt: "\<not> (\<not> ?eh \<and> (if ?eh then 0 else pt_continuation_frames_count pt + 1) > fr_max_continuation_frames fr)"
    using assms(6) by auto
  show ?thesis
    unfolding dec decode_continuation_def Let_def END_HEADERS_eq assms(1,4) option.case if_not_P [OF cnt] load out
      prod.case result.case
    using assms(5) by simp
qed

lemma continuation_run:
  assumes H: "hmap_ok H"
  shows "dtable_ok e (dec_table (fr_hpack fr)) \<Longrightarrow> dec_buffer (fr_hpack fr) = [] \<Longrightarrow> fr_partial fr = Some pt \<Longrightarrow>
    continues (cont_stream_id (pt_frame pt)) fs \<Longrightarrow>
    block_load e H (pt_buf pt @ concat (map frame_payload fs)) (fr_max_header_list_size fr) (fr_hpack fr)
      (cont_block (pt_frame pt)) = (Ok (), b, rest, dec) \<Longrightarrow> \<not> hb_is_over_size b \<Longrightarrow>
    \<not> cont_is_over_size (pt_frame pt) \<Longrightarrow>
    pt_continuation_frames_count pt + length fs \<le> fr_max_continuation_frames fr + 1 \<Longrightarrow>
    poll_next e H (fs @ later) fr
      = (Ok (Some (frame_from_continuable (cont_set_block b (pt_frame pt)))), later, fr\<lparr>fr_partial := None, fr_hpack := dec\<rparr>)"
proof (induction fs arbitrary: fr pt)
  case Nil
  then show ?case by (simp add: continues_def)
next
  case (Cons f fs)
  note f = Cons.prems(4) [unfolded continues_def]
  show ?case
  proof (cases "fs = []")
    case True
    then have endh: "flag_is_end_headers (h_flag (frame_head f))" using f by simp
    from decode_continuation_step [OF Cons.prems(3), of f e H "Ok ()" b rest dec] Cons.prems(5,7) True f endh
    show ?thesis by simp
  next
    case False
    then have endh: "\<not> flag_is_end_headers (h_flag (frame_head f))" using f by simp
    have "block_load e H ((pt_buf pt @ frame_payload f) @ concat (map frame_payload fs)) (fr_max_header_list_size fr)
        (fr_hpack fr) (cont_block (pt_frame pt)) = (Ok (), b, rest, dec)" using Cons.prems(5) by simp
    from block_load_resume [OF H Cons.prems(1,2) this Cons.prems(6)] obtain r b1 rest1 dec1 where
      part: "block_load e H (pt_buf pt @ frame_payload f) (fr_max_header_list_size fr) (fr_hpack fr) (cont_block (pt_frame pt))
          = (r, b1, rest1, dec1)" "r = Ok () \<or> (\<exists>n. r = Err (Hpack (NeedMore n)))" "\<not> hb_is_over_size b1"
        "dtable_ok e (dec_table dec1)" "dec_buffer dec1 = []"
        "block_load e H (rest1 @ concat (map frame_payload fs)) (fr_max_header_list_size fr) dec1 b1 = (Ok (), b, rest, dec)"
      by blast
    let ?pt = "\<lparr>pt_frame = cont_set_block b1 (pt_frame pt), pt_buf = rest1,
       pt_continuation_frames_count = pt_continuation_frames_count pt + 1\<rparr>"
    let ?fr = "fr\<lparr>fr_partial := Some ?pt, fr_hpack := dec1\<rparr>"
    have "0 < length fs" using False by simp
    then have "pt_continuation_frames_count pt < fr_max_continuation_frames fr"
      using Cons.prems(8) unfolding list.size by linarith
    from decode_continuation_step [OF Cons.prems(3), of f e H r b1 rest1 dec1] part Cons.prems(7) f endh this
    have step: "decode_frame e H f fr = (Ok None, ?fr)" by simp
    have "continues (cont_stream_id (pt_frame ?pt)) fs" using f False by (auto simp: continues_def)
    from Cons.IH [of ?fr ?pt, OF _ _ _ this] part Cons.prems(6,8)
    show ?thesis by (simp add: step cont_is_over_size_def)
  qed
qed

text \<open>
  A block written over several frames is read as if it had come in one: same frame, same decoder.
  \<open>headers_load\<close> without padding and priority is what this library writes.
\<close>

lemma decode_headers_Ok:
  assumes "9 \<le> length f" "h_kind (frame_head f) = KHeaders" "h_stream_id (frame_head f) \<noteq> 0" "fr_partial fr = None"
    "\<not> flag_is_padded (h_flag (frame_head f))" "\<not> flag_is_priority (h_flag (frame_head f))"
  shows "decode_frame e H f fr = decode_header_block e H (frame_head f)
    (Ok (CHeaders \<lparr>hf_stream_id = h_stream_id (frame_head f), hf_stream_dep = None, hf_block = empty_block H,
      hf_flags = h_flag (frame_head f)\<rparr>, frame_payload f)) fr"
  using assms
  by (simp add: decode_frame_def head_parse_frame_head decode_kind_def headers_load_def take_pad_len_def
      drop_padding_def stream_id_is_zero_def frame_payload_def Let_def)

lemma headers_split_read:
  assumes H: "hmap_ok H" and fr: "dtable_ok e (dec_table (fr_hpack fr))" "dec_buffer (fr_hpack fr) = []" "fr_partial fr = None"
    and whole: "9 \<le> length g" "decode_frame e H g fr = (Ok (Some (FHeaders hf)), fr')" "\<not> hb_is_over_size (hf_block hf)"
    and kind: "h_kind (frame_head g) = KHeaders" "h_stream_id (frame_head g) \<noteq> 0"
      "\<not> flag_is_padded (h_flag (frame_head g))" "\<not> flag_is_priority (h_flag (frame_head g))"
      "flag_is_end_headers (h_flag (frame_head g))"
    and first: "9 \<le> length f" "frame_head f = (frame_head g)\<lparr>h_flag := h_flag (frame_head g) - END_HEADERS\<rparr>"
      "\<not> flag_is_padded (h_flag (frame_head f))" "\<not> flag_is_priority (h_flag (frame_head f))"
    and cont: "continues (h_stream_id (frame_head g)) fs" "length fs \<le> fr_max_continuation_frames fr + 1"
    and pay: "frame_payload g = frame_payload f @ concat (map frame_payload fs)"
  shows "poll_next e H (f # fs @ later) fr = (Ok (Some (FHeaders hf)), later, fr')"
proof -
  let ?h = "\<lambda>fl. \<lparr>hf_stream_id = h_stream_id (frame_head g), hf_stream_dep = None, hf_block = empty_block H, hf_flags = fl\<rparr>"
  let ?m = "fr_max_header_list_size fr" and ?d = "fr_hpack fr"
  obtain r b rest dec where bl: "block_load e H (frame_payload g) ?m ?d (empty_block H) = (r, b, rest, dec)"
    by (metis prod.exhaust)
  from whole(2) decode_headers_Ok [OF whole(1) kind(1,2) fr(3) kind(3,4), of e H] bl kind(5)
  have w: "r = Ok ()" "hf = (?h (h_flag (frame_head g)))\<lparr>hf_block := b\<rparr>" "fr' = fr\<lparr>fr_hpack := dec\<rparr>"
    by (auto simp: decode_header_block_def cont_load_hpack_def hpack_outcome_def Let_def
        split: result.splits frame_error.splits decoder_error.splits)
  have b: "\<not> hb_is_over_size b" using whole(3) w(2) by simp
  from block_load_resume [OF H fr(1,2) bl [unfolded pay w(1)] b] obtain r1 b1 rest1 dec1 where
    part: "block_load e H (frame_payload f) ?m ?d (empty_block H) = (r1, b1, rest1, dec1)"
      "r1 = Ok () \<or> (\<exists>n. r1 = Err (Hpack (NeedMore n)))" "\<not> hb_is_over_size b1"
      "dtable_ok e (dec_table dec1)" "dec_buffer dec1 = []"
      "block_load e H (rest1 @ concat (map frame_payload fs)) ?m dec1 b1 = (Ok (), b, rest, dec)"
    by auto
  let ?f1 = "(?h (h_flag (frame_head g) - END_HEADERS))\<lparr>hf_block := b1\<rparr>"
  let ?pt = "\<lparr>pt_frame = CHeaders ?f1, pt_buf = rest1, pt_continuation_frames_count = 0\<rparr>"
  let ?fr = "fr\<lparr>fr_hpack := dec1, fr_partial := Some ?pt\<rparr>"
  have fh: "h_kind (frame_head f) = KHeaders" "h_stream_id (frame_head f) \<noteq> 0"
    "\<not> flag_is_end_headers (h_flag (frame_head f))"
    using first(2) kind(1,2) flag_minus_end_headers(1) [OF kind(5)] by simp_all
  from decode_headers_Ok [OF first(1) fh(1,2) fr(3) first(3,4), of e H] part(1,2) fh(3) first(2)
  have step: "decode_frame e H f fr = (Ok None, ?fr)"
    by (auto simp: decode_header_block_def cont_load_hpack_def hpack_outcome_def Let_def)
  have "frame_from_continuable (cont_set_block b (CHeaders ?f1)) = FHeaders hf"
    using w(2) flag_minus_end_headers(2) [OF kind(5)] by simp
  moreover have "fr'= ?fr\<lparr>fr_partial := None, fr_hpack := dec\<rparr>" using w(3) fr(3) by (cases fr) simp
  ultimately show ?thesis
    using continuation_run [OF H, of e ?fr ?pt fs b rest dec later] part b cont by (simp add: step cont_is_over_size_def)
qed

text \<open>The frames \<open>header_frames\<close> writes are such a sequence.\<close>

lemma header_frames_step:
  assumes "HEADER_LEN + length extra \<le> limit" "limit - HEADER_LEN < 2 ^ 24" "flag_is_end_headers (h_flag hd0)"
    "header_frames hd0 limit extra hpack = Some (Ok fs)"
  shows "fs = [head_encode hd0 (length extra + length hpack) @ extra @ hpack]
    \<or> (\<exists>fs'. fs = (head_encode (hd0\<lparr>h_flag := h_flag hd0 - END_HEADERS\<rparr>) (limit - HEADER_LEN)
               @ extra @ take (limit - HEADER_LEN - length extra) hpack) # fs'
         \<and> header_frames (continuation_head (h_stream_id hd0)) limit [] (drop (limit - HEADER_LEN - length extra) hpack)
             = Some (Ok fs'))"
  using assms(4) block_encode_eq [OF assms(1-3), of hpack]
  by (subst (asm) header_frames.simps) (auto simp: Let_def bind_eq_Some_conv split: if_splits)

lemma continues_header_frames:
  assumes "HEADER_LEN < limit" "limit - HEADER_LEN < 2 ^ 24" "valid_stream_id sid"
    "header_frames (continuation_head sid) limit [] hpack = Some (Ok fs)"
  shows "continues sid fs \<and> concat (map frame_payload fs) = hpack"
proof -
  have h: "flag_is_end_headers (h_flag (continuation_head sid))" "h_stream_id (continuation_head sid) = sid"
    "h_kind (continuation_head sid) = KContinuation"
    by (simp_all add: continuation_head_def head_new_def flag_is_end_headers_def)
  note spec = header_frames_spec [of "[]" limit "continuation_head sid" hpack]
  have "h_kind (frame_head f) = KContinuation" if "f \<in> set fs" for f
    using that spec assms h by (cases fs) auto
  with spec assms h show ?thesis by (auto simp: continues_def)
qed

lemma header_frames_read:
  assumes H: "hmap_ok H" and fr: "dtable_ok e (dec_table (fr_hpack fr))" "dec_buffer (fr_hpack fr) = []" "fr_partial fr = None"
    and hd0: "h_kind hd0 = KHeaders" "valid_stream_id (h_stream_id hd0)" "h_stream_id hd0 \<noteq> 0"
      "flag_is_end_headers (h_flag hd0)" "\<not> flag_is_padded (h_flag hd0)" "\<not> flag_is_priority (h_flag hd0)"
    and lim: "HEADER_LEN < limit" "limit - HEADER_LEN < 2 ^ 24"
    and frames: "header_frames hd0 limit [] hpack = Some (Ok fs)" "length fs \<le> fr_max_continuation_frames fr + 2"
    and whole: "decode_frame e H (head_encode hd0 (length hpack) @ hpack) fr = (Ok (Some (FHeaders hf)), fr')"
      "\<not> hb_is_over_size (hf_block hf)"
  shows "poll_next e H (fs @ later) fr = (Ok (Some (FHeaders hf)), later, fr')"
proof -
  let ?g = "head_encode hd0 (length hpack) @ hpack" and ?room = "limit - HEADER_LEN"
  let ?f = "head_encode (hd0\<lparr>h_flag := h_flag hd0 - END_HEADERS\<rparr>) ?room @ take ?room hpack"
  have g: "frame_head ?g = hd0" "frame_payload ?g = hpack"
    using hd0(2) by (simp_all add: frame_head_encode frame_payload_encode)
  have f: "frame_head ?f = hd0\<lparr>h_flag := h_flag hd0 - END_HEADERS\<rparr>" "frame_payload ?f = take ?room hpack"
    using hd0(2) by (simp_all add: frame_head_encode frame_payload_encode)
  from header_frames_step [of "[]" limit hd0 hpack fs] lim hd0(4) frames(1)
  consider "fs = [?g]" | fs' where "fs = ?f # fs'"
    "header_frames (continuation_head (h_stream_id hd0)) limit [] (drop ?room hpack) = Some (Ok fs')"
    by fastforce
  then show ?thesis
  proof cases
    case 1
    then show ?thesis using whole(1) by simp
  next
    case 2
    note c = continues_header_frames [OF lim hd0(2) 2(2)]
    show ?thesis
      unfolding 2(1) append_Cons
      by (rule headers_split_read [OF H fr _ whole, of ?f fs'])
        (use g f hd0 c frames(2) 2(1) flag_minus_end_headers [OF hd0(4)] in simp_all)
  qed
qed

text \<open>
  CONTINUATION frames are bounded: each one that leaves the block open adds to a count that may not
  pass the limit, and what is kept of the block is at most what these frames have brought.
\<close>

lemma continuation_progress:
  assumes "fr_partial fr = Some pt" "decode_frame e H bs fr = (Ok None, fr')"
  shows "\<exists>pt'. fr_partial fr' = Some pt' \<and> pt_continuation_frames_count pt' = pt_continuation_frames_count pt + 1
    \<and> pt_continuation_frames_count pt' \<le> fr_max_continuation_frames fr
    \<and> fr_max_continuation_frames fr' = fr_max_continuation_frames fr
    \<and> fr_max_header_list_size fr' = fr_max_header_list_size fr
    \<and> (dtable_ok e (dec_table (fr_hpack fr)) \<longrightarrow> dtable_ok e (dec_table (fr_hpack fr'))
        \<and> length (pt_buf pt') \<le> length (pt_buf pt) + (length bs - HEADER_LEN))"
proof -
  from assms obtain hd0 where d: "decode_continuation e H hd0 bs fr = (Ok None, fr')"
    by (auto simp: decode_frame_def decode_kind_def Let_def split: result.splits if_splits)
  let ?buf = "if pt_buf pt = [] then drop HEADER_LEN bs else pt_buf pt @ drop HEADER_LEN bs"
  obtain r f' rest dec where h:
    "cont_load_hpack e H ?buf (fr_max_header_list_size fr) (fr_hpack fr) (pt_frame pt) = (r, f', rest, dec)"
    by (metis prod.exhaust)
  then obtain b where "block_load e H ?buf (fr_max_header_list_size fr) (fr_hpack fr) (cont_block (pt_frame pt)) = (r, b, rest, dec)"
    by (auto simp: cont_load_hpack_def split: prod.splits)
  then have "dtable_ok e (dec_table (fr_hpack fr)) \<Longrightarrow> dtable_ok e (dec_table dec) \<and> length rest \<le> length ?buf"
    using block_load_safe by blast
  with d h assms(1) show ?thesis
    by (auto simp: decode_continuation_def Let_def split: result.splits if_splits)
qed

lemma continuation_bound:
  "fr_partial fr = Some pt \<Longrightarrow> (\<And>bs. bs \<in> set fs \<Longrightarrow> length bs \<le> HEADER_LEN + F) \<Longrightarrow>
   dtable_ok e (dec_table (fr_hpack fr)) \<Longrightarrow>
   length (pt_buf pt) \<le> (pt_continuation_frames_count pt + 1) * F \<Longrightarrow>
   pt_continuation_frames_count pt \<le> fr_max_continuation_frames fr \<Longrightarrow>
   poll_next e H fs fr = (Ok None, [], fr') \<Longrightarrow>
   pt_continuation_frames_count pt + length fs \<le> fr_max_continuation_frames fr
   \<and> (\<exists>pt'. fr_partial fr' = Some pt' \<and> length (pt_buf pt') \<le> (fr_max_continuation_frames fr + 1) * F)"
proof (induction fs arbitrary: fr pt)
  case Nil
  then have "length (pt_buf pt) \<le> (fr_max_continuation_frames fr + 1) * F"
    by (meson add_le_mono1 le_trans mult_le_mono1)
  with Nil show ?case by simp
next
  case (Cons bs fs)
  then obtain fr1 where s: "decode_frame e H bs fr = (Ok None, fr1)" "poll_next e H fs fr1 = (Ok None, [], fr')"
    by (auto split: prod.splits result.splits option.splits)
  from continuation_progress [OF Cons.prems(1) s(1)] obtain pt1 where
    p: "fr_partial fr1 = Some pt1" "pt_continuation_frames_count pt1 = pt_continuation_frames_count pt + 1"
      "pt_continuation_frames_count pt1 \<le> fr_max_continuation_frames fr1"
      "fr_max_continuation_frames fr1 = fr_max_continuation_frames fr" "dtable_ok e (dec_table (fr_hpack fr1))"
      "length (pt_buf pt1) \<le> length (pt_buf pt) + (length bs - HEADER_LEN)" using Cons.prems(3) by auto
  have "length bs - HEADER_LEN \<le> F" using Cons.prems(2) [of bs] by simp
  then have "length (pt_buf pt1) \<le> (pt_continuation_frames_count pt1 + 1) * F"
    using p(2,6) Cons.prems(4) by simp
  from Cons.IH [OF p(1) _ p(5) this p(3) s(2)] Cons.prems(2) p(2,4) show ?case by simp
qed

end
