(* ===== verification/Instances.thy ===== *)
theory Instances
  imports Framed_Read
begin

text \<open>
  Concrete instances of what the sources take from other crates: methods and status codes
  (\<open>header-plz\<close>), and a header map that is the list of its lines. The theorems hold for any such
  parameters; their examples use these.
\<close>

fun ex_const_header :: "hconst \<Rightarrow> bytes" where
  "ex_const_header ACCEPT_CHARSET = str ''accept-charset''"
| "ex_const_header ACCEPT_ENCODING = str ''accept-encoding''"
| "ex_const_header ACCEPT_LANGUAGE = str ''accept-language''"
| "ex_const_header ACCEPT_RANGES = str ''accept-ranges''"
| "ex_const_header ACCEPT = str ''accept''"
| "ex_const_header ACCESS_CONTROL_ALLOW_ORIGIN = str ''access-control-allow-origin''"
| "ex_const_header AGE = str ''age''"
| "ex_const_header ALLOW = str ''allow''"
| "ex_const_header AUTHORIZATION = str ''authorization''"
| "ex_const_header CACHE_CONTROL = str ''cache-control''"
| "ex_const_header CONTENT_DISPOSITION = str ''content-disposition''"
| "ex_const_header CONTENT_ENCODING = str ''content-encoding''"
| "ex_const_header CONTENT_LANGUAGE = str ''content-language''"
| "ex_const_header CONTENT_LENGTH = str ''content-length''"
| "ex_const_header CONTENT_LOCATION = str ''content-location''"
| "ex_const_header CONTENT_RANGE = str ''content-range''"
| "ex_const_header CONTENT_TYPE = str ''content-type''"
| "ex_const_header COOKIE = str ''cookie''"
| "ex_const_header DATE = str ''date''"
| "ex_const_header ETAG = str ''etag''"
| "ex_const_header EXPECT = str ''expect''"
| "ex_const_header EXPIRES = str ''expires''"
| "ex_const_header FROM = str ''from''"
| "ex_const_header HOST = str ''host''"
| "ex_const_header IF_MATCH = str ''if-match''"
| "ex_const_header IF_MODIFIED_SINCE = str ''if-modified-since''"
| "ex_const_header IF_NONE_MATCH = str ''if-none-match''"
| "ex_const_header IF_RANGE = str ''if-range''"
| "ex_const_header IF_UNMODIFIED_SINCE = str ''if-unmodified-since''"
| "ex_const_header LAST_MODIFIED = str ''last-modified''"
| "ex_const_header LINK = str ''link''"
| "ex_const_header LOCATION = str ''location''"
| "ex_const_header MAX_FORWARDS = str ''max-forwards''"
| "ex_const_header PROXY_AUTHENTICATE = str ''proxy-authenticate''"
| "ex_const_header PROXY_AUTHORIZATION = str ''proxy-authorization''"
| "ex_const_header RANGE = str ''range''"
| "ex_const_header REFERER = str ''referer''"
| "ex_const_header REFRESH = str ''refresh''"
| "ex_const_header RETRY_AFTER = str ''retry-after''"
| "ex_const_header SERVER = str ''server''"
| "ex_const_header SET_COOKIE = str ''set-cookie''"
| "ex_const_header STRICT_TRANSPORT_SECURITY = str ''strict-transport-security''"
| "ex_const_header TRANSFER_ENCODING = str ''transfer-encoding''"
| "ex_const_header USER_AGENT = str ''user-agent''"
| "ex_const_header VARY = str ''vary''"
| "ex_const_header VIA = str ''via''"
| "ex_const_header WWW_AUTHENTICATE = str ''www-authenticate''"
| "ex_const_header CONNECTION = str ''connection''"
| "ex_const_header UPGRADE = str ''upgrade''"
| "ex_const_header TE = str ''te''"

definition ex_status_str :: "nat \<Rightarrow> bytes" where
  "ex_status_str n = [of_nat (48 + n div 100), of_nat (48 + n div 10 mod 10), of_nat (48 + n mod 10)]"

definition ex_status_from_bytes :: "bytes \<Rightarrow> nat option" where
  "ex_status_from_bytes bs = (case bs of
     [a, b, c] \<Rightarrow> Some (100 * unat (a - 48) + 10 * unat (b - 48) + unat (c - 48)) | _ \<Rightarrow> None)"

definition ex_ext :: "(bytes, nat) ext" where
  "ex_ext = \<lparr>method_from = (\<lambda>b. b), method_as_ref = (\<lambda>m. m), METHOD_GET = str ''GET'', METHOD_POST = str ''POST'',
     status_from_bytes = ex_status_from_bytes, status_as_str = ex_status_str, status_u16 = (\<lambda>n. n),
     STATUS_OK = 200, STATUS_NO_CONTENT = 204, STATUS_PARTIAL_CONTENT = 206, STATUS_NOT_MODIFIED = 304,
     STATUS_BAD_REQUEST = 400, STATUS_NOT_FOUND = 404, STATUS_INTERNAL_SERVER_ERROR = 500,
     const_header = ex_const_header\<rparr>"

definition ex_hmap :: "(bytes \<times> bytes) list hmap" where
  "ex_hmap = \<lparr>hm_new = [], hm_is_empty = (\<lambda>h. h = []), hm_insert = (\<lambda>n v h. h @ [(n, v)]), hm_list = (\<lambda>h. h),
     hm_lens = map (\<lambda>(n, v). length n + length v), hm_value_of_key = (\<lambda>k h. map_of h k)\<rparr>"

lemma ex_hmap_ok: "hmap_ok ex_hmap"
  by (simp add: hmap_ok_def ex_hmap_def)

lemma ex_ext_status_ok: "ext_status_ok ex_ext"
  by (simp add: ext_status_ok_def ex_ext_def)

text \<open>A reader at the start of a connection.\<close>

definition ex_reader :: "(bytes, nat, (bytes \<times> bytes) list) framed_read" where
  "ex_reader = \<lparr>fr_hpack = hpack_decoder_new 4096, fr_max_header_list_size = 1000, fr_max_continuation_frames = 5,
     fr_max_frame_length = 16384, fr_partial = None\<rparr>"

lemma ex_reader_ok: "framed_read_ok ex_ext ex_reader"
  by (simp add: framed_read_ok_def ex_reader_def hpack_decoder_new_def dtable_new_ok)

end
