(* ===== verification/Stream_State.thy ===== *)
theory Stream_State
  imports Frame_Control
begin

text \<open>
  The state of one stream (\<open>proto/streams/state.rs\<close>): its transitions, the predicates the rest of the
  library asks, and the relation to the stream states of RFC 9113, section 5.1.
\<close>

section \<open>States\<close>

datatype peer = AwaitingHeaders | Streaming

datatype cause = EndStream | CError proto_error | ScheduledLibraryReset reason

datatype state =
    Idle
  | ReservedLocal
  | ReservedRemote
  | Open (open_local: peer) (open_remote: peer)
  | HalfClosedLocal peer
  | HalfClosedRemote peer
  | Closed cause

definition state_default :: state where "state_default = Idle"

section \<open>Transitions\<close>

text \<open>A transition that fails leaves the state as it is; the caller keeps the old one.\<close>

fun send_open :: "bool \<Rightarrow> state \<Rightarrow> (state, user_error) result" where
  "send_open eos Idle = Ok (if eos then HalfClosedLocal AwaitingHeaders else Open Streaming AwaitingHeaders)"
| "send_open eos (Open AwaitingHeaders remote) =
     Ok (if eos then HalfClosedLocal remote else Open Streaming remote)"
| "send_open eos (HalfClosedRemote AwaitingHeaders) =
     Ok (if eos then Closed EndStream else HalfClosedRemote Streaming)"
| "send_open eos ReservedLocal = Ok (if eos then Closed EndStream else HalfClosedRemote Streaming)"
| "send_open eos _ = Err UnexpectedFrameType"

text \<open>
  \<open>recv_open\<close> looks at two things of the HEADERS frame: END_STREAM and whether the status is 1xx. It
  returns whether this opens the stream.
\<close>

fun recv_open :: "bool \<Rightarrow> bool \<Rightarrow> state \<Rightarrow> (state \<times> bool, proto_error) result" where
  "recv_open eos informational Idle =
     Ok (if eos then HalfClosedRemote AwaitingHeaders
         else Open AwaitingHeaders (if informational then AwaitingHeaders else Streaming), True)"
| "recv_open eos informational ReservedRemote =
     Ok (if eos then Closed EndStream
         else if informational then ReservedRemote else HalfClosedLocal Streaming, True)"
| "recv_open eos informational (Open loc AwaitingHeaders) =
     Ok (if eos then HalfClosedRemote loc
         else Open loc (if informational then AwaitingHeaders else Streaming), False)"
| "recv_open eos informational (HalfClosedLocal AwaitingHeaders) =
     Ok (if eos then Closed EndStream
         else if informational then HalfClosedLocal AwaitingHeaders else HalfClosedLocal Streaming,
         False)"
| "recv_open eos informational _ = Err (library_go_away PROTOCOL_ERROR)"

fun reserve_remote :: "state \<Rightarrow> (state, proto_error) result" where
  "reserve_remote Idle = Ok ReservedRemote"
| "reserve_remote _ = Err (library_go_away PROTOCOL_ERROR)"

fun reserve_local :: "state \<Rightarrow> (state, user_error) result" where
  "reserve_local Idle = Ok ReservedLocal"
| "reserve_local _ = Err UnexpectedFrameType"

fun recv_close :: "state \<Rightarrow> (state, proto_error) result" where
  "recv_close (Open loc _) = Ok (HalfClosedRemote loc)"
| "recv_close (HalfClosedLocal _) = Ok (Closed EndStream)"
| "recv_close _ = Err (library_go_away PROTOCOL_ERROR)"

fun is_closed :: "state \<Rightarrow> bool" where
  "is_closed (Closed _) = True"
| "is_closed _ = False"

definition recv_reset :: "reset_frame \<Rightarrow> bool \<Rightarrow> state \<Rightarrow> state" where
  "recv_reset frame queued s =
     (if is_closed s \<and> \<not> queued then s
      else Closed (CError (remote_reset (rst_stream_id frame) (rst_error_code frame))))"

definition state_handle_error :: "proto_error \<Rightarrow> state \<Rightarrow> state" where
  "state_handle_error err s = (if is_closed s then s else Closed (CError err))"

definition broken_pipe_error :: "string \<Rightarrow> proto_error" where
  "broken_pipe_error msg = PIo BrokenPipe (Some msg)"

definition state_recv_eof :: "state \<Rightarrow> state" where
  "state_recv_eof s = (if is_closed s then s
     else Closed (CError (broken_pipe_error ''stream closed because of a broken pipe'')))"

fun send_close :: "state \<Rightarrow> (state, unit) result" where
  "send_close (Open _ remote) = Ok (HalfClosedLocal remote)"
| "send_close (HalfClosedRemote _) = Ok (Closed EndStream)"
| "send_close _ = Panic"

definition set_reset :: "stream_id \<Rightarrow> reason \<Rightarrow> initiator \<Rightarrow> state" where
  "set_reset sid r ini = Closed (CError (PReset sid r ini))"

text \<open>\<open>debug_assert!(!self.is_closed())\<close>: the callers test it first.\<close>

definition set_scheduled_reset :: "reason \<Rightarrow> state \<Rightarrow> (state, unit) result" where
  "set_scheduled_reset r s = (if is_closed s then Panic else Ok (Closed (ScheduledLibraryReset r)))"

section \<open>Predicates\<close>

fun get_scheduled_reset :: "state \<Rightarrow> reason option" where
  "get_scheduled_reset (Closed (ScheduledLibraryReset r)) = Some r"
| "get_scheduled_reset _ = None"

fun is_scheduled_reset :: "state \<Rightarrow> bool" where
  "is_scheduled_reset (Closed (ScheduledLibraryReset _)) = True"
| "is_scheduled_reset _ = False"

fun is_local_error :: "state \<Rightarrow> bool" where
  "is_local_error (Closed (CError er)) = proto_error_is_local er"
| "is_local_error (Closed (ScheduledLibraryReset _)) = True"
| "is_local_error _ = False"

fun is_remote_reset :: "state \<Rightarrow> bool" where
  "is_remote_reset (Closed (CError (PReset _ _ Remote))) = True"
| "is_remote_reset _ = False"

fun is_reset :: "state \<Rightarrow> bool" where
  "is_reset (Closed EndStream) = False"
| "is_reset (Closed _) = True"
| "is_reset _ = False"

fun is_send_streaming :: "state \<Rightarrow> bool" where
  "is_send_streaming (Open Streaming _) = True"
| "is_send_streaming (HalfClosedRemote Streaming) = True"
| "is_send_streaming _ = False"

fun is_recv_headers :: "state \<Rightarrow> bool" where
  "is_recv_headers Idle = True"
| "is_recv_headers (Open _ AwaitingHeaders) = True"
| "is_recv_headers (HalfClosedLocal AwaitingHeaders) = True"
| "is_recv_headers ReservedRemote = True"
| "is_recv_headers _ = False"

fun is_recv_streaming :: "state \<Rightarrow> bool" where
  "is_recv_streaming (Open _ Streaming) = True"
| "is_recv_streaming (HalfClosedLocal Streaming) = True"
| "is_recv_streaming _ = False"

fun is_recv_end_stream :: "state \<Rightarrow> bool" where
  "is_recv_end_stream (Closed EndStream) = True"
| "is_recv_end_stream (HalfClosedRemote _) = True"
| "is_recv_end_stream _ = False"

fun is_send_closed :: "state \<Rightarrow> bool" where
  "is_send_closed (Closed _) = True"
| "is_send_closed (HalfClosedLocal _) = True"
| "is_send_closed ReservedRemote = True"
| "is_send_closed _ = False"

fun is_idle :: "state \<Rightarrow> bool" where
  "is_idle Idle = True"
| "is_idle _ = False"

fun ensure_recv_open :: "state \<Rightarrow> (bool, proto_error) result" where
  "ensure_recv_open (Closed (CError er)) = Err er"
| "ensure_recv_open (Closed (ScheduledLibraryReset r)) = Err (library_go_away r)"
| "ensure_recv_open (Closed EndStream) = Ok False"
| "ensure_recv_open (HalfClosedRemote _) = Ok False"
| "ensure_recv_open ReservedLocal = Ok False"
| "ensure_recv_open _ = Ok True"

section \<open>The life of a stream\<close>

text \<open>What can happen to a stream, by the frame or the cause.\<close>

datatype stream_event =
    SendHeaders bool
  | RecvHeaders bool bool
  | SendPushPromise
  | RecvPushPromise
  | RecvData bool
  | RecvTrailers
  | SendEnd
  | RecvReset reset_frame bool
  | SendReset stream_id reason initiator
  | ScheduleReset reason
  | ConnError proto_error
  | Eof

text \<open>One transition of the code; an event the code answers with an error is no transition.\<close>

inductive stream_step :: "state \<Rightarrow> stream_event \<Rightarrow> state \<Rightarrow> bool" where
  "send_open eos s = Ok s' \<Longrightarrow> stream_step s (SendHeaders eos) s'"
| "recv_open eos info s = Ok (s', ini) \<Longrightarrow> stream_step s (RecvHeaders eos info) s'"
| "reserve_local s = Ok s' \<Longrightarrow> stream_step s SendPushPromise s'"
| "reserve_remote s = Ok s' \<Longrightarrow> stream_step s RecvPushPromise s'"
| "is_recv_streaming s \<Longrightarrow> stream_step s (RecvData False) s"
| "is_recv_streaming s \<Longrightarrow> recv_close s = Ok s' \<Longrightarrow> stream_step s (RecvData True) s'"
| "\<not> is_recv_headers s \<Longrightarrow> recv_close s = Ok s' \<Longrightarrow> stream_step s RecvTrailers s'"
| "send_close s = Ok s' \<Longrightarrow> stream_step s SendEnd s'"
| "stream_step s (RecvReset f queued) (recv_reset f queued s)"
| "\<not> is_reset s \<Longrightarrow> stream_step s (SendReset sid r ini) (set_reset sid r ini)"
| "set_scheduled_reset r s = Ok s' \<Longrightarrow> stream_step s (ScheduleReset r) s'"
| "stream_step s (ConnError er) (state_handle_error er s)"
| "stream_step s Eof (state_recv_eof s)"

inductive_simps stream_step_simps [simp]:
  "stream_step s (SendHeaders eos) s'" "stream_step s (RecvHeaders eos info) s'"
  "stream_step s SendPushPromise s'" "stream_step s RecvPushPromise s'" "stream_step s (RecvData eos) s'"
  "stream_step s RecvTrailers s'"
  "stream_step s SendEnd s'" "stream_step s (RecvReset f q) s'" "stream_step s (SendReset sid r ini) s'"
  "stream_step s (ScheduleReset r) s'" "stream_step s (ConnError er) s'" "stream_step s Eof s'"

inductive stream_run :: "state \<Rightarrow> stream_event list \<Rightarrow> state \<Rightarrow> bool" where
  stream_run_Nil: "stream_run s [] s"
| stream_run_snoc: "stream_run s es s' \<Longrightarrow> stream_step s' ev s'' \<Longrightarrow> stream_run s (es @ [ev]) s''"

inductive_cases stream_run_snocE: "stream_run s (es @ [ev]) s'"

section \<open>The RFC's states\<close>

text \<open>RFC 9113, section 5.1, and the transitions of its figure 2.\<close>

datatype rfc_state = RIdle | RReservedLocal | RReservedRemote | ROpen | RHalfLocal | RHalfRemote | RClosed

inductive rfc_step :: "rfc_state \<Rightarrow> stream_event \<Rightarrow> rfc_state \<Rightarrow> bool" where
  "rfc_step RIdle (SendHeaders eos) (if eos then RHalfLocal else ROpen)"
| "rfc_step RIdle (RecvHeaders eos info) (if eos then RHalfRemote else ROpen)"
| "rfc_step RIdle SendPushPromise RReservedLocal"
| "rfc_step RIdle RecvPushPromise RReservedRemote"
| "rfc_step RReservedLocal (SendHeaders eos) (if eos then RClosed else RHalfRemote)"
| "rfc_step RReservedRemote (RecvHeaders eos info)
     (if eos then RClosed else if info then RReservedRemote else RHalfLocal)"
| "rfc_step ROpen (SendHeaders eos) (if eos then RHalfLocal else ROpen)"
| "rfc_step ROpen (RecvHeaders eos info) (if eos then RHalfRemote else ROpen)"
| "rfc_step ROpen (RecvData eos) (if eos then RHalfRemote else ROpen)"
| "rfc_step ROpen RecvTrailers RHalfRemote"
| "rfc_step ROpen SendEnd RHalfLocal"
| "rfc_step RHalfLocal (RecvHeaders eos info) (if eos then RClosed else RHalfLocal)"
| "rfc_step RHalfLocal (RecvData eos) (if eos then RClosed else RHalfLocal)"
| "rfc_step RHalfLocal RecvTrailers RClosed"
| "rfc_step RHalfRemote (SendHeaders eos) (if eos then RClosed else RHalfRemote)"
| "rfc_step RHalfRemote SendEnd RClosed"
| "rfc_step r (RecvReset f q) RClosed"
| "rfc_step r (SendReset sid rs ini) RClosed"
| "rfc_step r (ScheduleReset rs) RClosed"
| "rfc_step r (ConnError er) RClosed"
| "rfc_step r Eof RClosed"

fun rfc_of :: "state \<Rightarrow> rfc_state" where
  "rfc_of Idle = RIdle"
| "rfc_of ReservedLocal = RReservedLocal"
| "rfc_of ReservedRemote = RReservedRemote"
| "rfc_of (Open _ _) = ROpen"
| "rfc_of (HalfClosedLocal _) = RHalfLocal"
| "rfc_of (HalfClosedRemote _) = RHalfRemote"
| "rfc_of (Closed _) = RClosed"

section \<open>Properties of single transitions\<close>

lemma send_open_OkE:
  assumes "send_open eos s = Ok s'"
  obtains "s = Idle" "s' = (if eos then HalfClosedLocal AwaitingHeaders else Open Streaming AwaitingHeaders)"
  | r where "s = Open AwaitingHeaders r" "s' = (if eos then HalfClosedLocal r else Open Streaming r)"
  | "s = HalfClosedRemote AwaitingHeaders \<or> s = ReservedLocal"
    "s' = (if eos then Closed EndStream else HalfClosedRemote Streaming)"
  using assms by (cases "(eos, s)" rule: send_open.cases) auto

lemma recv_open_OkE:
  assumes "recv_open eos info s = Ok (s', ini)"
  obtains "s = Idle" "ini" "s' = (if eos then HalfClosedRemote AwaitingHeaders
      else Open AwaitingHeaders (if info then AwaitingHeaders else Streaming))"
  | "s = ReservedRemote" "ini" "s' = (if eos then Closed EndStream
      else if info then ReservedRemote else HalfClosedLocal Streaming)"
  | l where "s = Open l AwaitingHeaders" "\<not> ini" "s' = (if eos then HalfClosedRemote l
      else Open l (if info then AwaitingHeaders else Streaming))"
  | "s = HalfClosedLocal AwaitingHeaders" "\<not> ini" "s' = (if eos then Closed EndStream
      else if info then HalfClosedLocal AwaitingHeaders else HalfClosedLocal Streaming)"
  using assms by (cases "(eos, info, s)" rule: recv_open.cases) auto

lemma recv_close_OkE:
  assumes "recv_close s = Ok s'"
  obtains l r where "s = Open l r" "s' = HalfClosedRemote l"
  | r where "s = HalfClosedLocal r" "s' = Closed EndStream"
  using assms by (cases s rule: recv_close.cases) auto

lemma send_close_OkE:
  assumes "send_close s = Ok s'"
  obtains l r where "s = Open l r" "s' = HalfClosedLocal r"
  | l where "s = HalfClosedRemote l" "s' = Closed EndStream"
  using assms by (cases s rule: send_close.cases) auto

lemma reserve_OkE:
  "reserve_local s = Ok s' \<longleftrightarrow> s = Idle \<and> s' = ReservedLocal"
  "reserve_remote s = Ok s' \<longleftrightarrow> s = Idle \<and> s' = ReservedRemote"
  by (cases s; auto)+

lemma recv_open_iff: "(\<exists>r. recv_open eos info s = Ok r) \<longleftrightarrow> is_recv_headers s"
  by (cases "(eos, info, s)" rule: recv_open.cases) auto

lemma recv_open_no_panic: "recv_open eos info s \<noteq> Panic"
  by (cases "(eos, info, s)" rule: recv_open.cases) simp_all

lemma send_open_no_panic: "send_open eos s \<noteq> Panic"
  by (cases "(eos, s)" rule: send_open.cases) simp_all

lemma recv_close_no_panic: "recv_close s \<noteq> Panic"
  by (cases s rule: recv_close.cases) simp_all

text \<open>\<open>send_close\<close> panics outside the states it is called in; a sender that is streaming is in one.\<close>

lemma send_close_streaming: "is_send_streaming s \<Longrightarrow> send_close s \<noteq> Panic"
  by (cases s rule: is_send_streaming.cases) auto

lemma recv_close_streaming: "is_recv_streaming s \<Longrightarrow> \<exists>s'. recv_close s = Ok s'"
  by (cases s rule: is_recv_streaming.cases) auto

text \<open>Which halves a state has open; a closed half never opens again.\<close>

definition send_done :: "state \<Rightarrow> bool" where
  "send_done s \<longleftrightarrow> (case s of HalfClosedLocal _ \<Rightarrow> True | Closed _ \<Rightarrow> True | _ \<Rightarrow> False)"

definition recv_done :: "state \<Rightarrow> bool" where
  "recv_done s \<longleftrightarrow> (case s of HalfClosedRemote _ \<Rightarrow> True | Closed _ \<Rightarrow> True | _ \<Rightarrow> False)"

lemma is_closed_iff: "is_closed s \<longleftrightarrow> (\<exists>c. s = Closed c)"
  by (cases s) auto

lemma recv_reset_closed: "is_closed (recv_reset f q s)"
  by (auto simp: recv_reset_def)

lemma set_scheduled_reset_Ok:
  "set_scheduled_reset r s = Ok s' \<longleftrightarrow> \<not> is_closed s \<and> s' = Closed (ScheduledLibraryReset r)"
  by (auto simp: set_scheduled_reset_def)

lemmas state_end_defs = recv_reset_def set_reset_def state_handle_error_def state_recv_eof_def
  set_scheduled_reset_Ok is_closed_iff

text \<open>Refinement: every transition is one of RFC 9113.\<close>

lemma stream_step_rfc: "stream_step s ev s' \<Longrightarrow> rfc_step (rfc_of s) ev (rfc_of s')"
proof (induction rule: stream_step.induct)
  case (1 eos s s')
  then show ?case by (cases rule: send_open_OkE) 
      (use rfc_step.intros(1,5,7,15) [of eos] in auto)
next
  case (2 eos info s s' ini)
  then show ?case by (cases rule: recv_open_OkE)
      (use rfc_step.intros(2,6,8,12) [of eos info] in auto)
next
  case (5 s)
  then show ?case by (cases s rule: is_recv_streaming.cases)
      (use rfc_step.intros(9,13) [of False] in auto)
next
  case (6 s s')
  then show ?case by (cases s rule: is_recv_streaming.cases)
      (use rfc_step.intros(9,13) [of True] in auto)
qed (auto simp: reserve_OkE state_end_defs intro: rfc_step.intros elim!: recv_close_OkE send_close_OkE)

section \<open>Properties of whole lives\<close>

text \<open>Frames that end a half of the stream.\<close>

fun sends_end :: "stream_event \<Rightarrow> bool" where
  "sends_end (SendHeaders eos) = eos"
| "sends_end SendEnd = True"
| "sends_end _ = False"

fun receives_end :: "stream_event \<Rightarrow> bool" where
  "receives_end (RecvHeaders eos _) = eos"
| "receives_end (RecvData eos) = eos"
| "receives_end RecvTrailers = True"
| "receives_end _ = False"

text \<open>Frames of the message the peer sends, and its final (not 1xx) header block.\<close>

fun receives_message :: "stream_event \<Rightarrow> bool" where
  "receives_message (RecvHeaders _ _) = True"
| "receives_message (RecvData _) = True"
| "receives_message RecvTrailers = True"
| "receives_message _ = False"

fun receives_final_headers :: "stream_event \<Rightarrow> bool" where
  "receives_final_headers (RecvHeaders eos info) = (eos \<or> \<not> info)"
| "receives_final_headers _ = False"

fun receives_body :: "stream_event \<Rightarrow> bool" where
  "receives_body (RecvData _) = True"
| "receives_body RecvTrailers = True"
| "receives_body _ = False"

lemma stream_step_send_done:
  "stream_step s ev s' \<Longrightarrow>
     (sends_end ev \<longrightarrow> \<not> send_done s \<and> send_done s') \<and> (send_done s \<longrightarrow> send_done s')"
proof (induction rule: stream_step.induct)
  case (1 eos s s')
  then show ?case by (cases rule: send_open_OkE) (auto simp: send_done_def)
next
  case (2 eos info s s' ini)
  then show ?case by (cases rule: recv_open_OkE) (auto simp: send_done_def)
qed (auto simp: reserve_OkE state_end_defs send_done_def elim!: recv_close_OkE send_close_OkE)

lemma stream_step_recv_done:
  "stream_step s ev s' \<Longrightarrow>
     (receives_message ev \<longrightarrow> \<not> recv_done s) \<and> (receives_end ev \<longrightarrow> recv_done s')
   \<and> (recv_done s \<longrightarrow> recv_done s')"
proof (induction rule: stream_step.induct)
  case (1 eos s s')
  then show ?case by (cases rule: send_open_OkE) (auto simp: recv_done_def)
next
  case (2 eos info s s' ini)
  then show ?case by (cases rule: recv_open_OkE) (auto simp: recv_done_def)
next
  case (5 s)
  then show ?case by (cases s rule: is_recv_streaming.cases) (auto simp: recv_done_def)
qed (auto simp: reserve_OkE state_end_defs recv_done_def elim!: recv_close_OkE send_close_OkE)

lemma stream_step_headers:
  "stream_step s ev s' \<Longrightarrow>
     (receives_final_headers ev \<longrightarrow> is_recv_headers s \<and> \<not> is_recv_headers s')
   \<and> (\<not> is_recv_headers s \<longrightarrow> \<not> is_recv_headers s')
   \<and> (receives_body ev \<longrightarrow> \<not> is_recv_headers s)"
proof (induction rule: stream_step.induct)
  case (1 eos s s')
  then show ?case by (cases rule: send_open_OkE) (auto split: peer.splits elim!: is_recv_headers.elims)
next
  case (2 eos info s s' ini)
  then show ?case by (cases rule: recv_open_OkE) auto
next
  case (5 s)
  then show ?case by (cases s rule: is_recv_streaming.cases) auto
next
  case (6 s s')
  then show ?case by (cases s rule: is_recv_streaming.cases) auto
next
  case (8 s s')
  then show ?case by (cases rule: send_close_OkE) (auto elim!: is_recv_headers.elims)
qed (auto simp: reserve_OkE state_end_defs elim!: recv_close_OkE)

text \<open>A stream sends END_STREAM at most once, and receives nothing of the message after it got it.\<close>

lemma stream_run_sends_end:
  "stream_run s es s' \<Longrightarrow> \<not> send_done s \<Longrightarrow>
     length (filter sends_end es) = (if send_done s' then length (filter sends_end es) else 0)
   \<and> length (filter sends_end es) \<le> 1"
proof (induction rule: stream_run.induct)
  case (stream_run_snoc s es s' ev s'')
  then show ?case using stream_step_send_done [OF stream_run_snoc.hyps(2)]
    by (cases "sends_end ev") (auto split: if_splits)
qed simp

lemma stream_run_recv_done: "stream_run s es s' \<Longrightarrow> recv_done s \<Longrightarrow> recv_done s' \<and> \<not> (\<exists>ev \<in> set es. receives_message ev)"
proof (induction rule: stream_run.induct)
  case (stream_run_snoc s es s' ev s'')
  then show ?case using stream_step_recv_done [OF stream_run_snoc.hyps(2)] by auto
qed simp

lemma stream_run_split:
  "stream_run s es s' \<Longrightarrow> es = es1 @ es2 \<Longrightarrow> \<exists>m. stream_run s es1 m \<and> stream_run m es2 s'"
proof (induction arbitrary: es1 es2 rule: stream_run.induct)
  case (stream_run_snoc s es s' ev s'')
  show ?case
  proof (cases es2 rule: rev_cases)
    case Nil
    with stream_run_snoc show ?thesis by (metis append_Nil2 stream_run.intros)
  next
    case (snoc es2' ev')
    with stream_run_snoc.prems have "es = es1 @ es2'" "ev' = ev" by auto
    with stream_run_snoc snoc show ?thesis by (metis stream_run.intros(2))
  qed
qed (auto intro: stream_run.intros)

text \<open>The body comes after the one final header block, and nothing after the end.\<close>

lemma stream_run_headers_first:
  "stream_run s es s' \<Longrightarrow> is_recv_headers s \<or> s = ReservedLocal \<Longrightarrow>
     (is_recv_headers s' \<longrightarrow> \<not> (\<exists>ev \<in> set es. receives_body ev \<or> receives_final_headers ev))
   \<and> length (filter receives_final_headers es) \<le> 1"
proof (induction rule: stream_run.induct)
  case (stream_run_snoc s es s' ev s'')
  note step = stream_step_headers [OF stream_run_snoc.hyps(2)]
  show ?case
  proof (cases "is_recv_headers s'")
    case True
    with stream_run_snoc step have "filter receives_final_headers es = []" "\<not> (\<exists>ev \<in> set es. receives_body ev)"
      by (auto simp: filter_empty_conv)
    with True stream_run_snoc step show ?thesis by auto
  qed (use stream_run_snoc step in auto)
qed simp

lemma stream_step_streaming:
  "stream_step s ev s' \<Longrightarrow>
     (is_recv_streaming s' \<longrightarrow> is_recv_streaming s \<or> receives_final_headers ev)
   \<and> (receives_body ev \<longrightarrow> is_recv_streaming s)"
proof (induction rule: stream_step.induct)
  case (1 eos s s')
  then show ?case by (cases rule: send_open_OkE) (auto elim!: is_recv_streaming.elims)
next
  case (2 eos info s s' ini)
  then show ?case by (cases rule: recv_open_OkE) auto
next
  case (7 s s')
  from 7(2) show ?case
  proof (cases rule: recv_close_OkE)
    case (1 l r)
    with 7(1) show ?thesis by (cases r) auto
  next
    case (2 r)
    with 7(1) show ?thesis by (cases r) auto
  qed
next
  case (8 s s')
  then show ?case by (cases rule: send_close_OkE) (auto elim!: is_recv_streaming.elims)
qed (auto simp: reserve_OkE state_end_defs elim!: recv_close_OkE)

lemma stream_run_streaming:
  "stream_run s es s' \<Longrightarrow> \<not> is_recv_streaming s \<Longrightarrow> is_recv_streaming s' \<Longrightarrow>
     \<exists>h \<in> set es. receives_final_headers h"
proof (induction rule: stream_run.induct)
  case (stream_run_snoc s es s' ev s'')
  then show ?case using stream_step_streaming [OF stream_run_snoc.hyps(2)] by auto
qed simp

lemma stream_run_ConsE:
  assumes "stream_run s (ev # es) s'"
  obtains m where "stream_step s ev m" "stream_run m es s'"
proof -
  from stream_run_split [OF assms, of "[ev]" es] obtain m where
    "stream_run s [ev] m" "stream_run m es s'" by auto
  moreover have "stream_step s ev m" if "stream_run s [ev] m"
    using that by (cases rule: stream_run.cases) (auto elim: stream_run.cases)
  ultimately show thesis using that by blast
qed

lemma stream_run_order:
  assumes run: "stream_run Idle (es1 @ ev # es2) s"
  shows "(receives_body ev \<longrightarrow> (\<exists>h \<in> set es1. receives_final_headers h))
    \<and> (receives_end ev \<longrightarrow> \<not> (\<exists>ev' \<in> set es2. receives_message ev'))"
proof -
  from stream_run_split [OF run refl] obtain m where
    m: "stream_run Idle es1 m" "stream_run m (ev # es2) s" by blast
  from stream_run_ConsE [OF m(2)] obtain m' where
    m': "stream_step m ev m'" "stream_run m' es2 s" by blast
  show ?thesis
    using stream_run_streaming [OF m(1)] stream_step_streaming [OF m'(1)]
      stream_run_recv_done [OF m'(2)] stream_step_recv_done [OF m'(1)] by auto
qed

end
