(* ===== verification/Flow_Control.thy ===== *)
theory Flow_Control
  imports Error_Types "HOL-Library.Signed_Division"
begin

text \<open>
  Flow-control windows (\<open>proto/streams/flow_control.rs\<close>). A \<open>Window\<close> is an \<open>i32\<close>, here the 32-bit
  word read as a signed number; it may be negative after a SETTINGS change. A size is a \<open>u32\<close>, and
  the code casts it to \<open>i32\<close>. Arithmetic is the machine's, with the overflow checks of the code.
\<close>

section \<open>Windows\<close>

type_synonym window_size = u32

definition MAX_WINDOW_SIZE :: u32 where "MAX_WINDOW_SIZE = push_bit 31 1 - 1"

definition as_size :: "32 word \<Rightarrow> window_size" where
  "as_size w = (if sint w < 0 then 0 else w)"

text \<open>The bounds of \<open>i32\<close>; \<open>checked_sub\<close> and \<open>overflowing_add\<close> test the exact result against them.\<close>

definition i32_fits :: "int \<Rightarrow> bool" where
  "i32_fits x \<longleftrightarrow> - (2 ^ 31) \<le> x \<and> x < 2 ^ 31"

definition decrease_by :: "window_size \<Rightarrow> 32 word \<Rightarrow> (32 word, reason) result" where
  "decrease_by sz w = (if i32_fits (sint w - sint sz) then Ok (w - sz) else Err FLOW_CONTROL_ERROR)"

definition increase_by :: "window_size \<Rightarrow> 32 word \<Rightarrow> (32 word, reason) result" where
  "increase_by sz w =
     (let v = w + sz in
      if \<not> i32_fits (sint w + sint sz) \<or> sint v > sint MAX_WINDOW_SIZE then Err FLOW_CONTROL_ERROR
      else Ok v)"

section \<open>Flow control\<close>

record flow_control =
  fc_window :: "32 word"
  fc_capacity :: "32 word"

definition flow_control_new :: "u32 \<Rightarrow> flow_control" where
  "flow_control_new n = \<lparr>fc_window = n, fc_capacity = n\<rparr>"

definition window_size :: "flow_control \<Rightarrow> window_size" where
  "window_size f = as_size (fc_window f)"

definition available :: "flow_control \<Rightarrow> window_size" where
  "available f = as_size (fc_window f)"

definition dec_window :: "window_size \<Rightarrow> flow_control \<Rightarrow> (flow_control, reason) result" where
  "dec_window sz f = map_ok (\<lambda>w. f\<lparr>fc_window := w\<rparr>) (decrease_by sz (fc_window f))"

definition inc_window :: "window_size \<Rightarrow> flow_control \<Rightarrow> (flow_control, reason) result" where
  "inc_window sz f = map_ok (\<lambda>w. f\<lparr>fc_window := w\<rparr>) (increase_by sz (fc_window f))"

definition UNCLAIMED_NUMERATOR :: int where "UNCLAIMED_NUMERATOR = 1"
definition UNCLAIMED_DENOMINATOR :: int where "UNCLAIMED_DENOMINATOR = 2"

text \<open>
  \<open>capacity.0 - window.0\<close> is an unchecked \<open>i32\<close> subtraction: with overflow checks on, it panics when
  the difference does not fit. Division truncates towards zero.
\<close>

definition should_send_window_update :: "flow_control \<Rightarrow> (window_size option, unit) result" where
  "should_send_window_update f =
     (if sint (fc_window f) \<ge> sint (fc_capacity f) then Ok None
      else if \<not> i32_fits (sint (fc_capacity f) - sint (fc_window f)) then Panic
      else
        let unclaimed = fc_capacity f - fc_window f;
            threshold = (sint (fc_capacity f) sdiv UNCLAIMED_DENOMINATOR) * UNCLAIMED_NUMERATOR in
        if sint unclaimed < threshold then Ok None else Ok (Some unclaimed))"

section \<open>Exact arithmetic\<close>

lemma sint_range: "- (2 ^ 31) \<le> sint (w :: 32 word)" "sint (w :: 32 word) < 2 ^ 31"
  using sint_ge [of w] sint_lt [of w] by simp_all

lemma i32_fits_sint: "i32_fits (sint (w :: 32 word))"
  using sint_range [of w] by (simp add: i32_fits_def)

lemma sint_of_fits: "i32_fits x \<Longrightarrow> sint (word_of_int x :: 32 word) = x"
  by (simp add: i32_fits_def sint_sbintrunc' signed_take_bit_int_eq_self)

lemma sint_add_fits: "i32_fits (sint v + sint w) \<Longrightarrow> sint (v + w) = sint v + sint (w :: 32 word)"
  using sint_of_fits [of "sint v + sint w"] by simp

lemma sint_sub_fits: "i32_fits (sint v - sint w) \<Longrightarrow> sint (v - w) = sint v - sint (w :: 32 word)"
  using sint_of_fits [of "sint v - sint w"] by simp

lemma int_unat_less: "int (unat w) < 2 ^ k \<longleftrightarrow> unat (w :: 32 word) < 2 ^ k"
  by (rule of_nat_less_numeral_power_cancel_iff)

lemma int_unat_bound: "0 \<le> int (unat w)" "int (unat (w :: 32 word)) < 2 ^ 32"
  using unsigned_less [of w, where ?'a = int] by simp_all

lemma sint_MAX_WINDOW_SIZE: "sint MAX_WINDOW_SIZE = 2 ^ 31 - 1"
  by (simp add: MAX_WINDOW_SIZE_def)

text \<open>A size of the protocol, below \<open>2\<^sup>3\<^sup>1\<close>, keeps its value through the cast.\<close>

lemma sint_unat: "unat (sz :: 32 word) < 2 ^ 31 \<Longrightarrow> sint sz = int (unat sz)"
proof -
  assume "unat sz < 2 ^ 31"
  then have "i32_fits (int (unat sz))"
    using int_unat_less [of sz 31] int_unat_bound(1) [of sz] unfolding i32_fits_def by linarith
  from sint_of_fits [OF this] show ?thesis by simp
qed

lemma sint_unat_high: "2 ^ 31 \<le> unat (sz :: 32 word) \<Longrightarrow> sint sz = int (unat sz) - 2 ^ 32"
proof -
  assume "2 ^ 31 \<le> unat sz"
  then have "i32_fits (int (unat sz) - 2 ^ 32)"
    using int_unat_less [of sz 31] int_unat_bound(2) [of sz] unfolding i32_fits_def
    by (simp del: of_nat_unat add: not_less [symmetric])
  moreover have "(word_of_int (int (unat sz) - 2 ^ 32) :: 32 word) = sz"
    by simp
  ultimately show ?thesis using sint_of_fits by metis
qed

lemma decrease_by_exact:
  assumes "unat sz < 2 ^ 31"
  shows "decrease_by sz w =
    (if - (2 ^ 31) \<le> sint w - int (unat sz) then Ok (w - sz) else Err FLOW_CONTROL_ERROR)"
    and "- (2 ^ 31) \<le> sint w - int (unat sz) \<Longrightarrow> sint (w - sz) = sint w - int (unat sz)"
proof -
  have fits: "i32_fits (sint w - sint sz) \<longleftrightarrow> - (2 ^ 31) \<le> sint w - int (unat sz)"
    unfolding sint_unat [OF assms] i32_fits_def using sint_range(2) [of w] by linarith
  then show "decrease_by sz w =
    (if - (2 ^ 31) \<le> sint w - int (unat sz) then Ok (w - sz) else Err FLOW_CONTROL_ERROR)"
    by (simp only: decrease_by_def)
  show "sint (w - sz) = sint w - int (unat sz)" if "- (2 ^ 31) \<le> sint w - int (unat sz)"
    using sint_sub_fits [of w sz] fits that by (simp only: sint_unat [OF assms])
qed

lemma increase_by_exact:
  assumes "unat sz < 2 ^ 31"
  shows "increase_by sz w =
    (if sint w + int (unat sz) \<le> 2 ^ 31 - 1 then Ok (w + sz) else Err FLOW_CONTROL_ERROR)"
    and "sint w + int (unat sz) \<le> 2 ^ 31 - 1 \<Longrightarrow> sint (w + sz) = sint w + int (unat sz)"
proof -
  have fits: "i32_fits (sint w + sint sz) \<longleftrightarrow> sint w + int (unat sz) \<le> 2 ^ 31 - 1"
    unfolding sint_unat [OF assms] i32_fits_def using sint_range(1) [of w] by linarith
  have le: "\<not> sint (w + sz) > sint MAX_WINDOW_SIZE"
    unfolding sint_MAX_WINDOW_SIZE using sint_range(2) [of "w + sz"] by linarith
  show "increase_by sz w =
    (if sint w + int (unat sz) \<le> 2 ^ 31 - 1 then Ok (w + sz) else Err FLOW_CONTROL_ERROR)"
    using fits le by (simp only: increase_by_def Let_def) auto
  show "sint (w + sz) = sint w + int (unat sz)" if "sint w + int (unat sz) \<le> 2 ^ 31 - 1"
    using sint_add_fits [of w sz] fits that by (simp only: sint_unat [OF assms])
qed

lemma as_size_nat: "unat (as_size w) = nat (sint w)"
proof (cases "unat w < 2 ^ 31")
  case False
  then have "sint w < 0" using sint_unat_high [of w] int_unat_bound(2) [of w] by linarith
  then show ?thesis by (simp add: as_size_def)
qed (simp add: as_size_def sint_unat)

section \<open>A window as a number\<close>

text \<open>The value of the window, which the rest of the library reads through \<open>available\<close>.\<close>

definition win :: "flow_control \<Rightarrow> int" where "win f = sint (fc_window f)"

lemma window_size_win: "unat (window_size f) = nat (win f)" "unat (available f) = nat (win f)"
  by (simp_all add: window_size_def available_def as_size_nat win_def)

lemma dec_window_spec:
  assumes "unat sz < 2 ^ 31"
  shows "dec_window sz f = Ok f' \<Longrightarrow> win f' = win f - int (unat sz) \<and> fc_capacity f' = fc_capacity f"
    and "dec_window sz f \<noteq> Panic"
    and "(\<exists>er. dec_window sz f = Err er) \<longleftrightarrow> win f - int (unat sz) < - (2 ^ 31)"
  using decrease_by_exact [OF assms, of "fc_window f"]
  by (auto simp: dec_window_def win_def not_le split: if_splits)

lemma dec_window_available:
  assumes "sz \<le> available f"
  shows "\<exists>f'. dec_window sz f = Ok f' \<and> win f' = win f - int (unat sz) \<and> (0 \<le> win f \<longrightarrow> 0 \<le> win f')"
proof -
  have le: "unat sz \<le> nat (win f)" using assms by (simp add: word_le_nat_alt window_size_win)
  have "nat (win f) < 2 ^ 31" using sint_range(2) [of "fc_window f"] by (simp add: win_def nat_less_iff)
  with le have lt: "unat sz < 2 ^ 31" by linarith
  have "int (unat sz) \<le> max 0 (win f)" using le by linarith
  then have "- (2 ^ 31) \<le> sint (fc_window f) - int (unat sz)"
    using sint_range(1) [of "fc_window f"] unfolding win_def 
    by (auto simp: max_def simp del: of_nat_unat split: if_splits)
  then show ?thesis
    using decrease_by_exact [OF lt, of "fc_window f"] \<open>int (unat sz) \<le> max 0 (win f)\<close>
    by (auto simp: dec_window_def win_def)
qed

lemma inc_window_spec:
  assumes "unat sz < 2 ^ 31"
  shows "inc_window sz f = Ok f' \<Longrightarrow> win f' = win f + int (unat sz) \<and> fc_capacity f' = fc_capacity f"
    and "inc_window sz f \<noteq> Panic"
    and "(\<exists>er. inc_window sz f = Err er) \<longleftrightarrow> win f + int (unat sz) > 2 ^ 31 - 1"
  using increase_by_exact [OF assms, of "fc_window f"]
  by (auto simp: inc_window_def win_def not_le split: if_splits)

text \<open>A window changed by a size at or above \<open>2\<^sup>3\<^sup>1\<close> would move the other way: the cast turns the sign.\<close>

lemma decrease_by_large_grows:
  assumes "2 ^ 31 \<le> unat sz" "decrease_by sz w = Ok w'"
  shows "sint w < sint w'"
proof -
  have "sint sz < 0" using sint_unat_high [OF assms(1)] int_unat_bound(2) [of sz] by linarith
  with assms(2) show ?thesis using sint_sub_fits [of w sz] by (auto simp: decrease_by_def split: if_splits)
qed

section \<open>Window updates\<close>

text \<open>
  For a window between zero and its capacity an update is sent when at least half of the capacity is
  unclaimed, and it restores the window to the capacity exactly.
\<close>

lemma should_send_window_update_spec:
  assumes "0 \<le> win f" "0 \<le> sint (fc_capacity f)"
  shows "should_send_window_update f \<noteq> Panic"
    and "should_send_window_update f = Ok (Some n) \<Longrightarrow>
      int (unat n) = sint (fc_capacity f) - win f \<and> sint (fc_capacity f) div 2 \<le> int (unat n) \<and> 0 < unat n
      \<and> (\<exists>f'. inc_window n f = Ok f' \<and> fc_window f' = fc_capacity f)"
    and "should_send_window_update f = Ok None \<Longrightarrow>
      win f \<ge> sint (fc_capacity f) \<or> sint (fc_capacity f) - win f < sint (fc_capacity f) div 2"
proof -
  let ?c = "fc_capacity f" and ?w = "fc_window f"
  have fits: "i32_fits (sint ?c - sint ?w)"
    using assms sint_range [of ?c] sint_range [of ?w] unfolding win_def i32_fits_def by linarith
  note sub = sint_sub_fits [OF fits]
  have div2: "(sint ?c sdiv UNCLAIMED_DENOMINATOR) * UNCLAIMED_NUMERATOR = sint ?c div 2"
    using assms by (simp add: UNCLAIMED_DENOMINATOR_def UNCLAIMED_NUMERATOR_def signed_divide_int_def sgn_if)
  show "should_send_window_update f \<noteq> Panic"
    using fits by (auto simp: should_send_window_update_def Let_def)
  show "win f \<ge> sint ?c \<or> sint ?c - win f < sint ?c div 2" if "should_send_window_update f = Ok None"
    using that fits sub unfolding should_send_window_update_def div2 Let_def
    by (auto simp: win_def split: if_splits)
  assume "should_send_window_update f = Ok (Some n)"
  then have n: "n = ?c - ?w" and lt: "sint ?w < sint ?c" and ge: "sint ?c div 2 \<le> sint n"
    using fits unfolding should_send_window_update_def div2 Let_def by (auto split: if_splits)
  have pos: "0 < sint n" using lt sub n by simp
  have un: "int (unat n) = sint n"
    using pos as_size_nat [of n] by (simp add: as_size_def)
  moreover have "unat n < 2 ^ 31" using un sint_range(2) [of n] int_unat_less [of n 31] by simp
  moreover have "inc_window n f = Ok (f\<lparr>fc_window := ?c\<rparr>)"
    using increase_by_exact(1) [OF \<open>unat n < 2 ^ 31\<close>, of ?w] un sub n sint_range(2) [of ?c]
    by (simp add: inc_window_def)
  ultimately show "int (unat n) = sint ?c - win f \<and> sint ?c div 2 \<le> int (unat n) \<and> 0 < unat n
      \<and> (\<exists>f'. inc_window n f = Ok f' \<and> fc_window f' = ?c)"
    using ge pos sub n by (auto simp: win_def unat_gt_0)
qed

end
