(* ===== verification/Stream_Buffer.thy ===== *)
theory Stream_Buffer
  imports Prelude
begin

text \<open>
  Frame buffers (\<open>proto/streams/buffer.rs\<close>): many queues of frames threaded through one slab. A
  \<open>Deque\<close> holds only the keys of its first and last slot; the slots are linked by their \<open>next\<close> key.
  The slab is the \<open>slab\<close> crate's: a partial map from keys to slots, whose \<open>insert\<close> picks a vacant
  key. The choice is the parameter \<open>vacant\<close> of the definitions.
\<close>

section \<open>Operations\<close>

record 'a slot =
  slot_value :: 'a
  slot_next :: "nat option"

type_synonym 'a buffer = "nat \<rightharpoonup> 'a slot"

record indices =
  idx_head :: nat
  idx_tail :: nat

type_synonym deque = "indices option"

definition buffer_new :: "'a buffer" where "buffer_new = Map.empty"

definition buffer_is_empty :: "'a buffer \<Rightarrow> bool" where "buffer_is_empty buf \<longleftrightarrow> dom buf = {}"

definition deque_new :: deque where "deque_new = None"

definition deque_is_empty :: "deque \<Rightarrow> bool" where "deque_is_empty d \<longleftrightarrow> d = None"

definition slab_insert :: "(nat set \<Rightarrow> nat) \<Rightarrow> 'a slot \<Rightarrow> 'a buffer \<Rightarrow> nat \<times> 'a buffer" where
  "slab_insert vacant s buf = (let key = vacant (dom buf) in (key, buf(key \<mapsto> s)))"

definition deque_push_back ::
  "(nat set \<Rightarrow> nat) \<Rightarrow> 'a \<Rightarrow> deque \<times> 'a buffer \<Rightarrow> (deque \<times> 'a buffer, unit) result" where
  "deque_push_back vacant v = (\<lambda>(d, buf).
     case slab_insert vacant \<lparr>slot_value = v, slot_next = None\<rparr> buf of (key, buf1) \<Rightarrow>
       case d of
         Some idxs \<Rightarrow>
           (case buf1 (idx_tail idxs) of
              None \<Rightarrow> Panic
            | Some s \<Rightarrow> Ok (Some (idxs\<lparr>idx_tail := key\<rparr>),
                           buf1(idx_tail idxs \<mapsto> s\<lparr>slot_next := Some key\<rparr>)))
       | None \<Rightarrow> Ok (Some \<lparr>idx_head = key, idx_tail = key\<rparr>, buf1))"

definition deque_push_front ::
  "(nat set \<Rightarrow> nat) \<Rightarrow> 'a \<Rightarrow> deque \<times> 'a buffer \<Rightarrow> (deque \<times> 'a buffer, unit) result" where
  "deque_push_front vacant v = (\<lambda>(d, buf).
     case slab_insert vacant \<lparr>slot_value = v, slot_next = None\<rparr> buf of (key, buf1) \<Rightarrow>
       case d of
         Some idxs \<Rightarrow>
           (case buf1 key of
              None \<Rightarrow> Panic
            | Some s \<Rightarrow> Ok (Some (idxs\<lparr>idx_head := key\<rparr>),
                           buf1(key \<mapsto> s\<lparr>slot_next := Some (idx_head idxs)\<rparr>)))
       | None \<Rightarrow> Ok (Some \<lparr>idx_head = key, idx_tail = key\<rparr>, buf1))"

text \<open>\<open>slab.remove\<close> panics on a vacant key; so do the \<open>assert!\<close> and the \<open>unwrap\<close>.\<close>

definition deque_pop_front ::
  "deque \<times> 'a buffer \<Rightarrow> ('a option \<times> deque \<times> 'a buffer, unit) result" where
  "deque_pop_front = (\<lambda>(d, buf).
     case d of
       None \<Rightarrow> Ok (None, None, buf)
     | Some idxs \<Rightarrow>
         (case buf (idx_head idxs) of
            None \<Rightarrow> Panic
          | Some s \<Rightarrow>
              let buf1 = buf(idx_head idxs := None) in
              if idx_head idxs = idx_tail idxs then
                if slot_next s \<noteq> None then Panic else Ok (Some (slot_value s), None, buf1)
              else
                (case slot_next s of
                   None \<Rightarrow> Panic
                 | Some n \<Rightarrow> Ok (Some (slot_value s), Some (idxs\<lparr>idx_head := n\<rparr>), buf1))))"

section \<open>What a deque stands for\<close>

text \<open>The slots of \<open>ks\<close> are linked in this order and hold \<open>xs\<close>.\<close>

fun chain :: "'a buffer \<Rightarrow> nat list \<Rightarrow> 'a list \<Rightarrow> bool" where
  "chain buf [] [] = True"
| "chain buf (k # ks) (x # xs) =
     (buf k = Some \<lparr>slot_value = x, slot_next = (case ks of [] \<Rightarrow> None | k' # _ \<Rightarrow> Some k')\<rparr>
      \<and> chain buf ks xs)"
| "chain buf _ _ = False"

definition deque_rep :: "'a buffer \<Rightarrow> deque \<Rightarrow> nat set \<Rightarrow> 'a list \<Rightarrow> bool" where
  "deque_rep buf d F xs \<longleftrightarrow> finite (dom buf) \<and> (\<exists>ks. set ks = F \<and> distinct ks \<and> chain buf ks xs
     \<and> (case d of None \<Rightarrow> ks = [] | Some idxs \<Rightarrow> ks \<noteq> [] \<and> idx_head idxs = hd ks \<and> idx_tail idxs = last ks))"

lemma chain_length: "chain buf ks xs \<Longrightarrow> length ks = length xs"
  by (induction buf ks xs rule: chain.induct) auto

lemma chain_dom: "chain buf ks xs \<Longrightarrow> set ks \<subseteq> dom buf"
  by (induction buf ks xs rule: chain.induct) auto

lemma chain_cong: "(\<And>k. k \<in> set ks \<Longrightarrow> buf k = buf' k) \<Longrightarrow> chain buf ks xs \<longleftrightarrow> chain buf' ks xs"
  by (induction buf ks xs rule: chain.induct) auto

lemma chain_upd: "k \<notin> set ks \<Longrightarrow> chain (buf(k := s)) ks xs \<longleftrightarrow> chain buf ks xs"
  by (rule chain_cong) auto

lemma chain_snoc:
  assumes "chain buf ks xs" "distinct ks" "ks \<noteq> []" "key \<notin> set ks" "buf (last ks) = Some s"
    "buf key = Some \<lparr>slot_value = x, slot_next = None\<rparr>"
  shows "chain (buf(last ks \<mapsto> s\<lparr>slot_next := Some key\<rparr>)) (ks @ [key]) (xs @ [x])"
  using assms
proof (induction buf ks xs rule: chain.induct)
  case (2 buf k ks y xs)
  show ?case
  proof (cases ks)
    case Nil
    with 2 show ?thesis by (cases xs) auto
  next
    case (Cons k' ks')
    with 2 have "last ks \<in> set ks" "k \<noteq> last ks" by auto
    with 2 Cons show ?thesis by auto
  qed
qed auto

lemma deque_rep_dom: "deque_rep buf d F xs \<Longrightarrow> F \<subseteq> dom buf"
  by (auto simp: deque_rep_def dest: chain_dom)

lemma deque_rep_frame:
  "(\<And>k. k \<in> F \<Longrightarrow> buf k = buf' k) \<Longrightarrow> finite (dom buf') \<Longrightarrow> deque_rep buf d F xs \<Longrightarrow> deque_rep buf' d F xs"
  by (auto simp: deque_rep_def intro: chain_cong [THEN iffD1, rotated])

lemma deque_rep_new: "finite (dom buf) \<Longrightarrow> deque_rep buf deque_new {} []"
  by (simp add: deque_rep_def deque_new_def)

lemma deque_rep_empty: "deque_rep buf d F xs \<Longrightarrow> deque_is_empty d \<longleftrightarrow> xs = []"
  by (cases xs; cases d) (auto simp: deque_rep_def deque_is_empty_def dest!: chain_length)

text \<open>\<open>Slab::insert\<close> picks a key that is not in use.\<close>

definition vacant_ok :: "(nat set \<Rightarrow> nat) \<Rightarrow> bool" where
  "vacant_ok vacant \<longleftrightarrow> (\<forall>S. finite S \<longrightarrow> vacant S \<notin> S)"

text \<open>What an operation on one queue keeps: every queue on another part of the buffer.\<close>

definition frame_kept :: "('b \<Rightarrow> 'd \<Rightarrow> nat set \<Rightarrow> 'a list \<Rightarrow> bool) \<Rightarrow> 'b \<Rightarrow> nat set \<Rightarrow> 'b \<Rightarrow> nat set \<Rightarrow> bool" where
  "frame_kept rep b F b' F' \<longleftrightarrow>
     (\<forall>d2 F2 ys. rep b d2 F2 ys \<and> F2 \<inter> F = {} \<longrightarrow> rep b' d2 F2 ys \<and> F2 \<inter> F' = {})"

lemma frame_kept_trans:
  assumes "frame_kept rep b F b1 F1" "frame_kept rep b1 F1 b2 F2"
  shows "frame_kept rep b F b2 F2"
  unfolding frame_kept_def
proof (intro allI impI)
  fix d G ys
  assume "rep b d G ys \<and> G \<inter> F = {}"
  from assms(1) [unfolded frame_kept_def, rule_format, OF this]
  show "rep b2 d G ys \<and> G \<inter> F2 = {}" by (rule assms(2) [unfolded frame_kept_def, rule_format])
qed

lemma frame_kept_deque:
  assumes "finite (dom buf')" "\<And>k. k \<in> dom buf \<Longrightarrow> k \<notin> F \<Longrightarrow> buf' k = buf k" "F' \<inter> dom buf \<subseteq> F"
  shows "frame_kept deque_rep buf F buf' F'"
  unfolding frame_kept_def
proof (intro allI impI)
  fix d2 F2 ys
  assume A: "deque_rep buf d2 F2 ys \<and> F2 \<inter> F = {}"
  then have "F2 \<subseteq> dom buf" by (auto dest: deque_rep_dom)
  with A assms have "\<And>k. k \<in> F2 \<Longrightarrow> buf k = buf' k" "F2 \<inter> F' = {}" by fastforce+
  with A assms(1) show "deque_rep buf' d2 F2 ys \<and> F2 \<inter> F' = {}" by (blast intro: deque_rep_frame)
qed

lemma deque_push_back_rep:
  assumes vac: "vacant_ok vacant" and rep: "deque_rep buf d F xs"
  shows "\<exists>d' buf' F'. deque_push_back vacant v (d, buf) = Ok (d', buf') \<and> deque_rep buf' d' F' (xs @ [v])
    \<and> frame_kept deque_rep buf F buf' F'"
proof -
  let ?key = "vacant (dom buf)" let ?new = "\<lparr>slot_value = v, slot_next = None\<rparr>"
  from rep obtain ks where fin: "finite (dom buf)" and ks: "set ks = F" "distinct ks" "chain buf ks xs"
    and d: "case d of None \<Rightarrow> ks = [] | Some idxs \<Rightarrow> ks \<noteq> [] \<and> idx_head idxs = hd ks \<and> idx_tail idxs = last ks"
    by (auto simp: deque_rep_def)
  have key: "?key \<notin> dom buf" using vac fin by (simp add: vacant_ok_def)
  then have kF: "?key \<notin> F" using chain_dom [OF ks(3)] ks(1) by auto
  show ?thesis
  proof (cases d)
    case None
    with d ks have "ks = []" "xs = []" "F = {}" by (auto dest: chain_length)
    with None fin key have "deque_push_back vacant v (d, buf) = Ok (Some \<lparr>idx_head = ?key, idx_tail = ?key\<rparr>, buf(?key \<mapsto> ?new))"
      "deque_rep (buf(?key \<mapsto> ?new)) (Some \<lparr>idx_head = ?key, idx_tail = ?key\<rparr>) {?key} (xs @ [v])"
      by (auto simp: deque_push_back_def slab_insert_def Let_def deque_rep_def intro!: exI [of _ "[?key]"])
    moreover have "frame_kept deque_rep buf F (buf(?key \<mapsto> ?new)) {?key}"
      using key fin by (intro frame_kept_deque) auto
    ultimately show ?thesis by blast
  next
    case (Some idxs)
    with d have ne: "ks \<noteq> []" and idx: "idx_head idxs = hd ks" "idx_tail idxs = last ks" by auto
    then have lastF: "last ks \<in> F" using ks(1) by auto
    obtain s where s: "buf (last ks) = Some s" using chain_dom [OF ks(3)] ks(1) lastF by auto
    have neq: "last ks \<noteq> ?key" using kF lastF by auto
    let ?b1 = "buf(?key \<mapsto> ?new)"
    let ?buf = "?b1(last ks \<mapsto> s\<lparr>slot_next := Some ?key\<rparr>)"
    have "chain ?b1 ks xs" using kF ks by (simp add: chain_upd)
    then have "chain ?buf (ks @ [?key]) (xs @ [v])"
      using ks(1,2) ne kF s neq by (intro chain_snoc) auto
    then have "deque_rep ?buf (Some (idxs\<lparr>idx_tail := ?key\<rparr>)) (insert ?key F) (xs @ [v])"
      using ks(1,2) kF ne idx fin by (auto simp: deque_rep_def intro!: exI [of _ "ks @ [?key]"])
    moreover have "deque_push_back vacant v (d, buf) = Ok (Some (idxs\<lparr>idx_tail := ?key\<rparr>), ?buf)"
      using Some s neq idx by (simp add: deque_push_back_def slab_insert_def Let_def)
    moreover have "frame_kept deque_rep buf F ?buf (insert ?key F)"
      using key fin lastF by (intro frame_kept_deque) auto
    ultimately show ?thesis by blast
  qed
qed

lemma deque_push_front_rep:
  assumes vac: "vacant_ok vacant" and rep: "deque_rep buf d F xs"
  shows "\<exists>d' buf' F'. deque_push_front vacant v (d, buf) = Ok (d', buf') \<and> deque_rep buf' d' F' (v # xs)
    \<and> frame_kept deque_rep buf F buf' F'"
proof -
  let ?key = "vacant (dom buf)"
  from rep obtain ks where fin: "finite (dom buf)" and ks: "set ks = F" "distinct ks" "chain buf ks xs"
    and d: "case d of None \<Rightarrow> ks = [] | Some idxs \<Rightarrow> ks \<noteq> [] \<and> idx_head idxs = hd ks \<and> idx_tail idxs = last ks"
    by (auto simp: deque_rep_def)
  have key: "?key \<notin> dom buf" using vac fin by (simp add: vacant_ok_def)
  then have kF: "?key \<notin> F" using chain_dom [OF ks(3)] ks(1) by auto
  let ?next = "case ks of [] \<Rightarrow> None | k # _ \<Rightarrow> Some k"
  let ?buf = "buf(?key \<mapsto> \<lparr>slot_value = v, slot_next = ?next\<rparr>)"
  let ?d = "Some \<lparr>idx_head = ?key, idx_tail = last (?key # ks)\<rparr>"
  have "deque_push_front vacant v (d, buf) = Ok (?d, ?buf)"
    using d by (cases ks; cases d) (auto simp: deque_push_front_def slab_insert_def Let_def)
  moreover have "deque_rep ?buf ?d (insert ?key F) (v # xs)"
    using ks kF fin by (auto simp: deque_rep_def chain_upd intro!: exI [of _ "?key # ks"])
  moreover have "frame_kept deque_rep buf F ?buf (insert ?key F)"
    using key fin by (intro frame_kept_deque) auto
  ultimately show ?thesis by blast
qed

lemma deque_pop_front_rep:
  assumes rep: "deque_rep buf d F xs"
  shows "\<exists>d' buf' F'. deque_pop_front (d, buf) = Ok (case xs of [] \<Rightarrow> None | x # _ \<Rightarrow> Some x, d', buf')
    \<and> deque_rep buf' d' F' (tl xs) \<and> frame_kept deque_rep buf F buf' F'"
proof -
  from rep obtain ks where fin: "finite (dom buf)" and ks: "set ks = F" "distinct ks" "chain buf ks xs"
    and d: "case d of None \<Rightarrow> ks = [] | Some idxs \<Rightarrow> ks \<noteq> [] \<and> idx_head idxs = hd ks \<and> idx_tail idxs = last ks"
    by (auto simp: deque_rep_def)
  show ?thesis
  proof (cases ks)
    case Nil
    with d ks have e: "d = None" "xs = []" by (auto split: option.splits dest: chain_length)
    have "deque_rep buf None {} []" "frame_kept deque_rep buf F buf {}"
      using fin deque_rep_new [of buf] by (auto simp: deque_new_def frame_kept_def)
    with e show ?thesis by (auto simp: deque_pop_front_def)
  next
    case (Cons k ks')
    with ks obtain x xs' where xs: "xs = x # xs'" by (cases xs) auto
    let ?buf = "buf(k := None)"
    from d Cons obtain idxs where idxs: "d = Some idxs" "idx_head idxs = k" "idx_tail idxs = last ks"
      by (auto split: option.splits)
    have k: "k \<notin> set ks'" "chain ?buf ks' xs'" using ks Cons xs by (auto simp: chain_upd)
    let ?d = "case ks' of [] \<Rightarrow> None | k' # _ \<Rightarrow> Some (idxs\<lparr>idx_head := k'\<rparr>)"
    have "deque_pop_front (d, buf) = Ok (Some x, ?d, ?buf)"
      using idxs ks Cons xs by (auto simp: deque_pop_front_def Let_def split: list.splits)
    moreover have "deque_rep ?buf ?d (set ks') xs'"
      using k idxs ks(2) Cons fin by (auto simp: deque_rep_def split: list.splits intro!: exI [of _ ks'])
    moreover have "frame_kept deque_rep buf F ?buf (set ks')"
      using ks(1) Cons fin by (intro frame_kept_deque) auto
    ultimately show ?thesis using xs by auto
  qed
qed

section \<open>Many queues in one buffer\<close>

text \<open>
  Operations on a family of queues (one per stream and direction) that share a buffer; on the
  buffer, and on a family of plain lists.
\<close>

datatype 'a buf_op = PushBack nat 'a | PushFront nat 'a | PopFront nat

fun list_exec :: "'a buf_op list \<Rightarrow> (nat \<Rightarrow> 'a list) \<Rightarrow> 'a option list \<times> (nat \<Rightarrow> 'a list)" where
  "list_exec [] xss = ([], xss)"
| "list_exec (PushBack i v # ops) xss = list_exec ops (xss(i := xss i @ [v]))"
| "list_exec (PushFront i v # ops) xss = list_exec ops (xss(i := v # xss i))"
| "list_exec (PopFront i # ops) xss =
     (case list_exec ops (xss(i := tl (xss i))) of (rs, xss') \<Rightarrow>
        ((case xss i of [] \<Rightarrow> None | x # _ \<Rightarrow> Some x) # rs, xss'))"

fun buf_exec ::
  "('a \<Rightarrow> 'd \<times> 'b \<Rightarrow> ('d \<times> 'b, unit) result) \<Rightarrow> ('a \<Rightarrow> 'd \<times> 'b \<Rightarrow> ('d \<times> 'b, unit) result) \<Rightarrow>
   ('d \<times> 'b \<Rightarrow> ('a option \<times> 'd \<times> 'b, unit) result) \<Rightarrow>
   'a buf_op list \<Rightarrow> (nat \<Rightarrow> 'd) \<times> 'b \<Rightarrow> ('a option list \<times> (nat \<Rightarrow> 'd) \<times> 'b, unit) result" where
  "buf_exec pb pf pop [] s = Ok ([], s)"
| "buf_exec pb pf pop (PushBack i v # ops) (ds, b) =
     rbind (pb v (ds i, b)) (\<lambda>(d, b'). buf_exec pb pf pop ops (ds(i := d), b'))"
| "buf_exec pb pf pop (PushFront i v # ops) (ds, b) =
     rbind (pf v (ds i, b)) (\<lambda>(d, b'). buf_exec pb pf pop ops (ds(i := d), b'))"
| "buf_exec pb pf pop (PopFront i # ops) (ds, b) =
     rbind (pop (ds i, b)) (\<lambda>(r, d, b').
       rbind (buf_exec pb pf pop ops (ds(i := d), b')) (\<lambda>(rs, s). Ok (r # rs, s)))"

text \<open>\<open>while let Some(frame) = queue.pop_front(buffer)\<close>, with a bound on the turns.\<close>

fun drain :: "('d \<times> 'b \<Rightarrow> ('a option \<times> 'd \<times> 'b, unit) result) \<Rightarrow> nat \<Rightarrow> 'd \<times> 'b \<Rightarrow>
    ('a list \<times> 'd \<times> 'b, unit) result option" where
  "drain pop 0 s = None"
| "drain pop (Suc n) s =
     (case pop s of
        Ok (None, s') \<Rightarrow> Some (Ok ([], s'))
      | Ok (Some x, s') \<Rightarrow> map_option (map_ok (\<lambda>(xs, s''). (x # xs, s''))) (drain pop n s')
      | Err er \<Rightarrow> Some (Err er)
      | Panic \<Rightarrow> Some Panic)"

definition family_rep ::
  "('b \<Rightarrow> 'd \<Rightarrow> nat set \<Rightarrow> 'a list \<Rightarrow> bool) \<Rightarrow> (nat \<Rightarrow> 'd) \<Rightarrow> 'b \<Rightarrow> (nat \<Rightarrow> 'a list) \<Rightarrow> bool" where
  "family_rep rep ds b xss \<longleftrightarrow>
     (\<exists>Fs. (\<forall>i. rep b (ds i) (Fs i) (xss i)) \<and> (\<forall>i j. i \<noteq> j \<longrightarrow> Fs i \<inter> Fs j = {}))"

lemma family_rep_update:
  assumes Fs: "\<forall>i. rep b (ds i) (Fs i) (xss i)" "\<forall>i j. i \<noteq> j \<longrightarrow> Fs i \<inter> Fs j = {}"
    and new: "rep b' d' F' xs'" "frame_kept rep b (Fs i) b' F'"
  shows "family_rep rep (ds(i := d')) b' (xss(i := xs'))"
  unfolding family_rep_def
proof (intro exI [of _ "Fs(i := F')"] conjI allI impI)
  fix j
  show "rep b' ((ds(i := d')) j) ((Fs(i := F')) j) ((xss(i := xs')) j)"
    using assms by (cases "j = i") (simp, simp add: frame_kept_def)
next
  fix j k :: nat assume "j \<noteq> k"
  moreover have "Fs l \<inter> F' = {}" if "l \<noteq> i" for l
    using Fs new(2) that unfolding frame_kept_def by blast
  ultimately show "(Fs(i := F')) j \<inter> (Fs(i := F')) k = {}"
    using Fs(2) by (cases "j = i"; cases "k = i") (auto simp: Int_commute)
qed

text \<open>
  The interface: the operations act on the list a queue stands for as on a list, and on its own
  part of the buffer only.
\<close>

locale shared_deque =
  fixes rep :: "'b \<Rightarrow> 'd \<Rightarrow> nat set \<Rightarrow> 'a list \<Rightarrow> bool"
    and pb :: "'a \<Rightarrow> 'd \<times> 'b \<Rightarrow> ('d \<times> 'b, unit) result"
    and pf :: "'a \<Rightarrow> 'd \<times> 'b \<Rightarrow> ('d \<times> 'b, unit) result"
    and pop :: "'d \<times> 'b \<Rightarrow> ('a option \<times> 'd \<times> 'b, unit) result"
  assumes pb_rep: "rep b d F xs \<Longrightarrow> \<exists>d' b' F'. pb v (d, b) = Ok (d', b')
      \<and> rep b' d' F' (xs @ [v]) \<and> frame_kept rep b F b' F'"
    and pf_rep: "rep b d F xs \<Longrightarrow> \<exists>d' b' F'. pf v (d, b) = Ok (d', b')
      \<and> rep b' d' F' (v # xs) \<and> frame_kept rep b F b' F'"
    and pop_rep: "rep b d F xs \<Longrightarrow>
      \<exists>d' b' F'. pop (d, b) = Ok (case xs of [] \<Rightarrow> None | x # _ \<Rightarrow> Some x, d', b')
      \<and> rep b' d' F' (tl xs) \<and> frame_kept rep b F b' F'"
begin

lemma exec_refines:
  "family_rep rep ds b xss \<Longrightarrow>
     \<exists>ds' b'. buf_exec pb pf pop ops (ds, b) = Ok (fst (list_exec ops xss), ds', b')
       \<and> family_rep rep ds' b' (snd (list_exec ops xss))"
proof (induction ops arbitrary: ds b xss)
  case (Cons op ops)
  from Cons.prems obtain Fs where
    Fs: "\<forall>i. rep b (ds i) (Fs i) (xss i)" "\<forall>i j. i \<noteq> j \<longrightarrow> Fs i \<inter> Fs j = {}"
    by (auto simp: family_rep_def)
  show ?case
  proof (cases op)
    case (PushBack i v)
    from pb_rep [of b "ds i" "Fs i" "xss i" v] Fs obtain d' b' F' where
      step: "pb v (ds i, b) = Ok (d', b')" "rep b' d' F' (xss i @ [v])" "frame_kept rep b (Fs i) b' F'"
      by blast
    from Cons.IH [OF family_rep_update [OF Fs step(2,3)]] step(1) PushBack show ?thesis by (simp add: fun_upd_def)
  next
    case (PushFront i v)
    from pf_rep [of b "ds i" "Fs i" "xss i" v] Fs obtain d' b' F' where
      step: "pf v (ds i, b) = Ok (d', b')" "rep b' d' F' (v # xss i)" "frame_kept rep b (Fs i) b' F'"
      by blast
    from Cons.IH [OF family_rep_update [OF Fs step(2,3)]] step(1) PushFront show ?thesis by (simp add: fun_upd_def)
  next
    case (PopFront i)
    from pop_rep [of b "ds i" "Fs i" "xss i"] Fs obtain d' b' F' where
      step: "pop (ds i, b) = Ok (case xss i of [] \<Rightarrow> None | x # _ \<Rightarrow> Some x, d', b')"
        "rep b' d' F' (tl (xss i))" "frame_kept rep b (Fs i) b' F'" by blast
    from Cons.IH [OF family_rep_update [OF Fs step(2,3)]] step(1) PopFront show ?thesis
      by (auto simp: fun_upd_def split: prod.splits)
  qed
qed simp

lemma drain_refines:
  "rep b d F xs \<Longrightarrow> length xs < n \<Longrightarrow>
     \<exists>d' b' F'. drain pop n (d, b) = Some (Ok (xs, d', b')) \<and> rep b' d' F' [] \<and> frame_kept rep b F b' F'"
proof (induction n arbitrary: d b F xs)
  case (Suc n)
  from pop_rep [OF Suc.prems(1)] obtain d1 b1 F1 where
    step: "pop (d, b) = Ok (case xs of [] \<Rightarrow> None | x # _ \<Rightarrow> Some x, d1, b1)" "rep b1 d1 F1 (tl xs)"
      "frame_kept rep b F b1 F1" by blast
  show ?case
  proof (cases xs)
    case (Cons x xs')
    with Suc.IH [OF step(2)] Suc.prems(2) obtain d' b' F' where
      rec: "drain pop n (d1, b1) = Some (Ok (xs', d', b'))" "rep b' d' F' []" "frame_kept rep b1 F1 b' F'"
      by auto
    moreover have "frame_kept rep b F b' F'" using step(3) rec(3) by (rule frame_kept_trans)
    ultimately show ?thesis using step Cons by auto
  qed (use step in auto)
qed simp

end

text \<open>The slab-backed deques are such queues, whatever vacant keys the slab hands out.\<close>

locale slab_choice =
  fixes vacant :: "nat set \<Rightarrow> nat"
  assumes vacant: "vacant_ok vacant"

sublocale slab_choice \<subseteq> deq: shared_deque deque_rep "deque_push_back vacant" "deque_push_front vacant" deque_pop_front
  by unfold_locales
    (erule deque_push_back_rep [OF vacant], erule deque_push_front_rep [OF vacant], erule deque_pop_front_rep)

context slab_choice
begin

lemma deques_exec:
  assumes "family_rep deque_rep ds b xss"
  shows "\<exists>ds' b'. buf_exec (deque_push_back vacant) (deque_push_front vacant) deque_pop_front ops (ds, b)
      = Ok (fst (list_exec ops xss), ds', b') \<and> family_rep deque_rep ds' b' (snd (list_exec ops xss))"
  using assms by (rule deq.exec_refines)

end

text \<open>A slab that reuses the smallest vacant key.\<close>

definition lowest_vacant :: "nat set \<Rightarrow> nat" where
  "lowest_vacant S = Min ({..card S} - S)"

lemma lowest_vacant_ok: "vacant_ok lowest_vacant"
  unfolding vacant_ok_def
proof (intro allI impI)
  fix S :: "nat set" assume "finite S"
  then have "card S < card {..card S}" by simp
  then have "{..card S} - S \<noteq> {}" using card_mono [OF \<open>finite S\<close>] by (metis Diff_eq_empty_iff leD)
  then have "Min ({..card S} - S) \<in> {..card S} - S" by (intro Min_in) auto
  then show "lowest_vacant S \<notin> S" by (simp add: lowest_vacant_def)
qed

interpretation lowest: slab_choice lowest_vacant
  by unfold_locales (rule lowest_vacant_ok)

lemma family_rep_new: "family_rep deque_rep (\<lambda>_. deque_new) buffer_new (\<lambda>_. [])"
  unfolding family_rep_def
  by (intro exI [of _ "\<lambda>_. {}"]) (auto simp: buffer_new_def intro: deque_rep_new)

end
