(* ===== verification/Store_Queue.thy ===== *)
theory Store_Queue
  imports Frame_Head
begin

text \<open>
  The stream store and its queues (\<open>proto/streams/store/\<close>, and the \<open>Next\<close> implementations of
  \<open>proto/streams/stream.rs\<close>). A queue of streams holds only the keys of its first and last stream;
  the streams themselves carry the link to the next one and a flag that they are queued. There is one
  such link per queue: this theory holds the queue part of a stream, the six links, the queue
  operations over any of them, and the proof that the six queues behave as six lists of keys.
\<close>

section \<open>Streams and keys\<close>

record key =
  key_index :: nat
  key_stream_id :: stream_id

record stream_links =
  sl_id :: stream_id
  next_pending_send :: "key option"
  is_pending_send :: bool
  next_pending_send_capacity :: "key option"
  is_pending_send_capacity :: bool
  next_open :: "key option"
  is_pending_open :: bool
  next_pending_accept :: "key option"
  is_pending_accept :: bool
  next_pending_complete :: "key option"
  is_pending_complete :: bool
  reset_at :: "nat option"
  next_reset_expire :: "key option"

type_synonym slab = "nat \<rightharpoonup> stream_links"

text \<open>\<open>Store::index\<close>: the slot of the key, if it still holds the stream of the key.\<close>

definition store_index :: "slab \<Rightarrow> key \<Rightarrow> (stream_links, unit) result" where
  "store_index slab k =
     (case slab (key_index k) of
        Some s \<Rightarrow> if sl_id s = key_stream_id k then Ok s else Panic
      | None \<Rightarrow> Panic)"

definition store_set :: "slab \<Rightarrow> key \<Rightarrow> stream_links \<Rightarrow> slab" where
  "store_set slab k s = slab(key_index k \<mapsto> s)"

section \<open>Links\<close>

text \<open>The trait \<open>Next\<close>; \<open>l_guard\<close> is what \<open>set_queued(true)\<close> asserts of the stream.\<close>

record link =
  l_next :: "stream_links \<Rightarrow> key option"
  l_set_next :: "key option \<Rightarrow> stream_links \<Rightarrow> stream_links"
  l_queued :: "stream_links \<Rightarrow> bool"
  l_set_queued :: "bool \<Rightarrow> stream_links \<Rightarrow> stream_links"
  l_guard :: "stream_links \<Rightarrow> bool"

definition NextSend :: link where
  "NextSend = \<lparr>l_next = next_pending_send,
     l_set_next = (\<lambda>k s. s\<lparr>next_pending_send := k\<rparr>),
     l_queued = is_pending_send,
     l_set_queued = (\<lambda>v s. s\<lparr>is_pending_send := v\<rparr>),
     l_guard = (\<lambda>s. \<not> is_pending_open s)\<rparr>"

definition NextSendCapacity :: link where
  "NextSendCapacity = \<lparr>l_next = next_pending_send_capacity,
     l_set_next = (\<lambda>k s. s\<lparr>next_pending_send_capacity := k\<rparr>),
     l_queued = is_pending_send_capacity,
     l_set_queued = (\<lambda>v s. s\<lparr>is_pending_send_capacity := v\<rparr>),
     l_guard = (\<lambda>_. True)\<rparr>"

definition NextOpen :: link where
  "NextOpen = \<lparr>l_next = next_open,
     l_set_next = (\<lambda>k s. s\<lparr>next_open := k\<rparr>),
     l_queued = is_pending_open,
     l_set_queued = (\<lambda>v s. s\<lparr>is_pending_open := v\<rparr>),
     l_guard = (\<lambda>s. \<not> is_pending_send s)\<rparr>"

definition NextAccept :: link where
  "NextAccept = \<lparr>l_next = next_pending_accept,
     l_set_next = (\<lambda>k s. s\<lparr>next_pending_accept := k\<rparr>),
     l_queued = is_pending_accept,
     l_set_queued = (\<lambda>v s. s\<lparr>is_pending_accept := v\<rparr>),
     l_guard = (\<lambda>_. True)\<rparr>"

definition NextComplete :: link where
  "NextComplete = \<lparr>l_next = next_pending_complete,
     l_set_next = (\<lambda>k s. s\<lparr>next_pending_complete := k\<rparr>),
     l_queued = is_pending_complete,
     l_set_queued = (\<lambda>v s. s\<lparr>is_pending_complete := v\<rparr>),
     l_guard = (\<lambda>_. True)\<rparr>"

text \<open>Being queued for reset expiry is having a reset time; \<open>now\<close> is the clock's reading.\<close>

definition NextResetExpire :: "nat \<Rightarrow> link" where
  "NextResetExpire now = \<lparr>l_next = next_reset_expire,
     l_set_next = (\<lambda>k s. s\<lparr>next_reset_expire := k\<rparr>),
     l_queued = (\<lambda>s. reset_at s \<noteq> None),
     l_set_queued = (\<lambda>v s. s\<lparr>reset_at := (if v then Some now else None)\<rparr>),
     l_guard = (\<lambda>_. True)\<rparr>"

section \<open>Queues\<close>

record queue_indices =
  q_head :: key
  q_tail :: key

type_synonym queue = "queue_indices option"

definition queue_new :: queue where "queue_new = None"

definition queue_is_empty :: "queue \<Rightarrow> bool" where "queue_is_empty q \<longleftrightarrow> q = None"

definition queue_take :: "queue \<Rightarrow> queue \<times> queue" where "queue_take q = (q, None)"

definition queue_push :: "link \<Rightarrow> key \<Rightarrow> queue \<times> slab \<Rightarrow> (bool \<times> queue \<times> slab, unit) result" where
  "queue_push L k = (\<lambda>(q, slab).
     rbind (store_index slab k) (\<lambda>s.
       if l_queued L s then Ok (False, q, slab)
       else if \<not> l_guard L s then Panic
       else
         let s1 = l_set_queued L True s; slab1 = store_set slab k s1 in
         if l_next L s1 \<noteq> None then Panic
         else case q of
           Some idxs \<Rightarrow>
             rbind (store_index slab1 (q_tail idxs)) (\<lambda>t.
               Ok (True, Some (idxs\<lparr>q_tail := k\<rparr>), store_set slab1 (q_tail idxs) (l_set_next L (Some k) t)))
         | None \<Rightarrow> Ok (True, Some \<lparr>q_head = k, q_tail = k\<rparr>, slab1)))"

definition queue_push_front :: "link \<Rightarrow> key \<Rightarrow> queue \<times> slab \<Rightarrow> (bool \<times> queue \<times> slab, unit) result" where
  "queue_push_front L k = (\<lambda>(q, slab).
     rbind (store_index slab k) (\<lambda>s.
       if l_queued L s then Ok (False, q, slab)
       else if \<not> l_guard L s then Panic
       else
         let s1 = l_set_queued L True s; slab1 = store_set slab k s1 in
         if l_next L s1 \<noteq> None then Panic
         else case q of
           Some idxs \<Rightarrow>
             Ok (True, Some (idxs\<lparr>q_head := k\<rparr>), store_set slab1 k (l_set_next L (Some (q_head idxs)) s1))
         | None \<Rightarrow> Ok (True, Some \<lparr>q_head = k, q_tail = k\<rparr>, slab1)))"

definition queue_pop :: "link \<Rightarrow> queue \<times> slab \<Rightarrow> (key option \<times> queue \<times> slab, unit) result" where
  "queue_pop L = (\<lambda>(q, slab).
     case q of
       None \<Rightarrow> Ok (None, q, slab)
     | Some idxs \<Rightarrow>
         rbind (store_index slab (q_head idxs)) (\<lambda>s.
         rbind (if q_head idxs = q_tail idxs
                then if l_next L s \<noteq> None then Panic else Ok (None, s)
                else case l_next L s of
                       None \<Rightarrow> Panic
                     | Some n \<Rightarrow> Ok (Some (idxs\<lparr>q_head := n\<rparr>), l_set_next L None s)) (\<lambda>(q', s1).
         if \<not> l_queued L s1 then Panic
         else Ok (Some (q_head idxs), q', store_set slab (q_head idxs) (l_set_queued L False s1)))))"

definition queue_pop_if ::
  "link \<Rightarrow> (stream_links \<Rightarrow> bool) \<Rightarrow> queue \<times> slab \<Rightarrow> (key option \<times> queue \<times> slab, unit) result" where
  "queue_pop_if L f = (\<lambda>(q, slab).
     case q of
       None \<Rightarrow> Ok (None, q, slab)
     | Some idxs \<Rightarrow>
         rbind (store_index slab (q_head idxs)) (\<lambda>s.
           if f s then queue_pop L (q, slab) else Ok (None, q, slab)))"

section \<open>What a queue stands for\<close>

fun linked :: "link \<Rightarrow> slab \<Rightarrow> key list \<Rightarrow> bool" where
  "linked L slab [] = True"
| "linked L slab (k # ks) =
     ((\<exists>s. slab (key_index k) = Some s \<and> sl_id s = key_stream_id k \<and> l_queued L s
         \<and> l_next L s = (case ks of [] \<Rightarrow> None | k' # _ \<Rightarrow> Some k'))
      \<and> linked L slab ks)"

definition queue_rep :: "link \<Rightarrow> slab \<Rightarrow> queue \<Rightarrow> key list \<Rightarrow> bool" where
  "queue_rep L slab q ks \<longleftrightarrow>
     linked L slab ks \<and> distinct (map key_index ks)
   \<and> (case q of None \<Rightarrow> ks = [] | Some idxs \<Rightarrow> ks \<noteq> [] \<and> q_head idxs = hd ks \<and> q_tail idxs = last ks)
   \<and> (\<forall>i s. slab i = Some s \<longrightarrow> i \<notin> key_index ` set ks \<longrightarrow> \<not> l_queued L s \<and> l_next L s = None)"

text \<open>The interface of a link: the two fields are independent cells of the stream.\<close>

locale next_link =
  fixes L :: link
  assumes next_set_next: "l_next L (l_set_next L k s) = k"
    and next_set_queued: "l_next L (l_set_queued L v s) = l_next L s"
    and queued_set_next: "l_queued L (l_set_next L k s) = l_queued L s"
    and queued_set_queued: "l_queued L (l_set_queued L v s) = v"
    and id_set_next: "sl_id (l_set_next L k s) = sl_id s"
    and id_set_queued: "sl_id (l_set_queued L v s) = sl_id s"
begin

lemmas link_simps = next_set_next next_set_queued queued_set_next queued_set_queued id_set_next id_set_queued

end

lemma linked_cong:
  "(\<And>k. k \<in> set ks \<Longrightarrow> slab (key_index k) = slab' (key_index k)) \<Longrightarrow> linked L slab ks \<longleftrightarrow> linked L slab' ks"
  by (induction ks) auto

lemma linked_upd: "key_index k \<notin> key_index ` set ks \<Longrightarrow> linked L (slab(key_index k := s)) ks \<longleftrightarrow> linked L slab ks"
  by (rule linked_cong) (metis fun_upd_other image_eqI)

lemma linked_mem:
  "linked L slab ks \<Longrightarrow> k \<in> set ks \<Longrightarrow> \<exists>s. slab (key_index k) = Some s \<and> sl_id s = key_stream_id k \<and> l_queued L s"
  by (induction ks) auto

lemma store_index_Ok:
  "store_index slab k = Ok s \<longleftrightarrow> slab (key_index k) = Some s \<and> sl_id s = key_stream_id k"
  by (auto simp: store_index_def split: option.splits)

lemma linked_snoc:
  assumes "linked L slab ks" "distinct (map key_index ks)" "ks \<noteq> []" "key_index k \<notin> key_index ` set ks"
    "slab (key_index (last ks)) = Some t" "slab (key_index k) = Some s" "sl_id s = key_stream_id k"
    "l_queued L s" "l_next L s = None"
    "l_next L t' = Some k" "l_queued L t' = l_queued L t" "sl_id t' = sl_id t"
  shows "linked L (slab(key_index (last ks) \<mapsto> t')) (ks @ [k])"
  using assms
proof (induction ks)
  case (Cons x ks)
  show ?case
  proof (cases ks)
    case Nil
    with Cons show ?thesis by auto
  next
    case (Cons y ys)
    with Cons.prems have "key_index (last ks) \<in> key_index ` set ks" by simp
    with Cons.prems have "key_index x \<noteq> key_index (last ks)" by auto
    with Cons.IH Cons.prems Cons show ?thesis by auto
  qed
qed simp

text \<open>What another link sees of a stream.\<close>

definition link_view :: "link \<Rightarrow> stream_links \<Rightarrow> stream_id \<times> bool \<times> key option" where
  "link_view L s = (sl_id s, l_queued L s, l_next L s)"

definition untouched :: "link \<Rightarrow> slab \<Rightarrow> slab \<Rightarrow> bool" where
  "untouched L slab slab' \<longleftrightarrow> (\<forall>i. map_option (link_view L) (slab i) = map_option (link_view L) (slab' i))"

definition link_indep :: "link \<Rightarrow> link \<Rightarrow> bool" where
  "link_indep L L' \<longleftrightarrow> (\<forall>k s. link_view L' (l_set_next L k s) = link_view L' s)
     \<and> (\<forall>v s. link_view L' (l_set_queued L v s) = link_view L' s)"

lemma untouched_refl: "untouched L slab slab"
  by (simp add: untouched_def)

lemma untouched_upd:
  "untouched L slab slab' \<Longrightarrow> slab' i = Some s \<Longrightarrow> link_view L s' = link_view L s \<Longrightarrow> untouched L slab (slab'(i \<mapsto> s'))"
  by (auto simp: untouched_def)

lemma untouched_upd1:
  "slab i = Some s \<Longrightarrow> link_view L s' = link_view L s \<Longrightarrow> untouched L slab (slab(i \<mapsto> s'))"
  by (auto simp: untouched_def)

lemma untouched_Some:
  assumes "untouched L slab slab'" "slab i = Some s"
  obtains s' where "slab' i = Some s'" "link_view L s' = link_view L s"
  using assms unfolding untouched_def by (metis map_option_eq_Some)

lemma untouched_sym: "untouched L slab slab' \<Longrightarrow> untouched L slab' slab"
  by (simp add: untouched_def)

lemma linked_untouched: "untouched L slab slab' \<Longrightarrow> linked L slab ks \<Longrightarrow> linked L slab' ks"
proof (induction ks)
  case (Cons k ks)
  then obtain s where s: "slab (key_index k) = Some s" "sl_id s = key_stream_id k" "l_queued L s"
    "l_next L s = (case ks of [] \<Rightarrow> None | k' # _ \<Rightarrow> Some k')" by auto
  from untouched_Some [OF Cons.prems(1) s(1)] obtain s' where
    "slab' (key_index k) = Some s'" "link_view L s' = link_view L s" .
  with s Cons show ?case by (auto simp: link_view_def)
qed simp

lemma queue_rep_untouched:
  assumes "untouched L slab slab'" "queue_rep L slab q ks"
  shows "queue_rep L slab' q ks"
proof -
  have "\<not> l_queued L s' \<and> l_next L s' = None" if "slab' i = Some s'" "i \<notin> key_index ` set ks" for i s'
  proof -
    from untouched_Some [OF untouched_sym [OF assms(1)] that(1)] obtain s where
      "slab i = Some s" "link_view L s = link_view L s'" .
    with assms(2) that(2) show ?thesis by (auto simp: queue_rep_def link_view_def)
  qed
  then show ?thesis using assms(2) linked_untouched [OF assms(1)] by (auto simp: queue_rep_def)
qed

lemma queue_rep_queued:
  assumes "queue_rep L slab q ks" "store_index slab k = Ok s"
  shows "l_queued L s \<longleftrightarrow> k \<in> set ks" "l_queued L s \<longleftrightarrow> key_index k \<in> key_index ` set ks"
proof -
  have "k \<in> set ks" if "key_index k \<in> key_index ` set ks"
  proof -
    from that obtain k' where k': "k' \<in> set ks" "key_index k' = key_index k" by auto
    with assms linked_mem [of L slab ks k'] have "key_stream_id k' = key_stream_id k"
      by (auto simp: queue_rep_def store_index_Ok)
    with k' have "k' = k" by (intro key.equality) simp_all
    with k' show ?thesis by simp
  qed
  with assms linked_mem [of L slab ks k]
  show "l_queued L s \<longleftrightarrow> k \<in> set ks" "l_queued L s \<longleftrightarrow> key_index k \<in> key_index ` set ks"
    by (auto simp: queue_rep_def store_index_Ok)
qed

context next_link
begin

lemma push_rep:
  assumes rep: "queue_rep L slab q ks" and k: "store_index slab k = Ok s"
    and nq: "\<not> l_queued L s" and guard: "l_guard L s"
  shows "\<exists>q' slab'. queue_push L k (q, slab) = Ok (True, q', slab') \<and> queue_rep L slab' q' (ks @ [k])
    \<and> (\<forall>L'. link_indep L L' \<longrightarrow> untouched L' slab slab')"
proof -
  note kq = queue_rep_queued [OF rep k]
  have ki: "key_index k \<notin> key_index ` set ks" using kq nq by simp
  have ks: "slab (key_index k) = Some s" "sl_id s = key_stream_id k" using k by (simp_all add: store_index_Ok)
  have nn: "l_next L s = None" using rep ki ks(1) by (auto simp: queue_rep_def)
  let ?s = "l_set_queued L True s" and ?slab = "slab(key_index k \<mapsto> l_set_queued L True s)"
  have lk: "linked L ?slab ks" "distinct (map key_index ks)" using rep ki by (simp_all add: queue_rep_def linked_upd)
  have un1: "untouched L' slab ?slab" if "link_indep L L'" for L'
    using that ks by (intro untouched_upd1 [of slab, OF ks(1)]) (simp add: link_indep_def)
  show ?thesis
  proof (cases q)
    case None
    with rep have "ks = []" by (simp add: queue_rep_def)
    with None rep ks nq nn k guard un1 show ?thesis
      by (auto simp: queue_push_def Let_def store_set_def queue_rep_def link_simps)
  next
    case (Some idxs)
    with rep have ne: "ks \<noteq> []" and idx: "q_head idxs = hd ks" "q_tail idxs = last ks" by (auto simp: queue_rep_def)
    have ltk: "key_index (last ks) \<in> key_index ` set ks" using ne by simp
    obtain t where t: "?slab (key_index (last ks)) = Some t" "sl_id t = key_stream_id (last ks)"
      using linked_mem [OF lk(1), of "last ks"] ne by auto
    let ?slab2 = "?slab(key_index (last ks) \<mapsto> l_set_next L (Some k) t)"
    have "queue_push L k (q, slab) = Ok (True, Some (idxs\<lparr>q_tail := k\<rparr>), ?slab2)"
      using Some k nq guard nn t idx by (simp add: queue_push_def Let_def store_set_def link_simps store_index_def)
    moreover have "linked L ?slab2 (ks @ [k])"
      by (rule linked_snoc [OF lk ne ki t(1), where s = ?s]) (use ks nn in \<open>simp_all add: link_simps\<close>)
    moreover have "\<not> l_queued L s' \<and> l_next L s' = None"
      if "?slab2 i = Some s'" "i \<notin> key_index ` set (ks @ [k])" for i s'
      using that rep ltk by (auto simp: queue_rep_def split: if_splits)
    ultimately have "queue_push L k (q, slab) = Ok (True, Some (idxs\<lparr>q_tail := k\<rparr>), ?slab2)
        \<and> queue_rep L ?slab2 (Some (idxs\<lparr>q_tail := k\<rparr>)) (ks @ [k])"
      using lk ki ne idx by (auto simp: queue_rep_def)
    moreover have "untouched L' slab ?slab2" if "link_indep L L'" for L'
      using that by (intro untouched_upd [of _ slab ?slab, OF un1 [OF that] t(1)]) (simp add: link_indep_def)
    ultimately show ?thesis by blast
  qed
qed

lemma push_queued:
  assumes "queue_rep L slab q ks" "store_index slab k = Ok s" "l_queued L s"
  shows "queue_push L k (q, slab) = Ok (False, q, slab)" "queue_push_front L k (q, slab) = Ok (False, q, slab)"
  using assms by (simp_all add: queue_push_def queue_push_front_def)

lemma push_front_rep:
  assumes rep: "queue_rep L slab q ks" and k: "store_index slab k = Ok s"
    and nq: "\<not> l_queued L s" and guard: "l_guard L s"
  shows "\<exists>q' slab'. queue_push_front L k (q, slab) = Ok (True, q', slab') \<and> queue_rep L slab' q' (k # ks)
    \<and> (\<forall>L'. link_indep L L' \<longrightarrow> untouched L' slab slab')"
proof -
  note kq = queue_rep_queued [OF rep k]
  have ki: "key_index k \<notin> key_index ` set ks" using kq nq by simp
  have ks: "slab (key_index k) = Some s" "sl_id s = key_stream_id k" using k by (simp_all add: store_index_Ok)
  have nn: "l_next L s = None" using rep ki ks(1) by (auto simp: queue_rep_def)
  let ?s = "l_set_queued L True s"
  let ?s2 = "case ks of [] \<Rightarrow> ?s | h # _ \<Rightarrow> l_set_next L (Some h) ?s"
  let ?slab = "slab(key_index k \<mapsto> ?s2)"
  let ?q = "Some \<lparr>q_head = k, q_tail = last (k # ks)\<rparr>"
  have "queue_push_front L k (q, slab) = Ok (True, ?q, ?slab)"
    using rep k nq guard nn
    by (cases ks; cases q) (auto simp: queue_push_front_def queue_rep_def Let_def store_set_def link_simps)
  moreover have "queue_rep L ?slab ?q (k # ks)"
    using rep ki ks nn by (auto simp: queue_rep_def linked_upd link_simps split: list.splits)
  moreover have "untouched L' slab ?slab" if "link_indep L L'" for L'
    using that ks by (intro untouched_upd1 [of slab, OF ks(1)]) (auto simp: link_indep_def split: list.splits)
  ultimately show ?thesis by blast
qed

lemma pop_rep:
  assumes rep: "queue_rep L slab q ks"
  shows "\<exists>q' slab'. queue_pop L (q, slab) = Ok (case ks of [] \<Rightarrow> None | k # _ \<Rightarrow> Some k, q', slab')
    \<and> queue_rep L slab' q' (tl ks) \<and> (\<forall>L'. link_indep L L' \<longrightarrow> untouched L' slab slab')"
proof (cases ks)
  case Nil
  with rep have "q = None" by (simp add: queue_rep_def split: option.splits)
  with Nil rep show ?thesis by (auto simp: queue_pop_def untouched_refl)
next
  case (Cons k ks')
  from rep Cons obtain s where s: "slab (key_index k) = Some s" "sl_id s = key_stream_id k" "l_queued L s"
    "l_next L s = (case ks' of [] \<Rightarrow> None | k' # _ \<Rightarrow> Some k')" by (auto simp: queue_rep_def)
  from rep Cons obtain idxs where q: "q = Some idxs" "q_head idxs = k" "q_tail idxs = last ks"
    by (auto simp: queue_rep_def split: option.splits)
  have ki: "key_index k \<notin> key_index ` set ks'" using rep Cons by (auto simp: queue_rep_def)
  let ?s1 = "if ks' = [] then s else l_set_next L None s"
  let ?slab = "slab(key_index k \<mapsto> l_set_queued L False ?s1)"
  let ?q = "case ks' of [] \<Rightarrow> None | k' # _ \<Rightarrow> Some (idxs\<lparr>q_head := k'\<rparr>)"
  have kl: "k = last ks \<longleftrightarrow> ks' = []" using ki Cons by (metis image_eqI last.simps last_in_set)
  have "queue_pop L (q, slab) = Ok (Some k, ?q, ?slab)"
    using q s kl by (auto simp: queue_pop_def store_index_def store_set_def link_simps split: list.splits)
  moreover have "queue_rep L ?slab ?q (tl ks)"
    using rep Cons q ki s(4) by (auto simp: queue_rep_def linked_upd link_simps split: list.splits if_splits)
  moreover have "untouched L' slab ?slab" if "link_indep L L'" for L'
    using that s by (intro untouched_upd1 [of slab, OF s(1)]) (auto simp: link_indep_def)
  ultimately show ?thesis using Cons by auto
qed

end

section \<open>The six queues of a connection\<close>

lemmas link_defs = NextSend_def NextSendCapacity_def NextOpen_def NextAccept_def NextComplete_def NextResetExpire_def

interpretation send: next_link NextSend
  by unfold_locales (simp_all add: link_defs)

interpretation capacity: next_link NextSendCapacity
  by unfold_locales (simp_all add: link_defs)

interpretation to_open: next_link NextOpen
  by unfold_locales (simp_all add: link_defs)

interpretation accept: next_link NextAccept
  by unfold_locales (simp_all add: link_defs)

interpretation complete: next_link NextComplete
  by unfold_locales (simp_all add: link_defs)

interpretation expire: next_link "NextResetExpire now" for now
  by unfold_locales (simp_all add: link_defs)

datatype queue_id = QSend | QCapacity | QOpen | QAccept | QComplete | QResetExpire

fun link_of :: "nat \<Rightarrow> queue_id \<Rightarrow> link" where
  "link_of now QSend = NextSend"
| "link_of now QCapacity = NextSendCapacity"
| "link_of now QOpen = NextOpen"
| "link_of now QAccept = NextAccept"
| "link_of now QComplete = NextComplete"
| "link_of now QResetExpire = NextResetExpire now"

lemma next_link_of: "next_link (link_of now i)"
  by (cases i) (simp_all add: send.next_link_axioms capacity.next_link_axioms to_open.next_link_axioms
      accept.next_link_axioms complete.next_link_axioms expire.next_link_axioms)

lemma link_of_indep: "i \<noteq> j \<Longrightarrow> link_indep (link_of now i) (link_of now' j)"
  by (cases i; cases j) (simp_all add: link_indep_def link_view_def link_defs)

lemma queue_rep_link_of: "queue_rep (link_of now i) slab q ks \<longleftrightarrow> queue_rep (link_of now' i) slab q ks"
proof (cases i)
  case QResetExpire
  have "linked (NextResetExpire now) slab ks \<longleftrightarrow> linked (NextResetExpire now') slab ks"
    by (induction ks) (auto simp: NextResetExpire_def)
  with QResetExpire show ?thesis by (simp add: queue_rep_def) (simp add: NextResetExpire_def)
qed auto

text \<open>
  Steps of the queues, each with the reading of the clock: on the store, and on six lists of keys.
  A stream is never in the queue to be opened and in the queue to send at once; the assertions of
  \<open>set_queued\<close> say so.
\<close>

datatype queue_op = QPush nat queue_id key | QPushFront nat queue_id key | QPop nat queue_id

datatype queue_out = Pushed bool | Popped "key option"

definition q_guard :: "(queue_id \<Rightarrow> key list) \<Rightarrow> queue_id \<Rightarrow> key \<Rightarrow> bool" where
  "q_guard qs i k \<longleftrightarrow>
     (case i of QSend \<Rightarrow> k \<notin> set (qs QOpen) | QOpen \<Rightarrow> k \<notin> set (qs QSend) | _ \<Rightarrow> True)"

fun abs_queue_step ::
  "queue_op \<Rightarrow> (queue_id \<Rightarrow> key list) \<Rightarrow> (queue_out \<times> (queue_id \<Rightarrow> key list), unit) result" where
  "abs_queue_step (QPush now i k) qs =
     (if k \<in> set (qs i) then Ok (Pushed False, qs)
      else if \<not> q_guard qs i k then Panic else Ok (Pushed True, qs(i := qs i @ [k])))"
| "abs_queue_step (QPushFront now i k) qs =
     (if k \<in> set (qs i) then Ok (Pushed False, qs)
      else if \<not> q_guard qs i k then Panic else Ok (Pushed True, qs(i := k # qs i)))"
| "abs_queue_step (QPop now i) qs =
     Ok (Popped (case qs i of [] \<Rightarrow> None | k # _ \<Rightarrow> Some k), qs(i := tl (qs i)))"

fun queue_step ::
  "queue_op \<Rightarrow> (queue_id \<Rightarrow> queue) \<times> slab \<Rightarrow> (queue_out \<times> (queue_id \<Rightarrow> queue) \<times> slab, unit) result" where
  "queue_step (QPush now i k) (Q, slab) =
     map_ok (\<lambda>(r, q, slab'). (Pushed r, Q(i := q), slab')) (queue_push (link_of now i) k (Q i, slab))"
| "queue_step (QPushFront now i k) (Q, slab) =
     map_ok (\<lambda>(r, q, slab'). (Pushed r, Q(i := q), slab')) (queue_push_front (link_of now i) k (Q i, slab))"
| "queue_step (QPop now i) (Q, slab) =
     map_ok (\<lambda>(r, q, slab'). (Popped r, Q(i := q), slab')) (queue_pop (link_of now i) (Q i, slab))"

definition queues_rep :: "(queue_id \<Rightarrow> queue) \<times> slab \<Rightarrow> (queue_id \<Rightarrow> key list) \<Rightarrow> bool" where
  "queues_rep = (\<lambda>(Q, slab) qs. \<forall>i. queue_rep (link_of 0 i) slab (Q i) (qs i))"

text \<open>The keys an operation names are keys of the store (a dangling key panics).\<close>

definition valid_key :: "slab \<Rightarrow> key \<Rightarrow> bool" where
  "valid_key slab k \<longleftrightarrow> (\<exists>s. store_index slab k = Ok s)"

fun op_valid :: "slab \<Rightarrow> queue_op \<Rightarrow> bool" where
  "op_valid slab (QPush now i k) = valid_key slab k"
| "op_valid slab (QPushFront now i k) = valid_key slab k"
| "op_valid slab (QPop now i) = True"

lemma queues_rep_update:
  assumes rep: "queues_rep (Q, slab) qs" and new: "queue_rep (link_of now i) slab' q ks"
    and un: "\<forall>L'. link_indep (link_of now i) L' \<longrightarrow> untouched L' slab slab'"
  shows "queues_rep (Q(i := q), slab') (qs(i := ks))"
  unfolding queues_rep_def prod.case
proof
  fix j
  show "queue_rep (link_of 0 j) slab' ((Q(i := q)) j) ((qs(i := ks)) j)"
  proof (cases "j = i")
    case True
    with new queue_rep_link_of [of now i slab' q ks 0] show ?thesis by simp
  next
    case False
    then have "untouched (link_of 0 j) slab slab'" using un link_of_indep by auto
    with rep False show ?thesis by (auto simp: queues_rep_def intro: queue_rep_untouched)
  qed
qed

lemma l_guard_iff:
  assumes "queues_rep (Q, slab) qs" "store_index slab k = Ok s"
  shows "l_guard (link_of now i) s \<longleftrightarrow> q_guard qs i k"
proof -
  have "is_pending_open s \<longleftrightarrow> k \<in> set (qs QOpen)" "is_pending_send s \<longleftrightarrow> k \<in> set (qs QSend)"
    using queue_rep_queued(1) [OF _ assms(2), of "link_of 0 QOpen" "Q QOpen" "qs QOpen"]
      queue_rep_queued(1) [OF _ assms(2), of "link_of 0 QSend" "Q QSend" "qs QSend"] assms(1)
    by (simp_all add: queues_rep_def link_defs) (metis link_of.simps NextOpen_def NextSend_def)+
  then show ?thesis by (cases i) (simp_all add: q_guard_def link_defs)
qed

lemma queue_step_refines:
  assumes rep: "queues_rep (Q, slab) qs" and valid: "op_valid slab op"
  shows "case abs_queue_step op qs of
      Ok (r, qs') \<Rightarrow> \<exists>Q' slab'. queue_step op (Q, slab) = Ok (r, Q', slab') \<and> queues_rep (Q', slab') qs'
    | Err e \<Rightarrow> False
    | Panic \<Rightarrow> queue_step op (Q, slab) = Panic"
proof -
  have repi: "queue_rep (link_of now i) slab (Q i) (qs i)" for now i
    using rep queue_rep_link_of [of now i slab "Q i" "qs i" 0] by (auto simp: queues_rep_def)
  show ?thesis
  proof (cases op)
    case (QPush now i k)
    with valid obtain s where s: "store_index slab k = Ok s" by (auto simp: valid_key_def)
    note q = queue_rep_queued(1) [OF repi s, of now i] and g = l_guard_iff [OF rep s, of now i]
    note lk = next_link_of [of now i]
    show ?thesis
    proof (cases "l_queued (link_of now i) s")
      case True
      with next_link.push_queued(1) [OF lk repi s] q QPush rep show ?thesis by (simp add: fun_upd_idem)
    next
      case nq: False
      show ?thesis
      proof (cases "l_guard (link_of now i) s")
        case True
        from next_link.push_rep [OF lk repi s nq True] obtain q' slab' where
          "queue_push (link_of now i) k (Q i, slab) = Ok (True, q', slab')"
          "queue_rep (link_of now i) slab' q' (qs i @ [k])"
          "\<forall>L'. link_indep (link_of now i) L' \<longrightarrow> untouched L' slab slab'" by blast
        with queues_rep_update [OF rep this(2,3)] q nq g True QPush show ?thesis by simp
      qed (use nq q g QPush s in \<open>simp add: queue_push_def\<close>)
    qed
  next
    case (QPushFront now i k)
    with valid obtain s where s: "store_index slab k = Ok s" by (auto simp: valid_key_def)
    note q = queue_rep_queued(1) [OF repi s, of now i] and g = l_guard_iff [OF rep s, of now i]
    note lk = next_link_of [of now i]
    show ?thesis
    proof (cases "l_queued (link_of now i) s")
      case True
      with next_link.push_queued(2) [OF lk repi s] q QPushFront rep show ?thesis by (simp add: fun_upd_idem)
    next
      case nq: False
      show ?thesis
      proof (cases "l_guard (link_of now i) s")
        case True
        from next_link.push_front_rep [OF lk repi s nq True] obtain q' slab' where
          "queue_push_front (link_of now i) k (Q i, slab) = Ok (True, q', slab')"
          "queue_rep (link_of now i) slab' q' (k # qs i)"
          "\<forall>L'. link_indep (link_of now i) L' \<longrightarrow> untouched L' slab slab'" by blast
        with queues_rep_update [OF rep this(2,3)] q nq g True QPushFront show ?thesis by simp
      qed (use nq q g QPushFront s in \<open>simp add: queue_push_front_def\<close>)
    qed
  next
    case (QPop now i)
    from next_link.pop_rep [OF next_link_of repi, of now i] obtain q' slab' where
      "queue_pop (link_of now i) (Q i, slab) = Ok (case qs i of [] \<Rightarrow> None | k # _ \<Rightarrow> Some k, q', slab')"
      "queue_rep (link_of now i) slab' q' (tl (qs i))"
      "\<forall>L'. link_indep (link_of now i) L' \<longrightarrow> untouched L' slab slab'" by blast
    with queues_rep_update [OF rep this(2,3)] QPop show ?thesis by simp
  qed
qed

end
