(* ===== verification/Proto_Control.thy ===== *)
theory Proto_Control
  imports Frame_Settings
begin

text \<open>
  The connection's own handlers: SETTINGS exchange (\<open>proto/settings.rs\<close>), PING and PONG
  (\<open>proto/ping_pong.rs\<close>) and the sending of GOAWAY (\<open>proto/go_away.rs\<close>). What a handler writes
  is the list of frames it buffers in the codec; \<open>ready\<close> says whether \<open>Codec::poll_ready\<close> lets it.
  The outcome of a poll is \<open>Ready\<close>, \<open>Pending\<close>, or an error.
\<close>

datatype 'a poll = Pending | Ready 'a

datatype control_frame = CfSettings settings | CfPing ping_frame | CfGoAway go_away_frame

section \<open>SETTINGS\<close>

datatype local_settings = ToSend settings | WaitingAck settings | Synced

record settings_handler =
  sh_local :: local_settings
  sh_remote :: "settings option"

datatype settings_action = SettingsOk | ApplyLocal settings

definition settings_handler_new :: "settings \<Rightarrow> settings_handler" where
  "settings_handler_new loc = \<lparr>sh_local = WaitingAck loc, sh_remote = None\<rparr>"

definition settings_handler_recv ::
  "settings \<Rightarrow> settings_handler \<Rightarrow> (settings_action \<times> settings_handler, proto_error) result" where
  "settings_handler_recv frame h =
     (if settings_is_ack frame then
        (case sh_local h of
           WaitingAck s \<Rightarrow> Ok (ApplyLocal s, h\<lparr>sh_local := Synced\<rparr>)
         | _ \<Rightarrow> Err (library_go_away PROTOCOL_ERROR))
      else Ok (SettingsOk, h\<lparr>sh_remote := Some frame\<rparr>))"

text \<open>
  \<open>poll_remote_settings\<close>: the acknowledgement is buffered, then the settings are applied, first to
  the streams (\<open>apply\<close>, which may fail) and then to the codec's send side. An error of \<open>apply\<close> leaves
  the settings pending.
\<close>

record codec_send =
  send_header_table_size :: "nat option"
  max_send_frame_size :: nat

definition poll_remote_settings ::
  "bool \<Rightarrow> (settings \<Rightarrow> 'st \<Rightarrow> (unit, proto_error) result \<times> 'st) \<Rightarrow> settings_handler \<Rightarrow> codec_send \<Rightarrow> 'st \<Rightarrow>
     (unit, proto_error) result poll \<times> control_frame list \<times> settings_handler \<times> codec_send \<times> 'st" where
  "poll_remote_settings ready apply_remote h codec streams =
     (case sh_remote h of
        None \<Rightarrow> (Ready (Ok ()), [], h, codec, streams)
      | Some s \<Rightarrow>
          if \<not> ready then (Pending, [], h, codec, streams)
          else
            (case apply_remote s streams of
               (Ok _, streams1) \<Rightarrow>
                 let codec1 = (case s_header_table_size s of
                                 Some v \<Rightarrow> codec\<lparr>send_header_table_size := Some (unat v)\<rparr> | None \<Rightarrow> codec);
                     codec2 = (case s_max_frame_size s of
                                 Some v \<Rightarrow> codec1\<lparr>max_send_frame_size := unat v\<rparr> | None \<Rightarrow> codec1) in
                 (Ready (Ok ()), [CfSettings settings_ack], h\<lparr>sh_remote := None\<rparr>, codec2, streams1)
             | (Err er, streams1) \<Rightarrow> (Ready (Err er), [CfSettings settings_ack], h, codec, streams1)
             | (Panic, streams1) \<Rightarrow> (Ready Panic, [CfSettings settings_ack], h, codec, streams1)))"

definition poll_local_settings ::
  "bool \<Rightarrow> settings_handler \<Rightarrow> unit poll \<times> control_frame list \<times> settings_handler" where
  "poll_local_settings ready h =
     (case sh_local h of
        ToSend s \<Rightarrow>
          if \<not> ready then (Pending, [], h)
          else (Ready (), [CfSettings s], h\<lparr>sh_local := WaitingAck s\<rparr>)
      | _ \<Rightarrow> (Ready (), [], h))"

section \<open>PING\<close>

record pending_ping =
  pp_payload :: bytes
  pp_sent :: bool

record ping_handler =
  ph_pending_ping :: "pending_ping option"
  ph_pending_pong :: "bytes option"

datatype ping_action = MustAck | Unknown | Shutdown

definition ping_handler_new :: ping_handler where
  "ping_handler_new = \<lparr>ph_pending_ping = None, ph_pending_pong = None\<rparr>"

definition ping_handle :: "ping_frame \<Rightarrow> ping_handler \<Rightarrow> ping_action \<times> ping_handler" where
  "ping_handle ping h =
     (if \<not> ping_ack ping then (MustAck, h\<lparr>ph_pending_pong := Some (ping_payload ping)\<rparr>)
      else case ph_pending_ping h of
        Some pending \<Rightarrow>
          if pp_payload pending = SHUTDOWN_PAYLOAD then (Shutdown, h\<lparr>ph_pending_ping := None\<rparr>)
          else (Unknown, h\<lparr>ph_pending_ping := Some pending\<rparr>)
      | None \<Rightarrow> (Unknown, h))"

text \<open>\<open>poll_pending\<close> asks twice whether the codec is ready: for the PONG and for the PING.\<close>

definition ping_poll_pending ::
  "bool \<Rightarrow> bool \<Rightarrow> ping_handler \<Rightarrow> unit poll \<times> control_frame list \<times> ping_handler" where
  "ping_poll_pending ready1 ready2 h =
     (if ph_pending_pong h \<noteq> None \<and> \<not> ready1 then (Pending, [], h)
      else
        let pong = (case ph_pending_pong h of None \<Rightarrow> [] | Some p \<Rightarrow> [CfPing (ping_pong p)]);
            h1 = h\<lparr>ph_pending_pong := None\<rparr> in
        case ph_pending_ping h1 of
          Some pending \<Rightarrow>
            if pp_sent pending then (Ready (), pong, h1)
            else if \<not> ready2 then (Pending, pong, h1)
            else (Ready (), pong @ [CfPing (ping_new (pp_payload pending))],
                  h1\<lparr>ph_pending_ping := Some (pending\<lparr>pp_sent := True\<rparr>)\<rparr>)
        | None \<Rightarrow> (Ready (), pong, h1))"

definition ping_shutdown :: "ping_handler \<Rightarrow> (ping_handler, unit) result" where
  "ping_shutdown h =
     (if ph_pending_ping h \<noteq> None then Panic
      else Ok (h\<lparr>ph_pending_ping := Some \<lparr>pp_payload = SHUTDOWN_PAYLOAD, pp_sent = False\<rparr>\<rparr>))"

definition send_ping :: "bytes \<Rightarrow> ping_handler \<Rightarrow> ping_handler" where
  "send_ping payload h = h\<lparr>ph_pending_ping := Some \<lparr>pp_payload = payload, pp_sent = False\<rparr>\<rparr>"

definition pending_ping_payload :: "ping_handler \<Rightarrow> bytes option \<times> ping_handler" where
  "pending_ping_payload h = (map_option pp_payload (ph_pending_ping h), h\<lparr>ph_pending_ping := None\<rparr>)"

section \<open>GOAWAY\<close>

record going_away =
  gng_last_processed_id :: stream_id
  gng_reason :: reason

record go_away_handler =
  gh_close_now :: bool
  gh_going_away :: "going_away option"
  gh_is_user_initiated :: bool
  gh_pending :: "go_away_frame option"

definition go_away_handler_new :: go_away_handler where
  "go_away_handler_new = \<lparr>gh_close_now = False, gh_going_away = None,
     gh_is_user_initiated = False, gh_pending = None\<rparr>"

definition enqueue_go_away :: "go_away_frame \<Rightarrow> go_away_handler \<Rightarrow> (go_away_handler, unit) result" where
  "enqueue_go_away f h =
     (if (case gh_going_away h of Some g \<Rightarrow> ga_last_stream_id f > gng_last_processed_id g | None \<Rightarrow> False)
      then Panic
      else Ok (h\<lparr>gh_going_away := Some \<lparr>gng_last_processed_id = ga_last_stream_id f,
                                       gng_reason = ga_error_code f\<rparr>,
                gh_pending := Some f\<rparr>))"

definition go_away_now :: "go_away_frame \<Rightarrow> go_away_handler \<Rightarrow> (go_away_handler, unit) result" where
  "go_away_now f h =
     (let h1 = h\<lparr>gh_close_now := True\<rparr> in
      if (case gh_going_away h1 of
            Some g \<Rightarrow> gng_last_processed_id g = ga_last_stream_id f \<and> gng_reason g = ga_error_code f
          | None \<Rightarrow> False)
      then Ok h1 else enqueue_go_away f h1)"

definition go_away_from_user :: "go_away_frame \<Rightarrow> go_away_handler \<Rightarrow> (go_away_handler, unit) result" where
  "go_away_from_user f h = go_away_now f (h\<lparr>gh_is_user_initiated := True\<rparr>)"

definition is_going_away :: "go_away_handler \<Rightarrow> bool" where
  "is_going_away h \<longleftrightarrow> gh_going_away h \<noteq> None"

definition should_close_now :: "go_away_handler \<Rightarrow> bool" where
  "should_close_now h \<longleftrightarrow> gh_pending h = None \<and> gh_close_now h"

definition should_close_on_idle :: "go_away_handler \<Rightarrow> bool" where
  "should_close_on_idle h \<longleftrightarrow> \<not> gh_close_now h
     \<and> (case gh_going_away h of Some g \<Rightarrow> gng_last_processed_id g \<noteq> STREAM_ID_MAX | None \<Rightarrow> False)"

definition send_pending_go_away ::
  "bool \<Rightarrow> go_away_handler \<Rightarrow> reason option poll \<times> control_frame list \<times> go_away_handler" where
  "send_pending_go_away ready h =
     (case gh_pending h of
        Some f \<Rightarrow>
          if \<not> ready then (Pending, [], h)
          else (Ready (Some (ga_error_code f)), [CfGoAway f], h\<lparr>gh_pending := None\<rparr>)
      | None \<Rightarrow>
          if should_close_now h then (Ready (map_option gng_reason (gh_going_away h)), [], h)
          else (Ready None, [], h))"

section \<open>Every SETTINGS frame is acknowledged once, in order\<close>

text \<open>
  The exchange of SETTINGS: a frame of the peer is received only when none is pending, since the
  connection polls the handler before it reads the next frame.
\<close>

text \<open>A trace of the handler: the frames of the peer that are not acknowledgements, and the ones written.\<close>

inductive settings_run :: "settings_handler \<Rightarrow> settings list \<Rightarrow> control_frame list \<Rightarrow> settings_handler \<Rightarrow> bool" where
  sr_init: "settings_run (settings_handler_new loc) [] [] (settings_handler_new loc)"
| sr_recv: "settings_run h0 rs ws h \<Longrightarrow> sh_remote h = None \<Longrightarrow> settings_handler_recv f h = Ok (act, h') \<Longrightarrow>
    settings_run h0 (if settings_is_ack f then rs else rs @ [f]) ws h'"
| sr_remote: "settings_run h0 rs ws h \<Longrightarrow>
    poll_remote_settings ready apply_remote h codec (streams :: unit) = (Ready (Ok ()), out, h', codec', streams') \<Longrightarrow>
    settings_run h0 rs (ws @ out) h'"
| sr_pending: "settings_run h0 rs ws h \<Longrightarrow>
    poll_remote_settings ready apply_remote h codec (streams :: unit) = (Pending, out, h', codec', streams') \<Longrightarrow>
    settings_run h0 rs (ws @ out) h'"
| sr_local: "settings_run h0 rs ws h \<Longrightarrow> poll_local_settings ready h = (p, out, h') \<Longrightarrow>
    settings_run h0 rs (ws @ out) h'"

definition is_ack_frame :: "control_frame \<Rightarrow> bool" where
  "is_ack_frame f \<longleftrightarrow> (case f of CfSettings s \<Rightarrow> s = settings_ack | _ \<Rightarrow> False)"

lemma poll_remote_settings_cases:
  assumes "poll_remote_settings ready apply_remote h codec streams = (r, out, h', codec', streams')"
    "r = Pending \<or> r = Ready (Ok ())"
  shows "sh_local h' = sh_local h \<and> (sh_remote h = None \<and> out = [] \<and> h' = h
    \<or> sh_remote h \<noteq> None \<and> out = [] \<and> h' = h \<and> r = Pending
    \<or> sh_remote h \<noteq> None \<and> out = [CfSettings settings_ack] \<and> sh_remote h' = None)"
  using assms
  by (auto simp: poll_remote_settings_def Let_def split: option.splits if_splits prod.splits result.splits)

lemma settings_run_inv:
  "settings_run h0 rs ws h \<Longrightarrow> (\<forall>s. sh_local h \<noteq> ToSend s) \<and>
     length rs = length (filter is_ack_frame ws) + (case sh_remote h of None \<Rightarrow> 0 | Some _ \<Rightarrow> 1)
   \<and> (\<forall>f \<in> set ws. is_ack_frame f)"
proof (induction rule: settings_run.induct)
  case (sr_recv h0 rs ws h f act h')
  then show ?case
    by (auto simp: settings_handler_recv_def split: if_splits local_settings.splits)
next
  case (sr_remote h0 rs ws h ready apply_remote codec streams out h' codec' streams')
  then show ?case using poll_remote_settings_cases [OF sr_remote.hyps(2)]
    by (auto simp: is_ack_frame_def)
next
  case (sr_pending h0 rs ws h ready apply_remote codec streams out h' codec' streams')
  then show ?case using poll_remote_settings_cases [OF sr_pending.hyps(2)]
    by (auto simp: is_ack_frame_def)
next
  case (sr_local h0 rs ws h ready p out h')
  then show ?case by (auto simp: poll_local_settings_def split: local_settings.splits)
qed (simp add: settings_handler_new_def)

section \<open>GOAWAY frames never raise the last stream identifier\<close>

text \<open>The frames written in a life of the handler, and the one still pending.\<close>

inductive go_away_run :: "go_away_frame list \<Rightarrow> go_away_handler \<Rightarrow> bool" where
  gr_init: "go_away_run [] go_away_handler_new"
| gr_enqueue: "go_away_run ws h \<Longrightarrow> enqueue_go_away f h = Ok h' \<Longrightarrow> go_away_run ws h'"
| gr_now: "go_away_run ws h \<Longrightarrow> go_away_now f h = Ok h' \<Longrightarrow> go_away_run ws h'"
| gr_user: "go_away_run ws h \<Longrightarrow> go_away_from_user f h = Ok h' \<Longrightarrow> go_away_run ws h'"
| gr_send: "go_away_run ws h \<Longrightarrow> send_pending_go_away ready h = (r, out, h') \<Longrightarrow>
    go_away_run (ws @ concat (map (\<lambda>f. case f of CfGoAway g \<Rightarrow> [g] | _ \<Rightarrow> []) out)) h'"

definition go_away_inv :: "go_away_frame list \<Rightarrow> go_away_handler \<Rightarrow> bool" where
  "go_away_inv ws h \<longleftrightarrow>
     sorted_wrt (\<lambda>f g. ga_last_stream_id g \<le> ga_last_stream_id f) (ws @ (case gh_pending h of None \<Rightarrow> [] | Some f \<Rightarrow> [f]))
   \<and> (case gh_going_away h of
        None \<Rightarrow> ws = [] \<and> gh_pending h = None
      | Some g \<Rightarrow> \<forall>f \<in> set ws. gng_last_processed_id g \<le> ga_last_stream_id f)
   \<and> (\<forall>f. gh_pending h = Some f \<longrightarrow> (\<exists>g. gh_going_away h = Some g
        \<and> gng_last_processed_id g = ga_last_stream_id f \<and> gng_reason g = ga_error_code f))"

lemma enqueue_go_away_inv:
  assumes "go_away_inv ws h" "enqueue_go_away f h = Ok h'"
  shows "go_away_inv ws h'"
  using assms
  by (auto simp: go_away_inv_def enqueue_go_away_def sorted_wrt_append not_less
      split: option.splits if_splits) (meson order_trans)+

lemma go_away_now_inv:
  assumes "go_away_inv ws h" "go_away_now f h = Ok h'"
  shows "go_away_inv ws h'"
proof -
  have "go_away_inv ws (h\<lparr>gh_close_now := True\<rparr>)" using assms(1) by (simp add: go_away_inv_def split: option.splits)
  with assms(2) enqueue_go_away_inv show ?thesis
    by (auto simp: go_away_now_def Let_def split: if_splits)
qed

lemma go_away_run_inv: "go_away_run ws h \<Longrightarrow> go_away_inv ws h"
proof (induction rule: go_away_run.induct)
  case gr_init
  show ?case by (simp add: go_away_handler_new_def go_away_inv_def)
next
  case (gr_user ws h f h')
  have "go_away_inv ws (h\<lparr>gh_is_user_initiated := True\<rparr>)" using gr_user.IH by (simp add: go_away_inv_def split: option.splits)
  with gr_user.hyps(2) show ?case unfolding go_away_from_user_def by (rule go_away_now_inv [rotated])
next
  case (gr_send ws h ready r out h')
  then show ?case
    by (auto simp: go_away_inv_def send_pending_go_away_def sorted_wrt_append split: option.splits if_splits)
qed (blast intro: enqueue_go_away_inv go_away_now_inv)+

section \<open>PING\<close>

text \<open>The PONG repeats the payload; the last PING received before the poll is the one answered.\<close>

lemma ping_pong_answer:
  "\<not> ping_ack ping \<Longrightarrow> \<exists>h1. ping_handle ping h = (MustAck, h1)
     \<and> hd (fst (snd (ping_poll_pending True ready2 h1))) = CfPing \<lparr>ping_ack = True, ping_payload = ping_payload ping\<rparr>
     \<and> ph_pending_pong (snd (snd (ping_poll_pending True ready2 h1))) = None"
  by (auto simp: ping_handle_def ping_poll_pending_def ping_pong_def Let_def split: option.splits)

text \<open>
  An acknowledgement completes the shutdown whatever its payload: the handler compares the payload
  of the PING it sent with the shutdown payload, and not with the payload it received.
\<close>

lemma ping_ack_payload_ignored:
  assumes "ping_shutdown h = Ok h1"
  shows "fst (ping_handle \<lparr>ping_ack = True, ping_payload = p\<rparr> h1) = Shutdown"
  using assms by (auto simp: ping_shutdown_def ping_handle_def split: if_splits)

end
