(* ===== verification/Effects.thy ===== *)
theory Effects
  imports Prelude
begin

text \<open>
  Stateful Rust code. A method that takes \<open>&mut self\<close> is a function from the state before to the
  outcome and the state after: what was changed before an \<open>Err\<close> is returned stays changed. This
  theory has the combinators the handlers of the streams layer are written with and the rules to
  reason about them: \<open>spec\<close> relates the states before and after every outcome, \<open>runs\<close> says the same
  and that the action does not panic.
\<close>

section \<open>Actions\<close>

type_synonym ('s, 'a, 'e) act = "'s \<Rightarrow> ('a, 'e) result \<times> 's"

definition ret :: "'a \<Rightarrow> ('s, 'a, 'e) act" where
  "ret x = (\<lambda>s. (Ok x, s))"

definition throw :: "'e \<Rightarrow> ('s, 'a, 'e) act" where
  "throw er = (\<lambda>s. (Err er, s))"

definition panic :: "('s, 'a, 'e) act" where
  "panic = (\<lambda>s. (Panic, s))"

text \<open>\<open>let x = m?; f(x)\<close>, and \<open>m?; n\<close>.\<close>

definition bnd :: "('s, 'a, 'e) act \<Rightarrow> ('a \<Rightarrow> ('s, 'b, 'e) act) \<Rightarrow> ('s, 'b, 'e) act" where
  "bnd m f = (\<lambda>s. case m s of
     (Ok x, s') \<Rightarrow> f x s' | (Err er, s') \<Rightarrow> (Err er, s') | (Panic, s') \<Rightarrow> (Panic, s'))"

definition seq :: "('s, 'a, 'e) act \<Rightarrow> ('s, 'b, 'e) act \<Rightarrow> ('s, 'b, 'e) act" where
  "seq m n = bnd m (\<lambda>_. n)"

text \<open>\<open>let r = m;\<close> with the \<open>Result\<close> kept as a value, as \<open>match\<close>, \<open>let _ =\<close> and \<open>is_err()\<close> need it.\<close>

definition attempt :: "('s, 'a, 'e) act \<Rightarrow> ('s, ('a, 'e) result, 'f) act" where
  "attempt m = (\<lambda>s. case m s of
     (Ok x, s') \<Rightarrow> (Ok (Ok x), s') | (Err er, s') \<Rightarrow> (Ok (Err er), s') | (Panic, s') \<Rightarrow> (Panic, s'))"

definition gets :: "('s \<Rightarrow> 'a) \<Rightarrow> ('s, 'a, 'e) act" where
  "gets f = (\<lambda>s. (Ok (f s), s))"

definition modify :: "('s \<Rightarrow> 's) \<Rightarrow> ('s, unit, 'e) act" where
  "modify f = (\<lambda>s. (Ok (), f s))"

text \<open>\<open>assert!\<close> and \<open>debug_assert!\<close>.\<close>

definition check :: "bool \<Rightarrow> ('s, unit, 'e) act" where
  "check b = (if b then ret () else panic)"

definition if_then :: "bool \<Rightarrow> ('s, unit, 'e) act \<Rightarrow> ('s, unit, 'e) act" where
  "if_then b m = (if b then m else ret ())"

text \<open>A \<open>Result\<close> that was computed, returned or passed on with \<open>?\<close>.\<close>

definition of_result :: "('a, 'e) result \<Rightarrow> ('s, 'a, 'e) act" where
  "of_result r = (\<lambda>s. (r, s))"

text \<open>\<open>map_err\<close> on a call.\<close>

definition on_err :: "('e \<Rightarrow> 'f) \<Rightarrow> ('s, 'a, 'e) act \<Rightarrow> ('s, 'a, 'f) act" where
  "on_err f m = (\<lambda>s. case m s of (r, s') \<Rightarrow> (map_err f r, s'))"

named_theorems act_simps \<open>the effect of the combinators on a state\<close>

lemma bnd_apply [act_simps]:
  "bnd m f s = (case m s of
     (Ok x, s') \<Rightarrow> f x s' | (Err er, s') \<Rightarrow> (Err er, s') | (Panic, s') \<Rightarrow> (Panic, s'))"
  by (simp add: bnd_def)

lemma prim_apply [act_simps, simp]:
  "ret x s = (Ok x, s)" "throw er s = (Err er, s)" "panic s = (Panic, s)"
  "gets f s = (Ok (f s), s)" "modify g s = (Ok (), g s)" "of_result r s = (r, s)"
  by (simp_all add: ret_def throw_def panic_def gets_def modify_def of_result_def)

lemma bnd_simps [simp]:
  "bnd (ret x) f = f x" "bnd (throw er) f = throw er" "bnd panic f = panic"
  "seq (ret x) m = m" "seq (throw er) m = throw er" "seq panic m = panic"
  by (simp_all add: bnd_def seq_def ret_def throw_def panic_def)

lemma bnd_assoc: "bnd (bnd m f) g = bnd m (\<lambda>x. bnd (f x) g)"
  by (rule ext) (simp add: bnd_def split: prod.splits result.splits)

lemma seq_apply [act_simps]:
  "seq m n s = (case m s of
     (Ok x, s') \<Rightarrow> n s' | (Err er, s') \<Rightarrow> (Err er, s') | (Panic, s') \<Rightarrow> (Panic, s'))"
  by (simp add: seq_def bnd_def)

lemma attempt_apply [act_simps]:
  "attempt m s = (case m s of
     (Ok x, s') \<Rightarrow> (Ok (Ok x), s') | (Err er, s') \<Rightarrow> (Ok (Err er), s') | (Panic, s') \<Rightarrow> (Panic, s'))"
  by (simp add: attempt_def)

lemma on_err_apply [act_simps]: "on_err f m s = (case m s of (r, s') \<Rightarrow> (map_err f r, s'))"
  by (simp add: on_err_def)

lemma check_simps [simp]: "check True = ret ()" "check False = panic"
  by (simp_all add: check_def)

lemma if_then_simps [simp]: "if_then True m = m" "if_then False m = ret ()"
  by (simp_all add: if_then_def)

section \<open>Specifications\<close>

text \<open>
  \<open>spec P m R\<close>: from a state of \<open>P\<close>, whatever \<open>m\<close> returns (a panic apart), the outcome and the two
  states are in \<open>R\<close>. \<open>runs P m R\<close>: moreover \<open>m\<close> does not panic.
\<close>

definition spec :: "('s \<Rightarrow> bool) \<Rightarrow> ('s, 'a, 'e) act \<Rightarrow> (('a, 'e) result \<Rightarrow> 's \<Rightarrow> 's \<Rightarrow> bool) \<Rightarrow> bool" where
  "spec P m R \<longleftrightarrow> (\<forall>s. P s \<longrightarrow> fst (m s) \<noteq> Panic \<longrightarrow> R (fst (m s)) s (snd (m s)))"

definition runs :: "('s \<Rightarrow> bool) \<Rightarrow> ('s, 'a, 'e) act \<Rightarrow> (('a, 'e) result \<Rightarrow> 's \<Rightarrow> 's \<Rightarrow> bool) \<Rightarrow> bool" where
  "runs P m R \<longleftrightarrow> (\<forall>s. P s \<longrightarrow> fst (m s) \<noteq> Panic \<and> R (fst (m s)) s (snd (m s)))"

text \<open>The frequent case: a predicate of the state that every outcome keeps.\<close>

definition keeps :: "('s \<Rightarrow> bool) \<Rightarrow> ('s, 'a, 'e) act \<Rightarrow> bool" where
  "keeps I m \<longleftrightarrow> (\<forall>s. I s \<longrightarrow> fst (m s) \<noteq> Panic \<longrightarrow> I (snd (m s)))"

named_theorems keeps_rules \<open>which actions keep a predicate\<close>

lemma keepsI: "(\<And>s r s'. I s \<Longrightarrow> m s = (r, s') \<Longrightarrow> r \<noteq> Panic \<Longrightarrow> I s') \<Longrightarrow> keeps I m"
  by (auto simp: keeps_def) (metis prod.collapse)

lemma keepsD: "keeps I m \<Longrightarrow> I s \<Longrightarrow> m s = (r, s') \<Longrightarrow> r \<noteq> Panic \<Longrightarrow> I s'"
  unfolding keeps_def by (metis fst_conv snd_conv)

lemma keeps_prims [keeps_rules, intro, simp]:
  "keeps I (ret x)" "keeps I (throw er)" "keeps I panic" "keeps I (gets f)" "keeps I (of_result r)"
  "keeps I (check b)"
  by (simp_all add: keeps_def check_def)

lemma keeps_modify: "(\<And>s. I s \<Longrightarrow> I (f s)) \<Longrightarrow> keeps I (modify f)"
  by (simp add: keeps_def)

lemma keeps_bnd [keeps_rules]:
  assumes "keeps I m" "\<And>x. keeps I (f x)"
  shows "keeps I (bnd m f)"
proof (rule keepsI)
  fix s r s' assume I: "I s" and b: "bnd m f s = (r, s')" and r: "r \<noteq> Panic"
  obtain r1 s1 where m: "m s = (r1, s1)" by (cases "m s")
  show "I s'"
  proof (cases r1)
    case (Ok x)
    with b m have f: "f x s1 = (r, s')" by (simp add: bnd_apply)
    from keepsD [OF assms(1) I m] Ok have "I s1" by simp
    from keepsD [OF assms(2) this f r] show ?thesis .
  qed (use b m r keepsD [OF assms(1) I m] in \<open>auto simp: bnd_apply\<close>)
qed

lemma keeps_seq [keeps_rules]: "keeps I m \<Longrightarrow> keeps I n \<Longrightarrow> keeps I (seq m n)"
  by (simp add: seq_def keeps_bnd)

lemma keeps_attempt [keeps_rules]:
  assumes "keeps I m"
  shows "keeps I (attempt m)"
proof (rule keepsI)
  fix s r s' assume I: "I s" and b: "attempt m s = (r, s')" and r: "r \<noteq> Panic"
  obtain r1 s1 where m: "m s = (r1, s1)" by (cases "m s")
  with b r have "s' = s1" "r1 \<noteq> Panic" by (auto simp: attempt_apply split: result.splits)
  with keepsD [OF assms I m] show "I s'" by simp
qed

lemma keeps_on_err [keeps_rules]:
  assumes "keeps I m"
  shows "keeps I (on_err f m)"
proof (rule keepsI)
  fix s r s' assume I: "I s" and b: "on_err f m s = (r, s')" and r: "r \<noteq> Panic"
  obtain r1 s1 where m: "m s = (r1, s1)" by (cases "m s")
  with b r have "s' = s1" "r1 \<noteq> Panic" by (auto simp: on_err_apply)
  with keepsD [OF assms I m] show "I s'" by simp
qed

lemma keeps_if [keeps_rules]: "keeps I m \<Longrightarrow> keeps I n \<Longrightarrow> keeps I (if b then m else n)"
  by simp

lemma keeps_if_then [keeps_rules]: "keeps I m \<Longrightarrow> keeps I (if_then b m)"
  by (simp add: if_then_def)

lemma keeps_case_option [keeps_rules]:
  "keeps I m \<Longrightarrow> (\<And>x. keeps I (f x)) \<Longrightarrow> keeps I (case v of None \<Rightarrow> m | Some x \<Rightarrow> f x)"
  by (cases v) simp_all

lemma keeps_case_result [keeps_rules]:
  "(\<And>x. keeps I (f x)) \<Longrightarrow> (\<And>x. keeps I (g x)) \<Longrightarrow> keeps I m \<Longrightarrow>
     keeps I (case v of Ok x \<Rightarrow> f x | Err x \<Rightarrow> g x | Panic \<Rightarrow> m)"
  by (cases v) simp_all

lemma keeps_case_prod [keeps_rules]:
  "(\<And>x y. keeps I (f x y)) \<Longrightarrow> keeps I (case v of (x, y) \<Rightarrow> f x y)"
  by (cases v) simp

lemma keeps_Let [keeps_rules]: "(\<And>x. keeps I (f x)) \<Longrightarrow> keeps I (Let v f)"
  by simp

lemma runs_weaken:
  "runs P m R \<Longrightarrow> (\<And>s. P' s \<Longrightarrow> P s) \<Longrightarrow> (\<And>r s s'. P' s \<Longrightarrow> r \<noteq> Panic \<Longrightarrow> R r s s' \<Longrightarrow> R' r s s') \<Longrightarrow> runs P' m R'"
  by (auto simp: runs_def)

lemma runsD: "runs P m R \<Longrightarrow> P s \<Longrightarrow> m s = (r, s') \<Longrightarrow> r \<noteq> Panic \<and> R r s s'"
  unfolding runs_def by (metis fst_conv snd_conv)

end
