(* ===== verification/Messages.thy ===== *)
theory Messages
  imports Framed_Read
begin

text \<open>
  HTTP messages and the frames that carry them (\<open>message.rs\<close>, \<open>role.rs\<close>, \<open>Pseudo::request\<close> of
  \<open>frame/headers.rs\<close>, \<open>Protocol\<close> of \<open>ext.rs\<close>). Requests, responses, URIs and header maps are types of
  the crates \<open>http-plz\<close> and \<open>header-plz\<close>: a message is the record of its parts, and the constants,
  parsers and builders of those crates are the record \<open>http\<close>, a parameter.
\<close>

section \<open>Messages\<close>

record uri =
  u_scheme :: "bytes option"
  u_authority :: "bytes option"
  u_path_and_query :: bytes

record ('m, 'h) request =
  rq_method :: 'm
  rq_uri :: uri
  rq_ext :: "bytes option"
  rq_headers :: 'h
  rq_body :: "bytes option"
  rq_trailers :: "'h option"

record ('st, 'h) response =
  rs_status :: 'st
  rs_headers :: 'h
  rs_body :: "bytes option"
  rs_trailers :: "'h option"

text \<open>
  What the sources use of the other crates: methods and a status code by name, \<open>Scheme::try_from\<close>,
  \<open>Uri::builder()\<close> with the parts it was given, the response builder with the status it was given,
  and \<open>HeaderMap::has_key\<close>.
\<close>

record ('m, 'st, 'h) http =
  METHOD_CONNECT :: 'm
  METHOD_HEAD :: 'm
  METHOD_OPTIONS :: 'm
  STATUS_REQUEST_HEADER_FIELDS_TOO_LARGE :: 'st
  SCHEME_HTTP :: bytes
  scheme_try_from :: "bytes \<Rightarrow> bytes option"
  uri_build :: "bytes option \<Rightarrow> bytes option \<Rightarrow> bytes option \<Rightarrow> uri option"
  response_build :: "'st option \<Rightarrow> 'st option"
  hm_has_key :: "bytes \<Rightarrow> 'h \<Rightarrow> bool"

datatype ('m, 'st, 'h) poll_message = PmClient "('st, 'h) response" | PmServer "('m, 'h) request"

section \<open>From messages to frames\<close>

text \<open>\<open>Protocol::try_from\<close>: the bytes must be UTF-8.\<close>

definition protocol_try_from :: "bytes \<Rightarrow> (bytes, unit) result" where
  "protocol_try_from b = (if utf8_valid b then Ok b else Err ())"

definition pseudo_request ::
  "('m, 'st, 'h) http \<Rightarrow> 'm \<Rightarrow> uri \<Rightarrow> bytes option \<Rightarrow> ('m, 'st) pseudo" where
  "pseudo_request W m u protocol =
     (let (scheme, path) =
        (if m = METHOD_CONNECT W \<and> protocol = None then (None, None)
         else (u_scheme u,
               Some (if u_path_and_query u \<noteq> [] then u_path_and_query u
                     else if m = METHOD_OPTIONS W then str ''*'' else str ''/'')))
      in \<lparr>ps_method = Some m, ps_scheme = scheme, ps_authority = u_authority u, ps_path = path,
          ps_protocol = protocol, ps_status = None\<rparr>)"

text \<open>\<open>RequestLine::into_pseudo\<close>: a request with no scheme goes out as \<open>http\<close>.\<close>

definition request_into_pseudo :: "('m, 'st, 'h) http \<Rightarrow> 'm \<Rightarrow> uri \<Rightarrow> bytes option \<Rightarrow> ('m, 'st) pseudo" where
  "request_into_pseudo W m u ext0 =
     (let protocol = Option.bind ext0 (\<lambda>b. case protocol_try_from b of Ok p \<Rightarrow> Some p | _ \<Rightarrow> None);
          p = pseudo_request W m u protocol in
      if ps_scheme p = None \<and> m \<noteq> METHOD_CONNECT W then p\<lparr>ps_scheme := Some (SCHEME_HTTP W)\<rparr> else p)"

record ('m, 'st, 'h) two_two_frame =
  tt_header :: "('m, 'st, 'h) headers_frame"
  tt_data :: "data_frame option"
  tt_trailer :: "('m, 'st, 'h) headers_frame option"

text \<open>
  \<open>TwoTwoFrame::from\<close>: END_STREAM is on the last frame of the message. \<open>frame::Data::new\<close> asserts that
  the stream is not zero.
\<close>

definition two_two_frame_from ::
  "'h hmap \<Rightarrow> stream_id \<Rightarrow> ('m, 'st) pseudo \<Rightarrow> 'h \<Rightarrow> bytes option \<Rightarrow> 'h option \<Rightarrow>
     (('m, 'st, 'h) two_two_frame, 'e) result" where
  "two_two_frame_from H sid p flds body trailers =
     (let header = headers_new H sid p flds in
      if body = None \<and> trailers = None
      then Ok \<lparr>tt_header = headers_set_end_stream header, tt_data = None, tt_trailer = None\<rparr>
      else
        rbind (case body of
                 None \<Rightarrow> Ok None
               | Some b \<Rightarrow> rbind (data_new sid b) (\<lambda>f.
                   Ok (Some (if trailers = None then data_set_end_stream True f else f)))) (\<lambda>d.
        Ok \<lparr>tt_header = header, tt_data = d, tt_trailer = map_option (headers_trailers H sid) trailers\<rparr>))"

definition request_frames ::
  "'h hmap \<Rightarrow> ('m, 'st, 'h) http \<Rightarrow> stream_id \<Rightarrow> ('m, 'h) request \<Rightarrow> (('m, 'st, 'h) two_two_frame, 'e) result" where
  "request_frames H W sid r =
     two_two_frame_from H sid (request_into_pseudo W (rq_method r) (rq_uri r) (rq_ext r))
       (rq_headers r) (rq_body r) (rq_trailers r)"

definition response_frames ::
  "'h hmap \<Rightarrow> stream_id \<Rightarrow> ('st, 'h) response \<Rightarrow> (('m, 'st, 'h) two_two_frame, 'e) result" where
  "response_frames H sid r =
     two_two_frame_from H sid (pseudo_response (rs_status r)) (rs_headers r) (rs_body r) (rs_trailers r)"

section \<open>From header blocks to messages\<close>

text \<open>
  \<open>frames_to_request\<close>: the rules of RFC 9113, section 8.3.1, for the pseudo headers of a request. A
  broken rule is a stream error; \<open>Scheme::try_from\<close> and the URI builder are unwrapped.
\<close>

definition malformed :: "stream_id \<Rightarrow> ('a, proto_error) result" where
  "malformed sid = Err (library_reset sid PROTOCOL_ERROR)"

definition frames_to_request ::
  "('m, 'st, 'h) http \<Rightarrow> ('m, 'st) pseudo \<Rightarrow> 'h \<Rightarrow> stream_id \<Rightarrow> (('m, 'h) request, proto_error) result" where
  "frames_to_request W p flds sid =
     (if ps_status p \<noteq> None then malformed sid
      else case ps_method p of
        None \<Rightarrow> malformed sid
      | Some m \<Rightarrow>
          let is_connect = (m = METHOD_CONNECT W); has_protocol = (ps_protocol p \<noteq> None) in
          if has_protocol \<and> \<not> is_connect then malformed sid
          else
            rbind (case ps_scheme p of
                     Some sch \<Rightarrow>
                       if is_connect \<and> \<not> has_protocol then malformed sid
                       else (case scheme_try_from W sch of
                               None \<Rightarrow> Panic
                             | Some sc \<Rightarrow> Ok (if ps_authority p \<noteq> None then Some sc else None))
                   | None \<Rightarrow> if \<not> is_connect \<or> has_protocol then malformed sid else Ok None) (\<lambda>sc.
            rbind (case ps_path p of
                     Some path \<Rightarrow>
                       if is_connect \<and> \<not> has_protocol then malformed sid
                       else if path = [] then malformed sid
                       else Ok (Some path)
                   | None \<Rightarrow> if is_connect \<and> has_protocol then malformed sid else Ok None) (\<lambda>path.
            case uri_build W sc (ps_authority p) path of
              None \<Rightarrow> Panic
            | Some u \<Rightarrow> Ok \<lparr>rq_method = m, rq_uri = u, rq_ext = ps_protocol p, rq_headers = flds,
                           rq_body = None, rq_trailers = None\<rparr>)))"

definition frames_to_response ::
  "('m, 'st, 'h) http \<Rightarrow> ('m, 'st) pseudo \<Rightarrow> 'h \<Rightarrow> stream_id \<Rightarrow> (('st, 'h) response, proto_error) result" where
  "frames_to_response W p flds sid =
     (case response_build W (ps_status p) of
        None \<Rightarrow> Panic
      | Some s \<Rightarrow> Ok \<lparr>rs_status = s, rs_headers = flds, rs_body = None, rs_trailers = None\<rparr>)"

section \<open>Roles\<close>

datatype role = Client | Server

definition is_server :: "role \<Rightarrow> bool" where "is_server r \<longleftrightarrow> r = Server"
definition is_client :: "role \<Rightarrow> bool" where "is_client r \<longleftrightarrow> r = Client"

definition is_local_init :: "role \<Rightarrow> stream_id \<Rightarrow> (bool, 'e) result" where
  "is_local_init r sid = (if stream_id_is_zero sid then Panic else Ok (is_server r = is_server_initiated sid))"

datatype open_mode = OpenHeaders | OpenPushPromise

definition is_push_promise :: "open_mode \<Rightarrow> bool" where "is_push_promise m \<longleftrightarrow> m = OpenPushPromise"

definition ensure_can_open :: "role \<Rightarrow> stream_id \<Rightarrow> open_mode \<Rightarrow> (unit, proto_error) result" where
  "ensure_can_open r sid mode =
     (if is_server r then
        if is_push_promise mode \<or> \<not> is_client_initiated sid then Err (library_go_away PROTOCOL_ERROR) else Ok ()
      else
        if \<not> is_push_promise mode \<or> \<not> is_server_initiated sid then Err (library_go_away PROTOCOL_ERROR) else Ok ())"

definition convert_poll_message ::
  "('m, 'st, 'h) http \<Rightarrow> role \<Rightarrow> ('m, 'st) pseudo \<Rightarrow> 'h \<Rightarrow> stream_id \<Rightarrow> (('m, 'st, 'h) poll_message, proto_error) result" where
  "convert_poll_message W r p flds sid =
     (case r of
        Server \<Rightarrow> map_ok PmServer (frames_to_request W p flds sid)
      | Client \<Rightarrow> map_ok PmClient (frames_to_response W p flds sid))"

section \<open>Promised requests\<close>

datatype push_promise_header_error = InvalidContentLength "(u64, unit) result" | NotSafeAndCacheable

definition safe_and_cacheable :: "('m, 'st) ext \<Rightarrow> ('m, 'st, 'h) http \<Rightarrow> 'm \<Rightarrow> bool" where
  "safe_and_cacheable e W m \<longleftrightarrow> m = METHOD_GET e \<or> m = METHOD_HEAD W"

definition validate_request ::
  "('m, 'st) ext \<Rightarrow> 'h hmap \<Rightarrow> ('m, 'st, 'h) http \<Rightarrow> ('m, 'h) request \<Rightarrow> (unit, push_promise_header_error) result" where
  "validate_request e H W req =
     rbind (case hm_value_of_key H (const_header e CONTENT_LENGTH) (rq_headers req) of
              Some v \<Rightarrow> let parsed_length = parse_u64 v in
                if parsed_length \<noteq> Ok 0 then Err (InvalidContentLength parsed_length) else Ok ()
            | None \<Rightarrow> Ok ()) (\<lambda>_.
     if \<not> safe_and_cacheable e W (rq_method req) then Err NotSafeAndCacheable else Ok ())"

end
