(* ===== verification/Streams_Base.thy ===== *)
theory Streams_Base
  imports Effects Messages Stream_State Flow_Control Store_Queue Proto_Control
begin

text \<open>
  The state of the streams layer and its primitives: \<open>Stream\<close> (\<open>proto/streams/stream.rs\<close>), \<open>Store\<close>
  and \<open>Ptr\<close> (\<open>proto/streams/store/\<close>), \<open>Counts\<close> (\<open>proto/streams/counts.rs\<close>), the configuration
  (\<open>proto/config.rs\<close>) and the records of \<open>Send\<close>, \<open>Recv\<close>, \<open>Actions\<close> and \<open>Inner\<close>.

  Two structures appear as what they stand for. A queue of streams is the list of its keys: theory
  \<open>Store_Queue\<close> proves that the linked lists through the streams behave as these. A stream's deque is
  the list of its elements: theory \<open>Stream_Buffer\<close> proves that the deques in the shared slab do. So the
  links and the shared buffers are not fields here. A waker is a number, and the wakers that were
  woken are collected in order. The clock's reading is an argument. \<open>debug_assert!\<close> is checked.
\<close>

section \<open>Streams\<close>

datatype content_length = CLHead | CLOmitted | CLRemaining u64 u64

datatype ('m, 'st, 'h) event = EvHeaders "('m, 'st, 'h) poll_message" | EvData bytes | EvTrailers 'h

type_synonym waker = nat

record ('m, 'st, 'h) stream =
  st_id :: stream_id
  st_state :: state
  st_ref_count :: nat
  st_is_counted :: bool
  st_send_flow :: flow_control
  st_remaining_data_len :: "nat option"
  st_connection_window_allocated :: window_size
  st_is_pending_send :: bool
  st_pending_send :: "('m, 'st, 'h) frame list"
  st_is_pending_send_capacity :: bool
  st_is_pending_open :: bool
  st_curr_buf_len :: nat
  st_is_buf_limit_reached :: bool
  st_recv_flow :: flow_control
  st_content_length :: content_length
  st_recv_task :: "waker option"
  st_is_pending_accept :: bool
  st_pending_recv :: "('m, 'st, 'h) event list"
  st_is_pending_complete :: bool
  st_reset_at :: "nat option"
  st_pending_push_promises :: "key list"
  st_is_sending_trailer :: bool

definition stream_new :: "stream_id \<Rightarrow> window_size \<Rightarrow> window_size \<Rightarrow> ('m, 'st, 'h) stream" where
  "stream_new sid init_send init_recv = \<lparr>
     st_id = sid, st_state = state_default, st_ref_count = 0, st_is_counted = False,
     st_send_flow = flow_control_new init_send, st_remaining_data_len = None,
     st_connection_window_allocated = 0, st_is_pending_send = False, st_pending_send = [],
     st_is_pending_send_capacity = False, st_is_pending_open = False, st_curr_buf_len = 0,
     st_is_buf_limit_reached = False, st_recv_flow = flow_control_new init_recv,
     st_content_length = CLOmitted, st_recv_task = None, st_is_pending_accept = False,
     st_pending_recv = [], st_is_pending_complete = False, st_reset_at = None,
     st_pending_push_promises = [], st_is_sending_trailer = False\<rparr>"

definition is_canceled_interest :: "('m, 'st, 'h) stream \<Rightarrow> bool" where
  "is_canceled_interest st \<longleftrightarrow> st_ref_count st = 0 \<and> \<not> is_closed (st_state st)"

definition stream_is_closed :: "('m, 'st, 'h) stream \<Rightarrow> bool" where
  "stream_is_closed st \<longleftrightarrow>
     is_closed (st_state st) \<and> st_pending_send st = [] \<and> st_remaining_data_len st = None"

definition is_released :: "('m, 'st, 'h) stream \<Rightarrow> bool" where
  "is_released st \<longleftrightarrow> stream_is_closed st \<and> st_ref_count st = 0
     \<and> \<not> st_is_pending_send st \<and> \<not> st_is_pending_send_capacity st \<and> \<not> st_is_pending_open st
     \<and> \<not> st_is_pending_accept st \<and> \<not> st_is_pending_complete st \<and> st_reset_at st = None"

definition is_send_ready :: "('m, 'st, 'h) stream \<Rightarrow> bool" where
  "is_send_ready st \<longleftrightarrow> \<not> st_is_pending_open st"

definition is_pending_reset_expiration :: "('m, 'st, 'h) stream \<Rightarrow> bool" where
  "is_pending_reset_expiration st \<longleftrightarrow> st_reset_at st \<noteq> None"

definition stream_content_length :: "('m, 'st, 'h) stream \<Rightarrow> u64 option" where
  "stream_content_length st = (case st_content_length st of CLRemaining tot _ \<Rightarrow> Some tot | _ \<Rightarrow> None)"

definition ensure_content_length_zero :: "('m, 'st, 'h) stream \<Rightarrow> (unit, unit) result" where
  "ensure_content_length_zero st =
     (case st_content_length st of CLRemaining _ rem \<Rightarrow> if rem = 0 then Ok () else Err () | _ \<Rightarrow> Ok ())"

text \<open>\<open>len as u64\<close> and \<open>checked_sub\<close>.\<close>

definition dec_content_length :: "nat \<Rightarrow> content_length \<Rightarrow> (content_length, unit) result" where
  "dec_content_length len cl =
     (case cl of
        CLRemaining tot rem \<Rightarrow>
          if word_of_nat len \<le> rem then Ok (CLRemaining tot (rem - word_of_nat len)) else Err ()
      | CLHead \<Rightarrow> if len \<noteq> 0 then Err () else Ok cl
      | CLOmitted \<Rightarrow> Ok cl)"

definition content_length_is_head :: "content_length \<Rightarrow> bool" where
  "content_length_is_head cl \<longleftrightarrow> cl = CLHead"

section \<open>Configuration and counters\<close>

text \<open>\<open>spa.rs\<close>: the state of a single-packet attack run.\<close>

datatype ping_state = PsInit | FirstSent | SecondToSend | SecondSent | Fin

datatype spa_mode = Native | SpaPing "(bytes \<times> bool) option" | EnhancedPing ping_state "bytes option"

record spa_tracker =
  spa_pending :: "stream_id list"
  spa_pending_stream_window_update :: "stream_id list option"
  spa_mode :: spa_mode

definition add_pending_spa :: "stream_id \<Rightarrow> spa_tracker \<Rightarrow> spa_tracker" where
  "add_pending_spa sid t = t\<lparr>spa_pending := spa_pending t @ [sid]\<rparr>"

definition add_pending_stream_update :: "stream_id \<Rightarrow> spa_tracker \<Rightarrow> spa_tracker" where
  "add_pending_stream_update sid t = t\<lparr>spa_pending_stream_window_update :=
     Some (case spa_pending_stream_window_update t of None \<Rightarrow> [sid] | Some q \<Rightarrow> q @ [sid])\<rparr>"

definition remove_pending_stream_update :: "stream_id \<Rightarrow> spa_tracker \<Rightarrow> spa_tracker" where
  "remove_pending_stream_update sid t = t\<lparr>spa_pending_stream_window_update :=
     Option.bind (spa_pending_stream_window_update t)
       (\<lambda>q. let q' = filter (\<lambda>x. x \<noteq> sid) q in if q' = [] then None else Some q')\<rparr>"

record connection_config =
  cfg_initial_connection_window_size :: "u32 option"
  cfg_local_max_error_reset_streams :: "nat option"
  cfg_local_reset_stream_max :: nat
  cfg_remote_reset_stream_max :: nat
  cfg_reset_stream_duration :: nat
  cfg_local_settings :: settings
  cfg_peer_settings :: settings
  cfg_max_recv_buffer_size :: nat
  cfg_spa_tracker :: "spa_tracker option"

definition usize_max :: nat where "usize_max = 2 ^ 64 - 1"

record counts =
  c_role :: role
  max_send_streams :: nat
  num_send_streams :: nat
  max_recv_streams :: nat
  num_recv_streams :: nat
  max_local_reset_streams :: nat
  num_local_reset_streams :: nat
  max_remote_reset_streams :: nat
  num_remote_reset_streams :: nat
  max_local_error_reset_streams :: "nat option"
  num_local_error_reset_streams :: nat

definition max_streams_of :: "settings \<Rightarrow> nat" where
  "max_streams_of s = (case s_max_concurrent_streams s of Some v \<Rightarrow> unat v | None \<Rightarrow> usize_max)"

definition counts_new :: "role \<Rightarrow> connection_config \<Rightarrow> counts" where
  "counts_new r cfg = \<lparr>c_role = r,
     max_send_streams = max_streams_of (cfg_peer_settings cfg), num_send_streams = 0,
     max_recv_streams = max_streams_of (cfg_local_settings cfg), num_recv_streams = 0,
     max_local_reset_streams = cfg_local_reset_stream_max cfg, num_local_reset_streams = 0,
     max_remote_reset_streams = cfg_remote_reset_stream_max cfg, num_remote_reset_streams = 0,
     max_local_error_reset_streams = cfg_local_max_error_reset_streams cfg,
     num_local_error_reset_streams = 0\<rparr>"

definition has_streams :: "counts \<Rightarrow> bool" where
  "has_streams c \<longleftrightarrow> num_send_streams c \<noteq> 0 \<or> num_recv_streams c \<noteq> 0"

definition can_inc_num_local_error_resets :: "counts \<Rightarrow> bool" where
  "can_inc_num_local_error_resets c =
     (case max_local_error_reset_streams c of Some m \<Rightarrow> m > num_local_error_reset_streams c | None \<Rightarrow> True)"

definition can_inc_num_recv_streams :: "counts \<Rightarrow> bool" where
  "can_inc_num_recv_streams c \<longleftrightarrow> max_recv_streams c > num_recv_streams c"

definition can_inc_num_send_streams :: "counts \<Rightarrow> bool" where
  "can_inc_num_send_streams c \<longleftrightarrow> max_send_streams c > num_send_streams c"

definition can_inc_num_reset_streams :: "counts \<Rightarrow> bool" where
  "can_inc_num_reset_streams c \<longleftrightarrow> max_local_reset_streams c > num_local_reset_streams c"

definition can_inc_num_remote_reset_streams :: "counts \<Rightarrow> bool" where
  "can_inc_num_remote_reset_streams c \<longleftrightarrow> max_remote_reset_streams c > num_remote_reset_streams c"

text \<open>
  \<open>Counts::apply_remote_settings\<close>: the limit is set by every SETTINGS frame, also by one that does not
  mention it.
\<close>

definition counts_apply_remote_settings :: "settings \<Rightarrow> counts \<Rightarrow> counts" where
  "counts_apply_remote_settings s c = c\<lparr>max_send_streams := max_streams_of s\<rparr>"

section \<open>The state\<close>

record send_state =
  snd_init_stream_window_sz :: window_size
  snd_flow :: flow_control
  snd_last_opened_id :: stream_id
  snd_max_stream_id :: stream_id
  snd_next_stream_id :: "stream_id option"
  snd_pending_send :: "key list"
  snd_pending_capacity :: "key list"
  snd_pending_open :: "key list"
  snd_is_push_enabled :: bool
  snd_is_extended_connect_protocol_enabled :: bool
  snd_spa_tracker :: "spa_tracker option"

record recv_state =
  rcv_flow :: flow_control
  rcv_init_stream_window_sz :: window_size
  rcv_last_processed_id :: stream_id
  rcv_max_stream_id :: stream_id
  rcv_next_stream_id :: "stream_id option"
  rcv_pending_accept :: "key list"
  rcv_pending_complete :: "key list"
  rcv_pending_reset_expired :: "key list"
  rcv_refused :: "stream_id option"
  rcv_reset_duration :: nat
  rcv_is_extended_connect_protocol_enabled :: bool
  rcv_check_connection_window_update :: bool
  rcv_check_stream_window_update :: "key option"
  rcv_max_recv_buf_limit :: nat

text \<open>
  \<open>Inner\<close> with its \<open>Actions\<close>: \<open>i_slab\<close> and \<open>i_ids\<close> are the \<open>Store\<close>, \<open>i_ids\<close> in the order of the
  \<open>IndexMap\<close>.
\<close>

record ('m, 'st, 'h) inner =
  i_counts :: counts
  i_recv :: recv_state
  i_send :: send_state
  i_task :: "waker option"
  i_conn_error :: "proto_error option"
  i_slab :: "nat \<rightharpoonup> ('m, 'st, 'h) stream"
  i_ids :: "(stream_id \<times> nat) list"
  i_refs :: nat
  i_woken :: "waker list"

type_synonym ('m, 'st, 'h, 'a, 'e) iact = "(('m, 'st, 'h) inner, 'a, 'e) act"

definition send_new :: "connection_config \<Rightarrow> send_state" where
  "send_new cfg = \<lparr>
     snd_init_stream_window_sz =
       (case s_initial_window_size (cfg_peer_settings cfg) of Some v \<Rightarrow> v | None \<Rightarrow> DEFAULT_INITIAL_WINDOW_SIZE),
     snd_flow = flow_control_new DEFAULT_INITIAL_WINDOW_SIZE,
     snd_last_opened_id = STREAM_ID_ZERO, snd_max_stream_id = STREAM_ID_MAX,
     snd_next_stream_id = Some 1, snd_pending_send = [], snd_pending_capacity = [],
     snd_pending_open = [],
     snd_is_push_enabled = (is_push_enabled (cfg_peer_settings cfg) = Some True),
     snd_is_extended_connect_protocol_enabled =
       (is_extended_connect_protocol_enabled (cfg_peer_settings cfg) = Some True),
     snd_spa_tracker = cfg_spa_tracker cfg\<rparr>"

definition recv_new :: "connection_config \<Rightarrow> role \<Rightarrow> recv_state" where
  "recv_new cfg r = \<lparr>
     rcv_flow = flow_control_new
       (case cfg_initial_connection_window_size cfg of Some v \<Rightarrow> v | None \<Rightarrow> DEFAULT_INITIAL_WINDOW_SIZE),
     rcv_init_stream_window_sz = DEFAULT_INITIAL_WINDOW_SIZE,
     rcv_last_processed_id = STREAM_ID_ZERO, rcv_max_stream_id = STREAM_ID_MAX,
     rcv_next_stream_id = Some (if is_server r then 1 else 2),
     rcv_pending_accept = [], rcv_pending_complete = [], rcv_pending_reset_expired = [],
     rcv_refused = None, rcv_reset_duration = cfg_reset_stream_duration cfg,
     rcv_is_extended_connect_protocol_enabled = False,
     rcv_check_connection_window_update = False, rcv_check_stream_window_update = None,
     rcv_max_recv_buf_limit = cfg_max_recv_buffer_size cfg\<rparr>"

definition inner_new :: "role \<Rightarrow> connection_config \<Rightarrow> ('m, 'st, 'h) inner" where
  "inner_new r cfg = \<lparr>i_counts = counts_new r cfg, i_recv = recv_new cfg r, i_send = send_new cfg,
     i_task = None, i_conn_error = None, i_slab = Map.empty, i_ids = [], i_refs = 1, i_woken = []\<rparr>"

definition on_counts :: "(counts \<Rightarrow> counts) \<Rightarrow> ('m, 'st, 'h, unit, 'e) iact" where
  "on_counts f = modify (\<lambda>s. s\<lparr>i_counts := f (i_counts s)\<rparr>)"

definition on_send :: "(send_state \<Rightarrow> send_state) \<Rightarrow> ('m, 'st, 'h, unit, 'e) iact" where
  "on_send f = modify (\<lambda>s. s\<lparr>i_send := f (i_send s)\<rparr>)"

definition on_recv :: "(recv_state \<Rightarrow> recv_state) \<Rightarrow> ('m, 'st, 'h, unit, 'e) iact" where
  "on_recv f = modify (\<lambda>s. s\<lparr>i_recv := f (i_recv s)\<rparr>)"

section \<open>Store\<close>

text \<open>\<open>Store::index\<close> through a \<open>Ptr\<close>: the stream of a key, or the panic of a dangling one.\<close>

definition deref :: "(nat \<rightharpoonup> ('m, 'st, 'h) stream) \<Rightarrow> key \<Rightarrow> ('m, 'st, 'h) stream option" where
  "deref slab k = (case slab (key_index k) of
     Some st \<Rightarrow> if st_id st = key_stream_id k then Some st else None | None \<Rightarrow> None)"

definition the_stream :: "key \<Rightarrow> ('m, 'st, 'h, ('m, 'st, 'h) stream, 'e) iact" where
  "the_stream k = (\<lambda>s. case deref (i_slab s) k of Some st \<Rightarrow> (Ok st, s) | None \<Rightarrow> (Panic, s))"

definition on_stream :: "key \<Rightarrow> (('m, 'st, 'h) stream \<Rightarrow> ('m, 'st, 'h) stream) \<Rightarrow> ('m, 'st, 'h, unit, 'e) iact" where
  "on_stream k f = bnd (the_stream k) (\<lambda>st.
     modify (\<lambda>s. s\<lparr>i_slab := (i_slab s)(key_index k \<mapsto> f st)\<rparr>))"

definition find_mut :: "stream_id \<Rightarrow> ('m, 'st, 'h) inner \<Rightarrow> key option" where
  "find_mut sid s = map_option (\<lambda>i. \<lparr>key_index = i, key_stream_id = sid\<rparr>) (map_of (i_ids s) sid)"

text \<open>
  \<open>Store::insert\<close>. The slab of the crate \<open>slab\<close> picks a vacant slot: \<open>pick\<close>, a parameter; the slot's
  number is kept as a \<open>u32\<close>. \<open>VacantEntry::insert\<close> does the same, the stream's ID being known to be new.
\<close>

definition store_insert ::
  "((nat \<rightharpoonup> ('m, 'st, 'h) stream) \<Rightarrow> nat) \<Rightarrow> stream_id \<Rightarrow> ('m, 'st, 'h) stream \<Rightarrow> ('m, 'st, 'h, key, 'e) iact" where
  "store_insert pick sid st =
     bnd (gets (\<lambda>s. pick (i_slab s))) (\<lambda>i.
     bnd (gets (\<lambda>s. map_of (i_ids s) sid)) (\<lambda>old.
     let idx = i mod 2 ^ 32 in
     seq (modify (\<lambda>s. s\<lparr>i_slab := (i_slab s)(i \<mapsto> st)\<rparr>))
     (seq (check (old = None))
     (seq (modify (\<lambda>s. s\<lparr>i_ids := i_ids s @ [(sid, idx)]\<rparr>))
     (ret \<lparr>key_index = idx, key_stream_id = sid\<rparr>)))))"

text \<open>\<open>IndexMap::swap_remove\<close>: the last entry takes the place of the removed one.\<close>

fun swap_remove :: "stream_id \<Rightarrow> (stream_id \<times> nat) list \<Rightarrow> (stream_id \<times> nat) list" where
  "swap_remove sid [] = []"
| "swap_remove sid (x # xs) =
     (if fst x = sid then (if xs = [] then [] else last xs # butlast xs) else x # swap_remove sid xs)"

definition unlink :: "key \<Rightarrow> ('m, 'st, 'h, unit, 'e) iact" where
  "unlink k = modify (\<lambda>s. s\<lparr>i_ids := swap_remove (key_stream_id k) (i_ids s)\<rparr>)"

definition store_remove :: "key \<Rightarrow> ('m, 'st, 'h, unit, 'e) iact" where
  "store_remove k =
     bnd (gets (\<lambda>s. map_of (i_ids s) (key_stream_id k))) (\<lambda>linked.
     seq (check (linked = None))
     (bnd (gets (\<lambda>s. i_slab s (key_index k))) (\<lambda>v.
      case v of
        None \<Rightarrow> panic
      | Some st \<Rightarrow>
          seq (modify (\<lambda>s. s\<lparr>i_slab := (i_slab s)(key_index k := None)\<rparr>))
              (check (st_id st = key_stream_id k)))))"

text \<open>
  \<open>Store::try_for_each\<close>: the loop runs over positions; \<open>n\<close> is \<open>len - i\<close>, which each round lowers by
  one, whether the callback removed the entry at \<open>i\<close> or not.
\<close>

fun try_for_each_from :: "(key \<Rightarrow> ('m, 'st, 'h, unit, 'e) iact) \<Rightarrow> nat \<Rightarrow> nat \<Rightarrow> ('m, 'st, 'h, unit, 'e) iact" where
  "try_for_each_from f i 0 = ret ()"
| "try_for_each_from f i (Suc n) =
     bnd (gets i_ids) (\<lambda>ids.
     if i \<ge> length ids then panic
     else
       seq (f \<lparr>key_index = snd (ids ! i), key_stream_id = fst (ids ! i)\<rparr>)
       (bnd (gets (\<lambda>s. length (i_ids s))) (\<lambda>new_len.
        if new_len < i + Suc n
        then seq (check (new_len = i + n)) (try_for_each_from f i n)
        else try_for_each_from f (Suc i) n)))"

definition try_for_each :: "(key \<Rightarrow> ('m, 'st, 'h, unit, 'e) iact) \<Rightarrow> ('m, 'st, 'h, unit, 'e) iact" where
  "try_for_each f = bnd (gets (\<lambda>s. length (i_ids s))) (try_for_each_from f 0)"

section \<open>Wakers\<close>

definition wake :: "waker \<Rightarrow> ('m, 'st, 'h, unit, 'e) iact" where
  "wake w = modify (\<lambda>s. s\<lparr>i_woken := i_woken s @ [w]\<rparr>)"

text \<open>\<open>if let Some(task) = task.take() { task.wake() }\<close>\<close>

definition wake_task :: "('m, 'st, 'h, unit, 'e) iact" where
  "wake_task = bnd (gets i_task) (\<lambda>t. case t of
     None \<Rightarrow> ret () | Some w \<Rightarrow> seq (modify (\<lambda>s. s\<lparr>i_task := None\<rparr>)) (wake w))"

definition notify_recv :: "key \<Rightarrow> ('m, 'st, 'h, unit, 'e) iact" where
  "notify_recv k = bnd (the_stream k) (\<lambda>st. case st_recv_task st of
     None \<Rightarrow> ret () | Some w \<Rightarrow> seq (on_stream k (\<lambda>x. x\<lparr>st_recv_task := None\<rparr>)) (wake w))"

definition on_state :: "key \<Rightarrow> (state \<Rightarrow> state) \<Rightarrow> ('m, 'st, 'h, unit, 'e) iact" where
  "on_state k f = on_stream k (\<lambda>st. st\<lparr>st_state := f (st_state st)\<rparr>)"

definition stream_set_reset :: "key \<Rightarrow> reason \<Rightarrow> initiator \<Rightarrow> ('m, 'st, 'h, unit, 'e) iact" where
  "stream_set_reset k r ini = bnd (the_stream k) (\<lambda>st.
     seq (on_state k (\<lambda>_. set_reset (st_id st) r ini)) (notify_recv k))"

definition ref_inc :: "key \<Rightarrow> ('m, 'st, 'h, unit, 'e) iact" where
  "ref_inc k = bnd (the_stream k) (\<lambda>st.
     seq (check (st_ref_count st < usize_max)) (on_stream k (\<lambda>x. x\<lparr>st_ref_count := st_ref_count x + 1\<rparr>)))"

definition ref_dec :: "key \<Rightarrow> ('m, 'st, 'h, unit, 'e) iact" where
  "ref_dec k = bnd (the_stream k) (\<lambda>st.
     seq (check (st_ref_count st > 0)) (on_stream k (\<lambda>x. x\<lparr>st_ref_count := st_ref_count x - 1\<rparr>)))"

section \<open>Queues\<close>

fun queued :: "queue_id \<Rightarrow> ('m, 'st, 'h) stream \<Rightarrow> bool" where
  "queued QSend st = st_is_pending_send st"
| "queued QCapacity st = st_is_pending_send_capacity st"
| "queued QOpen st = st_is_pending_open st"
| "queued QAccept st = st_is_pending_accept st"
| "queued QComplete st = st_is_pending_complete st"
| "queued QResetExpire st = (st_reset_at st \<noteq> None)"

fun set_queued :: "queue_id \<Rightarrow> nat \<Rightarrow> bool \<Rightarrow> ('m, 'st, 'h) stream \<Rightarrow> ('m, 'st, 'h) stream" where
  "set_queued QSend now v st = st\<lparr>st_is_pending_send := v\<rparr>"
| "set_queued QCapacity now v st = st\<lparr>st_is_pending_send_capacity := v\<rparr>"
| "set_queued QOpen now v st = st\<lparr>st_is_pending_open := v\<rparr>"
| "set_queued QAccept now v st = st\<lparr>st_is_pending_accept := v\<rparr>"
| "set_queued QComplete now v st = st\<lparr>st_is_pending_complete := v\<rparr>"
| "set_queued QResetExpire now v st = st\<lparr>st_reset_at := (if v then Some now else None)\<rparr>"

text \<open>What \<open>set_queued(true)\<close> asserts: a stream waits to be opened or to send, not for both.\<close>

fun queue_guard :: "queue_id \<Rightarrow> ('m, 'st, 'h) stream \<Rightarrow> bool" where
  "queue_guard QSend st = (\<not> st_is_pending_open st)"
| "queue_guard QOpen st = (\<not> st_is_pending_send st)"
| "queue_guard _ st = True"

fun qlist :: "queue_id \<Rightarrow> ('m, 'st, 'h) inner \<Rightarrow> key list" where
  "qlist QSend s = snd_pending_send (i_send s)"
| "qlist QCapacity s = snd_pending_capacity (i_send s)"
| "qlist QOpen s = snd_pending_open (i_send s)"
| "qlist QAccept s = rcv_pending_accept (i_recv s)"
| "qlist QComplete s = rcv_pending_complete (i_recv s)"
| "qlist QResetExpire s = rcv_pending_reset_expired (i_recv s)"

fun set_qlist :: "queue_id \<Rightarrow> key list \<Rightarrow> ('m, 'st, 'h) inner \<Rightarrow> ('m, 'st, 'h) inner" where
  "set_qlist QSend ks s = s\<lparr>i_send := (i_send s)\<lparr>snd_pending_send := ks\<rparr>\<rparr>"
| "set_qlist QCapacity ks s = s\<lparr>i_send := (i_send s)\<lparr>snd_pending_capacity := ks\<rparr>\<rparr>"
| "set_qlist QOpen ks s = s\<lparr>i_send := (i_send s)\<lparr>snd_pending_open := ks\<rparr>\<rparr>"
| "set_qlist QAccept ks s = s\<lparr>i_recv := (i_recv s)\<lparr>rcv_pending_accept := ks\<rparr>\<rparr>"
| "set_qlist QComplete ks s = s\<lparr>i_recv := (i_recv s)\<lparr>rcv_pending_complete := ks\<rparr>\<rparr>"
| "set_qlist QResetExpire ks s = s\<lparr>i_recv := (i_recv s)\<lparr>rcv_pending_reset_expired := ks\<rparr>\<rparr>"

definition q_push :: "queue_id \<Rightarrow> nat \<Rightarrow> key \<Rightarrow> ('m, 'st, 'h, bool, 'e) iact" where
  "q_push q now k = bnd (the_stream k) (\<lambda>st.
     if queued q st then ret False
     else seq (check (queue_guard q st))
         (seq (on_stream k (set_queued q now True))
         (seq (modify (\<lambda>s. set_qlist q (qlist q s @ [k]) s)) (ret True))))"

definition q_push_front :: "queue_id \<Rightarrow> nat \<Rightarrow> key \<Rightarrow> ('m, 'st, 'h, bool, 'e) iact" where
  "q_push_front q now k = bnd (the_stream k) (\<lambda>st.
     if queued q st then ret False
     else seq (check (queue_guard q st))
         (seq (on_stream k (set_queued q now True))
         (seq (modify (\<lambda>s. set_qlist q (k # qlist q s) s)) (ret True))))"

definition q_pop :: "queue_id \<Rightarrow> ('m, 'st, 'h, key option, 'e) iact" where
  "q_pop q = bnd (gets (qlist q)) (\<lambda>ks. case ks of
     [] \<Rightarrow> ret None
   | k # ks' \<Rightarrow> bnd (the_stream k) (\<lambda>st.
       seq (check (queued q st))
       (seq (on_stream k (set_queued q 0 False))
       (seq (modify (set_qlist q ks')) (ret (Some k))))))"

definition q_pop_if :: "queue_id \<Rightarrow> (('m, 'st, 'h) stream \<Rightarrow> bool) \<Rightarrow> ('m, 'st, 'h, key option, 'e) iact" where
  "q_pop_if q f = bnd (gets (qlist q)) (\<lambda>ks. case ks of
     [] \<Rightarrow> ret None
   | k # _ \<Rightarrow> bnd (the_stream k) (\<lambda>st. if f st then q_pop q else ret None))"

text \<open>
  \<open>while let Some(stream) = queue.pop(store) { body }\<close>. The bound \<open>n\<close> on the rounds is the length of
  the queue plus one; running out of it is a panic, and \<open>drain_enough\<close> (theory \<open>Streams_Rounds\<close>) shows that with
  a body that does not lengthen the queue a larger bound changes nothing.
\<close>

fun drain_n :: "nat \<Rightarrow> queue_id \<Rightarrow> (('m, 'st, 'h) stream \<Rightarrow> bool) \<Rightarrow> (key \<Rightarrow> ('m, 'st, 'h, unit, 'e) iact) \<Rightarrow> ('m, 'st, 'h, unit, 'e) iact" where
  "drain_n 0 q f body = panic"
| "drain_n (Suc n) q f body = bnd (q_pop_if q f) (\<lambda>r. case r of
     None \<Rightarrow> ret () | Some k \<Rightarrow> seq (body k) (drain_n n q f body))"

definition drain_if :: "queue_id \<Rightarrow> (('m, 'st, 'h) stream \<Rightarrow> bool) \<Rightarrow> (key \<Rightarrow> ('m, 'st, 'h, unit, 'e) iact) \<Rightarrow> ('m, 'st, 'h, unit, 'e) iact" where
  "drain_if q f body = bnd (gets (\<lambda>s. length (qlist q s))) (\<lambda>n. drain_n (Suc n) q f body)"

definition drain :: "queue_id \<Rightarrow> (key \<Rightarrow> ('m, 'st, 'h, unit, 'e) iact) \<Rightarrow> ('m, 'st, 'h, unit, 'e) iact" where
  "drain q body = drain_if q (\<lambda>_. True) body"

section \<open>Counting\<close>

definition inc_num_local_error_resets :: "('m, 'st, 'h, unit, 'e) iact" where
  "inc_num_local_error_resets = bnd (gets i_counts) (\<lambda>c.
     seq (check (can_inc_num_local_error_resets c))
         (on_counts (\<lambda>c. c\<lparr>num_local_error_reset_streams := num_local_error_reset_streams c + 1\<rparr>)))"

definition inc_num_recv_streams :: "key \<Rightarrow> ('m, 'st, 'h, unit, 'e) iact" where
  "inc_num_recv_streams k = bnd (gets i_counts) (\<lambda>c. bnd (the_stream k) (\<lambda>st.
     seq (check (can_inc_num_recv_streams c)) (seq (check (\<not> st_is_counted st))
     (seq (on_counts (\<lambda>c. c\<lparr>num_recv_streams := num_recv_streams c + 1\<rparr>))
          (on_stream k (\<lambda>x. x\<lparr>st_is_counted := True\<rparr>))))))"

definition inc_num_send_streams :: "key \<Rightarrow> ('m, 'st, 'h, unit, 'e) iact" where
  "inc_num_send_streams k = bnd (gets i_counts) (\<lambda>c. bnd (the_stream k) (\<lambda>st.
     seq (check (can_inc_num_send_streams c)) (seq (check (\<not> st_is_counted st))
     (seq (on_counts (\<lambda>c. c\<lparr>num_send_streams := num_send_streams c + 1\<rparr>))
          (on_stream k (\<lambda>x. x\<lparr>st_is_counted := True\<rparr>))))))"

definition dec_num_reset_streams :: "('m, 'st, 'h, unit, 'e) iact" where
  "dec_num_reset_streams = bnd (gets i_counts) (\<lambda>c.
     seq (check (num_local_reset_streams c > 0))
         (on_counts (\<lambda>c. c\<lparr>num_local_reset_streams := num_local_reset_streams c - 1\<rparr>)))"

definition inc_num_reset_streams :: "('m, 'st, 'h, unit, 'e) iact" where
  "inc_num_reset_streams = bnd (gets i_counts) (\<lambda>c.
     seq (check (can_inc_num_reset_streams c))
         (on_counts (\<lambda>c. c\<lparr>num_local_reset_streams := num_local_reset_streams c + 1\<rparr>)))"

definition inc_num_remote_reset_streams :: "('m, 'st, 'h, unit, 'e) iact" where
  "inc_num_remote_reset_streams = bnd (gets i_counts) (\<lambda>c.
     seq (check (can_inc_num_remote_reset_streams c))
         (on_counts (\<lambda>c. c\<lparr>num_remote_reset_streams := num_remote_reset_streams c + 1\<rparr>)))"

definition dec_num_remote_reset_streams :: "('m, 'st, 'h, unit, 'e) iact" where
  "dec_num_remote_reset_streams = bnd (gets i_counts) (\<lambda>c.
     seq (check (num_remote_reset_streams c > 0))
         (on_counts (\<lambda>c. c\<lparr>num_remote_reset_streams := num_remote_reset_streams c - 1\<rparr>)))"

definition dec_num_streams :: "key \<Rightarrow> ('m, 'st, 'h, unit, 'e) iact" where
  "dec_num_streams k = bnd (the_stream k) (\<lambda>st. seq (check (st_is_counted st))
     (bnd (gets i_counts) (\<lambda>c. bnd (of_result (is_local_init (c_role c) (st_id st))) (\<lambda>loc.
      if loc then
        seq (check (num_send_streams c > 0))
        (seq (on_counts (\<lambda>c. c\<lparr>num_send_streams := num_send_streams c - 1\<rparr>))
             (on_stream k (\<lambda>x. x\<lparr>st_is_counted := False\<rparr>)))
      else
        seq (check (num_recv_streams c > 0))
        (seq (on_counts (\<lambda>c. c\<lparr>num_recv_streams := num_recv_streams c - 1\<rparr>))
             (on_stream k (\<lambda>x. x\<lparr>st_is_counted := False\<rparr>)))))))"

text \<open>\<open>Counts::transition_after\<close>: unlink a closed stream, stop counting it, and free it once nobody uses it.\<close>

definition transition_after :: "key \<Rightarrow> bool \<Rightarrow> ('m, 'st, 'h, unit, 'e) iact" where
  "transition_after k is_reset_counted =
     bnd (the_stream k) (\<lambda>st.
     seq (if_then (stream_is_closed st)
            (seq (if_then (\<not> is_pending_reset_expiration st)
                    (seq (unlink k) (if_then is_reset_counted dec_num_reset_streams)))
                 (if_then (\<not> is_scheduled_reset (st_state st) \<and> st_is_counted st) (dec_num_streams k))))
     (bnd (the_stream k) (\<lambda>st'. if_then (is_released st') (store_remove k))))"

definition transition :: "key \<Rightarrow> ('m, 'st, 'h, 'a, 'e) iact \<Rightarrow> ('m, 'st, 'h, 'a, 'e) iact" where
  "transition k f =
     bnd (the_stream k) (\<lambda>st.
     bnd (attempt f) (\<lambda>r.
     seq (transition_after k (is_pending_reset_expiration st)) (of_result r)))"

end
