(* ===== verification/Stream_Send.thy ===== *)
theory Stream_Send
  imports Streams_Base
begin

text \<open>
  The sending half of the streams layer (\<open>proto/streams/send.rs\<close>): queueing frames, opening streams
  under the peer's concurrency limit, resets, the send windows of streams and connection and the
  share of the connection's window that a stream holds, and the choice of the next frame to write.
\<close>

section \<open>Queueing\<close>

definition schedule_send :: "key \<Rightarrow> ('m, 'st, 'h, unit, 'e) iact" where
  "schedule_send k = bnd (the_stream k) (\<lambda>st.
     if_then (is_send_ready st) (seq (q_push QSend 0 k) wake_task))"

definition push_frame_back :: "key \<Rightarrow> ('m, 'st, 'h) frame \<Rightarrow> ('m, 'st, 'h, unit, 'e) iact" where
  "push_frame_back k f = on_stream k (\<lambda>st. st\<lparr>st_pending_send := st_pending_send st @ [f]\<rparr>)"

definition push_frame_front :: "key \<Rightarrow> ('m, 'st, 'h) frame \<Rightarrow> ('m, 'st, 'h, unit, 'e) iact" where
  "push_frame_front k f = on_stream k (\<lambda>st. st\<lparr>st_pending_send := f # st_pending_send st\<rparr>)"

definition queue_frame :: "('m, 'st, 'h) frame \<Rightarrow> key \<Rightarrow> ('m, 'st, 'h, unit, 'e) iact" where
  "queue_frame f k = seq (push_frame_back k f) (schedule_send k)"

text \<open>\<open>clear_stream_queue\<close>: the frames waiting on the stream are dropped.\<close>

definition send_clear_stream_queue :: "key \<Rightarrow> ('m, 'st, 'h, unit, 'e) iact" where
  "send_clear_stream_queue k =
     on_stream k (\<lambda>st. st\<lparr>st_pending_send := [], st_remaining_data_len := None\<rparr>)"

definition check_headers :: "('m, 'st) ext \<Rightarrow> 'h hmap \<Rightarrow> ('m, 'st, 'h) http \<Rightarrow> 'h \<Rightarrow> (unit, user_error) result" where
  "check_headers e H W flds =
     (if hm_has_key W (const_header e CONNECTION) flds \<or> hm_has_key W (const_header e TRANSFER_ENCODING) flds
         \<or> hm_has_key W (const_header e UPGRADE) flds \<or> hm_has_key W (str ''keep-alive'') flds
         \<or> hm_has_key W (str ''proxy-connection'') flds
      then Err MalformedHeaders
      else case hm_value_of_key H (const_header e TE) flds of
        Some te \<Rightarrow> if te \<noteq> str ''trailers'' then Err MalformedHeaders else Ok ()
      | None \<Rightarrow> Ok ())"

definition send_headers ::
  "('m, 'st) ext \<Rightarrow> 'h hmap \<Rightarrow> ('m, 'st, 'h) http \<Rightarrow> ('m, 'st, 'h) headers_frame \<Rightarrow> key \<Rightarrow> ('m, 'st, 'h, unit, user_error) iact" where
  "send_headers e H W f k =
     seq (of_result (check_headers e H W (hb_fields (hf_block f))))
     (bnd (the_stream k) (\<lambda>st.
      bnd (of_result (send_open (headers_is_end_stream f) (st_state st))) (\<lambda>state'.
      seq (on_state k (\<lambda>_. state'))
      (bnd (gets i_counts) (\<lambda>c.
       bnd (of_result (is_local_init (c_role c) (hf_stream_id f))) (\<lambda>loc.
       seq (if_then loc (seq (q_push QOpen 0 k) (ret ())))
       (seq (queue_frame (FHeaders f) k)
            (if_then loc wake_task))))))))"

section \<open>Capacity\<close>

text \<open>
  \<open>try_assign_capacity\<close>: give the stream a share of the connection's window, at most what it can use.
  With a single-packet run the last byte of a body is held back.
\<close>

definition try_assign_capacity :: "key \<Rightarrow> ('m, 'st, 'h, unit, 'e) iact" where
  "try_assign_capacity k = bnd (the_stream k) (\<lambda>st. bnd (gets i_send) (\<lambda>snd0.
     let stream_available = available (st_send_flow st); conn_available = available (snd_flow snd0) in
     if stream_available = 0 then ret ()
     else if conn_available = 0 then seq (q_push QCapacity 0 k) (ret ())
     else case st_remaining_data_len st of
       None \<Rightarrow> ret ()
     | Some rem0 \<Rightarrow>
         let rem = (if snd_spa_tracker snd0 \<noteq> None then rem0 - 1 else rem0);
             allocated = min (min conn_available stream_available) (word_of_nat rem) in
         seq (q_push QSend 0 k)
         (if allocated = 0 then ret ()
          else
            seq (check (unat (st_connection_window_allocated st) + unat allocated < 2 ^ 32))
            (seq (on_stream k (\<lambda>x. x\<lparr>st_connection_window_allocated := st_connection_window_allocated x + allocated\<rparr>))
                 (on_send (\<lambda>sn. case dec_window allocated (snd_flow sn) of Ok fl \<Rightarrow> sn\<lparr>snd_flow := fl\<rparr> | _ \<Rightarrow> sn))))))"

text \<open>
  \<open>assign_connection_capacity\<close>: while the connection has window, the streams that wait for it get some.
  Each round takes one stream off the queue and puts none back, so the length of the queue bounds the
  rounds (\<open>assign_enough\<close> in theory \<open>Streams_Rounds\<close>).
\<close>

fun assign_connection_capacity_n :: "nat \<Rightarrow> ('m, 'st, 'h, unit, 'e) iact" where
  "assign_connection_capacity_n 0 = panic"
| "assign_connection_capacity_n (Suc n) = bnd (gets i_send) (\<lambda>snd0.
     if available (snd_flow snd0) = 0 then ret ()
     else bnd (q_pop QCapacity) (\<lambda>r. case r of
       None \<Rightarrow> ret ()
     | Some k \<Rightarrow> bnd (the_stream k) (\<lambda>st.
         seq (if_then (is_send_streaming (st_state st) \<and> st_remaining_data_len st \<noteq> None)
                (transition k (try_assign_capacity k)))
             (assign_connection_capacity_n n))))"

definition assign_connection_capacity :: "('m, 'st, 'h, unit, 'e) iact" where
  "assign_connection_capacity =
     bnd (gets (\<lambda>s. length (qlist QCapacity s))) (\<lambda>n. assign_connection_capacity_n (Suc n))"

definition recv_connection_window_update :: "window_size \<Rightarrow> ('m, 'st, 'h, unit, reason) iact" where
  "recv_connection_window_update inc = bnd (gets i_send) (\<lambda>snd0.
     bnd (of_result (inc_window inc (snd_flow snd0))) (\<lambda>fl.
     seq (on_send (\<lambda>sn. sn\<lparr>snd_flow := fl\<rparr>)) assign_connection_capacity))"

text \<open>\<open>reclaim_all_capacity\<close>: the share goes back to the connection; the stream's record of it stays.\<close>

definition reclaim_all_capacity :: "key \<Rightarrow> ('m, 'st, 'h, unit, 'e) iact" where
  "reclaim_all_capacity k = bnd (the_stream k) (\<lambda>st.
     if_then (st_connection_window_allocated st > 0)
       (seq (attempt (recv_connection_window_update (st_connection_window_allocated st))) (ret ())))"

section \<open>Resets and errors\<close>

definition send_send_reset :: "reason \<Rightarrow> initiator \<Rightarrow> key \<Rightarrow> ('m, 'st, 'h, unit, 'e) iact" where
  "send_send_reset r ini k = bnd (the_stream k) (\<lambda>st.
     if is_reset (st_state st) then ret ()
     else
       seq (stream_set_reset k r ini)
       (if is_closed (st_state st) \<and> st_pending_send st = [] then ret ()
        else
          seq (send_clear_stream_queue k)
          (seq (queue_frame (FReset (reset_new (st_id st) r)) k)
               (reclaim_all_capacity k))))"

definition schedule_implicit_reset :: "key \<Rightarrow> reason \<Rightarrow> ('m, 'st, 'h, unit, 'e) iact" where
  "schedule_implicit_reset k r = bnd (the_stream k) (\<lambda>st.
     if is_closed (st_state st) then ret ()
     else
       seq (case set_scheduled_reset r (st_state st) of Ok st' \<Rightarrow> on_state k (\<lambda>_. st') | _ \<Rightarrow> panic)
       (seq (reclaim_all_capacity k) (schedule_send k)))"

definition send_handle_error :: "key \<Rightarrow> ('m, 'st, 'h, unit, 'e) iact" where
  "send_handle_error k = seq (send_clear_stream_queue k) (reclaim_all_capacity k)"

definition spa_recv_window_update :: "stream_id \<Rightarrow> ('m, 'st, 'h, unit, 'e) iact" where
  "spa_recv_window_update sid =
     on_send (\<lambda>sn. sn\<lparr>snd_spa_tracker := map_option (remove_pending_stream_update sid) (snd_spa_tracker sn)\<rparr>)"

definition recv_stream_window_update :: "window_size \<Rightarrow> key \<Rightarrow> ('m, 'st, 'h, unit, reason) iact" where
  "recv_stream_window_update sz k = bnd (the_stream k) (\<lambda>st.
     if is_send_closed (st_state st) then ret ()
     else
       seq (spa_recv_window_update (st_id st))
       (case inc_window sz (st_send_flow st) of
          Ok fl \<Rightarrow> seq (on_stream k (\<lambda>x. x\<lparr>st_send_flow := fl\<rparr>)) (try_assign_capacity k)
        | Err er \<Rightarrow> seq (send_send_reset FLOW_CONTROL_ERROR Library k) (throw er)
        | Panic \<Rightarrow> panic))"

section \<open>Settings and GOAWAY\<close>

text \<open>
  A lower initial window takes the difference from every stream that can still send; what a stream
  then holds beyond its window goes back to the connection. The callback returns what it took.
\<close>

definition lower_stream_window :: "window_size \<Rightarrow> key \<Rightarrow> ('m, 'st, 'h, window_size, proto_error) iact" where
  "lower_stream_window dec k = bnd (the_stream k) (\<lambda>st.
     if is_send_closed (st_state st) then ret 0
     else
       bnd (of_result (map_err library_go_away (dec_window dec (st_send_flow st)))) (\<lambda>fl.
       let allocated = st_connection_window_allocated st; current = available fl;
           extra = (if allocated > current then allocated - current else 0) in
       seq (on_stream k (\<lambda>x. x\<lparr>st_send_flow := fl,
              st_connection_window_allocated := st_connection_window_allocated x - extra\<rparr>))
           (ret extra)))"

text \<open>\<open>try_for_each\<close> with the captured \<open>total_reclaimed\<close>, a \<open>u32\<close> that is added to with overflow checks.\<close>

fun lower_windows_from :: "window_size \<Rightarrow> nat \<Rightarrow> nat \<Rightarrow> window_size \<Rightarrow> ('m, 'st, 'h, window_size, proto_error) iact" where
  "lower_windows_from dec i 0 tot = ret tot"
| "lower_windows_from dec i (Suc n) tot = bnd (gets i_ids) (\<lambda>ids.
     if i \<ge> length ids then panic
     else
       bnd (lower_stream_window dec \<lparr>key_index = snd (ids ! i), key_stream_id = fst (ids ! i)\<rparr>) (\<lambda>extra.
       seq (check (unat tot + unat extra < 2 ^ 32))
       (bnd (gets (\<lambda>s. length (i_ids s))) (\<lambda>new_len.
        if new_len < i + Suc n
        then seq (check (new_len = i + n)) (lower_windows_from dec i n (tot + extra))
        else lower_windows_from dec (Suc i) n (tot + extra)))))"

definition send_apply_remote_settings :: "settings \<Rightarrow> ('m, 'st, 'h, unit, proto_error) iact" where
  "send_apply_remote_settings cfg =
     seq (on_send (\<lambda>sn. case is_push_enabled cfg of Some v \<Rightarrow> sn\<lparr>snd_is_push_enabled := v\<rparr> | None \<Rightarrow> sn))
     (seq (on_send (\<lambda>sn. case is_extended_connect_protocol_enabled cfg of
              Some v \<Rightarrow> sn\<lparr>snd_is_extended_connect_protocol_enabled := v\<rparr> | None \<Rightarrow> sn))
     (case s_initial_window_size cfg of
        None \<Rightarrow> ret ()
      | Some new \<Rightarrow>
          bnd (gets (\<lambda>s. snd_init_stream_window_sz (i_send s))) (\<lambda>old.
          seq (on_send (\<lambda>sn. sn\<lparr>snd_init_stream_window_sz := new\<rparr>))
          (if new < old then
             bnd (gets (\<lambda>s. length (i_ids s))) (\<lambda>len.
             bnd (lower_windows_from (old - new) 0 len 0) (\<lambda>total_reclaimed.
             if_then (total_reclaimed > 0)
               (seq (attempt (recv_connection_window_update total_reclaimed)) (ret ()))))
           else if new > old then
             try_for_each (\<lambda>k. on_err library_go_away (recv_stream_window_update (new - old) k))
           else ret ()))))"

definition send_recv_go_away :: "stream_id \<Rightarrow> ('m, 'st, 'h, unit, proto_error) iact" where
  "send_recv_go_away last_stream_id = bnd (gets i_send) (\<lambda>sn.
     if last_stream_id > snd_max_stream_id sn then throw (library_go_away PROTOCOL_ERROR)
     else on_send (\<lambda>sn. sn\<lparr>snd_max_stream_id := last_stream_id\<rparr>))"

section \<open>Stream IDs\<close>

definition ensure_next_stream_id :: "('m, 'st, 'h, stream_id, user_error) iact" where
  "ensure_next_stream_id = bnd (gets i_send) (\<lambda>sn.
     case snd_next_stream_id sn of Some sid \<Rightarrow> ret sid | None \<Rightarrow> throw OverflowedStreamId)"

definition send_open_id :: "('m, 'st, 'h, stream_id, user_error) iact" where
  "send_open_id = bnd ensure_next_stream_id (\<lambda>sid.
     seq (on_send (\<lambda>sn. sn\<lparr>snd_next_stream_id := next_id sid\<rparr>)) (ret sid))"

definition send_maybe_reset_next_stream_id :: "stream_id \<Rightarrow> ('m, 'st, 'h, unit, 'e) iact" where
  "send_maybe_reset_next_stream_id sid = bnd (gets i_send) (\<lambda>sn.
     case snd_next_stream_id sn of
       None \<Rightarrow> ret ()
     | Some next \<Rightarrow>
         seq (check (is_server_initiated sid = is_server_initiated next))
             (if_then (sid \<ge> next) (on_send (\<lambda>sn. sn\<lparr>snd_next_stream_id := next_id sid\<rparr>))))"

section \<open>Clearing\<close>

definition clear_pending_capacity :: "('m, 'st, 'h, unit, 'e) iact" where
  "clear_pending_capacity = drain QCapacity (\<lambda>k. transition k (ret ()))"

definition clear_pending_send :: "('m, 'st, 'h, unit, 'e) iact" where
  "clear_pending_send = drain QSend (\<lambda>k. bnd (the_stream k) (\<lambda>st.
     seq (case get_scheduled_reset (st_state st) of
            Some r \<Rightarrow> stream_set_reset k r Library | None \<Rightarrow> ret ())
         (transition_after k (is_pending_reset_expiration st))))"

definition clear_pending_open :: "('m, 'st, 'h, unit, 'e) iact" where
  "clear_pending_open = drain QOpen (\<lambda>k. bnd (the_stream k) (\<lambda>st.
     transition_after k (is_pending_reset_expiration st)))"

definition send_clear_queues :: "('m, 'st, 'h, unit, 'e) iact" where
  "send_clear_queues = seq clear_pending_capacity (seq clear_pending_send clear_pending_open)"

section \<open>The next frame to write\<close>

definition pop_pending_open :: "('m, 'st, 'h, key option, 'e) iact" where
  "pop_pending_open = bnd (gets i_counts) (\<lambda>c.
     if can_inc_num_send_streams c then
       bnd (q_pop QOpen) (\<lambda>r. case r of
         None \<Rightarrow> ret None
       | Some k \<Rightarrow> seq (inc_num_send_streams k) (ret (Some k)))
     else ret None)"

definition try_allocate_stream_flow :: "key \<Rightarrow> nat \<Rightarrow> window_size \<Rightarrow> ('m, 'st, 'h, bool, 'e) iact" where
  "try_allocate_stream_flow k rem avail = bnd (the_stream k) (\<lambda>st. bnd (gets i_send) (\<lambda>sn.
     if \<not> (st_connection_window_allocated st = 0 \<and> rem > 0) then ret True
     else
       let allocated = min (min (available (snd_flow sn)) avail) (word_of_nat rem) in
       if allocated = 0 then ret False
       else
         seq (on_stream k (\<lambda>x. x\<lparr>st_connection_window_allocated := st_connection_window_allocated x + allocated\<rparr>))
         (seq (on_send (\<lambda>sn. case dec_window allocated (snd_flow sn) of Ok fl \<Rightarrow> sn\<lparr>snd_flow := fl\<rparr> | _ \<Rightarrow> sn))
              (ret True))))"

text \<open>
  \<open>set_data_frame_eos\<close>: the frame as it goes out, with END_STREAM when nothing follows it on the
  stream. What is left of the payload goes back to the front.
\<close>

definition set_data_frame_eos :: "key \<Rightarrow> data_frame \<Rightarrow> data_frame option \<Rightarrow> ('m, 'st, 'h, data_frame, 'e) iact" where
  "set_data_frame_eos k to_ret remaining = bnd (the_stream k) (\<lambda>st.
     if st_remaining_data_len st = None then
       if st_pending_send st = [] then
         seq (case send_close (st_state st) of Ok st' \<Rightarrow> on_state k (\<lambda>_. st') | _ \<Rightarrow> panic)
             (ret (data_set_end_stream True to_ret))
       else seq (on_stream k (\<lambda>x. x\<lparr>st_is_sending_trailer := True\<rparr>)) (ret to_ret)
     else case remaining of
       Some f \<Rightarrow> seq (push_frame_front k (FData f)) (ret to_ret)
     | None \<Rightarrow> ret to_ret)"

definition on_spa :: "(spa_tracker \<Rightarrow> spa_tracker) \<Rightarrow> ('m, 'st, 'h, unit, 'e) iact" where
  "on_spa f = on_send (\<lambda>sn. sn\<lparr>snd_spa_tracker := map_option f (snd_spa_tracker sn)\<rparr>)"

text \<open>\<open>pop_data_frame\<close>; \<open>split_to\<close> panics past the end of the payload.\<close>

definition pop_data_frame :: "key \<Rightarrow> nat \<Rightarrow> data_frame \<Rightarrow> ('m, 'st, 'h, ('m, 'st, 'h) frame option, 'e) iact" where
  "pop_data_frame k max_frame_size f = bnd (the_stream k) (\<lambda>st. bnd (gets (\<lambda>s. snd_spa_tracker (i_send s))) (\<lambda>spa.
     case st_remaining_data_len st of
       None \<Rightarrow> ret None
     | Some rem \<Rightarrow>
         if rem = 0 then
           seq (on_stream k (\<lambda>x. x\<lparr>st_remaining_data_len := None\<rparr>))
           (if spa \<noteq> None then
              seq (on_spa (add_pending_spa (st_id st))) (seq (push_frame_front k (FData f)) (ret None))
            else bnd (set_data_frame_eos k f None) (\<lambda>f'. ret (Some (FData f'))))
         else
           let stream_available = available (st_send_flow st) in
           if stream_available = 0 then
             seq (on_spa (add_pending_stream_update (st_id st))) (seq (push_frame_front k (FData f)) (ret None))
           else bnd (try_allocate_stream_flow k rem stream_available) (\<lambda>ok.
             if \<not> ok then seq (push_frame_front k (FData f)) (seq (q_push QCapacity 0 k) (ret None))
             else bnd (the_stream k) (\<lambda>st1.
               let len0 = min (min (word_of_nat (min rem max_frame_size)) stream_available)
                              (st_connection_window_allocated st1) in
               (let len = (if spa \<noteq> None \<and> unat len0 = rem then len0 - 1 else len0) in
                seq (check (unat len \<le> rem))
                (seq (on_stream k (\<lambda>x. x\<lparr>
                    st_send_flow := (case dec_window len (st_send_flow x) of Ok fl \<Rightarrow> fl | _ \<Rightarrow> st_send_flow x),
                    st_connection_window_allocated := st_connection_window_allocated x - len,
                    st_remaining_data_len := (if rem - unat len > 0 then Some (rem - unat len) else None)\<rparr>))
                (seq (check (unat len \<le> length (d_data f)))
                (bnd (of_result (data_new (st_id st) (take (unat len) (d_data f)))) (\<lambda>d.
                 bnd (set_data_frame_eos k d (Some (f\<lparr>d_data := drop (unat len) (d_data f)\<rparr>))) (\<lambda>d'.
                 ret (Some (FData d'))))))))))))"

text \<open>
  One round of \<open>pop_frame\<close> for the stream at the head of \<open>pending_send\<close>: \<open>None\<close> is the source's \<open>continue\<close>.
\<close>

definition pop_stream_frame :: "key \<Rightarrow> nat \<Rightarrow> ('m, 'st, 'h, ('m, 'st, 'h) frame option, 'e) iact" where
  "pop_stream_frame k max_frame_size = bnd (the_stream k) (\<lambda>st0.
     let is_pending_reset = is_pending_reset_expiration st0 in
     seq (if_then (is_remote_reset (st_state st0) \<or> get_scheduled_reset (st_state st0) = Some CANCEL)
            (send_clear_stream_queue k))
     (bnd (the_stream k) (\<lambda>st.
      bnd (case st_pending_send st of
             FData f # fs \<Rightarrow>
               seq (on_stream k (\<lambda>x. x\<lparr>st_pending_send := fs\<rparr>)) (pop_data_frame k max_frame_size f)
           | FHeaders h # fs \<Rightarrow>
               seq (on_stream k (\<lambda>x. x\<lparr>st_pending_send := fs\<rparr>))
               (seq (if_then (st_remaining_data_len st \<noteq> None) (try_assign_capacity k))
               (seq (if_then (st_is_sending_trailer st)
                      (bnd (the_stream k) (\<lambda>x.
                         case send_close (st_state x) of Ok st' \<Rightarrow> on_state k (\<lambda>_. st') | _ \<Rightarrow> panic)))
                    (ret (Some (FHeaders h)))))
           | fr # fs \<Rightarrow> seq (on_stream k (\<lambda>x. x\<lparr>st_pending_send := fs\<rparr>)) (ret (Some fr))
           | [] \<Rightarrow>
               (case get_scheduled_reset (st_state st) of
                  Some r \<Rightarrow> seq (stream_set_reset k r Library) (ret (Some (FReset (reset_new (st_id st) r))))
                | None \<Rightarrow> seq (check (is_closed (st_state st)))
                            (seq (transition_after k is_pending_reset) (ret None)))) (\<lambda>r.
      case r of
        None \<Rightarrow> ret None
      | Some fr \<Rightarrow> bnd (the_stream k) (\<lambda>st1.
          seq (if_then (is_idle (st_state st1)) (on_send (\<lambda>sn. sn\<lparr>snd_last_opened_id := st_id st1\<rparr>)))
          (bnd (gets (\<lambda>s. snd_spa_tracker (i_send s))) (\<lambda>spa.
           seq (if spa \<noteq> None \<and> st_remaining_data_len st1 = Some 1
                then seq (check (st_pending_send st1 \<noteq> [])) (on_spa (add_pending_spa (st_id st1)))
                else if_then (st_pending_send st1 \<noteq> [] \<or> is_scheduled_reset (st_state st1))
                       (seq (q_push QSend 0 k) (ret ())))
           (seq (transition_after k is_pending_reset) (ret (Some fr))))))))))"

fun pop_frame_n :: "nat \<Rightarrow> nat \<Rightarrow> ('m, 'st, 'h, ('m, 'st, 'h) frame option, 'e) iact" where
  "pop_frame_n 0 max_frame_size = panic"
| "pop_frame_n (Suc n) max_frame_size = bnd (q_pop QSend) (\<lambda>r. case r of
     None \<Rightarrow> ret None
   | Some k \<Rightarrow> bnd (pop_stream_frame k max_frame_size) (\<lambda>fr. case fr of
       None \<Rightarrow> pop_frame_n n max_frame_size
     | Some f \<Rightarrow> ret (Some f)))"

text \<open>Every round that does not return takes a stream off \<open>pending_send\<close>, so its length bounds the rounds.\<close>

definition pop_frame :: "nat \<Rightarrow> ('m, 'st, 'h, ('m, 'st, 'h) frame option, 'e) iact" where
  "pop_frame max_frame_size =
     bnd (gets (\<lambda>s. length (qlist QSend s))) (\<lambda>n. pop_frame_n (Suc n) max_frame_size)"

text \<open>
  \<open>Send::poll_complete\<close>: frames are handed to the codec as long as it is ready. \<open>readies\<close> are the answers
  of \<open>poll_ready\<close> and of the \<open>flush\<close> at the end, in order; the codec says \<open>Pending\<close> where they end. The
  frames handed over come back, with whether everything was sent.
\<close>

fun send_poll_loop :: "bool list \<Rightarrow> nat \<Rightarrow> ('m, 'st, 'h) frame list \<Rightarrow> ('m, 'st, 'h, ('m, 'st, 'h) frame list \<times> bool, 'e) iact" where
  "send_poll_loop readies max_frame_len out =
     bnd pop_pending_open (\<lambda>r.
     seq (case r of Some k \<Rightarrow> seq (q_push_front QSend 0 k) (ret ()) | None \<Rightarrow> ret ())
     (bnd (pop_frame max_frame_len) (\<lambda>fr.
      case fr of
        None \<Rightarrow> ret (out, readies \<noteq> [] \<and> hd readies)
      | Some f \<Rightarrow>
          (case readies of
             True # rs \<Rightarrow> send_poll_loop rs max_frame_len (out @ [f])
           | _ \<Rightarrow> ret (out @ [f], False)))))"

definition send_poll_complete :: "bool list \<Rightarrow> nat \<Rightarrow> ('m, 'st, 'h, ('m, 'st, 'h) frame list \<times> bool, 'e) iact" where
  "send_poll_complete readies max_frame_len =
     (case readies of True # rs \<Rightarrow> send_poll_loop rs max_frame_len [] | _ \<Rightarrow> ret ([], False))"

definition can_perform_spa :: "('m, 'st, 'h) inner \<Rightarrow> bool" where
  "can_perform_spa s \<longleftrightarrow> qlist QSend s = [] \<and> qlist QCapacity s = [] \<and> qlist QOpen s = []"

end
