(* ===== verification/Stream_Recv.thy ===== *)
theory Stream_Recv
  imports Streams_Base
begin

text \<open>
  The receiving half of the streams layer (\<open>proto/streams/recv.rs\<close>): what DATA, HEADERS, trailers and
  RST_STREAM do to a stream, the receive windows, the queues of streams that wait for their end, for
  the application or for their reset to expire, and the handing out of complete messages. The errors
  handed to the application are those of \<open>error.rs\<close>.
\<close>

datatype ('m, 'st, 'h) recv_header_block_error =
    Oversize "('m, 'st, 'h) headers_frame option"
  | RState proto_error

datatype op_error =
    OpReset stream_id reason initiator
  | OpGoAway bytes reason initiator
  | OpReason reason
  | OpUser user_error
  | OpIo io_kind "string option"

fun op_error_from_proto :: "proto_error \<Rightarrow> op_error" where
  "op_error_from_proto (PReset sid r i) = OpReset sid r i"
| "op_error_from_proto (PGoAway d r i) = OpGoAway d r i"
| "op_error_from_proto (PIo kd msg) = OpIo kd msg"

fun op_error_from_send :: "send_error \<Rightarrow> op_error" where
  "op_error_from_send (SUser u) = OpUser u"
| "op_error_from_send (SConnection p) = op_error_from_proto p"

record ('st, 'h) partial_response =
  pr_response :: "('st, 'h) response option"
  pr_err :: op_error

section \<open>Queues of received streams\<close>

text \<open>\<open>Recv::clear_stream_queue\<close>: only the events of a stream that waits for its end are dropped.\<close>

definition recv_clear_stream_queue :: "key \<Rightarrow> ('m, 'st, 'h, unit, 'e) iact" where
  "recv_clear_stream_queue k = on_stream k (\<lambda>st.
     if st_is_pending_complete st then st\<lparr>st_pending_recv := []\<rparr> else st)"

definition push_event :: "key \<Rightarrow> ('m, 'st, 'h) event \<Rightarrow> ('m, 'st, 'h, unit, 'e) iact" where
  "push_event k ev = on_stream k (\<lambda>st. st\<lparr>st_pending_recv := st_pending_recv st @ [ev]\<rparr>)"

text \<open>
  A server hands streams over in the order they were opened: the end of one may release others
  behind it. A client is told about its own stream.
\<close>

definition move_from_pending_complete :: "key \<Rightarrow> role \<Rightarrow> ('m, 'st, 'h, unit, 'e) iact" where
  "move_from_pending_complete k r =
     seq (drain_if QComplete (\<lambda>st. is_recv_end_stream (st_state st) \<or> is_remote_reset (st_state st)) (\<lambda>k'.
            if_then (is_server r) (bnd (the_stream k') (\<lambda>st'.
              if is_remote_reset (st_state st') then recv_clear_stream_queue k'
              else seq (q_push QAccept 0 k') (ret ())))))
         (if_then (is_client r) (notify_recv k))"

definition recv_next_accept :: "('m, 'st, 'h, key option, 'e) iact" where
  "recv_next_accept = q_pop QAccept"

section \<open>Flow control\<close>

definition dec_connection_window :: "window_size \<Rightarrow> ('m, 'st, 'h, unit, proto_error) iact" where
  "dec_connection_window sz = bnd (gets i_recv) (\<lambda>rv.
     if window_size (rcv_flow rv) < sz then throw (library_go_away FLOW_CONTROL_ERROR)
     else bnd (of_result (map_err library_go_away (dec_window sz (rcv_flow rv)))) (\<lambda>fl.
       on_recv (\<lambda>rv. rv\<lparr>rcv_flow := fl\<rparr>)))"

definition inc_connection_window :: "window_size \<Rightarrow> ('m, 'st, 'h, unit, proto_error) iact" where
  "inc_connection_window sz = bnd (gets i_recv) (\<lambda>rv.
     bnd (of_result (map_err library_go_away (inc_window sz (rcv_flow rv)))) (\<lambda>fl.
       on_recv (\<lambda>rv. rv\<lparr>rcv_flow := fl\<rparr>)))"

section \<open>DATA\<close>

text \<open>
  The checks of \<open>recv_data\<close> on a stream that takes data, in order: the stream's window, the announced
  content length, the end of the stream. The result is the stream after the frame, or the error.
\<close>

definition stream_recv_data :: "data_frame \<Rightarrow> ('m, 'st, 'h) stream \<Rightarrow> (unit, proto_error) result \<times> ('m, 'st, 'h) stream" where
  "stream_recv_data f st =
     (let sz = length (d_data f) in
      if unat (window_size (st_recv_flow st)) < sz then (Err (library_reset (st_id st) FLOW_CONTROL_ERROR), st)
      else case dec_content_length sz (st_content_length st) of
        Ok cl \<Rightarrow>
          let st1 = st\<lparr>st_content_length := cl\<rparr> in
          if data_is_end_stream f \<and> ensure_content_length_zero st1 \<noteq> Ok () then
            (Err (library_reset (st_id st) PROTOCOL_ERROR), st1)
          else
            (case (if data_is_end_stream f then recv_close (st_state st1) else Ok (st_state st1)) of
               Ok state' \<Rightarrow>
                 let st2 = st1\<lparr>st_state := state'\<rparr> in
                 (case dec_window (word_of_nat sz) (st_recv_flow st2) of
                    Ok fl \<Rightarrow> (Ok (), st2\<lparr>st_recv_flow := fl, st_curr_buf_len := st_curr_buf_len st2 + sz,
                                    st_pending_recv := st_pending_recv st2 @ [EvData (d_data f)]\<rparr>)
                  | Err er \<Rightarrow> (Err (library_go_away er), st2)
                  | Panic \<Rightarrow> (Panic, st2))
             | Err _ \<Rightarrow> (Err (library_go_away PROTOCOL_ERROR), st1)
             | Panic \<Rightarrow> (Panic, st1))
      | Err _ \<Rightarrow> (Err (library_reset (st_id st) PROTOCOL_ERROR), st)
      | Panic \<Rightarrow> (Panic, st))"

definition stream_take_data :: "data_frame \<Rightarrow> key \<Rightarrow> role \<Rightarrow> ('m, 'st, 'h, unit, proto_error) iact" where
  "stream_take_data f k r = bnd (the_stream k) (\<lambda>st.
     case stream_recv_data f st of (res, st') \<Rightarrow>
       seq (on_stream k (\<lambda>_. st'))
       (seq (of_result res)
       (bnd (gets (\<lambda>s. rcv_max_recv_buf_limit (i_recv s))) (\<lambda>limit.
        if st_curr_buf_len st' > limit then
          seq (on_stream k (\<lambda>x. x\<lparr>st_is_buf_limit_reached := True\<rparr>))
              (throw (library_reset (st_id st) INTERNAL_ERROR))
        else if data_is_end_stream f then move_from_pending_complete k r
        else on_recv (\<lambda>rv. rv\<lparr>rcv_check_stream_window_update := Some k\<rparr>)))))"

definition recv_recv_data :: "data_frame \<Rightarrow> key \<Rightarrow> role \<Rightarrow> ('m, 'st, 'h, unit, proto_error) iact" where
  "recv_recv_data f k r =
     seq (check (length (d_data f) \<le> unat MAX_WINDOW_SIZE))
     (seq (dec_connection_window (word_of_nat (length (d_data f))))
     (seq (on_recv (\<lambda>rv. rv\<lparr>rcv_check_connection_window_update := True\<rparr>))
     (bnd (the_stream k) (\<lambda>st.
      let is_ignoring_frame = is_local_error (st_state st) in
      if \<not> is_ignoring_frame \<and> \<not> is_recv_streaming (st_state st)
      then throw (library_go_away PROTOCOL_ERROR)
      else if is_ignoring_frame then ret ()
      else stream_take_data f k r))))"

section \<open>HEADERS\<close>

definition parse_content_length ::
  "('m, 'st) ext \<Rightarrow> 'h hmap \<Rightarrow> ('m, 'st, 'h) headers_frame \<Rightarrow> key \<Rightarrow> ('m, 'st, 'h, unit, proto_error) iact" where
  "parse_content_length e H f k =
     (case hm_value_of_key H (const_header e CONTENT_LENGTH) (hb_fields (hf_block f)) of
        None \<Rightarrow> ret ()
      | Some v \<Rightarrow> bnd (the_stream k) (\<lambda>st.
          bnd (of_result (map_err (\<lambda>_. library_reset (st_id st) PROTOCOL_ERROR) (parse_u64 v))) (\<lambda>n.
          seq (on_stream k (\<lambda>x. x\<lparr>st_content_length := CLRemaining n n\<rparr>))
          (if headers_is_end_stream f \<and> n > 0
              \<and> (case ps_status (hb_pseudo (hf_block f)) of
                   None \<Rightarrow> True | Some code \<Rightarrow> status_u16 e code \<noteq> 204 \<and> status_u16 e code \<noteq> 304)
           then throw (library_reset (st_id st) PROTOCOL_ERROR)
           else ret ()))))"

definition ret_frame_oversize_err ::
  "'h hmap \<Rightarrow> ('m, 'st, 'h) http \<Rightarrow> bool \<Rightarrow> bool \<Rightarrow> stream_id \<Rightarrow> (unit, ('m, 'st, 'h) recv_header_block_error) result" where
  "ret_frame_oversize_err H W is_initial server sid =
     (if server \<and> is_initial
      then Err (Oversize (Some (headers_set_end_stream
             (headers_new H sid (pseudo_response (STATUS_REQUEST_HEADER_FIELDS_TOO_LARGE W)) (hm_new H)))))
      else Err (Oversize None))"

definition is_extended_protocol_usage_correct :: "('m, 'st) pseudo \<Rightarrow> bool \<Rightarrow> recv_state \<Rightarrow> bool" where
  "is_extended_protocol_usage_correct p server rv \<longleftrightarrow>
     \<not> (ps_protocol p \<noteq> None \<and> server \<and> \<not> rcv_is_extended_connect_protocol_enabled rv)"

definition are_response_headers_in_request :: "('m, 'st) pseudo \<Rightarrow> bool \<Rightarrow> bool" where
  "are_response_headers_in_request p server \<longleftrightarrow> ps_status p \<noteq> None \<and> server"

text \<open>The state change; a stream that HEADERS opens is counted and remembered for GOAWAY.\<close>

definition recv_open_stream ::
  "('m, 'st) ext \<Rightarrow> ('m, 'st, 'h) headers_frame \<Rightarrow> key \<Rightarrow> ('m, 'st, 'h, bool, proto_error) iact" where
  "recv_open_stream e f k = bnd (the_stream k) (\<lambda>st.
     bnd (of_result (recv_open (headers_is_end_stream f) (pseudo_is_informational e (hb_pseudo (hf_block f))) (st_state st)))
     (\<lambda>(state', is_initial).
       seq (on_state k (\<lambda>_. state'))
       (seq (if_then is_initial
              (seq (on_recv (\<lambda>rv. if hf_stream_id f > rcv_last_processed_id rv
                                   then rv\<lparr>rcv_last_processed_id := hf_stream_id f\<rparr> else rv))
                   (inc_num_recv_streams k)))
            (ret is_initial))))"

text \<open>The message of a header block that passed the checks is queued; 1xx responses are dropped.\<close>

definition deliver_headers ::
  "('m, 'st) ext \<Rightarrow> ('m, 'st, 'h) http \<Rightarrow> ('m, 'st, 'h) headers_frame \<Rightarrow> key \<Rightarrow> role \<Rightarrow> ('m, 'st, 'h, unit, proto_error) iact" where
  "deliver_headers e W f k r =
     (let p = hb_pseudo (hf_block f); is_eos = headers_is_end_stream f in
      if pseudo_is_informational e p then ret ()
      else
        bnd (of_result (convert_poll_message W r p (hb_fields (hf_block f)) (hf_stream_id f))) (\<lambda>msg.
        seq (push_event k (EvHeaders msg))
        (if is_eos \<and> is_client r then notify_recv k
         else
           seq (q_push QComplete 0 k)
               (if_then is_eos (move_from_pending_complete k r)))))"

definition recv_recv_headers ::
  "('m, 'st) ext \<Rightarrow> 'h hmap \<Rightarrow> ('m, 'st, 'h) http \<Rightarrow> ('m, 'st, 'h) headers_frame \<Rightarrow> key \<Rightarrow>
     ('m, 'st, 'h, unit, ('m, 'st, 'h) recv_header_block_error) iact" where
  "recv_recv_headers e H W f k =
     bnd (on_err RState (recv_open_stream e f k)) (\<lambda>is_initial.
     bnd (the_stream k) (\<lambda>st.
     seq (if_then (\<not> content_length_is_head (st_content_length st))
            (on_err RState (parse_content_length e H f k)))
     (bnd (gets (\<lambda>s. c_role (i_counts s))) (\<lambda>r.
      seq (if hb_is_over_size (hf_block f)
           then of_result (ret_frame_oversize_err H W is_initial (is_server r) (st_id st)) else ret ())
      (bnd (gets i_recv) (\<lambda>rv.
       if \<not> is_extended_protocol_usage_correct (hb_pseudo (hf_block f)) (is_server r) rv
          \<or> are_response_headers_in_request (hb_pseudo (hf_block f)) (is_server r)
       then throw (RState (library_reset (st_id st) PROTOCOL_ERROR))
       else on_err RState (deliver_headers e W f k r)))))))"

definition recv_recv_trailers :: "('m, 'st, 'h) headers_frame \<Rightarrow> key \<Rightarrow> role \<Rightarrow> ('m, 'st, 'h, unit, proto_error) iact" where
  "recv_recv_trailers f k r =
     bnd (the_stream k) (\<lambda>st.
     bnd (of_result (recv_close (st_state st))) (\<lambda>state'.
     seq (on_state k (\<lambda>_. state'))
     (if ensure_content_length_zero st \<noteq> Ok () then throw (library_reset (st_id st) PROTOCOL_ERROR)
      else
        seq (push_event k (EvTrailers (hb_fields (hf_block f))))
            (move_from_pending_complete k r))))"

section \<open>Resets\<close>

definition recv_recv_reset :: "reset_frame \<Rightarrow> key \<Rightarrow> ('m, 'st, 'h, unit, proto_error) iact" where
  "recv_recv_reset f k =
     bnd (the_stream k) (\<lambda>st. bnd (gets i_counts) (\<lambda>c.
     seq (if st_is_pending_accept st then
            if can_inc_num_remote_reset_streams c then inc_num_remote_reset_streams
            else throw (library_go_away_data ENHANCE_YOUR_CALM (str ''too_many_resets''))
          else ret ())
     (seq (on_state k (recv_reset f (st_is_pending_send st)))
     (seq (move_from_pending_complete k (c_role c)) (notify_recv k)))))"

definition enqueue_reset_expiration :: "nat \<Rightarrow> key \<Rightarrow> ('m, 'st, 'h, unit, 'e) iact" where
  "enqueue_reset_expiration now k = bnd (the_stream k) (\<lambda>st.
     if \<not> is_local_error (st_state st) \<or> is_pending_reset_expiration st then ret ()
     else bnd (gets i_counts) (\<lambda>c.
       if_then (can_inc_num_reset_streams c)
         (seq inc_num_reset_streams (seq (q_push QResetExpire now k) (ret ())))))"

section \<open>Settings, GOAWAY, errors\<close>

definition recv_apply_local_settings :: "settings \<Rightarrow> ('m, 'st, 'h, unit, proto_error) iact" where
  "recv_apply_local_settings cfg =
     seq (on_recv (\<lambda>rv. case is_extended_connect_protocol_enabled cfg of
            Some v \<Rightarrow> rv\<lparr>rcv_is_extended_connect_protocol_enabled := v\<rparr> | None \<Rightarrow> rv))
     (case s_initial_window_size cfg of
        None \<Rightarrow> ret ()
      | Some target \<Rightarrow>
          bnd (gets (\<lambda>s. rcv_init_stream_window_sz (i_recv s))) (\<lambda>old.
          seq (on_recv (\<lambda>rv. rv\<lparr>rcv_init_stream_window_sz := target\<rparr>))
          (if target < old then
             try_for_each (\<lambda>k. bnd (the_stream k) (\<lambda>st.
               bnd (of_result (map_err library_go_away (dec_window (old - target) (st_recv_flow st)))) (\<lambda>fl.
               on_stream k (\<lambda>x. x\<lparr>st_recv_flow := fl\<rparr>))))
           else if target > old then
             try_for_each (\<lambda>k. bnd (the_stream k) (\<lambda>st.
               bnd (of_result (map_err library_go_away (inc_window (target - old) (st_recv_flow st)))) (\<lambda>fl.
               on_stream k (\<lambda>x. x\<lparr>st_recv_flow := fl\<rparr>))))
           else ret ())))"

definition recv_go_away :: "stream_id \<Rightarrow> ('m, 'st, 'h, unit, 'e) iact" where
  "recv_go_away last_processed = bnd (gets i_recv) (\<lambda>rv.
     seq (check (rcv_max_stream_id rv \<ge> last_processed))
         (on_recv (\<lambda>rv. rv\<lparr>rcv_max_stream_id := last_processed\<rparr>)))"

definition recv_handle_error :: "proto_error \<Rightarrow> key \<Rightarrow> ('m, 'st, 'h, unit, 'e) iact" where
  "recv_handle_error er k =
     seq (on_state k (state_handle_error er)) (seq (recv_clear_stream_queue k) (notify_recv k))"

definition recv_recv_eof :: "key \<Rightarrow> ('m, 'st, 'h, unit, 'e) iact" where
  "recv_recv_eof k = seq (on_state k state_recv_eof) (notify_recv k)"

section \<open>Opening\<close>

definition recv_next_stream_id :: "recv_state \<Rightarrow> (stream_id, proto_error) result" where
  "recv_next_stream_id rv =
     (case rcv_next_stream_id rv of Some sid \<Rightarrow> Ok sid | None \<Rightarrow> Err (library_go_away PROTOCOL_ERROR))"

definition can_open :: "stream_id \<Rightarrow> open_mode \<Rightarrow> role \<Rightarrow> ('m, 'st, 'h, stream_id option, proto_error) iact" where
  "can_open sid mode r = bnd (gets i_recv) (\<lambda>rv.
     seq (check (rcv_refused rv = None))
     (seq (of_result (ensure_can_open r sid mode))
     (bnd (of_result (recv_next_stream_id rv)) (\<lambda>next.
      if sid < next then throw (library_go_away PROTOCOL_ERROR)
      else
        seq (on_recv (\<lambda>rv. rv\<lparr>rcv_next_stream_id := next_id sid\<rparr>))
        (bnd (gets i_counts) (\<lambda>c.
         if \<not> can_inc_num_recv_streams c
         then seq (on_recv (\<lambda>rv. rv\<lparr>rcv_refused := Some sid\<rparr>)) (ret None)
         else ret (Some sid)))))))"

definition recv_maybe_reset_next_stream_id :: "stream_id \<Rightarrow> ('m, 'st, 'h, unit, 'e) iact" where
  "recv_maybe_reset_next_stream_id sid = bnd (gets i_recv) (\<lambda>rv.
     case rcv_next_stream_id rv of
       None \<Rightarrow> ret ()
     | Some next \<Rightarrow>
         seq (check (is_server_initiated sid = is_server_initiated next))
             (if_then (sid \<ge> next) (on_recv (\<lambda>rv. rv\<lparr>rcv_next_stream_id := next_id sid\<rparr>))))"

section \<open>Clearing\<close>

definition clear_all_reset_streams :: "('m, 'st, 'h, unit, 'e) iact" where
  "clear_all_reset_streams = drain QResetExpire (\<lambda>k. transition_after k True)"

definition clear_all_pending_accept :: "('m, 'st, 'h, unit, 'e) iact" where
  "clear_all_pending_accept = drain QAccept (\<lambda>k. transition_after k False)"

definition clear_all_pending_complete :: "('m, 'st, 'h, unit, 'e) iact" where
  "clear_all_pending_complete = drain QComplete (\<lambda>k. transition_after k False)"

definition recv_clear_queues :: "bool \<Rightarrow> ('m, 'st, 'h, unit, 'e) iact" where
  "recv_clear_queues clear_pending_accept =
     seq clear_all_reset_streams
     (seq clear_all_pending_complete (if_then clear_pending_accept clear_all_pending_accept))"

definition clear_expired_reset_streams :: "nat \<Rightarrow> ('m, 'st, 'h, unit, 'e) iact" where
  "clear_expired_reset_streams now = bnd (gets (\<lambda>s. rcv_reset_duration (i_recv s))) (\<lambda>duration.
     drain_if QResetExpire (\<lambda>st. case st_reset_at st of Some t \<Rightarrow> now - t > duration | None \<Rightarrow> False)
       (\<lambda>k. transition_after k True))"

section \<open>Handing out\<close>

text \<open>
  \<open>send_pending_refusal\<close>: the RST_STREAM to buffer, when the codec is ready for it; \<open>None\<close> is \<open>Pending\<close>.
\<close>

definition send_pending_refusal :: "bool \<Rightarrow> ('m, 'st, 'h, reset_frame list option, 'e) iact" where
  "send_pending_refusal ready = bnd (gets (\<lambda>s. rcv_refused (i_recv s))) (\<lambda>r.
     case r of
       Some sid \<Rightarrow>
         if \<not> ready then ret None
         else seq (on_recv (\<lambda>rv. rv\<lparr>rcv_refused := None\<rparr>)) (ret (Some [reset_new sid REFUSED_STREAM]))
     | None \<Rightarrow> seq (on_recv (\<lambda>rv. rv\<lparr>rcv_refused := None\<rparr>)) (ret (Some [])))"

text \<open>
  \<open>process_remaining_frames\<close>: the events behind the headers make the body and the trailers; another
  \<open>Headers\<close> is \<open>unreachable!\<close>.
\<close>

fun remaining_frames :: "('m, 'st, 'h) event list \<Rightarrow> bytes option \<Rightarrow> 'h option \<Rightarrow> (bytes option \<times> 'h option, unit) result" where
  "remaining_frames [] body trailers = Ok (body, trailers)"
| "remaining_frames (EvHeaders _ # evs) body trailers = Panic"
| "remaining_frames (EvData d # evs) body trailers =
     remaining_frames evs (Some (case body of None \<Rightarrow> d | Some b \<Rightarrow> b @ d)) trailers"
| "remaining_frames (EvTrailers t # evs) body trailers = remaining_frames evs body (Some t)"

definition take_request :: "key \<Rightarrow> ('m, 'st, 'h, ('m, 'h) request, 'e) iact" where
  "take_request k = bnd (the_stream k) (\<lambda>st.
     case st_pending_recv st of
       EvHeaders (PmServer rq) # evs \<Rightarrow>
         (case remaining_frames evs None None of
            Ok (body, trailers) \<Rightarrow>
              seq (on_stream k (\<lambda>x. x\<lparr>st_pending_recv := []\<rparr>))
                  (ret (rq\<lparr>rq_body := (case body of Some b \<Rightarrow> Some b | None \<Rightarrow> rq_body rq),
                           rq_trailers := (case trailers of Some t \<Rightarrow> Some t | None \<Rightarrow> rq_trailers rq)\<rparr>))
          | _ \<Rightarrow> panic)
     | _ \<Rightarrow> panic)"

definition take_response :: "key \<Rightarrow> ('m, 'st, 'h, ('st, 'h) response, ('st, 'h) partial_response) iact" where
  "take_response k = bnd (the_stream k) (\<lambda>st.
     case st_pending_recv st of
       EvHeaders (PmClient rs) # evs \<Rightarrow>
         (case remaining_frames evs None None of
            Ok (body, trailers) \<Rightarrow>
              seq (on_stream k (\<lambda>x. x\<lparr>st_pending_recv := []\<rparr>))
                  (ret (rs\<lparr>rs_body := (case body of Some b \<Rightarrow> Some b | None \<Rightarrow> rs_body rs),
                           rs_trailers := (case trailers of Some t \<Rightarrow> Some t | None \<Rightarrow> rs_trailers rs)\<rparr>))
          | _ \<Rightarrow> panic)
     | [] \<Rightarrow> throw \<lparr>pr_response = None, pr_err = op_error_from_proto (library_reset (st_id st) PROTOCOL_ERROR)\<rparr>
     | _ \<Rightarrow> panic)"

definition recv_poll_response ::
  "waker \<Rightarrow> key \<Rightarrow> ('m, 'st, 'h, ('st, 'h) response poll, ('st, 'h) partial_response) iact" where
  "recv_poll_response w k = bnd (the_stream k) (\<lambda>st.
     if is_recv_end_stream (st_state st) then bnd (take_response k) (\<lambda>rs. ret (Ready rs))
     else case ensure_recv_open (st_state st) of
       Err er \<Rightarrow>
         bnd (attempt (take_response k)) (\<lambda>r.
         let partial = (case r of
                          Ok rs \<Rightarrow> \<lparr>pr_response = Some rs, pr_err = op_error_from_proto er\<rparr>
                        | Err p \<Rightarrow> p\<lparr>pr_err := op_error_from_proto er\<rparr>
                        | Panic \<Rightarrow> \<lparr>pr_response = None, pr_err = op_error_from_proto er\<rparr>) in
         throw (if st_is_buf_limit_reached st then partial\<lparr>pr_err := OpUser BufferLimitExceeded\<rparr> else partial))
     | _ \<Rightarrow> seq (on_stream k (\<lambda>x. x\<lparr>st_recv_task := Some w\<rparr>)) (ret Pending))"

definition recv_take_partial_response :: "key \<Rightarrow> ('m, 'st, 'h, ('st, 'h) response option, 'e) iact" where
  "recv_take_partial_response k = bnd (attempt (take_response k)) (\<lambda>r.
     ret (case r of Ok rs \<Rightarrow> Some rs | _ \<Rightarrow> None))"

end
