(* ===== verification/Stream_Inner.thy ===== *)
theory Stream_Inner
  imports Stream_Send Stream_Recv
begin

text \<open>
  The frames of the peer against the whole set of streams (\<open>proto/streams/action.rs\<close> and
  \<open>proto/streams/inner.rs\<close>): looking streams up and creating them, dispatching to the halves, turning
  stream errors into RST_STREAM, and what connection errors, GOAWAY and the end of the transport do to
  every stream.
\<close>

section \<open>Actions\<close>

text \<open>The error of a reset that is one too many, \<open>proto::error::GoAway\<close>.\<close>

record conn_go_away =
  cga_debug_data :: bytes
  cga_reason :: reason

definition too_many_internal_resets :: conn_go_away where
  "too_many_internal_resets = \<lparr>cga_debug_data = str ''too_many_internal_resets'', cga_reason = ENHANCE_YOUR_CALM\<rparr>"

definition actions_send_reset :: "nat \<Rightarrow> key \<Rightarrow> reason \<Rightarrow> initiator \<Rightarrow> ('m, 'st, 'h, unit, conn_go_away) iact" where
  "actions_send_reset now k r ini = transition k (
     bnd (gets i_counts) (\<lambda>c.
     seq (if initiator_is_library ini then
            if can_inc_num_local_error_resets c then inc_num_local_error_resets
            else throw too_many_internal_resets
          else ret ())
     (seq (send_send_reset r ini k)
     (seq (enqueue_reset_expiration now k) (notify_recv k)))))"

definition reset_on_recv_stream_err :: "nat \<Rightarrow> key \<Rightarrow> (unit, proto_error) result \<Rightarrow> ('m, 'st, 'h, unit, proto_error) iact" where
  "reset_on_recv_stream_err now k res =
     (case res of
        Err (PReset sid r ini) \<Rightarrow>
          bnd (the_stream k) (\<lambda>st.
          seq (check (sid = st_id st))
          (bnd (gets i_counts) (\<lambda>c.
           if can_inc_num_local_error_resets c then
             seq inc_num_local_error_resets
             (seq (send_send_reset r ini k)
             (seq (enqueue_reset_expiration now k) (notify_recv k)))
           else throw (library_go_away_data ENHANCE_YOUR_CALM (str ''too_many_internal_resets'')))))
      | _ \<Rightarrow> of_result res)"

definition next_id_of :: "bool \<Rightarrow> ('m, 'st, 'h) inner \<Rightarrow> stream_id option" where
  "next_id_of loc s = (if loc then snd_next_stream_id (i_send s) else rcv_next_stream_id (i_recv s))"

definition ensure_not_idle :: "role \<Rightarrow> stream_id \<Rightarrow> ('m, 'st, 'h, unit, reason) iact" where
  "ensure_not_idle r sid = bnd (of_result (is_local_init r sid)) (\<lambda>loc.
     bnd (gets (next_id_of loc)) (\<lambda>nx.
     case nx of
       Some next \<Rightarrow> if sid \<ge> next then throw PROTOCOL_ERROR else ret ()
     | None \<Rightarrow> ret ()))"

definition is_forgotten_stream :: "role \<Rightarrow> stream_id \<Rightarrow> ('m, 'st, 'h, bool, 'e) iact" where
  "is_forgotten_stream r sid =
     (if stream_id_is_zero sid then ret False
      else bnd (of_result (is_local_init r sid)) (\<lambda>loc.
        bnd (gets (next_id_of loc)) (\<lambda>nx.
        case nx of
          Some next \<Rightarrow> seq (check (is_server_initiated sid = is_server_initiated next)) (ret (sid < next))
        | None \<Rightarrow> ret True)))"

definition ensure_no_conn_error :: "('m, 'st, 'h, unit, proto_error) iact" where
  "ensure_no_conn_error = bnd (gets i_conn_error) (\<lambda>er. case er of Some x \<Rightarrow> throw x | None \<Rightarrow> ret ())"

definition actions_clear_queues :: "bool \<Rightarrow> ('m, 'st, 'h, unit, 'e) iact" where
  "actions_clear_queues clear_pending_accept = seq (recv_clear_queues clear_pending_accept) send_clear_queues"

section \<open>DATA\<close>

definition inner_recv_data :: "nat \<Rightarrow> data_frame \<Rightarrow> ('m, 'st, 'h, unit, proto_error) iact" where
  "inner_recv_data now f =
     (let sid = d_stream_id f in
      bnd (gets (find_mut sid)) (\<lambda>found.
      bnd (gets (\<lambda>s. c_role (i_counts s))) (\<lambda>r.
      case found of
        None \<Rightarrow>
          bnd (gets i_recv) (\<lambda>rv.
          if sid > rcv_max_stream_id rv then ret ()
          else bnd (is_forgotten_stream r sid) (\<lambda>forgotten.
            if forgotten then
              seq (check (length (d_data f) \<le> unat MAX_WINDOW_SIZE))
              (seq (on_recv (\<lambda>rv. rv\<lparr>rcv_check_connection_window_update := True\<rparr>))
              (seq (dec_connection_window (word_of_nat (length (d_data f))))
                   (throw (library_reset sid STREAM_CLOSED))))
            else throw (library_go_away PROTOCOL_ERROR)))
      | Some k \<Rightarrow>
          transition k (
            bnd (attempt (recv_recv_data f k r)) (\<lambda>res. reset_on_recv_stream_err now k res)))))"

section \<open>HEADERS\<close>

definition insert_or_create ::
  "((nat \<rightharpoonup> ('m, 'st, 'h) stream) \<Rightarrow> nat) \<Rightarrow> stream_id \<Rightarrow> role \<Rightarrow> ('m, 'st, 'h, key option, proto_error) iact" where
  "insert_or_create pick sid r =
     bnd (gets (find_mut sid)) (\<lambda>found.
     case found of
       Some k \<Rightarrow> ret (Some k)
     | None \<Rightarrow>
         bnd (if \<not> is_server r then is_forgotten_stream r sid else ret False) (\<lambda>forgotten.
         if forgotten then throw (library_reset sid STREAM_CLOSED)
         else bnd (can_open sid OpenHeaders r) (\<lambda>opened.
           case opened of
             None \<Rightarrow> ret None
           | Some sid' \<Rightarrow>
               bnd (gets (\<lambda>s. stream_new sid' (snd_init_stream_window_sz (i_send s))
                                             (rcv_init_stream_window_sz (i_recv s)))) (\<lambda>st.
               bnd (store_insert pick sid' st) (\<lambda>k. ret (Some k))))))"

text \<open>
  HEADERS on a stream that takes them, else trailers. An oversized header block makes a server answer
  431 and reset the stream once that is sent. Trailers without END_STREAM leave by \<open>return\<close>, past
  \<open>reset_on_recv_stream_err\<close>.
\<close>

definition answer_headers ::
  "('m, 'st) ext \<Rightarrow> 'h hmap \<Rightarrow> ('m, 'st, 'h) http \<Rightarrow> nat \<Rightarrow> key \<Rightarrow> stream_id \<Rightarrow>
     (unit, ('m, 'st, 'h) recv_header_block_error) result \<Rightarrow> ('m, 'st, 'h, (unit, proto_error) result, proto_error) iact" where
  "answer_headers e H W now k sid res =
     (case res of
        Ok _ \<Rightarrow> ret (Ok ())
      | Err (Oversize (Some resp)) \<Rightarrow>
          bnd (attempt (send_headers e H W resp k)) (\<lambda>sent.
          seq (check (sent = Ok ()))
          (seq (schedule_implicit_reset k PROTOCOL_ERROR)
          (seq (enqueue_reset_expiration now k) (ret (Ok ())))))
      | Err (Oversize None) \<Rightarrow> ret (Err (library_reset sid PROTOCOL_ERROR))
      | Err (RState er) \<Rightarrow> ret (Err er)
      | Panic \<Rightarrow> panic)"

definition recv_headers_on ::
  "('m, 'st) ext \<Rightarrow> 'h hmap \<Rightarrow> ('m, 'st, 'h) http \<Rightarrow> nat \<Rightarrow> ('m, 'st, 'h) headers_frame \<Rightarrow> key \<Rightarrow> role \<Rightarrow>
     ('m, 'st, 'h) stream \<Rightarrow> ('m, 'st, 'h, unit, proto_error) iact" where
  "recv_headers_on e H W now f k r st =
     (if is_recv_headers (st_state st) then
        bnd (attempt (recv_recv_headers e H W f k)) (\<lambda>res.
        bnd (answer_headers e H W now k (st_id st) res) (reset_on_recv_stream_err now k))
      else if \<not> headers_is_end_stream f then throw (library_reset (st_id st) PROTOCOL_ERROR)
      else bnd (attempt (recv_recv_trailers f k r)) (reset_on_recv_stream_err now k))"

definition inner_recv_headers ::
  "('m, 'st) ext \<Rightarrow> 'h hmap \<Rightarrow> ('m, 'st, 'h) http \<Rightarrow> ((nat \<rightharpoonup> ('m, 'st, 'h) stream) \<Rightarrow> nat) \<Rightarrow> nat \<Rightarrow>
     ('m, 'st, 'h) headers_frame \<Rightarrow> ('m, 'st, 'h, unit, proto_error) iact" where
  "inner_recv_headers e H W pick now f =
     (let sid = hf_stream_id f in
      bnd (gets (\<lambda>s. c_role (i_counts s))) (\<lambda>r.
      bnd (gets i_recv) (\<lambda>rv.
      if sid > rcv_max_stream_id rv then ret ()
      else bnd (insert_or_create pick sid r) (\<lambda>created.
        case created of
          None \<Rightarrow> ret ()
        | Some k \<Rightarrow> bnd (the_stream k) (\<lambda>st.
            if is_local_error (st_state st) then ret ()
            else transition k (recv_headers_on e H W now f k r st))))))"

section \<open>RST_STREAM\<close>

definition inner_recv_reset :: "reset_frame \<Rightarrow> ('m, 'st, 'h, unit, proto_error) iact" where
  "inner_recv_reset f =
     (let sid = rst_stream_id f in
      if stream_id_is_zero sid then throw (library_go_away PROTOCOL_ERROR)
      else bnd (gets i_recv) (\<lambda>rv.
        if sid > rcv_max_stream_id rv then ret ()
        else bnd (gets (find_mut sid)) (\<lambda>found.
          case found of
            None \<Rightarrow> bnd (gets (\<lambda>s. c_role (i_counts s))) (\<lambda>r. on_err library_go_away (ensure_not_idle r sid))
          | Some k \<Rightarrow> transition k (
              seq (recv_recv_reset f k)
              (seq (send_handle_error k)
              (bnd (the_stream k) (\<lambda>st. check (is_closed (st_state st)))))))))"

definition inner_send_reset ::
  "((nat \<rightharpoonup> ('m, 'st, 'h) stream) \<Rightarrow> nat) \<Rightarrow> nat \<Rightarrow> stream_id \<Rightarrow> reason \<Rightarrow> ('m, 'st, 'h, unit, conn_go_away) iact" where
  "inner_send_reset pick now sid r =
     bnd (gets (find_mut sid)) (\<lambda>found.
     bnd (case found of
            Some k \<Rightarrow> ret k
          | None \<Rightarrow>
              bnd (gets (\<lambda>s. c_role (i_counts s))) (\<lambda>rl.
              bnd (of_result (is_local_init rl sid)) (\<lambda>loc.
              seq (if loc then send_maybe_reset_next_stream_id sid else recv_maybe_reset_next_stream_id sid)
                  (store_insert pick sid (stream_new sid 0 0))))) (\<lambda>k.
     actions_send_reset now k r Library))"

section \<open>GOAWAY and connection errors\<close>

definition inner_recv_go_away :: "go_away_frame \<Rightarrow> ('m, 'st, 'h, unit, proto_error) iact" where
  "inner_recv_go_away f =
     (let last_id = ga_last_stream_id f; er = remote_go_away (ga_debug_data f) (ga_error_code f) in
      seq (send_recv_go_away last_id)
      (seq (try_for_each (\<lambda>k. bnd (the_stream k) (\<lambda>st.
              if_then (st_id st > last_id)
                (transition k (seq (recv_handle_error er k) (send_handle_error k))))))
           (modify (\<lambda>s. s\<lparr>i_conn_error := Some er\<rparr>))))"

definition inner_handle_error :: "proto_error \<Rightarrow> ('m, 'st, 'h, stream_id, 'e) iact" where
  "inner_handle_error er =
     bnd (gets (\<lambda>s. rcv_last_processed_id (i_recv s))) (\<lambda>last_processed.
     seq (try_for_each (\<lambda>k. transition k (seq (recv_handle_error er k) (send_handle_error k))))
     (seq (modify (\<lambda>s. s\<lparr>i_conn_error := Some er\<rparr>)) (ret last_processed)))"

definition inner_recv_eof :: "bool \<Rightarrow> ('m, 'st, 'h, unit, 'e) iact" where
  "inner_recv_eof clear_pending_accept =
     seq (modify (\<lambda>s. if i_conn_error s = None
            then s\<lparr>i_conn_error := Some (broken_pipe_error ''connection closed because of a broken pipe'')\<rparr> else s))
     (seq (try_for_each (\<lambda>k. transition k (seq (recv_recv_eof k) (send_handle_error k))))
          (actions_clear_queues clear_pending_accept))"

section \<open>WINDOW_UPDATE\<close>

definition inner_recv_window_update :: "nat \<Rightarrow> window_update_frame \<Rightarrow> ('m, 'st, 'h, unit, proto_error) iact" where
  "inner_recv_window_update now f =
     (let sid = wu_stream_id f; sz = wu_size_increment f in
      if stream_id_is_zero sid then on_err library_go_away (recv_connection_window_update sz)
      else bnd (gets (find_mut sid)) (\<lambda>found.
        case found of
          Some k \<Rightarrow>
            bnd (attempt (on_err (library_reset sid) (recv_stream_window_update sz k))) (\<lambda>res.
            reset_on_recv_stream_err now k res)
        | None \<Rightarrow> bnd (gets (\<lambda>s. c_role (i_counts s))) (\<lambda>r. on_err library_go_away (ensure_not_idle r sid))))"

text \<open>
  \<open>poll_window_update\<close>: the WINDOW_UPDATE frames due, for the connection and for the stream that received
  data last. \<open>ready1\<close> and \<open>ready2\<close> are the codec's answers; \<open>False\<close> in the result is \<open>Pending\<close>.
\<close>

definition should_send_connection_window_update :: "('m, 'st, 'h, window_size option, 'e) iact" where
  "should_send_connection_window_update = bnd (gets (\<lambda>s. rcv_flow (i_recv s))) (\<lambda>fl.
     case should_send_window_update fl of Ok v \<Rightarrow> ret v | _ \<Rightarrow> panic)"

definition should_send_stream_window_update :: "('m, 'st, 'h, (stream_id \<times> window_size) option, 'e) iact" where
  "should_send_stream_window_update = bnd (gets (\<lambda>s. rcv_check_stream_window_update (i_recv s))) (\<lambda>ck.
     case ck of
       None \<Rightarrow> ret None
     | Some k \<Rightarrow> bnd (the_stream k) (\<lambda>st.
         case should_send_window_update (st_recv_flow st) of
           Ok v \<Rightarrow> ret (map_option (\<lambda>sz. (st_id st, sz)) v) | _ \<Rightarrow> panic))"

definition poll_stream_window ::
  "window_update_frame list \<Rightarrow> bool \<Rightarrow> ('m, 'st, 'h, window_update_frame list \<times> bool, 'e) iact" where
  "poll_stream_window out ready2 =
     (let finish = (\<lambda>frames. seq (on_recv (\<lambda>rv. rv\<lparr>rcv_check_connection_window_update := False,
                                             rcv_check_stream_window_update := None\<rparr>)) (ret (frames, True))) in
      bnd should_send_stream_window_update (\<lambda>upd.
      case upd of
        Some (sid, sz) \<Rightarrow>
          if \<not> ready2 then ret (out, False)
          else bnd (gets (find_mut sid)) (\<lambda>found.
            seq (case found of
                   Some k \<Rightarrow> on_stream k (\<lambda>x. case inc_window sz (st_recv_flow x) of
                               Ok fl \<Rightarrow> x\<lparr>st_recv_flow := fl\<rparr> | _ \<Rightarrow> x)
                 | None \<Rightarrow> ret ())
                (finish (out @ [window_update_new sid sz])))
      | None \<Rightarrow> finish out))"

definition poll_window_update ::
  "bool \<Rightarrow> bool \<Rightarrow> ('m, 'st, 'h, window_update_frame list \<times> bool, 'e) iact" where
  "poll_window_update ready1 ready2 =
     bnd (gets (\<lambda>s. rcv_check_connection_window_update (i_recv s))) (\<lambda>due.
     if \<not> due then ret ([], True)
     else bnd should_send_connection_window_update (\<lambda>conn.
       case conn of
         Some sz \<Rightarrow>
           if \<not> ready1 then ret ([], False)
           else seq (attempt (inc_connection_window sz))
                    (poll_stream_window [window_update_new STREAM_ID_ZERO sz] ready2)
       | None \<Rightarrow> poll_stream_window [] ready2))"

definition inner_poll_complete ::
  "waker \<Rightarrow> bool list \<Rightarrow> nat \<Rightarrow> ('m, 'st, 'h, ('m, 'st, 'h) frame list \<times> bool, 'e) iact" where
  "inner_poll_complete w readies max_frame_len =
     bnd (send_poll_complete readies max_frame_len) (\<lambda>(out, finished).
     seq (if_then finished (modify (\<lambda>s. s\<lparr>i_task := Some w\<rparr>))) (ret (out, finished)))"

end
