(* ===== verification/Streams_Api.thy ===== *)
theory Streams_Api
  imports Stream_Inner
begin

text \<open>
  The streams as the connection and the application see them: \<open>Streams\<close> (\<open>proto/streams/streams.rs\<close>),
  the handles \<open>OpaqueStreamRef\<close> and \<open>StreamRef\<close> (\<open>proto/streams/opaque_streams_ref.rs\<close>,
  \<open>proto/streams/streams_ref.rs\<close>). The mutex around \<open>Inner\<close> makes each call one step. A handle is the key
  it holds.
\<close>

section \<open>Sending messages\<close>

definition queue_body_trailer ::
  "key \<Rightarrow> data_frame option \<Rightarrow> ('m, 'st, 'h) headers_frame option \<Rightarrow> ('m, 'st, 'h, unit, 'e) iact" where
  "queue_body_trailer k d t =
     seq (case d of
            None \<Rightarrow> ret ()
          | Some f \<Rightarrow> seq (on_stream k (\<lambda>x. x\<lparr>st_remaining_data_len := Some (length (d_data f))\<rparr>))
                         (push_frame_back k (FData f)))
         (case t of None \<Rightarrow> ret () | Some h \<Rightarrow> push_frame_back k (FHeaders h))"

text \<open>
  \<open>Streams::send_request\<close>: a new stream with the request's frames on it, and a handle. With \<open>is_spa\<close> a
  request without a body gets an empty DATA frame.
\<close>

definition send_request_frames ::
  "('m, 'st) ext \<Rightarrow> 'h hmap \<Rightarrow> ('m, 'st, 'h) http \<Rightarrow> ('m, 'h) request \<Rightarrow> bool \<Rightarrow> stream_id \<Rightarrow> key \<Rightarrow>
     ('m, 'st, 'h, key, send_error) iact" where
  "send_request_frames e H W rq is_spa sid k =
     bnd (of_result (request_frames H W sid rq)) (\<lambda>frames.
     bnd (if tt_data frames = None \<and> is_spa
          then bnd (of_result (data_new sid [])) (\<lambda>d. ret (headers_unset_end_stream (tt_header frames), Some d))
          else ret (tt_header frames, tt_data frames)) (\<lambda>(header, d).
     bnd (attempt (send_headers e H W header k)) (\<lambda>sent.
     case sent of
       Err er \<Rightarrow> seq (unlink k) (seq (store_remove k) (throw (SUser er)))
     | Panic \<Rightarrow> panic
     | Ok _ \<Rightarrow>
         seq (queue_body_trailer k d (tt_trailer frames))
         (bnd (the_stream k) (\<lambda>x.
          seq (check (\<not> is_closed (st_state x)))
          (seq (modify (\<lambda>s. s\<lparr>i_refs := i_refs s + 1\<rparr>))
          (seq (ref_inc k) (ret k))))))))"

definition send_request ::
  "('m, 'st) ext \<Rightarrow> 'h hmap \<Rightarrow> ('m, 'st, 'h) http \<Rightarrow> ((nat \<rightharpoonup> ('m, 'st, 'h) stream) \<Rightarrow> nat) \<Rightarrow>
     ('m, 'h) request \<Rightarrow> bool \<Rightarrow> ('m, 'st, 'h, key, send_error) iact" where
  "send_request e H W pick rq is_spa =
     seq (on_err SConnection ensure_no_conn_error)
     (seq (on_err SUser ensure_next_stream_id)
     (bnd (gets (\<lambda>s. c_role (i_counts s))) (\<lambda>r.
      if is_server r then throw (SUser UnexpectedFrameType)
      else
        bnd (on_err SUser send_open_id) (\<lambda>sid.
        bnd (gets (\<lambda>s. stream_new sid (snd_init_stream_window_sz (i_send s)) (rcv_init_stream_window_sz (i_recv s)))) (\<lambda>st0.
        let st = (if rq_method rq = METHOD_HEAD W then st0\<lparr>st_content_length := CLHead\<rparr> else st0) in
        bnd (store_insert pick sid st) (send_request_frames e H W rq is_spa sid))))))"

section \<open>Accepting\<close>

definition next_accept :: "('m, 'st, 'h, key option, 'e) iact" where
  "next_accept = bnd recv_next_accept (\<lambda>r.
     case r of
       None \<Rightarrow> ret None
     | Some k \<Rightarrow> bnd (the_stream k) (\<lambda>st.
         seq (modify (\<lambda>s. s\<lparr>i_refs := i_refs s + 1\<rparr>))
         (seq (if_then (is_remote_reset (st_state st)) dec_num_remote_reset_streams)
         (seq (ref_inc k) (ret (Some k))))))"

section \<open>Settings and GOAWAY\<close>

definition streams_apply_local_settings :: "settings \<Rightarrow> ('m, 'st, 'h, unit, proto_error) iact" where
  "streams_apply_local_settings cfg = recv_apply_local_settings cfg"

definition streams_apply_remote_settings :: "settings \<Rightarrow> ('m, 'st, 'h, unit, proto_error) iact" where
  "streams_apply_remote_settings cfg =
     seq (on_counts (counts_apply_remote_settings cfg)) (send_apply_remote_settings cfg)"

definition streams_send_go_away :: "stream_id \<Rightarrow> ('m, 'st, 'h, unit, 'e) iact" where
  "streams_send_go_away last_processed = recv_go_away last_processed"

definition has_streams_or_other_references :: "('m, 'st, 'h) inner \<Rightarrow> bool" where
  "has_streams_or_other_references s \<longleftrightarrow> has_streams (i_counts s) \<or> i_refs s > 1"

text \<open>\<open>Clone\<close> and \<open>Drop\<close> of \<open>Streams\<close>; \<open>refs - 1\<close> is a checked subtraction.\<close>

definition streams_clone :: "('m, 'st, 'h, unit, 'e) iact" where
  "streams_clone = modify (\<lambda>s. s\<lparr>i_refs := i_refs s + 1\<rparr>)"

definition streams_drop :: "('m, 'st, 'h, unit, 'e) iact" where
  "streams_drop = bnd (gets i_refs) (\<lambda>n.
     seq (check (n > 0))
     (seq (modify (\<lambda>s. s\<lparr>i_refs := n - 1\<rparr>)) (if_then (n - 1 = 1) wake_task)))"

section \<open>Handles\<close>

definition opaque_poll_response ::
  "waker \<Rightarrow> key \<Rightarrow> ('m, 'st, 'h, ('st, 'h) response poll, ('st, 'h) partial_response) iact" where
  "opaque_poll_response w k = recv_poll_response w k"

definition opaque_take_partial_response :: "key \<Rightarrow> ('m, 'st, 'h, ('st, 'h) response option, 'e) iact" where
  "opaque_take_partial_response k = recv_take_partial_response k"

definition opaque_clone :: "key \<Rightarrow> ('m, 'st, 'h, key, 'e) iact" where
  "opaque_clone k = seq (ref_inc k) (seq (modify (\<lambda>s. s\<lparr>i_refs := i_refs s + 1\<rparr>)) (ret k))"

definition maybe_cancel :: "nat \<Rightarrow> key \<Rightarrow> ('m, 'st, 'h, unit, 'e) iact" where
  "maybe_cancel now k = bnd (the_stream k) (\<lambda>st. bnd (gets (\<lambda>s. c_role (i_counts s))) (\<lambda>r.
     if_then (is_canceled_interest st \<and> \<not> st_is_pending_send st)
       (seq (schedule_implicit_reset k
              (if is_server r \<and> is_send_closed (st_state st) \<and> is_recv_streaming (st_state st)
               then NO_ERROR else CANCEL))
            (enqueue_reset_expiration now k))))"

text \<open>
  \<open>Drop for OpaqueStreamRef\<close>. A fixed ten bytes of window are given back when the stream holds any. The
  push promises of the stream are a queue that no code fills; its streams would be cancelled too.
\<close>

fun cancel_promises :: "nat \<Rightarrow> key list \<Rightarrow> ('m, 'st, 'h, unit, 'e) iact" where
  "cancel_promises now [] = ret ()"
| "cancel_promises now (p # ps) =
     seq (on_stream p (set_queued QAccept 0 False))
     (seq (transition p (maybe_cancel now p)) (cancel_promises now ps))"

definition opaque_drop :: "nat \<Rightarrow> key \<Rightarrow> ('m, 'st, 'h, unit, 'e) iact" where
  "opaque_drop now k =
     bnd (gets i_refs) (\<lambda>n.
     seq (check (n > 0))
     (seq (modify (\<lambda>s. s\<lparr>i_refs := n - 1\<rparr>))
     (seq (ref_dec k)
     (bnd (the_stream k) (\<lambda>st.
      seq (if_then (st_ref_count st = 0 \<and> stream_is_closed st) wake_task)
      (seq (if_then (st_connection_window_allocated st > 0)
             (seq (attempt (recv_connection_window_update 10)) (ret ())))
      (seq (recv_clear_stream_queue k)
      (transition k (
        seq (maybe_cancel now k)
        (bnd (the_stream k) (\<lambda>st1.
         if_then (st_ref_count st1 = 0)
           (seq (on_stream k (\<lambda>x. x\<lparr>st_pending_push_promises := []\<rparr>))
                (cancel_promises now (st_pending_push_promises st1))))))))))))))"

definition stream_ref_take_request :: "key \<Rightarrow> ('m, 'st, 'h, ('m, 'h) request, 'e) iact" where
  "stream_ref_take_request k = take_request k"

definition send_response ::
  "('m, 'st) ext \<Rightarrow> 'h hmap \<Rightarrow> ('m, 'st, 'h) http \<Rightarrow> ('st, 'h) response \<Rightarrow> key \<Rightarrow> ('m, 'st, 'h, unit, user_error) iact" where
  "send_response e H W rs k = bnd (the_stream k) (\<lambda>st.
     if is_remote_reset (st_state st) then seq wake_task (throw InactiveStreamId)
     else
       bnd (of_result (response_frames H (st_id st) rs)) (\<lambda>frames.
       seq (transition k (send_headers e H W (tt_header frames) k))
           (queue_body_trailer k (tt_data frames) (tt_trailer frames))))"

definition stream_ref_send_reset :: "nat \<Rightarrow> reason \<Rightarrow> key \<Rightarrow> ('m, 'st, 'h, unit, 'e) iact" where
  "stream_ref_send_reset now r k = bnd (attempt (actions_send_reset now k r User)) (\<lambda>res.
     case res of Ok _ \<Rightarrow> ret () | _ \<Rightarrow> panic)"

end
