(* ===== verification/Stream_Spa.thy ===== *)
theory Stream_Spa
  imports Streams_Api
begin

text \<open>
  The single packet attack (\<open>spa.rs\<close> and the last methods of \<open>proto/streams/send.rs\<close>): the last DATA frames
  of a group of requests are held back and go out together, at once or when a PING, or a second one, was
  answered. \<open>nonce\<close> stands for the payload that \<open>build_ping_payload\<close> draws from the clock; \<open>w\<close> is the task
  of the context. Frames handed to the codec come back as a list, in order.
\<close>

section \<open>The tracker\<close>

definition spa_tracker_from :: "spa_mode \<Rightarrow> spa_tracker" where
  "spa_tracker_from m = \<lparr>spa_pending = [], spa_pending_stream_window_update = None, spa_mode = m\<rparr>"

definition are_pending_stream_window_update :: "spa_tracker \<Rightarrow> bool" where
  "are_pending_stream_window_update t \<longleftrightarrow> spa_pending_stream_window_update t \<noteq> None"

definition is_enhanced_ping :: "spa_tracker \<Rightarrow> bool" where
  "is_enhanced_ping t = (case spa_mode t of EnhancedPing _ _ \<Rightarrow> True | _ \<Rightarrow> False)"

definition add_enhanced_ping_first_ping :: "bytes \<Rightarrow> spa_tracker \<Rightarrow> ping_handler \<Rightarrow> spa_tracker \<times> ping_handler" where
  "add_enhanced_ping_first_ping nonce t ph =
     (case spa_mode t of
        EnhancedPing _ _ \<Rightarrow> (t\<lparr>spa_mode := EnhancedPing FirstSent (Some nonce)\<rparr>, send_ping nonce ph)
      | _ \<Rightarrow> (t, ph))"

text \<open>\<open>recvd_ping\<close> with whether the task is woken.\<close>

definition spa_recvd_ping :: "bytes \<Rightarrow> spa_tracker \<Rightarrow> spa_tracker \<times> bool" where
  "spa_recvd_ping payload t =
     (case spa_mode t of
        SpaPing (Some (sent, ack)) \<Rightarrow> (t\<lparr>spa_mode := SpaPing (Some (sent, if sent = payload then True else ack))\<rparr>, False)
      | EnhancedPing FirstSent p \<Rightarrow>
          if p = Some payload then (t\<lparr>spa_mode := EnhancedPing SecondToSend None\<rparr>, False) else (t, False)
      | EnhancedPing SecondSent p \<Rightarrow>
          if p = Some payload then (t\<lparr>spa_mode := EnhancedPing Fin None\<rparr>, True) else (t, False)
      | _ \<Rightarrow> (t, False))"

section \<open>The held back frames\<close>

text \<open>
  \<open>fill_frames\<close>: the first frame of each stream, with END_STREAM on a DATA frame. A frame the codec refuses as
  too big is lost, its result being ignored.
\<close>

definition codec_takes :: "nat \<Rightarrow> ('m, 'st, 'h) frame \<Rightarrow> bool" where
  "codec_takes max_frame_size f = (case f of FData d \<Rightarrow> length (d_data d) \<le> max_frame_size | _ \<Rightarrow> True)"

definition fill_frame :: "stream_id \<Rightarrow> ('m, 'st, 'h, ('m, 'st, 'h) frame, 'e) iact" where
  "fill_frame sid = bnd (gets (find_mut sid)) (\<lambda>found.
     case found of
       None \<Rightarrow> panic
     | Some k \<Rightarrow> bnd (the_stream k) (\<lambda>st.
         case st_pending_send st of
           [] \<Rightarrow> panic
         | f # fs \<Rightarrow>
             seq (on_stream k (\<lambda>x. x\<lparr>st_pending_send := fs\<rparr>))
             (case f of
                FData d \<Rightarrow>
                  seq (bnd (the_stream k) (\<lambda>x.
                         case send_close (st_state x) of Ok st' \<Rightarrow> on_state k (\<lambda>_. st') | _ \<Rightarrow> panic))
                      (ret (FData (data_set_end_stream True d)))
              | _ \<Rightarrow> ret f)))"

fun fill_frames :: "nat \<Rightarrow> stream_id list \<Rightarrow> ('m, 'st, 'h, ('m, 'st, 'h) frame list, 'e) iact" where
  "fill_frames max_frame_size [] = ret []"
| "fill_frames max_frame_size (sid # ids) =
     bnd (fill_frame sid) (\<lambda>f.
     bnd (fill_frames max_frame_size ids) (\<lambda>out.
     ret ((if codec_takes max_frame_size f then [f] else []) @ out)))"

text \<open>
  \<open>poll_fill_frames\<close>: \<open>ready1\<close> is the answer of the first flush (made when the write buffer is not empty),
  \<open>ready2\<close> that of the second.
\<close>

definition poll_fill_frames ::
  "nat \<Rightarrow> bool \<Rightarrow> bool \<Rightarrow> spa_tracker \<Rightarrow> ('m, 'st, 'h, unit poll \<times> ('m, 'st, 'h) frame list, 'e) iact" where
  "poll_fill_frames max_frame_size ready1 ready2 t =
     (if \<not> ready1 then ret (Pending, [])
      else
        seq (on_spa (\<lambda>t. t\<lparr>spa_pending := sort (spa_pending t)\<rparr>))
        (bnd (fill_frames max_frame_size (sort (spa_pending t))) (\<lambda>out.
         ret (if ready2 then Ready () else Pending, out))))"

section \<open>Polling\<close>

text \<open>\<open>SpaTracker::poll\<close>; the last component is \<open>is_done\<close>.\<close>

definition spa_poll ::
  "waker \<Rightarrow> bytes \<Rightarrow> nat \<Rightarrow> bool \<Rightarrow> bool \<Rightarrow> bool \<Rightarrow> ping_handler \<Rightarrow> spa_tracker \<Rightarrow>
     ('m, 'st, 'h, unit poll \<times> ('m, 'st, 'h) frame list \<times> ping_handler \<times> bool, 'e) iact" where
  "spa_poll w nonce max_frame_size ready1 ready2 can_spa ph t =
     (let fill = bnd (poll_fill_frames max_frame_size ready1 ready2 t) (\<lambda>(p, out).
                   ret (p, out, ph, p = Ready ()));
          send = (\<lambda>m. seq (on_spa (\<lambda>t. t\<lparr>spa_mode := m\<rparr>)) (seq (wake w) (ret (Pending, [], send_ping nonce ph, False)))) in
      case spa_mode t of
        Native \<Rightarrow> fill
      | SpaPing (Some (_, True)) \<Rightarrow> fill
      | EnhancedPing Fin _ \<Rightarrow> fill
      | SpaPing None \<Rightarrow> send (SpaPing (Some (nonce, False)))
      | EnhancedPing SecondToSend p \<Rightarrow>
          if can_spa then send (EnhancedPing SecondSent (Some nonce)) else ret (Pending, [], ph, False)
      | _ \<Rightarrow> ret (Pending, [], ph, False))"

text \<open>\<open>Send::poll_spa\<close>; \<open>ready3\<close> is the answer of its own flush.\<close>

definition send_poll_spa ::
  "waker \<Rightarrow> bytes \<Rightarrow> nat \<Rightarrow> bool \<Rightarrow> bool \<Rightarrow> bool \<Rightarrow> ping_handler \<Rightarrow>
     ('m, 'st, 'h, unit poll \<times> ('m, 'st, 'h) frame list \<times> ping_handler, 'e) iact" where
  "send_poll_spa w nonce max_frame_size ready1 ready2 ready3 ph =
     bnd (gets can_perform_spa) (\<lambda>can_spa.
     bnd (gets (\<lambda>s. snd_spa_tracker (i_send s))) (\<lambda>tracker.
     case tracker of
       None \<Rightarrow> ret (Ready (), [], ph)
     | Some t \<Rightarrow>
         if are_pending_stream_window_update t \<or> \<not> can_spa then ret (Ready (), [], ph)
         else
           bnd (spa_poll w nonce max_frame_size ready1 ready2 can_spa ph t) (\<lambda>(p, out, ph', is_done).
           seq (if_then is_done (on_send (\<lambda>sn. sn\<lparr>snd_spa_tracker := None\<rparr>)))
               (ret (if p = Ready () \<and> ready3 then Ready () else Pending, out, ph')))))"

definition send_recvd_ping :: "waker \<Rightarrow> bytes \<Rightarrow> ('m, 'st, 'h, unit, 'e) iact" where
  "send_recvd_ping w payload =
     bnd (gets (\<lambda>s. snd_spa_tracker (i_send s))) (\<lambda>tracker.
     case tracker of
       None \<Rightarrow> ret ()
     | Some t \<Rightarrow>
         seq (on_spa (\<lambda>t. fst (spa_recvd_ping payload t))) (if_then (snd (spa_recvd_ping payload t)) (wake w)))"

end
