(* ===== verification/Streams_Inv.thy ===== *)
theory Streams_Inv
  imports Stream_Spa
begin

text \<open>
  The invariant of the streams layer and its preservation by every operation. It ties together what
  the components keep apart: the index from stream IDs to slots, the flags of the streams and the six
  queues, the counters and the streams that are counted.
\<close>

section \<open>The invariant\<close>

fun is_active :: "state \<Rightarrow> bool" where
  "is_active (Open _ _) = True"
| "is_active (HalfClosedLocal _) = True"
| "is_active (HalfClosedRemote _) = True"
| "is_active _ = False"

definition local_stream :: "role \<Rightarrow> ('m, 'st, 'h) stream \<Rightarrow> bool" where
  "local_stream r st \<longleftrightarrow> is_server r = is_server_initiated (st_id st)"

text \<open>
  A stream of the peer that is open or half closed is counted; only our own wait to be opened; no stream
  has push promises.
\<close>

definition stream_ok :: "role \<Rightarrow> ('m, 'st, 'h) stream \<Rightarrow> bool" where
  "stream_ok r st \<longleftrightarrow> st_id st \<noteq> 0
     \<and> (\<not> local_stream r st \<longrightarrow> is_active (st_state st) \<longrightarrow> st_is_counted st)
     \<and> (st_is_pending_open st \<longrightarrow> local_stream r st)
     \<and> st_pending_push_promises st = []"

text \<open>Between operations no stream is idle or reserved.\<close>

definition opened :: "state \<Rightarrow> bool" where
  "opened x \<longleftrightarrow> is_active x \<or> is_closed x"

definition ids_ok :: "(nat \<rightharpoonup> ('m, 'st, 'h) stream) \<Rightarrow> (stream_id \<times> nat) list \<Rightarrow> bool" where
  "ids_ok slab ids \<longleftrightarrow> distinct (map fst ids)
     \<and> (\<forall>(sid, i) \<in> set ids. \<exists>st. slab i = Some st \<and> st_id st = sid)"

definition queue_ok :: "(nat \<rightharpoonup> ('m, 'st, 'h) stream) \<Rightarrow> queue_id \<Rightarrow> key list \<Rightarrow> bool" where
  "queue_ok slab q ks \<longleftrightarrow> distinct (map key_index ks)
     \<and> (\<forall>k \<in> set ks. \<exists>st. deref slab k = Some st \<and> queued q st)
     \<and> (\<forall>i st. slab i = Some st \<longrightarrow> queued q st \<longrightarrow> i \<in> key_index ` set ks)"

definition counted_streams :: "role \<Rightarrow> bool \<Rightarrow> (nat \<rightharpoonup> ('m, 'st, 'h) stream) \<Rightarrow> nat set" where
  "counted_streams r side slab =
     {i. \<exists>st. slab i = Some st \<and> st_is_counted st \<and> local_stream r st = side}"

definition counts_ok :: "nat \<Rightarrow> counts \<Rightarrow> (nat \<rightharpoonup> ('m, 'st, 'h) stream) \<Rightarrow> (queue_id \<Rightarrow> key list) \<Rightarrow> bool" where
  "counts_ok n c slab qs \<longleftrightarrow>
     card (counted_streams (c_role c) False slab) \<le> num_recv_streams c
   \<and> num_recv_streams c \<le> max_recv_streams c
   \<and> card (counted_streams (c_role c) True slab) \<le> num_send_streams c
   \<and> length (qs QResetExpire) + n \<le> num_local_reset_streams c
   \<and> num_local_reset_streams c \<le> max_local_reset_streams c
   \<and> num_remote_reset_streams c \<le> max_remote_reset_streams c
   \<and> (\<forall>m. max_local_error_reset_streams c = Some m \<longrightarrow> num_local_error_reset_streams c \<le> m)"

text \<open>
  The streams of the slots \<open>X\<close> may still be idle: an operation that creates a stream has one. \<open>n\<close> streams
  that are counted as reset have left the queue of resets and are about to be uncounted.
\<close>

definition inv_core ::
  "nat \<Rightarrow> nat set \<Rightarrow> counts \<Rightarrow> (nat \<rightharpoonup> ('m, 'st, 'h) stream) \<Rightarrow> (stream_id \<times> nat) list \<Rightarrow> (queue_id \<Rightarrow> key list) \<Rightarrow> bool" where
  "inv_core n X c slab ids qs \<longleftrightarrow> finite (dom slab)
     \<and> (\<forall>i st. slab i = Some st \<longrightarrow> stream_ok (c_role c) st \<and> (i \<in> X \<or> opened (st_state st)))
     \<and> ids_ok slab ids \<and> (\<forall>q. queue_ok slab q (qs q)) \<and> counts_ok n c slab qs"

definition inv_but :: "nat \<Rightarrow> nat set \<Rightarrow> ('m, 'st, 'h) inner \<Rightarrow> bool" where
  "inv_but n X s = inv_core n X (i_counts s) (i_slab s) (i_ids s) (\<lambda>q. qlist q s)"

definition inner_inv :: "('m, 'st, 'h) inner \<Rightarrow> bool" where
  "inner_inv s = inv_but 0 {} s"

section \<open>Fields\<close>

lemma qlist_set_qlist [simp]: "qlist q (set_qlist q' ks s) = (if q = q' then ks else qlist q s)"
  by (cases q; cases q') simp_all

lemma set_qlist_fields [simp]:
  "i_counts (set_qlist q ks s) = i_counts s" "i_slab (set_qlist q ks s) = i_slab s"
  "i_ids (set_qlist q ks s) = i_ids s" "i_refs (set_qlist q ks s) = i_refs s"
  "i_task (set_qlist q ks s) = i_task s" "i_conn_error (set_qlist q ks s) = i_conn_error s"
  by (cases q; simp)+

lemma qlist_update [simp]:
  "qlist q (s\<lparr>i_counts := c\<rparr>) = qlist q s" "qlist q (s\<lparr>i_slab := m\<rparr>) = qlist q s"
  "qlist q (s\<lparr>i_ids := ids\<rparr>) = qlist q s" "qlist q (s\<lparr>i_refs := n\<rparr>) = qlist q s"
  "qlist q (s\<lparr>i_task := t\<rparr>) = qlist q s" "qlist q (s\<lparr>i_conn_error := er\<rparr>) = qlist q s"
  "qlist q (s\<lparr>i_woken := w\<rparr>) = qlist q s"
  by (cases q; simp)+

lemma set_queued_fields [simp]:
  "queued q (set_queued q' now v st) = (if q = q' then v else queued q st)"
  "st_id (set_queued q now v st) = st_id st" "st_is_counted (set_queued q now v st) = st_is_counted st"
  "st_state (set_queued q now v st) = st_state st" "st_ref_count (set_queued q now v st) = st_ref_count st"
  "st_pending_push_promises (set_queued q now v st) = st_pending_push_promises st"
  by (cases q; cases q'; simp; fail) (cases q; simp)+

lemma deref_Some: "deref slab k = Some st \<longleftrightarrow> slab (key_index k) = Some st \<and> st_id st = key_stream_id k"
  by (auto simp: deref_def split: option.splits)

lemma deref_upd_same:
  "deref slab k = Some st \<Longrightarrow> st_id st' = st_id st \<Longrightarrow> deref (slab(key_index k \<mapsto> st')) k = Some st'"
  by (simp add: deref_Some)

lemma deref_upd_id:
  "slab i = Some st \<Longrightarrow> st_id st' = st_id st \<Longrightarrow>
     deref (slab(i \<mapsto> st')) k = (if key_index k = i then map_option (\<lambda>_. st') (deref slab k) else deref slab k)"
  by (auto simp: deref_def)

section \<open>Pure steps that keep the invariant\<close>

lemma queue_ok_upd:
  assumes "queue_ok slab q ks" "slab i = Some st" "st_id st' = st_id st" "queued q st' = queued q st"
  shows "queue_ok (slab(i \<mapsto> st')) q ks"
  unfolding queue_ok_def
proof (intro conjI ballI allI impI)
  show "distinct (map key_index ks)" using assms(1) by (simp add: queue_ok_def)
next
  fix k assume "k \<in> set ks"
  with assms(1) obtain x where "deref slab k = Some x" "queued q x" by (auto simp: queue_ok_def)
  with assms(2-4) show "\<exists>st. deref (slab(i \<mapsto> st')) k = Some st \<and> queued q st"
    by (auto simp: deref_upd_id deref_Some)
next
  fix j x assume "(slab(i \<mapsto> st')) j = Some x" "queued q x"
  with assms show "j \<in> key_index ` set ks" by (auto simp: queue_ok_def split: if_splits)
qed

lemma ids_ok_upd:
  "ids_ok slab ids \<Longrightarrow> slab i = Some st \<Longrightarrow> st_id st' = st_id st \<Longrightarrow> ids_ok (slab(i \<mapsto> st')) ids"
  by (fastforce simp: ids_ok_def)

lemma counted_streams_upd:
  "slab i = Some st \<Longrightarrow> st_id st' = st_id st \<Longrightarrow> st_is_counted st' = st_is_counted st \<Longrightarrow>
     counted_streams r side (slab(i \<mapsto> st')) = counted_streams r side slab"
  by (auto simp: counted_streams_def local_stream_def)

text \<open>What an update of a stream must leave alone to be invisible to queues, index and counters.\<close>

definition benign :: "role \<Rightarrow> ('m, 'st, 'h) stream \<Rightarrow> ('m, 'st, 'h) stream \<Rightarrow> bool" where
  "benign r st st' \<longleftrightarrow> st_id st' = st_id st \<and> (\<forall>q. queued q st' = queued q st)
     \<and> st_is_counted st' = st_is_counted st \<and> (stream_ok r st \<longrightarrow> stream_ok r st')
     \<and> (opened (st_state st) \<longrightarrow> opened (st_state st'))"

lemma inv_core_benign:
  assumes "inv_core n X c slab ids qs" "slab i = Some st" "benign (c_role c) st st'"
  shows "inv_core n X c (slab(i \<mapsto> st')) ids qs"
  using assms by (auto simp: inv_core_def benign_def counts_ok_def counted_streams_upd intro: queue_ok_upd ids_ok_upd)

lemma inv_but_benign:
  assumes "inv_but n X s" "deref (i_slab s) k = Some st" "benign (c_role (i_counts s)) st st'"
  shows "inv_but n X (s\<lparr>i_slab := (i_slab s)(key_index k \<mapsto> st')\<rparr>)"
  using assms by (auto simp: inv_but_def deref_Some intro: inv_core_benign)

lemma inv_but_stream_ok: "inv_but n X s \<Longrightarrow> deref (i_slab s) k = Some st \<Longrightarrow> stream_ok (c_role (i_counts s)) st"
  by (auto simp: inv_but_def inv_core_def deref_Some)

section \<open>The primitives\<close>

lemma the_stream_eq: "the_stream k s = (case deref (i_slab s) k of Some st \<Rightarrow> (Ok st, s) | None \<Rightarrow> (Panic, s))"
  by (simp add: the_stream_def)

lemma on_stream_eq:
  "on_stream k f s = (case deref (i_slab s) k of
     Some st \<Rightarrow> (Ok (), s\<lparr>i_slab := (i_slab s)(key_index k \<mapsto> f st)\<rparr>) | None \<Rightarrow> (Panic, s))"
  by (simp add: on_stream_def the_stream_def bnd_apply split: option.splits)

lemma keeps_the_stream [keeps_rules]: "keeps I (the_stream k)"
  by (auto simp: keeps_def the_stream_eq split: option.splits)

lemma keeps_on_stream:
  assumes "\<And>st r. benign r st (f st)"
  shows "keeps (inv_but n X) (on_stream k f)"
  using assms by (auto simp: keeps_def on_stream_eq split: option.splits intro: inv_but_benign)

lemma keeps_on_recv:
  assumes "\<And>rv. rcv_pending_accept (f rv) = rcv_pending_accept rv \<and> rcv_pending_complete (f rv) = rcv_pending_complete rv
    \<and> rcv_pending_reset_expired (f rv) = rcv_pending_reset_expired rv"
  shows "keeps (inv_but n X) (on_recv f :: ('m, 'st, 'h, unit, 'e) iact)"
proof -
  have "qlist q (s\<lparr>i_recv := f (i_recv s)\<rparr>) = qlist q s" for q and s :: "('m, 'st, 'h) inner" using assms by (cases q) simp_all
  then show ?thesis by (simp add: on_recv_def inv_but_def keeps_def)
qed

lemma keeps_on_send:
  assumes "\<And>sn. snd_pending_send (f sn) = snd_pending_send sn \<and> snd_pending_capacity (f sn) = snd_pending_capacity sn
    \<and> snd_pending_open (f sn) = snd_pending_open sn"
  shows "keeps (inv_but n X) (on_send f :: ('m, 'st, 'h, unit, 'e) iact)"
proof -
  have "qlist q (s\<lparr>i_send := f (i_send s)\<rparr>) = qlist q s" for q and s :: "('m, 'st, 'h) inner" using assms by (cases q) simp_all
  then show ?thesis by (simp add: on_send_def inv_but_def keeps_def)
qed

lemma keeps_modify_other [keeps_rules]:
  "keeps (inv_but n X) (modify (\<lambda>s. s\<lparr>i_task := f s\<rparr>))" "keeps (inv_but n X) (modify (\<lambda>s. s\<lparr>i_conn_error := g s\<rparr>))"
  "keeps (inv_but n X) (modify (\<lambda>s. s\<lparr>i_refs := h s\<rparr>))" "keeps (inv_but n X) (modify (\<lambda>s. s\<lparr>i_woken := w s\<rparr>))"
  by (simp_all add: keeps_def inv_but_def)

section \<open>Queues\<close>

lemma queue_ok_fresh:
  assumes "queue_ok slab q ks" "deref slab k = Some st" "\<not> queued q st"
  shows "key_index k \<notin> key_index ` set ks"
proof
  assume "key_index k \<in> key_index ` set ks"
  then obtain k' where "k' \<in> set ks" "key_index k' = key_index k" by auto
  with assms show False by (fastforce simp: queue_ok_def deref_Some)
qed

lemma queue_ok_insert:
  assumes "queue_ok slab q (xs @ ys)" "deref slab k = Some st" "\<not> queued q st"
    "st_id st' = st_id st" "queued q st'"
  shows "queue_ok (slab(key_index k \<mapsto> st')) q (xs @ k # ys)"
proof -
  note fresh = queue_ok_fresh [OF assms(1-3)]
  have "\<exists>x. deref (slab(key_index k \<mapsto> st')) k' = Some x \<and> queued q x" if "k' \<in> set (xs @ k # ys)" for k'
  proof (cases "k' = k")
    case True
    with assms show ?thesis by (auto simp: deref_Some)
  next
    case False
    with that have mem: "k' \<in> set (xs @ ys)" by auto
    with fresh have "key_index k' \<noteq> key_index k" by (metis image_eqI)
    with mem assms(1) show ?thesis by (auto simp: queue_ok_def deref_def)
  qed
  with fresh assms(1) show ?thesis by (auto simp: queue_ok_def split: if_splits)
qed

lemma queue_ok_remove:
  assumes "queue_ok slab q (k # ks)" "deref slab k = Some st" "st_id st' = st_id st" "\<not> queued q st'"
  shows "queue_ok (slab(key_index k \<mapsto> st')) q ks"
proof -
  have fresh: "key_index k \<notin> key_index ` set ks" using assms(1) by (auto simp: queue_ok_def)
  have "\<exists>x. deref (slab(key_index k \<mapsto> st')) k' = Some x \<and> queued q x" if "k' \<in> set ks" for k'
  proof -
    from that fresh have "key_index k' \<noteq> key_index k" by (metis image_eqI)
    with that assms(1) show ?thesis by (auto simp: queue_ok_def deref_def)
  qed
  with assms(1,4) show ?thesis by (auto simp: queue_ok_def split: if_splits)
qed

lemma set_queued_pending_open [simp]:
  "st_is_pending_open (set_queued q now v st) = (if q = QOpen then v else st_is_pending_open st)"
  by (cases q) simp_all

lemma stream_ok_set_queued:
  "stream_ok r st \<Longrightarrow> (q = QOpen \<Longrightarrow> v \<Longrightarrow> local_stream r st) \<Longrightarrow> stream_ok r (set_queued q now v st)"
  by (auto simp: stream_ok_def local_stream_def)

lemma inv_core_push:
  assumes inv: "inv_core n X c slab ids qs" and k: "deref slab k = Some st" "\<not> queued q st"
    and q: "qs q = xs @ ys" and room: "q = QResetExpire \<Longrightarrow> length (qs QResetExpire) + n < num_local_reset_streams c"
    and loc: "q = QOpen \<Longrightarrow> local_stream (c_role c) st"
  shows "inv_core n X c (slab(key_index k \<mapsto> set_queued q now True st)) ids (qs(q := xs @ k # ys))"
proof -
  let ?slab = "slab(key_index k \<mapsto> set_queued q now True st)"
  have slab: "slab (key_index k) = Some st" using k(1) by (simp add: deref_Some)
  have "queue_ok ?slab q' ((qs(q := xs @ k # ys)) q')" for q'
  proof (cases "q' = q")
    case True
    from inv have "queue_ok slab q (xs @ ys)" using q by (auto simp: inv_core_def dest: spec [of _ q])
    from queue_ok_insert [OF this k] True show ?thesis by simp
  next
    case False
    with inv slab show ?thesis by (auto simp: inv_core_def intro: queue_ok_upd [where st = st])
  qed
  moreover have "counts_ok n c ?slab (qs(q := xs @ k # ys))"
    using inv room q counted_streams_upd [of slab "key_index k" st "set_queued q now True st", OF slab]
    by (auto simp: inv_core_def counts_ok_def)
  ultimately show ?thesis using inv slab loc
    by (auto simp: inv_core_def intro: stream_ok_set_queued ids_ok_upd [where st = st])
qed

lemma inv_core_pop:
  assumes inv: "inv_core n X c slab ids qs" and k: "deref slab k = Some st" and q: "qs q = k # ks"
  shows "inv_core (if q = QResetExpire then Suc n else n) X c (slab(key_index k \<mapsto> set_queued q now False st)) ids (qs(q := ks))"
proof -
  let ?slab = "slab(key_index k \<mapsto> set_queued q now False st)"
  have slab: "slab (key_index k) = Some st" using k by (simp add: deref_Some)
  have "queue_ok ?slab q' ((qs(q := ks)) q')" for q'
  proof (cases "q' = q")
    case True
    from inv have "queue_ok slab q (k # ks)" using q by (auto simp: inv_core_def dest: spec [of _ q])
    from queue_ok_remove [OF this k] True show ?thesis by simp
  next
    case False
    with inv slab show ?thesis by (auto simp: inv_core_def intro: queue_ok_upd [where st = st])
  qed
  moreover have "counts_ok (if q = QResetExpire then Suc n else n) c ?slab (qs(q := ks))"
    using inv q counted_streams_upd [of slab "key_index k" st "set_queued q now False st", OF slab]
    by (auto simp: inv_core_def counts_ok_def)
  ultimately show ?thesis using inv slab
    by (auto simp: inv_core_def intro: stream_ok_set_queued ids_ok_upd [where st = st])
qed

lemma qlist_fun_upd: "(\<lambda>q'. qlist q' (set_qlist q ks s)) = (\<lambda>q'. qlist q' s)(q := ks)"
  by (rule ext) simp

lemma q_push_eq:
  "q_push q now k s = (case deref (i_slab s) k of
     None \<Rightarrow> (Panic, s)
   | Some st \<Rightarrow>
       if queued q st then (Ok False, s)
       else if \<not> queue_guard q st then (Panic, s)
       else (Ok True, set_qlist q (qlist q s @ [k])
              (s\<lparr>i_slab := (i_slab s)(key_index k \<mapsto> set_queued q now True st)\<rparr>)))"
  by (simp add: q_push_def act_simps the_stream_eq on_stream_eq check_def split: option.splits)

lemma q_push_front_eq:
  "q_push_front q now k s = (case deref (i_slab s) k of
     None \<Rightarrow> (Panic, s)
   | Some st \<Rightarrow>
       if queued q st then (Ok False, s)
       else if \<not> queue_guard q st then (Panic, s)
       else (Ok True, set_qlist q (k # qlist q s)
              (s\<lparr>i_slab := (i_slab s)(key_index k \<mapsto> set_queued q now True st)\<rparr>)))"
  by (simp add: q_push_front_def act_simps the_stream_eq on_stream_eq check_def split: option.splits)

lemma q_pop_eq:
  "q_pop q s = (case qlist q s of
     [] \<Rightarrow> (Ok None, s)
   | k # ks \<Rightarrow> (case deref (i_slab s) k of
       None \<Rightarrow> (Panic, s)
     | Some st \<Rightarrow>
         if queued q st
         then (Ok (Some k), set_qlist q ks (s\<lparr>i_slab := (i_slab s)(key_index k \<mapsto> set_queued q 0 False st)\<rparr>))
         else (Panic, s)))"
  by (simp add: q_pop_def act_simps the_stream_eq on_stream_eq check_def split: option.splits list.splits)

lemma q_pop_if_eq:
  "q_pop_if q f s = (case qlist q s of
     [] \<Rightarrow> (Ok None, s)
   | k # ks \<Rightarrow> (case deref (i_slab s) k of
       None \<Rightarrow> (Panic, s) | Some st \<Rightarrow> if f st then q_pop q s else (Ok None, s)))"
  by (simp add: q_pop_if_def act_simps the_stream_eq split: option.splits list.splits)

lemma inv_but_push:
  assumes "inv_but n X s" "deref (i_slab s) k = Some st" "\<not> queued q st" "qlist q s = xs @ ys"
    "q = QResetExpire \<Longrightarrow> length (qlist QResetExpire s) + n < num_local_reset_streams (i_counts s)"
    "q = QOpen \<Longrightarrow> local_stream (c_role (i_counts s)) st"
  shows "inv_but n X (set_qlist q (xs @ k # ys) (s\<lparr>i_slab := (i_slab s)(key_index k \<mapsto> set_queued q now True st)\<rparr>))"
  using inv_core_push [OF assms(1) [unfolded inv_but_def] assms(2,3,4) assms(5,6)]
  by (simp add: inv_but_def qlist_fun_upd del: qlist_set_qlist)

lemma keeps_q_push [keeps_rules]: "q \<noteq> QResetExpire \<Longrightarrow> q \<noteq> QOpen \<Longrightarrow> keeps (inv_but n X) (q_push q now k)"
  using inv_but_push [where ys = "[]"] by (fastforce simp: keeps_def q_push_eq split: option.splits)

lemma keeps_q_push_front [keeps_rules]: "q \<noteq> QResetExpire \<Longrightarrow> q \<noteq> QOpen \<Longrightarrow> keeps (inv_but n X) (q_push_front q now k)"
  using inv_but_push [where xs = "[]"] by (fastforce simp: keeps_def q_push_front_eq split: option.splits)

lemma q_pop_inv:
  assumes inv: "inv_but n X s" and p: "q_pop q s = (Ok (Some k), s')"
  shows "inv_but (if q = QResetExpire then Suc n else n) X s'"
proof -
  from p obtain ks st where ks: "qlist q s = k # ks" and st: "deref (i_slab s) k = Some st"
    and s': "s' = set_qlist q ks (s\<lparr>i_slab := (i_slab s)(key_index k \<mapsto> set_queued q 0 False st)\<rparr>)"
    by (auto simp: q_pop_eq split: option.splits if_splits list.splits)
  from inv_core_pop [OF inv [unfolded inv_but_def] st ks] show ?thesis
    by (simp add: s' inv_but_def qlist_fun_upd del: qlist_set_qlist)
qed

lemma q_pop_outcome: "q_pop q s = (r, s') \<Longrightarrow> r \<noteq> Panic \<Longrightarrow> (r = Ok None \<and> s' = s) \<or> (\<exists>k. r = Ok (Some k))"
  by (auto simp: q_pop_eq split: list.splits option.splits if_splits)

lemma q_pop_if_outcome: "q_pop_if q f s = (r, s') \<Longrightarrow> r \<noteq> Panic \<Longrightarrow> (r = Ok None \<and> s' = s) \<or> q_pop q s = (r, s')"
  by (auto simp: q_pop_if_eq split: list.splits option.splits if_splits)

lemma keeps_q_pop [keeps_rules]:
  assumes "q \<noteq> QResetExpire"
  shows "keeps (inv_but n X) (q_pop q)"
proof (rule keepsI)
  fix s r s' assume inv: "inv_but n X s" and p: "q_pop q s = (r, s')" and r: "r \<noteq> Panic"
  from q_pop_outcome [OF p r] inv p q_pop_inv [OF inv, of q _ s'] assms show "inv_but n X s'" by auto
qed

lemma keeps_q_pop_if [keeps_rules]: "q \<noteq> QResetExpire \<Longrightarrow> keeps (inv_but n X) (q_pop_if q f)"
  using q_pop_if_outcome by (blast intro: keepsI dest: keepsD [OF keeps_q_pop])

section \<open>Index and slab\<close>

lemma set_last_butlast: "xs \<noteq> [] \<Longrightarrow> insert (last xs) (set (butlast xs)) = set xs"
  by (metis append_butlast_last_id list.set(2) rotate1.simps(2) set_rotate1)

lemma swap_remove_set: "distinct (map fst ids) \<Longrightarrow> set (swap_remove sid ids) = {x \<in> set ids. fst x \<noteq> sid}"
  by (induction ids) (auto simp: set_last_butlast, force+)

lemma swap_remove_distinct: "distinct (map fst ids) \<Longrightarrow> distinct (map fst (swap_remove sid ids))"
proof (induction ids)
  case (Cons x xs)
  have "distinct (map fst (last xs # butlast xs))" if "xs \<noteq> []"
    using Cons.prems that by (cases xs rule: rev_cases) auto
  moreover have "fst x \<notin> fst ` set (swap_remove sid xs)"
    using Cons.prems swap_remove_set [of xs sid] by auto
  ultimately show ?case using Cons by auto
qed simp

lemma ids_ok_swap_remove: "ids_ok slab ids \<Longrightarrow> ids_ok slab (swap_remove sid ids)"
  using swap_remove_set [of ids sid] swap_remove_distinct [of ids sid] by (auto simp: ids_ok_def)

lemma keeps_unlink [keeps_rules]: "keeps (inv_but n X) (unlink k)"
  by (simp add: keeps_def unlink_def inv_but_def inv_core_def ids_ok_swap_remove)

lemma store_remove_eq:
  "store_remove k s = (if map_of (i_ids s) (key_stream_id k) \<noteq> None then (Panic, s)
     else case i_slab s (key_index k) of
       None \<Rightarrow> (Panic, s)
     | Some st \<Rightarrow>
         let s' = s\<lparr>i_slab := (i_slab s)(key_index k := None)\<rparr> in
         if st_id st = key_stream_id k then (Ok (), s') else (Panic, s'))"
  by (simp add: store_remove_def act_simps check_def Let_def split: option.splits)

lemma released_not_queued: "is_released st \<Longrightarrow> \<not> queued q st"
  by (cases q) (simp_all add: is_released_def)

lemma counted_streams_finite: "finite (dom slab) \<Longrightarrow> finite (counted_streams r side slab)"
  by (rule finite_subset [of _ "dom slab"]) (auto simp: counted_streams_def)

lemma queue_ok_None:
  assumes "queue_ok slab q ks" "deref slab k = Some st" "\<not> queued q st"
  shows "queue_ok (slab(key_index k := None)) q ks"
proof -
  note fresh = queue_ok_fresh [OF assms]
  have "deref (slab(key_index k := None)) k' = deref slab k'" if "k' \<in> set ks" for k'
  proof -
    from that fresh have "key_index k' \<noteq> key_index k" by (metis image_eqI)
    then show ?thesis by (simp add: deref_def)
  qed
  with assms(1) show ?thesis by (auto simp: queue_ok_def split: if_splits)
qed

lemma inv_but_remove:
  assumes inv: "inv_but n X s" and k: "deref (i_slab s) k = Some st" and nq: "\<And>q. \<not> queued q st"
    and ids: "map_of (i_ids s) (key_stream_id k) = None"
  shows "inv_but n X (s\<lparr>i_slab := (i_slab s)(key_index k := None)\<rparr>)"
proof -
  let ?slab = "(i_slab s)(key_index k := None)"
  have "ids_ok ?slab (i_ids s)"
    using inv ids k by (auto simp: inv_but_def inv_core_def ids_ok_def map_of_eq_None_iff deref_Some) force+
  moreover have "counted_streams r side ?slab \<subseteq> counted_streams r side (i_slab s)" for r side
    by (auto simp: counted_streams_def split: if_splits)
  then have "card (counted_streams r side ?slab) \<le> card (counted_streams r side (i_slab s))" for r side
    using inv by (auto simp: inv_but_def inv_core_def intro!: card_mono counted_streams_finite)
  then have "counts_ok n (i_counts s) ?slab (\<lambda>q. qlist q s)"
    using inv by (auto simp: inv_but_def inv_core_def counts_ok_def intro: order_trans)
  moreover have "queue_ok ?slab q (qlist q s)" for q
    using inv queue_ok_None [OF _ k nq] by (auto simp: inv_but_def inv_core_def)
  ultimately show ?thesis using inv by (auto simp: inv_but_def inv_core_def split: if_splits)
qed

lemma keeps_release [keeps_rules]:
  "keeps (inv_but n X) (bnd (the_stream k) (\<lambda>st. if_then (is_released st) (store_remove k)))"
  using inv_but_remove released_not_queued
  by (fastforce simp: keeps_def act_simps the_stream_eq store_remove_eq if_then_def Let_def split: option.splits)

text \<open>
  The slab's promise: the slot it picks is vacant, and slots are numbered from zero and reused, so the
  number fits in 32 bits as long as fewer than \<open>2 ^ 32\<close> streams are stored.
\<close>

definition pick_ok :: "((nat \<rightharpoonup> ('m, 'st, 'h) stream) \<Rightarrow> nat) \<Rightarrow> bool" where
  "pick_ok pick \<longleftrightarrow> (\<forall>slab. finite (dom slab) \<longrightarrow> card (dom slab) < 2 ^ 32 \<longrightarrow>
     slab (pick slab) = None \<and> pick slab < 2 ^ 32)"

lemma store_insert_eq:
  "store_insert pick sid st s =
     (let i = pick (i_slab s); idx = i mod 2 ^ 32; s1 = s\<lparr>i_slab := (i_slab s)(i \<mapsto> st)\<rparr> in
      if map_of (i_ids s) sid \<noteq> None then (Panic, s1)
      else (Ok \<lparr>key_index = idx, key_stream_id = sid\<rparr>, s1\<lparr>i_ids := i_ids s @ [(sid, idx)]\<rparr>))"
  by (simp add: store_insert_def act_simps check_def Let_def)

definition fresh_stream :: "stream_id \<Rightarrow> ('m, 'st, 'h) stream \<Rightarrow> bool" where
  "fresh_stream sid st \<longleftrightarrow> st_id st = sid \<and> sid \<noteq> 0 \<and> st_state st = Idle \<and> \<not> st_is_counted st
     \<and> (\<forall>q. \<not> queued q st) \<and> st_pending_push_promises st = []"

lemma stream_new_not_queued: "\<not> queued q (stream_new sid a b)"
  by (cases q) (simp_all add: stream_new_def)

lemma fresh_stream_new: "sid \<noteq> 0 \<Longrightarrow> fresh_stream sid (stream_new sid a b)"
  using stream_new_not_queued by (auto simp: fresh_stream_def) (simp_all add: stream_new_def state_default_def)

lemma queue_ok_new:
  assumes "queue_ok slab q ks" "slab i = None" "\<not> queued q st"
  shows "queue_ok (slab(i \<mapsto> st)) q ks"
  unfolding queue_ok_def
proof (intro conjI ballI allI impI)
  fix k assume "k \<in> set ks"
  with assms(1) obtain x where x: "deref slab k = Some x" "queued q x" by (auto simp: queue_ok_def)
  with assms(2) have "key_index k \<noteq> i" by (auto simp: deref_Some)
  with x show "\<exists>st'. deref (slab(i \<mapsto> st)) k = Some st' \<and> queued q st'" by (auto simp: deref_def)
qed (use assms in \<open>auto simp: queue_ok_def split: if_splits\<close>)

lemma inv_but_insert:
  assumes inv: "inv_but n X s" and i: "i_slab s i = None" and st: "fresh_stream sid st"
    and ids: "map_of (i_ids s) sid = None"
  shows "inv_but n (insert i X) (s\<lparr>i_slab := (i_slab s)(i \<mapsto> st), i_ids := i_ids s @ [(sid, i)]\<rparr>)"
proof -
  let ?slab = "(i_slab s)(i \<mapsto> st)"
  have "ids_ok ?slab (i_ids s @ [(sid, i)])"
    using inv ids i st by (fastforce simp: inv_but_def inv_core_def ids_ok_def map_of_eq_None_iff fresh_stream_def)
  moreover have "counted_streams r side ?slab = counted_streams r side (i_slab s)" for r side
    using i st by (auto simp: counted_streams_def fresh_stream_def split: if_splits)
  moreover have "queue_ok ?slab q (qlist q s)" for q
    using inv i st by (auto simp: inv_but_def inv_core_def fresh_stream_def intro: queue_ok_new)
  ultimately show ?thesis using inv st
    by (auto simp: inv_but_def inv_core_def counts_ok_def fresh_stream_def stream_ok_def dest: spec [of _ QOpen])
qed

lemma store_insert_inv:
  assumes "pick_ok pick" "inv_but n X s" "fresh_stream sid st" "store_insert pick sid st s = (r, s')" "r \<noteq> Panic"
    "card (dom (i_slab s)) < 2 ^ 32"
  obtains k where "r = Ok k" "deref (i_slab s') k = Some st" "inv_but n (insert (key_index k) X) s'"
    "i_counts s' = i_counts s" "key_stream_id k = sid" "i_send s' = i_send s" "i_slab s (key_index k) = None"
    "i_slab s' = (i_slab s)(key_index k \<mapsto> st)" "(sid, key_index k) \<in> set (i_ids s')"
proof -
  let ?i = "pick (i_slab s)"
  from assms(1,2,6) have i: "i_slab s ?i = None" "?i < 2 ^ 32" by (auto simp: pick_ok_def inv_but_def inv_core_def)
  then have "?i mod 2 ^ 32 = ?i" by simp
  with assms(4,5) have new: "map_of (i_ids s) sid = None" "r = Ok \<lparr>key_index = ?i, key_stream_id = sid\<rparr>"
    "s' = s\<lparr>i_slab := (i_slab s)(?i \<mapsto> st), i_ids := i_ids s @ [(sid, ?i)]\<rparr>"
    by (auto simp: store_insert_eq Let_def split: if_splits)
  show thesis
    by (rule that [of "\<lparr>key_index = ?i, key_stream_id = sid\<rparr>"])
      (use new(2,3) i assms(3) inv_but_insert [OF assms(2) i(1) assms(3) new(1)] in \<open>simp_all add: deref_Some fresh_stream_def\<close>)
qed

section \<open>Counters\<close>

lemma counted_streams_mark:
  assumes "slab i = Some st" "st_id st' = st_id st" "\<not> st_is_counted st" "st_is_counted st'"
  shows "counted_streams r side (slab(i \<mapsto> st')) =
    (if local_stream r st = side then insert i (counted_streams r side slab) else counted_streams r side slab)"
  using assms by (auto simp: counted_streams_def local_stream_def)

lemma counted_streams_unmark:
  assumes "slab i = Some st" "st_id st' = st_id st" "\<not> st_is_counted st'"
  shows "counted_streams r side (slab(i \<mapsto> st')) = counted_streams r side slab - {i}"
  using assms by (auto simp: counted_streams_def local_stream_def)

lemma inv_but_mark:
  assumes inv: "inv_but n X s" and k: "deref (i_slab s) k = Some st" "\<not> st_is_counted st"
    and c: "counts_ok n c (i_slab s) (\<lambda>q. qlist q s)" "c_role c = c_role (i_counts s)"
    and room: "local_stream (c_role c) st \<Longrightarrow> card (counted_streams (c_role c) True (i_slab s)) < num_send_streams c"
      "\<not> local_stream (c_role c) st \<Longrightarrow> card (counted_streams (c_role c) False (i_slab s)) < num_recv_streams c"
  shows "inv_but n X (s\<lparr>i_counts := c, i_slab := (i_slab s)(key_index k \<mapsto> st\<lparr>st_is_counted := True\<rparr>)\<rparr>)"
proof -
  let ?st = "st\<lparr>st_is_counted := True\<rparr>"
  let ?slab = "(i_slab s)(key_index k \<mapsto> ?st)"
  have slab: "i_slab s (key_index k) = Some st" using k by (simp add: deref_Some)
  have q: "queued q ?st = queued q st" for q by (cases q) simp_all
  have fin: "finite (counted_streams r side (i_slab s))" for r side
    using inv by (simp add: inv_but_def inv_core_def counted_streams_finite)
  have "key_index k \<notin> counted_streams r side (i_slab s)" for r side
    using slab k(2) by (auto simp: counted_streams_def)
  then have "counts_ok n c ?slab (\<lambda>q. qlist q s)"
    using c(1) room fin counted_streams_mark [of "i_slab s" "key_index k" st ?st, OF slab]  k(2)
    by (auto simp: counts_ok_def)
  with inv slab c(2) q show ?thesis
    by (auto simp: inv_but_def inv_core_def stream_ok_def local_stream_def intro: queue_ok_upd ids_ok_upd)
qed

lemma inv_but_unmark:
  assumes inv: "inv_but n X s" and k: "deref (i_slab s) k = Some st" "is_closed (st_state st)"
    and c: "c_role c = c_role (i_counts s)" "counts_ok n c ((i_slab s)(key_index k \<mapsto> st\<lparr>st_is_counted := False\<rparr>)) (\<lambda>q. qlist q s)"
  shows "inv_but n X (s\<lparr>i_counts := c, i_slab := (i_slab s)(key_index k \<mapsto> st\<lparr>st_is_counted := False\<rparr>)\<rparr>)"
proof -
  let ?st = "st\<lparr>st_is_counted := False\<rparr>"
  have slab: "i_slab s (key_index k) = Some st" using k by (simp add: deref_Some)
  have q: "queued q ?st = queued q st" for q by (cases q) simp_all
  have "\<not> is_active (st_state st)" using k(2) by (cases "st_state st") simp_all
  with inv slab c q show ?thesis
    by (auto simp: inv_but_def inv_core_def stream_ok_def local_stream_def intro: queue_ok_upd ids_ok_upd)
qed

lemma inv_but_counts: "inv_but n X s \<Longrightarrow> counts_ok n (i_counts s) (i_slab s) (\<lambda>q. qlist q s)"
  by (simp add: inv_but_def inv_core_def)

lemma inv_but_set_counts:
  "inv_but n X s \<Longrightarrow> c_role c = c_role (i_counts s) \<Longrightarrow> counts_ok m c (i_slab s) (\<lambda>q. qlist q s) \<Longrightarrow>
     inv_but m X (s\<lparr>i_counts := c\<rparr>)"
  by (simp add: inv_but_def inv_core_def)

lemma inc_num_recv_streams_eq:
  "inc_num_recv_streams k s = (case deref (i_slab s) k of
     None \<Rightarrow> (Panic, s)
   | Some st \<Rightarrow>
       if can_inc_num_recv_streams (i_counts s) \<and> \<not> st_is_counted st
       then (Ok (), s\<lparr>i_counts := (i_counts s)\<lparr>num_recv_streams := num_recv_streams (i_counts s) + 1\<rparr>,
                      i_slab := (i_slab s)(key_index k \<mapsto> st\<lparr>st_is_counted := True\<rparr>)\<rparr>)
       else (Panic, s))"
  by (simp add: inc_num_recv_streams_def act_simps the_stream_eq on_stream_eq on_counts_def check_def split: option.splits)

lemma inc_num_send_streams_eq:
  "inc_num_send_streams k s = (case deref (i_slab s) k of
     None \<Rightarrow> (Panic, s)
   | Some st \<Rightarrow>
       if can_inc_num_send_streams (i_counts s) \<and> \<not> st_is_counted st
       then (Ok (), s\<lparr>i_counts := (i_counts s)\<lparr>num_send_streams := num_send_streams (i_counts s) + 1\<rparr>,
                      i_slab := (i_slab s)(key_index k \<mapsto> st\<lparr>st_is_counted := True\<rparr>)\<rparr>)
       else (Panic, s))"
  by (simp add: inc_num_send_streams_def act_simps the_stream_eq on_stream_eq on_counts_def check_def split: option.splits)

text \<open>The counters after a stream of the given side is no longer counted.\<close>

definition uncount :: "bool \<Rightarrow> counts \<Rightarrow> counts" where
  "uncount loc c = (if loc then c\<lparr>num_send_streams := num_send_streams c - 1\<rparr>
                    else c\<lparr>num_recv_streams := num_recv_streams c - 1\<rparr>)"

lemma dec_num_streams_eq:
  "dec_num_streams k s = (case deref (i_slab s) k of
     None \<Rightarrow> (Panic, s)
   | Some st \<Rightarrow>
       let loc = local_stream (c_role (i_counts s)) st in
       if st_is_counted st \<and> st_id st \<noteq> 0
          \<and> (if loc then num_send_streams (i_counts s) else num_recv_streams (i_counts s)) > 0
       then (Ok (), s\<lparr>i_counts := uncount loc (i_counts s),
                      i_slab := (i_slab s)(key_index k \<mapsto> st\<lparr>st_is_counted := False\<rparr>)\<rparr>)
       else (Panic, s))"
  by (auto simp: dec_num_streams_def act_simps the_stream_eq on_stream_eq on_counts_def check_def is_local_init_def
      stream_id_is_zero_def local_stream_def uncount_def Let_def split: option.splits)

lemma inc_num_recv_streams_inv:
  assumes "inv_but n X s" "deref (i_slab s) k = Some st" "\<not> local_stream (c_role (i_counts s)) st"
    "inc_num_recv_streams k s = (r, s')" "r \<noteq> Panic"
  shows "inv_but n X s'"
  using assms inv_but_counts [OF assms(1)]
  by (auto simp: inc_num_recv_streams_eq can_inc_num_recv_streams_def counts_ok_def
      split: if_splits intro!: inv_but_mark)

lemma inc_num_send_streams_inv:
  assumes "inv_but n X s" "deref (i_slab s) k = Some st" "local_stream (c_role (i_counts s)) st"
    "inc_num_send_streams k s = (r, s')" "r \<noteq> Panic"
  shows "inv_but n X s'"
  using assms inv_but_counts [OF assms(1)]
  by (auto simp: inc_num_send_streams_eq counts_ok_def split: if_splits intro!: inv_but_mark)

lemma counts_ok_unmark:
  assumes "inv_but n X s" "deref (i_slab s) k = Some st" "st_is_counted st"
  shows "counts_ok n (uncount (local_stream (c_role (i_counts s)) st) (i_counts s))
    ((i_slab s)(key_index k \<mapsto> st\<lparr>st_is_counted := False\<rparr>)) (\<lambda>q. qlist q s)"
    and "(if local_stream (c_role (i_counts s)) st then num_send_streams (i_counts s) else num_recv_streams (i_counts s)) > 0"
proof -
  let ?r = "c_role (i_counts s)"
  have slab: "i_slab s (key_index k) = Some st" using assms by (simp add: deref_Some)
  have fin: "finite (counted_streams r side (i_slab s))" for r side
    using assms(1) by (simp add: inv_but_def inv_core_def counted_streams_finite)
  have mem: "key_index k \<in> counted_streams ?r side (i_slab s) \<longleftrightarrow> local_stream ?r st = side" for side
    using slab assms(3) by (auto simp: counted_streams_def)
  have card: "card (counted_streams ?r side (i_slab s) - {key_index k}) =
      (if local_stream ?r st = side then card (counted_streams ?r side (i_slab s)) - 1
       else card (counted_streams ?r side (i_slab s)))"
    "local_stream ?r st = side \<Longrightarrow> card (counted_streams ?r side (i_slab s)) > 0" for side
    using mem [of side] fin [of ?r side] by (auto simp: card_gt_0_iff)
  note un = counted_streams_unmark [of "i_slab s" "key_index k" st "st\<lparr>st_is_counted := False\<rparr>", OF slab]
  show "counts_ok n (uncount (local_stream ?r st) (i_counts s))
      ((i_slab s)(key_index k \<mapsto> st\<lparr>st_is_counted := False\<rparr>)) (\<lambda>q. qlist q s)"
    using inv_but_counts [OF assms(1)] card un by (auto simp: counts_ok_def uncount_def)
  show "(if local_stream ?r st then num_send_streams (i_counts s) else num_recv_streams (i_counts s)) > 0"
    using inv_but_counts [OF assms(1)] card(2) [of True] card(2) [of False] by (auto simp: counts_ok_def)
qed

text \<open>A closed stream can be uncounted: no assertion fails.\<close>

lemma dec_num_streams_inv:
  assumes "inv_but n X s" "deref (i_slab s) k = Some st" "is_closed (st_state st)" "st_is_counted st"
  obtains s' where "dec_num_streams k s = (Ok (), s')" "inv_but n X s'"
    "deref (i_slab s') k = Some (st\<lparr>st_is_counted := False\<rparr>)" "i_ids s' = i_ids s"
proof -
  let ?st = "st\<lparr>st_is_counted := False\<rparr>" and ?c = "uncount (local_stream (c_role (i_counts s)) st) (i_counts s)"
  let ?s = "s\<lparr>i_counts := ?c, i_slab := (i_slab s)(key_index k \<mapsto> ?st)\<rparr>"
  have "st_id st \<noteq> 0" using inv_but_stream_ok [OF assms(1,2)] by (simp add: stream_ok_def)
  with assms counts_ok_unmark(2) [OF assms(1,2,4)] have "dec_num_streams k s = (Ok (), ?s)"
    by (simp add: dec_num_streams_eq Let_def)
  moreover have "inv_but n X ?s"
    using inv_but_unmark [OF assms(1-3) _ counts_ok_unmark(1) [OF assms(1,2,4)]] by (simp add: uncount_def)
  ultimately show thesis using assms(2) by (intro that [of ?s]) (simp_all add: deref_upd_same)
qed

lemma keeps_checked_count:
  assumes "\<And>c (slab :: nat \<rightharpoonup> ('m, 'st, 'h) stream) qs. counts_ok n c slab qs \<Longrightarrow> b c \<Longrightarrow> counts_ok n (g c) slab qs"
    "\<And>c. c_role (g c) = c_role c"
  shows "keeps (inv_but n X) (bnd (gets i_counts) (\<lambda>c. seq (check (b c)) (on_counts g)) :: ('m, 'st, 'h, unit, 'e) iact)"
  using assms by (auto simp: keeps_def act_simps check_def on_counts_def intro!: inv_but_set_counts inv_but_counts)

lemma keeps_counters [keeps_rules]:
  "keeps (inv_but n X) inc_num_local_error_resets" "keeps (inv_but n X) inc_num_remote_reset_streams"
  "keeps (inv_but n X) dec_num_remote_reset_streams"
  unfolding inc_num_local_error_resets_def inc_num_remote_reset_streams_def dec_num_remote_reset_streams_def
  by (rule keeps_checked_count; auto simp: counts_ok_def counted_streams_def can_inc_num_local_error_resets_def
      can_inc_num_remote_reset_streams_def split: option.splits)+

lemma dec_num_reset_streams_inv:
  assumes "inv_but (Suc n) X s"
  obtains s' where "dec_num_reset_streams s = (Ok (), s')" "inv_but n X s'" "i_slab s' = i_slab s" "i_ids s' = i_ids s"
proof -
  let ?c = "(i_counts s)\<lparr>num_local_reset_streams := num_local_reset_streams (i_counts s) - 1\<rparr>"
  have "dec_num_reset_streams s = (Ok (), s\<lparr>i_counts := ?c\<rparr>)"
    using inv_but_counts [OF assms] by (simp add: dec_num_reset_streams_def act_simps check_def on_counts_def counts_ok_def)
  moreover have "counts_ok n ?c (i_slab s) (\<lambda>q. qlist q s)"
    using inv_but_counts [OF assms] by (auto simp: counts_ok_def)
  ultimately show thesis by (intro that [of "s\<lparr>i_counts := ?c\<rparr>"] inv_but_set_counts [OF assms]) simp_all
qed

section \<open>Transitions\<close>

text \<open>A key whose stream waits for its reset to expire.\<close>

definition reset_pending :: "key \<Rightarrow> ('m, 'st, 'h) inner \<Rightarrow> bool" where
  "reset_pending k s \<longleftrightarrow> (\<exists>st. deref (i_slab s) k = Some st \<and> st_reset_at st \<noteq> None)"

text \<open>
  \<open>transition_after\<close> on a live stream never panics, keeps the invariant, and uncounts a reset exactly
  when the stream's reset is over.
\<close>

lemma transition_after_runs:
  assumes inv: "inv_but m X s" and k: "deref (i_slab s) k = Some st"
    and m: "m = (if rst \<and> stream_is_closed st \<and> st_reset_at st = None then Suc n else n)"
  shows "\<exists>s'. transition_after k rst s = (Ok (), s') \<and> inv_but n X s'"
proof -
  define A where "A = (if_then (\<not> is_pending_reset_expiration st)
      (seq (unlink k) (if_then rst dec_num_reset_streams)) :: ('a, 'b, 'c, unit, 'd) iact)"
  define B where "B = (if_then (\<not> is_scheduled_reset (st_state st) \<and> st_is_counted st)
      (dec_num_streams k) :: ('a, 'b, 'c, unit, 'd) iact)"
  define s0 where "s0 = s\<lparr>i_ids := swap_remove (key_stream_id k) (i_ids s)\<rparr>"
  have s0: "inv_but m X s0" using keepsD [OF keeps_unlink inv, of k] by (simp add: unlink_def s0_def)
  have unl: "unlink k s = (Ok () :: (unit, 'd) result, s0)" and slab0: "i_slab s0 = i_slab s"
    by (simp_all add: unlink_def s0_def)
  have nolink: "map_of (i_ids s0) (key_stream_id k) = None"
    using inv swap_remove_set [of "i_ids s" "key_stream_id k"]
    by (auto simp: s0_def map_of_eq_None_iff inv_but_def inv_core_def ids_ok_def)
  show ?thesis
  proof (cases "stream_is_closed st")
    case False
    then have "\<not> is_released st" by (simp add: is_released_def)
    with False k inv m show ?thesis
      by (simp add: transition_after_def act_simps the_stream_eq if_then_def)
  next
    case closed: True
    have "\<exists>s1. A s = (Ok (), s1) \<and> inv_but n X s1 \<and> deref (i_slab s1) k = Some st
        \<and> (st_reset_at st = None \<longrightarrow> map_of (i_ids s1) (key_stream_id k) = None)"
    proof (cases "st_reset_at st = None")
      case False
      with inv k m show ?thesis by (auto simp: A_def is_pending_reset_expiration_def)
    next
      case True
      show ?thesis
      proof (cases rst)
        case False
        with True s0 m nolink k show ?thesis
          by (simp add: A_def is_pending_reset_expiration_def seq_apply unl slab0)
      next
        case rst: True
        with s0 m closed True have "inv_but (Suc n) X s0" by simp
        then obtain s1 where "dec_num_reset_streams s0 = (Ok () :: (unit, 'd) result, s1)" "inv_but n X s1"
          "i_slab s1 = i_slab s0" "i_ids s1 = i_ids s0" by (rule dec_num_reset_streams_inv)
        with True rst nolink k show ?thesis
          by (simp add: A_def is_pending_reset_expiration_def seq_apply unl slab0)
      qed
    qed
    then obtain s1 where s1: "A s = (Ok (), s1)" "inv_but n X s1" "deref (i_slab s1) k = Some st"
      "st_reset_at st = None \<longrightarrow> map_of (i_ids s1) (key_stream_id k) = None" by (elim exE conjE)
    have "\<exists>s2 st2. B s1 = (Ok (), s2) \<and> inv_but n X s2 \<and> deref (i_slab s2) k = Some st2
        \<and> st_reset_at st2 = st_reset_at st \<and> i_ids s2 = i_ids s1"
    proof (cases "\<not> is_scheduled_reset (st_state st) \<and> st_is_counted st")
      case True
      then obtain s2 where "dec_num_streams k s1 = (Ok () :: (unit, 'd) result, s2)" "inv_but n X s2"
        "deref (i_slab s2) k = Some (st\<lparr>st_is_counted := False\<rparr>)" "i_ids s2 = i_ids s1"
        using dec_num_streams_inv [OF s1(2,3)] closed by (auto simp: stream_is_closed_def)
      with True show ?thesis by (auto simp: B_def)
    qed (use s1 in \<open>auto simp: B_def if_then_def\<close>)
    then obtain s2 st2 where s2: "B s1 = (Ok (), s2)" "inv_but n X s2" "deref (i_slab s2) k = Some st2"
      "st_reset_at st2 = st_reset_at st" "i_ids s2 = i_ids s1" by (elim exE conjE)
    define R where "R = (bnd (the_stream k) (\<lambda>st'. if_then (is_released st') (store_remove k)) :: ('a, 'b, 'c, unit, 'd) iact)"
    have "transition_after k rst s = seq (seq A B) R s"
      by (subst transition_after_def, subst bnd_apply) (simp add: the_stream_eq k closed A_def B_def R_def)
    then have run: "transition_after k rst s = R s2" using s1(1) s2(1) by (simp add: seq_apply)
    show ?thesis
    proof (cases "is_released st2")
      case False
      with run s2 show ?thesis by (simp add: R_def act_simps the_stream_eq)
    next
      case True
      with s1(4) s2(4,5) have "map_of (i_ids s2) (key_stream_id k) = None" by (simp add: is_released_def)
      with inv_but_remove [OF s2(2,3) released_not_queued [OF True]] run s2(3) True show ?thesis
        by (simp add: R_def act_simps the_stream_eq store_remove_eq deref_Some Let_def)
    qed
  qed
qed

section \<open>Keeping a stream's reset pending\<close>

lemma reset_pending_upd:
  assumes "reset_pending k s" "deref (i_slab s) k' = Some st" "st_id st' = st_id st" "queued QResetExpire st \<Longrightarrow> queued QResetExpire st'"
  shows "reset_pending k (s\<lparr>i_slab := (i_slab s)(key_index k' \<mapsto> st')\<rparr>)"
  using assms by (auto simp: reset_pending_def deref_Some)

lemma keeps_rp_on_stream: "(\<And>st r. benign r st (f st)) \<Longrightarrow> keeps (reset_pending k) (on_stream k' f)"
  by (rule keepsI) (auto simp: on_stream_eq benign_def split: option.splits intro!: reset_pending_upd)

lemma reset_pending_other:
  "reset_pending k (s\<lparr>i_counts := c\<rparr>) = reset_pending k s" "reset_pending k (s\<lparr>i_send := sn\<rparr>) = reset_pending k s"
  "reset_pending k (s\<lparr>i_recv := rv\<rparr>) = reset_pending k s" "reset_pending k (s\<lparr>i_ids := ids\<rparr>) = reset_pending k s"
  "reset_pending k (s\<lparr>i_task := t\<rparr>) = reset_pending k s" "reset_pending k (s\<lparr>i_conn_error := er\<rparr>) = reset_pending k s"
  "reset_pending k (s\<lparr>i_refs := n\<rparr>) = reset_pending k s" "reset_pending k (s\<lparr>i_woken := w\<rparr>) = reset_pending k s"
  by (simp_all add: reset_pending_def)

lemma reset_pending_set_qlist: "reset_pending k (set_qlist q ks s) = reset_pending k s"
  by (simp add: reset_pending_def)

lemma keeps_rp_state:
  "keeps (reset_pending k) (on_counts cf)" "keeps (reset_pending k) (on_send sf)" "keeps (reset_pending k) (on_recv rf)"
  "keeps (reset_pending k) (unlink k')" "keeps (reset_pending k) (wake w)"
  "keeps (reset_pending k) (modify (\<lambda>s. s\<lparr>i_task := f s\<rparr>))" "keeps (reset_pending k) (modify (\<lambda>s. s\<lparr>i_conn_error := g s\<rparr>))"
  "keeps (reset_pending k) (modify (\<lambda>s. s\<lparr>i_refs := h s\<rparr>))"
  by (simp_all add: keeps_def on_counts_def on_send_def on_recv_def unlink_def wake_def reset_pending_other)

lemma keeps_rp_queues:
  "keeps (reset_pending k) (q_push q now k')" "keeps (reset_pending k) (q_push_front q now k')"
  "q \<noteq> QResetExpire \<Longrightarrow> keeps (reset_pending k) (q_pop q)"
  by (rule keepsI; auto simp: q_push_eq q_push_front_eq q_pop_eq reset_pending_set_qlist
      split: option.splits list.splits if_splits intro!: reset_pending_upd)+

lemma keeps_rp_pop_if: "q \<noteq> QResetExpire \<Longrightarrow> keeps (reset_pending k) (q_pop_if q f)"
  using q_pop_if_outcome by (blast intro: keepsI dest: keepsD [OF keeps_rp_queues(3)])

lemma keeps_rp_counters:
  "keeps (reset_pending k) inc_num_local_error_resets" "keeps (reset_pending k) inc_num_remote_reset_streams"
  "keeps (reset_pending k) dec_num_remote_reset_streams" "keeps (reset_pending k) dec_num_reset_streams"
  "keeps (reset_pending k) inc_num_reset_streams"
  unfolding inc_num_local_error_resets_def inc_num_remote_reset_streams_def dec_num_remote_reset_streams_def
    dec_num_reset_streams_def inc_num_reset_streams_def
  by (intro keeps_rules keeps_rp_state)+

lemma keeps_rp_counted:
  "keeps (reset_pending k) (inc_num_recv_streams k')" "keeps (reset_pending k) (inc_num_send_streams k')"
  "keeps (reset_pending k) (dec_num_streams k')"
  by (rule keepsI; auto simp: inc_num_recv_streams_eq inc_num_send_streams_eq dec_num_streams_eq reset_pending_other Let_def
      split: option.splits if_splits intro!: reset_pending_upd [of _ "s\<lparr>i_counts := c\<rparr>" for s c, simplified])+

lemma keeps_rp_release:
  "keeps (reset_pending k) (bnd (the_stream k') (\<lambda>st. if_then (is_released st) (store_remove k')))"
proof (rule keepsI)
  fix s r s'
  assume a: "reset_pending k s" "bnd (the_stream k') (\<lambda>st. if_then (is_released st) (store_remove k')) s = (r, s')" "r \<noteq> Panic"
  show "reset_pending k s'"
  proof (cases "s' = s")
    case False
    with a obtain st where st: "deref (i_slab s) k' = Some st" "is_released st"
      "s' = s\<lparr>i_slab := (i_slab s)(key_index k' := None)\<rparr>"
      by (auto simp: act_simps the_stream_eq store_remove_eq if_then_def Let_def split: option.splits if_splits)
    with a(1) show ?thesis by (auto simp: reset_pending_def deref_Some is_released_def)
  qed (use a in simp)
qed

lemma keeps_rp_transition_after: "keeps (reset_pending k) (transition_after k' b)"
  unfolding transition_after_def by (intro keeps_rules keeps_rp_state keeps_rp_counters keeps_rp_counted keeps_rp_release)

end
