(* ===== verification/Streams_Keeps.thy ===== *)
theory Streams_Keeps
  imports Streams_Inv
begin

text \<open>
  Every operation of the streams layer keeps the invariant. The invariant is carried together with a
  set of streams whose resets are pending: a transition needs to know that the action it wraps does not
  end its stream's reset.
\<close>

section \<open>The carried invariant\<close>

text \<open>The IDs that this endpoint gives out are those of a client: a server opens no streams.\<close>

definition next_ok :: "('m, 'st, 'h) inner \<Rightarrow> bool" where
  "next_ok s \<longleftrightarrow> (\<forall>sid. snd_next_stream_id (i_send s) = Some sid \<longrightarrow> is_client_initiated sid)"

definition inv_with :: "nat \<Rightarrow> nat set \<Rightarrow> key set \<Rightarrow> ('m, 'st, 'h) inner \<Rightarrow> bool" where
  "inv_with n X K s \<longleftrightarrow> inv_but n X s \<and> next_ok s \<and> (\<forall>k \<in> K. reset_pending k s)"

named_theorems inv_rules \<open>actions that keep the carried invariant\<close>

lemma next_ok_same: "snd_next_stream_id (i_send s') = snd_next_stream_id (i_send s) \<Longrightarrow> next_ok s' = next_ok s"
  by (simp add: next_ok_def)

lemma set_qlist_next [simp]: "snd_next_stream_id (i_send (set_qlist q ks s)) = snd_next_stream_id (i_send s)"
  by (cases q) simp_all

lemma next_ok_upd [simp]:
  "next_ok (s\<lparr>i_counts := c\<rparr>) = next_ok s" "next_ok (s\<lparr>i_recv := rv\<rparr>) = next_ok s" "next_ok (s\<lparr>i_slab := sl\<rparr>) = next_ok s"
  "next_ok (s\<lparr>i_ids := ids\<rparr>) = next_ok s" "next_ok (s\<lparr>i_task := t\<rparr>) = next_ok s" "next_ok (s\<lparr>i_conn_error := er\<rparr>) = next_ok s"
  "next_ok (s\<lparr>i_refs := m\<rparr>) = next_ok s" "next_ok (s\<lparr>i_woken := w\<rparr>) = next_ok s" "next_ok (set_qlist q ks s) = next_ok s"
  by (rule next_ok_same; simp)+

lemma keeps_next_state:
  "keeps next_ok (on_counts cf)" "keeps next_ok (on_recv rf)" "keeps next_ok (on_stream k g)" "keeps next_ok (unlink k)"
  "keeps next_ok (wake w)" "keeps next_ok (modify (\<lambda>s. s\<lparr>i_task := f1 s\<rparr>))" "keeps next_ok (modify (\<lambda>s. s\<lparr>i_conn_error := f2 s\<rparr>))"
  "keeps next_ok (modify (\<lambda>s. s\<lparr>i_refs := f3 s\<rparr>))" "keeps next_ok (modify (\<lambda>s. set_qlist q (ks s) s))"
  "keeps next_ok (store_remove k)"
  by (auto simp: keeps_def on_counts_def on_recv_def on_stream_eq unlink_def wake_def store_remove_eq Let_def split: option.splits)

lemma keeps_next_on_send: "(\<And>sn. snd_next_stream_id (f sn) = snd_next_stream_id sn) \<Longrightarrow> keeps next_ok (on_send f)"
  by (simp add: keeps_def on_send_def next_ok_def)

lemma keeps_next_queues:
  "keeps next_ok (q_push q now k)" "keeps next_ok (q_push_front q now k)" "keeps next_ok (q_pop q)" "keeps next_ok (q_pop_if q g)"
  by (auto simp: keeps_def q_push_eq q_push_front_eq q_pop_eq q_pop_if_eq split: option.splits list.splits)

lemma keeps_next_counters:
  "keeps next_ok inc_num_local_error_resets" "keeps next_ok inc_num_remote_reset_streams" "keeps next_ok dec_num_remote_reset_streams"
  "keeps next_ok dec_num_reset_streams" "keeps next_ok (inc_num_recv_streams k)" "keeps next_ok (inc_num_send_streams k)"
  "keeps next_ok (dec_num_streams k)"
  unfolding inc_num_local_error_resets_def inc_num_remote_reset_streams_def dec_num_remote_reset_streams_def
    dec_num_reset_streams_def inc_num_recv_streams_def inc_num_send_streams_def dec_num_streams_def
  by (intro keeps_rules keeps_next_state)+

lemma keeps_next_transition_after: "keeps next_ok (transition_after k b)"
  unfolding transition_after_def by (intro keeps_rules keeps_next_state keeps_next_counters)

lemma keeps_inv_with:
  "keeps (inv_but n X) m \<Longrightarrow> keeps next_ok m \<Longrightarrow> (\<And>k. keeps (reset_pending k) m) \<Longrightarrow> keeps (inv_with n X K) m"
  unfolding keeps_def inv_with_def by blast

text \<open>Structural rules that remember which case they are in.\<close>

lemma keeps_result_cases:
  "(\<And>x. v = Ok x \<Longrightarrow> keeps I (f x)) \<Longrightarrow> (\<And>x. v = Err x \<Longrightarrow> keeps I (g x)) \<Longrightarrow> (v = Panic \<Longrightarrow> keeps I m) \<Longrightarrow>
     keeps I (case v of Ok x \<Rightarrow> f x | Err x \<Rightarrow> g x | Panic \<Rightarrow> m)"
  by (cases v) simp_all

lemma keeps_list_cases:
  "keeps I m \<Longrightarrow> (\<And>x xs. keeps I (f x xs)) \<Longrightarrow> keeps I (case v of [] \<Rightarrow> m | x # xs \<Rightarrow> f x xs)"
  by (cases v) simp_all

lemmas inv_structure [inv_rules] =
  keeps_bnd keeps_seq keeps_attempt keeps_on_err keeps_if keeps_if_then keeps_case_option keeps_result_cases
  keeps_case_prod keeps_Let keeps_the_stream

text \<open>An action at one state, where the stream it has read is known.\<close>

definition keeps_at :: "('s \<Rightarrow> bool) \<Rightarrow> ('s \<Rightarrow> bool) \<Rightarrow> ('s, 'a, 'e) act \<Rightarrow> 's \<Rightarrow> bool" where
  "keeps_at I J m s \<longleftrightarrow> (I s \<longrightarrow> fst (m s) \<noteq> Panic \<longrightarrow> J (snd (m s)))"

lemma keeps_at_iff: "keeps I m \<longleftrightarrow> (\<forall>s. keeps_at I I m s)"
  by (simp add: keeps_def keeps_at_def)

lemma keeps_at_the_stream:
  "(\<And>st. deref (i_slab s) k = Some st \<Longrightarrow> keeps_at I J (f st) s) \<Longrightarrow> keeps_at I J (bnd (the_stream k) f) s"
  by (cases "deref (i_slab s) k") (simp_all add: keeps_at_def bnd_apply the_stream_eq)

lemma keeps_at_gets: "keeps_at I J (f (g s)) s \<Longrightarrow> keeps_at I J (bnd (gets g) f) s"
  by (simp add: keeps_at_def bnd_apply)

lemma keeps_at_of_result:
  "(\<And>x. r = Ok x \<Longrightarrow> keeps_at I J (f x) s) \<Longrightarrow> (\<And>er. r = Err er \<Longrightarrow> I s \<Longrightarrow> J s) \<Longrightarrow> keeps_at I J (bnd (of_result r) f) s"
  by (cases r) (simp_all add: keeps_at_def bnd_apply)

lemma keeps_at_seq_of_result:
  "(\<And>x. r = Ok x \<Longrightarrow> keeps_at I J m s) \<Longrightarrow> (\<And>er. r = Err er \<Longrightarrow> I s \<Longrightarrow> J s) \<Longrightarrow> keeps_at I J (seq (of_result r) m) s"
  unfolding seq_def by (rule keeps_at_of_result)

lemma keeps_at_keeps: "keeps J m \<Longrightarrow> (I s \<Longrightarrow> J s) \<Longrightarrow> keeps_at I J m s"
  by (simp add: keeps_def keeps_at_def)

text \<open>A step whose effect is known, followed by an action that keeps the predicate.\<close>

lemma keeps_at_seq:
  assumes "\<And>r s1. m s = (r, s1) \<Longrightarrow> I s \<Longrightarrow> r \<noteq> Panic \<Longrightarrow> J s1" "keeps J m'"
  shows "keeps_at I J (seq m m') s"
proof -
  obtain r s1 where m: "m s = (r, s1)" by (cases "m s")
  show ?thesis
    using assms(1) [OF m] m assms(2) by (cases r) (auto simp: keeps_at_def seq_apply keeps_def)
qed

lemma benign_same:
  assumes "st_id st' = st_id st" "st_is_counted st' = st_is_counted st" "st_state st' = st_state st"
    "st_is_pending_send st' = st_is_pending_send st" "st_is_pending_send_capacity st' = st_is_pending_send_capacity st"
    "st_is_pending_open st' = st_is_pending_open st" "st_is_pending_accept st' = st_is_pending_accept st"
    "st_is_pending_complete st' = st_is_pending_complete st" "st_reset_at st' = st_reset_at st"
    "st_pending_push_promises st' = st_pending_push_promises st"
  shows "benign r st st'"
proof -
  have "queued q st' = queued q st" for q using assms by (cases q) simp_all
  with assms show ?thesis by (simp add: benign_def stream_ok_def local_stream_def)
qed

lemma benign_trans: "benign r a b \<Longrightarrow> benign r b c \<Longrightarrow> benign r a c"
  by (simp add: benign_def)

text \<open>A state that moves on: it is kept, the stream ends, or the stream was open and still is.\<close>

definition moves :: "state \<Rightarrow> state \<Rightarrow> bool" where
  "moves x y \<longleftrightarrow> y = x \<or> is_closed y \<or> is_active x \<and> is_active y"

lemma closed_not_active: "is_closed x \<Longrightarrow> \<not> is_active x"
  by (cases x) simp_all

lemma benign_moves: "moves (st_state st) y \<Longrightarrow> benign r st (st\<lparr>st_state := y\<rparr>)"
proof -
  assume m: "moves (st_state st) y"
  have "queued q (st\<lparr>st_state := y\<rparr>) = queued q st" for q by (cases q) simp_all
  with m closed_not_active show ?thesis
    by (auto simp: benign_def stream_ok_def local_stream_def opened_def moves_def)
qed

lemma benign_full:
  assumes "moves (st_state st) (st_state st')"
    "st_id st' = st_id st" "st_is_counted st' = st_is_counted st"
    "st_is_pending_send st' = st_is_pending_send st" "st_is_pending_send_capacity st' = st_is_pending_send_capacity st"
    "st_is_pending_open st' = st_is_pending_open st" "st_is_pending_accept st' = st_is_pending_accept st"
    "st_is_pending_complete st' = st_is_pending_complete st" "st_reset_at st' = st_reset_at st"
    "st_pending_push_promises st' = st_pending_push_promises st"
  shows "benign r st st'"
proof (rule benign_trans)
  show "benign r st (st\<lparr>st_state := st_state st'\<rparr>)" using assms(1) by (rule benign_moves)
  show "benign r (st\<lparr>st_state := st_state st'\<rparr>) st'" by (rule benign_same) (simp_all add: assms)
qed

lemma inv_on_stream:
  assumes "\<And>st r. benign r st (f st)"
  shows "keeps (inv_with n X K) (on_stream k f)"
  using assms by (intro keeps_inv_with keeps_on_stream keeps_rp_on_stream keeps_next_state)

lemma inv_on_state: "(\<And>x. moves x (f x)) \<Longrightarrow> keeps (inv_with n X K) (on_state k f)"
  unfolding on_state_def by (intro inv_on_stream benign_moves)

lemma inv_on_recv:
  assumes "\<And>rv. rcv_pending_accept (f rv) = rcv_pending_accept rv \<and> rcv_pending_complete (f rv) = rcv_pending_complete rv
    \<and> rcv_pending_reset_expired (f rv) = rcv_pending_reset_expired rv"
  shows "keeps (inv_with n X K) (on_recv f)"
  using assms by (intro keeps_inv_with keeps_on_recv keeps_rp_state keeps_next_state)

lemma inv_on_send:
  assumes "\<And>sn. snd_pending_send (f sn) = snd_pending_send sn \<and> snd_pending_capacity (f sn) = snd_pending_capacity sn
    \<and> snd_pending_open (f sn) = snd_pending_open sn" "\<And>sn. snd_next_stream_id (f sn) = snd_next_stream_id sn"
  shows "keeps (inv_with n X K) (on_send f)"
  using assms by (intro keeps_inv_with keeps_on_send keeps_rp_state keeps_next_on_send)

lemma inv_modify_other [inv_rules]:
  "keeps (inv_with n X K) (modify (\<lambda>s. s\<lparr>i_task := f s\<rparr>))" "keeps (inv_with n X K) (modify (\<lambda>s. s\<lparr>i_conn_error := g s\<rparr>))"
  "keeps (inv_with n X K) (modify (\<lambda>s. s\<lparr>i_refs := h s\<rparr>))" "keeps (inv_with n X K) (wake w)"
  unfolding wake_def
  by (intro keeps_inv_with keeps_modify_other keeps_rp_state keeps_next_state keeps_rp_state [unfolded wake_def]
      keeps_next_state [unfolded wake_def])+

lemma inv_queues [inv_rules]:
  "q \<noteq> QResetExpire \<Longrightarrow> q \<noteq> QOpen \<Longrightarrow> keeps (inv_with n X K) (q_push q now k)"
  "q \<noteq> QResetExpire \<Longrightarrow> q \<noteq> QOpen \<Longrightarrow> keeps (inv_with n X K) (q_push_front q now k)"
  "q \<noteq> QResetExpire \<Longrightarrow> keeps (inv_with n X K) (q_pop q)"
  "q \<noteq> QResetExpire \<Longrightarrow> keeps (inv_with n X K) (q_pop_if q f)"
  by (intro keeps_inv_with keeps_rules keeps_rp_queues keeps_rp_pop_if keeps_next_queues; assumption)+

lemma inv_counters [inv_rules]:
  "keeps (inv_with n X K) inc_num_local_error_resets" "keeps (inv_with n X K) inc_num_remote_reset_streams"
  "keeps (inv_with n X K) dec_num_remote_reset_streams" "keeps (inv_with n X K) (unlink k)"
  by (intro keeps_inv_with keeps_counters keeps_unlink keeps_rp_counters keeps_rp_state keeps_next_counters keeps_next_state)+

section \<open>Transitions and loops\<close>

lemma transition_after_Ok:
  assumes inv: "inv_with m X K s" and t: "transition_after k rst s = ((r :: (unit, 'e) result), s')" "r \<noteq> Panic"
    and m: "\<And>st. deref (i_slab s) k = Some st \<Longrightarrow>
      m = (if rst \<and> stream_is_closed st \<and> st_reset_at st = None then Suc n else n)"
  shows "inv_with n X K s'"
proof -
  obtain st where st: "deref (i_slab s) k = Some st"
    using t by (cases "deref (i_slab s) k") (auto simp: transition_after_def bnd_apply the_stream_eq)
  from inv have "inv_but m X s" by (simp add: inv_with_def)
  from transition_after_runs [where ?'d = 'e, OF this st m [OF st]] t(1) have "inv_but n X s'" by auto
  with inv keepsD [OF keeps_rp_transition_after _ t] keepsD [OF keeps_next_transition_after _ t] show ?thesis
    by (auto simp: inv_with_def)
qed

lemma inv_transition_after_False [inv_rules]: "keeps (inv_with n X K) (transition_after k False)"
  by (rule keepsI) (auto intro: transition_after_Ok)

text \<open>
  The flag of \<open>transition_after\<close> is read before the stream changes. Reading it puts the stream among the
  ones whose reset is pending, and there the flag does no harm.
\<close>

lemma inv_transition_after:
  assumes "b \<Longrightarrow> k \<in> K"
  shows "keeps (inv_with n X K) (transition_after k b)"
proof (rule keepsI)
  fix s and r :: "(unit, 'e) result" and s'
  assume inv: "inv_with n X K s" and t: "transition_after k b s = (r, s')" and r: "r \<noteq> Panic"
  have "st_reset_at st \<noteq> None" if b "deref (i_slab s) k = Some st" for st
    using inv assms that by (auto simp: inv_with_def reset_pending_def)
  then show "inv_with n X K s'" by (intro transition_after_Ok [OF inv t r]) auto
qed

lemma inv_read_flag:
  assumes "\<And>st K. (is_pending_reset_expiration st \<Longrightarrow> k \<in> K) \<Longrightarrow> keeps (inv_with n X K) (f st)"
  shows "keeps (inv_with n X K) (bnd (the_stream k) f)"
proof (rule keepsI)
  fix s r s'
  assume inv: "inv_with n X K s" and t: "bnd (the_stream k) f s = (r, s')" and r: "r \<noteq> Panic"
  obtain st where st: "deref (i_slab s) k = Some st"
    using t r by (cases "deref (i_slab s) k") (auto simp: bnd_apply the_stream_eq)
  let ?K = "if is_pending_reset_expiration st then insert k K else K"
  have "inv_with n X ?K s" using inv st by (auto simp: inv_with_def reset_pending_def is_pending_reset_expiration_def)
  moreover have "keeps (inv_with n X ?K) (f st)" by (rule assms) simp
  ultimately have "inv_with n X ?K s'" using t r st by (auto simp: bnd_apply the_stream_eq dest: keepsD)
  then show "inv_with n X K s'" by (auto simp: inv_with_def split: if_splits)
qed

lemma inv_transition:
  assumes "\<And>K. keeps (inv_with n X K) f"
  shows "keeps (inv_with n X K) (transition k f)"
  unfolding transition_def
  by (intro inv_read_flag keeps_bnd keeps_seq keeps_attempt keeps_prims inv_transition_after assms)

lemma inv_drain_n:
  assumes "q \<noteq> QResetExpire" "\<And>k. keeps (inv_with n X K) (body k)"
  shows "keeps (inv_with n X K) (drain_n m q f body)"
  using assms by (induction m) (auto intro!: inv_rules keeps_prims)

lemma inv_drain:
  assumes "q \<noteq> QResetExpire" "\<And>k. keeps (inv_with n X K) (body k)"
  shows "keeps (inv_with n X K) (drain q body)" "keeps (inv_with n X K) (drain_if q f body)"
  unfolding drain_def drain_if_def by (intro keeps_bnd keeps_prims inv_drain_n assms)+

lemma inv_try_for_each_from:
  assumes "\<And>k. keeps (inv_with n X K) (f k)"
  shows "keeps (inv_with n X K) (try_for_each_from f i m)"
  using assms by (induction m arbitrary: i) (auto intro!: inv_rules keeps_prims)

lemma inv_try_for_each:
  assumes "\<And>k. keeps (inv_with n X K) (f k)"
  shows "keeps (inv_with n X K) (try_for_each f)"
  unfolding try_for_each_def by (intro keeps_bnd keeps_prims inv_try_for_each_from assms)

section \<open>Sending\<close>

lemmas inv_intros = keeps_prims inv_on_stream inv_on_send inv_on_recv benign_same

lemma inv_wakers [inv_rules]: "keeps (inv_with n X K) wake_task" "keeps (inv_with n X K) (notify_recv k)"
  unfolding wake_task_def notify_recv_def by (intro inv_rules inv_intros; simp)+

lemma inv_set_reset [inv_rules]: "keeps (inv_with n X K) (stream_set_reset k r ini)"
  unfolding stream_set_reset_def by (intro inv_rules inv_on_state) (simp add: moves_def set_reset_def)

lemma inv_queue_frame [inv_rules]:
  "keeps (inv_with n X K) (schedule_send k)" "keeps (inv_with n X K) (push_frame_back k f)"
  "keeps (inv_with n X K) (push_frame_front k f)" "keeps (inv_with n X K) (queue_frame f k)"
  "keeps (inv_with n X K) (send_clear_stream_queue k)"
  unfolding queue_frame_def schedule_send_def push_frame_back_def push_frame_front_def send_clear_stream_queue_def
  by (intro inv_rules inv_intros; simp)+

lemma dec_window_queues:
  "snd_pending_send (case dec_window a (snd_flow sn) of Ok fl \<Rightarrow> sn\<lparr>snd_flow := fl\<rparr> | _ \<Rightarrow> sn) = snd_pending_send sn
   \<and> snd_pending_capacity (case dec_window a (snd_flow sn) of Ok fl \<Rightarrow> sn\<lparr>snd_flow := fl\<rparr> | _ \<Rightarrow> sn) = snd_pending_capacity sn
   \<and> snd_pending_open (case dec_window a (snd_flow sn) of Ok fl \<Rightarrow> sn\<lparr>snd_flow := fl\<rparr> | _ \<Rightarrow> sn) = snd_pending_open sn"
  "snd_next_stream_id (case dec_window a (snd_flow sn) of Ok fl \<Rightarrow> sn\<lparr>snd_flow := fl\<rparr> | _ \<Rightarrow> sn) = snd_next_stream_id sn"
  by (simp_all split: result.splits)

lemma inv_try_assign_capacity [inv_rules]: "keeps (inv_with n X K) (try_assign_capacity k)"
  unfolding try_assign_capacity_def by (intro inv_rules inv_intros dec_window_queues; simp)

lemma inv_assign_connection_capacity [inv_rules]: "keeps (inv_with n X K) assign_connection_capacity"
proof -
  have "keeps (inv_with n X K) (assign_connection_capacity_n m)" for m
  proof (induction m)
    case (Suc m)
    then show ?case by (auto intro!: inv_rules inv_intros inv_transition)
  qed (simp add: keeps_def)
  then show ?thesis unfolding assign_connection_capacity_def by (intro keeps_bnd keeps_prims)
qed

lemma inv_capacity [inv_rules]:
  "keeps (inv_with n X K) (recv_connection_window_update inc)" "keeps (inv_with n X K) (reclaim_all_capacity k)"
  unfolding recv_connection_window_update_def reclaim_all_capacity_def by (intro inv_rules inv_intros; simp)+

lemma inv_send_send_reset [inv_rules]: "keeps (inv_with n X K) (send_send_reset r ini k)"
  unfolding send_send_reset_def by (intro inv_rules inv_intros)

lemma scheduled_reset_moves: "set_scheduled_reset r x = Ok y \<Longrightarrow> moves z y"
  by (auto simp: set_scheduled_reset_def moves_def split: if_splits)

lemma inv_schedule_implicit_reset [inv_rules]: "keeps (inv_with n X K) (schedule_implicit_reset k r)"
  unfolding schedule_implicit_reset_def
  by (intro inv_rules inv_intros inv_on_state) (erule scheduled_reset_moves)

lemma inv_send_handle_error [inv_rules]: "keeps (inv_with n X K) (send_handle_error k)"
  unfolding send_handle_error_def by (intro inv_rules)

lemma inv_spa [inv_rules]: "keeps (inv_with n X K) (on_spa g)" "keeps (inv_with n X K) (spa_recv_window_update sid)"
  unfolding on_spa_def spa_recv_window_update_def by (intro inv_intros; simp)+

lemma inv_recv_stream_window_update [inv_rules]: "keeps (inv_with n X K) (recv_stream_window_update sz k)"
  unfolding recv_stream_window_update_def by (intro inv_rules inv_intros; simp)

text \<open>Setting the state of a stream to one that is open or closed.\<close>

lemma set_state_inv:
  assumes inv: "inv_with n X K s" and k: "deref (i_slab s) k = Some st"
    and ok: "stream_ok (c_role (i_counts s)) (st\<lparr>st_state := y\<rparr>)" "opened y"
    and on: "on_state k (\<lambda>_. y) s = (r, s')"
  shows "inv_with n (X - {key_index k}) K s'" "deref (i_slab s') k = Some (st\<lparr>st_state := y\<rparr>)" "i_counts s' = i_counts s"
proof -
  let ?st = "st\<lparr>st_state := y\<rparr>"
  have q: "queued q ?st = queued q st" for q by (cases q) simp_all
  from k on have s': "s' = s\<lparr>i_slab := (i_slab s)(key_index k \<mapsto> ?st)\<rparr>"
    by (simp add: on_state_def on_stream_eq)
  have slab: "i_slab s (key_index k) = Some st" using k by (simp add: deref_Some)
  have "inv_but n (X - {key_index k}) s'"
    using inv slab ok q counted_streams_upd [of "i_slab s" "key_index k" st ?st, OF slab]
    by (auto simp: s' inv_with_def inv_but_def inv_core_def counts_ok_def intro: queue_ok_upd ids_ok_upd)
  moreover have "reset_pending k' s'" if "k' \<in> K" for k'
    unfolding s' using inv that k q by (intro reset_pending_upd) (auto simp: inv_with_def)
  ultimately show "inv_with n (X - {key_index k}) K s'" using inv by (simp add: inv_with_def s')
  show "deref (i_slab s') k = Some ?st" "i_counts s' = i_counts s" using k by (simp_all add: s' deref_upd_same)
qed

lemma inv_push_open:
  assumes "inv_with n X K s" "deref (i_slab s) k = Some st" "local_stream (c_role (i_counts s)) st"
    "q_push QOpen now k s = (r, s')" "r \<noteq> Panic"
  shows "inv_with n X K s'"
proof -
  have "inv_but n X s'"
    using assms inv_but_push [of n X s k st QOpen "qlist QOpen s" "[]" now]
    by (auto simp: inv_with_def q_push_eq simp del: qlist.simps set_qlist.simps set_queued.simps split: if_splits)
  with assms keepsD [OF keeps_rp_queues(1) _ assms(4,5)] keepsD [OF keeps_next_queues(1) _ assms(4,5)] show ?thesis
    by (auto simp: inv_with_def)
qed

lemma send_open_ok:
  assumes "stream_ok r st" "send_open eos (st_state st) = Ok y" "opened (st_state st) \<or> local_stream r st"
  shows "stream_ok r (st\<lparr>st_state := y\<rparr>)" "opened y"
  using assms(2)
  by (cases rule: send_open_OkE; use assms(1,3) in \<open>auto simp: stream_ok_def local_stream_def opened_def\<close>)+

lemma is_local_init_stream: "st_id st \<noteq> 0 \<Longrightarrow> is_local_init r (st_id st) = Ok (local_stream r st)"
  by (simp add: is_local_init_def stream_id_is_zero_def local_stream_def)

text \<open>\<open>send_headers\<close> of a frame for its stream: afterwards the stream is no longer idle.\<close>

lemma send_headers_inv:
  fixes s :: "('m, 'st, 'h) inner"
  assumes inv: "inv_with n X K s" and k: "deref (i_slab s) k = Some st" and id: "hf_stream_id f = key_stream_id k"
    and st: "opened (st_state st) \<or> local_stream (c_role (i_counts s)) st"
    and run: "send_headers e H W f k s = (r, s')" "r \<noteq> Panic"
  shows "(r = Ok () \<and> inv_with n (X - {key_index k}) K s') \<or> (\<exists>er. r = Err er \<and> s' = s)"
proof (cases "\<exists>y. check_headers e H W (hb_fields (hf_block f)) = Ok () \<and> send_open (headers_is_end_stream f) (st_state st) = Ok y")
  case True
  then obtain y where y: "check_headers e H W (hb_fields (hf_block f)) = Ok ()"
    "send_open (headers_is_end_stream f) (st_state st) = Ok y" by blast
  let ?r = "c_role (i_counts s)" and ?st = "st\<lparr>st_state := y\<rparr>"
  obtain s1 where on: "on_state k (\<lambda>_. y) s = (Ok () :: (unit, user_error) result, s1)"
    using k by (simp add: on_state_def on_stream_eq)
  have "stream_ok ?r st" using inv k by (auto simp: inv_with_def intro: inv_but_stream_ok)
  note ok = send_open_ok [OF this y(2) st]
  note s1 = set_state_inv [OF inv k ok on]
  have id0: "st_id st \<noteq> 0" "hf_stream_id f = st_id st" using ok(1) k id by (simp_all add: stream_ok_def deref_Some)
  define M :: "('m, 'st, 'h, unit, user_error) iact" where
    "M = seq (if_then (local_stream ?r st) (seq (q_push QOpen 0 k) (ret ())))
           (seq (queue_frame (FHeaders f) k) (if_then (local_stream ?r st) wake_task))"
  have eq: "(r, s') = M s1" unfolding M_def
    using run(1) y on id0 k s1(3)
    by (auto simp: send_headers_def act_simps the_stream_eq is_local_init_stream split: prod.splits result.splits)
  have "keeps_at (inv_with n (X - {key_index k}) K) (inv_with n (X - {key_index k}) K) M s1"
    unfolding M_def
  proof (rule keeps_at_seq)
    fix r2 s2
    assume push: "if_then (local_stream ?r st) (seq (q_push QOpen 0 k) (ret ())) s1 = (r2, s2)" "r2 \<noteq> Panic"
      and i1: "inv_with n (X - {key_index k}) K s1"
    show "inv_with n (X - {key_index k}) K s2"
    proof (cases "local_stream ?r st")
      case True
      with push obtain b where p: "q_push QOpen 0 k s1 = (Ok b, s2)"
        by (auto simp: act_simps q_push_eq split: option.splits if_splits)
      from inv_push_open [OF i1 s1(2) _ p] True s1(3) show ?thesis by (simp add: local_stream_def)
    qed (use push i1 in simp)
  qed (intro inv_rules inv_intros)
  with eq s1(1) run(2) have "inv_with n (X - {key_index k}) K s'" by (simp add: keeps_at_def eq [symmetric])
  moreover have "\<nexists>er. r = Err er" using eq by (auto simp: M_def act_simps if_then_def queue_frame_def push_frame_back_def on_stream_eq
      schedule_send_def the_stream_eq q_push_eq wake_task_def wake_def split: option.splits if_splits prod.splits)
  ultimately show ?thesis using run(2) by (cases r) auto
next
  case False
  have "send_headers e H W f k s = (r, s') \<Longrightarrow> \<exists>er. r = Err er \<and> s' = s"
    using False run(2) k
    by (cases "check_headers e H W (hb_fields (hf_block f))"; cases "send_open (headers_is_end_stream f) (st_state st)")
      (auto simp: send_headers_def act_simps the_stream_eq intro: sym)
  with run(1) show ?thesis by blast
qed

lemma inv_lower_windows_from [inv_rules]: "keeps (inv_with n X K) (lower_windows_from dec i m tot)"
proof (induction m arbitrary: i tot)
  case (Suc m)
  have "keeps (inv_with n X K) (lower_stream_window dec k)" for k
    unfolding lower_stream_window_def by (intro inv_rules inv_intros; simp)
  with Suc show ?case by (auto intro!: inv_rules keeps_prims)
qed simp

lemma inv_send_apply_remote_settings [inv_rules]: "keeps (inv_with n X K) (send_apply_remote_settings cfg)"
  unfolding send_apply_remote_settings_def
  by (intro inv_rules inv_intros inv_try_for_each; simp split: option.splits)

lemma inv_send_recv_go_away [inv_rules]: "keeps (inv_with n X K) (send_recv_go_away sid)"
  unfolding send_recv_go_away_def by (intro inv_rules inv_intros; simp)

text \<open>The next stream ID stays one of a client.\<close>

lemma next_id_client:
  assumes "is_client_initiated sid" "next_id sid = Some i"
  shows "is_client_initiated i"
proof -
  have "odd sid" using assms(1) by (simp add: is_client_initiated_def mod_2_eq_odd)
  moreover have i: "i = sid + 2" using assms(2) by (simp add: next_id_def Let_def split: if_splits)
  ultimately have "odd i" unfolding i by simp
  then show ?thesis by (auto simp: is_client_initiated_def mod_2_eq_odd)
qed

lemma inv_set_next:
  assumes "inv_with n X K s" "\<And>i. nx = Some i \<Longrightarrow> is_client_initiated i"
  shows "inv_with n X K (s\<lparr>i_send := (i_send s)\<lparr>snd_next_stream_id := nx\<rparr>\<rparr>)"
proof -
  have "keeps (inv_but n X) (on_send (\<lambda>sn. sn\<lparr>snd_next_stream_id := nx\<rparr>) :: ('a, 'b, 'c, unit, unit) iact)"
    by (rule keeps_on_send) simp
  with assms show ?thesis by (simp add: inv_with_def keeps_def on_send_def next_ok_def reset_pending_other)
qed

lemma next_okD: "inv_with n X K s \<Longrightarrow> snd_next_stream_id (i_send s) = Some sid \<Longrightarrow> is_client_initiated sid"
  by (simp add: inv_with_def next_ok_def)

lemma same_parity: "is_client_initiated next \<Longrightarrow> is_server_initiated sid = is_server_initiated next \<Longrightarrow> next \<le> sid \<Longrightarrow> is_client_initiated sid"
  by (auto simp: is_client_initiated_def is_server_initiated_def mod_2_eq_odd)

lemma inv_send_ids [inv_rules]:
  "keeps (inv_with n X K) ensure_next_stream_id" "keeps (inv_with n X K) send_open_id"
  "keeps (inv_with n X K) (send_maybe_reset_next_stream_id sid)"
proof -
  show "keeps (inv_with n X K) ensure_next_stream_id"
    unfolding ensure_next_stream_id_def by (intro inv_rules inv_intros)
  show "keeps (inv_with n X K) send_open_id"
    by (rule keepsI) (auto simp: send_open_id_def ensure_next_stream_id_def act_simps on_send_def split: option.splits
        intro!: inv_set_next dest: next_id_client next_okD)
  show "keeps (inv_with n X K) (send_maybe_reset_next_stream_id sid)"
    by (rule keepsI) (auto simp: send_maybe_reset_next_stream_id_def act_simps on_send_def check_def if_then_def
        split: option.splits if_splits intro!: inv_set_next dest: next_id_client next_okD same_parity)
qed

lemma inv_clear_pending [inv_rules]:
  "keeps (inv_with n X K) clear_pending_capacity" "keeps (inv_with n X K) clear_pending_send"
  "keeps (inv_with n X K) clear_pending_open" "keeps (inv_with n X K) send_clear_queues"
  unfolding send_clear_queues_def clear_pending_capacity_def clear_pending_send_def clear_pending_open_def
  by (intro keeps_seq inv_drain inv_transition inv_read_flag inv_rules keeps_prims inv_transition_after; simp)+

section \<open>The next frame\<close>

lemma pop_open_counted:
  assumes inv: "inv_with n X K s" and p: "q_pop QOpen s = ((Ok (Some k) :: (key option, 'e) result), s1)"
    and i: "inc_num_send_streams k s1 = (r, s')" "r \<noteq> Panic"
  shows "inv_with n X K s'"
proof -
  from p obtain st where st: "deref (i_slab s) k = Some st" "st_is_pending_open st"
    and s1: "deref (i_slab s1) k = Some (st\<lparr>st_is_pending_open := False\<rparr>)" "i_counts s1 = i_counts s"
    by (auto simp: q_pop_eq deref_upd_same split: list.splits option.splits if_splits)
  have inv1: "inv_with n X K s1" using keepsD [OF inv_queues(3) inv p] by simp
  have "local_stream (c_role (i_counts s)) st"
    using inv st by (auto simp: inv_with_def stream_ok_def dest: inv_but_stream_ok)
  then have "local_stream (c_role (i_counts s1)) (st\<lparr>st_is_pending_open := False\<rparr>)" using s1 by (simp add: local_stream_def)
  from inc_num_send_streams_inv [OF _ s1(1) this i] inv1 keepsD [OF keeps_rp_counted(2) _ i] keepsD [OF keeps_next_counters(6) _ i]
  show ?thesis by (auto simp: inv_with_def)
qed

lemma inv_pop_pending_open [inv_rules]: "keeps (inv_with n X K) pop_pending_open"
proof (rule keepsI)
  fix s r s'
  assume inv: "inv_with n X K s" and p: "pop_pending_open s = (r, s')" and r: "r \<noteq> Panic"
  show "inv_with n X K s'"
    using p r inv pop_open_counted [OF inv] keepsD [OF inv_queues(3) [of QOpen] inv]
    by (fastforce simp: pop_pending_open_def act_simps split: prod.splits result.splits option.splits if_splits)
qed

lemma send_close_moves: "send_close x = Ok y \<Longrightarrow> moves x y"
  by (erule send_close_OkE) (simp_all add: moves_def)

text \<open>A stream's state replaced by one that follows from the state just read.\<close>

lemma set_state_moves:
  assumes "inv_with n X K s" "deref (i_slab s) k = Some st" "moves (st_state st) y" "on_state k (\<lambda>_. y) s = (r, s')"
  shows "inv_with n X K s'"
proof -
  from assms have s': "s' = s\<lparr>i_slab := (i_slab s)(key_index k \<mapsto> st\<lparr>st_state := y\<rparr>)\<rparr>"
    by (simp add: on_state_def on_stream_eq)
  have b: "benign r0 st (st\<lparr>st_state := y\<rparr>)" for r0 by (rule benign_moves) (rule assms)
  have "inv_but n X s'" unfolding s' using assms b by (intro inv_but_benign) (auto simp: inv_with_def)
  moreover have "reset_pending k' s'" if "k' \<in> K" for k'
    unfolding s' using assms that by (intro reset_pending_upd) (auto simp: inv_with_def)
  ultimately show ?thesis using assms(1) by (simp add: inv_with_def s')
qed

lemma inv_set_state_at:
  assumes "deref (i_slab s) k = Some st" "\<And>y. v = Ok y \<Longrightarrow> moves (st_state st) y" "keeps (inv_with n X K) m"
  shows "keeps_at (inv_with n X K) (inv_with n X K) (seq (case v of Ok y \<Rightarrow> on_state k (\<lambda>_. y) | _ \<Rightarrow> panic) m) s"
proof (rule keeps_at_seq [OF _ assms(3)])
  fix r s1
  assume "(case v of Ok y \<Rightarrow> on_state k (\<lambda>_. y) | _ \<Rightarrow> panic) s = (r, s1)" "inv_with n X K s" "r \<noteq> Panic"
  with assms(1,2) show "inv_with n X K s1" by (cases v) (auto intro: set_state_moves)
qed

lemma seq_ret_id: "seq m (ret ()) = m"
proof
  fix s show "seq m (ret ()) s = m s" by (simp add: seq_apply split: prod.splits result.splits)
qed

lemma inv_read_send_close:
  "keeps (inv_with n X K) (bnd (the_stream k) (\<lambda>x.
     case send_close (st_state x) of Ok st' \<Rightarrow> on_state k (\<lambda>_. st') | _ \<Rightarrow> panic))"
  unfolding keeps_at_iff
proof (intro allI keeps_at_the_stream)
  fix s :: "('m, 'st, 'h) inner" and st
  assume "deref (i_slab s) k = Some st"
  from inv_set_state_at [OF this, where v = "send_close (st_state st)" and m = "ret ()" and n = n and X = X and K = K]
  show "keeps_at (inv_with n X K) (inv_with n X K) (case send_close (st_state st) of Ok st' \<Rightarrow> on_state k (\<lambda>_. st') | _ \<Rightarrow> panic) s"
    by (simp add: seq_ret_id send_close_moves)
qed

lemma keeps_at_if: "(b \<Longrightarrow> keeps_at I J m s) \<Longrightarrow> (\<not> b \<Longrightarrow> keeps_at I J m' s) \<Longrightarrow> keeps_at I J (if b then m else m') s"
  by simp

lemma inv_set_data_frame_eos [inv_rules]: "keeps (inv_with n X K) (set_data_frame_eos k d rest)"
  unfolding keeps_at_iff set_data_frame_eos_def
  by (intro allI keeps_at_the_stream keeps_at_if inv_set_state_at;
      (erule send_close_moves | assumption | (rule keeps_at_keeps, intro inv_rules inv_intros; simp) | (intro inv_rules inv_intros; simp)))

lemma inv_try_allocate_stream_flow [inv_rules]: "keeps (inv_with n X K) (try_allocate_stream_flow k rem avail)"
  unfolding try_allocate_stream_flow_def by (intro inv_rules inv_intros dec_window_queues; simp)

lemma inv_pop_data_frame [inv_rules]: "keeps (inv_with n X K) (pop_data_frame k sz f)"
  unfolding pop_data_frame_def by (intro inv_rules inv_intros; simp)

lemma keeps_frame_cases:
  assumes "\<And>x. keeps I (f1 x)" "\<And>x. keeps I (f2 x)" "\<And>x. keeps I (f3 x)" "\<And>x. keeps I (f4 x)" "\<And>x. keeps I (f5 x)"
    "\<And>x. keeps I (f6 x)" "\<And>x. keeps I (f7 x)" "\<And>x. keeps I (f8 x)" "\<And>x. keeps I (f9 x)"
  shows "keeps I (case fr of FData x \<Rightarrow> f1 x | FHeaders x \<Rightarrow> f2 x | FPriority x \<Rightarrow> f3 x | FPushPromise x \<Rightarrow> f4 x
    | FSettings x \<Rightarrow> f5 x | FPing x \<Rightarrow> f6 x | FGoAway x \<Rightarrow> f7 x | FWindowUpdate x \<Rightarrow> f8 x | FReset x \<Rightarrow> f9 x)"
  using assms by (cases fr) simp_all

lemma inv_pop_stream_frame [inv_rules]: "keeps (inv_with n X K) (pop_stream_frame k sz)"
  unfolding pop_stream_frame_def Let_def
  apply (rule inv_read_flag)
  apply (rule keeps_seq)
   apply (intro inv_rules)
  apply (rule keeps_bnd)
   apply (rule keeps_the_stream)
  apply (rule keeps_bnd)
   apply (rule keeps_list_cases)
    apply (intro inv_rules keeps_prims inv_transition_after; simp)
   apply (rule keeps_frame_cases; (intro inv_read_send_close inv_rules inv_intros; simp))
  apply (intro inv_rules keeps_prims inv_on_send inv_transition_after; simp)
  done

lemma inv_pop_frame [inv_rules]: "keeps (inv_with n X K) (pop_frame sz)"
proof -
  have "keeps (inv_with n X K) (pop_frame_n m sz)" for m
  proof (induction m)
    case (Suc m)
    then show ?case by (auto intro!: inv_rules keeps_prims)
  qed (simp add: keeps_def)
  then show ?thesis unfolding pop_frame_def by (intro keeps_bnd keeps_prims)
qed

declare send_poll_loop.simps [simp del]

lemma inv_send_poll_loop [inv_rules]: "keeps (inv_with n X K) (send_poll_loop readies sz out)"
proof (induction readies arbitrary: out)
  case Nil
  then show ?case by (subst send_poll_loop.simps) (simp, intro inv_rules keeps_prims; simp)
next
  case (Cons r rs)
  then show ?case by (subst send_poll_loop.simps; cases r) (simp, intro inv_rules keeps_prims; simp)+
qed

lemma inv_send_poll_complete [inv_rules]: "keeps (inv_with n X K) (send_poll_complete readies sz)"
  unfolding send_poll_complete_def by (cases readies; cases "hd readies") (simp_all add: inv_send_poll_loop)

section \<open>Receiving\<close>

lemma inv_recv_queues [inv_rules]:
  "keeps (inv_with n X K) (recv_clear_stream_queue k)" "keeps (inv_with n X K) (push_event k ev)"
  "keeps (inv_with n X K) (move_from_pending_complete k r)" "keeps (inv_with n X K) recv_next_accept"
proof -
  show clear: "keeps (inv_with n X K) (recv_clear_stream_queue k)" for k
    unfolding recv_clear_stream_queue_def by (intro inv_intros; simp)
  show "keeps (inv_with n X K) (push_event k ev)"
    unfolding push_event_def by (intro inv_intros; simp)
  show "keeps (inv_with n X K) (move_from_pending_complete k r)"
    unfolding move_from_pending_complete_def by (intro keeps_seq inv_drain inv_rules keeps_prims clear; simp)
  show "keeps (inv_with n X K) recv_next_accept"
    unfolding recv_next_accept_def by (intro inv_rules) simp
qed

lemma inv_recv_windows [inv_rules]:
  "keeps (inv_with n X K) (dec_connection_window sz)" "keeps (inv_with n X K) (inc_connection_window sz)"
  unfolding dec_connection_window_def inc_connection_window_def by (intro inv_rules inv_intros; simp)+

lemma recv_close_moves: "recv_close x = Ok y \<Longrightarrow> moves x y"
  by (erule recv_close_OkE) (simp_all add: moves_def)

lemma stream_recv_data_state:
  "stream_recv_data f st = (res, st') \<Longrightarrow> moves (st_state st) (st_state st') \<and> st_id st' = st_id st"
  by (auto simp: stream_recv_data_def Let_def split: if_splits result.splits intro: recv_close_moves) (simp_all add: moves_def)

lemma stream_recv_data_benign:
  assumes "stream_recv_data f st = (res, st')"
  shows "benign r st st'"
proof (rule benign_full)
  show "moves (st_state st) (st_state st')" using stream_recv_data_state [OF assms] by simp
qed (use assms in \<open>auto simp: stream_recv_data_def Let_def split: if_splits result.splits\<close>)

lemma inv_set_stream_at:
  assumes "deref (i_slab s) k = Some st" "\<And>r. benign r st st'" "keeps (inv_with n X K) m"
  shows "keeps_at (inv_with n X K) (inv_with n X K) (seq (on_stream k (\<lambda>_. st')) m) s"
proof (rule keeps_at_seq [OF _ assms(3)])
  fix r s1
  assume on: "on_stream k (\<lambda>_. st') s = (r, s1)" and inv: "inv_with n X K s"
  then have s1: "s1 = s\<lparr>i_slab := (i_slab s)(key_index k \<mapsto> st')\<rparr>" using assms(1) by (simp add: on_stream_eq)
  have "inv_but n X s1" unfolding s1 using assms inv by (intro inv_but_benign) (auto simp: inv_with_def)
  moreover have "reset_pending k' s1" if "k' \<in> K" for k'
    unfolding s1 using assms inv that by (intro reset_pending_upd) (auto simp: inv_with_def benign_def)
  ultimately show "inv_with n X K s1" using inv by (simp add: inv_with_def s1)
qed

lemma inv_stream_take_data [inv_rules]: "keeps (inv_with n X K) (stream_take_data f k r)"
  unfolding keeps_at_iff stream_take_data_def
proof (intro allI keeps_at_the_stream)
  fix s :: "('m, 'st, 'h) inner" and st
  assume st: "deref (i_slab s) k = Some st"
  obtain res st' where d: "stream_recv_data f st = (res, st')" by (cases "stream_recv_data f st")
  show "keeps_at (inv_with n X K) (inv_with n X K) (case stream_recv_data f st of (res, st') \<Rightarrow>
       seq (on_stream k (\<lambda>_. st'))
       (seq (of_result res)
       (bnd (gets (\<lambda>s. rcv_max_recv_buf_limit (i_recv s))) (\<lambda>limit.
        if st_curr_buf_len st' > limit then
          seq (on_stream k (\<lambda>x. x\<lparr>st_is_buf_limit_reached := True\<rparr>))
              (throw (library_reset (st_id st) INTERNAL_ERROR))
        else if data_is_end_stream f then move_from_pending_complete k r
        else on_recv (\<lambda>rv. rv\<lparr>rcv_check_stream_window_update := Some k\<rparr>))))) s"
    unfolding d prod.case
    by (intro inv_set_stream_at [OF st stream_recv_data_benign [OF d]] inv_rules inv_intros; simp)
qed

lemma inv_recv_recv_data [inv_rules]: "keeps (inv_with n X K) (recv_recv_data f k r)"
  unfolding recv_recv_data_def by (intro inv_rules inv_intros; simp)

lemma inv_parse_content_length [inv_rules]: "keeps (inv_with n X K) (parse_content_length e H f k)"
  unfolding parse_content_length_def by (intro inv_rules inv_intros; simp)

lemma inv_deliver_headers [inv_rules]: "keeps (inv_with n X K) (deliver_headers e W f k r)"
  unfolding deliver_headers_def by (intro inv_rules inv_intros; simp)

lemma recv_open_cases:
  assumes "recv_open eos info x = Ok (y, ini)" "opened x \<or> x = Idle"
  shows "if ini then x = Idle \<and> is_active y else moves x y"
  using assms(1) by (cases rule: recv_open_OkE; use assms(2) in \<open>auto simp: moves_def opened_def\<close>)

lemma inv_with_opened:
  "inv_with n X K s \<Longrightarrow> deref (i_slab s) k = Some st \<Longrightarrow> opened (st_state st) \<Longrightarrow> X \<subseteq> {key_index k} \<Longrightarrow> inv_with n {} K s"
  by (fastforce simp: inv_with_def inv_but_def inv_core_def deref_Some)

lemma update_order:
  fixes s :: "('m, 'st, 'h) inner" and st :: "('m, 'st, 'h) stream"
  shows "s\<lparr>i_recv := a, i_counts := b, i_slab := c\<rparr> = s\<lparr>i_counts := b, i_slab := c, i_recv := a\<rparr>"
    "st\<lparr>st_state := y, st_is_counted := True\<rparr> = st\<lparr>st_is_counted := True, st_state := y\<rparr>"
  by simp_all

text \<open>A stream of the peer that is opened: counted and no longer idle.\<close>

lemma open_counted_inv:
  assumes inv: "inv_with n X K s" and k: "deref (i_slab s) k = Some st" "\<not> st_is_counted st"
    and remote: "\<not> local_stream (c_role (i_counts s)) st" and y: "is_active y"
    and room: "can_inc_num_recv_streams (i_counts s)"
  shows "inv_with n (X - {key_index k}) K
    (s\<lparr>i_counts := (i_counts s)\<lparr>num_recv_streams := num_recv_streams (i_counts s) + 1\<rparr>,
       i_slab := (i_slab s)(key_index k \<mapsto> st\<lparr>st_is_counted := True, st_state := y\<rparr>)\<rparr>)"
proof -
  let ?st = "st\<lparr>st_is_counted := True\<rparr>"
  obtain s1 where s1: "inc_num_recv_streams k s = (Ok () :: (unit, unit) result, s1)"
    "s1 = s\<lparr>i_counts := (i_counts s)\<lparr>num_recv_streams := num_recv_streams (i_counts s) + 1\<rparr>,
            i_slab := (i_slab s)(key_index k \<mapsto> ?st)\<rparr>"
    using k room by (simp add: inc_num_recv_streams_eq)
  have inv1: "inv_with n X K s1"
    using inc_num_recv_streams_inv [OF _ k(1) remote s1(1)] keepsD [OF keeps_rp_counted(1) _ s1(1)]
      keepsD [OF keeps_next_counters(5) _ s1(1)] inv
    by (auto simp: inv_with_def)
  have k1: "deref (i_slab s1) k = Some ?st" using k by (simp add: s1(2) deref_upd_same)
  have "stream_ok (c_role (i_counts s1)) (?st\<lparr>st_state := y\<rparr>)"
    using inv k remote by (auto simp: s1(2) stream_ok_def local_stream_def inv_with_def dest: inv_but_stream_ok)
  moreover obtain s2 where on: "on_state k (\<lambda>_. y) s1 = (Ok () :: (unit, unit) result, s2)"
    using k1 by (simp add: on_state_def on_stream_eq)
  ultimately have "inv_with n (X - {key_index k}) K s2" using y by (intro set_state_inv [OF inv1 k1 _ _ on]) (simp_all add: opened_def)
  moreover have "s2 = s\<lparr>i_counts := (i_counts s)\<lparr>num_recv_streams := num_recv_streams (i_counts s) + 1\<rparr>,
       i_slab := (i_slab s)(key_index k \<mapsto> st\<lparr>st_is_counted := True, st_state := y\<rparr>)\<rparr>"
    using on k1 by (simp add: on_state_def on_stream_eq) (simp add: s1(2))
  ultimately show ?thesis by simp
qed

lemma recv_open_stream_inv:
  fixes s :: "('m, 'st, 'h) inner"
  assumes inv: "inv_with n X K s" and k: "deref (i_slab s) k = Some st" and X: "X \<subseteq> {key_index k}"
    and st: "opened (st_state st) \<or> st_state st = Idle \<and> \<not> local_stream (c_role (i_counts s)) st"
    and run: "recv_open_stream e f k s = (r, s')" "r \<noteq> Panic"
  shows "inv_with n {} K s'"
proof (cases "recv_open (headers_is_end_stream f) (pseudo_is_informational e (hb_pseudo (hf_block f))) (st_state st)")
  case (Err er)
  then have "s' = s" using run k by (simp add: recv_open_stream_def act_simps the_stream_eq)
  moreover have "opened (st_state st)" using Err st by auto
  ultimately show ?thesis using inv_with_opened [OF inv k _ X] by simp
next
  case Panic
  then show ?thesis using recv_open_no_panic by blast
next
  case (Ok yi)
  obtain y ini where yi: "yi = (y, ini)" by (cases yi)
  from recv_open_cases [OF Ok [unfolded yi]] st have c: "if ini then st_state st = Idle \<and> is_active y else moves (st_state st) y"
    by blast
  obtain s1 where on: "on_state k (\<lambda>_. y) s = (Ok () :: (unit, proto_error) result, s1)"
    and s1: "s1 = s\<lparr>i_slab := (i_slab s)(key_index k \<mapsto> st\<lparr>st_state := y\<rparr>)\<rparr>"
    using k by (simp add: on_state_def on_stream_eq)
  define g where "g rv = (if hf_stream_id f > rcv_last_processed_id rv
      then rv\<lparr>rcv_last_processed_id := hf_stream_id f\<rparr> else rv)" for rv :: recv_state
  define tail :: "('m, 'st, 'h, bool, proto_error) iact" where
    "tail = seq (if_then ini (seq (on_recv g) (inc_num_recv_streams k))) (ret ini)"
  have t: "tail s1 = (r, s')"
    using run(1) Ok yi on k by (simp add: recv_open_stream_def bnd_apply seq_apply [of "on_state _ _"] the_stream_eq tail_def g_def [abs_def])
  show ?thesis
  proof (cases ini)
    case False
    then have "s' = s1" using t by (simp add: tail_def)
    moreover have "inv_with n X K s1" using set_state_moves [OF inv k _ on] c False by simp
    moreover have "deref (i_slab s1) k = Some (st\<lparr>st_state := y\<rparr>)" using k by (simp add: s1 deref_upd_same)
    moreover have "opened y" using c False st Ok yi
      by (auto simp: moves_def opened_def)
    ultimately show ?thesis using inv_with_opened [OF _ _ _ X] by fastforce
  next
    case True
    then have idle: "st_state st = Idle" "is_active y" using c by simp_all
    with st have remote: "\<not> local_stream (c_role (i_counts s)) st" by (simp add: opened_def)
    have k1: "deref (i_slab s1) k = Some (st\<lparr>st_state := y\<rparr>)" using k by (simp add: s1 deref_upd_same)
    from t True run(2) k1 have room: "can_inc_num_recv_streams (i_counts s)" "\<not> st_is_counted st"
      and s': "s' = s\<lparr>i_counts := (i_counts s)\<lparr>num_recv_streams := num_recv_streams (i_counts s) + 1\<rparr>,
           i_slab := (i_slab s)(key_index k \<mapsto> st\<lparr>st_is_counted := True, st_state := y\<rparr>)\<rparr>\<lparr>i_recv := g (i_recv s)\<rparr>"
      by (auto simp: tail_def act_simps on_recv_def inc_num_recv_streams_eq s1 update_order split: if_splits)
    note o = open_counted_inv [OF inv k room(2) remote idle(2) room(1)]
    have "keeps (inv_with n (X - {key_index k}) K) (on_recv g :: ('m, 'st, 'h, unit, unit) iact)"
      by (rule inv_on_recv) (simp add: g_def)
    from keepsD [OF this o] have "inv_with n (X - {key_index k}) K s'" by (simp add: on_recv_def s')
    then show ?thesis using X by (simp add: Diff_eq_empty_iff [THEN iffD2])
  qed
qed

end
