(* ===== verification/Streams_Reach.thy ===== *)
theory Streams_Reach
  imports Streams_Keeps
begin

text \<open>
  The states of the streams layer that the operations of its interface reach, and the invariant in all of
  them: the rest of the receiving half, the handlers of \<open>Inner\<close> and the calls of \<open>Streams\<close>.
\<close>

section \<open>Receiving, continued\<close>

lemma inv_with_mono: "inv_with n X K s \<Longrightarrow> X \<subseteq> Y \<Longrightarrow> inv_with n Y K s"
  by (auto simp: inv_with_def inv_but_def inv_core_def)

lemma recv_recv_headers_inv:
  fixes s :: "('m, 'st, 'h) inner"
  assumes inv: "inv_with n X K s" and k: "deref (i_slab s) k = Some st" and X: "X \<subseteq> {key_index k}"
    and st: "opened (st_state st) \<or> st_state st = Idle \<and> \<not> local_stream (c_role (i_counts s)) st"
    and run: "recv_recv_headers e H W f k s = (r, s')" "r \<noteq> Panic"
  shows "inv_with n {} K s'"
proof -
  obtain r1 s1 where o: "recv_open_stream e f k s = (r1, s1)" by (cases "recv_open_stream e f k s")
  define rest :: "bool \<Rightarrow> ('m, 'st, 'h, unit, ('m, 'st, 'h) recv_header_block_error) iact" where
    "rest is_initial = bnd (the_stream k) (\<lambda>st.
     seq (if_then (\<not> content_length_is_head (st_content_length st))
            (on_err RState (parse_content_length e H f k)))
     (bnd (gets (\<lambda>s. c_role (i_counts s))) (\<lambda>r.
      seq (if hb_is_over_size (hf_block f)
           then of_result (ret_frame_oversize_err H W is_initial (is_server r) (st_id st)) else ret ())
      (bnd (gets i_recv) (\<lambda>rv.
       if \<not> is_extended_protocol_usage_correct (hb_pseudo (hf_block f)) (is_server r) rv
          \<or> are_response_headers_in_request (hb_pseudo (hf_block f)) (is_server r)
       then throw (RState (library_reset (st_id st) PROTOCOL_ERROR))
       else on_err RState (deliver_headers e W f k r))))))" for is_initial
  have R: "recv_recv_headers e H W f k = bnd (on_err RState (recv_open_stream e f k)) rest"
    by (simp add: recv_recv_headers_def rest_def [abs_def])
  have keep: "keeps (inv_with n {} K) (rest b)" for b
    unfolding rest_def by (intro inv_rules inv_intros; simp)
  have "inv_with n {} K s1" if "r1 \<noteq> Panic" using recv_open_stream_inv [OF inv k X st o that] .
  with run o keep show ?thesis
    by (cases r1) (auto simp: R bnd_apply on_err_apply dest: keepsD)
qed

lemma inv_recv_recv_trailers [inv_rules]: "keeps (inv_with n X K) (recv_recv_trailers f k r)"
  unfolding keeps_at_iff recv_recv_trailers_def
proof (intro allI keeps_at_the_stream keeps_at_of_result keeps_at_seq)
  fix s :: "('m, 'st, 'h) inner" and st y r1 s1
  assume "deref (i_slab s) k = Some st" "recv_close (st_state st) = Ok y" "on_state k (\<lambda>_. y) s = (r1, s1)" "inv_with n X K s"
  then show "inv_with n X K s1" using set_state_moves recv_close_moves by blast
qed (intro inv_rules inv_intros; simp)+

lemma recv_reset_moves: "moves x (recv_reset f b x)"
  using recv_reset_closed by (simp add: moves_def)

lemma inv_recv_recv_reset [inv_rules]: "keeps (inv_with n X K) (recv_recv_reset f k)"
  unfolding recv_recv_reset_def by (intro inv_rules inv_intros inv_on_state recv_reset_moves)

text \<open>A stream whose reset is to be remembered is counted and queued together.\<close>

lemma enqueue_reset_expiration_eq:
  "enqueue_reset_expiration now k s = (case deref (i_slab s) k of
     None \<Rightarrow> (Panic, s)
   | Some st \<Rightarrow>
       if \<not> is_local_error (st_state st) \<or> st_reset_at st \<noteq> None \<or> \<not> can_inc_num_reset_streams (i_counts s) then (Ok (), s)
       else (Ok (), set_qlist QResetExpire (qlist QResetExpire s @ [k])
         (s\<lparr>i_counts := (i_counts s)\<lparr>num_local_reset_streams := num_local_reset_streams (i_counts s) + 1\<rparr>,
            i_slab := (i_slab s)(key_index k \<mapsto> set_queued QResetExpire now True st)\<rparr>)))"
  by (auto simp: enqueue_reset_expiration_def act_simps the_stream_eq is_pending_reset_expiration_def if_then_def
      inc_num_reset_streams_def on_counts_def q_push_eq simp del: set_queued.simps qlist.simps set_qlist.simps split: option.splits)

lemma inv_enqueue_reset_expiration [inv_rules]: "keeps (inv_with n X K) (enqueue_reset_expiration now k)"
proof (rule keepsI)
  fix s :: "('m, 'st, 'h) inner" and r :: "(unit, 'e) result" and s'
  assume inv: "inv_with n X K s" and run: "enqueue_reset_expiration now k s = (r, s')" and r: "r \<noteq> Panic"
  show "inv_with n X K s'"
  proof (cases "s' = s")
    case False
    let ?c = "(i_counts s)\<lparr>num_local_reset_streams := num_local_reset_streams (i_counts s) + 1\<rparr>"
    let ?s = "s\<lparr>i_counts := ?c\<rparr>"
    from run r False obtain st where k: "deref (i_slab s) k = Some st" "st_reset_at st = None" "can_inc_num_reset_streams (i_counts s)"
      and s': "s' = set_qlist QResetExpire (qlist QResetExpire s @ [k]) (s\<lparr>i_counts := ?c, i_slab := (i_slab s)(key_index k \<mapsto> set_queued QResetExpire now True st)\<rparr>)"
      by (auto simp: enqueue_reset_expiration_eq simp del: set_queued.simps qlist.simps set_qlist.simps split: option.splits if_splits)
    have c: "counts_ok n (i_counts s) (i_slab s) (\<lambda>q. qlist q s)" using inv by (auto simp: inv_with_def intro: inv_but_counts)
    then have "counts_ok n ?c (i_slab s) (\<lambda>q. qlist q s)" using k by (simp add: counts_ok_def can_inc_num_reset_streams_def)
    with inv have inv1: "inv_but n X ?s" by (intro inv_but_set_counts) (auto simp: inv_with_def)
    from inv_but_push [OF inv1, of k st QResetExpire "qlist QResetExpire s" "[]" now] k c have "inv_but n X s'"
      by (simp add: s' counts_ok_def del: set_queued.simps set_qlist.simps)
    moreover have "reset_pending k' s'" if "k' \<in> K" for k'
      using reset_pending_upd [of k' ?s k st "set_queued QResetExpire now True st"] inv that k
      by (simp add: s' reset_pending_set_qlist reset_pending_other inv_with_def del: set_qlist.simps)
    moreover have "next_ok s'" using inv by (simp add: s' inv_with_def del: set_qlist.simps)
    ultimately show ?thesis by (simp add: inv_with_def)
  qed (use inv in simp)
qed

lemma inv_recv_apply_local_settings [inv_rules]: "keeps (inv_with n X K) (recv_apply_local_settings cfg)"
  unfolding recv_apply_local_settings_def
  by (intro inv_rules inv_intros inv_try_for_each; simp split: option.splits)

lemma inv_recv_errors [inv_rules]:
  "keeps (inv_with n X K) (recv_handle_error er k)" "keeps (inv_with n X K) (recv_recv_eof k)"
  unfolding recv_handle_error_def recv_recv_eof_def
  by (intro inv_rules inv_on_state; simp add: moves_def state_handle_error_def state_recv_eof_def)+

lemma inv_recv_ids [inv_rules]:
  "keeps (inv_with n X K) (recv_go_away sid)" "keeps (inv_with n X K) (can_open sid mode r)"
  "keeps (inv_with n X K) (recv_maybe_reset_next_stream_id sid)"
  unfolding recv_go_away_def can_open_def recv_maybe_reset_next_stream_id_def
  by (intro inv_rules inv_intros; simp)+

lemma keeps_event_cases:
  "(\<And>x. keeps I (f x)) \<Longrightarrow> (\<And>x. keeps I (g x)) \<Longrightarrow> (\<And>x. keeps I (h x)) \<Longrightarrow>
     keeps I (case v of EvHeaders x \<Rightarrow> f x | EvData x \<Rightarrow> g x | EvTrailers x \<Rightarrow> h x)"
  by (cases v) simp_all

lemma keeps_poll_message_cases:
  "(\<And>x. keeps I (f x)) \<Longrightarrow> (\<And>x. keeps I (g x)) \<Longrightarrow> keeps I (case v of PmClient x \<Rightarrow> f x | PmServer x \<Rightarrow> g x)"
  by (cases v) simp_all

lemma inv_hand_out [inv_rules]:
  "keeps (inv_with n X K) (send_pending_refusal ready)" "keeps (inv_with n X K) (take_request k)"
  "keeps (inv_with n X K) (take_response k)"
  unfolding send_pending_refusal_def take_request_def take_response_def
  by (intro inv_rules inv_intros keeps_list_cases keeps_event_cases keeps_poll_message_cases; simp)+

lemma inv_poll_response [inv_rules]:
  "keeps (inv_with n X K) (recv_poll_response w k)" "keeps (inv_with n X K) (recv_take_partial_response k)"
  unfolding recv_poll_response_def recv_take_partial_response_def by (intro inv_rules inv_intros; simp)+

text \<open>The queue of resets: a stream that leaves it is uncounted in the same round.\<close>

lemma inv_but_fewer: "inv_but m X s \<Longrightarrow> n \<le> m \<Longrightarrow> inv_but n X s"
  by (auto simp: inv_but_def inv_core_def counts_ok_def)

lemma reset_round:
  assumes inv: "inv_but n X s" and p: "q_pop_if QResetExpire f s = (Ok (Some k) :: (key option, 'e) result, s1)"
  shows "\<exists>s'. transition_after k True s1 = (Ok () :: (unit, 'e) result, s') \<and> inv_but n X s'"
proof -
  from p have pop: "q_pop QResetExpire s = (Ok (Some k) :: (key option, 'e) result, s1)"
    by (auto simp: q_pop_if_eq split: list.splits option.splits if_splits)
  then obtain st where k: "deref (i_slab s1) k = Some st" "st_reset_at st = None"
    by (auto simp: q_pop_eq deref_upd_same split: list.splits option.splits if_splits)
  have "inv_but (if stream_is_closed st then Suc n else n) X s1"
    using q_pop_inv [OF inv pop] by (auto intro: inv_but_fewer)
  from transition_after_runs [OF this k(1), of True n] k(2) show ?thesis by simp
qed

lemma keeps_reset_drain:
  "keeps (inv_but n X) (drain_n m QResetExpire f (\<lambda>k. transition_after k True) :: ('m, 'st, 'h, unit, 'e) iact)"
proof (induction m)
  case (Suc m)
  show ?case
  proof (rule keepsI)
    fix s :: "('m, 'st, 'h) inner" and r :: "(unit, 'e) result" and s'
    assume inv: "inv_but n X s" and r: "r \<noteq> Panic"
      and run: "drain_n (Suc m) QResetExpire f (\<lambda>k. transition_after k True) s = (r, s')"
    obtain p s1 where p: "q_pop_if QResetExpire f s = (p :: (key option, 'e) result, s1)" by (cases "q_pop_if QResetExpire f s :: (key option, 'e) result \<times> _")
    have "p \<noteq> Panic" using run r p by (auto simp: bnd_apply)
    with p consider "p = Ok None" "s1 = s" | k where "p = Ok (Some k)"
      by (auto simp: q_pop_if_eq q_pop_eq split: list.splits option.splits if_splits)
    then show "inv_but n X s'"
    proof cases
      case 2
      with reset_round [OF inv] p obtain s2 where s2: "transition_after k True s1 = (Ok () :: (unit, 'e) result, s2)" "inv_but n X s2" by blast
      with run p 2 have "drain_n m QResetExpire f (\<lambda>k. transition_after k True) s2 = (r, s')" by (simp add: act_simps)
      with keepsD [OF Suc s2(2)] r show ?thesis by blast
    qed (use inv run p in \<open>simp add: bnd_apply\<close>)
  qed
qed (simp add: keeps_def)

lemma keeps_next_drain:
  "keeps next_ok (drain_n m QResetExpire f (\<lambda>k. transition_after k True))"
proof (induction m)
  case (Suc m)
  then show ?case by (auto intro!: keeps_rules keeps_next_queues keeps_next_transition_after)
qed (simp add: keeps_def)

lemma keepsD': "keeps I m \<Longrightarrow> I s \<Longrightarrow> fst (m s) \<noteq> Panic \<Longrightarrow> I (snd (m s))"
  by (simp add: keeps_def)

lemma inv_reset_queue [inv_rules]:
  "keeps (inv_with n X {}) clear_all_reset_streams" "keeps (inv_with n X {}) (clear_expired_reset_streams now)"
proof -
  have "keeps (inv_with n X {}) (drain_n m QResetExpire f (\<lambda>k. transition_after k True))" for m f
    unfolding keeps_def inv_with_def using keepsD' [OF keeps_reset_drain] keepsD' [OF keeps_next_drain] by blast
  then show "keeps (inv_with n X {}) clear_all_reset_streams" "keeps (inv_with n X {}) (clear_expired_reset_streams now)"
    unfolding clear_all_reset_streams_def clear_expired_reset_streams_def drain_def drain_if_def
    by (intro keeps_bnd keeps_prims; blast)+
qed

lemma inv_clear_queues [inv_rules]: "keeps (inv_with n X {}) (actions_clear_queues b)"
  unfolding actions_clear_queues_def recv_clear_queues_def clear_all_pending_accept_def clear_all_pending_complete_def
  by (intro inv_rules inv_drain; simp)

section \<open>The handlers\<close>

lemma inv_reset_on_recv_stream_err [inv_rules]: "keeps (inv_with n X K) (reset_on_recv_stream_err now k res)"
proof -
  have "keeps (inv_with n X K) (reset_on_recv_stream_err now k (Err (PReset sid r ini)))" for sid r ini
    unfolding reset_on_recv_stream_err_def by (simp, intro inv_rules inv_intros)
  then show ?thesis
    by (cases res; (cases "projErr res")?) (auto simp: reset_on_recv_stream_err_def split: proto_error.splits)
qed

lemma inv_actions_send_reset [inv_rules]: "keeps (inv_with n X K) (actions_send_reset now k r ini)"
  unfolding actions_send_reset_def by (intro inv_transition inv_rules inv_intros)

lemma inv_lookups [inv_rules]:
  "keeps (inv_with n X K) (ensure_not_idle r sid)" "keeps (inv_with n X K) (is_forgotten_stream r sid)"
  "keeps (inv_with n X K) ensure_no_conn_error"
  unfolding ensure_not_idle_def is_forgotten_stream_def ensure_no_conn_error_def by (intro inv_rules inv_intros)+

lemma inv_inner_recv_data [inv_rules]: "keeps (inv_with n X K) (inner_recv_data now f)"
  unfolding inner_recv_data_def by (intro inv_rules inv_intros inv_transition; simp)

lemma inv_inner_recv_reset [inv_rules]: "keeps (inv_with n X K) (inner_recv_reset f)"
  unfolding inner_recv_reset_def by (intro inv_rules inv_intros inv_transition)

lemma inv_inner_recv_go_away [inv_rules]: "keeps (inv_with n X K) (inner_recv_go_away f)"
  unfolding inner_recv_go_away_def by (intro inv_rules inv_intros inv_transition inv_try_for_each)

lemma inv_inner_handle_error [inv_rules]: "keeps (inv_with n X K) (inner_handle_error er)"
  unfolding inner_handle_error_def by (intro inv_rules inv_intros inv_transition inv_try_for_each)

lemma inv_set_conn_error: "keeps (inv_with n X K) (modify (\<lambda>s. if i_conn_error s = None then s\<lparr>i_conn_error := er\<rparr> else s))"
  using inv_modify_other(2) [of n X K "\<lambda>_. er"] by (auto simp: keeps_def)

lemma inv_inner_recv_eof [inv_rules]: "keeps (inv_with n X {}) (inner_recv_eof b)"
  unfolding inner_recv_eof_def by (intro inv_rules inv_intros inv_transition inv_try_for_each inv_set_conn_error)

lemma inv_inner_recv_window_update [inv_rules]: "keeps (inv_with n X K) (inner_recv_window_update now f)"
  unfolding inner_recv_window_update_def by (intro inv_rules inv_intros)

lemma inv_poll_window_update [inv_rules]: "keeps (inv_with n X K) (poll_window_update r1 r2)"
  unfolding poll_window_update_def poll_stream_window_def should_send_connection_window_update_def should_send_stream_window_update_def Let_def
  by (intro inv_rules inv_intros; simp split: result.splits)

lemma inv_inner_poll_complete [inv_rules]: "keeps (inv_with n X K) (inner_poll_complete w rs sz)"
  unfolding inner_poll_complete_def by (intro inv_rules inv_intros)

section \<open>New streams\<close>

lemma transition_inv:
  fixes f :: "('m, 'st, 'h, 'a, 'e) iact"
  assumes inv: "inv_with n X K s" and k: "deref (i_slab s) k = Some st"
    and f: "\<And>K r1 s1. inv_with n X K s \<Longrightarrow> f s = (r1, s1) \<Longrightarrow> r1 \<noteq> Panic \<Longrightarrow> inv_with n Y K s1"
    and run: "transition k f s = (r, s')" "r \<noteq> Panic"
  shows "inv_with n Y K s'"
proof -
  let ?b = "is_pending_reset_expiration st"
  let ?K = "if ?b then insert k K else K"
  obtain r1 s1 where f1: "f s = (r1, s1)" by (cases "f s")
  with run k have r1: "r1 \<noteq> Panic" by (auto simp: transition_def act_simps the_stream_eq)
  have "inv_with n X ?K s" using inv k by (auto simp: inv_with_def reset_pending_def is_pending_reset_expiration_def)
  from f [OF this f1 r1] have i1: "inv_with n Y ?K s1" .
  from run k f1 r1 obtain r2 where r2: "transition_after k ?b s1 = (r2 :: (unit, 'e) result, s')" "r2 \<noteq> Panic"
    by (cases r1) (auto simp: transition_def act_simps the_stream_eq split: prod.splits result.splits)
  have "inv_with n Y ?K s'" by (rule keepsD [OF inv_transition_after i1 r2]) simp
  then show ?thesis by (auto simp: inv_with_def split: if_splits)
qed

lemma reset_pending_insert:
  assumes "reset_pending k s" "i_slab s i = None" "i_slab s' = (i_slab s)(i \<mapsto> st)"
  shows "reset_pending k s'"
  using assms by (auto simp: reset_pending_def deref_Some)

lemma store_insert_with:
  fixes s :: "('m, 'st, 'h) inner"
  assumes "pick_ok pick" "inv_with n {} K s" "fresh_stream sid st" "store_insert pick sid st s = (r, s')" "r \<noteq> Panic"
    "card (dom (i_slab s)) < 2 ^ 32"
  obtains k where "r = Ok k" "deref (i_slab s') k = Some st" "inv_with n {key_index k} K s'"
    "i_counts s' = i_counts s" "key_stream_id k = sid" "(sid, key_index k) \<in> set (i_ids s')"
proof -
  from assms(2) have "inv_but n {} s" by (simp add: inv_with_def)
  from store_insert_inv [OF assms(1) this assms(3-6)] obtain k where k: "r = Ok k" "deref (i_slab s') k = Some st"
    "inv_but n {key_index k} s'" "i_counts s' = i_counts s" "key_stream_id k = sid" "i_send s' = i_send s"
    "i_slab s (key_index k) = None" "i_slab s' = (i_slab s)(key_index k \<mapsto> st)" "(sid, key_index k) \<in> set (i_ids s')" by metis
  have "next_ok s'" using assms(2) next_ok_same [of s' s] k(6) by (simp add: inv_with_def)
  moreover have "reset_pending k' s'" if "k' \<in> K" for k'
    using reset_pending_insert [OF _ k(7,8)] assms(2) that by (simp add: inv_with_def)
  ultimately show thesis using k(3) by (intro that [OF k(1,2) _ k(4,5,9)]) (simp add: inv_with_def)
qed

lemma find_mut_deref:
  assumes "inv_with n X K s" "find_mut sid s = Some k"
  obtains st where "deref (i_slab s) k = Some st" "key_stream_id k = sid"
proof -
  from assms(2) obtain i where i: "map_of (i_ids s) sid = Some i" "k = \<lparr>key_index = i, key_stream_id = sid\<rparr>"
    by (auto simp: find_mut_def)
  from map_of_SomeD [OF i(1)] assms(1) obtain st where "i_slab s i = Some st" "st_id st = sid"
    by (auto simp: inv_with_def inv_but_def inv_core_def ids_ok_def)
  with i(2) that show thesis by (simp add: deref_Some)
qed

lemma live_opened: "inv_with n {} K s \<Longrightarrow> deref (i_slab s) k = Some st \<Longrightarrow> opened (st_state st)"
  by (auto simp: inv_with_def inv_but_def inv_core_def deref_Some)

text \<open>Only a server creates a stream for HEADERS, and the stream is the client's.\<close>

lemma ensure_can_open_headers:
  "ensure_can_open r sid OpenHeaders = Ok () \<longleftrightarrow> is_server r \<and> is_client_initiated sid"
  by (auto simp: ensure_can_open_def is_push_promise_def)

lemma can_open_Some:
  assumes "can_open sid OpenHeaders rl s = (Ok (Some sid'), s')"
  shows "sid' = sid" "is_server rl" "is_client_initiated sid" "i_counts s' = i_counts s" "i_slab s' = i_slab s"
  using assms ensure_can_open_headers [of rl sid]
  by (auto simp: can_open_def act_simps check_def on_recv_def Let_def split: if_splits result.splits)

lemma is_forgotten_same: "snd (is_forgotten_stream r sid s) = s"
  by (auto simp: is_forgotten_stream_def act_simps check_def split: result.splits option.splits)

lemma insert_or_create_inv:
  fixes s :: "('m, 'st, 'h) inner"
  assumes pick: "pick_ok pick" and inv: "inv_with n {} K s" and sz: "card (dom (i_slab s)) < 2 ^ 32"
    and run: "insert_or_create pick sid (c_role (i_counts s)) s = (r, s')" "r \<noteq> Panic"
  shows "(\<exists>k st. r = Ok (Some k) \<and> deref (i_slab s') k = Some st \<and> key_stream_id k = sid \<and> inv_with n {key_index k} K s'
           \<and> (opened (st_state st) \<or> st_state st = Idle \<and> \<not> local_stream (c_role (i_counts s')) st))
       \<or> inv_with n {} K s' \<and> (\<forall>k. r \<noteq> Ok (Some k))"
proof (cases "find_mut sid s")
  case (Some k)
  from find_mut_deref [OF inv Some] obtain st where st: "deref (i_slab s) k = Some st" "key_stream_id k = sid" .
  from run Some have "r = Ok (Some k)" "s' = s" by (simp_all add: insert_or_create_def act_simps)
  with st inv_with_mono [OF inv] live_opened [OF inv st(1)] show ?thesis by auto
next
  case None
  let ?rl = "c_role (i_counts s)"
  obtain fb where fb: "(if \<not> is_server ?rl then is_forgotten_stream ?rl sid else ret False) s = (fb :: (bool, proto_error) result, s)"
    using is_forgotten_same [of ?rl sid s] by (cases "is_server ?rl") (auto simp: prod_eq_iff)
  obtain p s0 where p: "can_open sid OpenHeaders ?rl s = (p, s0)" by (cases "can_open sid OpenHeaders ?rl s")
  have inv0: "inv_with n {} K s0" if "p \<noteq> Panic" using keepsD [OF inv_recv_ids(2) inv p that] .
  let ?st = "\<lambda>sid'. stream_new sid' (snd_init_stream_window_sz (i_send s0)) (rcv_init_stream_window_sz (i_recv s0))"
  have run': "(case fb of Err er \<Rightarrow> (Err er, s) | Panic \<Rightarrow> (Panic, s) | Ok True \<Rightarrow> (Err (library_reset sid STREAM_CLOSED), s)
      | Ok False \<Rightarrow> (case p of Err er \<Rightarrow> (Err er, s0) | Panic \<Rightarrow> (Panic, s0) | Ok None \<Rightarrow> (Ok None, s0)
        | Ok (Some sid') \<Rightarrow> bnd (store_insert pick sid' (?st sid')) (\<lambda>k. ret (Some k)) s0)) = (r, s')"
    using run(1) None fb p
    by (cases fb; cases p; cases "fb = Ok True") (auto simp: insert_or_create_def bnd_apply split: option.splits bool.splits)
  show ?thesis
  proof (cases "fb = Ok False \<and> (\<exists>sid'. p = Ok (Some sid'))")
    case True
    then obtain sid' where sid': "fb = Ok False" "p = Ok (Some sid')" by blast
    note o = can_open_Some [OF p [unfolded sid'(2)]]
    obtain r1 s1 where ins: "store_insert pick sid (?st sid) s0 = (r1 :: (key, proto_error) result, s1)"
      by (cases "store_insert pick sid (?st sid) s0 :: (key, proto_error) result \<times> _")
    with run' run(2) sid' o have r1: "s' = s1" "r1 \<noteq> Panic" "r = map_ok Some r1"
      by (auto simp: act_simps split: result.splits)
    have "fresh_stream sid (?st sid)" using o(3) by (intro fresh_stream_new) (simp add: is_client_initiated_def)
    moreover have "inv_with n {} K s0" "card (dom (i_slab s0)) < 2 ^ 32" using inv0 sid' sz o(5) by auto
    ultimately obtain k where
      k: "r1 = Ok k" "deref (i_slab s1) k = Some (?st sid)" "inv_with n {key_index k} K s1" "i_counts s1 = i_counts s0" "key_stream_id k = sid"
      using store_insert_with [OF pick _ _ ins r1(2)] by metis
    have "\<not> local_stream ?rl (?st sid)" using o by (auto simp: local_stream_def stream_new_def is_client_initiated_def is_server_initiated_def)
    with k r1 o(4) show ?thesis by (auto simp: stream_new_def state_default_def)
  next
    case False
    with run' run(2) inv inv0 show ?thesis
      by (auto split: result.splits option.splits bool.splits)
  qed
qed

lemma inv_send_headers:
  assumes id: "hf_stream_id f = key_stream_id k"
  shows "keeps (inv_with n {} K) (send_headers e H W f k)"
proof (rule keepsI)
  fix s r s'
  assume inv: "inv_with n {} K s" and run: "send_headers e H W f k s = (r, s')" "r \<noteq> Panic"
  show "inv_with n {} K s'"
  proof (cases "deref (i_slab s) k")
    case (Some st)
    from send_headers_inv [OF inv Some id _ run] live_opened [OF inv Some] inv show ?thesis by auto
  next
    case None
    with run inv show ?thesis
      by (cases "check_headers e H W (hb_fields (hf_block f))") (auto simp: send_headers_def act_simps the_stream_eq)
  qed
qed

text \<open>Which errors an action can return.\<close>

definition errs :: "('e \<Rightarrow> bool) \<Rightarrow> ('s, 'a, 'e) act \<Rightarrow> bool" where
  "errs P m \<longleftrightarrow> (\<forall>s er. fst (m s) = Err er \<longrightarrow> P er)"

lemma errs_bnd: "errs P m \<Longrightarrow> (\<And>x. errs P (f x)) \<Longrightarrow> errs P (bnd m f)"
  by (auto simp: errs_def bnd_apply split: prod.splits result.splits) (metis fst_conv)+

lemma errs_seq: "errs P m \<Longrightarrow> errs P n \<Longrightarrow> errs P (seq m n)"
  by (simp add: seq_def errs_bnd)

lemma errs_the_stream: "(\<And>st. st_id st = key_stream_id k \<Longrightarrow> errs P (f st)) \<Longrightarrow> errs P (bnd (the_stream k) f)"
  by (auto simp: errs_def bnd_apply the_stream_eq deref_Some split: option.splits)

lemma errs_prims: "errs P (ret x)" "errs P (gets g)" "errs P (check b)" "P er \<Longrightarrow> errs P (throw er)"
  "(\<And>er. r = Err er \<Longrightarrow> P er) \<Longrightarrow> errs P (of_result r)"
  by (auto simp: errs_def check_def)

lemma errs_branch: "errs P m \<Longrightarrow> errs P n \<Longrightarrow> errs P (if b then m else n)" "errs P u \<Longrightarrow> errs P (if_then b u)"
  by (auto simp: if_then_def errs_def)

lemma errs_on_err:
  fixes m :: "('s, 'b, 'c) act"
  shows "(\<And>er. P (g er)) \<Longrightarrow> errs P (on_err g m)"
proof -
  assume P: "\<And>er. P (g er)"
  have "map_err g r = Err er \<Longrightarrow> P er" for r :: "('b, 'c) result" and er using P by (cases r) auto
  then show ?thesis by (auto simp: errs_def on_err_apply split: prod.splits)
qed

lemma oversize_id: "errs (\<lambda>er. \<forall>resp. er = Oversize (Some resp) \<longrightarrow> hf_stream_id resp = key_stream_id k) (recv_recv_headers e H W f k)"
  unfolding recv_recv_headers_def
  by (intro errs_bnd errs_seq errs_the_stream errs_branch errs_on_err errs_prims)
    (auto simp: ret_frame_oversize_err_def headers_new_def headers_set_end_stream_def split: if_splits)

lemma inv_answer_headers:
  assumes id: "\<And>resp. p = Err (Oversize (Some resp)) \<Longrightarrow> hf_stream_id resp = key_stream_id k"
  shows "keeps (inv_with n {} K) (answer_headers e H W now k sid p)"
proof (cases "\<exists>resp. p = Err (Oversize (Some resp))")
  case True
  then obtain resp where resp: "p = Err (Oversize (Some resp))" by blast
  note id = id [OF this]
  show ?thesis unfolding answer_headers_def resp
    by (simp, intro inv_rules keeps_prims inv_send_headers id)
qed (auto simp: answer_headers_def split: result.splits recv_header_block_error.splits option.splits)

lemma recv_headers_on_inv:
  fixes s :: "('m, 'st, 'h) inner"
  assumes inv: "inv_with n {key_index k} K s" and k: "deref (i_slab s) k = Some st"
    and st: "opened (st_state st) \<or> st_state st = Idle \<and> \<not> local_stream (c_role (i_counts s)) st"
    and run: "recv_headers_on e H W now f k r st s = (res, s')" "res \<noteq> Panic"
  shows "inv_with n {} K s'"
proof (cases "is_recv_headers (st_state st)")
  case True
  obtain p s1 where p: "recv_recv_headers e H W f k s = (p, s1)" by (cases "recv_recv_headers e H W f k s")
  have id: "p = Err (Oversize (Some resp)) \<Longrightarrow> hf_stream_id resp = key_stream_id k" for resp
    using oversize_id [of k e H W f] p by (auto simp: errs_def dest: spec [of _ s])
  have i1: "inv_with n {} K s1" if "p \<noteq> Panic" using recv_recv_headers_inv [OF inv k _ st p that] by simp
  have keep: "keeps (inv_with n {} K) (bnd (answer_headers e H W now k (st_id st) p) (reset_on_recv_stream_err now k))"
    by (intro inv_rules inv_answer_headers id)
  have go: "p \<noteq> Panic" "bnd (answer_headers e H W now k (st_id st) p) (reset_on_recv_stream_err now k) s1 = (res, s')"
    using run p True by (auto simp: recv_headers_on_def bnd_apply [of "attempt _"] attempt_apply split: result.splits)
  show ?thesis by (rule keepsD [OF keep i1 [OF go(1)] go(2) run(2)])
next
  case False
  then have "opened (st_state st)" using st by auto
  with inv_with_opened [OF inv k] have "inv_with n {} K s" by simp
  moreover have "keeps (inv_with n {} K) (recv_headers_on e H W now f k r st)"
    unfolding recv_headers_on_def using False by (simp, intro impI conjI inv_rules keeps_prims)
  ultimately show ?thesis by (metis keepsD run)
qed

lemma inner_recv_headers_inv:
  fixes s :: "('m, 'st, 'h) inner"
  assumes pick: "pick_ok pick" and inv: "inv_with n {} K s" and sz: "card (dom (i_slab s)) < 2 ^ 32"
    and run: "inner_recv_headers e H W pick now f s = (r, s')" "r \<noteq> Panic"
  shows "inv_with n {} K s'"
proof (cases "hf_stream_id f > rcv_max_stream_id (i_recv s)")
  case True
  with run inv show ?thesis by (simp add: inner_recv_headers_def act_simps Let_def)
next
  case False
  note small = False
  let ?r = "c_role (i_counts s)"
  obtain c s1 where c: "insert_or_create pick (hf_stream_id f) ?r s = (c, s1)" by (cases "insert_or_create pick (hf_stream_id f) ?r s")
  have cP: "c \<noteq> Panic" using run c small by (auto simp: inner_recv_headers_def act_simps Let_def)
  note created = insert_or_create_inv [OF pick inv sz c cP]
  show ?thesis
  proof (cases "\<exists>k. c = Ok (Some k)")
    case False
    with created have "inv_with n {} K s1" by auto
    moreover have "s' = s1" using run c False small cP
      by (cases c) (auto simp: inner_recv_headers_def act_simps Let_def split: option.splits)
    ultimately show ?thesis by simp
  next
    case True
    then obtain k st where k: "c = Ok (Some k)" "deref (i_slab s1) k = Some st" "inv_with n {key_index k} K s1"
      and st: "opened (st_state st) \<or> st_state st = Idle \<and> \<not> local_stream (c_role (i_counts s1)) st"
      using created by auto
    have body: "(if is_local_error (st_state st) then ret () else transition k (recv_headers_on e H W now f k ?r st)) s1 = (r, s')"
      using run(1) c k small by (simp add: inner_recv_headers_def act_simps Let_def the_stream_eq)
    show ?thesis
    proof (cases "is_local_error (st_state st)")
      case True
      then have "opened (st_state st)" by (cases "st_state st") (simp_all add: opened_def)
      with inv_with_opened [OF k(3,2)] body True show ?thesis by simp
    next
      case False
      with body have "transition k (recv_headers_on e H W now f k ?r st) s1 = (r, s')" by simp
      then show ?thesis
        by (rule transition_inv [OF k(3,2) _ _ run(2), rotated]) (rule recv_headers_on_inv [OF _ k(2) st])
    qed
  qed
qed

end
