(* ===== verification/Streams_Calls.thy ===== *)
theory Streams_Calls
  imports Streams_Reach
begin

text \<open>
  The invariant through the operations that create streams for this endpoint, that reset streams it does
  not know, and through the calls of the handles.
\<close>

lemma seq_inv_at:
  assumes "seq m m' s = (r', s')" "r' \<noteq> Panic" "\<And>r s1. m s = (r, s1) \<Longrightarrow> r \<noteq> Panic \<Longrightarrow> J s1" "keeps J m'"
  shows "J s'"
proof -
  obtain r s1 where m: "m s = (r, s1)" by (cases "m s")
  show ?thesis
    using assms(1,2) m assms(3) [OF m] keepsD [OF assms(4)] by (cases r) (auto simp: seq_apply)
qed

section \<open>Resetting unknown streams\<close>

lemma set_reset_closes:
  assumes inv: "inv_with n {key_index k} K s" and k: "deref (i_slab s) k = Some st"
    and run: "on_state k (\<lambda>_. set_reset sid r ini) s = (res, s')"
  shows "inv_with n {} K s'"
proof -
  have "stream_ok (c_role (i_counts s)) (st\<lparr>st_state := set_reset sid r ini\<rparr>)"
    using inv k by (auto simp: inv_with_def stream_ok_def local_stream_def set_reset_def dest: inv_but_stream_ok)
  with set_state_inv(1) [OF inv k _ _ run] show ?thesis by (simp add: opened_def set_reset_def)
qed

lemma send_send_reset_closes:
  assumes inv: "inv_with n {key_index k} K s" and run: "send_send_reset r ini k s = (res, s')" "res \<noteq> Panic"
  shows "inv_with n {} K s'"
proof -
  obtain st where k: "deref (i_slab s) k = Some st"
    using run by (cases "deref (i_slab s) k") (auto simp: send_send_reset_def bnd_apply the_stream_eq)
  show ?thesis
  proof (cases "is_reset (st_state st)")
    case True
    then have "opened (st_state st)" by (cases "st_state st") (simp_all add: opened_def)
    with inv_with_opened [OF inv k] have "inv_with n {} K s" by simp
    with run True k show ?thesis by (simp add: send_send_reset_def bnd_apply the_stream_eq)
  next
    case False
    define rest :: "('a, 'b, 'c, unit, 'd) iact" where
      "rest = seq (notify_recv k)
       (if is_closed (st_state st) \<and> st_pending_send st = [] then ret ()
        else seq (send_clear_stream_queue k)
             (seq (queue_frame (FReset (reset_new (st_id st) r)) k) (reclaim_all_capacity k)))"
    have keep: "keeps (inv_with n {} K) rest" unfolding rest_def by (intro inv_rules inv_intros)
    obtain s1 where on: "on_state k (\<lambda>_. set_reset (st_id st) r ini) s = (Ok () :: (unit, 'd) result, s1)"
      using k by (simp add: on_state_def on_stream_eq)
    have "rest s1 = (res, s')"
      using run(1) False k on
      by (simp add: send_send_reset_def bnd_apply [of "the_stream _"] the_stream_eq stream_set_reset_def rest_def
          seq_apply split: prod.splits result.splits)
    then show ?thesis using keepsD [OF keep set_reset_closes [OF inv k on]] run(2) by blast
  qed
qed

lemma errs_parts:
  "errs (\<lambda>_. False) (dec_num_streams k)" "errs (\<lambda>_. False) dec_num_reset_streams" "errs (\<lambda>_. False) (store_remove k)"
  "errs (\<lambda>_. False) (unlink k)"
  by (auto simp: errs_def dec_num_streams_eq dec_num_reset_streams_def store_remove_eq act_simps check_def on_counts_def unlink_def Let_def
      split: option.splits)

lemma errs_transition_after: "errs (\<lambda>_. False) (transition_after k b)"
  unfolding transition_after_def by (intro errs_the_stream errs_seq errs_branch errs_parts)

lemma transition_after_no_err: "transition_after k b s \<noteq> (Err er, s')"
proof
  assume "transition_after k b s = (Err er, s')"
  then have "fst (transition_after k b s) = Err er" by simp
  from errs_transition_after [unfolded errs_def, rule_format, OF this] show False .
qed

text \<open>A stream that is not closed is left alone by \<open>transition_after\<close>.\<close>

definition unclosed :: "key \<Rightarrow> ('m, 'st, 'h) inner \<Rightarrow> bool" where
  "unclosed k s \<longleftrightarrow> (\<exists>st. deref (i_slab s) k = Some st \<and> \<not> is_closed (st_state st))"

lemma transition_after_unclosed: "unclosed k s \<Longrightarrow> transition_after k b s = (Ok (), s)"
  by (auto simp: unclosed_def transition_after_def act_simps the_stream_eq stream_is_closed_def is_released_def)

lemma actions_send_reset_closes:
  fixes s :: "('m, 'st, 'h) inner"
  assumes inv: "inv_with n {key_index k} K s" and k: "deref (i_slab s) k = Some st"
    and run: "actions_send_reset now k r ini s = (res, s')" "res \<noteq> Panic"
  shows "inv_with n {} K s' \<or> res = Err too_many_internal_resets \<and> (\<not> is_closed (st_state st) \<longrightarrow> s' = s)"
proof (cases "initiator_is_library ini \<and> \<not> can_inc_num_local_error_resets (i_counts s)")
  case True
  then have "res = Err too_many_internal_resets"
    using run k by (auto simp: transition_after_no_err actions_send_reset_def transition_def act_simps the_stream_eq split: prod.splits result.splits)
  moreover have "s' = s" if "\<not> is_closed (st_state st)"
  proof -
    from that k have "unclosed k s" by (auto simp: unclosed_def)
    with run k True show ?thesis
      by (auto simp: actions_send_reset_def transition_def act_simps the_stream_eq transition_after_unclosed split: prod.splits result.splits)
  qed
  ultimately show ?thesis by simp
next
  case False
  have "inv_with n {} K s'"
    using run(1) unfolding actions_send_reset_def
  proof (rule transition_inv [OF inv k _ _ run(2), rotated])
    fix K' r1 s1
    assume inv: "inv_with n {key_index k} K' s" and r1: "r1 \<noteq> Panic" and f: "bnd (gets i_counts) (\<lambda>c.
      seq (if initiator_is_library ini then if can_inc_num_local_error_resets c then inc_num_local_error_resets
             else throw too_many_internal_resets else ret ())
      (seq (send_send_reset r ini k) (seq (enqueue_reset_expiration now k) (notify_recv k)))) s = (r1, s1)"
    define A :: "('m, 'st, 'h, unit, conn_go_away) iact" where
      "A = (if initiator_is_library ini then inc_num_local_error_resets else ret ())"
    obtain ra sa where a: "A s = (ra, sa)" by (cases "A s")
    have ra: "ra = Ok () \<or> ra = Panic"
      using a by (auto simp: A_def inc_num_local_error_resets_def act_simps on_counts_def check_def split: if_splits)
    have invA: "inv_with n {key_index k} K' sa" if "ra \<noteq> Panic"
      using a that inv keepsD [OF inv_counters(1) inv] by (auto simp: A_def split: if_splits)
    have "seq (send_send_reset r ini k) (seq (enqueue_reset_expiration now k) (notify_recv k)) sa = (r1, s1)" "ra \<noteq> Panic"
      using f a ra r1 False by (auto simp: bnd_apply seq_apply [of "if _ then _ else _"] A_def split: if_splits)
    note go = this
    have keep: "keeps (inv_with n {} K') (seq (enqueue_reset_expiration now k) (notify_recv k) :: ('m, 'st, 'h, unit, conn_go_away) iact)"
      by (intro inv_rules)
    show "inv_with n {} K' s1"
      by (rule seq_inv_at [OF go(1) r1 _ keep]) (rule send_send_reset_closes [OF invA [OF go(2)]])
  qed
  then show ?thesis ..
qed

lemma inner_send_reset_inv:
  fixes s :: "('m, 'st, 'h) inner"
  assumes pick: "pick_ok pick" and inv: "inv_with n {} K s" and sz: "card (dom (i_slab s)) < 2 ^ 32"
    and run: "inner_send_reset pick now sid r s = (res, s')" "res \<noteq> Panic"
  shows "inv_with n {} K s' \<or> res = Err too_many_internal_resets \<and> (\<exists>i. inv_with n {i} K s' \<and> (sid, i) \<in> set (i_ids s'))"
proof (cases "find_mut sid s")
  case (Some k)
  then have "actions_send_reset now k r Library s = (res, s')" using run by (simp add: inner_send_reset_def act_simps)
  then show ?thesis using keepsD [OF inv_actions_send_reset inv _ run(2)] by blast
next
  case None
  let ?rl = "c_role (i_counts s)"
  define A :: "bool \<Rightarrow> ('m, 'st, 'h, unit, conn_go_away) iact" where
    "A loc = (if loc then send_maybe_reset_next_stream_id sid else recv_maybe_reset_next_stream_id sid)" for loc
  obtain loc where loc: "is_local_init ?rl sid = (Ok loc :: (bool, conn_go_away) result)" "sid \<noteq> 0"
    using run None by (auto simp: inner_send_reset_def act_simps is_local_init_def stream_id_is_zero_def split: if_splits)
  obtain ra sa where a: "A loc s = (ra, sa)" by (cases "A loc s")
  have keepA: "keeps (inv_with n {} K) (A loc)" unfolding A_def by (intro inv_rules)
  have same: "i_slab sa = i_slab s" using a
    by (auto simp: A_def send_maybe_reset_next_stream_id_def recv_maybe_reset_next_stream_id_def act_simps on_send_def on_recv_def
        check_def if_then_def split: if_splits option.splits)
  have ra: "ra = Ok ()" using run None loc a
    by (cases ra; simp add: A_def send_maybe_reset_next_stream_id_def recv_maybe_reset_next_stream_id_def inner_send_reset_def act_simps check_def
        if_then_def on_send_def on_recv_def split: if_splits option.splits)
  obtain ri si where ins: "store_insert pick sid (stream_new sid 0 0) sa = (ri :: (key, conn_go_away) result, si)"
    by (cases "store_insert pick sid (stream_new sid 0 0) sa :: (key, conn_go_away) result \<times> _")
  have ri: "ri \<noteq> Panic" using run None loc a ra ins by (auto simp: inner_send_reset_def act_simps A_def [symmetric])
  from store_insert_with [OF pick keepsD [OF keepA inv a] fresh_stream_new [OF loc(2)] ins ri] ra same sz
  obtain k where k: "ri = Ok k" "deref (i_slab si) k = Some (stream_new sid 0 0)" "inv_with n {key_index k} K si"
    "(sid, key_index k) \<in> set (i_ids si)" by auto
  have "actions_send_reset now k r Library si = (res, s')"
    using run None loc a ra ins k by (simp add: inner_send_reset_def act_simps A_def [symmetric])
  from actions_send_reset_closes [OF k(3,2) this run(2)] k(3,4) show ?thesis
    by (auto simp: stream_new_def state_default_def)
qed

section \<open>Requests and responses\<close>

lemma two_two_frame_ids:
  assumes "two_two_frame_from H sid p flds body trailers = Ok frames"
  shows "hf_stream_id (tt_header frames) = sid"
  using assms
  by (auto simp: two_two_frame_from_def Let_def headers_new_def headers_set_end_stream_def rbind_eq_Ok split: if_splits option.splits)

lemma two_two_frame_no_err: "two_two_frame_from H sid p flds body trailers \<noteq> Err er"
  by (auto simp: two_two_frame_from_def Let_def data_new_def split: option.splits)

lemma inv_queue_body_trailer [inv_rules]: "keeps (inv_with n X K) (queue_body_trailer k d t)"
  unfolding queue_body_trailer_def by (intro inv_rules inv_intros; simp)

lemma inv_refs [inv_rules]: "keeps (inv_with n X K) (ref_inc k)" "keeps (inv_with n X K) (ref_dec k)"
  unfolding ref_inc_def ref_dec_def by (intro inv_rules inv_intros; simp)+

lemma inv_drop_slot:
  assumes "inv_with n {i} K s" "i_slab s i = None"
  shows "inv_with n {} K s"
  using assms by (fastforce simp: inv_with_def inv_but_def inv_core_def)

lemma discard_inv:
  assumes inv: "inv_with n {key_index k} {} s" and k: "deref (i_slab s) k = Some st" "fresh_stream sid st"
    and run: "seq (unlink k) (seq (store_remove k) (throw er)) s = (r, s')" "r \<noteq> Panic"
  shows "inv_with n {} {} s'"
proof -
  obtain s1 where s1: "unlink k s = (Ok () :: (unit, 'e) result, s1)" "i_slab s1 = i_slab s" by (simp add: unlink_def)
  have inv1: "inv_with n {key_index k} {} s1" using keepsD [OF inv_counters(4) inv s1(1)] by simp
  from run s1 k have ids: "map_of (i_ids s1) (key_stream_id k) = None"
    and s': "s' = s1\<lparr>i_slab := (i_slab s1)(key_index k := None)\<rparr>"
    by (auto simp: seq_apply store_remove_eq deref_Some unlink_def Let_def split: if_splits option.splits)
  have "inv_but n {key_index k} s'" unfolding s'
    using inv1 k s1(2) ids by (intro inv_but_remove) (auto simp: inv_with_def fresh_stream_def)
  then have "inv_with n {key_index k} {} s'" using inv1 by (simp add: inv_with_def s')
  then show ?thesis by (rule inv_drop_slot) (simp add: s')
qed

lemma send_request_frames_inv:
  fixes s :: "('m, 'st, 'h) inner"
  assumes inv: "inv_with n {key_index k} {} s" and k: "deref (i_slab s) k = Some st" "fresh_stream sid st" "key_stream_id k = sid"
    and loc: "local_stream (c_role (i_counts s)) st"
    and run: "send_request_frames e H W rq is_spa sid k s = (r, s')" "r \<noteq> Panic"
  shows "inv_with n {} {} s'"
proof -
  from run obtain frames where fr: "request_frames H W sid rq = (Ok frames :: (_, send_error) result)"
    by (cases "request_frames H W sid rq :: (_, send_error) result")
      (auto simp: send_request_frames_def act_simps request_frames_def two_two_frame_no_err)
  define header where "header = (if tt_data frames = None \<and> is_spa then headers_unset_end_stream (tt_header frames) else tt_header frames)"
  have id: "hf_stream_id header = key_stream_id k"
    using two_two_frame_ids [of H sid] fr k(3) by (auto simp: request_frames_def header_def headers_unset_end_stream_def)
  obtain p s1 where p: "send_headers e H W header k s = (p, s1)" by (cases "send_headers e H W header k s")
  obtain d where eq: "(case p of
       Err er \<Rightarrow> seq (unlink k) (seq (store_remove k) (throw (SUser er)))
     | Panic \<Rightarrow> panic
     | Ok _ \<Rightarrow> seq (queue_body_trailer k d (tt_trailer frames))
         (bnd (the_stream k) (\<lambda>x. seq (check (\<not> is_closed (st_state x)))
          (seq (modify (\<lambda>s. s\<lparr>i_refs := i_refs s + 1\<rparr>)) (seq (ref_inc k) (ret k)))))) s1 = (r, s')"
    using run fr p unfolding send_request_frames_def header_def
    by (cases p) (fastforce simp: bnd_apply attempt_apply data_new_def split: if_splits)+
  from p eq run(2) have "p \<noteq> Panic" by auto
  from send_headers_inv [OF inv k(1) id _ p this] loc
  consider "p = Ok ()" "inv_with n {} {} s1" | er where "p = Err er" "s1 = s" by auto
  then show ?thesis
  proof cases
    case 1
    have "keeps (inv_with n {} {}) (seq (queue_body_trailer k d (tt_trailer frames))
         (bnd (the_stream k) (\<lambda>x. seq (check (\<not> is_closed (st_state x)))
          (seq (modify (\<lambda>s. s\<lparr>i_refs := i_refs s + 1\<rparr>)) (seq (ref_inc k) (ret k))))) :: ('m, 'st, 'h, key, send_error) iact)"
      by (intro inv_rules inv_intros)
    from keepsD [OF this 1(2) _ run(2)] eq 1(1) show ?thesis by simp
  next
    case 2
    with eq discard_inv [OF inv k(1,2) _ run(2)] show ?thesis by simp
  qed
qed

lemma fresh_stream_content_length: "fresh_stream sid st \<Longrightarrow> fresh_stream sid (st\<lparr>st_content_length := cl\<rparr>)"
proof -
  assume st: "fresh_stream sid st"
  have "queued q (st\<lparr>st_content_length := cl\<rparr>) = queued q st" for q by (cases q) simp_all
  with st show ?thesis by (simp add: fresh_stream_def)
qed

lemma send_request_inv:
  fixes s :: "('m, 'st, 'h) inner"
  assumes pick: "pick_ok pick" and inv: "inv_with n {} {} s" and sz: "card (dom (i_slab s)) < 2 ^ 32"
    and run: "send_request e H W pick rq is_spa s = (r, s')" "r \<noteq> Panic"
  shows "inv_with n {} {} s'"
proof (cases "i_conn_error s = None \<and> snd_next_stream_id (i_send s) \<noteq> None \<and> \<not> is_server (c_role (i_counts s))")
  case False
  then have "s' = s" using run
    by (auto simp: send_request_def act_simps ensure_no_conn_error_def ensure_next_stream_id_def split: option.splits if_splits)
  with inv show ?thesis by simp
next
  case True
  then obtain sid where sid: "snd_next_stream_id (i_send s) = Some sid" by auto
  define s1 where "s1 = s\<lparr>i_send := (i_send s)\<lparr>snd_next_stream_id := next_id sid\<rparr>\<rparr>"
  have cli: "is_client_initiated sid" using next_okD [OF inv sid] .
  have inv1: "inv_with n {} {} s1" unfolding s1_def using inv cli by (intro inv_set_next) (auto dest: next_id_client)
  let ?st0 = "stream_new sid (snd_init_stream_window_sz (i_send s1)) (rcv_init_stream_window_sz (i_recv s1)) :: ('m, 'st, 'h) stream"
  define st where "st = (if rq_method rq = METHOD_HEAD W then ?st0\<lparr>st_content_length := CLHead\<rparr> else ?st0)"
  have "fresh_stream sid ?st0" using cli by (intro fresh_stream_new) (simp add: is_client_initiated_def)
  then have fresh: "fresh_stream sid st" by (simp add: st_def fresh_stream_content_length)
  obtain p s2 where p: "store_insert pick sid st s1 = (p :: (key, send_error) result, s2)"
    by (cases "store_insert pick sid st s1 :: (key, send_error) result \<times> _")
  have eq: "(case p of Ok k \<Rightarrow> send_request_frames e H W rq is_spa sid k s2 | Err er \<Rightarrow> (Err er, s2) | Panic \<Rightarrow> (Panic, s2)) = (r, s')"
    using run(1) True sid p
    by (simp add: send_request_def act_simps ensure_no_conn_error_def ensure_next_stream_id_def send_open_id_def on_send_def
        s1_def [symmetric] st_def [symmetric] Let_def)
  with run(2) have pP: "p \<noteq> Panic" by auto
  have "card (dom (i_slab s1)) < 2 ^ 32" using sz by (simp add: s1_def)
  from store_insert_with [OF pick inv1 fresh p pP this] obtain k where k: "p = Ok k" "deref (i_slab s2) k = Some st"
    "inv_with n {key_index k} {} s2" "i_counts s2 = i_counts s1" "key_stream_id k = sid" by blast
  have "local_stream (c_role (i_counts s2)) st"
    using True cli fresh by (auto simp: local_stream_def k(4) s1_def fresh_stream_def is_client_initiated_def is_server_initiated_def)
  from send_request_frames_inv [OF k(3,2) fresh k(5) this _ run(2)] eq k(1) show ?thesis by simp
qed

lemma inv_send_response [inv_rules]: "keeps (inv_with n {} K) (send_response e H W rs k)"
  unfolding keeps_at_iff send_response_def
proof (intro allI keeps_at_the_stream keeps_at_if keeps_at_of_result)
  fix s :: "('a, 'b, 'c) inner" and st and frames :: "('a, 'b, 'c) two_two_frame"
  assume st: "deref (i_slab s) k = Some st" and fr: "response_frames H (st_id st) rs = Ok frames"
  then have "hf_stream_id (tt_header frames) = key_stream_id k"
    using two_two_frame_ids by (auto simp: response_frames_def deref_Some)
  then show "keeps_at (inv_with n {} K) (inv_with n {} K) (seq (transition k (send_headers e H W (tt_header frames) k))
      (queue_body_trailer k (tt_data frames) (tt_trailer frames))) s"
    by (intro keeps_at_keeps inv_rules inv_transition inv_send_headers)
qed (auto intro!: keeps_at_keeps inv_rules keeps_prims)

section \<open>Handles\<close>

lemma inv_next_accept [inv_rules]: "keeps (inv_with n X K) next_accept"
  unfolding next_accept_def by (intro inv_rules inv_intros)

lemma inv_on_counts_send: "keeps (inv_with n X K) (on_counts (counts_apply_remote_settings cfg))"
  by (auto simp: keeps_def on_counts_def inv_with_def reset_pending_other counts_apply_remote_settings_def counts_ok_def
      dest: inv_but_counts intro!: inv_but_set_counts)

lemma inv_streams_settings [inv_rules]:
  "keeps (inv_with n X K) (streams_apply_local_settings cfg)" "keeps (inv_with n X K) (streams_apply_remote_settings cfg)"
  "keeps (inv_with n X K) (streams_send_go_away sid)"
  unfolding streams_apply_local_settings_def streams_apply_remote_settings_def streams_send_go_away_def
  by (intro inv_rules inv_on_counts_send)+

lemma inv_streams_refs [inv_rules]:
  "keeps (inv_with n X K) streams_clone" "keeps (inv_with n X K) streams_drop" "keeps (inv_with n X K) (opaque_clone k)"
  unfolding streams_clone_def streams_drop_def opaque_clone_def by (intro inv_rules inv_intros)+

lemma inv_opaque_calls [inv_rules]:
  "keeps (inv_with n X K) (opaque_poll_response w k)" "keeps (inv_with n X K) (opaque_take_partial_response k)"
  "keeps (inv_with n X K) (stream_ref_take_request k)" "keeps (inv_with n X K) (stream_ref_send_reset now r k)"
  "keeps (inv_with n X K) (maybe_cancel now k)"
  unfolding opaque_poll_response_def opaque_take_partial_response_def stream_ref_take_request_def stream_ref_send_reset_def maybe_cancel_def
  by (intro inv_rules inv_intros)+

text \<open>No stream has push promises, so the loop over them never runs.\<close>

lemma inv_drop_promises:
  "keeps (inv_with n X K) (bnd (the_stream k) (\<lambda>st. if_then (st_ref_count st = 0)
     (seq (on_stream k (\<lambda>x. x\<lparr>st_pending_push_promises := []\<rparr>)) (cancel_promises now (st_pending_push_promises st)))))"
  unfolding keeps_at_iff
proof (intro allI keeps_at_the_stream)
  fix s :: "('m, 'st, 'h) inner" and st
  assume k: "deref (i_slab s) k = Some st"
  let ?m = "if_then (st_ref_count st = 0)
     (seq (on_stream k (\<lambda>x. x\<lparr>st_pending_push_promises := []\<rparr>)) (cancel_promises now (st_pending_push_promises st))) :: ('m, 'st, 'h, unit, 'e) iact"
  have "benign r x (x\<lparr>st_pending_push_promises := []\<rparr>)" for r and x :: "('m, 'st, 'h) stream"
  proof -
    have "queued q (x\<lparr>st_pending_push_promises := []\<rparr>) = queued q x" for q by (cases q) simp_all
    then show ?thesis by (simp add: benign_def stream_ok_def local_stream_def)
  qed
  then have "keeps (inv_with n X K) ?m" if "st_pending_push_promises st = []"
    using that by (simp, intro inv_rules keeps_prims inv_on_stream) blast
  moreover have "st_pending_push_promises st = []" if "inv_with n X K s"
    using that k by (auto simp: inv_with_def stream_ok_def dest: inv_but_stream_ok)
  ultimately show "keeps_at (inv_with n X K) (inv_with n X K) ?m s" by (auto simp: keeps_at_def keeps_def)
qed

lemma inv_opaque_drop [inv_rules]: "keeps (inv_with n X K) (opaque_drop now k)"
  unfolding opaque_drop_def by (intro inv_rules inv_intros inv_transition inv_drop_promises)

section \<open>Held back frames\<close>

lemma inv_on_spa [inv_rules]: "keeps (inv_with n X K) (on_spa f)"
  unfolding on_spa_def by (intro inv_on_send; simp)

lemma inv_fill_frame [inv_rules]: "keeps (inv_with n X K) (fill_frame sid)"
  unfolding fill_frame_def
  by (intro inv_rules keeps_list_cases keeps_frame_cases keeps_prims inv_read_send_close inv_intros; simp)

lemma inv_fill_frames [inv_rules]: "keeps (inv_with n X K) (fill_frames sz ids)"
proof (induction ids)
  case (Cons sid ids)
  then show ?case by (auto intro!: inv_rules keeps_prims)
qed (simp add: keeps_def)

lemma inv_poll_fill_frames [inv_rules]: "keeps (inv_with n X K) (poll_fill_frames sz b1 b2 t)"
  unfolding poll_fill_frames_def by (intro inv_rules keeps_prims)

lemma inv_spa_poll [inv_rules]: "keeps (inv_with n X K) (spa_poll w nonce sz b1 b2 can ph t)"
proof -
  have fill: "keeps (inv_with n X K) (bnd (poll_fill_frames sz b1 b2 t) (\<lambda>(p, out). ret (p, out, ph, p = Ready ())))"
    by (intro inv_rules keeps_prims)
  have send: "keeps (inv_with n X K) (seq (on_spa (\<lambda>t. t\<lparr>spa_mode := m\<rparr>)) (seq (wake w) (ret x)))" for m x
    by (intro inv_rules keeps_prims)
  show ?thesis unfolding spa_poll_def Let_def
    by (auto split: spa_mode.splits option.splits ping_state.splits bool.splits intro: fill send)
qed

lemma inv_spa_calls [inv_rules]:
  "keeps (inv_with n X K) (send_poll_spa w nonce sz b1 b2 b3 ph)" "keeps (inv_with n X K) (send_recvd_ping w payload)"
  unfolding send_poll_spa_def send_recvd_ping_def by (intro inv_rules keeps_prims inv_on_send; simp)+

end
