(* ===== verification/Streams_Loop.thy ===== *)
theory Streams_Loop
  imports Streams_Calls
begin

text \<open>
  \<open>Store::try_for_each\<close> reaches every stream, although the callback may remove the entry it is at, and so
  a connection error ends every stream. The parts of the handlers that leave the states of the streams
  alone are treated once, in the locale \<open>quiet\<close>.
\<close>

section \<open>Actions that leave the states of streams alone\<close>

locale quiet =
  fixes I :: "('m, 'st, 'h) inner \<Rightarrow> bool"
  assumes upd: "I s \<Longrightarrow> deref (i_slab s) k = Some st \<Longrightarrow> st_state st' = st_state st \<Longrightarrow> st_id st' = st_id st \<Longrightarrow>
      I (s\<lparr>i_slab := (i_slab s)(key_index k \<mapsto> st')\<rparr>)"
    and others: "I s \<Longrightarrow> I (s\<lparr>i_send := sn\<rparr>)" "I s \<Longrightarrow> I (s\<lparr>i_recv := rv\<rparr>)" "I s \<Longrightarrow> I (s\<lparr>i_task := t\<rparr>)"
      "I s \<Longrightarrow> I (s\<lparr>i_woken := w\<rparr>)"
begin

lemma on_stream_kept:
  assumes "\<And>st. st_state (f st) = st_state st" "\<And>st. st_id (f st) = st_id st"
  shows "keeps I (on_stream k f)"
  using assms by (intro keepsI) (auto simp: on_stream_eq split: option.splits intro: upd)

lemma parts_kept:
  "keeps I (on_send sf)" "keeps I (on_recv rf)" "keeps I (wake w)" "keeps I (modify (\<lambda>s. s\<lparr>i_task := t s\<rparr>))"
  by (simp_all add: keeps_def on_send_def on_recv_def wake_def others)

lemma set_qlist_kept: "I s \<Longrightarrow> I (set_qlist q ks s)"
  by (cases q) (simp_all add: others)

lemma queues_kept: "keeps I (q_push q now k)" "keeps I (q_pop q)"
  by (rule keepsI; auto simp: q_push_eq q_pop_eq split: option.splits list.splits if_splits intro!: set_qlist_kept upd)+

lemmas kept = keeps_rules on_stream_kept parts_kept queues_kept

lemma wakers_kept: "keeps I wake_task" "keeps I (notify_recv k)"
  unfolding wake_task_def notify_recv_def by (intro kept; simp)+

lemma try_assign_kept: "keeps I (try_assign_capacity k)"
  unfolding try_assign_capacity_def by (intro kept; simp)

lemma clear_kept: "keeps I (send_clear_stream_queue k)" "keeps I (recv_clear_stream_queue k)"
  unfolding send_clear_stream_queue_def recv_clear_stream_queue_def by (intro kept; simp)+

end

text \<open>A stream that is not closed stays so, and \<open>transition\<close> does nothing to it.\<close>

interpretation un: quiet "unclosed k" for k
  by unfold_locales (auto simp: unclosed_def deref_Some)

lemma transition_unclosed:
  assumes "unclosed k s" "keeps (unclosed k) f"
  shows "transition k f s = f s"
proof -
  obtain r s1 where f: "f s = (r, s1)" by (cases "f s")
  have "unclosed k s1" if "r \<noteq> Panic" using keepsD [OF assms(2,1) f that] .
  note after = transition_after_unclosed [OF this]
  obtain st where "deref (i_slab s) k = Some st" using assms(1) by (auto simp: unclosed_def)
  with f show ?thesis by (cases r) (simp_all add: transition_def act_simps the_stream_eq after)
qed

lemma seq_bnd: "seq (bnd m f) n = bnd m (\<lambda>x. seq (f x) n)"
  by (simp add: seq_def bnd_assoc)

context quiet
begin

lemma assign_round_kept:
  "keeps I (bnd (the_stream k) (\<lambda>st. if_then (is_send_streaming (st_state st) \<and> st_remaining_data_len st \<noteq> None)
     (transition k (try_assign_capacity k))))"
proof (rule keepsI)
  fix s r s'
  assume I: "I s" and r: "r \<noteq> Panic"
    and run: "bnd (the_stream k) (\<lambda>st. if_then (is_send_streaming (st_state st) \<and> st_remaining_data_len st \<noteq> None)
     (transition k (try_assign_capacity k))) s = (r, s')"
  then obtain st where st: "deref (i_slab s) k = Some st" by (cases "deref (i_slab s) k") (auto simp: bnd_apply the_stream_eq)
  show "I s'"
  proof (cases "is_send_streaming (st_state st) \<and> st_remaining_data_len st \<noteq> None")
    case True
    then have "unclosed k s" using st by (cases "st_state st") (auto simp: unclosed_def)
    with run st True have "try_assign_capacity k s = (r, s')"
      by (simp add: bnd_apply the_stream_eq transition_unclosed un.try_assign_kept)
    from keepsD [OF try_assign_kept I this r] show ?thesis .
  qed (use run st I in \<open>auto simp: bnd_apply the_stream_eq\<close>)
qed

lemma assign_n_kept: "keeps I (assign_connection_capacity_n n)"
proof (induction n)
  case (Suc n)
  note round = keeps_seq [OF assign_round_kept Suc, unfolded seq_bnd]
  show ?case unfolding assign_connection_capacity_n.simps by (intro keeps_bnd keeps_if keeps_case_option kept(1-8) round queues_kept)
qed (simp add: keeps_def)

lemma assign_kept: "keeps I assign_connection_capacity"
  unfolding assign_connection_capacity_def by (intro kept assign_n_kept)

lemma capacity_kept: "keeps I (recv_connection_window_update sz)" "keeps I (reclaim_all_capacity k)" "keeps I (send_handle_error k)"
  unfolding send_handle_error_def reclaim_all_capacity_def recv_connection_window_update_def
  by (intro kept assign_kept clear_kept)+

end

section \<open>Streams that have ended\<close>

text \<open>A slot is ended when it is vacant or its stream is closed.\<close>

definition ended :: "nat \<Rightarrow> ('m, 'st, 'h) inner \<Rightarrow> bool" where
  "ended i s \<longleftrightarrow> (\<forall>st. i_slab s i = Some st \<longrightarrow> is_closed (st_state st))"

interpretation en: quiet "ended i" for i
  by unfold_locales (auto simp: ended_def deref_Some)

interpretation li: quiet "\<lambda>s. i_ids s = ids" for ids
  by unfold_locales simp_all

lemma ended_on_state: "(\<And>x. is_closed x \<Longrightarrow> is_closed (f x)) \<Longrightarrow> keeps (ended i) (on_state k f)"
  by (rule keepsI) (auto simp: on_state_def on_stream_eq ended_def deref_Some split: option.splits if_splits)

lemma on_state_ends:
  assumes "on_state k f s = (r, s')" "r \<noteq> Panic" "\<And>x. is_closed (f x)"
  shows "ended (key_index k) s'"
  using assms by (auto simp: on_state_def on_stream_eq ended_def split: option.splits)

lemma ended_transition_after: "keeps (ended i) (transition_after k b)"
proof -
  have "keeps (ended i) (dec_num_streams k)" "keeps (ended i) dec_num_reset_streams" "keeps (ended i) (unlink k)" "keeps (ended i) (store_remove k)"
    by (auto simp: keeps_def dec_num_streams_eq dec_num_reset_streams_def act_simps check_def on_counts_def unlink_def store_remove_eq
        ended_def deref_Some Let_def split: option.splits)
  then show ?thesis unfolding transition_after_def by (intro keeps_rules)
qed

lemma seq_assoc: "seq (seq a b) c = seq a (seq b c)"
  by (simp add: seq_def bnd_assoc)

lemma ids_parts:
  "keeps (\<lambda>s. i_ids s = ids) (dec_num_streams k)" "keeps (\<lambda>s. i_ids s = ids) dec_num_reset_streams"
  "keeps (\<lambda>s. i_ids s = ids) (bnd (the_stream k) (\<lambda>st. if_then (is_released st) (store_remove k)))"
  by (auto simp: keeps_def dec_num_streams_eq dec_num_reset_streams_def act_simps check_def on_counts_def store_remove_eq the_stream_eq
      if_then_def Let_def split: option.splits)

lemma transition_after_ids:
  fixes s :: "('m, 'st, 'h) inner" and r :: "(unit, 'e) result"
  assumes run: "transition_after k b s = (r, s')" and r: "r \<noteq> Panic"
  shows "i_ids s' = i_ids s \<or> i_ids s' = swap_remove (key_stream_id k) (i_ids s)"
proof -
  obtain st where st: "deref (i_slab s) k = Some st"
    using run r by (cases "deref (i_slab s) k") (auto simp: transition_after_def bnd_apply the_stream_eq)
  define D R :: "('m, 'st, 'h, unit, 'e) iact" where
    "D = if_then (\<not> is_scheduled_reset (st_state st) \<and> st_is_counted st) (dec_num_streams k)" and
    "R = bnd (the_stream k) (\<lambda>st. if_then (is_released st) (store_remove k))"
  have DR: "keeps (\<lambda>s. i_ids s = ids) D" "keeps (\<lambda>s. i_ids s = ids) R" for ids
    unfolding D_def R_def by (intro keeps_if_then ids_parts)+
  show ?thesis
  proof (cases "stream_is_closed st \<and> \<not> is_pending_reset_expiration st")
    case True
    let ?s = "s\<lparr>i_ids := swap_remove (key_stream_id k) (i_ids s)\<rparr>"
    have go: "seq (if_then b dec_num_reset_streams) (seq D R) ?s = (r, s')"
      using run True st unfolding D_def R_def
      by (simp add: transition_after_def bnd_apply [of "the_stream k"] the_stream_eq seq_assoc) (simp add: seq_apply unlink_def)
    have keep: "keeps (\<lambda>x. i_ids x = i_ids ?s) (seq (if_then b dec_num_reset_streams) (seq D R))"
      by (intro keeps_seq keeps_if_then ids_parts DR)
    show ?thesis using keepsD [OF keep refl go r] by simp
  next
    case False
    then have go: "seq (if_then (stream_is_closed st) D) R s = (r, s')"
      using run st unfolding D_def R_def by (auto simp: transition_after_def bnd_apply [of "the_stream k"] the_stream_eq)
    have keep: "keeps (\<lambda>x. i_ids x = i_ids s) (seq (if_then (stream_is_closed st) D) R)"
      by (intro keeps_seq keeps_if_then DR)
    show ?thesis using keepsD [OF keep refl go r] by simp
  qed
qed

section \<open>Every stream is reached\<close>

lemma swap_remove_at:
  assumes "distinct (map fst ids)" "i < length ids"
  shows "swap_remove (fst (ids ! i)) ids = take i ids @ (case drop (Suc i) ids of [] \<Rightarrow> [] | x # xs \<Rightarrow> last (x # xs) # butlast (x # xs))"
  using assms
proof (induction ids arbitrary: i)
  case (Cons y ys)
  show ?case
  proof (cases i)
    case 0
    then show ?thesis by (cases ys) auto
  next
    case (Suc j)
    with Cons.prems have "ys ! j \<in> set ys" by simp
    then have "fst y \<noteq> fst (ys ! j)" using Cons.prems by force
    with Cons Suc show ?thesis by simp
  qed
qed simp

lemma swap_remove_rest:
  assumes "distinct (map fst ids)" "i < length ids"
  shows "length (swap_remove (fst (ids ! i)) ids) = length ids - 1"
    and "set (drop i (swap_remove (fst (ids ! i)) ids)) = set (drop (Suc i) ids)"
proof -
  have r: "set (case xs of [] \<Rightarrow> [] | x # ys \<Rightarrow> last (x # ys) # butlast (x # ys)) = set xs"
    "length (case xs of [] \<Rightarrow> [] | x # ys \<Rightarrow> last (x # ys) # butlast (x # ys)) = length xs" for xs :: "'a list"
    using set_last_butlast [of xs] by (cases xs; simp)+
  show "length (swap_remove (fst (ids ! i)) ids) = length ids - 1" "set (drop i (swap_remove (fst (ids ! i)) ids)) = set (drop (Suc i) ids)"
    using assms by (simp_all add: swap_remove_at r)
qed

text \<open>What a callback that ends the streams of \<open>P\<close> promises to the loop.\<close>

locale ending =
  fixes P :: "key \<Rightarrow> bool" and f :: "key \<Rightarrow> ('m, 'st, 'h, unit, 'e) iact"
  assumes closes: "P k \<Longrightarrow> f k s = (r, s') \<Longrightarrow> r \<noteq> Panic \<Longrightarrow> ended (key_index k) s'"
    and keeps_ended: "keeps (ended i) (f k)"
    and ids: "f k s = (r, s') \<Longrightarrow> r \<noteq> Panic \<Longrightarrow>
      i_ids s' = i_ids s \<or> i_ids s' = swap_remove (key_stream_id k) (i_ids s)"
begin

lemma from_ended:
  assumes "try_for_each_from f i n s = (Ok (), s')" "length (i_ids s) = i + n" "distinct (map fst (i_ids s))"
    "(\<exists>sid. (sid, x) \<in> set (drop i (i_ids s)) \<and> P \<lparr>key_index = x, key_stream_id = sid\<rparr>) \<or> ended x s"
  shows "ended x s'"
  using assms
proof (induction n arbitrary: i s)
  case 0
  then show ?case by simp
next
  case (Suc n)
  let ?ids = "i_ids s"
  let ?k = "\<lparr>key_index = snd (?ids ! i), key_stream_id = fst (?ids ! i)\<rparr>"
  have i: "i < length ?ids" using Suc.prems by simp
  obtain s1 where f: "f ?k s = (Ok (), s1)"
    and next_round: "(let m = length (i_ids s1) in if m < i + Suc n then seq (check (m = i + n)) (try_for_each_from f i n)
       else try_for_each_from f (Suc i) n) s1 = (Ok (), s')"
    using Suc.prems(1) i by (cases "f ?k s") (auto simp: act_simps Let_def split: result.splits)
  have "P ?k \<Longrightarrow> ended (snd (?ids ! i)) s1" using closes [OF _ f] by simp
  moreover have "ended x s1" if "ended x s" using keepsD [OF keeps_ended that f] by simp
  moreover have "drop i ?ids = ?ids ! i # drop (Suc i) ?ids" using i by (simp add: Cons_nth_drop_Suc)
  ultimately have x: "(\<exists>sid. (sid, x) \<in> set (drop (Suc i) ?ids) \<and> P \<lparr>key_index = x, key_stream_id = sid\<rparr>) \<or> ended x s1"
    using Suc.prems(4) by (metis fst_conv set_ConsD snd_conv)
  from ids [OF f] consider "i_ids s1 = ?ids" | "i_ids s1 = swap_remove (fst (?ids ! i)) ?ids" by auto
  then show ?case
  proof cases
    case 1
    with next_round Suc.prems x show ?thesis by (intro Suc.IH [of "Suc i" s1]) simp_all
  next
    case 2
    note rest = swap_remove_rest [OF Suc.prems(3) i]
    have "length (i_ids s1) = i + n" using 2 rest Suc.prems(2) by simp
    moreover have "distinct (map fst (i_ids s1))" using 2 swap_remove_distinct [OF Suc.prems(3)] by simp
    ultimately show ?thesis using next_round x 2 rest by (intro Suc.IH [of i s1]) simp_all
  qed
qed

lemma all_ended:
  assumes "try_for_each f s = (Ok (), s')" "distinct (map fst (i_ids s))" "(sid, x) \<in> set (i_ids s)"
    "P \<lparr>key_index = x, key_stream_id = sid\<rparr>"
  shows "ended x s'"
  using assms from_ended [of 0 "length (i_ids s)" s s' x] by (force simp: try_for_each_def bnd_apply)

end

text \<open>The callbacks of \<open>handle_error\<close> and \<open>recv_eof\<close>.\<close>

lemma ending_transition:
  fixes g :: "key \<Rightarrow> ('m, 'st, 'h, unit, 'e) iact"
  assumes g: "\<And>k s r s'. g k s = (r, s') \<Longrightarrow> r \<noteq> Panic \<Longrightarrow> ended (key_index k) s'"
    and kept: "\<And>i k. keeps (ended i) (g k)" "\<And>ids k. keeps (\<lambda>s. i_ids s = ids) (g k)"
  shows "ending (\<lambda>_. True) (\<lambda>k. transition k (seq (g k) (send_handle_error k)))"
proof
  fix k s r s'
  assume run: "transition k (seq (g k) (send_handle_error k)) s = (r, s')" and r: "r \<noteq> Panic"
  obtain st where st: "deref (i_slab s) k = Some st"
    using run r by (cases "deref (i_slab s) k") (auto simp: transition_def bnd_apply the_stream_eq)
  obtain r1 s1 where b: "seq (g k) (send_handle_error k) s = (r1, s1)" by (cases "seq (g k) (send_handle_error k) s")
  with run st r obtain r2 where r1: "r1 \<noteq> Panic"
    and r2: "transition_after k (is_pending_reset_expiration st) s1 = (r2 :: (unit, 'e) result, s')" "r2 \<noteq> Panic"
    by (cases r1) (auto simp: transition_def act_simps the_stream_eq split: prod.splits result.splits)
  have "ended (key_index k) s1"
    by (rule seq_inv_at [OF b r1 g en.capacity_kept(3)])
  from keepsD [OF ended_transition_after this r2] show "ended (key_index k) s'" .
  have "keeps (\<lambda>x. i_ids x = i_ids s) (seq (g k) (send_handle_error k))" by (intro keeps_seq kept li.capacity_kept)
  from keepsD [OF this refl b r1] have "i_ids s1 = i_ids s" .
  with transition_after_ids [OF r2] show "i_ids s' = i_ids s \<or> i_ids s' = swap_remove (key_stream_id k) (i_ids s)" by simp
next
  fix i k show "keeps (ended i) (transition k (seq (g k) (send_handle_error k)))"
    unfolding transition_def by (intro keeps_rules keeps_prims ended_transition_after kept en.capacity_kept)
qed

lemma closing_states: "is_closed (state_handle_error er x)" "is_closed (state_recv_eof x)"
  by (simp_all add: state_handle_error_def state_recv_eof_def)

lemma ids_on_state: "keeps (\<lambda>s. i_ids s = ids) (on_state k f)"
  by (rule keepsI) (auto simp: on_state_def on_stream_eq split: option.splits)

interpretation he: ending "\<lambda>_. True" "\<lambda>k. transition k (seq (recv_handle_error er k) (send_handle_error k))" for er
proof (rule ending_transition)
  fix k s r s'
  assume "recv_handle_error er k s = (r, s')" "r \<noteq> Panic"
  then show "ended (key_index k) s'" unfolding recv_handle_error_def
    by (rule seq_inv_at) (auto intro!: keeps_seq en.clear_kept en.wakers_kept dest: on_state_ends simp: closing_states)
next
  fix i k show "keeps (ended i) (recv_handle_error er k)"
    unfolding recv_handle_error_def by (intro keeps_seq ended_on_state en.clear_kept en.wakers_kept closing_states)
next
  fix ids k show "keeps (\<lambda>s. i_ids s = ids) (recv_handle_error er k)"
    unfolding recv_handle_error_def by (intro keeps_seq ids_on_state li.clear_kept li.wakers_kept)
qed

interpretation eof: ending "\<lambda>_. True" "\<lambda>k. transition k (seq (recv_recv_eof k) (send_handle_error k))"
proof (rule ending_transition)
  fix k s r s'
  assume "recv_recv_eof k s = (r, s')" "r \<noteq> Panic"
  then show "ended (key_index k) s'" unfolding recv_recv_eof_def
    by (rule seq_inv_at) (auto intro!: en.wakers_kept dest: on_state_ends simp: closing_states)
next
  fix i k show "keeps (ended i) (recv_recv_eof k)"
    unfolding recv_recv_eof_def by (intro keeps_seq ended_on_state en.wakers_kept closing_states)
next
  fix ids k show "keeps (\<lambda>s. i_ids s = ids) (recv_recv_eof k)"
    unfolding recv_recv_eof_def by (intro keeps_seq ids_on_state li.wakers_kept)
qed

text \<open>The callback of GOAWAY ends the streams above the last one that the peer will process.\<close>

interpretation ga: ending "\<lambda>k. key_stream_id k > sid" "\<lambda>k. bnd (the_stream k) (\<lambda>st. if_then (st_id st > sid)
    (transition k (seq (recv_handle_error er k) (send_handle_error k))))" for sid er
proof
  fix k s r s'
  assume "bnd (the_stream k) (\<lambda>st. if_then (st_id st > sid) (transition k (seq (recv_handle_error er k) (send_handle_error k)))) s = (r, s')"
    and r: "r \<noteq> Panic"
  then consider "transition k (seq (recv_handle_error er k) (send_handle_error k)) s = (r, s')" | "key_stream_id k \<le> sid" "s' = s"
    by (cases "deref (i_slab s) k") (auto simp: bnd_apply the_stream_eq if_then_def deref_Some split: if_splits)
  note c = this
  show "sid < key_stream_id k \<Longrightarrow> ended (key_index k) s'" using c by cases (auto intro: he.closes [OF _ _ r])
  show "i_ids s' = i_ids s \<or> i_ids s' = swap_remove (key_stream_id k) (i_ids s)" using c by cases (auto dest: he.ids [OF _ r])
next
  fix i k show "keeps (ended i) (bnd (the_stream k) (\<lambda>st. if_then (st_id st > sid)
      (transition k (seq (recv_handle_error er k) (send_handle_error k)))))"
    by (intro keeps_rules he.keeps_ended)
qed

lemma inner_handle_error_ends:
  assumes "inner_handle_error er s = (Ok lp :: (stream_id, 'e) result, s')" "distinct (map fst (i_ids s))" "(sid, x) \<in> set (i_ids s)"
  shows "ended x s'"
proof -
  from assms(1) obtain s1 where "try_for_each (\<lambda>k. transition k (seq (recv_handle_error er k) (send_handle_error k))) s = (Ok () :: (unit, 'e) result, s1)"
    "s' = s1\<lparr>i_conn_error := Some er\<rparr>"
    by (auto simp: inner_handle_error_def act_simps split: prod.splits result.splits)
  with he.all_ended [OF _ assms(2,3)] show ?thesis by (simp add: ended_def)
qed

lemma ended_drain:
  assumes "\<And>k. keeps (ended i) (body k)"
  shows "keeps (ended i) (drain q body)"
proof -
  have "keeps (ended i) (q_pop_if q f)" for f
    unfolding q_pop_if_def by (intro en.kept keeps_list_cases)
  with assms have "keeps (ended i) (drain_n n q f body)" for n f
    by (induction n) (auto intro!: keeps_rules)
  then show ?thesis unfolding drain_def drain_if_def by (intro keeps_rules)
qed

lemma ended_clear_queues: "keeps (ended i) (actions_clear_queues b)"
proof -
  have "keeps (ended i) (stream_set_reset k r ini)" for k r ini
    unfolding stream_set_reset_def by (intro keeps_rules ended_on_state en.wakers_kept) (simp add: set_reset_def)
  then show ?thesis
    unfolding actions_clear_queues_def recv_clear_queues_def send_clear_queues_def clear_all_reset_streams_def
      clear_all_pending_complete_def clear_all_pending_accept_def clear_pending_capacity_def clear_pending_send_def
      clear_pending_open_def transition_def
    by (intro keeps_rules ended_drain ended_transition_after keeps_prims)
qed

lemma inner_recv_eof_ends:
  assumes "inner_recv_eof b s = (Ok () :: (unit, 'e) result, s')" "distinct (map fst (i_ids s))" "(sid, x) \<in> set (i_ids s)"
  shows "ended x s'"
proof -
  let ?s = "if i_conn_error s = None
    then s\<lparr>i_conn_error := Some (broken_pipe_error ''connection closed because of a broken pipe'')\<rparr> else s"
  from assms(1) obtain s1 where
    l: "try_for_each (\<lambda>k. transition k (seq (recv_recv_eof k) (send_handle_error k))) ?s = (Ok () :: (unit, 'e) result, s1)"
    and c: "actions_clear_queues b s1 = (Ok () :: (unit, 'e) result, s')"
    by (auto simp: inner_recv_eof_def act_simps split: prod.splits result.splits)
  have "ended x s1" by (rule eof.all_ended [OF l, of sid]) (use assms in auto)
  from keepsD [OF ended_clear_queues this c] show ?thesis by simp
qed

lemma inner_recv_go_away_ends:
  assumes "inner_recv_go_away f s = (Ok (), s')" "distinct (map fst (i_ids s))" "(sid, x) \<in> set (i_ids s)" "sid > ga_last_stream_id f"
  shows "ended x s'"
proof -
  let ?er = "remote_go_away (ga_debug_data f) (ga_error_code f)"
  from assms(1) obtain s0 s1 where g: "send_recv_go_away (ga_last_stream_id f) s = (Ok (), s0)"
    and l: "try_for_each (\<lambda>k. bnd (the_stream k) (\<lambda>st. if_then (st_id st > ga_last_stream_id f)
      (transition k (seq (recv_handle_error ?er k) (send_handle_error k))))) s0 = (Ok () :: (unit, proto_error) result, s1)"
    and s': "s' = s1\<lparr>i_conn_error := Some ?er\<rparr>"
    by (auto simp: inner_recv_go_away_def act_simps Let_def split: prod.splits result.splits)
  from g have "i_ids s0 = i_ids s" by (auto simp: send_recv_go_away_def act_simps on_send_def split: if_splits)
  with ga.all_ended [OF l] assms have "ended x s1" by simp
  then show ?thesis by (simp add: s' ended_def)
qed

end
