(* ===== verification/Streams_Limits.thy ===== *)
theory Streams_Limits
  imports Streams_Loop
begin

text \<open>
  The limits of the counters are set once, when the connection is made: no operation changes the role or
  one of the limits except the peer's limit on our streams. The rules follow the structure of the
  operations, so most proofs are one step.
\<close>

definition limits :: "counts \<Rightarrow> ('m, 'st, 'h) inner \<Rightarrow> bool" where
  "limits c s \<longleftrightarrow> c_role (i_counts s) = c_role c \<and> max_recv_streams (i_counts s) = max_recv_streams c
     \<and> max_local_reset_streams (i_counts s) = max_local_reset_streams c
     \<and> max_remote_reset_streams (i_counts s) = max_remote_reset_streams c
     \<and> max_local_error_reset_streams (i_counts s) = max_local_error_reset_streams c"

named_theorems limit_rules \<open>actions that keep the limits\<close>

lemma limits_upd [simp]:
  "limits c (s\<lparr>i_recv := rv\<rparr>) = limits c s" "limits c (s\<lparr>i_send := sn\<rparr>) = limits c s" "limits c (s\<lparr>i_slab := sl\<rparr>) = limits c s"
  "limits c (s\<lparr>i_ids := ids\<rparr>) = limits c s" "limits c (s\<lparr>i_task := t\<rparr>) = limits c s" "limits c (s\<lparr>i_conn_error := er\<rparr>) = limits c s"
  "limits c (s\<lparr>i_refs := m\<rparr>) = limits c s" "limits c (s\<lparr>i_woken := w\<rparr>) = limits c s" "limits c (set_qlist q ks s) = limits c s"
  by (simp_all add: limits_def)

lemmas limit_structure [limit_rules] = inv_structure keeps_prims keeps_list_cases keeps_event_cases keeps_poll_message_cases keeps_frame_cases

lemma limit_primitives [limit_rules]:
  "keeps (limits c) (on_recv rf)" "keeps (limits c) (on_send sf)" "keeps (limits c) (on_stream k g)" "keeps (limits c) (unlink k)"
  "keeps (limits c) (wake w)" "keeps (limits c) (modify (\<lambda>s. s\<lparr>i_task := f1 s\<rparr>))" "keeps (limits c) (modify (\<lambda>s. s\<lparr>i_conn_error := f2 s\<rparr>))"
  "keeps (limits c) (modify (\<lambda>s. s\<lparr>i_refs := f3 s\<rparr>))" "keeps (limits c) (store_remove k)" "keeps (limits c) (store_insert pick sid st)"
  "keeps (limits c) (modify (\<lambda>s. if i_conn_error s = None then s\<lparr>i_conn_error := er\<rparr> else s))"
  by (auto simp: keeps_def on_recv_def on_send_def on_stream_eq unlink_def wake_def store_remove_eq store_insert_eq Let_def split: option.splits)

lemma limit_queues [limit_rules]:
  "keeps (limits c) (q_push q now k)" "keeps (limits c) (q_push_front q now k)" "keeps (limits c) (q_pop q)" "keeps (limits c) (q_pop_if q f)"
  by (auto simp: keeps_def q_push_eq q_push_front_eq q_pop_eq q_pop_if_eq split: option.splits list.splits)

lemma limit_on_counts: "(\<And>x. c_role (f x) = c_role x \<and> max_recv_streams (f x) = max_recv_streams x
    \<and> max_local_reset_streams (f x) = max_local_reset_streams x \<and> max_remote_reset_streams (f x) = max_remote_reset_streams x
    \<and> max_local_error_reset_streams (f x) = max_local_error_reset_streams x) \<Longrightarrow> keeps (limits c) (on_counts f)"
  by (simp add: keeps_def on_counts_def limits_def)

lemma limit_counters [limit_rules]:
  "keeps (limits c) inc_num_local_error_resets" "keeps (limits c) inc_num_remote_reset_streams" "keeps (limits c) dec_num_remote_reset_streams"
  "keeps (limits c) dec_num_reset_streams" "keeps (limits c) inc_num_reset_streams" "keeps (limits c) (inc_num_recv_streams k)"
  "keeps (limits c) (inc_num_send_streams k)" "keeps (limits c) (dec_num_streams k)" "keeps (limits c) (on_counts (counts_apply_remote_settings cfg))"
  unfolding inc_num_local_error_resets_def inc_num_remote_reset_streams_def dec_num_remote_reset_streams_def dec_num_reset_streams_def
    inc_num_reset_streams_def inc_num_recv_streams_def inc_num_send_streams_def dec_num_streams_def
  by (intro limit_rules limit_on_counts; simp add: counts_apply_remote_settings_def)+

lemma limit_transitions [limit_rules]:
  "keeps (limits c) (transition_after k b)" "keeps (limits c) f \<Longrightarrow> keeps (limits c) (transition k f)"
  unfolding transition_after_def transition_def by (intro limit_rules; simp)+

lemma limit_loops [limit_rules]:
  "(\<And>k. keeps (limits c) (body k)) \<Longrightarrow> keeps (limits c) (drain q body)"
  "(\<And>k. keeps (limits c) (body k)) \<Longrightarrow> keeps (limits c) (drain_if q g body)"
  "(\<And>k. keeps (limits c) (body k)) \<Longrightarrow> keeps (limits c) (try_for_each body)"
proof -
  assume b: "\<And>k. keeps (limits c) (body k)"
  have "keeps (limits c) (drain_n n q f body)" for n f
    using b by (induction n) (auto intro!: limit_rules)
  then show "keeps (limits c) (drain q body)" "keeps (limits c) (drain_if q g body)"
    unfolding drain_def drain_if_def by (intro limit_rules; blast)+
  have "keeps (limits c) (try_for_each_from body i n)" for i n
    using b by (induction n arbitrary: i) (auto intro!: limit_rules)
  then show "keeps (limits c) (try_for_each body)" unfolding try_for_each_def by (intro limit_rules; blast)
qed

section \<open>The operations\<close>

lemma limit_wakers [limit_rules]:
  "keeps (limits c) wake_task" "keeps (limits c) (notify_recv k)" "keeps (limits c) (on_state k f)"
  unfolding wake_task_def notify_recv_def on_state_def
  by (intro limit_rules)+

lemma limit_refs [limit_rules]:
  "keeps (limits c) (stream_set_reset k r ini)" "keeps (limits c) (ref_inc k)" "keeps (limits c) (ref_dec k)"
  "keeps (limits c) (push_frame_back k f)" "keeps (limits c) (push_frame_front k f)"
  "keeps (limits c) (send_clear_stream_queue k)" "keeps (limits c) (schedule_send k)" "keeps (limits c) (on_spa g)"
  "keeps (limits c) (spa_recv_window_update sid)"
  unfolding stream_set_reset_def ref_inc_def ref_dec_def push_frame_back_def push_frame_front_def
    send_clear_stream_queue_def schedule_send_def on_spa_def spa_recv_window_update_def
  by (intro limit_rules)+

lemma limit_queue_frame [limit_rules]:
  "keeps (limits c) (queue_frame f k)" "keeps (limits c) (send_headers e H W hf k)"
  "keeps (limits c) (try_assign_capacity k)"
  unfolding queue_frame_def send_headers_def try_assign_capacity_def
  by (intro limit_rules)+

lemma limit_assign [limit_rules]: "keeps (limits c) (assign_connection_capacity_n n)"
proof (induction n)
  case (Suc n)
  then show ?case by (auto intro!: limit_rules)
qed (simp add: keeps_def)

lemma limit_capacity [limit_rules]:
  "keeps (limits c) assign_connection_capacity" "keeps (limits c) (recv_connection_window_update inc)"
  "keeps (limits c) (reclaim_all_capacity k)"
  unfolding assign_connection_capacity_def recv_connection_window_update_def reclaim_all_capacity_def
  by (intro limit_rules)+

lemma limit_resets [limit_rules]:
  "keeps (limits c) (send_send_reset r ini k)" "keeps (limits c) (schedule_implicit_reset k r)"
  "keeps (limits c) (send_handle_error k)" "keeps (limits c) (lower_stream_window dec k)"
  unfolding send_send_reset_def schedule_implicit_reset_def send_handle_error_def lower_stream_window_def
  by (intro limit_rules)+

lemma limit_window [limit_rules]:
  "keeps (limits c) (recv_stream_window_update sz k)"
  unfolding recv_stream_window_update_def
  by (intro limit_rules)

lemma limit_lower [limit_rules]: "keeps (limits c) (lower_windows_from dec i n tot)"
  by (induction n arbitrary: i tot) (auto intro!: limit_rules)

lemma limit_send_settings [limit_rules]:
  "keeps (limits c) (send_apply_remote_settings cfg)" "keeps (limits c) (send_recv_go_away sid)"
  "keeps (limits c) ensure_next_stream_id" "keeps (limits c) send_open_id"
  "keeps (limits c) (send_maybe_reset_next_stream_id sid)"
  unfolding send_apply_remote_settings_def send_recv_go_away_def ensure_next_stream_id_def send_open_id_def
    send_maybe_reset_next_stream_id_def
  by (intro limit_rules)+

lemma limit_send_clear [limit_rules]:
  "keeps (limits c) clear_pending_capacity" "keeps (limits c) clear_pending_send"
  "keeps (limits c) clear_pending_open" "keeps (limits c) send_clear_queues"
  unfolding clear_pending_capacity_def clear_pending_send_def clear_pending_open_def send_clear_queues_def
  by (intro limit_rules)+

lemma limit_send_frames [limit_rules]:
  "keeps (limits c) pop_pending_open" "keeps (limits c) (try_allocate_stream_flow k rem avail)"
  "keeps (limits c) (set_data_frame_eos k d rest)"
  unfolding pop_pending_open_def try_allocate_stream_flow_def set_data_frame_eos_def
  by (intro limit_rules)+

lemma limit_pop_data [limit_rules]:
  "keeps (limits c) (pop_data_frame k sz f)"
  unfolding pop_data_frame_def
  by (intro limit_rules)

lemma limit_pop_stream [limit_rules]:
  "keeps (limits c) (pop_stream_frame k sz)"
  unfolding pop_stream_frame_def
  by (intro limit_rules)

lemma limit_pop_frame_n [limit_rules]: "keeps (limits c) (pop_frame_n n sz)"
proof (induction n)
  case (Suc n)
  then show ?case by (auto intro!: limit_rules)
qed (simp add: keeps_def)

lemma limit_send_poll_loop [limit_rules]: "keeps (limits c) (send_poll_loop readies sz out)"
proof (induction readies arbitrary: out)
  case Nil
  then show ?case by (subst send_poll_loop.simps) (simp add: pop_frame_def, intro limit_rules)
next
  case (Cons r rs)
  then show ?case by (subst send_poll_loop.simps; cases r) (simp add: pop_frame_def, intro limit_rules; simp)+
qed

lemma limit_send_poll_complete [limit_rules]: "keeps (limits c) (send_poll_complete readies sz)"
  unfolding send_poll_complete_def by (cases readies; cases "hd readies") (simp_all add: limit_send_poll_loop)

lemma limit_recv_parts [limit_rules]:
  "keeps (limits c) (recv_clear_stream_queue k)" "keeps (limits c) (push_event k ev)"
  "keeps (limits c) (dec_connection_window sz)" "keeps (limits c) (inc_connection_window sz)"
  "keeps (limits c) recv_next_accept"
  unfolding recv_clear_stream_queue_def push_event_def dec_connection_window_def inc_connection_window_def
    recv_next_accept_def
  by (intro limit_rules)+

lemma limit_complete [limit_rules]:
  "keeps (limits c) (move_from_pending_complete k r)" "keeps (limits c) (parse_content_length e H hf k)"
  "keeps (limits c) (recv_open_stream e hf k)"
  unfolding move_from_pending_complete_def parse_content_length_def recv_open_stream_def
  by (intro limit_rules)+

lemma limit_recv_data [limit_rules]:
  "keeps (limits c) (stream_take_data df k r)" "keeps (limits c) (recv_recv_data df k r)"
  unfolding stream_take_data_def recv_recv_data_def
  by (intro limit_rules)+

lemma limit_recv_headers [limit_rules]:
  "keeps (limits c) (deliver_headers e W hf k r)" "keeps (limits c) (recv_recv_headers e H W hf k)"
  "keeps (limits c) (recv_recv_trailers hf k r)"
  unfolding deliver_headers_def recv_recv_headers_def recv_recv_trailers_def
  by (intro limit_rules)+

lemma limit_recv_resets [limit_rules]:
  "keeps (limits c) (recv_recv_reset rf k)" "keeps (limits c) (enqueue_reset_expiration now k)"
  "keeps (limits c) (recv_handle_error er k)" "keeps (limits c) (recv_recv_eof k)"
  unfolding recv_recv_reset_def enqueue_reset_expiration_def recv_handle_error_def recv_recv_eof_def
  by (intro limit_rules)+

lemma limit_recv_settings [limit_rules]:
  "keeps (limits c) (recv_apply_local_settings cfg)" "keeps (limits c) (recv_go_away sid)"
  "keeps (limits c) (can_open sid mode r)" "keeps (limits c) (recv_maybe_reset_next_stream_id sid)"
  unfolding recv_apply_local_settings_def recv_go_away_def can_open_def recv_maybe_reset_next_stream_id_def
  by (intro limit_rules)+

lemma limit_recv_clear [limit_rules]:
  "keeps (limits c) clear_all_reset_streams" "keeps (limits c) clear_all_pending_accept"
  "keeps (limits c) clear_all_pending_complete" "keeps (limits c) (recv_clear_queues b)"
  "keeps (limits c) (clear_expired_reset_streams now)"
  unfolding clear_all_reset_streams_def clear_all_pending_accept_def clear_all_pending_complete_def
    recv_clear_queues_def clear_expired_reset_streams_def
  by (intro limit_rules)+

lemma limit_hand_out [limit_rules]:
  "keeps (limits c) (send_pending_refusal b)" "keeps (limits c) (take_request k)" "keeps (limits c) (take_response k)"
  unfolding send_pending_refusal_def take_request_def take_response_def
  by (intro limit_rules)+

lemma limit_responses [limit_rules]:
  "keeps (limits c) (recv_poll_response w k)" "keeps (limits c) (recv_take_partial_response k)"
  unfolding recv_poll_response_def recv_take_partial_response_def
  by (intro limit_rules)+

lemma limit_actions [limit_rules]:
  "keeps (limits c) (actions_send_reset now k r ini)" "keeps (limits c) (ensure_not_idle rl sid)"
  "keeps (limits c) (is_forgotten_stream rl sid)" "keeps (limits c) ensure_no_conn_error"
  "keeps (limits c) (actions_clear_queues b)"
  unfolding actions_send_reset_def ensure_not_idle_def is_forgotten_stream_def ensure_no_conn_error_def
    actions_clear_queues_def
  by (intro limit_rules)+

lemma limit_reset_on_recv_stream_err [limit_rules]: "keeps (limits c) (reset_on_recv_stream_err now k res)"
proof -
  have "keeps (limits c) (reset_on_recv_stream_err now k (Err (PReset sid r ini)))" for sid r ini
    unfolding reset_on_recv_stream_err_def by (simp, intro limit_rules)
  then show ?thesis
    by (cases res; (cases "projErr res")?) (auto simp: reset_on_recv_stream_err_def split: proto_error.splits)
qed

lemma limit_inner_recv [limit_rules]:
  "keeps (limits c) (inner_recv_data now df)" "keeps (limits c) (insert_or_create pick sid rl)"
  "keeps (limits c) (inner_recv_reset rf)" "keeps (limits c) (inner_send_reset pick now sid r)"
  unfolding inner_recv_data_def insert_or_create_def inner_recv_reset_def inner_send_reset_def
  by (intro limit_rules)+

lemma limit_answer_headers [limit_rules]: "keeps (limits c) (answer_headers e H W now k sid res)"
proof (cases "\<exists>resp. res = Err (Oversize (Some resp))")
  case True
  then obtain resp where "res = Err (Oversize (Some resp))" by blast
  then show ?thesis by (simp add: answer_headers_def, intro limit_rules)
qed (auto simp: answer_headers_def split: result.splits recv_header_block_error.splits option.splits)

lemma limit_inner_recv_headers [limit_rules]: "keeps (limits c) (inner_recv_headers e H W pick now hf)"
  unfolding inner_recv_headers_def recv_headers_on_def by (intro limit_rules)

lemma limit_inner_errors [limit_rules]:
  "keeps (limits c) (inner_recv_go_away gf)" "keeps (limits c) (inner_handle_error er)"
  "keeps (limits c) (inner_recv_eof b)" "keeps (limits c) (inner_recv_window_update now wu)"
  unfolding inner_recv_go_away_def inner_handle_error_def inner_recv_eof_def inner_recv_window_update_def
  by (intro limit_rules)+

lemma limit_windows_due [limit_rules]:
  "keeps (limits c) should_send_connection_window_update" "keeps (limits c) should_send_stream_window_update"
  "keeps (limits c) (poll_stream_window out b)" "keeps (limits c) (poll_window_update b b2)"
  "keeps (limits c) (inner_poll_complete w rs sz)"
  unfolding should_send_connection_window_update_def should_send_stream_window_update_def poll_stream_window_def
    poll_window_update_def inner_poll_complete_def Let_def
  by (intro limit_rules)+

lemma limit_requests [limit_rules]:
  "keeps (limits c) (queue_body_trailer k d t)" "keeps (limits c) (send_request_frames e H W rq b sid k)"
  "keeps (limits c) (send_request e H W pick rq b)" "keeps (limits c) next_accept"
  "keeps (limits c) (send_response e H W rp k)"
  unfolding queue_body_trailer_def send_request_frames_def send_request_def next_accept_def send_response_def
  by (intro limit_rules)+

lemma limit_handles [limit_rules]:
  "keeps (limits c) (streams_apply_local_settings cfg)" "keeps (limits c) (streams_apply_remote_settings cfg)"
  "keeps (limits c) (streams_send_go_away sid)" "keeps (limits c) streams_clone" "keeps (limits c) streams_drop"
  "keeps (limits c) (opaque_poll_response w k)" "keeps (limits c) (opaque_take_partial_response k)"
  "keeps (limits c) (opaque_clone k)" "keeps (limits c) (maybe_cancel now k)"
  "keeps (limits c) (stream_ref_take_request k)" "keeps (limits c) (stream_ref_send_reset now r k)"
  unfolding streams_apply_local_settings_def streams_apply_remote_settings_def streams_send_go_away_def
    streams_clone_def streams_drop_def opaque_poll_response_def opaque_take_partial_response_def opaque_clone_def
    maybe_cancel_def stream_ref_take_request_def stream_ref_send_reset_def
  by (intro limit_rules)+

lemma limit_cancel_promises: "keeps (limits c) (cancel_promises now ps)"
proof (induction ps)
  case (Cons p ps)
  then show ?case by (auto intro!: limit_rules)
qed (simp add: keeps_def)

lemma limit_opaque_drop [limit_rules]: "keeps (limits c) (opaque_drop now k)"
  unfolding opaque_drop_def by (intro limit_rules limit_cancel_promises)

lemma limit_fill_frames [limit_rules]:
  "keeps (limits c) (fill_frame sid)" "keeps (limits c) (fill_frames sz ids)" "keeps (limits c) (on_spa g)"
proof -
  show f: "keeps (limits c) (fill_frame sid)" for sid
    unfolding fill_frame_def by (intro limit_rules)
  show "keeps (limits c) (fill_frames sz ids)"
  proof (induction ids)
    case (Cons sid ids)
    with f show ?case by (auto intro!: limit_rules)
  qed (simp add: keeps_def)
  show "keeps (limits c) (on_spa g)" unfolding on_spa_def by (intro limit_rules)
qed

lemma limit_spa_poll [limit_rules]: "keeps (limits c) (spa_poll w nonce sz b1 b2 can ph t)"
proof -
  have fill: "keeps (limits c) (bnd (poll_fill_frames sz b1 b2 t) (\<lambda>(p, out). ret (p, out, ph, p = Ready ())))"
    unfolding poll_fill_frames_def by (intro limit_rules)
  have send: "keeps (limits c) (seq (on_spa (\<lambda>t. t\<lparr>spa_mode := m\<rparr>)) (seq (wake w) (ret x)))" for m x
    by (intro limit_rules)
  show ?thesis unfolding spa_poll_def Let_def
    by (auto split: spa_mode.splits option.splits ping_state.splits bool.splits intro: fill send)
qed

lemma limit_spa [limit_rules]:
  "keeps (limits c) (send_poll_spa w nonce sz b1 b2 b3 ph)" "keeps (limits c) (send_recvd_ping w payload)"
  unfolding send_poll_spa_def send_recvd_ping_def by (intro limit_rules)+

end
