(* ===== verification/Streams_Run.thy ===== *)
theory Streams_Run
  imports Streams_Limits
begin

text \<open>
  The streams layer as a system: the calls that the connection and the handles of the application make,
  in any order, from the state of a new connection. Each call holds the mutex around \<open>Inner\<close>, so a run is
  a sequence of calls. \<open>streams_reach\<close> are the states between calls.
\<close>

section \<open>Calls\<close>

datatype ('m, 'st, 'h) call =
    DoRecvHeaders nat "('m, 'st, 'h) headers_frame"
  | DoRecvData nat data_frame
  | DoRecvReset reset_frame
  | DoRecvWindowUpdate nat window_update_frame
  | DoRecvGoAway go_away_frame
  | DoHandleError proto_error
  | DoRecvEof bool
  | DoSendReset nat stream_id reason
  | DoClearExpired nat
  | DoPendingRefusal bool
  | DoPollWindowUpdate bool bool
  | DoPollComplete waker "bool list" nat
  | DoApplyLocal settings
  | DoApplyRemote settings
  | DoSendGoAway stream_id
  | DoSendRequest "('m, 'h) request" bool
  | DoNextAccept
  | DoCloneStreams
  | DoDropStreams
  | DoPollResponse waker key
  | DoTakePartial key
  | DoCloneHandle key
  | DoDropHandle nat key
  | DoTakeRequest key
  | DoSendResponse "('st, 'h) response" key
  | DoResetHandle nat reason key
  | DoPollSpa waker bytes nat bool bool bool ping_handler
  | DoRecvdPing waker bytes

definition quietly :: "('s, 'a, 'e) act \<Rightarrow> ('s, unit, unit) act" where
  "quietly m = bnd (attempt m) (\<lambda>_. ret ())"

text \<open>
  A reset of the connection that is one too many is followed by the connection error, as in
  \<open>handle_poll2_result\<close>.
\<close>

fun perform ::
  "('m, 'st) ext \<Rightarrow> 'h hmap \<Rightarrow> ('m, 'st, 'h) http \<Rightarrow> ((nat \<rightharpoonup> ('m, 'st, 'h) stream) \<Rightarrow> nat) \<Rightarrow>
     ('m, 'st, 'h) call \<Rightarrow> ('m, 'st, 'h, unit, unit) iact" where
  "perform e H W pick (DoRecvHeaders now f) = quietly (inner_recv_headers e H W pick now f)"
| "perform e H W pick (DoRecvData now f) = quietly (inner_recv_data now f)"
| "perform e H W pick (DoRecvReset f) = quietly (inner_recv_reset f)"
| "perform e H W pick (DoRecvWindowUpdate now f) = quietly (inner_recv_window_update now f)"
| "perform e H W pick (DoRecvGoAway f) = quietly (inner_recv_go_away f)"
| "perform e H W pick (DoHandleError er) = seq (inner_handle_error er) (ret ())"
| "perform e H W pick (DoRecvEof b) = inner_recv_eof b"
| "perform e H W pick (DoSendReset now sid r) =
     bnd (attempt (inner_send_reset pick now sid r)) (\<lambda>res. case res of
       Err g \<Rightarrow> seq (inner_handle_error (library_go_away_data (cga_reason g) (cga_debug_data g))) (ret ())
     | _ \<Rightarrow> ret ())"
| "perform e H W pick (DoClearExpired now) = clear_expired_reset_streams now"
| "perform e H W pick (DoPendingRefusal b) = seq (send_pending_refusal b) (ret ())"
| "perform e H W pick (DoPollWindowUpdate b b') = seq (poll_window_update b b') (ret ())"
| "perform e H W pick (DoPollComplete w readies sz) = seq (inner_poll_complete w readies sz) (ret ())"
| "perform e H W pick (DoApplyLocal cfg) = quietly (streams_apply_local_settings cfg)"
| "perform e H W pick (DoApplyRemote cfg) = quietly (streams_apply_remote_settings cfg)"
| "perform e H W pick (DoSendGoAway sid) = streams_send_go_away sid"
| "perform e H W pick (DoSendRequest rq b) = quietly (send_request e H W pick rq b)"
| "perform e H W pick DoNextAccept = seq next_accept (ret ())"
| "perform e H W pick DoCloneStreams = streams_clone"
| "perform e H W pick DoDropStreams = streams_drop"
| "perform e H W pick (DoPollResponse w k) = quietly (opaque_poll_response w k)"
| "perform e H W pick (DoTakePartial k) = seq (opaque_take_partial_response k) (ret ())"
| "perform e H W pick (DoCloneHandle k) = seq (opaque_clone k) (ret ())"
| "perform e H W pick (DoDropHandle now k) = opaque_drop now k"
| "perform e H W pick (DoTakeRequest k) = seq (stream_ref_take_request k) (ret ())"
| "perform e H W pick (DoSendResponse rs k) = quietly (send_response e H W rs k)"
| "perform e H W pick (DoResetHandle now r k) = stream_ref_send_reset now r k"
| "perform e H W pick (DoPollSpa w nonce sz b1 b2 b3 ph) = seq (send_poll_spa w nonce sz b1 b2 b3 ph) (ret ())"
| "perform e H W pick (DoRecvdPing w payload) = send_recvd_ping w payload"

text \<open>A run: the calls made, none of which panicked; the store holds fewer than \<open>2 ^ 32\<close> streams.\<close>

inductive streams_reach ::
  "('m, 'st) ext \<Rightarrow> 'h hmap \<Rightarrow> ('m, 'st, 'h) http \<Rightarrow> ((nat \<rightharpoonup> ('m, 'st, 'h) stream) \<Rightarrow> nat) \<Rightarrow> role \<Rightarrow>
     connection_config \<Rightarrow> ('m, 'st, 'h) call list \<Rightarrow> ('m, 'st, 'h) inner \<Rightarrow> bool"
  for e H W pick r cfg where
  start: "streams_reach e H W pick r cfg [] (inner_new r cfg)"
| step: "streams_reach e H W pick r cfg cs s \<Longrightarrow> card (dom (i_slab s)) < 2 ^ 32 \<Longrightarrow>
    perform e H W pick c s = (Ok (), s') \<Longrightarrow> streams_reach e H W pick r cfg (cs @ [c]) s'"

inductive_cases streams_reach_snocE: "streams_reach e H W pick r cfg (cs @ [c]) s"

section \<open>The invariant in all reachable states\<close>

lemma qlist_new: "qlist q (inner_new r cfg) = []"
  by (cases q) (simp_all add: inner_new_def send_new_def recv_new_def)

lemma inner_new_fields:
  "i_slab (inner_new r cfg) = Map.empty" "i_ids (inner_new r cfg) = []" "i_counts (inner_new r cfg) = counts_new r cfg"
  "i_send (inner_new r cfg) = send_new cfg" "i_recv (inner_new r cfg) = recv_new cfg r"
  by (simp_all add: inner_new_def)

lemma inner_new_inv: "inv_with 0 {} {} (inner_new r cfg)"
  by (simp add: inv_with_def inv_but_def inv_core_def qlist_new inner_new_fields ids_ok_def queue_ok_def counts_ok_def
      counted_streams_def counts_new_def next_ok_def send_new_def is_client_initiated_def)

lemma inv_quietly [inv_rules]: "keeps I m \<Longrightarrow> keeps I (quietly m)"
  unfolding quietly_def by (intro keeps_bnd keeps_attempt keeps_prims)

lemma quietlyD: "quietly m s = (Ok (), s') \<Longrightarrow> \<exists>r. m s = (r, s') \<and> r \<noteq> Panic"
  by (auto simp: quietly_def act_simps split: prod.splits result.splits)

lemma perform_keeps:
  assumes "\<And>now f. c \<noteq> DoRecvHeaders now f" "\<And>now sid r. c \<noteq> DoSendReset now sid r" "\<And>rq b. c \<noteq> DoSendRequest rq b"
  shows "keeps (inv_with 0 {} {}) (perform e H W pick c)"
  using assms by (cases c) (auto intro!: inv_rules keeps_prims)

lemma inv_ids_distinct: "inv_with n X K s \<Longrightarrow> distinct (map fst (i_ids s))"
  by (simp add: inv_with_def inv_but_def inv_core_def ids_ok_def)

lemma handle_error_inv:
  assumes inv: "inv_with n {i} {} s" and lnk: "(sid, i) \<in> set (i_ids s)"
    and run: "inner_handle_error er s = (Ok lp :: (stream_id, 'e) result, s')"
  shows "inv_with n {} {} s'"
proof -
  have "inv_with n {i} {} s'" using keepsD [OF inv_inner_handle_error inv run] by simp
  moreover have "ended i s'" using inner_handle_error_ends [OF run inv_ids_distinct [OF inv] lnk] .
  ultimately show ?thesis
    by (auto simp: inv_with_def inv_but_def inv_core_def ended_def opened_def)
qed

lemma send_reset_call_inv:
  assumes pick: "pick_ok pick" and inv: "inv_with 0 {} {} s" and sz: "card (dom (i_slab s)) < 2 ^ 32"
    and run: "perform e H W pick (DoSendReset now sid r) s = (Ok (), s')"
  shows "inv_with 0 {} {} s'"
proof -
  obtain p s1 where p: "inner_send_reset pick now sid r s = (p, s1)" by (cases "inner_send_reset pick now sid r s")
  with run have pP: "p \<noteq> Panic" by (auto simp: act_simps)
  from inner_send_reset_inv [OF pick inv sz p pP]
  consider "inv_with 0 {} {} s1" | i where "p = Err too_many_internal_resets" "inv_with 0 {i} {} s1" "(sid, i) \<in> set (i_ids s1)" by blast
  then show ?thesis
  proof cases
    case 1
    have "keeps (inv_with 0 {} {}) ((case p of Err g \<Rightarrow> seq (inner_handle_error (library_go_away_data (cga_reason g) (cga_debug_data g))) (ret ())
        | _ \<Rightarrow> ret ()) :: ('a, 'b, 'c, unit, unit) iact)"
      by (intro inv_rules keeps_prims)
    from keepsD [OF this 1] run p pP show ?thesis by (cases p) (auto simp: act_simps)
  next
    case 2
    let ?er = "library_go_away_data (cga_reason too_many_internal_resets) (cga_debug_data too_many_internal_resets)"
    from run p 2(1) obtain lp where "inner_handle_error ?er s1 = (Ok lp :: (stream_id, unit) result, s')"
      by (auto simp: act_simps split: prod.splits result.splits)
    from handle_error_inv [OF 2(2,3) this] show ?thesis .
  qed
qed

theorem streams_reach_inv:
  assumes "pick_ok pick" "streams_reach e H W pick r cfg cs s"
  shows "inv_with 0 {} {} s"
  using assms(2)
proof induction
  case start
  show ?case by (rule inner_new_inv)
next
  case (step cs s c s')
  show ?case
  proof (cases "(\<exists>now f. c = DoRecvHeaders now f) \<or> (\<exists>now sid r. c = DoSendReset now sid r) \<or> (\<exists>rq b. c = DoSendRequest rq b)")
    case False
    then have "keeps (inv_with 0 {} {}) (perform e H W pick c)" by (intro perform_keeps) auto
    from keepsD [OF this step.IH step.hyps(3)] show ?thesis by simp
  next
    case True
    then show ?thesis
      using step.IH step.hyps inner_recv_headers_inv [OF assms(1) step.IH step.hyps(2)] send_request_inv [OF assms(1) step.IH step.hyps(2)]
        send_reset_call_inv [OF assms(1) step.IH step.hyps(2)]
      by (auto dest!: quietlyD simp del: perform.simps(8))
  qed
qed

lemma limits_new: "limits (counts_new r cfg) (inner_new r cfg)"
  by (simp add: limits_def inner_new_def)

lemma limit_perform: "keeps (limits c) (perform e H W pick call)"
  by (cases call) (auto simp: quietly_def intro!: limit_rules)

lemma streams_reach_limits: "streams_reach e H W pick r cfg cs s \<Longrightarrow> limits (counts_new r cfg) s"
  by (induction rule: streams_reach.induct) (auto intro: limits_new dest: keepsD [OF limit_perform])

end
