(* ===== verification/Connection.thy ===== *)
theory Connection
  imports Streams_Run
begin

text \<open>
  The connection (\<open>proto/connection.rs\<close>): it reads frames off the codec and hands them to the streams and to
  the SETTINGS, PING and GOAWAY handlers, writes what these have to say, and turns their errors into
  RST_STREAM, GOAWAY and the end of the connection.

  The codec is what the connection sees of it: the frames that have arrived and what comes after them, the
  reader of theory \<open>Framed_Read\<close>, the frames buffered for writing, and the answers it will give to
  \<open>poll_ready\<close>, \<open>flush\<close> and \<open>shutdown\<close>, \<open>cd_ready\<close> one by one and \<open>cd_rounds\<close> for each call of
  \<open>Streams::poll_complete\<close>; where they end the answer is \<open>Pending\<close>. An answer is taken for every question the
  code may ask, also when it does not come to it. Failures of the transport to write are left out. A poll
  reads the clock (\<open>now\<close>), has a task (\<open>w\<close>) and draws the payload of a PING (\<open>nonce\<close>).
\<close>

section \<open>State\<close>

datatype connection_state = ConnOpen | ConnClosing reason initiator | ConnClosed reason initiator

datatype wire_end = WirePending | WireEof | WireError io_kind "string option"

record ('m, 'st, 'h) codec =
  cd_read :: "('m, 'st, 'h) framed_read"
  cd_frames :: "bytes list"
  cd_end :: wire_end
  cd_send :: codec_send
  cd_buffered :: "('m, 'st, 'h) frame list"
  cd_ready :: "bool list"
  cd_rounds :: "bool list list"

record ('m, 'st, 'h) connection =
  cn_codec :: "('m, 'st, 'h) codec"
  cn_streams :: "('m, 'st, 'h) inner"
  cn_settings :: settings_handler
  cn_ping :: ping_handler
  cn_goaway :: go_away_handler
  cn_role :: role
  cn_state :: connection_state
  cn_error :: "go_away_frame option"
  cn_is_spa :: bool

type_synonym ('m, 'st, 'h, 'a, 'e) cact = "(('m, 'st, 'h) connection, 'a, 'e) act"

text \<open>\<open>Connection::new\<close>: an enhanced PING run sends its first PING at once.\<close>

definition first_ping :: "bytes \<Rightarrow> connection_config \<Rightarrow> connection_config \<times> ping_handler" where
  "first_ping nonce cfg = (case cfg_spa_tracker cfg of
     Some t \<Rightarrow>
       if is_enhanced_ping t then
         (case add_enhanced_ping_first_ping nonce t ping_handler_new of (t', ph) \<Rightarrow> (cfg\<lparr>cfg_spa_tracker := Some t'\<rparr>, ph))
       else (cfg, ping_handler_new)
   | None \<Rightarrow> (cfg, ping_handler_new))"

definition connection_new :: "bytes \<Rightarrow> role \<Rightarrow> connection_config \<Rightarrow> ('m, 'st, 'h) codec \<Rightarrow> ('m, 'st, 'h) connection" where
  "connection_new nonce r cfg codec =
     \<lparr>cn_codec = codec, cn_streams = inner_new r (fst (first_ping nonce cfg)),
      cn_settings = settings_handler_new (cfg_local_settings cfg), cn_ping = snd (first_ping nonce cfg),
      cn_goaway = go_away_handler_new, cn_role = r, cn_state = ConnOpen, cn_error = None,
      cn_is_spa = (cfg_spa_tracker cfg \<noteq> None)\<rparr>"

text \<open>A call on the streams, on the codec's writer, and the next answer of the codec.\<close>

definition on_streams :: "('m, 'st, 'h, 'a, 'e) iact \<Rightarrow> ('m, 'st, 'h, 'a, 'e) cact" where
  "on_streams m = (\<lambda>c. case m (cn_streams c) of (r, s) \<Rightarrow> (r, c\<lparr>cn_streams := s\<rparr>))"

text \<open>A call of a method that returns no \<open>Result\<close>.\<close>

definition call_streams :: "('m, 'st, 'h, 'a, unit) iact \<Rightarrow> ('m, 'st, 'h, 'a, 'e) cact" where
  "call_streams m = (\<lambda>c. case m (cn_streams c) of
     (Ok x, s) \<Rightarrow> (Ok x, c\<lparr>cn_streams := s\<rparr>) | (_, s) \<Rightarrow> (Panic, c\<lparr>cn_streams := s\<rparr>))"

definition on_codec :: "(('m, 'st, 'h) codec \<Rightarrow> ('m, 'st, 'h) codec) \<Rightarrow> ('m, 'st, 'h, unit, 'e) cact" where
  "on_codec f = modify (\<lambda>c. c\<lparr>cn_codec := f (cn_codec c)\<rparr>)"

definition buffer_frames :: "('m, 'st, 'h) frame list \<Rightarrow> ('m, 'st, 'h, unit, 'e) cact" where
  "buffer_frames fs = on_codec (\<lambda>d. d\<lparr>cd_buffered := cd_buffered d @ fs\<rparr>)"

definition ask :: "('m, 'st, 'h, bool, 'e) cact" where
  "ask = bnd (gets (\<lambda>c. cd_ready (cn_codec c))) (\<lambda>bs. case bs of
     [] \<Rightarrow> ret False
   | b # bs' \<Rightarrow> seq (on_codec (\<lambda>d. d\<lparr>cd_ready := bs'\<rparr>)) (ret b))"

fun of_control :: "control_frame \<Rightarrow> ('m, 'st, 'h) frame" where
  "of_control (CfSettings s) = FSettings s"
| "of_control (CfPing p) = FPing p"
| "of_control (CfGoAway g) = FGoAway g"

section \<open>Going away\<close>

definition set_goaway :: "(go_away_handler \<Rightarrow> (go_away_handler, unit) result) \<Rightarrow> ('m, 'st, 'h, unit, 'e) cact" where
  "set_goaway f = bnd (gets cn_goaway) (\<lambda>h. case f h of
     Ok h' \<Rightarrow> modify (\<lambda>c. c\<lparr>cn_goaway := h'\<rparr>) | _ \<Rightarrow> panic)"

definition last_processed_id :: "('m, 'st, 'h) connection \<Rightarrow> stream_id" where
  "last_processed_id c = rcv_last_processed_id (i_recv (cn_streams c))"

definition go_away_graceful :: "stream_id \<Rightarrow> reason \<Rightarrow> ('m, 'st, 'h, unit, 'e) cact" where
  "go_away_graceful sid r = seq (call_streams (streams_send_go_away sid)) (set_goaway (enqueue_go_away (go_away_new sid r)))"

definition conn_go_away_now :: "reason \<Rightarrow> ('m, 'st, 'h, unit, 'e) cact" where
  "conn_go_away_now r = bnd (gets last_processed_id) (\<lambda>sid. set_goaway (go_away_now (go_away_new sid r)))"

definition go_away_now_data :: "reason \<Rightarrow> bytes \<Rightarrow> ('m, 'st, 'h, unit, 'e) cact" where
  "go_away_now_data r d =
     bnd (gets last_processed_id) (\<lambda>sid. set_goaway (go_away_now (go_away_with_debug_data sid r d)))"

definition conn_go_away_from_user :: "reason \<Rightarrow> ('m, 'st, 'h, unit, 'e) cact" where
  "conn_go_away_from_user r =
     bnd (gets last_processed_id) (\<lambda>sid.
     seq (set_goaway (go_away_from_user (go_away_new sid r)))
     (seq (call_streams (inner_handle_error (user_go_away r))) (ret ())))"

definition go_away_gracefully :: "('m, 'st, 'h, unit, 'e) cact" where
  "go_away_gracefully = bnd (gets cn_goaway) (\<lambda>h.
     if is_going_away h then ret ()
     else
       seq (go_away_graceful STREAM_ID_MAX NO_ERROR)
       (bnd (gets cn_ping) (\<lambda>ph. case ping_shutdown ph of
          Ok ph' \<Rightarrow> modify (\<lambda>c. c\<lparr>cn_ping := ph'\<rparr>) | _ \<Rightarrow> panic)))"

definition maybe_close_connection_if_no_streams :: "('m, 'st, 'h, unit, 'e) cact" where
  "maybe_close_connection_if_no_streams =
     bnd (gets (\<lambda>c. has_streams_or_other_references (cn_streams c))) (\<lambda>b.
     if b then ret () else conn_go_away_now NO_ERROR)"

section \<open>Receiving a frame\<close>

definition on_reader ::
  "(('m, 'st, 'h) framed_read \<Rightarrow> (('m, 'st, 'h) framed_read, unit) result) \<Rightarrow> ('m, 'st, 'h, unit, 'e) cact" where
  "on_reader f = bnd (gets (\<lambda>c. cd_read (cn_codec c))) (\<lambda>fr. case f fr of
     Ok fr' \<Rightarrow> on_codec (\<lambda>d. d\<lparr>cd_read := fr'\<rparr>) | _ \<Rightarrow> panic)"

definition conn_apply_local_settings :: "settings \<Rightarrow> ('m, 'st, 'h, unit, proto_error) cact" where
  "conn_apply_local_settings s =
     seq (case s_max_frame_size s of Some v \<Rightarrow> on_reader (set_max_frame_size (unat v)) | None \<Rightarrow> ret ())
     (seq (case s_max_header_list_size s of Some v \<Rightarrow> on_reader (set_max_header_list_size (unat v)) | None \<Rightarrow> ret ())
     (seq (case s_header_table_size s of
             Some v \<Rightarrow> on_codec (\<lambda>d. d\<lparr>cd_read := set_header_table_size (unat v) (cd_read d)\<rparr>) | None \<Rightarrow> ret ())
          (on_streams (streams_apply_local_settings s))))"

definition recv_settings :: "settings \<Rightarrow> ('m, 'st, 'h, unit, proto_error) cact" where
  "recv_settings s = bnd (gets cn_settings) (\<lambda>h.
     bnd (of_result (settings_handler_recv s h)) (\<lambda>(action, h').
     seq (modify (\<lambda>c. c\<lparr>cn_settings := h'\<rparr>))
         (case action of ApplyLocal l \<Rightarrow> conn_apply_local_settings l | SettingsOk \<Rightarrow> ret ())))"

text \<open>
  A PING acknowledgement that is not the shutdown's takes the payload that was sent, not the one received. A
  PRIORITY or PUSH_PROMISE frame reaches \<open>todo!()\<close>.
\<close>

definition recv_ping :: "waker \<Rightarrow> ping_frame \<Rightarrow> ('m, 'st, 'h, unit, 'e) cact" where
  "recv_ping w p = bnd (gets (\<lambda>c. ping_handle p (cn_ping c))) (\<lambda>(action, ph).
     seq (modify (\<lambda>c. c\<lparr>cn_ping := ph\<rparr>))
     (case action of
        MustAck \<Rightarrow> ret ()
      | Unknown \<Rightarrow> bnd (gets cn_is_spa) (\<lambda>spa.
          if spa then
            (case pending_ping_payload ph of (payload, ph') \<Rightarrow>
               seq (modify (\<lambda>c. c\<lparr>cn_ping := ph'\<rparr>))
                   (case payload of Some x \<Rightarrow> call_streams (send_recvd_ping w x) | None \<Rightarrow> ret ()))
          else ret ())
      | Shutdown \<Rightarrow> bnd (gets last_processed_id) (\<lambda>sid. go_away_graceful sid NO_ERROR)))"

definition recv_frame ::
  "('m, 'st) ext \<Rightarrow> 'h hmap \<Rightarrow> ('m, 'st, 'h) http \<Rightarrow> ((nat \<rightharpoonup> ('m, 'st, 'h) stream) \<Rightarrow> nat) \<Rightarrow> nat \<Rightarrow> waker \<Rightarrow>
     ('m, 'st, 'h) frame \<Rightarrow> ('m, 'st, 'h, unit, proto_error) cact" where
  "recv_frame e H W pick now w f =
     (case f of
        FData d \<Rightarrow> on_streams (inner_recv_data now d)
      | FHeaders h \<Rightarrow> on_streams (inner_recv_headers e H W pick now h)
      | FPriority _ \<Rightarrow> panic
      | FReset x \<Rightarrow> on_streams (inner_recv_reset x)
      | FSettings s \<Rightarrow> recv_settings s
      | FPushPromise _ \<Rightarrow> panic
      | FPing p \<Rightarrow> recv_ping w p
      | FGoAway g \<Rightarrow> seq (on_streams (inner_recv_go_away g)) (modify (\<lambda>c. c\<lparr>cn_error := Some g\<rparr>))
      | FWindowUpdate u \<Rightarrow> on_streams (inner_recv_window_update now u))"

section \<open>Control frames\<close>

definition poll_go_away :: "('m, 'st, 'h, reason option poll, 'e) cact" where
  "poll_go_away = bnd ask (\<lambda>b. bnd (gets (\<lambda>c. send_pending_go_away b (cn_goaway c))) (\<lambda>(p, out, h).
     seq (modify (\<lambda>c. c\<lparr>cn_goaway := h\<rparr>)) (seq (buffer_frames (map of_control out)) (ret p))))"

text \<open>\<open>ready!(p)\<close>: what follows runs when \<open>p\<close> is \<open>Ready\<close>.\<close>

definition when_ready :: "('s, 'a poll, 'e) act \<Rightarrow> ('s, 'b poll, 'e) act \<Rightarrow> ('s, 'b poll, 'e) act" where
  "when_ready m n = bnd m (\<lambda>p. case p of Pending \<Rightarrow> ret Pending | Ready _ \<Rightarrow> n)"

definition poll_pings :: "('m, 'st, 'h, unit poll, 'e) cact" where
  "poll_pings = bnd ask (\<lambda>b1. bnd ask (\<lambda>b2.
     bnd (gets (\<lambda>c. ping_poll_pending b1 b2 (cn_ping c))) (\<lambda>(p, out, ph).
     seq (modify (\<lambda>c. c\<lparr>cn_ping := ph\<rparr>)) (seq (buffer_frames (map of_control out)) (ret p)))))"

definition poll_remote :: "('m, 'st, 'h, unit poll, proto_error) cact" where
  "poll_remote = bnd ask (\<lambda>b.
     bnd (gets (\<lambda>c. poll_remote_settings b streams_apply_remote_settings (cn_settings c) (cd_send (cn_codec c)) (cn_streams c)))
       (\<lambda>(p, out, h, send, streams).
     seq (modify (\<lambda>c. c\<lparr>cn_settings := h, cn_streams := streams\<rparr>))
     (seq (on_codec (\<lambda>d. d\<lparr>cd_send := send\<rparr>))
     (seq (buffer_frames (map of_control out))
     (case p of Pending \<Rightarrow> ret Pending | Ready r \<Rightarrow> bnd (of_result r) (\<lambda>_. ret (Ready ())))))))"

definition poll_local :: "('m, 'st, 'h, unit poll, 'e) cact" where
  "poll_local = bnd ask (\<lambda>b. bnd (gets (\<lambda>c. poll_local_settings b (cn_settings c))) (\<lambda>(p, out, h).
     seq (modify (\<lambda>c. c\<lparr>cn_settings := h\<rparr>)) (seq (buffer_frames (map of_control out)) (ret p))))"

definition poll_refusal :: "('m, 'st, 'h, unit poll, 'e) cact" where
  "poll_refusal = bnd ask (\<lambda>b. bnd (call_streams (send_pending_refusal b)) (\<lambda>r. case r of
     None \<Rightarrow> ret Pending | Some fs \<Rightarrow> seq (buffer_frames (map FReset fs)) (ret (Ready ()))))"

definition poll_windows :: "('m, 'st, 'h, unit poll, 'e) cact" where
  "poll_windows = bnd ask (\<lambda>b1. bnd ask (\<lambda>b2. bnd (call_streams (poll_window_update b1 b2)) (\<lambda>(fs, done).
     seq (buffer_frames (map FWindowUpdate fs)) (ret (if done then Ready () else Pending)))))"

definition poll_control_frames :: "('m, 'st, 'h, unit poll, proto_error) cact" where
  "poll_control_frames =
     when_ready poll_pings (when_ready poll_remote (when_ready poll_local (when_ready poll_refusal poll_windows)))"

section \<open>Reading\<close>

definition codec_poll_next ::
  "('m, 'st) ext \<Rightarrow> 'h hmap \<Rightarrow> ('m, 'st, 'h, ('m, 'st, 'h) frame option poll, proto_error) cact" where
  "codec_poll_next e H =
     bnd (gets (\<lambda>c. poll_next e H (cd_frames (cn_codec c)) (cd_read (cn_codec c)))) (\<lambda>(res, rest, fr).
     seq (on_codec (\<lambda>d. d\<lparr>cd_frames := rest, cd_read := fr\<rparr>))
     (bnd (of_result res) (\<lambda>r. case r of
        Some f \<Rightarrow> ret (Ready (Some f))
      | None \<Rightarrow> bnd (gets (\<lambda>c. cd_end (cn_codec c))) (\<lambda>en. case en of
          WirePending \<Rightarrow> ret Pending
        | WireEof \<Rightarrow> ret (Ready None)
        | WireError k m \<Rightarrow> throw (PIo k m)))))"

text \<open>A round of the loop of \<open>poll2\<close>; \<open>None\<close> goes round again.\<close>

definition poll2_read ::
  "('m, 'st) ext \<Rightarrow> 'h hmap \<Rightarrow> ('m, 'st, 'h) http \<Rightarrow> ((nat \<rightharpoonup> ('m, 'st, 'h) stream) \<Rightarrow> nat) \<Rightarrow> nat \<Rightarrow> waker \<Rightarrow>
     ('m, 'st, 'h, unit poll option, proto_error) cact" where
  "poll2_read e H W pick now w =
     bnd poll_control_frames (\<lambda>p. case p of
       Pending \<Rightarrow> ret (Some Pending)
     | Ready _ \<Rightarrow> bnd (codec_poll_next e H) (\<lambda>r. case r of
         Pending \<Rightarrow> ret (Some Pending)
       | Ready (Some f) \<Rightarrow> seq (recv_frame e H W pick now w f) (ret None)
       | Ready None \<Rightarrow> seq (call_streams (inner_recv_eof False)) (ret (Some (Ready ())))))"

definition poll2_round ::
  "('m, 'st) ext \<Rightarrow> 'h hmap \<Rightarrow> ('m, 'st, 'h) http \<Rightarrow> ((nat \<rightharpoonup> ('m, 'st, 'h) stream) \<Rightarrow> nat) \<Rightarrow> nat \<Rightarrow> waker \<Rightarrow>
     ('m, 'st, 'h, unit poll option, proto_error) cact" where
  "poll2_round e H W pick now w =
     bnd poll_go_away (\<lambda>p. case p of
       Pending \<Rightarrow> ret (Some Pending)
     | Ready r \<Rightarrow> bnd (gets cn_goaway) (\<lambda>h. case r of
         Some why \<Rightarrow>
           if should_close_now h then
             if gh_is_user_initiated h then ret (Some (Ready ())) else throw (library_go_away why)
           else seq (check (why = NO_ERROR)) (poll2_read e H W pick now w)
       | None \<Rightarrow> poll2_read e H W pick now w))"

text \<open>Every round that goes on has read a frame, so the frames that have arrived bound the rounds.\<close>

fun poll2_n ::
  "nat \<Rightarrow> ('m, 'st) ext \<Rightarrow> 'h hmap \<Rightarrow> ('m, 'st, 'h) http \<Rightarrow> ((nat \<rightharpoonup> ('m, 'st, 'h) stream) \<Rightarrow> nat) \<Rightarrow> nat \<Rightarrow> waker \<Rightarrow>
     ('m, 'st, 'h, unit poll, proto_error) cact" where
  "poll2_n 0 e H W pick now w = panic"
| "poll2_n (Suc n) e H W pick now w = bnd (poll2_round e H W pick now w) (\<lambda>r. case r of
     Some p \<Rightarrow> ret p | None \<Rightarrow> poll2_n n e H W pick now w)"

definition poll2 ::
  "('m, 'st) ext \<Rightarrow> 'h hmap \<Rightarrow> ('m, 'st, 'h) http \<Rightarrow> ((nat \<rightharpoonup> ('m, 'st, 'h) stream) \<Rightarrow> nat) \<Rightarrow> nat \<Rightarrow> waker \<Rightarrow>
     ('m, 'st, 'h, unit poll, proto_error) cact" where
  "poll2 e H W pick now w =
     seq (call_streams (clear_expired_reset_streams now))
     (bnd (gets (\<lambda>c. length (cd_frames (cn_codec c)))) (\<lambda>n. poll2_n (Suc n) e H W pick now w))"

section \<open>Errors\<close>

definition set_conn_state :: "connection_state \<Rightarrow> ('m, 'st, 'h, unit, 'e) cact" where
  "set_conn_state x = modify (\<lambda>c. c\<lparr>cn_state := x\<rparr>)"

definition poll2_go_away :: "reason \<Rightarrow> bytes \<Rightarrow> initiator \<Rightarrow> ('m, 'st, 'h, unit, 'e) cact" where
  "poll2_go_away r d i = bnd (gets cn_goaway) (\<lambda>h.
     if (case gh_going_away h of Some g \<Rightarrow> gng_reason g = r | None \<Rightarrow> False) then set_conn_state (ConnClosing r i)
     else seq (call_streams (inner_handle_error (PGoAway d r i))) (go_away_now_data r d))"

text \<open>The buffer shared by the streams is empty when none has a frame to send.\<close>

definition send_buffer_is_empty :: "('m, 'st, 'h) inner \<Rightarrow> bool" where
  "send_buffer_is_empty s \<longleftrightarrow> (\<forall>i st. i_slab s i = Some st \<longrightarrow> st_pending_send st = [])"

definition handle_poll2_result ::
  "((nat \<rightharpoonup> ('m, 'st, 'h) stream) \<Rightarrow> nat) \<Rightarrow> nat \<Rightarrow> (unit, proto_error) result \<Rightarrow> ('m, 'st, 'h, unit, proto_error) cact" where
  "handle_poll2_result pick now res =
     (case res of
        Ok _ \<Rightarrow> set_conn_state (ConnClosing NO_ERROR Library)
      | Err (PGoAway d r i) \<Rightarrow> poll2_go_away r d i
      | Err (PReset sid r i) \<Rightarrow>
          seq (check (i = Library))
          (bnd (attempt (on_streams (inner_send_reset pick now sid r))) (\<lambda>sent. case sent of
             Ok _ \<Rightarrow> ret ()
           | Err g \<Rightarrow> poll2_go_away (cga_reason g) (cga_debug_data g) Library
           | Panic \<Rightarrow> panic))
      | Err (PIo k m) \<Rightarrow>
          seq (call_streams (inner_handle_error (PIo k m)))
          (bnd (gets (\<lambda>c. send_buffer_is_empty (cn_streams c) \<and> k = UnexpectedEof
                 \<and> (is_server (cn_role c) \<or> map_option ga_error_code (cn_error c) = Some NO_ERROR))) (\<lambda>quiet.
           if quiet then set_conn_state (ConnClosed NO_ERROR Library) else throw (PIo k m)))
      | Panic \<Rightarrow> panic)"

definition take_error :: "reason \<Rightarrow> initiator \<Rightarrow> ('m, 'st, 'h, unit, proto_error) cact" where
  "take_error ours i = bnd (gets cn_error) (\<lambda>er.
     seq (modify (\<lambda>c. c\<lparr>cn_error := None\<rparr>))
     (let (d, theirs) = (case er of None \<Rightarrow> ([], NO_ERROR) | Some f \<Rightarrow> (ga_debug_data f, ga_error_code f)) in
      if theirs \<noteq> NO_ERROR then throw (remote_go_away d theirs)
      else if ours = NO_ERROR then ret () else throw (PGoAway [] ours i)))"

section \<open>The poll loop\<close>

definition can_go_away :: "('m, 'st, 'h) connection \<Rightarrow> bool" where
  "can_go_away c \<longleftrightarrow> (cn_error c \<noteq> None \<or> should_close_on_idle (cn_goaway c)) \<and> \<not> has_streams (i_counts (cn_streams c))"

definition conn_poll_complete :: "waker \<Rightarrow> ('m, 'st, 'h, unit poll, 'e) cact" where
  "conn_poll_complete w =
     bnd (gets (\<lambda>c. cd_rounds (cn_codec c))) (\<lambda>rounds.
     bnd (gets (\<lambda>c. max_send_frame_size (cd_send (cn_codec c)))) (\<lambda>sz.
     seq (on_codec (\<lambda>d. d\<lparr>cd_rounds := tl rounds\<rparr>))
     (bnd (call_streams (inner_poll_complete w (if rounds = [] then [] else hd rounds) sz)) (\<lambda>(out, finished).
      seq (check (list_all (codec_takes sz) out))
      (seq (buffer_frames out) (ret (if finished then Ready () else Pending)))))))"

definition conn_poll_spa :: "waker \<Rightarrow> bytes \<Rightarrow> ('m, 'st, 'h, unit poll, 'e) cact" where
  "conn_poll_spa w nonce = bnd (gets cn_is_spa) (\<lambda>spa.
     if \<not> spa then ret (Ready ())
     else
       bnd ask (\<lambda>b1. bnd ask (\<lambda>b2. bnd ask (\<lambda>b3. bnd (gets cn_ping) (\<lambda>ph.
       bnd (gets (\<lambda>c. max_send_frame_size (cd_send (cn_codec c)))) (\<lambda>sz.
       bnd (call_streams (send_poll_spa w nonce sz b1 b2 b3 ph)) (\<lambda>(p, out, ph').
       seq (modify (\<lambda>c. c\<lparr>cn_ping := ph'\<rparr>)) (seq (buffer_frames out) (ret p)))))))))"

text \<open>A round of \<open>poll\<close>; \<open>None\<close> goes round again.\<close>

definition poll_idle :: "waker \<Rightarrow> bytes \<Rightarrow> ('m, 'st, 'h, unit poll option, 'e) cact" where
  "poll_idle w nonce =
     bnd (when_ready (conn_poll_complete w) (conn_poll_spa w nonce)) (\<lambda>p. case p of
       Pending \<Rightarrow> ret (Some Pending)
     | Ready _ \<Rightarrow> bnd (gets can_go_away) (\<lambda>b.
         if b then seq (conn_go_away_now NO_ERROR) (ret None) else ret (Some Pending)))"

definition poll_round ::
  "('m, 'st) ext \<Rightarrow> 'h hmap \<Rightarrow> ('m, 'st, 'h) http \<Rightarrow> ((nat \<rightharpoonup> ('m, 'st, 'h) stream) \<Rightarrow> nat) \<Rightarrow> nat \<Rightarrow> waker \<Rightarrow> bytes \<Rightarrow>
     ('m, 'st, 'h, unit poll option, proto_error) cact" where
  "poll_round e H W pick now w nonce = bnd (gets cn_state) (\<lambda>st. case st of
     ConnOpen \<Rightarrow> bnd (attempt (poll2 e H W pick now w)) (\<lambda>res. case res of
       Ok Pending \<Rightarrow> poll_idle w nonce
     | Ok (Ready _) \<Rightarrow> seq (handle_poll2_result pick now (Ok ())) (ret None)
     | Err er \<Rightarrow> seq (handle_poll2_result pick now (Err er)) (ret None)
     | Panic \<Rightarrow> panic)
   | ConnClosing r i \<Rightarrow> bnd ask (\<lambda>b. if b then seq (set_conn_state (ConnClosed r i)) (ret None) else ret (Some Pending))
   | ConnClosed r i \<Rightarrow> seq (take_error r i) (ret (Some (Ready ()))))"

text \<open>
  \<open>Connection::poll\<close>. The bound on the rounds is a parameter: \<open>poll_enough\<close> in theory \<open>Connection_Run\<close> shows
  which is enough.
\<close>

fun conn_poll ::
  "nat \<Rightarrow> ('m, 'st) ext \<Rightarrow> 'h hmap \<Rightarrow> ('m, 'st, 'h) http \<Rightarrow> ((nat \<rightharpoonup> ('m, 'st, 'h) stream) \<Rightarrow> nat) \<Rightarrow> nat \<Rightarrow> waker \<Rightarrow> bytes \<Rightarrow>
     ('m, 'st, 'h, unit poll, proto_error) cact" where
  "conn_poll 0 e H W pick now w nonce = panic"
| "conn_poll (Suc n) e H W pick now w nonce = bnd (poll_round e H W pick now w nonce) (\<lambda>r. case r of
     Some p \<Rightarrow> ret p | None \<Rightarrow> conn_poll n e H W pick now w nonce)"

definition connection_drop :: "('m, 'st, 'h, unit, 'e) cact" where
  "connection_drop = call_streams (inner_recv_eof True)"

end
