(* ===== verification/Connection_Run.thy ===== *)
theory Connection_Run
  imports Connection
begin

text \<open>
  The connection as a system: polls, arriving frames and the calls of the application, in any order. What
  the connection does to its streams is a run of the streams layer (theory \<open>Streams_Run\<close>), so all that holds
  of those runs holds of the streams of a connection.
\<close>

section \<open>Runs of calls\<close>

text \<open>A run of calls with the states in which they were made.\<close>

inductive calls_run ::
  "('m, 'st) ext \<Rightarrow> 'h hmap \<Rightarrow> ('m, 'st, 'h) http \<Rightarrow> ((nat \<rightharpoonup> ('m, 'st, 'h) stream) \<Rightarrow> nat) \<Rightarrow> ('m, 'st, 'h) inner \<Rightarrow>
     ('m, 'st, 'h) call list \<Rightarrow> ('m, 'st, 'h) inner list \<Rightarrow> ('m, 'st, 'h) inner \<Rightarrow> bool"
  for e H W pick s0 where
  none: "calls_run e H W pick s0 [] [] s0"
| more: "calls_run e H W pick s0 cs ss s \<Longrightarrow> perform e H W pick c s = (Ok (), s') \<Longrightarrow>
    calls_run e H W pick s0 (cs @ [c]) (ss @ [s]) s'"

definition store_small :: "('m, 'st, 'h) inner \<Rightarrow> bool" where
  "store_small s \<longleftrightarrow> card (dom (i_slab s)) < 2 ^ 32"

lemma calls_run_reach:
  assumes "calls_run e H W pick (inner_new r cfg) cs ss s" "list_all store_small ss"
  shows "streams_reach e H W pick r cfg cs s"
  using assms by induction (auto simp: store_small_def intro: streams_reach.intros)

definition on_path ::
  "('m, 'st) ext \<Rightarrow> 'h hmap \<Rightarrow> ('m, 'st, 'h) http \<Rightarrow> ((nat \<rightharpoonup> ('m, 'st, 'h) stream) \<Rightarrow> nat) \<Rightarrow> ('m, 'st, 'h) inner \<Rightarrow>
     ('m, 'st, 'h) inner \<Rightarrow> bool" where
  "on_path e H W pick s0 s \<longleftrightarrow> (\<exists>cs ss. calls_run e H W pick s0 cs ss s)"

lemma on_path_call: "on_path e H W pick s0 s \<Longrightarrow> perform e H W pick c s = (Ok (), s') \<Longrightarrow> on_path e H W pick s0 s'"
  unfolding on_path_def by (blast intro: calls_run.more)

lemma on_path_refl: "on_path e H W pick s s"
  unfolding on_path_def by (blast intro: calls_run.none)

section \<open>What a poll keeps\<close>

text \<open>
  A connection that closes at once has said so in a GOAWAY; a GOAWAY with an error closes at once; the reason
  that is sent is the one that was recorded; what the user asked for is at once.
\<close>

definition closing_ok :: "go_away_handler \<Rightarrow> bool" where
  "closing_ok h \<longleftrightarrow> (gh_close_now h \<longrightarrow> gh_going_away h \<noteq> None)
     \<and> (\<forall>g. gh_going_away h = Some g \<longrightarrow> gng_reason g \<noteq> NO_ERROR \<longrightarrow> gh_close_now h)
     \<and> (\<forall>f. gh_pending h = Some f \<longrightarrow> (\<exists>g. gh_going_away h = Some g \<and> gng_reason g = ga_error_code f))
     \<and> (gh_is_user_initiated h \<longrightarrow> gh_close_now h)"

lemma closing_ok_steps:
  "closing_ok go_away_handler_new"
  "closing_ok h \<Longrightarrow> ga_error_code f = NO_ERROR \<Longrightarrow> enqueue_go_away f h = Ok h' \<Longrightarrow> closing_ok h' \<and> gh_close_now h' = gh_close_now h"
  "closing_ok h \<Longrightarrow> go_away_now f h = Ok h' \<Longrightarrow> closing_ok h' \<and> gh_close_now h'"
  "closing_ok h \<Longrightarrow> go_away_from_user f h = Ok h' \<Longrightarrow> closing_ok h' \<and> gh_close_now h'"
  "closing_ok h \<Longrightarrow> send_pending_go_away b h = (p, out, h') \<Longrightarrow> closing_ok h' \<and> gh_close_now h' = gh_close_now h"
  by (auto simp: closing_ok_def go_away_handler_new_def enqueue_go_away_def go_away_now_def go_away_from_user_def
      send_pending_go_away_def Let_def split: if_splits option.splits)

text \<open>
  What holds throughout the loop of \<open>poll2\<close>: \<open>b\<close> says whether the connection closes at once, \<open>k\<close> bounds the
  frames that are left, \<open>rs\<close> are the answers for \<open>poll_complete\<close>.
\<close>

definition polling ::
  "('m, 'st) ext \<Rightarrow> 'h hmap \<Rightarrow> ('m, 'st, 'h) http \<Rightarrow> ((nat \<rightharpoonup> ('m, 'st, 'h) stream) \<Rightarrow> nat) \<Rightarrow> ('m, 'st, 'h) inner \<Rightarrow>
     bool \<Rightarrow> nat \<Rightarrow> bool list list \<Rightarrow> connection_state \<Rightarrow> ('m, 'st, 'h) connection \<Rightarrow> bool" where
  "polling e H W pick s0 b k rs st c \<longleftrightarrow> closing_ok (cn_goaway c) \<and> gh_close_now (cn_goaway c) = b
     \<and> on_path e H W pick s0 (cn_streams c) \<and> length (cd_frames (cn_codec c)) \<le> k \<and> cd_rounds (cn_codec c) = rs
     \<and> cn_state c = st"

named_theorems polling_rules \<open>actions of the connection that keep \<open>polling\<close>\<close>

lemma keeps_poll_cases: "keeps I m \<Longrightarrow> (\<And>x. keeps I (f x)) \<Longrightarrow> keeps I (case p of Pending \<Rightarrow> m | Ready x \<Rightarrow> f x)"
  by (cases p) simp_all

lemma keeps_when_ready: "keeps I m \<Longrightarrow> keeps I n \<Longrightarrow> keeps I (when_ready m n)"
  unfolding when_ready_def by (intro keeps_bnd keeps_poll_cases keeps_prims)

lemmas polling_structure [polling_rules] = keeps_bnd keeps_seq keeps_attempt keeps_if keeps_case_option keeps_case_prod
  keeps_case_result keeps_list_cases keeps_frame_cases keeps_poll_cases keeps_when_ready keeps_prims

lemma polling_fields [polling_rules]:
  "keeps (polling e H W pick s0 b k rs st) (modify (\<lambda>c. c\<lparr>cn_ping := f1 c\<rparr>))"
  "keeps (polling e H W pick s0 b k rs st) (modify (\<lambda>c. c\<lparr>cn_settings := f2 c\<rparr>))"
  "keeps (polling e H W pick s0 b k rs st) (modify (\<lambda>c. c\<lparr>cn_error := f3 c\<rparr>))"
  "keeps (polling e H W pick s0 b k rs st) (buffer_frames fs)" "keeps (polling e H W pick s0 b k rs st) ask"
  "keeps (polling e H W pick s0 b k rs st) (on_codec (\<lambda>d. d\<lparr>cd_send := f4 d\<rparr>))"
  "keeps (polling e H W pick s0 b k rs st) (on_codec (\<lambda>d. d\<lparr>cd_read := f5 d\<rparr>))"
  by (auto simp: keeps_def polling_def buffer_frames_def on_codec_def ask_def act_simps split: list.splits)

lemma polling_on_reader [polling_rules]: "keeps (polling e H W pick s0 b k rs st) (on_reader f)"
  unfolding on_reader_def by (intro polling_rules)

text \<open>The calls on the streams are calls of \<open>Streams_Run\<close>.\<close>

lemma quietly_Ok: "m s = (r, s') \<Longrightarrow> r \<noteq> Panic \<Longrightarrow> quietly m s = (Ok (), s')"
  by (cases r) (simp_all add: quietly_def act_simps)

lemma polling_on_streams:
  assumes "\<And>s. perform e H W pick x s = quietly m s"
  shows "keeps (polling e H W pick s0 b k rs st) (on_streams m)"
proof (rule keepsI)
  fix c r c' assume I: "polling e H W pick s0 b k rs st c" and run: "on_streams m c = (r, c')" "r \<noteq> Panic"
  obtain s' where m: "m (cn_streams c) = (r, s')" "c' = c\<lparr>cn_streams := s'\<rparr>"
    using run by (auto simp: on_streams_def split: prod.splits)
  have "perform e H W pick x (cn_streams c) = (Ok (), s')"
    using assms quietly_Ok [where m = m and s = "cn_streams c" and r = r and s' = s'] m(1) run(2) by simp
  with I m(2) show "polling e H W pick s0 b k rs st c'" by (auto simp: polling_def intro: on_path_call)
qed

lemma polling_call_streams:
  assumes "\<And>s y s'. m s = (Ok y, s') \<Longrightarrow> perform e H W pick x s = (Ok (), s')"
  shows "keeps (polling e H W pick s0 b k rs st) (call_streams m)"
proof (rule keepsI)
  fix c r c' assume I: "polling e H W pick s0 b k rs st c" and run: "call_streams m c = (r, c')" "r \<noteq> Panic"
  obtain y s' where m: "m (cn_streams c) = (Ok y, s')" "c' = c\<lparr>cn_streams := s'\<rparr>"
    using run by (auto simp: call_streams_def split: prod.splits result.splits)
  from assms [OF m(1)] I m(2) show "polling e H W pick s0 b k rs st c'" by (auto simp: polling_def intro: on_path_call)
qed

lemma polling_streams [polling_rules]:
  "keeps (polling e H W pick s0 b k rs st) (on_streams (inner_recv_data now d))"
  "keeps (polling e H W pick s0 b k rs st) (on_streams (inner_recv_headers e H W pick now h))"
  "keeps (polling e H W pick s0 b k rs st) (on_streams (inner_recv_reset x))"
  "keeps (polling e H W pick s0 b k rs st) (on_streams (inner_recv_go_away g))"
  "keeps (polling e H W pick s0 b k rs st) (on_streams (inner_recv_window_update now u))"
  "keeps (polling e H W pick s0 b k rs st) (on_streams (streams_apply_local_settings s))"
  by (rule polling_on_streams [where x = "DoRecvData now d"] polling_on_streams [where x = "DoRecvHeaders now h"]
      polling_on_streams [where x = "DoRecvReset x"] polling_on_streams [where x = "DoRecvGoAway g"]
      polling_on_streams [where x = "DoRecvWindowUpdate now u"] polling_on_streams [where x = "DoApplyLocal s"], simp)+

lemma polling_calls [polling_rules]:
  "keeps (polling e H W pick s0 b k rs st) (call_streams (streams_send_go_away sid))"
  "keeps (polling e H W pick s0 b k rs st) (call_streams (inner_handle_error er))"
  "keeps (polling e H W pick s0 b k rs st) (call_streams (send_recvd_ping w p))"
  "keeps (polling e H W pick s0 b k rs st) (call_streams (send_pending_refusal b1))"
  "keeps (polling e H W pick s0 b k rs st) (call_streams (poll_window_update b1 b2))"
  "keeps (polling e H W pick s0 b k rs st) (call_streams (inner_recv_eof b1))"
  "keeps (polling e H W pick s0 b k rs st) (call_streams (clear_expired_reset_streams now))"
  "keeps (polling e H W pick s0 b k rs st) (call_streams (inner_poll_complete w rd sz))"
  "keeps (polling e H W pick s0 b k rs st) (call_streams (send_poll_spa w p sz b1 b2 b3 ph))"
  by (rule polling_call_streams [where x = "DoSendGoAway sid"] polling_call_streams [where x = "DoHandleError er"]
      polling_call_streams [where x = "DoRecvdPing w p"] polling_call_streams [where x = "DoPendingRefusal b1"]
      polling_call_streams [where x = "DoPollWindowUpdate b1 b2"] polling_call_streams [where x = "DoRecvEof b1"]
      polling_call_streams [where x = "DoClearExpired now"] polling_call_streams [where x = "DoPollComplete w rd sz"]
      polling_call_streams [where x = "DoPollSpa w p sz b1 b2 b3 ph"], simp add: act_simps)+

lemma polling_poll_go_away [polling_rules]: "keeps (polling e H W pick s0 b k rs st) poll_go_away"
proof (unfold poll_go_away_def, rule keeps_bnd [OF polling_fields(5)], rule keepsI)
  fix y c r c'
  assume I: "polling e H W pick s0 b k rs st c"
    and run: "bnd (gets (\<lambda>c. send_pending_go_away y (cn_goaway c))) (\<lambda>(p, out, h).
      seq (modify (\<lambda>c. c\<lparr>cn_goaway := h\<rparr>)) (seq (buffer_frames (map of_control out)) (ret p))) c = (r, c')" "r \<noteq> Panic"
  obtain p out h where h: "send_pending_go_away y (cn_goaway c) = (p, out, h)" by (cases "send_pending_go_away y (cn_goaway c)")
  with I closing_ok_steps(5) [OF _ h] run show "polling e H W pick s0 b k rs st c'"
    by (auto simp: polling_def act_simps buffer_frames_def on_codec_def)
qed

lemma polling_go_away_graceful [polling_rules]: "keeps (polling e H W pick s0 b k rs st) (go_away_graceful sid NO_ERROR)"
proof (unfold go_away_graceful_def, rule keeps_seq, rule polling_calls, rule keepsI)
  fix c r c' assume "polling e H W pick s0 b k rs st c" "set_goaway (enqueue_go_away (go_away_new sid NO_ERROR)) c = (r, c')" "r \<noteq> Panic"
  then show "polling e H W pick s0 b k rs st c'"
    using closing_ok_steps(2) [of "cn_goaway c" "go_away_new sid NO_ERROR"]
    by (auto simp: polling_def set_goaway_def act_simps go_away_new_def split: result.splits)
qed

lemma keeps_ping_action_cases:
  "keeps I m1 \<Longrightarrow> keeps I m2 \<Longrightarrow> keeps I m3 \<Longrightarrow> keeps I (case a of MustAck \<Rightarrow> m1 | Unknown \<Rightarrow> m2 | Shutdown \<Rightarrow> m3)"
  by (cases a) simp_all

lemma keeps_settings_action_cases:
  "keeps I m1 \<Longrightarrow> (\<And>x. keeps I (m2 x)) \<Longrightarrow> keeps I (case a of SettingsOk \<Rightarrow> m1 | ApplyLocal x \<Rightarrow> m2 x)"
  by (cases a) simp_all

lemma polling_recv_frame [polling_rules]: "keeps (polling e H W pick s0 b k rs st) (recv_frame e H W pick now w f)"
  unfolding recv_frame_def recv_settings_def recv_ping_def conn_apply_local_settings_def
  by (intro polling_rules keeps_ping_action_cases keeps_settings_action_cases)

lemma polling_poll_remote [polling_rules]: "keeps (polling e H W pick s0 b k rs st) poll_remote"
proof (unfold poll_remote_def, rule keeps_bnd [OF polling_fields(5)], rule keepsI)
  fix y c r c'
  assume I: "polling e H W pick s0 b k rs st c"
    and run: "bnd (gets (\<lambda>c. poll_remote_settings y streams_apply_remote_settings (cn_settings c) (cd_send (cn_codec c)) (cn_streams c)))
       (\<lambda>(p, out, h, send, streams).
     seq (modify (\<lambda>c. c\<lparr>cn_settings := h, cn_streams := streams\<rparr>))
     (seq (on_codec (\<lambda>d. d\<lparr>cd_send := send\<rparr>))
     (seq (buffer_frames (map of_control out))
     (case p of Pending \<Rightarrow> ret Pending | Ready r \<Rightarrow> bnd (of_result r) (\<lambda>_. ret (Ready ())))))) c = (r, c')" "r \<noteq> Panic"
  obtain p out h send s' where
    pr: "poll_remote_settings y streams_apply_remote_settings (cn_settings c) (cd_send (cn_codec c)) (cn_streams c) = (p, out, h, send, s')"
    by (cases "poll_remote_settings y streams_apply_remote_settings (cn_settings c) (cd_send (cn_codec c)) (cn_streams c)")
  with run have np: "p \<noteq> Ready Panic" and c': "cn_streams c' = s'" "cn_goaway c' = cn_goaway c" "cn_state c' = cn_state c"
    "cd_frames (cn_codec c') = cd_frames (cn_codec c)" "cd_rounds (cn_codec c') = cd_rounds (cn_codec c)"
    by (auto simp: act_simps buffer_frames_def on_codec_def split: poll.splits result.splits)
  have "on_path e H W pick s0 s'"
  proof (cases "s' = cn_streams c")
    case False
    with pr np obtain cfg res where a: "streams_apply_remote_settings cfg (cn_streams c) = (res, s')" "res \<noteq> Panic"
      by (auto simp: poll_remote_settings_def Let_def split: option.splits if_splits prod.splits result.splits)
    have "perform e H W pick (DoApplyRemote cfg) (cn_streams c) = (Ok (), s')"
      using quietly_Ok [where m = "streams_apply_remote_settings cfg" and s = "cn_streams c" and r = res and s' = s'] a by simp
    moreover have "on_path e H W pick s0 (cn_streams c)" using I by (simp add: polling_def)
    ultimately show ?thesis by (rule on_path_call [rotated])
  qed (use I in \<open>simp add: polling_def\<close>)
  with I c' show "polling e H W pick s0 b k rs st c'" by (simp add: polling_def)
qed

lemma polling_control_frames [polling_rules]: "keeps (polling e H W pick s0 b k rs st) poll_control_frames"
  unfolding poll_control_frames_def poll_pings_def poll_local_def poll_refusal_def poll_windows_def
  by (intro polling_rules)

lemma poll_next_shrinks:
  "poll_next e H frames fr = (res, rest, fr') \<Longrightarrow> length rest \<le> length frames \<and> (res \<noteq> Ok None \<longrightarrow> length rest < length frames)"
  by (induction frames arbitrary: fr) (auto split: prod.splits result.splits option.splits; fastforce)+

text \<open>A frame that is delivered, or an error in one, has come off the wire; so later only the frames behind it are left.\<close>

lemma codec_poll_next_polling:
  assumes I: "polling e H W pick s0 b k rs st c" and run: "codec_poll_next e H c = (res, c')" "res \<noteq> Panic"
  shows "polling e H W pick s0 b k rs st c'"
    "(\<exists>f. res = Ok (Ready (Some f))) \<or> (\<exists>sid r i. res = Err (PReset sid r i)) \<Longrightarrow> 0 < k \<and> polling e H W pick s0 b (k - 1) rs st c'"
proof -
  obtain nx rest fr where n: "poll_next e H (cd_frames (cn_codec c)) (cd_read (cn_codec c)) = (nx, rest, fr)"
    by (cases "poll_next e H (cd_frames (cn_codec c)) (cd_read (cn_codec c))")
  note sh = poll_next_shrinks [OF n]
  from run n have c': "c' = c\<lparr>cn_codec := (cn_codec c)\<lparr>cd_frames := rest, cd_read := fr\<rparr>\<rparr>"
    by (auto simp: codec_poll_next_def act_simps on_codec_def split: result.splits option.splits wire_end.splits)
  then show "polling e H W pick s0 b k rs st c'" using I sh by (simp add: polling_def)
  assume "(\<exists>f. res = Ok (Ready (Some f))) \<or> (\<exists>sid r i. res = Err (PReset sid r i))"
  with run n have "nx \<noteq> Ok None"
    by (auto simp: codec_poll_next_def act_simps on_codec_def split: result.splits option.splits wire_end.splits)
  with sh I c' show "0 < k \<and> polling e H W pick s0 b (k - 1) rs st c'" by (auto simp: polling_def)
qed

section \<open>Errors of the control frames\<close>

lemma ask_eq: "ask c = (case cd_ready (cn_codec c) of
    [] \<Rightarrow> (Ok False, c) | b # bs \<Rightarrow> (Ok b, c\<lparr>cn_codec := (cn_codec c)\<lparr>cd_ready := bs\<rparr>\<rparr>))"
  by (simp add: ask_def act_simps on_codec_def split: list.splits)

text \<open>An error in applying the peer's settings is one of the connection, not of a stream.\<close>

fun is_go_away :: "proto_error \<Rightarrow> bool" where
  "is_go_away (PGoAway _ _ _) = True"
| "is_go_away _ = False"

lemma is_go_away_library [simp]: "is_go_away (library_go_away r)"
  by (simp add: library_go_away_def)

lemma errs_state: "errs P (attempt m)" "errs P (on_send sf)" "errs P (on_counts cf)" "errs P (on_stream k g)"
  by (auto simp: errs_def attempt_apply on_send_def on_counts_def on_stream_eq split: prod.splits result.splits option.splits)

lemma errs_option: "errs P m \<Longrightarrow> (\<And>x. errs P (f x)) \<Longrightarrow> errs P (case v of None \<Rightarrow> m | Some x \<Rightarrow> f x)"
  by (cases v) simp_all

lemma errs_panic: "errs P panic"
  by (simp add: errs_def)

lemma errs_Let: "errs P (f x) \<Longrightarrow> errs P (let y = x in f y)"
  by simp

lemmas errs_rules = errs_bnd errs_seq errs_branch errs_state errs_option errs_panic errs_prims(1-3)

lemma errs_try_for_each:
  assumes "\<And>k. errs P (f k)"
  shows "errs P (try_for_each f)"
proof -
  have "errs P (try_for_each_from f i n)" for i n
  proof (induction n arbitrary: i)
    case (Suc n)
    then show ?case by (simp, intro errs_rules assms)
  qed (simp add: errs_prims)
  then show ?thesis unfolding try_for_each_def by (intro errs_rules)
qed

lemma errs_lower_windows: "errs is_go_away (lower_windows_from dec i n tot)"
proof (induction n arbitrary: i tot)
  case (Suc n)
  have "errs is_go_away (lower_stream_window dec k)" for k
    unfolding lower_stream_window_def Let_def
    by (intro errs_the_stream errs_rules errs_prims) (auto elim: map_err.elims)
  with Suc show ?case by (simp, intro errs_rules)
qed (simp add: errs_prims)

lemma errs_apply_remote: "errs is_go_away (streams_apply_remote_settings cfg)"
  unfolding streams_apply_remote_settings_def send_apply_remote_settings_def
  by (intro errs_rules errs_lower_windows errs_try_for_each errs_on_err) simp_all

lemma errs_call_streams: "errs P (call_streams m)"
  by (auto simp: errs_def call_streams_def split: prod.splits result.splits)

lemma errs_conn: "errs P ask" "errs P (buffer_frames fs)" "errs P (modify f)" "errs P (on_codec g)"
  by (auto simp: errs_def ask_def act_simps buffer_frames_def on_codec_def split: list.splits)

lemma errs_prod: "(\<And>x y. errs P (f x y)) \<Longrightarrow> errs P (case v of (x, y) \<Rightarrow> f x y)"
  by (cases v) simp

lemma errs_when_ready: "errs P m \<Longrightarrow> errs P n \<Longrightarrow> errs P (when_ready m n)"
  unfolding when_ready_def by (intro errs_bnd; simp add: errs_prims split: poll.splits)

lemma errs_poll_remote: "errs is_go_away poll_remote"
  unfolding errs_def
proof (intro allI impI)
  fix c :: "('m, 'st, 'h) connection" and er
  assume run: "fst (poll_remote c) = Err er"
  obtain y c1 where y: "ask c = (Ok y :: (bool, proto_error) result, c1)" by (cases "cd_ready (cn_codec c)") (auto simp: ask_eq)
  obtain p out h send s' where
    pr: "poll_remote_settings y streams_apply_remote_settings (cn_settings c1) (cd_send (cn_codec c1)) (cn_streams c1) = (p, out, h, send, s')"
    by (cases "poll_remote_settings y streams_apply_remote_settings (cn_settings c1) (cd_send (cn_codec c1)) (cn_streams c1)")
  with run y have "p = Ready (Err er)"
    by (auto simp: poll_remote_def act_simps buffer_frames_def on_codec_def split: poll.splits result.splits)
  with pr have "\<exists>cfg. streams_apply_remote_settings cfg (cn_streams c1) = (Err er, s')"
    by (auto simp: poll_remote_settings_def Let_def split: option.splits if_splits prod.splits result.splits)
  then obtain cfg where "fst (streams_apply_remote_settings cfg (cn_streams c1)) = Err er" by (metis fst_conv)
  then show "is_go_away er" by (rule errs_apply_remote [unfolded errs_def, rule_format])
qed

lemma errs_control_frames: "errs is_go_away poll_control_frames"
  unfolding poll_control_frames_def poll_pings_def poll_local_def poll_refusal_def poll_windows_def
  by (intro errs_when_ready errs_poll_remote errs_rules errs_conn errs_call_streams errs_prod)

section \<open>A round of reading\<close>

text \<open>A connection that closes at once reads no further frame: it waits, ends, or reports the error it went away with.\<close>

lemma poll2_round_closing:
  assumes "gh_close_now (cn_goaway c)" "closing_ok (cn_goaway c)" "poll2_round e H W pick now w c = (res, c')"
  shows "cd_frames (cn_codec c') = cd_frames (cn_codec c) \<and> cn_streams c' = cn_streams c \<and>
    (res = Ok (Some Pending) \<or> res = Ok (Some (Ready ()))
      \<or> (\<exists>g. gh_going_away (cn_goaway c') = Some g \<and> res = Err (library_go_away (gng_reason g))))"
proof -
  have "closing_ok h \<Longrightarrow> gh_close_now h \<Longrightarrow> send_pending_go_away b h = (p, out, h') \<Longrightarrow>
      p = Pending \<or> (\<exists>g. p = Ready (Some (gng_reason g)) \<and> gh_going_away h' = Some g \<and> should_close_now h')" for b h p out h'
    by (auto simp: send_pending_go_away_def closing_ok_def should_close_now_def split: option.splits if_splits)
  with assms show ?thesis
    by (cases "cd_ready (cn_codec c)")
      (fastforce simp: poll2_round_def poll_go_away_def act_simps ask_eq buffer_frames_def on_codec_def
        split: prod.splits poll.splits option.splits if_splits)+
qed

lemma polling_poll2_read:
  assumes I: "polling e H W pick s0 b k rs st c" and run: "poll2_read e H W pick now w c = (res, c')" "res \<noteq> Panic"
  shows "polling e H W pick s0 b k rs st c'"
    "res = Ok None \<or> (\<exists>sid r i. res = Err (PReset sid r i)) \<Longrightarrow> 0 < k \<and> polling e H W pick s0 b (k - 1) rs st c'"
proof -
  obtain pc c1 where pc: "poll_control_frames c = (pc, c1)" by (cases "poll_control_frames c")
  with run have pcP: "pc \<noteq> Panic" by (auto simp: poll2_read_def act_simps)
  from keepsD [OF polling_control_frames I pc pcP] have I1: "polling e H W pick s0 b k rs st c1" .
  have ga: "is_go_away er" if "pc = Err er" for er
    using errs_control_frames [unfolded errs_def, rule_format, of c er] pc that by simp
  consider (stop) "c' = c1" "pc \<noteq> Ok (Ready ())" "res = Ok (Some Pending) \<or> (\<exists>er. res = Err er \<and> is_go_away er)"
    | (go) "pc = Ok (Ready ())"
    using run pc ga by (cases pc) (auto simp: poll2_read_def act_simps split: poll.splits)
  then have *: "polling e H W pick s0 b k rs st c' \<and> (res = Ok None \<or> (\<exists>sid r i. res = Err (PReset sid r i)) \<longrightarrow>
    0 < k \<and> polling e H W pick s0 b (k - 1) rs st c')"
  proof cases
    case stop
    with I1 show ?thesis by auto
  next
    case go
    obtain nx c2 where nx: "codec_poll_next e H c1 = (nx, c2)" by (cases "codec_poll_next e H c1")
    with go pc run have nxP: "nx \<noteq> Panic" by (auto simp: poll2_read_def act_simps)
    note I2 = codec_poll_next_polling [OF I1 nx nxP]
    show ?thesis
    proof (cases "\<exists>f. nx = Ok (Ready (Some f))")
      case True
      then obtain f where f: "nx = Ok (Ready (Some f))" by blast
      from run pc go nx f have "seq (recv_frame e H W pick now w f) (ret None) c2 = (res, c')"
        by (simp add: poll2_read_def bnd_apply)
      from keepsD [OF keeps_seq [OF polling_recv_frame keeps_prims(1)] _ this run(2)] I2 f show ?thesis by blast
    next
      case False
      show ?thesis
      proof (cases "nx = Ok (Ready None)")
        case True
        with run pc go nx have e: "seq (call_streams (inner_recv_eof False)) (ret (Some (Ready ()))) c2 = (res, c')"
          by (simp add: poll2_read_def bnd_apply)
        from keepsD [OF keeps_seq [OF polling_calls(6) keeps_prims(1)] I2(1) e run(2)] 
        have "polling e H W pick s0 b k rs st c'" .
        moreover have "\<not> (res = Ok None \<or> (\<exists>sid r i. res = Err (PReset sid r i)))"
          using e by (auto simp: act_simps call_streams_def split: prod.splits result.splits)
        ultimately show ?thesis by blast
      next
        case no: False
        with run pc go nx False nxP have "c' = c2" "res = Ok (Some Pending) \<or> (\<exists>er. nx = Err er \<and> res = Err er)"
          by (auto simp: poll2_read_def bnd_apply split: result.splits poll.splits option.splits)
        with I2 show ?thesis by auto
      qed
    qed
  qed
  then show "polling e H W pick s0 b k rs st c'"
    "res = Ok None \<or> (\<exists>sid r i. res = Err (PReset sid r i)) \<Longrightarrow> 0 < k \<and> polling e H W pick s0 b (k - 1) rs st c'" by blast+
qed

lemma poll2_round_cases:
  assumes run: "poll2_round e H W pick now w c = (res, c')" "res \<noteq> Panic"
  obtains (stop) p where "poll_go_away c = (Ok p :: (reason option poll, proto_error) result, c')"
      "res = Ok (Some Pending) \<or> res = Ok (Some (Ready ())) \<or> (\<exists>why. res = Err (library_go_away why))"
  | (go) p c1 where "poll_go_away c = (Ok p :: (reason option poll, proto_error) result, c1)" "poll2_read e H W pick now w c1 = (res, c')"
proof -
  obtain pg c1 where pg: "poll_go_away c = (pg :: (reason option poll, proto_error) result, c1)" by (metis surj_pair)
  have "\<exists>p. pg = Ok p"
    using pg by (cases "cd_ready (cn_codec c)") (auto simp: poll_go_away_def act_simps ask_eq buffer_frames_def on_codec_def split: prod.splits)
  then obtain p where p: "pg = Ok p" by blast
  show ?thesis
  proof (cases "poll2_read e H W pick now w c1 = (res, c')")
    case True
    with pg p go show ?thesis by blast
  next
    case False
    with run pg p have "c' = c1 \<and> (res = Ok (Some Pending) \<or> res = Ok (Some (Ready ())) \<or> (\<exists>why. res = Err (library_go_away why)))"
      by (auto simp: poll2_round_def bnd_apply seq_apply check_def split: poll.splits option.splits if_splits)
    with pg p stop show ?thesis by blast
  qed
qed

lemma polling_poll2_round:
  assumes I: "polling e H W pick s0 b k rs st c" and run: "poll2_round e H W pick now w c = (res, c')" "res \<noteq> Panic"
  shows "polling e H W pick s0 b k rs st c' \<and> (res = Ok None \<or> (\<exists>sid r i. res = Err (PReset sid r i)) \<longrightarrow>
    \<not> b \<and> 0 < k \<and> polling e H W pick s0 b (k - 1) rs st c')"
proof -
  have nb: "\<not> b" if "res = Ok None \<or> (\<exists>sid r i. res = Err (PReset sid r i))"
    using poll2_round_closing [of c e H W pick now w res c'] I run that by (auto simp: polling_def library_go_away_def)
  from run show ?thesis
  proof (cases rule: poll2_round_cases)
    case (stop p)
    from keepsD [OF polling_poll_go_away I stop(1)] stop(2) show ?thesis by (auto simp: library_go_away_def)
  next
    case (go p c1)
    from keepsD [OF polling_poll_go_away I go(1)] have "polling e H W pick s0 b k rs st c1" by simp
    from polling_poll2_read [OF this go(2) run(2)] nb show ?thesis by blast
  qed
qed

text \<open>\<open>poll2\<close>: with more rounds than frames the bound on the rounds plays no part.\<close>

lemma poll2_n_enough:
  "length (cd_frames (cn_codec c)) < n \<Longrightarrow> n \<le> m \<Longrightarrow> closing_ok (cn_goaway c) \<Longrightarrow>
     poll2_n m e H W pick now w c = poll2_n n e H W pick now w c"
proof (induction n arbitrary: m c)
  case (Suc n)
  then obtain m' where m: "m = Suc m'" "n \<le> m'" by (cases m) auto
  obtain res c' where r: "poll2_round e H W pick now w c = (res, c')" by (cases "poll2_round e H W pick now w c")
  show ?case
  proof (cases "res = Ok None")
    case True
    have "polling e H W pick (cn_streams c) (gh_close_now (cn_goaway c)) (length (cd_frames (cn_codec c))) (cd_rounds (cn_codec c)) (cn_state c) c"
      using Suc.prems by (simp add: polling_def on_path_refl)
    from polling_poll2_round [OF this r] True have "0 < length (cd_frames (cn_codec c))"
      "length (cd_frames (cn_codec c')) \<le> length (cd_frames (cn_codec c)) - 1" "closing_ok (cn_goaway c')"
      by (simp_all add: polling_def)
    then have "length (cd_frames (cn_codec c')) < n" "closing_ok (cn_goaway c')" using Suc.prems by linarith+
    from Suc.IH [OF this(1) m(2) this(2)] show ?thesis
      by (subst m(1)) (simp add: bnd_apply r True)
  qed (use r m in \<open>auto simp: bnd_apply split: result.splits option.splits\<close>)
qed simp

lemma polling_poll2_n:
  "polling e H W pick s0 b k rs st c \<Longrightarrow> poll2_n n e H W pick now w c = (res, c') \<Longrightarrow> res \<noteq> Panic \<Longrightarrow>
     polling e H W pick s0 b k rs st c' \<and> ((\<exists>sid r i. res = Err (PReset sid r i)) \<longrightarrow>
       \<not> b \<and> 0 < k \<and> polling e H W pick s0 b (k - 1) rs st c')"
proof (induction n arbitrary: c k)
  case (Suc n)
  obtain r1 c1 where r: "poll2_round e H W pick now w c = (r1, c1)" by (cases "poll2_round e H W pick now w c")
  with Suc.prems have r1: "r1 \<noteq> Panic" by (auto simp: bnd_apply)
  note one = polling_poll2_round [OF Suc.prems(1) r r1]
  show ?case
  proof (cases "r1 = Ok None")
    case True
    with one have I1: "polling e H W pick s0 b (k - 1) rs st c1" "\<not> b" "0 < k" by auto
    from Suc.prems r True have "poll2_n n e H W pick now w c1 = (res, c')" by (simp add: bnd_apply)
    from Suc.IH [OF I1(1) this Suc.prems(3)] I1(2,3) show ?thesis by (auto simp: polling_def)
  next
    case False
    with Suc.prems r one show ?thesis by (auto simp: bnd_apply split: result.splits option.splits)
  qed
qed simp

lemma polling_poll2:
  assumes I: "polling e H W pick s0 b k rs st c" and run: "poll2 e H W pick now w c = (res, c')" "res \<noteq> Panic"
  shows "polling e H W pick s0 b k rs st c' \<and> ((\<exists>sid r i. res = Err (PReset sid r i)) \<longrightarrow>
       \<not> b \<and> 0 < k \<and> polling e H W pick s0 b (k - 1) rs st c')"
proof -
  obtain r1 c1 where r: "call_streams (clear_expired_reset_streams now) c = (r1 :: (unit, proto_error) result, c1)"
    by (metis surj_pair)
  with run have ok: "r1 = Ok ()"
    by (auto simp: poll2_def act_simps call_streams_def split: prod.splits result.splits)
  from keepsD [OF polling_calls(7) I r] ok have "polling e H W pick s0 b k rs st c1" by simp
  moreover from run r ok have "poll2_n (Suc (length (cd_frames (cn_codec c1)))) e H W pick now w c1 = (res, c')"
    by (simp add: poll2_def seq_apply bnd_apply del: poll2_n.simps)
  ultimately show ?thesis using polling_poll2_n run(2) by blast
qed

section \<open>A round of polling\<close>

definition conn_ok ::
  "('m, 'st) ext \<Rightarrow> 'h hmap \<Rightarrow> ('m, 'st, 'h) http \<Rightarrow> ((nat \<rightharpoonup> ('m, 'st, 'h) stream) \<Rightarrow> nat) \<Rightarrow> ('m, 'st, 'h) inner \<Rightarrow>
     ('m, 'st, 'h) connection \<Rightarrow> bool" where
  "conn_ok e H W pick s0 c \<longleftrightarrow> closing_ok (cn_goaway c) \<and> on_path e H W pick s0 (cn_streams c)"

text \<open>What a round that goes on lowers: answers and frames left, and how far the connection is from closed.\<close>

definition conn_rank :: "('m, 'st, 'h) connection \<Rightarrow> nat" where
  "conn_rank c = (case cn_state c of
     ConnOpen \<Rightarrow> if gh_close_now (cn_goaway c) then 2 else 3 | ConnClosing _ _ \<Rightarrow> 1 | ConnClosed _ _ \<Rightarrow> 0)"

definition conn_measure :: "('m, 'st, 'h) connection \<Rightarrow> nat" where
  "conn_measure c = length (cd_rounds (cn_codec c)) + length (cd_frames (cn_codec c)) + conn_rank c"

lemma set_goaway_now:
  assumes "set_goaway (go_away_now f) c = (res, c')" "res \<noteq> Panic" "closing_ok (cn_goaway c)"
  shows "res = Ok () \<and> (\<exists>h. c' = c\<lparr>cn_goaway := h\<rparr> \<and> closing_ok h \<and> gh_close_now h)"
  using assms closing_ok_steps(3) [of "cn_goaway c" f]
  by (auto simp: set_goaway_def act_simps split: result.splits)

lemma conn_go_away_now_step:
  assumes "conn_go_away_now r c = (res, c') \<or> go_away_now_data r d c = (res, c')" "res \<noteq> Panic" "closing_ok (cn_goaway c)"
  shows "res = Ok () \<and> (\<exists>h. c' = c\<lparr>cn_goaway := h\<rparr> \<and> closing_ok h \<and> gh_close_now h)"
  using assms set_goaway_now [of _ c res c'] by (auto simp: conn_go_away_now_def go_away_now_data_def act_simps)

lemma on_path_calls_step:
  assumes "call_streams (inner_handle_error er) c = (Ok x, c')" "on_path e H W pick s0 (cn_streams c)"
  shows "\<exists>s. c' = c\<lparr>cn_streams := s\<rparr> \<and> on_path e H W pick s0 s"
proof -
  obtain r s where r: "inner_handle_error er (cn_streams c) = (r :: (stream_id, unit) result, s)" by (metis surj_pair)
  with assms(1) have s: "inner_handle_error er (cn_streams c) = (Ok x :: (stream_id, unit) result, s)" "c' = c\<lparr>cn_streams := s\<rparr>"
    by (auto simp: call_streams_def split: result.splits)
  then have "perform e H W pick (DoHandleError er) (cn_streams c) = (Ok (), s)" by (simp add: act_simps)
  from on_path_call [OF assms(2) this] s(2) show ?thesis by blast
qed

lemma poll2_go_away_step:
  assumes ok: "conn_ok e H W pick s0 c" and run: "poll2_go_away r d i c = (res :: (unit, 'f) result, c')" "res \<noteq> Panic"
  shows "res = Ok () \<and> conn_ok e H W pick s0 c' \<and> cn_codec c' = cn_codec c \<and>
    (cn_state c' = ConnClosing r i \<or> cn_state c' = cn_state c \<and> gh_close_now (cn_goaway c')
       \<and> (\<forall>g. gh_going_away (cn_goaway c) = Some g \<longrightarrow> gng_reason g \<noteq> r))"
proof (cases "case gh_going_away (cn_goaway c) of Some g \<Rightarrow> gng_reason g = r | None \<Rightarrow> False")
  case True
  with ok run show ?thesis by (auto simp: poll2_go_away_def act_simps set_conn_state_def conn_ok_def)
next
  case False
  with run obtain x c1 where h: "call_streams (inner_handle_error (PGoAway d r i)) c = (Ok x :: (stream_id, 'f) result, c1)"
    and g: "go_away_now_data r d c1 = (res, c')"
    by (auto simp: poll2_go_away_def act_simps call_streams_def split: prod.splits result.splits if_splits)
  from on_path_calls_step [OF h, of e H W pick s0] ok obtain s where s: "c1 = c\<lparr>cn_streams := s\<rparr>" "on_path e H W pick s0 s"
    by (auto simp: conn_ok_def)
  with conn_go_away_now_step [OF disjI2 [OF g] run(2)] ok False show ?thesis by (auto simp: conn_ok_def split: option.splits)
qed

lemma conn_poll_complete_polling:
  assumes I: "polling e H W pick s0 b k rs st c" and run: "conn_poll_complete w c = (res, c')" "res \<noteq> Panic"
  shows "polling e H W pick s0 b k (tl rs) st c'" "res = Ok (Ready ()) \<Longrightarrow> rs \<noteq> []"
    "res = Ok Pending \<or> res = Ok (Ready ())"
proof -
  define sz where "sz = max_send_frame_size (cd_send (cn_codec c))"
  define c1 where "c1 = c\<lparr>cn_codec := (cn_codec c)\<lparr>cd_rounds := tl rs\<rparr>\<rparr>"
  have I1: "polling e H W pick s0 b k (tl rs) st c1" using I by (simp add: polling_def c1_def)
  have rs: "cd_rounds (cn_codec c) = rs" using I by (simp add: polling_def)
  let ?p = "inner_poll_complete w (if rs = [] then [] else hd rs) sz"
  have cont: "bnd (call_streams ?p) (\<lambda>(out, finished). seq (check (list_all (codec_takes sz) out))
      (seq (buffer_frames out) (ret (if finished then Ready () else Pending)))) c1 = (res, c')"
    using run rs by (simp add: conn_poll_complete_def act_simps on_codec_def c1_def sz_def)
  have "keeps (polling e H W pick s0 b k (tl rs) st) (bnd (call_streams ?p) (\<lambda>(out, finished).
      seq (check (list_all (codec_takes sz) out)) (seq (buffer_frames out) (ret (if finished then Ready () else Pending)))))"
    by (intro polling_rules)
  from keepsD [OF this I1 cont run(2)] show "polling e H W pick s0 b k (tl rs) st c'" .
  obtain pr s where pr: "?p (cn_streams c1) = (pr :: (_, unit) result, s)" by (metis surj_pair)
  from cont pr run(2) have "\<exists>y. pr = Ok y" by (cases pr) (auto simp: bnd_apply call_streams_def)
  then obtain out fin where y: "pr = Ok (out, fin)" by auto
  from cont pr y have "seq (check (list_all (codec_takes sz) out)) (seq (buffer_frames out)
      (ret (if fin then Ready () else Pending))) (c1\<lparr>cn_streams := s\<rparr>) = (res, c')"
    by (simp add: bnd_apply call_streams_def)
  with run(2) have "res = Ok (if fin then Ready () else Pending)"
    by (cases "list_all (codec_takes sz) out") (simp_all add: seq_apply buffer_frames_def on_codec_def)
  with y have p: "pr = Ok (out, fin)" "res = Ok (if fin then Ready () else Pending)" by simp_all
  then show "res = Ok Pending \<or> res = Ok (Ready ())" by simp
  assume "res = Ok (Ready ())"
  with p pr show "rs \<noteq> []" by (auto simp: inner_poll_complete_def send_poll_complete_def act_simps split: if_splits)
qed

lemma poll_idle_step:
  fixes c c' :: "('m, 'st, 'h) connection" and res :: "(unit poll option, 'f) result"
  assumes I: "polling e H W pick s0 b k rs st c" and run: "poll_idle w nonce c = (res, c')" "res \<noteq> Panic"
  shows "conn_ok e H W pick s0 c' \<and> (\<exists>x. res = Ok x) \<and> (res = Ok None \<longrightarrow> length (cd_frames (cn_codec c')) \<le> k \<and> rs \<noteq> []
    \<and> cd_rounds (cn_codec c') = tl rs \<and> cn_state c' = st \<and> gh_close_now (cn_goaway c'))"
proof -
  obtain p1 c1 where p1: "conn_poll_complete w c = (p1 :: (unit poll, 'f) result, c1)" by (metis surj_pair)
  with run have p1P: "p1 \<noteq> Panic" by (auto simp: poll_idle_def when_ready_def act_simps)
  note one = conn_poll_complete_polling [OF I p1 p1P]
  show ?thesis
  proof (cases "p1 = Ok (Ready ())")
    case False
    with one(3) run p1 have "c' = c1" "res = Ok (Some Pending)" by (auto simp: poll_idle_def when_ready_def act_simps)
    with one(1) show ?thesis by (simp add: conn_ok_def polling_def)
  next
    case True
    obtain p2 c2 where p2: "conn_poll_spa w nonce c1 = (p2 :: (unit poll, 'f) result, c2)" by (metis surj_pair)
    with run p1 True have p2P: "p2 \<noteq> Panic" by (auto simp: poll_idle_def when_ready_def act_simps)
    have "keeps (polling e H W pick s0 b k (tl rs) st) (conn_poll_spa w nonce :: (_, _, 'f) act)"
      unfolding conn_poll_spa_def by (intro polling_rules)
    from keepsD [OF this one(1) p2 p2P] have I2: "polling e H W pick s0 b k (tl rs) st c2" .
    have "errs (\<lambda>_. False) (conn_poll_spa w nonce :: (('m, 'st, 'h) connection, unit poll, 'f) act)"
      unfolding conn_poll_spa_def by (intro errs_rules errs_prod errs_conn errs_call_streams)
    then have "fst (conn_poll_spa w nonce c1 :: (unit poll, 'f) result \<times> _) \<noteq> Err er" for er by (simp add: errs_def)
    then have "p2 \<noteq> Err er" for er using p2 by auto
    then have "\<exists>x. p2 = Ok x" using p2P by (cases p2) auto
    then obtain x where x: "p2 = Ok x" by blast
    show ?thesis
    proof (cases "x = Ready () \<and> can_go_away c2")
      case False
      with run p1 True p2 x have "c' = c2" "res = Ok (Some Pending)"
        by (auto simp: poll_idle_def when_ready_def act_simps split: poll.splits)
      with I2 show ?thesis by (simp add: conn_ok_def polling_def)
    next
      case go: True
      with run p1 True p2 x obtain r3 where r3: "conn_go_away_now NO_ERROR c2 = (r3 :: (unit, 'f) result, c')" "r3 \<noteq> Panic"
        "r3 = Ok () \<Longrightarrow> res = Ok None"
        by (auto simp: poll_idle_def when_ready_def act_simps split: prod.splits result.splits)
      from conn_go_away_now_step [OF disjI1 [OF r3(1)] r3(2)] r3(3) I2 one(2) True
      show ?thesis by (auto simp: conn_ok_def polling_def)
    qed
  qed
qed

text \<open>The one error of \<open>send_reset\<close>: too many resets.\<close>

lemma errs_transition:
  assumes "errs P f"
  shows "errs P (transition k f)"
  unfolding errs_def
proof (intro allI impI)
  fix s er assume run: "fst (transition k f s) = Err er"
  obtain r s1 where f: "f s = (r, s1)" by (metis surj_pair)
  with run have "r = Err er"
    by (auto simp: transition_def act_simps the_stream_eq transition_after_no_err split: option.splits prod.splits result.splits)
  with assms f show "P er" by (metis errs_def fst_conv)
qed

lemma errs_streams:
  "errs P (the_stream k)" "errs P (on_recv rf)" "errs P (q_push q now k)" "errs P wake_task" "errs P (on_state k sf)"
  "errs P (store_insert pick sid st)" "errs P (of_result (is_local_init rl sid))"
  by (auto simp: errs_def the_stream_eq on_recv_def q_push_eq wake_task_def wake_def on_state_def on_stream_eq store_insert_eq Let_def act_simps is_local_init_def
      split: option.splits)

lemma errs_notify: "errs P (notify_recv k)" "errs P (stream_set_reset k r ini)"
proof -
  show *: "errs P (notify_recv k)" for k
    unfolding notify_recv_def wake_def by (intro errs_rules errs_streams errs_conn)
  show "errs P (stream_set_reset k r ini)"
    unfolding stream_set_reset_def by (intro errs_rules errs_streams *)
qed

lemma errs_resets:
  "errs P (send_send_reset r ini k)" "errs P (enqueue_reset_expiration now k)" "errs P inc_num_local_error_resets"
  unfolding send_send_reset_def enqueue_reset_expiration_def inc_num_local_error_resets_def inc_num_reset_streams_def
    send_clear_stream_queue_def queue_frame_def push_frame_back_def schedule_send_def reclaim_all_capacity_def
  by (intro errs_rules errs_streams errs_notify)+

lemma errs_inner_send_reset: "errs (\<lambda>g. g = too_many_internal_resets) (inner_send_reset pick now sid r)"
  unfolding inner_send_reset_def actions_send_reset_def send_maybe_reset_next_stream_id_def recv_maybe_reset_next_stream_id_def
  by (intro errs_rules errs_transition errs_resets errs_notify errs_streams errs_prims) simp

lemma handle_poll2_result_step:
  assumes ok: "conn_ok e H W pick s0 c" and op: "cn_state c = ConnOpen" and run: "handle_poll2_result pick now r c = (res, c')" "res \<noteq> Panic"
    and reset: "\<exists>sid why i. r = Err (PReset sid why i) \<Longrightarrow> \<not> gh_close_now (cn_goaway c)"
  shows "conn_ok e H W pick s0 c' \<and> cn_codec c' = cn_codec c \<and> (res = Ok () \<longrightarrow>
    conn_rank c' < conn_rank c \<or> (\<exists>sid why i. r = Err (PReset sid why i)) \<and> conn_rank c' = conn_rank c
    \<or> (\<exists>d why i. r = Err (PGoAway d why i) \<and> gh_close_now (cn_goaway c)
         \<and> (\<forall>g. gh_going_away (cn_goaway c) = Some g \<longrightarrow> gng_reason g \<noteq> why)))"
proof -
  have away: "conn_ok e H W pick s0 c' \<and> cn_codec c' = cn_codec c \<and> (res = Ok () \<longrightarrow> conn_rank c' < conn_rank c
      \<or> gh_close_now (cn_goaway c) \<and> (\<forall>g. gh_going_away (cn_goaway c) = Some g \<longrightarrow> gng_reason g \<noteq> why))"
    if "poll2_go_away why d i c = (res, c')" for why d i
    using poll2_go_away_step [OF ok that run(2)] op by (auto simp: conn_rank_def)
  show ?thesis
  proof (cases r)
    case (Ok x)
    with run ok op show ?thesis by (auto simp: handle_poll2_result_def set_conn_state_def conn_ok_def conn_rank_def)
  next
    case (Err er)
    show ?thesis
    proof (cases er)
      case (PGoAway d why i)
      with run Err have "poll2_go_away why d i c = (res, c')" by (simp add: handle_poll2_result_def)
      from away [OF this] PGoAway Err show ?thesis by blast
    next
      case (PIo k m)
      with run Err obtain x c1 where h: "call_streams (inner_handle_error er) c = (Ok x :: (stream_id, proto_error) result, c1)"
        and c': "c' = c1 \<and> (\<exists>er. res = Err er) \<or> c' = c1\<lparr>cn_state := ConnClosed NO_ERROR Library\<rparr>"
        by (auto simp: handle_poll2_result_def act_simps call_streams_def set_conn_state_def split: prod.splits result.splits if_splits)
      from on_path_calls_step [OF h, of e H W pick s0] ok obtain s where "c1 = c\<lparr>cn_streams := s\<rparr>" "on_path e H W pick s0 s"
        by (auto simp: conn_ok_def)
      with c' ok op show ?thesis by (auto simp: conn_ok_def conn_rank_def)
    next
      case (PReset sid why i)
      obtain r1 s1 where r1: "inner_send_reset pick now sid why (cn_streams c) = (r1, s1)" by (metis surj_pair)
      let ?c1 = "c\<lparr>cn_streams := s1\<rparr>"
      have r1P: "r1 \<noteq> Panic"
        using run r1 Err PReset by (auto simp: handle_poll2_result_def act_simps on_streams_def check_def split: if_splits)
      show ?thesis
      proof (cases r1)
        case ok1: (Ok u)
        then have "perform e H W pick (DoSendReset now sid why) (cn_streams c) = (Ok (), s1)" using r1 by (simp add: act_simps)
        with ok have "on_path e H W pick s0 s1" by (auto simp: conn_ok_def simp del: perform.simps intro: on_path_call)
        moreover have "c' = ?c1" using run r1 ok1 Err PReset
          by (auto simp: handle_poll2_result_def act_simps on_streams_def check_def split: if_splits)
        ultimately show ?thesis using ok Err PReset by (simp add: conn_ok_def conn_rank_def)
      next
        case (Err g)
        have g: "g = too_many_internal_resets"
          using errs_inner_send_reset [unfolded errs_def, rule_format, of pick now sid why "cn_streams c" g] r1 Err by simp
        have ncl: "\<not> gh_close_now (cn_goaway c)" using reset \<open>r = Err er\<close> PReset by blast
        with ok have nr: "\<not> (case gh_going_away (cn_goaway c) of Some x \<Rightarrow> gng_reason x = ENHANCE_YOUR_CALM | None \<Rightarrow> False)"
          by (auto simp: conn_ok_def closing_ok_def ENHANCE_YOUR_CALM_def NO_ERROR_def split: option.splits)
        have run2: "poll2_go_away ENHANCE_YOUR_CALM (cga_debug_data g) Library ?c1 = (res, c')"
          using run r1 Err \<open>r = Err er\<close> PReset g
          by (auto simp: handle_poll2_result_def act_simps on_streams_def check_def too_many_internal_resets_def split: if_splits)
        then obtain x c2 where h: "call_streams (inner_handle_error (PGoAway (cga_debug_data g) ENHANCE_YOUR_CALM Library)) ?c1
            = (Ok x :: (stream_id, proto_error) result, c2)"
          and ga: "go_away_now_data ENHANCE_YOUR_CALM (cga_debug_data g) c2 = (res, c')"
          using nr run(2)
          by (auto simp: poll2_go_away_def act_simps call_streams_def split: prod.splits result.splits if_splits)
        obtain s2 where s2: "inner_handle_error (PGoAway (cga_debug_data g) ENHANCE_YOUR_CALM Library) s1 = (Ok x :: (stream_id, unit) result, s2)"
          "c2 = c\<lparr>cn_streams := s2\<rparr>"
        proof -
          obtain r3 s3 where r3: "inner_handle_error (PGoAway (cga_debug_data g) ENHANCE_YOUR_CALM Library) s1 = (r3 :: (stream_id, unit) result, s3)"
            by (metis surj_pair)
          with h have "r3 = Ok x" "c2 = c\<lparr>cn_streams := s3\<rparr>" by (auto simp: call_streams_def split: result.splits)
          with r3 that show ?thesis by blast
        qed
        have "perform e H W pick (DoSendReset now sid why) (cn_streams c) = (Ok (), s2)"
          using r1 Err s2(1) g by (simp add: act_simps library_go_away_data_def too_many_internal_resets_def)
        with ok have "on_path e H W pick s0 s2" by (auto simp: conn_ok_def simp del: perform.simps intro: on_path_call)
        with conn_go_away_now_step [OF disjI2 [OF ga] run(2)] s2(2) ok ncl op show ?thesis
          by (auto simp: conn_ok_def conn_rank_def)
      qed (use r1P in simp)
    qed
  qed (use run in \<open>simp add: handle_poll2_result_def\<close>)
qed

lemma poll2_closing_error:
  assumes "gh_close_now (cn_goaway c)" "closing_ok (cn_goaway c)" "poll2 e H W pick now w c = (Err er, c')"
  shows "\<exists>g. gh_going_away (cn_goaway c') = Some g \<and> er = library_go_away (gng_reason g)"
proof -
  obtain r1 c1 where r1: "call_streams (clear_expired_reset_streams now) c = (r1 :: (unit, proto_error) result, c1)" by (metis surj_pair)
  with assms(3) have ok: "r1 = Ok ()" "cn_goaway c1 = cn_goaway c"
    by (auto simp: poll2_def act_simps call_streams_def split: prod.splits result.splits)
  obtain r2 c2 where r2: "poll2_round e H W pick now w c1 = (r2, c2)" by (metis surj_pair)
  note cl = poll2_round_closing [OF _ _ r2]
  from assms r1 ok r2 have "bnd (poll2_round e H W pick now w) (\<lambda>r. case r of
      Some p \<Rightarrow> ret p | None \<Rightarrow> poll2_n (length (cd_frames (cn_codec c1))) e H W pick now w) c1 = (Err er, c')"
    by (simp add: poll2_def seq_apply bnd_apply [of "gets _"])
  with r2 cl assms(1,2) ok show ?thesis by (auto simp: bnd_apply)
qed

theorem poll_round_step:
  assumes ok: "conn_ok e H W pick s0 c" and run: "poll_round e H W pick now w nonce c = (res, c')" "res \<noteq> Panic"
  shows "conn_ok e H W pick s0 c' \<and> (res = Ok None \<longrightarrow> conn_measure c' < conn_measure c)"
proof (cases "cn_state c")
  case ConnOpen
  let ?b = "gh_close_now (cn_goaway c)" and ?k = "length (cd_frames (cn_codec c))" and ?rs = "cd_rounds (cn_codec c)"
  have I: "polling e H W pick s0 ?b ?k ?rs ConnOpen c" using ok ConnOpen by (simp add: polling_def conn_ok_def)
  obtain r1 c1 where r1: "poll2 e H W pick now w c = (r1, c1)" by (metis surj_pair)
  with run ConnOpen have r1P: "r1 \<noteq> Panic" by (auto simp: poll_round_def act_simps)
  note I1 = polling_poll2 [OF I r1 r1P]
  then have ok1: "conn_ok e H W pick s0 c1" "cn_state c1 = ConnOpen" by (simp_all add: polling_def conn_ok_def)
  have m1: "conn_rank c1 = conn_rank c" "length (cd_rounds (cn_codec c1)) = length ?rs" "length (cd_frames (cn_codec c1)) \<le> ?k"
    using I1 ConnOpen by (simp_all add: polling_def conn_rank_def)
  have handle: ?thesis if r: "seq (handle_poll2_result pick now r) (ret None) c1 = (res, c')"
    and reset: "\<exists>sid why i. r = Err (PReset sid why i) \<Longrightarrow> \<not> ?b \<and> length (cd_frames (cn_codec c1)) < ?k"
    and away: "\<And>d why i. r = Err (PGoAway d why i) \<Longrightarrow> ?b \<Longrightarrow> \<exists>g. gh_going_away (cn_goaway c1) = Some g \<and> gng_reason g = why" for r
  proof -
    obtain r2 where r2: "handle_poll2_result pick now r c1 = (r2, c')" "r2 \<noteq> Panic" "res = Ok None \<longrightarrow> r2 = Ok ()"
      using r run(2) by (auto simp: seq_apply split: prod.splits result.splits)
    have cl: "gh_close_now (cn_goaway c1) = ?b" using I1 by (simp add: polling_def)
    from handle_poll2_result_step [OF ok1 r2(1,2)] reset cl away r2(3) m1
    show ?thesis by (fastforce simp: conn_measure_def)
  qed
  show ?thesis
  proof (cases r1)
    case (Ok p)
    show ?thesis
    proof (cases p)
      case Pending
      with Ok run r1 ConnOpen have "poll_idle w nonce c1 = (res, c')" by (simp add: poll_round_def act_simps)
      from poll_idle_step [OF conjunct1 [OF I1] this run(2)] ConnOpen show ?thesis
        by (cases ?rs) (auto simp: conn_measure_def conn_rank_def)
    next
      case (Ready x)
      with Ok run r1 ConnOpen have "seq (handle_poll2_result pick now (Ok ())) (ret None) c1 = (res, c')"
        by (simp add: poll_round_def act_simps)
      from handle [OF this] show ?thesis by simp
    qed
  next
    case (Err er)
    with run r1 ConnOpen have h: "seq (handle_poll2_result pick now (Err er)) (ret None) c1 = (res, c')"
      by (simp add: poll_round_def act_simps)
    show ?thesis
    proof (rule handle [OF h])
      assume "\<exists>sid why i. Err er = Err (PReset sid why i)"
      with I1 Err show "\<not> ?b \<and> length (cd_frames (cn_codec c1)) < ?k"
        by (cases "cd_frames (cn_codec c)") (auto simp: polling_def)
    next
      fix d why i assume "Err er = Err (PGoAway d why i)" ?b
      with poll2_closing_error [of c e H W pick now w er c1] r1 Err ok
      show "\<exists>g. gh_going_away (cn_goaway c1) = Some g \<and> gng_reason g = why" by (auto simp: conn_ok_def library_go_away_def)
    qed
  qed (use r1P in simp)
next
  case (ConnClosing r i)
  with ok run show ?thesis
    by (cases "cd_ready (cn_codec c)")
      (auto simp: poll_round_def act_simps ask_eq set_conn_state_def conn_ok_def conn_measure_def conn_rank_def split: if_splits)
next
  case (ConnClosed r i)
  with ok run show ?thesis
    by (auto simp: poll_round_def act_simps take_error_def conn_ok_def Let_def split: prod.splits option.splits if_splits)
qed

section \<open>Runs of the connection\<close>

lemma conn_poll_ok:
  "conn_ok e H W pick s0 c \<Longrightarrow> conn_poll n e H W pick now w nonce c = (res, c') \<Longrightarrow> res \<noteq> Panic \<Longrightarrow> conn_ok e H W pick s0 c'"
proof (induction n arbitrary: c)
  case (Suc n)
  obtain r1 c1 where r1: "poll_round e H W pick now w nonce c = (r1, c1)" by (metis surj_pair)
  with Suc.prems have "r1 \<noteq> Panic" by (auto simp: bnd_apply)
  from poll_round_step [OF Suc.prems(1) r1 this] have "conn_ok e H W pick s0 c1" by blast
  with Suc r1 show ?case by (auto simp: bnd_apply split: result.splits option.splits)
qed simp

text \<open>The bound on the rounds of \<open>poll\<close> plays no part once it exceeds the measure.\<close>

lemma poll_enough:
  "conn_measure c < n \<Longrightarrow> n \<le> m \<Longrightarrow> closing_ok (cn_goaway c) \<Longrightarrow>
     conn_poll m e H W pick now w nonce c = conn_poll n e H W pick now w nonce c"
proof (induction n arbitrary: m c)
  case (Suc n)
  then obtain m' where m: "m = Suc m'" "n \<le> m'" by (cases m) auto
  obtain res c' where r: "poll_round e H W pick now w nonce c = (res, c')" by (metis surj_pair)
  show ?case
  proof (cases "res = Ok None")
    case True
    have "conn_ok e H W pick (cn_streams c) c" using Suc.prems by (simp add: conn_ok_def on_path_refl)
    from poll_round_step [OF this r] True have "conn_measure c' < conn_measure c" "closing_ok (cn_goaway c')"
      by (simp_all add: conn_ok_def)
    then have "conn_measure c' < n" "closing_ok (cn_goaway c')" using Suc.prems(1) by linarith+
    from Suc.IH [OF this(1) m(2) this(2)] show ?thesis by (subst m(1)) (simp add: bnd_apply r True)
  qed (use r m in \<open>auto simp: bnd_apply split: result.splits option.splits\<close>)
qed simp

text \<open>
  A connection from its start: polls, the wire (frames arrive, the codec becomes ready), calls of the
  application on the streams and its ways to end the connection; none of them panicked.
\<close>

inductive conn_reach ::
  "('m, 'st) ext \<Rightarrow> 'h hmap \<Rightarrow> ('m, 'st, 'h) http \<Rightarrow> ((nat \<rightharpoonup> ('m, 'st, 'h) stream) \<Rightarrow> nat) \<Rightarrow> bytes \<Rightarrow> role \<Rightarrow>
     connection_config \<Rightarrow> ('m, 'st, 'h) codec \<Rightarrow> ('m, 'st, 'h) connection \<Rightarrow> bool"
  for e H W pick nonce r cfg codec where
  start: "conn_reach e H W pick nonce r cfg codec (connection_new nonce r cfg codec)"
| poll: "conn_reach e H W pick nonce r cfg codec c \<Longrightarrow> conn_measure c < n \<Longrightarrow>
    conn_poll n e H W pick now w nonce' c = (res, c') \<Longrightarrow> res \<noteq> Panic \<Longrightarrow> conn_reach e H W pick nonce r cfg codec c'"
| wire: "conn_reach e H W pick nonce r cfg codec c \<Longrightarrow>
    conn_reach e H W pick nonce r cfg codec (c\<lparr>cn_codec := (cn_codec c)\<lparr>cd_frames := cd_frames (cn_codec c) @ fs, cd_end := en,
      cd_ready := bs, cd_rounds := rs\<rparr>\<rparr>)"
| call: "conn_reach e H W pick nonce r cfg codec c \<Longrightarrow> perform e H W pick x (cn_streams c) = (Ok (), s) \<Longrightarrow>
    conn_reach e H W pick nonce r cfg codec (c\<lparr>cn_streams := s\<rparr>)"
| leave: "conn_reach e H W pick nonce r cfg codec c \<Longrightarrow>
    m \<in> {conn_go_away_from_user why, go_away_gracefully, maybe_close_connection_if_no_streams} \<Longrightarrow>
    m c = (Ok () :: (unit, unit) result, c') \<Longrightarrow> conn_reach e H W pick nonce r cfg codec c'"

lemma conn_ok_leave:
  assumes ok: "conn_ok e H W pick s0 c"
    and m: "m \<in> {conn_go_away_from_user why, go_away_gracefully, maybe_close_connection_if_no_streams}"
    and run: "m c = (Ok () :: (unit, unit) result, c')"
  shows "conn_ok e H W pick s0 c'"
proof -
  consider (user) "conn_go_away_from_user why c = (Ok () :: (unit, unit) result, c')"
    | (grace) "go_away_gracefully c = (Ok () :: (unit, unit) result, c')"
    | (maybe) "maybe_close_connection_if_no_streams c = (Ok () :: (unit, unit) result, c')" using m run by auto
  then show ?thesis
  proof cases
    case user
    obtain h where h: "go_away_from_user (go_away_new (last_processed_id c) why) (cn_goaway c) = Ok h"
      using user by (cases "go_away_from_user (go_away_new (last_processed_id c) why) (cn_goaway c)")
        (auto simp: conn_go_away_from_user_def act_simps set_goaway_def)
    let ?c1 = "c\<lparr>cn_goaway := h\<rparr>"
    obtain r1 c1 where r1: "call_streams (inner_handle_error (user_go_away why)) ?c1 = (r1 :: (stream_id, unit) result, c1)"
      by (metis surj_pair)
    with user h obtain x where x: "r1 = Ok x" "c' = c1"
      by (cases r1) (auto simp: conn_go_away_from_user_def act_simps set_goaway_def)
    have "on_path e H W pick s0 (cn_streams ?c1)" using ok by (simp add: conn_ok_def)
    from on_path_calls_step [OF r1 [unfolded x(1)] this] x(2) ok closing_ok_steps(4) [OF _ h] show ?thesis
      by (auto simp: conn_ok_def)
  next
    case grace
    have I: "polling e H W pick s0 (gh_close_now (cn_goaway c)) (length (cd_frames (cn_codec c))) (cd_rounds (cn_codec c)) (cn_state c) c"
      using ok by (simp add: polling_def conn_ok_def)
    have "keeps (polling e H W pick s0 (gh_close_now (cn_goaway c)) (length (cd_frames (cn_codec c))) (cd_rounds (cn_codec c)) (cn_state c))
        (go_away_gracefully :: (_, unit, unit) act)"
      unfolding go_away_gracefully_def by (intro polling_rules)
    from keepsD [OF this I grace] show ?thesis by (simp add: polling_def conn_ok_def)
  next
    case maybe
    then have "c' = c \<or> conn_go_away_now NO_ERROR c = (Ok () :: (unit, unit) result, c')"
      by (auto simp: maybe_close_connection_if_no_streams_def act_simps split: if_splits)
    then show ?thesis
    proof
      assume "conn_go_away_now NO_ERROR c = (Ok () :: (unit, unit) result, c')"
      from conn_go_away_now_step [OF disjI1 [OF this]] ok show ?thesis by (auto simp: conn_ok_def)
    qed (use ok in simp)
  qed
qed

theorem conn_reach_ok:
  assumes "conn_reach e H W pick nonce r cfg codec c"
  shows "conn_ok e H W pick (inner_new r (fst (first_ping nonce cfg))) c"
  using assms
proof induction
  case start
  show ?case by (simp add: conn_ok_def connection_new_def closing_ok_steps(1) on_path_refl)
next
  case (call c x s)
  then have "on_path e H W pick (inner_new r (fst (first_ping nonce cfg))) (cn_streams c)" by (simp add: conn_ok_def)
  from on_path_call [OF this call.hyps(2)] call.IH show ?case by (simp add: conn_ok_def)
next
  case (poll c n now w nonce' res c')
  show ?case by (rule conn_poll_ok [OF poll.IH poll.hyps(3,4)])
next
  case (leave c m why c')
  show ?case by (rule conn_ok_leave [OF leave.IH leave.hyps(2,3)])
qed (simp add: conn_ok_def)

section \<open>The end of a connection\<close>

lemma poll2_closing_reads_nothing:
  assumes "gh_close_now (cn_goaway c)" "closing_ok (cn_goaway c)" "poll2 e H W pick now w c = (res, c')"
  shows "cd_frames (cn_codec c') = cd_frames (cn_codec c)"
proof -
  obtain r1 c1 where r1: "call_streams (clear_expired_reset_streams now) c = (r1 :: (unit, proto_error) result, c1)" by (metis surj_pair)
  then have c1: "cn_goaway c1 = cn_goaway c" "cn_codec c1 = cn_codec c" "r1 = Ok () \<or> r1 = Panic"
    by (auto simp: call_streams_def split: prod.splits result.splits)
  show ?thesis
  proof (cases "r1 = Ok ()")
    case True
    obtain r2 c2 where r2: "poll2_round e H W pick now w c1 = (r2, c2)" by (metis surj_pair)
    from assms r1 True have "bnd (poll2_round e H W pick now w) (\<lambda>r. case r of
        Some p \<Rightarrow> ret p | None \<Rightarrow> poll2_n (length (cd_frames (cn_codec c1))) e H W pick now w) c1 = (res, c')"
      by (simp add: poll2_def seq_apply bnd_apply [of "gets _"])
    with poll2_round_closing [OF _ _ r2] c1 r2 assms(1,2) show ?thesis by (auto simp: bnd_apply)
  next
    case False
    with c1 r1 assms(3) show ?thesis by (auto simp: poll2_def seq_apply)
  qed
qed

text \<open>A GOAWAY that is pending for an error is written, the connection is flushed and closed, and the error comes back.\<close>

lemma pending_go_away_reported:
  assumes st: "cn_state c = ConnOpen" and h: "closing_ok (cn_goaway c)" "gh_pending (cn_goaway c) = Some f"
      "gh_close_now (cn_goaway c)" "\<not> gh_is_user_initiated (cn_goaway c)" "ga_error_code f \<noteq> NO_ERROR"
    and ready: "cd_ready (cn_codec c) = True # True # bs" and er: "cn_error c = None"
    and clear: "clear_expired_reset_streams now (cn_streams c) = (Ok () :: (unit, unit) result, s)"
  shows "\<exists>c'. conn_poll (Suc (Suc (Suc n))) e H W pick now w nonce c = (Err (PGoAway [] (ga_error_code f) Library), c')
    \<and> cn_state c' = ConnClosed (ga_error_code f) Library \<and> cd_buffered (cn_codec c') = cd_buffered (cn_codec c) @ [FGoAway f]"
proof -
  obtain g where g: "gh_going_away (cn_goaway c) = Some g" "gng_reason g = ga_error_code f" using h by (auto simp: closing_ok_def)
  let ?c1 = "c\<lparr>cn_streams := s, cn_codec := (cn_codec c)\<lparr>cd_ready := True # bs, cd_buffered := cd_buffered (cn_codec c) @ [FGoAway f]\<rparr>,
    cn_goaway := (cn_goaway c)\<lparr>gh_pending := None\<rparr>\<rparr>"
  let ?c2 = "?c1\<lparr>cn_state := ConnClosing (ga_error_code f) Library\<rparr>"
  let ?c3 = "?c2\<lparr>cn_codec := (cn_codec ?c1)\<lparr>cd_ready := bs\<rparr>, cn_state := ConnClosed (ga_error_code f) Library\<rparr>"
  have "poll2_round e H W pick now w (c\<lparr>cn_streams := s\<rparr>) = (Err (library_go_away (ga_error_code f)), ?c1)"
    using h ready by (simp add: poll2_round_def poll_go_away_def act_simps ask_eq send_pending_go_away_def buffer_frames_def on_codec_def
        should_close_now_def)
  then have "poll2 e H W pick now w c = (Err (library_go_away (ga_error_code f)), ?c1)"
    using clear by (simp add: poll2_def seq_apply bnd_apply call_streams_def)
  then have 1: "poll_round e H W pick now w nonce c = (Ok None, ?c2)"
    using st g by (simp add: poll_round_def act_simps handle_poll2_result_def library_go_away_def poll2_go_away_def set_conn_state_def)
  have 2: "poll_round e H W pick now w nonce ?c2 = (Ok None, ?c3)"
    by (simp add: poll_round_def act_simps ask_eq set_conn_state_def)
  have 3: "poll_round e H W pick now w nonce ?c3 = (Err (PGoAway [] (ga_error_code f) Library), ?c3)"
    using h er by (simp add: poll_round_def act_simps take_error_def)
  have "conn_poll (Suc (Suc (Suc n))) e H W pick now w nonce c = (Err x, c3)"
    if "poll_round e H W pick now w nonce c = (Ok None, c1)" "poll_round e H W pick now w nonce c1 = (Ok None, c2)"
      "poll_round e H W pick now w nonce c2 = (Err x, c3)" for c1 c2 c3 x
    using that by (simp add: bnd_apply)
  from this [OF 1 2 3] show ?thesis by (intro exI [of _ ?c3]) simp
qed

lemma connection_error_pending:
  assumes ok: "closing_ok (cn_goaway c)" "\<not> gh_close_now (cn_goaway c)" and r: "r \<noteq> NO_ERROR" and st: "cn_state c = ConnOpen"
    and run: "handle_poll2_result pick now (Err (PGoAway d r i)) c = (Ok (), c')"
  shows "closing_ok (cn_goaway c') \<and> gh_close_now (cn_goaway c') \<and> \<not> gh_is_user_initiated (cn_goaway c') \<and> cn_state c' = ConnOpen
    \<and> gh_pending (cn_goaway c') = Some (go_away_with_debug_data (last_processed_id c') r d)"
proof -
  have nr: "\<not> (case gh_going_away (cn_goaway c) of Some g \<Rightarrow> gng_reason g = r | None \<Rightarrow> False)"
    using ok r by (auto simp: closing_ok_def split: option.splits)
  obtain r1 s1 where r1: "inner_handle_error (PGoAway d r i) (cn_streams c) = (r1 :: (stream_id, unit) result, s1)" by (metis surj_pair)
  let ?c1 = "c\<lparr>cn_streams := s1\<rparr>"
  have set: "set_goaway (go_away_now (go_away_with_debug_data (last_processed_id ?c1) r d)) ?c1 = (Ok () :: (unit, proto_error) result, c')"
    using run nr r1 by (cases r1) (auto simp: handle_poll2_result_def poll2_go_away_def act_simps call_streams_def go_away_now_data_def)
  obtain h where h: "go_away_now (go_away_with_debug_data (last_processed_id ?c1) r d) (cn_goaway c) = Ok h" "c' = ?c1\<lparr>cn_goaway := h\<rparr>"
    using set by (auto simp: set_goaway_def act_simps split: result.splits)
  have "gh_pending h = Some (go_away_with_debug_data (last_processed_id ?c1) r d)" "gh_is_user_initiated h = gh_is_user_initiated (cn_goaway c)"
    using h(1) nr by (auto simp: go_away_now_def enqueue_go_away_def go_away_with_debug_data_def Let_def split: option.splits if_splits)
  with closing_ok_steps(3) [OF ok(1) h(1)] h(2) st ok show ?thesis by (auto simp: last_processed_id_def closing_ok_def)
qed

end
