(* ===== verification/Streams_Example.thy ===== *)
theory Streams_Example
  imports Streams_Run Instances
begin

text \<open>
  Concrete parameters for the streams layer: a slab that takes the lowest vacant slot, header maps and
  messages over byte strings, a server that allows two concurrent streams, and the start of a run: a
  request arrives.
\<close>

fun lowest_from :: "nat \<Rightarrow> nat \<Rightarrow> (nat \<rightharpoonup> 'a) \<Rightarrow> nat" where
  "lowest_from i n slab = (if n = 0 \<or> slab i = None then i else lowest_from (i + 1) (n - 1) slab)"

definition lowest_free :: "(nat \<rightharpoonup> 'a) \<Rightarrow> nat" where
  "lowest_free slab = lowest_from 0 (2 ^ 32) slab"

declare lowest_from.simps [simp del]

lemma lowest_from_vacant:
  assumes "i \<le> j" "j < i + n" "slab j = None"
  shows "slab (lowest_from i n slab) = None \<and> lowest_from i n slab < i + n"
  using assms
proof (induction i n slab rule: lowest_from.induct)
  case (1 i n slab)
  show ?case
  proof (cases "slab i = None")
    case True
    with 1 show ?thesis by (simp add: lowest_from.simps)
  next
    case False
    with 1(4) have "i \<noteq> j" by metis
    with False 1 show ?thesis by (subst (1 2) lowest_from.simps) auto
  qed
qed

lemma lowest_free_ok: "pick_ok lowest_free"
  unfolding pick_ok_def
proof (intro allI impI)
  fix slab :: "nat \<rightharpoonup> ('m, 'st, 'h) stream"
  assume fin: "finite (dom slab)" and card: "card (dom slab) < 2 ^ 32"
  have "\<exists>j < 2 ^ 32. slab j = None"
  proof (rule ccontr)
    assume "\<not> ?thesis"
    then have "{..<2 ^ 32} \<subseteq> dom slab" by auto
    from card_mono [OF fin this] card show False by simp
  qed
  then obtain j where "j < 2 ^ 32" "slab j = None" by blast
  from lowest_from_vacant [of 0 j "2 ^ 32" slab] this
  show "slab (lowest_free slab) = None \<and> lowest_free slab < 2 ^ 32" by (simp add: lowest_free_def)
qed

definition ex_http :: "(bytes, nat, (bytes \<times> bytes) list) http" where
  "ex_http = \<lparr>METHOD_CONNECT = str ''CONNECT'', METHOD_HEAD = str ''HEAD'', METHOD_OPTIONS = str ''OPTIONS'',
     STATUS_REQUEST_HEADER_FIELDS_TOO_LARGE = 431, SCHEME_HTTP = str ''http'', scheme_try_from = Some,
     uri_build = (\<lambda>sc au path. Some \<lparr>u_scheme = sc, u_authority = au, u_path_and_query = (case path of Some p \<Rightarrow> p | None \<Rightarrow> [])\<rparr>),
     response_build = (\<lambda>s. s), hm_has_key = (\<lambda>k h. map_of h k \<noteq> None)\<rparr>"

definition ex_cfg :: connection_config where
  "ex_cfg = \<lparr>cfg_initial_connection_window_size = None, cfg_local_max_error_reset_streams = Some 8,
     cfg_local_reset_stream_max = 4, cfg_remote_reset_stream_max = 4, cfg_reset_stream_duration = 30,
     cfg_local_settings = settings_default\<lparr>s_max_concurrent_streams := Some 2\<rparr>, cfg_peer_settings = settings_default,
     cfg_max_recv_buffer_size = 65535, cfg_spa_tracker = None\<rparr>"

definition ex_get :: "stream_id \<Rightarrow> (bytes, nat, (bytes \<times> bytes) list) headers_frame" where
  "ex_get sid = headers_new ex_hmap sid \<lparr>ps_method = Some (str ''GET''), ps_scheme = Some (str ''http''),
     ps_authority = Some (str ''a''), ps_path = Some (str ''/''), ps_protocol = None, ps_status = None\<rparr> []"

definition ex_open :: "(bytes, nat, (bytes \<times> bytes) list) inner" where
  "ex_open = snd (perform ex_ext ex_hmap ex_http lowest_free (DoRecvHeaders 0 (ex_get 1)) (inner_new Server ex_cfg))"

lemma lowest_free_code [code]:
  "lowest_free slab = (if slab 0 = None then 0 else if slab 1 = None then 1 else lowest_from 0 (2 ^ 32) slab)"
  by (simp add: lowest_free_def lowest_from.simps)

lemma lowest_free_0: "slab 0 = None \<Longrightarrow> lowest_free slab = 0"
  by (simp add: lowest_free_def lowest_from.simps)

lemma stream_id_max_value: "STREAM_ID_MAX = 2147483647"
  by (rule word_uint_eqI) (simp add: uint_STREAM_ID_MAX)

lemma get_not_connect: "str ''GET'' \<noteq> str ''CONNECT''" "str ''/'' \<noteq> []"
  by code_simp+

lemmas open_run = quietly_def inner_recv_headers_def insert_or_create_def can_open_def act_simps find_mut_def store_insert_eq
  recv_headers_on_def recv_recv_headers_def recv_open_stream_def parse_content_length_def deliver_headers_def answer_headers_def
  reset_on_recv_stream_err_def transition_def transition_after_def the_stream_eq on_stream_eq on_state_def on_recv_def push_event_def
  inc_num_recv_streams_eq q_push_eq deref_def ensure_can_open_def is_push_promise_def recv_next_stream_id_def
  can_inc_num_recv_streams_def inner_new_def recv_new_def send_new_def counts_new_def stream_new_def state_default_def
  max_streams_of_def ex_cfg_def settings_default_def convert_poll_message_def frames_to_request_def
  is_extended_protocol_usage_correct_def are_response_headers_in_request_def is_pending_reset_expiration_def stream_is_closed_def is_released_def
  headers_new_def headers_set_end_stream_def headers_is_end_stream_def pseudo_is_informational_def content_length_is_head_def
  is_server_def is_client_def is_client_initiated_def is_server_initiated_def lowest_free_0
  flag_is_end_stream_def END_HEADERS_def END_STREAM_def STREAM_ID_ZERO_def stream_id_max_value
  ex_ext_def ex_hmap_def next_id_def get_not_connect is_push_enabled_def is_extended_connect_protocol_enabled_def

lemma ex_open_run:
  "let (res, s) = perform ex_ext ex_hmap ex_http lowest_free (DoRecvHeaders 0 (ex_get 1)) (inner_new Server ex_cfg)
   in res = Ok () \<and> i_ids s = [(1, 0)] \<and> dom (i_slab s) = {0} \<and>
     map_option st_state (i_slab s 0) = Some (Open AwaitingHeaders Streaming)"
  by (simp add: open_run ex_get_def ex_http_def ex_open_def)

lemma ex_open_facts:
  "i_ids ex_open = [(1, 0)]" "dom (i_slab ex_open) = {0}" "map_option st_state (i_slab ex_open 0) = Some (Open AwaitingHeaders Streaming)"
  using ex_open_run by (auto simp: ex_open_def split: prod.splits)

lemma ex_open_reach: "streams_reach ex_ext ex_hmap ex_http lowest_free Server ex_cfg [DoRecvHeaders 0 (ex_get 1)] ex_open"
proof -
  have "perform ex_ext ex_hmap ex_http lowest_free (DoRecvHeaders 0 (ex_get 1)) (inner_new Server ex_cfg) = (Ok (), ex_open)"
    using ex_open_run by (auto simp: ex_open_def simp del: perform.simps split: prod.splits)
  from streams_reach.step [OF streams_reach.start _ this] show ?thesis by (simp add: inner_new_fields)
qed

lemma ex_open_stream: "\<exists>st. deref (i_slab ex_open) \<lparr>key_index = 0, key_stream_id = 1\<rparr> = Some st"
proof -
  have "ids_ok (i_slab ex_open) (i_ids ex_open)"
    using streams_reach_inv [OF lowest_free_ok ex_open_reach] by (simp add: inv_with_def inv_but_def inv_core_def)
  then show ?thesis by (auto simp: ids_ok_def ex_open_facts deref_Some)
qed

lemmas error_run = inner_handle_error_def try_for_each_def recv_handle_error_def send_handle_error_def recv_clear_stream_queue_def
  send_clear_stream_queue_def reclaim_all_capacity_def notify_recv_def move_from_pending_complete_def state_handle_error_def
  unlink_def dec_num_streams_eq store_remove_eq local_stream_def is_local_init_def

lemma ex_open_error: "\<exists>lp s'. inner_handle_error (library_go_away PROTOCOL_ERROR) ex_open = (Ok lp :: (stream_id, unit) result, s')"
  by (simp add: ex_open_def open_run error_run ex_get_def ex_http_def)

end
