(* ===== verification/Connection_Example.thy ===== *)
theory Connection_Example
  imports Connection_Run Streams_Example
begin

text \<open>A server's connection before the first frame, and the same connection after it was told to close.\<close>

definition ex_codec :: "(bytes, nat, (bytes \<times> bytes) list) codec" where
  "ex_codec = \<lparr>cd_read = ex_reader, cd_frames = [], cd_end = WirePending,
     cd_send = \<lparr>send_header_table_size = None, max_send_frame_size = 16384\<rparr>, cd_buffered = [], cd_ready = [True, True], cd_rounds = []\<rparr>"

definition ex_conn :: "(bytes, nat, (bytes \<times> bytes) list) connection" where
  "ex_conn = connection_new [] Server ex_cfg ex_codec"

lemma ex_conn_reach: "conn_reach ex_ext ex_hmap ex_http lowest_free [] Server ex_cfg ex_codec ex_conn"
  unfolding ex_conn_def by (rule conn_reach.start)

definition ex_closing :: "(bytes, nat, (bytes \<times> bytes) list) connection" where
  "ex_closing = ex_conn\<lparr>cn_goaway := \<lparr>gh_close_now = True,
     gh_going_away = Some \<lparr>gng_last_processed_id = 0, gng_reason = NO_ERROR\<rparr>, gh_is_user_initiated = False,
     gh_pending = Some (go_away_new 0 NO_ERROR)\<rparr>\<rparr>"

lemmas conn_run = ex_conn_def connection_new_def first_ping_def ex_cfg_def inner_new_def recv_new_def counts_new_def send_new_def
  STREAM_ID_ZERO_def last_processed_id_def go_away_new_def act_simps

lemma ex_closing_reach: "conn_reach ex_ext ex_hmap ex_http lowest_free [] Server ex_cfg ex_codec ex_closing"
proof (rule conn_reach.leave [OF ex_conn_reach])
  show "maybe_close_connection_if_no_streams ex_conn = (Ok () :: (unit, unit) result, ex_closing)"
    by (simp add: maybe_close_connection_if_no_streams_def has_streams_or_other_references_def has_streams_def conn_go_away_now_def
        set_goaway_def go_away_now_def enqueue_go_away_def go_away_handler_new_def ex_closing_def conn_run)
qed simp

lemma ex_conn_error:
  "\<exists>c1 s. handle_poll2_result lowest_free 0 (Err (PGoAway [] PROTOCOL_ERROR Library)) ex_conn = (Ok (), c1)
    \<and> cd_ready (cn_codec c1) = [True, True] \<and> cn_error c1 = None
    \<and> clear_expired_reset_streams 0 (cn_streams c1) = (Ok () :: (unit, unit) result, s)"
  by (simp add: handle_poll2_result_def poll2_go_away_def call_streams_def inner_handle_error_def try_for_each_def go_away_now_data_def
      go_away_with_debug_data_def set_goaway_def go_away_now_def enqueue_go_away_def go_away_handler_new_def ex_codec_def
      clear_expired_reset_streams_def drain_if_def q_pop_if_def conn_run)

end
