(* ===== verification/Framed_Write.thy ===== *)
theory Framed_Write
  imports Framed_Read Hpack_Codec Proto_Control
begin

text \<open>
  The writing half of the codec (\<open>codec/framed_write.rs\<close>, and the methods of \<open>codec/mod.rs\<close> that forward to
  it): frames are encoded into a buffer, a large DATA payload is kept beside it and written behind it, a long
  header block goes on in CONTINUATION frames, and \<open>flush\<close> hands the bytes to the transport.

  The transport (\<open>AsyncWrite\<close>, with \<open>poll_write_buf\<close> of \<open>tokio_util\<close>) and the capacity of a \<open>BytesMut\<close> are
  parameters. As for the HPACK encoder, \<open>None\<close> is a loop that does not end.
\<close>

section \<open>What the writer relies on\<close>

text \<open>
  \<open>io_write\<close> is asked to write the chunks of a buffer and answers how many bytes it took;
  \<open>poll_write_buf\<close> then advances the buffer by that number.
\<close>

record 'io transport =
  io_write :: "bytes list \<Rightarrow> 'io \<Rightarrow> (nat, io_kind) result poll \<times> 'io"
  io_flush :: "'io \<Rightarrow> (unit, io_kind) result poll \<times> 'io"
  io_shutdown :: "'io \<Rightarrow> (unit, io_kind) result poll \<times> 'io"
  io_is_write_vectored :: "'io \<Rightarrow> bool"

text \<open>
  The capacity of a \<open>BytesMut\<close>, given the old one: after \<open>reserve\<close> (or \<open>with_capacity\<close>, from nothing), for a
  length and the additional bytes, and after bytes were put behind the others.
\<close>

record buf_mut =
  bm_reserve :: "nat \<Rightarrow> nat \<Rightarrow> nat \<Rightarrow> nat"
  bm_put :: "nat \<Rightarrow> bytes \<Rightarrow> bytes \<Rightarrow> nat"

section \<open>Encoding of header frames\<close>

text \<open>\<open>HeaderBlock::into_encoding\<close>: the pseudo headers and fields through the HPACK encoder.\<close>

definition into_encoding ::
  "('m, 'st) ext \<Rightarrow> 'h hmap \<Rightarrow> (hname \<Rightarrow> u64) \<Rightarrow> ('m, 'st, 'h) header_block \<Rightarrow> ('m, 'st) hpack_encoder \<Rightarrow>
     (bytes \<times> ('m, 'st) hpack_encoder) outcome" where
  "into_encoding e H fnv b enc =
     obind (Some (block_iter H b)) (\<lambda>hs. encoder_encode e fnv (map (map_header id id Some) hs) enc [])"

type_synonym continuation = "stream_id \<times> bytes"

text \<open>The frame, what is left for a CONTINUATION, and the HPACK encoder.\<close>

definition headers_encode ::
  "('m, 'st) ext \<Rightarrow> 'h hmap \<Rightarrow> (hname \<Rightarrow> u64) \<Rightarrow> ('m, 'st, 'h) headers_frame \<Rightarrow> ('m, 'st) hpack_encoder \<Rightarrow> nat \<Rightarrow>
     (bytes \<times> continuation option \<times> ('m, 'st) hpack_encoder) outcome" where
  "headers_encode e H fnv f enc limit =
     (if \<not> flag_is_end_headers (hf_flags f) then Some Panic
      else
        obind (into_encoding e H fnv (hf_block f) enc) (\<lambda>(hpack, enc').
        obind (Some (block_encode (headers_head f) limit [] hpack)) (\<lambda>(frame, rest).
        okay (frame, map_option (Pair (hf_stream_id f)) rest, enc'))))"

definition push_promise_encode ::
  "('m, 'st) ext \<Rightarrow> 'h hmap \<Rightarrow> (hname \<Rightarrow> u64) \<Rightarrow> ('m, 'st, 'h) push_promise_frame \<Rightarrow> ('m, 'st) hpack_encoder \<Rightarrow> nat \<Rightarrow>
     (bytes \<times> continuation option \<times> ('m, 'st) hpack_encoder) outcome" where
  "push_promise_encode e H fnv f enc limit =
     (if \<not> flag_is_end_headers (ppf_flags f) then Some Panic
      else
        obind (into_encoding e H fnv (ppf_block f) enc) (\<lambda>(hpack, enc').
        obind (Some (block_encode (push_promise_head f) limit (put_u32 (ppf_promised_id f)) hpack)) (\<lambda>(frame, rest).
        okay (frame, map_option (Pair (ppf_stream_id f)) rest, enc'))))"

definition continuation_encode :: "continuation \<Rightarrow> nat \<Rightarrow> (bytes \<times> continuation option, unit) result" where
  "continuation_encode c limit =
     rbind (block_encode (continuation_head (fst c)) limit [] (snd c)) (\<lambda>(frame, rest).
     Ok (frame, map_option (Pair (fst c)) rest))"

section \<open>The encoder\<close>

datatype next_frame = NextData data_frame | NextContinuation continuation

text \<open>\<open>fe_buf\<close>, \<open>fe_cap\<close> and \<open>fe_pos\<close> are the buffer with its capacity and the cursor in it.\<close>

record ('m, 'st) frame_encoder =
  fe_hpack :: "('m, 'st) hpack_encoder"
  fe_buf :: bytes
  fe_cap :: nat
  fe_pos :: nat
  fe_next :: "next_frame option"
  fe_last_data_frame :: "data_frame option"
  fe_max_frame_size :: nat
  fe_chain_threshold :: nat
  fe_min_buffer_capacity :: nat

record ('m, 'st, 'io) framed_write =
  fw_inner :: 'io
  fw_final_flush_done :: bool
  fw_encoder :: "('m, 'st) frame_encoder"

definition DEFAULT_BUFFER_CAPACITY :: nat where "DEFAULT_BUFFER_CAPACITY = 16 * 1024"
definition CHAIN_THRESHOLD :: nat where "CHAIN_THRESHOLD = 256"
definition CHAIN_THRESHOLD_WITHOUT_VECTORED_IO :: nat where "CHAIN_THRESHOLD_WITHOUT_VECTORED_IO = 1024"

definition framed_write_new :: "'io transport \<Rightarrow> buf_mut \<Rightarrow> 'io \<Rightarrow> ('m, 'st, 'io) framed_write" where
  "framed_write_new W B io =
     (let chain_threshold = (if io_is_write_vectored W io then CHAIN_THRESHOLD else CHAIN_THRESHOLD_WITHOUT_VECTORED_IO) in
      \<lparr>fw_inner = io, fw_final_flush_done = False,
       fw_encoder = \<lparr>fe_hpack = encoder_default, fe_buf = [], fe_cap = bm_reserve B 0 0 DEFAULT_BUFFER_CAPACITY, fe_pos = 0,
         fe_next = None, fe_last_data_frame = None, fe_max_frame_size = unat DEFAULT_MAX_FRAME_SIZE,
         fe_chain_threshold = chain_threshold, fe_min_buffer_capacity = chain_threshold + HEADER_LEN\<rparr>\<rparr>)"

definition fe_remaining :: "('m, 'st) frame_encoder \<Rightarrow> bytes" where
  "fe_remaining enc = drop (fe_pos enc) (fe_buf enc)"

definition fe_put :: "buf_mut \<Rightarrow> bytes \<Rightarrow> ('m, 'st) frame_encoder \<Rightarrow> ('m, 'st) frame_encoder" where
  "fe_put B bs enc = enc\<lparr>fe_buf := fe_buf enc @ bs, fe_cap := bm_put B (fe_cap enc) (fe_buf enc) bs\<rparr>"

text \<open>\<open>limited_write_buf!\<close>: the room for one frame.\<close>

definition write_limit :: "('m, 'st) frame_encoder \<Rightarrow> nat" where
  "write_limit enc = fe_max_frame_size enc + HEADER_LEN"

definition fe_is_empty :: "('m, 'st) frame_encoder \<Rightarrow> bool" where
  "fe_is_empty enc =
     (case fe_next enc of
        Some (NextData f) \<Rightarrow> d_data f = []
      | _ \<Rightarrow> fe_remaining enc = [])"

definition has_capacity :: "('m, 'st) frame_encoder \<Rightarrow> bool" where
  "has_capacity enc \<longleftrightarrow> fe_next enc = None \<and> fe_cap enc - length (fe_buf enc) \<ge> fe_min_buffer_capacity enc"

text \<open>Whether the loop of \<open>flush\<close> goes on, and the encoder.\<close>

definition unset_frame :: "buf_mut \<Rightarrow> ('m, 'st) frame_encoder \<Rightarrow> (bool \<times> ('m, 'st) frame_encoder, unit) result" where
  "unset_frame B enc =
     (let enc1 = enc\<lparr>fe_pos := 0, fe_buf := [], fe_next := None\<rparr> in
      case fe_next enc of
        Some (NextData f) \<Rightarrow>
          let enc2 = enc1\<lparr>fe_last_data_frame := Some f\<rparr> in
          if fe_is_empty enc2 then Ok (False, enc2) else Panic
      | Some (NextContinuation c) \<Rightarrow>
          rbind (continuation_encode c (write_limit enc1)) (\<lambda>(frame, rest).
          Ok (True, (fe_put B frame enc1)\<lparr>fe_next := map_option NextContinuation rest\<rparr>))
      | None \<Rightarrow> Ok (False, enc1))"

text \<open>An operation that returns no \<open>Result\<close> inside one that does.\<close>

definition infallible :: "'a outcome \<Rightarrow> ('a, 'e) result option" where
  "infallible r = (case r of Some (Ok x) \<Rightarrow> Some (Ok x) | Some _ \<Rightarrow> Some Panic | None \<Rightarrow> None)"

text \<open>DATA: the payload goes into the buffer, or a large one only as far as the buffer is short of the threshold.\<close>

definition buffer_data :: "buf_mut \<Rightarrow> data_frame \<Rightarrow> ('m, 'st) frame_encoder \<Rightarrow> (('m, 'st) frame_encoder, user_error) result" where
  "buffer_data B v enc =
     (let len = length (d_data v) in
      if len > fe_max_frame_size enc then Err PayloadTooBig
      else if len \<ge> fe_chain_threshold enc then
        let enc1 = fe_put B (head_encode (data_head v) len) enc in
        if length (fe_buf enc1) < fe_chain_threshold enc1 then
          if fe_chain_threshold enc1 < length (fe_remaining enc1) then Panic
          else
            let extra_bytes = fe_chain_threshold enc1 - length (fe_remaining enc1) in
            Ok ((fe_put B (take extra_bytes (d_data v)) enc1)
                  \<lparr>fe_next := Some (NextData (v\<lparr>d_data := drop extra_bytes (d_data v)\<rparr>))\<rparr>)
        else Ok (enc1\<lparr>fe_next := Some (NextData v)\<rparr>)
      else Ok ((fe_put B (data_encode_chunk v) enc)\<lparr>fe_last_data_frame := Some (v\<lparr>d_data := []\<rparr>)\<rparr>))"

text \<open>HEADERS and PUSH_PROMISE: the frame goes into the buffer, the rest of the block waits.\<close>

definition buffer_block ::
  "buf_mut \<Rightarrow> (bytes \<times> continuation option \<times> ('m, 'st) hpack_encoder) outcome \<Rightarrow> ('m, 'st) frame_encoder \<Rightarrow>
     (('m, 'st) frame_encoder, user_error) result option" where
  "buffer_block B r enc =
     infallible (obind r (\<lambda>(frame, rest, hpack).
       let enc1 = (fe_put B frame enc)\<lparr>fe_hpack := hpack\<rparr> in
       okay (case rest of Some c \<Rightarrow> enc1\<lparr>fe_next := Some (NextContinuation c)\<rparr> | None \<Rightarrow> enc1)))"

definition fe_buffer ::
  "('m, 'st) ext \<Rightarrow> 'h hmap \<Rightarrow> (hname \<Rightarrow> u64) \<Rightarrow> buf_mut \<Rightarrow> ('m, 'st, 'h) frame \<Rightarrow> ('m, 'st) frame_encoder \<Rightarrow>
     (('m, 'st) frame_encoder, user_error) result option" where
  "fe_buffer e H fnv B item enc =
     (case item of
        FData v \<Rightarrow> Some (buffer_data B v enc)
      | FHeaders v \<Rightarrow> buffer_block B (headers_encode e H fnv v (fe_hpack enc) (write_limit enc)) enc
      | FPushPromise v \<Rightarrow> buffer_block B (push_promise_encode e H fnv v (fe_hpack enc) (write_limit enc)) enc
      | FSettings v \<Rightarrow> Some (Ok (fe_put B (settings_encode v) enc))
      | FGoAway v \<Rightarrow> Some (Ok (fe_put B (go_away_encode v) enc))
      | FPing v \<Rightarrow> Some (Ok (fe_put B (ping_encode v) enc))
      | FWindowUpdate v \<Rightarrow> Some (Ok (fe_put B (window_update_encode v) enc))
      | FPriority _ \<Rightarrow> Some Panic
      | FReset v \<Rightarrow> Some (Ok (fe_put B (reset_encode v) enc)))"

section \<open>Flushing\<close>

text \<open>The chunks offered to the transport, and the buffers advanced over \<open>n\<close> bytes of them.\<close>

definition fe_chunks :: "('m, 'st) frame_encoder \<Rightarrow> bytes list" where
  "fe_chunks enc =
     (case fe_next enc of
        Some (NextData f) \<Rightarrow> [fe_remaining enc, d_data f]
      | _ \<Rightarrow> [fe_remaining enc])"

definition fe_advance :: "nat \<Rightarrow> ('m, 'st) frame_encoder \<Rightarrow> ('m, 'st) frame_encoder" where
  "fe_advance n enc =
     (let k = min n (length (fe_remaining enc)); enc1 = enc\<lparr>fe_pos := fe_pos enc + k\<rparr> in
      case fe_next enc of
        Some (NextData f) \<Rightarrow> enc1\<lparr>fe_next := Some (NextData (f\<lparr>d_data := drop (n - k) (d_data f)\<rparr>))\<rparr>
      | _ \<Rightarrow> enc1)"

partial_function (option) flush_loop ::
  "'io transport \<Rightarrow> buf_mut \<Rightarrow> ('m, 'st) frame_encoder \<Rightarrow> 'io \<Rightarrow>
     ((unit, io_kind) result poll \<times> ('m, 'st) frame_encoder \<times> 'io) option" where
  "flush_loop W B enc io =
     (if \<not> fe_is_empty enc then
        (case io_write W (fe_chunks enc) io of
           (Ready (Ok n), io') \<Rightarrow> flush_loop W B (fe_advance n enc) io'
         | (Ready (Err k), io') \<Rightarrow> Some (Ready (Err k), enc, io')
         | (Ready Panic, io') \<Rightarrow> Some (Ready Panic, enc, io')
         | (Pending, io') \<Rightarrow> Some (Pending, enc, io'))
      else
        (case unset_frame B enc of
           Ok (go_on, enc') \<Rightarrow>
             if go_on then flush_loop W B enc' io
             else (case io_flush W io of (r, io') \<Rightarrow> Some (r, enc', io'))
         | _ \<Rightarrow> Some (Ready Panic, enc, io)))"

definition fw_flush ::
  "'io transport \<Rightarrow> buf_mut \<Rightarrow> ('m, 'st, 'io) framed_write \<Rightarrow> ((unit, io_kind) result poll \<times> ('m, 'st, 'io) framed_write) option" where
  "fw_flush W B w =
     (case flush_loop W B (fw_encoder w) (fw_inner w) of
        Some (r, enc, io) \<Rightarrow> Some (r, w\<lparr>fw_encoder := enc, fw_inner := io\<rparr>)
      | None \<Rightarrow> None)"

definition fw_poll_ready ::
  "'io transport \<Rightarrow> buf_mut \<Rightarrow> ('m, 'st, 'io) framed_write \<Rightarrow> ((unit, io_kind) result poll \<times> ('m, 'st, 'io) framed_write) option" where
  "fw_poll_ready W B w =
     (if has_capacity (fw_encoder w) then Some (Ready (Ok ()), w)
      else
        case fw_flush W B w of
          Some (Ready (Ok u), w') \<Rightarrow>
            if has_capacity (fw_encoder w') then Some (Ready (Ok ()), w') else Some (Pending, w')
        | Some (r, w') \<Rightarrow> Some (r, w')
        | None \<Rightarrow> None)"

definition fw_buffer ::
  "('m, 'st) ext \<Rightarrow> 'h hmap \<Rightarrow> (hname \<Rightarrow> u64) \<Rightarrow> buf_mut \<Rightarrow> ('m, 'st, 'h) frame \<Rightarrow> ('m, 'st, 'io) framed_write \<Rightarrow>
     ((unit, user_error) result \<times> ('m, 'st, 'io) framed_write) option" where
  "fw_buffer e H fnv B item w =
     (case fe_buffer e H fnv B item (fw_encoder w) of
        Some (Ok enc) \<Rightarrow> Some (Ok (), w\<lparr>fw_encoder := enc\<rparr>)
      | Some (Err er) \<Rightarrow> Some (Err er, w)
      | Some Panic \<Rightarrow> Some (Panic, w)
      | None \<Rightarrow> None)"

definition fw_shutdown ::
  "'io transport \<Rightarrow> buf_mut \<Rightarrow> ('m, 'st, 'io) framed_write \<Rightarrow> ((unit, io_kind) result poll \<times> ('m, 'st, 'io) framed_write) option" where
  "fw_shutdown W B w =
     (let close = \<lambda>w. (case io_shutdown W (fw_inner w) of (r, io) \<Rightarrow> (r, w\<lparr>fw_inner := io\<rparr>)) in
      if fw_final_flush_done w then Some (close w)
      else
        case fw_flush W B w of
          Some (Ready (Ok u), w') \<Rightarrow> Some (close (w'\<lparr>fw_final_flush_done := True\<rparr>))
        | r \<Rightarrow> r)"

section \<open>Settings\<close>

definition fw_set_max_frame_size :: "nat \<Rightarrow> ('m, 'st, 'io) framed_write \<Rightarrow> (('m, 'st, 'io) framed_write, unit) result" where
  "fw_set_max_frame_size val w =
     (if val \<le> unat MAX_MAX_FRAME_SIZE then Ok (w\<lparr>fw_encoder := (fw_encoder w)\<lparr>fe_max_frame_size := val\<rparr>\<rparr>) else Panic)"

definition fw_set_header_table_size :: "nat \<Rightarrow> ('m, 'st, 'io) framed_write \<Rightarrow> ('m, 'st, 'io) framed_write" where
  "fw_set_header_table_size val w =
     w\<lparr>fw_encoder := (fw_encoder w)\<lparr>fe_hpack := encoder_update_max_size val (fe_hpack (fw_encoder w))\<rparr>\<rparr>"

definition fw_take_last_data_frame :: "('m, 'st, 'io) framed_write \<Rightarrow> data_frame option \<times> ('m, 'st, 'io) framed_write" where
  "fw_take_last_data_frame w =
     (fe_last_data_frame (fw_encoder w), w\<lparr>fw_encoder := (fw_encoder w)\<lparr>fe_last_data_frame := None\<rparr>\<rparr>)"

definition inc_write_buffer :: "buf_mut \<Rightarrow> nat \<Rightarrow> ('m, 'st, 'io) framed_write \<Rightarrow> ('m, 'st, 'io) framed_write" where
  "inc_write_buffer B n w =
     (let enc = fw_encoder w in
      w\<lparr>fw_encoder := enc\<lparr>fe_cap := bm_reserve B (fe_cap enc) (length (fe_buf enc)) n\<rparr>\<rparr>)"

definition buf_is_empty :: "('m, 'st, 'io) framed_write \<Rightarrow> bool" where
  "buf_is_empty w \<longleftrightarrow> fe_buf (fw_encoder w) = []"

end
