(* ===== verification/Framed_Write_Spec.thy ===== *)
theory Framed_Write_Spec
  imports Framed_Write
begin

text \<open>
  The writer as a queue of bytes: what was written and what is still to be written is, in order, the frames that
  were buffered. Flushing writes a front part of it and, with a transport that ends its answers with
  \<open>Pending\<close> at some point, returns.
\<close>

section \<open>The parameters\<close>

text \<open>
  A transport takes a front part of what it is offered, and nothing when it does not say so. It does not take
  bytes (or no bytes) for ever without being \<open>Pending\<close>: each write that is \<open>Ready\<close> lowers \<open>budget\<close>.
\<close>

definition write_ok :: "('io \<Rightarrow> bytes) \<Rightarrow> ('io \<Rightarrow> nat) \<Rightarrow> bytes \<Rightarrow> 'io \<Rightarrow> (nat, io_kind) result poll \<Rightarrow> 'io \<Rightarrow> bool" where
  "write_ok written budget bs io answer io' =
     (case answer of
        Ready (Ok n) \<Rightarrow> n \<le> length bs \<and> written io' = written io @ take n bs \<and> budget io' < budget io
      | Ready (Err k) \<Rightarrow> written io' = written io
      | Ready Panic \<Rightarrow> False
      | Pending \<Rightarrow> written io' = written io)"

definition transport_ok :: "'io transport \<Rightarrow> ('io \<Rightarrow> bytes) \<Rightarrow> ('io \<Rightarrow> nat) \<Rightarrow> bool" where
  "transport_ok W written budget \<longleftrightarrow>
     (\<forall>bs io. write_ok written budget (concat bs) io (fst (io_write W bs io)) (snd (io_write W bs io)))
   \<and> (\<forall>io. fst (io_flush W io) \<noteq> Ready Panic \<and> written (snd (io_flush W io)) = written io)
   \<and> (\<forall>io. fst (io_shutdown W io) \<noteq> Ready Panic \<and> written (snd (io_shutdown W io)) = written io)"

lemma transport_okD:
  assumes "transport_ok W written budget"
  shows "io_write W bs io = (a, io') \<Longrightarrow> write_ok written budget (concat bs) io a io'"
    and "io_flush W io = (r, io') \<Longrightarrow> r \<noteq> Ready Panic \<and> written io' = written io"
    and "io_shutdown W io = (r, io') \<Longrightarrow> r \<noteq> Ready Panic \<and> written io' = written io"
  using assms unfolding transport_ok_def by (metis fst_conv snd_conv)+

section \<open>What is to be written\<close>

definition continuation_bytes :: "nat \<Rightarrow> continuation \<Rightarrow> bytes" where
  "continuation_bytes limit c =
     (case header_frames (continuation_head (fst c)) limit [] (snd c) of Some (Ok fs) \<Rightarrow> concat fs | _ \<Rightarrow> [])"

definition fe_behind :: "('m, 'st) frame_encoder \<Rightarrow> bytes" where
  "fe_behind enc =
     (case fe_next enc of
        Some (NextData f) \<Rightarrow> d_data f
      | Some (NextContinuation c) \<Rightarrow> continuation_bytes (write_limit enc) c
      | None \<Rightarrow> [])"

definition fe_pending :: "('m, 'st) frame_encoder \<Rightarrow> bytes" where
  "fe_pending enc = fe_remaining enc @ fe_behind enc"

definition encoder_ok :: "('m, 'st) frame_encoder \<Rightarrow> bool" where
  "encoder_ok enc \<longleftrightarrow> fe_pos enc \<le> length (fe_buf enc) \<and> 0 < fe_max_frame_size enc \<and> fe_max_frame_size enc < 2 ^ 24
     \<and> 0 < fe_chain_threshold enc
     \<and> (case fe_next enc of
          Some (NextData f) \<Rightarrow> d_data f = [] \<longrightarrow> fe_remaining enc = []
        | Some (NextContinuation c) \<Rightarrow> valid_stream_id (fst c)
        | None \<Rightarrow> True)"

lemma fe_pending_flushed: "fe_buf enc = [] \<Longrightarrow> fe_next enc = None \<Longrightarrow> fe_pending enc = []"
  by (simp add: fe_pending_def fe_behind_def fe_remaining_def)

text \<open>What flushing leaves alone.\<close>

definition same_settings :: "('m, 'st) frame_encoder \<Rightarrow> ('m, 'st) frame_encoder \<Rightarrow> bool" where
  "same_settings enc enc' \<longleftrightarrow> fe_hpack enc' = fe_hpack enc \<and> fe_max_frame_size enc' = fe_max_frame_size enc
     \<and> fe_chain_threshold enc' = fe_chain_threshold enc \<and> fe_min_buffer_capacity enc' = fe_min_buffer_capacity enc"

lemma same_settings_refl [simp]: "same_settings enc enc"
  by (simp add: same_settings_def)

lemma same_settings_trans: "same_settings a b \<Longrightarrow> same_settings b c \<Longrightarrow> same_settings a c"
  by (simp add: same_settings_def)

lemma header_frames_ok:
  assumes "length extra < n" "n < 2 ^ 24" "flag_is_end_headers (h_flag hd0)" "valid_stream_id (h_stream_id hd0)"
  shows "\<exists>fs. header_frames hd0 (n + HEADER_LEN) extra hpack = Some (Ok fs)"
  using header_frames_spec [of extra "n + HEADER_LEN" hd0 hpack] assms by auto

text \<open>One frame of a block, and the CONTINUATION frames behind it.\<close>

lemma block_encode_frames:
  assumes "length extra < n" "n < 2 ^ 24" "flag_is_end_headers (h_flag hd0)" "valid_stream_id (h_stream_id hd0)"
    and fs: "header_frames hd0 (n + HEADER_LEN) extra hpack = Some (Ok fs)"
  shows "\<exists>frame rest. block_encode hd0 (n + HEADER_LEN) extra hpack = Ok (frame, rest) \<and> frame \<noteq> []
    \<and> concat fs = frame @ (case rest of Some bs \<Rightarrow> continuation_bytes (n + HEADER_LEN) (h_stream_id hd0, bs) | None \<Rightarrow> [])"
proof -
  let ?c = "continuation_head (h_stream_id hd0)"
  have "HEADER_LEN + length extra \<le> n + HEADER_LEN" "n + HEADER_LEN - HEADER_LEN < 2 ^ 24" using assms(1,2) by simp_all
  note eq = block_encode_eq [OF this assms(3), of hpack]
  obtain frame rest where fr: "block_encode hd0 (n + HEADER_LEN) extra hpack = Ok (frame, rest)" "frame \<noteq> []"
    by (simp add: eq Let_def) (metis append_is_Nil_conv head_encode_length length_0_conv zero_neq_numeral)
  have "flag_is_end_headers (h_flag ?c)" "valid_stream_id (h_stream_id ?c)"
    using assms(4) by (simp_all add: continuation_head_def head_new_def flag_is_end_headers_def)
  with header_frames_ok [of "[]" n ?c] assms(1,2) obtain gs where
    "header_frames ?c (n + HEADER_LEN) [] (the rest) = Some (Ok gs)" by auto
  with fs fr show ?thesis
    by (subst (asm) header_frames.simps) (auto simp: continuation_bytes_def split: option.splits)
qed

lemma continuation_encode_frames:
  assumes "0 < n" "n < 2 ^ 24" "valid_stream_id (fst c)"
  shows "\<exists>frame rest. continuation_encode c (n + HEADER_LEN) = Ok (frame, rest) \<and> frame \<noteq> []
    \<and> (\<forall>c'. rest = Some c' \<longrightarrow> fst c' = fst c)
    \<and> continuation_bytes (n + HEADER_LEN) c = frame @ (case rest of Some c' \<Rightarrow> continuation_bytes (n + HEADER_LEN) c' | None \<Rightarrow> [])"
proof -
  let ?h = "continuation_head (fst c)"
  have h: "flag_is_end_headers (h_flag ?h)" "valid_stream_id (h_stream_id ?h)" "h_stream_id ?h = fst c"
    using assms(3) by (simp_all add: continuation_head_def head_new_def flag_is_end_headers_def)
  from header_frames_ok [of "[]" n ?h "snd c"] assms h obtain fs where
    fs: "header_frames ?h (n + HEADER_LEN) [] (snd c) = Some (Ok fs)" by auto
  have "length ([] :: bytes) < n" using assms(1) by simp
  from block_encode_frames [OF this assms(2) h(1,2) fs, unfolded h(3)] obtain frame rest where
    "block_encode ?h (n + HEADER_LEN) [] (snd c) = Ok (frame, rest)" "frame \<noteq> []"
    "concat fs = frame @ (case rest of Some bs \<Rightarrow> continuation_bytes (n + HEADER_LEN) (fst c, bs) | None \<Rightarrow> [])" by blast
  then show ?thesis using fs
    by (auto simp: continuation_encode_def continuation_bytes_def [of _ c] split: option.splits)
qed

section \<open>Flushing\<close>

lemma unset_frame_ok:
  assumes "encoder_ok enc" "fe_is_empty enc"
  shows "\<exists>go_on enc'. unset_frame B enc = Ok (go_on, enc') \<and> encoder_ok enc' \<and> fe_pending enc' = fe_pending enc
    \<and> same_settings enc enc' \<and> (go_on \<longrightarrow> \<not> fe_is_empty enc') \<and> (\<not> go_on \<longrightarrow> fe_buf enc' = [] \<and> fe_next enc' = None)"
proof (cases "fe_next enc")
  case None
  with assms show ?thesis
    by (auto simp: unset_frame_def encoder_ok_def fe_is_empty_def fe_pending_def fe_behind_def fe_remaining_def same_settings_def)
next
  case (Some nx)
  show ?thesis
  proof (cases nx)
    case (NextData f)
    with Some assms show ?thesis
      by (auto simp: unset_frame_def encoder_ok_def fe_is_empty_def fe_pending_def fe_behind_def fe_remaining_def same_settings_def Let_def)
  next
    case (NextContinuation c)
    let ?enc = "enc\<lparr>fe_pos := 0, fe_buf := [], fe_next := None\<rparr>"
    have ok: "0 < fe_max_frame_size enc" "fe_max_frame_size enc < 2 ^ 24" "valid_stream_id (fst c)" "fe_remaining enc = []"
      "0 < fe_chain_threshold enc"
      using assms Some NextContinuation by (auto simp: encoder_ok_def fe_is_empty_def)
    have "fe_max_frame_size enc + HEADER_LEN = write_limit enc" by (simp add: write_limit_def)
    from continuation_encode_frames [OF ok(1-3), unfolded this] obtain frame rest where
      c: "continuation_encode c (write_limit enc) = Ok (frame, rest)" "frame \<noteq> []" "\<And>c'. rest = Some c' \<Longrightarrow> fst c' = fst c"
        "continuation_bytes (write_limit enc) c = frame @ (case rest of Some c' \<Rightarrow> continuation_bytes (write_limit enc) c' | None \<Rightarrow> [])"
      by blast
    let ?enc' = "(fe_put B frame ?enc)\<lparr>fe_next := map_option NextContinuation rest\<rparr>"
    have wl: "write_limit ?enc = write_limit enc" "write_limit ?enc' = write_limit enc" by (simp_all add: write_limit_def fe_put_def)
    have "unset_frame B enc = Ok (True, ?enc')"
      using Some NextContinuation c(1) wl(1) by (simp add: unset_frame_def Let_def)
    moreover have "encoder_ok ?enc'" "\<not> fe_is_empty ?enc'"
      using ok c(2,3) by (auto simp: encoder_ok_def fe_is_empty_def fe_put_def fe_remaining_def split: option.splits)
    moreover have "fe_pending ?enc' = fe_pending enc"
      using Some NextContinuation ok(4) c(4) wl(2) by (cases rest) (simp_all add: fe_pending_def fe_behind_def fe_remaining_def fe_put_def)
    moreover have "same_settings enc ?enc'" by (simp add: same_settings_def fe_put_def)
    ultimately show ?thesis by blast
  qed
qed

lemma fe_advance_ok:
  assumes "encoder_ok enc" "\<not> fe_is_empty enc" "n \<le> length (concat (fe_chunks enc))"
  shows "encoder_ok (fe_advance n enc) \<and> take n (concat (fe_chunks enc)) @ fe_pending (fe_advance n enc) = fe_pending enc
    \<and> same_settings enc (fe_advance n enc)"
proof -
  let ?r = "length (fe_remaining enc)"
  have rem: "?r = length (fe_buf enc) - fe_pos enc" "fe_pos enc \<le> length (fe_buf enc)"
    using assms(1) by (simp_all add: fe_remaining_def encoder_ok_def)
  have adv: "fe_remaining (fe_advance n enc) = drop n (fe_remaining enc)" "same_settings enc (fe_advance n enc)"
    "fe_pos (fe_advance n enc) \<le> length (fe_buf (fe_advance n enc))"
    using rem by (auto simp: fe_advance_def fe_remaining_def same_settings_def Let_def min_def add.commute split: option.split next_frame.split)
  show ?thesis
  proof (cases "\<exists>f. fe_next enc = Some (NextData f)")
    case True
    then obtain f where f: "fe_next enc = Some (NextData f)" by blast
    have b: "fe_behind (fe_advance n enc) = drop (n - ?r) (d_data f)"
      using f by (simp add: fe_advance_def fe_behind_def Let_def min_def)
    have "encoder_ok (fe_advance n enc)"
      using adv f assms(1,2)
      by (auto simp: encoder_ok_def fe_advance_def Let_def fe_is_empty_def same_settings_def min_def split: if_splits)
    then show ?thesis
      using adv f by (cases "n \<le> ?r") (simp_all add: b fe_pending_def fe_chunks_def fe_behind_def [of enc])
  next
    case False
    then have nx: "fe_next (fe_advance n enc) = fe_next enc" and ch: "fe_chunks enc = [fe_remaining enc]"
      by (auto simp: fe_advance_def fe_chunks_def Let_def split: option.split next_frame.split)
    with adv(2) have "fe_behind (fe_advance n enc) = fe_behind enc"
      by (simp add: fe_behind_def write_limit_def same_settings_def split: option.split next_frame.split)
    with adv ch nx False assms(1) show ?thesis
      by (auto simp: fe_pending_def encoder_ok_def same_settings_def split: option.splits next_frame.splits)
  qed
qed

lemma flush_loop_ok:
  assumes W: "transport_ok W written budget" and enc: "encoder_ok enc"
  shows "\<exists>r enc' io'. flush_loop W B enc io = Some (r, enc', io') \<and> written io' @ fe_pending enc' = written io @ fe_pending enc
    \<and> encoder_ok enc' \<and> same_settings enc enc' \<and> r \<noteq> Ready Panic
    \<and> (r = Ready (Ok ()) \<longrightarrow> fe_buf enc' = [] \<and> fe_next enc' = None)"
  using enc
proof (induction "2 * budget io + (if fe_is_empty enc then 1 else 0)" arbitrary: enc io rule: less_induct)
  case less
  show ?case
  proof (cases "fe_is_empty enc")
    case False
    obtain a io1 where w: "io_write W (fe_chunks enc) io = (a, io1)" by fastforce
    note law = transport_okD(1) [OF W w]
    show ?thesis
    proof (cases "\<exists>n. a = Ready (Ok n)")
      case True
      then obtain n where a: "a = Ready (Ok n)" by blast
      with law have n: "n \<le> length (concat (fe_chunks enc))" "written io1 = written io @ take n (concat (fe_chunks enc))"
        "budget io1 < budget io" by (simp_all add: write_ok_def)
      note adv = fe_advance_ok [OF less.prems False n(1)]
      have "2 * budget io1 + (if fe_is_empty (fe_advance n enc) then 1 else 0) < 2 * budget io + (if fe_is_empty enc then 1 else 0)"
        using n(3) by simp
      from less.hyps [OF this] adv obtain r enc' io' where
        "flush_loop W B (fe_advance n enc) io1 = Some (r, enc', io')"
        "written io' @ fe_pending enc' = written io1 @ fe_pending (fe_advance n enc)" "encoder_ok enc'"
        "same_settings (fe_advance n enc) enc'" "r \<noteq> Ready Panic" "r = Ready (Ok ()) \<longrightarrow> fe_buf enc' = [] \<and> fe_next enc' = None"
        by blast
      moreover have "flush_loop W B enc io = flush_loop W B (fe_advance n enc) io1"
        using False w a by (subst flush_loop.simps) simp
      ultimately show ?thesis using adv n(2) same_settings_trans by (metis append.assoc)
    next
      case other: False
      then have "written io1 = written io"
        "\<exists>r. flush_loop W B enc io = Some (r, enc, io1) \<and> r \<noteq> Ready Panic \<and> r \<noteq> Ready (Ok ())"
        using law w False by (auto simp: write_ok_def flush_loop.simps [of W B enc io] split: poll.splits result.splits)
      with less.prems show ?thesis by auto
    qed
  next
    case True
    from unset_frame_ok [OF less.prems True, of B] obtain go_on enc1 where
      u: "unset_frame B enc = Ok (go_on, enc1)" "encoder_ok enc1" "fe_pending enc1 = fe_pending enc" "same_settings enc enc1"
        "go_on \<longrightarrow> \<not> fe_is_empty enc1" "\<not> go_on \<longrightarrow> fe_buf enc1 = [] \<and> fe_next enc1 = None" by blast
    show ?thesis
    proof (cases go_on)
      case go: True
      have "2 * budget io + (if fe_is_empty enc1 then 1 else 0) < 2 * budget io + (if fe_is_empty enc then 1 else 0)"
        using u(5) go True by simp
      from less.hyps [OF this u(2)] u(1,3,4) go True show ?thesis
        by (subst flush_loop.simps) (auto intro: same_settings_trans)
    next
      case False
      obtain r io1 where f: "io_flush W io = (r, io1)" by fastforce
      with u False True transport_okD(2) [OF W f] show ?thesis by (subst flush_loop.simps) simp
    qed
  qed
qed

section \<open>The operations\<close>

lemma fw_flush_ok:
  assumes "transport_ok W written budget" "encoder_ok (fw_encoder w)"
  shows "\<exists>r w'. fw_flush W B w = Some (r, w') \<and> written (fw_inner w') @ fe_pending (fw_encoder w') = written (fw_inner w) @ fe_pending (fw_encoder w)
    \<and> encoder_ok (fw_encoder w') \<and> same_settings (fw_encoder w) (fw_encoder w') \<and> r \<noteq> Ready Panic
    \<and> (r = Ready (Ok ()) \<longrightarrow> fe_buf (fw_encoder w') = [] \<and> fe_next (fw_encoder w') = None)"
  using flush_loop_ok [OF assms, of B "fw_inner w"] by (auto simp: fw_flush_def)

lemma fw_poll_ready_ok:
  assumes "transport_ok W written budget" "encoder_ok (fw_encoder w)"
  shows "\<exists>r w'. fw_poll_ready W B w = Some (r, w')
    \<and> written (fw_inner w') @ fe_pending (fw_encoder w') = written (fw_inner w) @ fe_pending (fw_encoder w)
    \<and> encoder_ok (fw_encoder w') \<and> r \<noteq> Ready Panic \<and> (r = Ready (Ok ()) \<longrightarrow> has_capacity (fw_encoder w'))"
proof (cases "has_capacity (fw_encoder w)")
  case True
  with assms(2) show ?thesis by (simp add: fw_poll_ready_def)
next
  case False
  from fw_flush_ok [OF assms, of B] obtain r w' where
    f: "fw_flush W B w = Some (r, w')" "written (fw_inner w') @ fe_pending (fw_encoder w') = written (fw_inner w) @ fe_pending (fw_encoder w)"
      "encoder_ok (fw_encoder w')" "r \<noteq> Ready Panic" by blast
  with False show ?thesis by (auto simp: fw_poll_ready_def split: poll.splits result.splits)
qed

lemma fw_shutdown_ok:
  assumes "transport_ok W written budget" "encoder_ok (fw_encoder w)"
  shows "\<exists>r w'. fw_shutdown W B w = Some (r, w')
    \<and> written (fw_inner w') @ fe_pending (fw_encoder w') = written (fw_inner w) @ fe_pending (fw_encoder w)
    \<and> encoder_ok (fw_encoder w') \<and> r \<noteq> Ready Panic"
proof -
  have close: "r \<noteq> Ready Panic \<and> written io = written (fw_inner w)" if "io_shutdown W (fw_inner w) = (r, io)" for r io w
    using transport_okD(3) [OF assms(1) that] by simp
  from fw_flush_ok [OF assms, of B] obtain r w' where
    f: "fw_flush W B w = Some (r, w')" "written (fw_inner w') @ fe_pending (fw_encoder w') = written (fw_inner w) @ fe_pending (fw_encoder w)"
      "encoder_ok (fw_encoder w')" "r \<noteq> Ready Panic" by blast
  obtain a io where c: "io_shutdown W (fw_inner w) = (a, io)" by fastforce
  obtain a' io' where c': "io_shutdown W (fw_inner w') = (a', io')" by fastforce
  show ?thesis
    using f assms(2) close [OF c] close [OF c'] c c'
    by (cases "fw_final_flush_done w") (auto simp: fw_shutdown_def Let_def split: poll.splits result.splits)
qed

section \<open>The bytes of a frame\<close>

definition block_bytes :: "head \<Rightarrow> nat \<Rightarrow> bytes \<Rightarrow> (bytes \<times> ('m, 'st) hpack_encoder) outcome \<Rightarrow> bytes" where
  "block_bytes hd0 limit extra r =
     (case r of
        Some (Ok (hpack, _)) \<Rightarrow> (case header_frames hd0 limit extra hpack of Some (Ok fs) \<Rightarrow> concat fs | _ \<Rightarrow> [])
      | _ \<Rightarrow> [])"

definition frame_bytes ::
  "('m, 'st) ext \<Rightarrow> 'h hmap \<Rightarrow> (hname \<Rightarrow> u64) \<Rightarrow> ('m, 'st) frame_encoder \<Rightarrow> ('m, 'st, 'h) frame \<Rightarrow> bytes" where
  "frame_bytes e H fnv enc f =
     (case f of
        FData v \<Rightarrow> data_encode_chunk v
      | FHeaders v \<Rightarrow> block_bytes (headers_head v) (write_limit enc) [] (into_encoding e H fnv (hf_block v) (fe_hpack enc))
      | FPushPromise v \<Rightarrow>
          block_bytes (push_promise_head v) (write_limit enc) (put_u32 (ppf_promised_id v))
            (into_encoding e H fnv (ppf_block v) (fe_hpack enc))
      | FSettings v \<Rightarrow> settings_encode v
      | FGoAway v \<Rightarrow> go_away_encode v
      | FPing v \<Rightarrow> ping_encode v
      | FWindowUpdate v \<Rightarrow> window_update_encode v
      | FPriority _ \<Rightarrow> []
      | FReset v \<Rightarrow> reset_encode v)"

text \<open>A block is for a stream whose id has 31 bits; a PUSH_PROMISE needs room for the promised id.\<close>

definition writable :: "('m, 'st) frame_encoder \<Rightarrow> ('m, 'st, 'h) frame \<Rightarrow> bool" where
  "writable enc f =
     (case f of
        FHeaders v \<Rightarrow> valid_stream_id (hf_stream_id v)
      | FPushPromise v \<Rightarrow> valid_stream_id (ppf_stream_id v) \<and> 4 < fe_max_frame_size enc
      | _ \<Rightarrow> True)"

lemma fe_put_ok:
  assumes "encoder_ok enc" "fe_next enc = None"
  shows "encoder_ok (fe_put B bs enc)" "fe_pending (fe_put B bs enc) = fe_pending enc @ bs"
    "fe_remaining (fe_put B bs enc) = fe_remaining enc @ bs" "fe_next (fe_put B bs enc) = None"
    "write_limit (fe_put B bs enc) = write_limit enc"
  using assms by (auto simp: encoder_ok_def fe_put_def fe_pending_def fe_behind_def fe_remaining_def write_limit_def)

lemma buffer_data_ok:
  assumes ok: "encoder_ok enc" "fe_next enc = None" and b: "buffer_data B v enc = Ok enc'"
  shows "encoder_ok enc' \<and> fe_pending enc' = fe_pending enc @ data_encode_chunk v"
proof -
  let ?h = "head_encode (data_head v) (length (d_data v))"
  let ?enc = "fe_put B ?h enc"
  let ?n = "fe_chain_threshold enc - length (fe_remaining ?enc)"
  note put = fe_put_ok [OF ok, of B]
  have bytes: "data_encode_chunk v = ?h @ d_data v" by (simp add: data_encode_chunk_def)
  have thr: "fe_chain_threshold ?enc = fe_chain_threshold enc" by (simp add: fe_put_def)
  have pend: "fe_pending enc = fe_remaining enc" using ok(2) by (simp add: fe_pending_def fe_behind_def)
  have chained: "encoder_ok (enc1\<lparr>fe_next := Some (NextData f)\<rparr>)
      \<and> fe_pending (enc1\<lparr>fe_next := Some (NextData f)\<rparr>) = fe_remaining enc1 @ d_data f"
    if "encoder_ok enc1" "d_data f \<noteq> []" for enc1 :: "('a, 'b) frame_encoder" and f
    using that by (simp add: encoder_ok_def fe_pending_def fe_behind_def fe_remaining_def)
  consider (extra) "fe_chain_threshold enc \<le> length (d_data v)"
      "enc' = (fe_put B (take ?n (d_data v)) ?enc)\<lparr>fe_next := Some (NextData (v\<lparr>d_data := drop ?n (d_data v)\<rparr>))\<rparr>"
    | (full) "fe_chain_threshold enc \<le> length (d_data v)" "enc' = ?enc\<lparr>fe_next := Some (NextData v)\<rparr>"
    | (small) "enc' = (fe_put B (data_encode_chunk v) enc)\<lparr>fe_last_data_frame := Some (v\<lparr>d_data := []\<rparr>)\<rparr>"
    using b unfolding buffer_data_def Let_def thr by (auto split: if_splits)
  then show ?thesis
  proof cases
    case extra
    have "?n < length (d_data v)" using extra(1) ok(1) by (auto simp: put encoder_ok_def)
    then show ?thesis
      using chained [of "fe_put B (take ?n (d_data v)) ?enc" "v\<lparr>d_data := drop ?n (d_data v)\<rparr>"]
      by (simp add: extra(2) fe_put_ok put bytes pend)
  next
    case full
    with ok(1) have "d_data v \<noteq> []" by (auto simp: encoder_ok_def)
    with chained [of ?enc v] show ?thesis by (simp add: full(2) put bytes pend)
  next
    case small
    with put [of "data_encode_chunk v"] show ?thesis
      by (simp add: encoder_ok_def fe_pending_def fe_behind_def fe_remaining_def)
  qed
qed

text \<open>A header block: its first frame is in the buffer, the others follow as CONTINUATION.\<close>

lemma buffer_block_ok:
  assumes ok: "encoder_ok enc" "fe_next enc = None"
    and hd0: "length extra < fe_max_frame_size enc" "flag_is_end_headers (h_flag hd0)" "valid_stream_id (h_stream_id hd0)"
    and b: "buffer_block B (obind r (\<lambda>(hpack, hp'). obind (Some (block_encode hd0 (write_limit enc) extra hpack)) (\<lambda>(frame, rest).
      okay (frame, map_option (Pair (h_stream_id hd0)) rest, hp')))) enc = Some (Ok enc')"
  shows "encoder_ok enc' \<and> fe_pending enc' = fe_pending enc @ block_bytes hd0 (write_limit enc) extra r"
proof -
  have n: "fe_max_frame_size enc < 2 ^ 24" "fe_max_frame_size enc + HEADER_LEN = write_limit enc"
    using ok(1) by (simp_all add: encoder_ok_def write_limit_def)
  obtain hpack hp' where r: "r = okay (hpack, hp')"
    using b by (auto simp: buffer_block_def obind_def infallible_def split: option.splits result.splits)
  from header_frames_ok [OF hd0(1) n(1) hd0(2,3), of hpack] n(2) obtain fs where
    fs: "header_frames hd0 (fe_max_frame_size enc + HEADER_LEN) extra hpack = Some (Ok fs)" by metis
  from block_encode_frames [OF hd0(1) n(1) hd0(2,3) fs, unfolded n(2)] obtain frame rest where
    f: "block_encode hd0 (write_limit enc) extra hpack = Ok (frame, rest)"
      "concat fs = frame @ (case rest of Some bs \<Rightarrow> continuation_bytes (write_limit enc) (h_stream_id hd0, bs) | None \<Rightarrow> [])" by blast
  let ?enc = "(fe_put B frame enc)\<lparr>fe_hpack := hp'\<rparr>"
  have enc': "enc' = (case rest of Some bs \<Rightarrow> ?enc\<lparr>fe_next := Some (NextContinuation (h_stream_id hd0, bs))\<rparr> | None \<Rightarrow> ?enc)"
    using b r f(1) by (auto simp: buffer_block_def infallible_def Let_def split: option.splits)
  have bytes: "block_bytes hd0 (write_limit enc) extra r = concat fs" using r fs n(2) by (simp add: block_bytes_def)
  note put = fe_put_ok [OF ok, of B frame]
  have pend: "fe_pending enc = fe_remaining enc" using ok(2) by (simp add: fe_pending_def fe_behind_def)
  show ?thesis
  proof (cases rest)
    case None
    with put enc' bytes f(2) show ?thesis by (simp add: encoder_ok_def fe_pending_def fe_behind_def fe_remaining_def)
  next
    case (Some bs)
    have "encoder_ok enc'" using Some put(1) hd0(3) enc' by (simp add: encoder_ok_def)
    moreover have "fe_remaining enc' = fe_remaining enc @ frame" "write_limit enc' = write_limit enc"
      "fe_next enc' = Some (NextContinuation (h_stream_id hd0, bs))"
      using Some put(3,5) enc' by (simp_all add: fe_remaining_def write_limit_def)
    ultimately show ?thesis using bytes f(2) pend Some by (simp add: fe_pending_def [of enc'] fe_behind_def)
  qed
qed

lemma buffer_block_Panic [simp]: "buffer_block B (Some Panic) enc = Some Panic"
  by (simp add: buffer_block_def obind_def infallible_def)

lemma fe_buffer_ok:
  assumes ok: "encoder_ok enc" "fe_next enc = None" "writable enc f" and b: "fe_buffer e H fnv B f enc = Some (Ok enc')"
  shows "encoder_ok enc' \<and> fe_pending enc' = fe_pending enc @ frame_bytes e H fnv enc f"
proof (cases f)
  case (FData v)
  with b buffer_data_ok [OF ok(1,2)] show ?thesis by (simp add: fe_buffer_def frame_bytes_def)
next
  case (FHeaders v)
  have "flag_is_end_headers (hf_flags v)"
    using b FHeaders by (rule_tac ccontr) (simp add: fe_buffer_def headers_encode_def)
  moreover have "h_flag (headers_head v) = hf_flags v" "h_stream_id (headers_head v) = hf_stream_id v"
    by (simp_all add: headers_head_def head_new_def)
  ultimately show ?thesis
    using buffer_block_ok [OF ok(1,2), of "[]" "headers_head v" B "into_encoding e H fnv (hf_block v) (fe_hpack enc)" enc'] ok(1,3) b FHeaders
    by (simp add: fe_buffer_def headers_encode_def frame_bytes_def writable_def encoder_ok_def)
next
  case (FPushPromise v)
  have "flag_is_end_headers (ppf_flags v)"
    using b FPushPromise by (rule_tac ccontr) (simp add: fe_buffer_def push_promise_encode_def)
  moreover have "h_flag (push_promise_head v) = ppf_flags v" "h_stream_id (push_promise_head v) = ppf_stream_id v"
    "length (put_u32 (ppf_promised_id v)) = 4"
    by (simp_all add: push_promise_head_def head_new_def put_u32_def)
  ultimately show ?thesis
    using buffer_block_ok [OF ok(1,2), of "put_u32 (ppf_promised_id v)" "push_promise_head v" B
        "into_encoding e H fnv (ppf_block v) (fe_hpack enc)" enc'] ok(1,3) b FPushPromise
    by (simp add: fe_buffer_def push_promise_encode_def frame_bytes_def writable_def)
qed (use b fe_put_ok [OF ok(1,2)] in \<open>auto simp: fe_buffer_def frame_bytes_def\<close>)

section \<open>Any sequence of calls\<close>

text \<open>
  A call on the writer and the bytes of the frame it accepted. A frame is buffered, and the frame size changed,
  when nothing waits behind the buffer, as it is after \<open>poll_ready\<close>.
\<close>

inductive writer_step ::
  "('m, 'st) ext \<Rightarrow> 'h hmap \<Rightarrow> (hname \<Rightarrow> u64) \<Rightarrow> 'io transport \<Rightarrow> buf_mut \<Rightarrow>
     ('m, 'st, 'io) framed_write \<Rightarrow> bytes \<Rightarrow> ('m, 'st, 'io) framed_write \<Rightarrow> bool"
  for e H fnv W B
where
  ready: "fw_poll_ready W B w = Some (r, w') \<Longrightarrow> writer_step e H fnv W B w [] w'"
| flush: "fw_flush W B w = Some (r, w') \<Longrightarrow> writer_step e H fnv W B w [] w'"
| shutdown: "fw_shutdown W B w = Some (r, w') \<Longrightarrow> writer_step e H fnv W B w [] w'"
| accepted: "fe_next (fw_encoder w) = None \<Longrightarrow> writable (fw_encoder w) f \<Longrightarrow> fw_buffer e H fnv B f w = Some (Ok (), w') \<Longrightarrow>
    writer_step e H fnv W B w (frame_bytes e H fnv (fw_encoder w) f) w'"
| refused: "fw_buffer e H fnv B f w = Some (Err er, w') \<Longrightarrow> writer_step e H fnv W B w [] w'"
| take_last: "writer_step e H fnv W B w [] (snd (fw_take_last_data_frame w))"
| reserve: "writer_step e H fnv W B w [] (inc_write_buffer B n w)"
| frame_size: "fe_next (fw_encoder w) = None \<Longrightarrow> 0 < n \<Longrightarrow> fw_set_max_frame_size n w = Ok w' \<Longrightarrow> writer_step e H fnv W B w [] w'"
| table_size: "writer_step e H fnv W B w [] (fw_set_header_table_size n w)"

inductive writer_run ::
  "('m, 'st) ext \<Rightarrow> 'h hmap \<Rightarrow> (hname \<Rightarrow> u64) \<Rightarrow> 'io transport \<Rightarrow> buf_mut \<Rightarrow>
     ('m, 'st, 'io) framed_write \<Rightarrow> bytes \<Rightarrow> ('m, 'st, 'io) framed_write \<Rightarrow> bool"
  for e H fnv W B w
where
  start: "writer_run e H fnv W B w [] w"
| step: "writer_run e H fnv W B w bs w1 \<Longrightarrow> writer_step e H fnv W B w1 cs w2 \<Longrightarrow> writer_run e H fnv W B w (bs @ cs) w2"

lemma framed_write_new_ok:
  "encoder_ok (fw_encoder (framed_write_new W B io))" "fe_pending (fw_encoder (framed_write_new W B io)) = []"
  "fw_inner (framed_write_new W B io) = io"
  by (simp_all add: framed_write_new_def Let_def encoder_ok_def fe_pending_def fe_behind_def fe_remaining_def DEFAULT_MAX_FRAME_SIZE_def
      CHAIN_THRESHOLD_def CHAIN_THRESHOLD_WITHOUT_VECTORED_IO_def)

lemma pending_fields [simp]:
  "encoder_ok (enc\<lparr>fe_cap := c\<rparr>) = encoder_ok enc" "fe_pending (enc\<lparr>fe_cap := c\<rparr>) = fe_pending enc"
  "encoder_ok (enc\<lparr>fe_hpack := hp\<rparr>) = encoder_ok enc" "fe_pending (enc\<lparr>fe_hpack := hp\<rparr>) = fe_pending enc"
  "encoder_ok (enc\<lparr>fe_last_data_frame := d\<rparr>) = encoder_ok enc" "fe_pending (enc\<lparr>fe_last_data_frame := d\<rparr>) = fe_pending enc"
  by (simp_all add: encoder_ok_def fe_pending_def fe_behind_def fe_remaining_def write_limit_def
      cong: option.case_cong next_frame.case_cong)

lemma writer_step_ok:
  assumes W: "transport_ok W written budget" and "writer_step e H fnv W B w bs w'" "encoder_ok (fw_encoder w)"
  shows "written (fw_inner w') @ fe_pending (fw_encoder w') = written (fw_inner w) @ fe_pending (fw_encoder w) @ bs
    \<and> encoder_ok (fw_encoder w')"
  using assms(2,3)
proof (cases rule: writer_step.cases)
  case (ready r)
  with fw_poll_ready_ok [OF W assms(3), of B] show ?thesis by auto
next
  case (flush r)
  with fw_flush_ok [OF W assms(3), of B] show ?thesis by auto
next
  case (shutdown r)
  with fw_shutdown_ok [OF W assms(3), of B] show ?thesis by auto
next
  case (accepted f)
  then obtain enc where enc: "fe_buffer e H fnv B f (fw_encoder w) = Some (Ok enc)" "w' = w\<lparr>fw_encoder := enc\<rparr>"
    by (auto simp: fw_buffer_def split: option.splits result.splits)
  with fe_buffer_ok [OF assms(3) accepted(2,3) enc(1)] accepted(1) show ?thesis by simp
next
  case (refused f er)
  with assms(3) show ?thesis by (auto simp: fw_buffer_def split: option.splits result.splits)
next
  case (frame_size n)
  with assms(3) show ?thesis
    by (auto simp: fw_set_max_frame_size_def encoder_ok_def fe_pending_def fe_behind_def fe_remaining_def MAX_MAX_FRAME_SIZE_def split: if_splits)
qed (use assms(3) in \<open>simp_all add: fw_take_last_data_frame_def inc_write_buffer_def fw_set_header_table_size_def Let_def\<close>)

lemma writer_run_ok:
  assumes W: "transport_ok W written budget" and "writer_run e H fnv W B w bs w'" "encoder_ok (fw_encoder w)"
  shows "written (fw_inner w') @ fe_pending (fw_encoder w') = written (fw_inner w) @ fe_pending (fw_encoder w) @ bs
    \<and> encoder_ok (fw_encoder w')"
  using assms(2,3)
proof (induction rule: writer_run.induct)
  case (step bs w1 cs w2)
  then show ?case using writer_step_ok [OF W step.hyps(2)] by simp
qed simp

end
