(* ===== verification/Codec.thy ===== *)
theory Codec
  imports Framed_Write
begin

text \<open>
  The codec (\<open>codec/mod.rs\<close>): a reader over a writer over the transport. Its methods forward to the two halves.
  The frame limit that \<open>length_delimited::Builder\<close> starts with is an argument (\<open>delim\<close>).
\<close>

record ('m, 'st, 'h, 'io) codec_io =
  ci_read :: "('m, 'st, 'h) framed_read"
  ci_write :: "('m, 'st, 'io) framed_write"

definition codec_with_max_recv_frame_size ::
  "nat \<Rightarrow> 'io transport \<Rightarrow> buf_mut \<Rightarrow> 'io \<Rightarrow> nat \<Rightarrow> (('m, 'st, 'h, 'io) codec_io, unit) result" where
  "codec_with_max_recv_frame_size delim W B io max_frame_size =
     rbind (framed_read_new delim) (\<lambda>inner.
     rbind (set_max_frame_size max_frame_size inner) (\<lambda>inner'.
     Ok \<lparr>ci_read = inner', ci_write = framed_write_new W B io\<rparr>))"

definition codec_new ::
  "nat \<Rightarrow> 'io transport \<Rightarrow> buf_mut \<Rightarrow> 'io \<Rightarrow> (('m, 'st, 'h, 'io) codec_io, unit) result" where
  "codec_new delim W B io = codec_with_max_recv_frame_size delim W B io (unat DEFAULT_MAX_FRAME_SIZE)"

text \<open>A method of the writer, and one that answers a \<open>Poll\<close>.\<close>

definition on_writer ::
  "(('m, 'st, 'io) framed_write \<Rightarrow> ('a \<times> ('m, 'st, 'io) framed_write) option) \<Rightarrow> ('m, 'st, 'h, 'io) codec_io \<Rightarrow>
     ('a \<times> ('m, 'st, 'h, 'io) codec_io) option" where
  "on_writer f c = map_option (\<lambda>(r, w). (r, c\<lparr>ci_write := w\<rparr>)) (f (ci_write c))"

definition codec_poll_ready ::
  "'io transport \<Rightarrow> buf_mut \<Rightarrow> ('m, 'st, 'h, 'io) codec_io \<Rightarrow> ((unit, io_kind) result poll \<times> ('m, 'st, 'h, 'io) codec_io) option" where
  "codec_poll_ready W B = on_writer (fw_poll_ready W B)"

definition codec_flush ::
  "'io transport \<Rightarrow> buf_mut \<Rightarrow> ('m, 'st, 'h, 'io) codec_io \<Rightarrow> ((unit, io_kind) result poll \<times> ('m, 'st, 'h, 'io) codec_io) option" where
  "codec_flush W B = on_writer (fw_flush W B)"

definition codec_shutdown ::
  "'io transport \<Rightarrow> buf_mut \<Rightarrow> ('m, 'st, 'h, 'io) codec_io \<Rightarrow> ((unit, io_kind) result poll \<times> ('m, 'st, 'h, 'io) codec_io) option" where
  "codec_shutdown W B = on_writer (fw_shutdown W B)"

definition codec_buffer ::
  "('m, 'st) ext \<Rightarrow> 'h hmap \<Rightarrow> (hname \<Rightarrow> u64) \<Rightarrow> buf_mut \<Rightarrow> ('m, 'st, 'h) frame \<Rightarrow> ('m, 'st, 'h, 'io) codec_io \<Rightarrow>
     ((unit, user_error) result \<times> ('m, 'st, 'h, 'io) codec_io) option" where
  "codec_buffer e H fnv B item = on_writer (fw_buffer e H fnv B item)"

text \<open>\<open>Sink::start_send\<close>: the error of the user as a \<open>SendError\<close>.\<close>

definition codec_start_send ::
  "('m, 'st) ext \<Rightarrow> 'h hmap \<Rightarrow> (hname \<Rightarrow> u64) \<Rightarrow> buf_mut \<Rightarrow> ('m, 'st, 'h) frame \<Rightarrow> ('m, 'st, 'h, 'io) codec_io \<Rightarrow>
     ((unit, send_error) result \<times> ('m, 'st, 'h, 'io) codec_io) option" where
  "codec_start_send e H fnv B item c = map_option (\<lambda>(r, c'). (map_err SUser r, c')) (codec_buffer e H fnv B item c)"

definition codec_read_next ::
  "('m, 'st) ext \<Rightarrow> 'h hmap \<Rightarrow> bytes list \<Rightarrow> ('m, 'st, 'h, 'io) codec_io \<Rightarrow>
     (('m, 'st, 'h) frame option, proto_error) result \<times> bytes list \<times> ('m, 'st, 'h, 'io) codec_io" where
  "codec_read_next e H bs c = (case poll_next e H bs (ci_read c) of (r, rest, fr) \<Rightarrow> (r, rest, c\<lparr>ci_read := fr\<rparr>))"

section \<open>Settings\<close>

definition codec_set_max_recv_frame_size :: "nat \<Rightarrow> ('m, 'st, 'h, 'io) codec_io \<Rightarrow> (('m, 'st, 'h, 'io) codec_io, unit) result" where
  "codec_set_max_recv_frame_size val c = map_ok (\<lambda>fr. c\<lparr>ci_read := fr\<rparr>) (set_max_frame_size val (ci_read c))"

definition codec_max_send_frame_size :: "('m, 'st, 'h, 'io) codec_io \<Rightarrow> nat" where
  "codec_max_send_frame_size c = fe_max_frame_size (fw_encoder (ci_write c))"

definition codec_set_max_send_frame_size :: "nat \<Rightarrow> ('m, 'st, 'h, 'io) codec_io \<Rightarrow> (('m, 'st, 'h, 'io) codec_io, unit) result" where
  "codec_set_max_send_frame_size val c = map_ok (\<lambda>w. c\<lparr>ci_write := w\<rparr>) (fw_set_max_frame_size val (ci_write c))"

definition codec_set_send_header_table_size :: "nat \<Rightarrow> ('m, 'st, 'h, 'io) codec_io \<Rightarrow> ('m, 'st, 'h, 'io) codec_io" where
  "codec_set_send_header_table_size val c = c\<lparr>ci_write := fw_set_header_table_size val (ci_write c)\<rparr>"

definition codec_set_recv_header_table_size :: "nat \<Rightarrow> ('m, 'st, 'h, 'io) codec_io \<Rightarrow> ('m, 'st, 'h, 'io) codec_io" where
  "codec_set_recv_header_table_size val c = c\<lparr>ci_read := set_header_table_size val (ci_read c)\<rparr>"

definition codec_set_max_recv_header_list_size :: "nat \<Rightarrow> ('m, 'st, 'h, 'io) codec_io \<Rightarrow> (('m, 'st, 'h, 'io) codec_io, unit) result" where
  "codec_set_max_recv_header_list_size val c = map_ok (\<lambda>fr. c\<lparr>ci_read := fr\<rparr>) (set_max_header_list_size val (ci_read c))"

definition codec_take_last_data_frame :: "('m, 'st, 'h, 'io) codec_io \<Rightarrow> data_frame option \<times> ('m, 'st, 'h, 'io) codec_io" where
  "codec_take_last_data_frame c = (case fw_take_last_data_frame (ci_write c) of (f, w) \<Rightarrow> (f, c\<lparr>ci_write := w\<rparr>))"

definition codec_inc_write_buffer :: "buf_mut \<Rightarrow> nat \<Rightarrow> ('m, 'st, 'h, 'io) codec_io \<Rightarrow> ('m, 'st, 'h, 'io) codec_io" where
  "codec_inc_write_buffer B n c = c\<lparr>ci_write := inc_write_buffer B n (ci_write c)\<rparr>"

definition write_buf_empty :: "('m, 'st, 'h, 'io) codec_io \<Rightarrow> bool" where
  "write_buf_empty c = buf_is_empty (ci_write c)"

section \<open>A new codec\<close>

lemma codec_new_Ok:
  assumes "0 < delim"
  shows "\<exists>c. codec_new delim W B io = Ok c \<and> ci_write c = framed_write_new W B io
    \<and> fr_hpack (ci_read c) = hpack_decoder_new DEFAULT_SETTINGS_HEADER_TABLE_SIZE \<and> fr_partial (ci_read c) = None
    \<and> fr_max_header_list_size (ci_read c) = DEFAULT_SETTINGS_MAX_HEADER_LIST_SIZE"
  using assms
  by (simp add: codec_new_def codec_with_max_recv_frame_size_def framed_read_new_def set_max_frame_size_def
      calc_max_continuation_frames_def DEFAULT_MAX_FRAME_SIZE_def MAX_MAX_FRAME_SIZE_def Let_def)

end
