(* ===== verification/Codec_Roundtrip.thy ===== *)
theory Codec_Roundtrip
  imports Framed_Write_Spec Codec
begin

text \<open>
  Both halves of the codec together: a HEADERS frame that one side buffers is the HEADERS frame the other side
  reads, through Iter, the HPACK encoder with its table, the splitting into frames, the collection of
  CONTINUATION frames and the HPACK decoder.
\<close>

lemma fill_names_Some: "fill_names n (map (map_header id id Some) hs) = Some hs"
proof (induction hs arbitrary: n)
  case (Cons h hs)
  then show ?case by (cases h) simp_all
qed simp

text \<open>The HEADERS frames this library builds: on a stream, whole, without padding and priority.\<close>

definition headers_wf :: "('m, 'st, 'h) headers_frame \<Rightarrow> bool" where
  "headers_wf f \<longleftrightarrow> valid_stream_id (hf_stream_id f) \<and> hf_stream_id f \<noteq> 0 \<and> flag_is_end_headers (hf_flags f)
     \<and> \<not> flag_is_padded (hf_flags f) \<and> \<not> flag_is_priority (hf_flags f)"

text \<open>What a receiver with the limit \<open>m\<close> takes: UTF-8 fields that are not connection-specific, in lists below it.\<close>

definition block_sendable :: "('m, 'st) ext \<Rightarrow> 'h hmap \<Rightarrow> nat \<Rightarrow> ('m, 'st, 'h) header_block \<Rightarrow> bool" where
  "block_sendable e H m b \<longleftrightarrow>
     (case block_iter H b of Ok hs \<Rightarrow> (\<forall>h \<in> set hs. sendable e h) \<and> list_size e hs < m | _ \<Rightarrow> False)
     \<and> (\<forall>f \<in> set (hm_list H (hb_fields b)). field_clean e f)"

definition same_message :: "'h hmap \<Rightarrow> ('m, 'st, 'h) headers_frame \<Rightarrow> ('m, 'st, 'h) headers_frame \<Rightarrow> bool" where
  "same_message H f g \<longleftrightarrow> hf_stream_id g = hf_stream_id f \<and> hf_flags g = hf_flags f
     \<and> hb_pseudo (hf_block g) = hb_pseudo (hf_block f)
     \<and> hm_list H (hb_fields (hf_block g)) = hm_list H (hb_fields (hf_block f))
     \<and> \<not> hb_is_over_size (hf_block g)"

lemma block_written_read:
  fixes H :: "'h hmap" and e :: "('m, 'st) ext"
  assumes H: "hmap_ok H" and ext: "ext_status_ok e" and c: "coupled e fnv (he_table enc) d"
    and ups: "\<forall>v \<in> set (size_updates (he_size_update enc)). v \<le> update_limit d \<and> v < 2 ^ 28"
    and b: "block_sendable e H m b"
  shows "\<exists>hpack enc' b' rest d'. into_encoding e H fnv b enc = okay (hpack, enc') \<and> he_size_update enc' = None
    \<and> block_load e H hpack m d (empty_block H) = (Ok (), b', rest, d') \<and> coupled e fnv (he_table enc') d'
    \<and> hb_pseudo b' = hb_pseudo b \<and> hm_list H (hb_fields b') = hm_list H (hb_fields b) \<and> \<not> hb_is_over_size b'"
proof -
  obtain hs where hs: "block_iter H b = Ok hs" "\<forall>h \<in> set hs. sendable e h" "list_size e hs < m"
    "\<forall>f \<in> set (hm_list H (hb_fields b)). field_clean e f"
    using b by (auto simp: block_sendable_def split: result.splits)
  from encode_decode [OF ext c ups fill_names_Some hs(2)] obtain bs enc' d' c' where
    x: "encoder_encode e fnv (map (map_header id id Some) hs) enc [] = okay (bs, enc')"
      "decode e d \<lparr>c_pos = 0, c_inner = bs\<rparr> = (Ok (), hs, (d', c'))" "coupled e fnv (he_table enc') d'" "he_size_update enc' = None"
    by (metis append_Nil)
  let ?s = "fold (load_header e H m) hs (load_start H)"
  have "hm_is_empty H (hm_new H)" using H by (simp add: hmap_ok_def)
  then have start: "\<lparr>bl_reg = \<not> hm_is_empty H (hb_fields (empty_block H)), bl_malformed = False,
      bl_headers_size = calculate_header_list_size e (empty_block H), bl_block = empty_block H\<rparr> = (load_start H :: ('m, 'st, 'h) block_loading)"
    by (simp add: load_start_def empty_block_def calculate_header_list_size_def pseudo_default_def pseudo_size_def)
  with x(2) load_block_iter(1) [OF H hs(1,4,3)]
  have "block_load e H bs m d (empty_block H) = (Ok (), bl_block ?s, c_inner c', d')"
    by (simp add: block_load_def Let_def start)
  with x hs(1) load_block_iter(2-4) [OF H hs(1,4,3)] show ?thesis by (simp add: into_encoding_def)
qed

lemma headers_encoded_read:
  fixes f :: "('m, 'st, 'h) headers_frame" and H :: "'h hmap" and e :: "('m, 'st) ext"
  assumes H: "hmap_ok H" and f: "headers_wf f" and fr: "fr_partial fr = None"
    and load: "block_load e H hpack (fr_max_header_list_size fr) (fr_hpack fr) (empty_block H) = (Ok (), b, rest, d)"
  shows "decode_frame e H (head_encode (headers_head f) (length hpack) @ hpack) fr =
    (Ok (Some (FHeaders \<lparr>hf_stream_id = hf_stream_id f, hf_stream_dep = None, hf_block = b, hf_flags = hf_flags f\<rparr>)),
     fr\<lparr>fr_hpack := d\<rparr>)"
proof -
  have h: "h_kind (headers_head f) = KHeaders" "h_flag (headers_head f) = hf_flags f" "h_stream_id (headers_head f) = hf_stream_id f"
    by (simp_all add: headers_head_def head_new_def)
  have "(headers_load H (headers_head f) hpack :: (('m, 'st, 'h) headers_frame \<times> bytes, frame_error) result) =
    Ok (\<lparr>hf_stream_id = hf_stream_id f, hf_stream_dep = None, hf_block = empty_block H, hf_flags = hf_flags f\<rparr>, hpack)"
    using f by (simp add: headers_load_def h headers_wf_def stream_id_is_zero_def take_pad_len_def drop_padding_def)
  then show ?thesis
    using f fr load
    by (simp add: decode_frame_def head_parse_encode h headers_wf_def decode_kind_def HEADER_LEN_def decode_header_block_def
        cont_load_hpack_def hpack_outcome_def Let_def)
qed

lemma headers_buffered_read:
  assumes H: "hmap_ok H" and ext: "ext_status_ok e"
    and w: "encoder_ok enc" "fe_next enc = None" and c: "coupled e fnv (he_table (fe_hpack enc)) (fr_hpack fr)"
    and ups: "\<forall>v \<in> set (size_updates (he_size_update (fe_hpack enc))). v \<le> update_limit (fr_hpack fr) \<and> v < 2 ^ 28"
    and f: "headers_wf f" "block_sendable e H (fr_max_header_list_size fr) (hf_block f)" and fr: "fr_partial fr = None"
  shows "\<exists>enc' fs g fr'. fe_buffer e H fnv B (FHeaders f) enc = Some (Ok enc')
    \<and> fe_pending enc' = fe_pending enc @ concat fs \<and> encoder_ok enc'
    \<and> (length fs \<le> fr_max_continuation_frames fr + 2 \<longrightarrow> (\<forall>later. poll_next e H (fs @ later) fr = (Ok (Some (FHeaders g)), later, fr')))
    \<and> same_message H f g \<and> coupled e fnv (he_table (fe_hpack enc')) (fr_hpack fr')
    \<and> fr_partial fr' = None \<and> he_size_update (fe_hpack enc') = None"
proof -
  let ?h = "headers_head f" and ?n = "fe_max_frame_size enc"
  have h: "h_kind ?h = KHeaders" "h_flag ?h = hf_flags f" "h_stream_id ?h = hf_stream_id f"
    by (simp_all add: headers_head_def head_new_def)
  have wf: "valid_stream_id (h_stream_id ?h)" "h_stream_id ?h \<noteq> 0" "flag_is_end_headers (h_flag ?h)"
    "\<not> flag_is_padded (h_flag ?h)" "\<not> flag_is_priority (h_flag ?h)"
    using f(1) by (simp_all add: h headers_wf_def)
  have n: "0 < ?n" "?n < 2 ^ 24" "write_limit enc = ?n + HEADER_LEN" using w(1) by (simp_all add: encoder_ok_def write_limit_def)
  from block_written_read [OF H ext c ups f(2)] obtain hpack hp b rest d where
    x: "into_encoding e H fnv (hf_block f) (fe_hpack enc) = okay (hpack, hp)" "he_size_update hp = None"
      "block_load e H hpack (fr_max_header_list_size fr) (fr_hpack fr) (empty_block H) = (Ok (), b, rest, d)"
      "coupled e fnv (he_table hp) d" "hb_pseudo b = hb_pseudo (hf_block f)"
      "hm_list H (hb_fields b) = hm_list H (hb_fields (hf_block f))" "\<not> hb_is_over_size b" by blast
  let ?g = "\<lparr>hf_stream_id = hf_stream_id f, hf_stream_dep = None, hf_block = b, hf_flags = hf_flags f\<rparr>"
  from header_frames_ok [of "[]" ?n ?h hpack] n wf obtain fs where
    fs: "header_frames ?h (write_limit enc) [] hpack = Some (Ok fs)" by auto
  have "length ([] :: bytes) < ?n" using n(1) by simp
  from block_encode_frames [OF this n(2) wf(3,1)] fs n(3) obtain frame rst where
    bl: "block_encode ?h (write_limit enc) [] hpack = Ok (frame, rst)" by metis
  then obtain enc' where enc': "fe_buffer e H fnv B (FHeaders f) enc = Some (Ok enc')" "fe_hpack enc' = hp"
    using x(1) wf(3) h(2)
    by (auto simp: fe_buffer_def headers_encode_def buffer_block_def infallible_def Let_def split: option.splits)
  have "writable enc (FHeaders f)" using wf(1) h(3) by (simp add: writable_def)
  from fe_buffer_ok [OF w this enc'(1)] fs x(1) have p: "encoder_ok enc'" "fe_pending enc' = fe_pending enc @ concat fs"
    by (simp_all add: frame_bytes_def block_bytes_def)
  have "dtable_ok e (dec_table (fr_hpack fr))" "dec_buffer (fr_hpack fr) = []"
    using c by (simp_all add: coupled_def in_sync_def)
  from header_frames_read [OF H this fr h(1) wf(1-5) _ _ fs _ headers_encoded_read [OF H f(1) fr x(3)]] n x(7)
  have "poll_next e H (fs @ later) fr = (Ok (Some (FHeaders ?g)), later, fr\<lparr>fr_hpack := d\<rparr>)"
    if "length fs \<le> fr_max_continuation_frames fr + 2" for later using that by simp
  moreover have "same_message H f ?g" using x(5-7) by (simp add: same_message_def)
  ultimately show ?thesis using enc' p x(2,4) fr
    by (intro exI [of _ enc'] exI [of _ fs] exI [of _ ?g] exI [of _ "fr\<lparr>fr_hpack := d\<rparr>"]) simp
qed

end
