(* ===== verification/Handshake.thy ===== *)
theory Handshake
  imports Codec_Roundtrip Connection
begin

text \<open>
  How a connection starts: the options a user sets (\<open>builder.rs\<close>, with the roles of \<open>client.rs\<close> and
  \<open>server.rs\<close>) and the exchange of the preface and the SETTINGS frames (\<open>preface/mod.rs\<close>).

  \<open>write_all\<close> and \<open>read_exact\<close> of the transport are parameters. The frames that arrive, and what comes after
  them, are arguments, as for the connection. \<open>None\<close> is a handshake that does not return.
\<close>

section \<open>Options\<close>

definition DEFAULT_REMOTE_RESET_COUNT_MAX :: nat where "DEFAULT_REMOTE_RESET_COUNT_MAX = 20"
definition DEFAULT_LOCAL_RESET_COUNT_MAX :: nat where "DEFAULT_LOCAL_RESET_COUNT_MAX = 1024"
definition DEFAULT_RESET_STREAM_MAX :: nat where "DEFAULT_RESET_STREAM_MAX = 50"
definition DEFAULT_RESET_STREAM_SECS :: nat where "DEFAULT_RESET_STREAM_SECS = 1"

text \<open>\<open>bd_role\<close> and \<open>bd_spa_mode\<close> are the type parameter and the options of the role; durations are in seconds.\<close>

record builder =
  bd_initial_connection_window_size :: "u32 option"
  bd_local_max_error_reset_streams :: "nat option"
  bd_reset_stream_duration :: nat
  bd_local_reset_stream_max :: nat
  bd_remote_reset_stream_max :: nat
  bd_role :: role
  bd_spa_mode :: "spa_mode option"
  bd_settings :: settings
  bd_max_recv_buffer_size :: nat

definition builder_new :: "role \<Rightarrow> builder" where
  "builder_new r =
     \<lparr>bd_initial_connection_window_size = None,
      bd_local_max_error_reset_streams = Some DEFAULT_LOCAL_RESET_COUNT_MAX,
      bd_reset_stream_duration = DEFAULT_RESET_STREAM_SECS,
      bd_local_reset_stream_max = DEFAULT_RESET_STREAM_MAX,
      bd_remote_reset_stream_max = DEFAULT_REMOTE_RESET_COUNT_MAX,
      bd_role = r, bd_spa_mode = None,
      bd_settings = set_enable_push False settings_default,
      bd_max_recv_buffer_size = usize_max\<rparr>"

text \<open>The methods that set an option. Only the frame size is checked, by an assertion.\<close>

datatype builder_option =
    InitialConnectionWindowSize u32
  | InitialWindowSize u32
  | MaxFrameSize u32
  | MaxHeaderListSize u32
  | MaxConcurrentStreams u32
  | HeaderTableSize u32
  | MaxConcurrentResetStreams nat
  | ResetStreamDuration nat
  | MaxLocalErrorResetStreams "nat option"
  | MaxPendingAcceptResetStreams nat
  | EnableConnectProtocol
  | MaxRecvBufferSize nat
  | SinglePacketAttackMode spa_mode

fun builder_set :: "builder_option \<Rightarrow> builder \<Rightarrow> (builder, unit) result" where
  "builder_set (InitialConnectionWindowSize n) b = Ok (b\<lparr>bd_initial_connection_window_size := Some n\<rparr>)"
| "builder_set (InitialWindowSize n) b = Ok (b\<lparr>bd_settings := (bd_settings b)\<lparr>s_initial_window_size := Some n\<rparr>\<rparr>)"
| "builder_set (MaxFrameSize n) b =
     map_ok (\<lambda>s. b\<lparr>bd_settings := s\<rparr>) (settings_set_max_frame_size (Some n) (bd_settings b))"
| "builder_set (MaxHeaderListSize n) b = Ok (b\<lparr>bd_settings := (bd_settings b)\<lparr>s_max_header_list_size := Some n\<rparr>\<rparr>)"
| "builder_set (MaxConcurrentStreams n) b = Ok (b\<lparr>bd_settings := (bd_settings b)\<lparr>s_max_concurrent_streams := Some n\<rparr>\<rparr>)"
| "builder_set (HeaderTableSize n) b = Ok (b\<lparr>bd_settings := (bd_settings b)\<lparr>s_header_table_size := Some n\<rparr>\<rparr>)"
| "builder_set (MaxConcurrentResetStreams n) b = Ok (b\<lparr>bd_local_reset_stream_max := n\<rparr>)"
| "builder_set (ResetStreamDuration n) b = Ok (b\<lparr>bd_reset_stream_duration := n\<rparr>)"
| "builder_set (MaxLocalErrorResetStreams n) b = Ok (b\<lparr>bd_local_max_error_reset_streams := n\<rparr>)"
| "builder_set (MaxPendingAcceptResetStreams n) b = Ok (b\<lparr>bd_remote_reset_stream_max := n\<rparr>)"
| "builder_set EnableConnectProtocol b = Ok (b\<lparr>bd_settings := (bd_settings b)\<lparr>s_enable_connect_protocol := Some 1\<rparr>\<rparr>)"
| "builder_set (MaxRecvBufferSize n) b = Ok (b\<lparr>bd_max_recv_buffer_size := n\<rparr>)"
| "builder_set (SinglePacketAttackMode m) b = Ok (b\<lparr>bd_spa_mode := Some m\<rparr>)"

definition take_spa_mode :: "builder \<Rightarrow> spa_mode option" where
  "take_spa_mode b = (case bd_role b of Client \<Rightarrow> bd_spa_mode b | Server \<Rightarrow> None)"

definition build_config :: "builder \<Rightarrow> settings \<Rightarrow> connection_config" where
  "build_config b peer_settings =
     \<lparr>cfg_initial_connection_window_size = bd_initial_connection_window_size b,
      cfg_local_max_error_reset_streams = bd_local_max_error_reset_streams b,
      cfg_local_reset_stream_max = bd_local_reset_stream_max b,
      cfg_remote_reset_stream_max = bd_remote_reset_stream_max b,
      cfg_reset_stream_duration = bd_reset_stream_duration b,
      cfg_local_settings = bd_settings b,
      cfg_peer_settings = peer_settings,
      cfg_max_recv_buffer_size = bd_max_recv_buffer_size b,
      cfg_spa_tracker = map_option spa_tracker_from (take_spa_mode b)\<rparr>"

section \<open>The preface\<close>

definition PREFACE :: bytes where
  "PREFACE = str ''PRI * HTTP/2.0'' @ [13, 10, 13, 10] @ str ''SM'' @ [13, 10, 13, 10]"

datatype preface_error =
    InvalidPreface
  | PrefaceIo string io_kind
  | PrefaceCodec string user_error
  | PrefaceProto string proto_error
  | PrefaceEof
  | WrongFrame kind

record 'io duplex =
  io_write_all :: "bytes \<Rightarrow> 'io \<Rightarrow> (unit, io_kind) result \<times> 'io"
  io_read_exact :: "nat \<Rightarrow> 'io \<Rightarrow> (bytes, io_kind) result \<times> 'io"

text \<open>\<open>await\<close> and \<open>?\<close>: the outcome so far with the codec.\<close>

definition hbind ::
  "(('a, 'e) result \<times> 's) option \<Rightarrow> ('a \<Rightarrow> 's \<Rightarrow> (('b, 'e) result \<times> 's) option) \<Rightarrow> (('b, 'e) result \<times> 's) option" where
  "hbind m f = (case m of
     Some (Ok x, s) \<Rightarrow> f x s | Some (Err er, s) \<Rightarrow> Some (Err er, s) | Some (Panic, s) \<Rightarrow> Some (Panic, s) | None \<Rightarrow> None)"

text \<open>\<open>poll_fn(|cx| codec.flush(cx)).await\<close>: flush is polled until it is ready.\<close>

partial_function (option) await_flush ::
  "'io transport \<Rightarrow> buf_mut \<Rightarrow> ('m, 'st, 'h, 'io) codec_io \<Rightarrow> ((unit, io_kind) result \<times> ('m, 'st, 'h, 'io) codec_io) option" where
  "await_flush W B c =
     (case codec_flush W B c of
        Some (r, c') \<Rightarrow> (case r of Ready x \<Rightarrow> Some (x, c') | Pending \<Rightarrow> await_flush W B c')
      | None \<Rightarrow> None)"

text \<open>A frame is buffered and flushed; the contexts name the step in an error.\<close>

definition send_frame ::
  "('m, 'st) ext \<Rightarrow> 'h hmap \<Rightarrow> (hname \<Rightarrow> u64) \<Rightarrow> 'io transport \<Rightarrow> buf_mut \<Rightarrow> ('m, 'st, 'h) frame \<Rightarrow> string \<Rightarrow> string \<Rightarrow>
     ('m, 'st, 'h, 'io) codec_io \<Rightarrow> ((unit, preface_error) result \<times> ('m, 'st, 'h, 'io) codec_io) option" where
  "send_frame e H fnv W B f buffering flushing c =
     (case codec_buffer e H fnv B f c of
        Some (Ok _, c1) \<Rightarrow> map_option (\<lambda>(r, c2). (map_err (PrefaceIo flushing) r, c2)) (await_flush W B c1)
      | Some (Err er, c1) \<Rightarrow> Some (Err (PrefaceCodec buffering er), c1)
      | Some (Panic, c1) \<Rightarrow> Some (Panic, c1)
      | None \<Rightarrow> None)"

definition send_goaway_response ::
  "('m, 'st) ext \<Rightarrow> 'h hmap \<Rightarrow> (hname \<Rightarrow> u64) \<Rightarrow> 'io transport \<Rightarrow> buf_mut \<Rightarrow> reason \<Rightarrow>
     ('m, 'st, 'h, 'io) codec_io \<Rightarrow> ((unit, preface_error) result \<times> ('m, 'st, 'h, 'io) codec_io) option" where
  "send_goaway_response e H fnv W B r =
     send_frame e H fnv W B (FGoAway (go_away_new STREAM_ID_ZERO r)) ''buffer GOAWAY response'' ''flush GOAWAY response''"

definition read_preface ::
  "'io duplex \<Rightarrow> ('m, 'st, 'h, 'io) codec_io \<Rightarrow> ((unit, preface_error) result \<times> ('m, 'st, 'h, 'io) codec_io) option" where
  "read_preface D c =
     (case io_read_exact D 24 (fw_inner (ci_write c)) of (r, io) \<Rightarrow>
        Some (rbind (map_err (PrefaceIo ''read preface'') r) (\<lambda>buf. if buf \<noteq> PREFACE then Err InvalidPreface else Ok ()),
              c\<lparr>ci_write := (ci_write c)\<lparr>fw_inner := io\<rparr>\<rparr>))"

definition read_peer_settings ::
  "('m, 'st) ext \<Rightarrow> 'h hmap \<Rightarrow> (hname \<Rightarrow> u64) \<Rightarrow> 'io transport \<Rightarrow> buf_mut \<Rightarrow> bytes list \<Rightarrow> wire_end \<Rightarrow>
     ('m, 'st, 'h, 'io) codec_io \<Rightarrow> ((settings, preface_error) result \<times> ('m, 'st, 'h, 'io) codec_io) option" where
  "read_peer_settings e H fnv W B frames wend c =
     (case codec_read_next e H frames c of
        (Ok (Some f), _, c1) \<Rightarrow>
          (case f of FSettings s \<Rightarrow> Some (Ok s, c1) | _ \<Rightarrow> Some (Err (WrongFrame (frame_kind f)), c1))
      | (Ok None, _, c1) \<Rightarrow>
          (case wend of
             WireEof \<Rightarrow> Some (Err PrefaceEof, c1)
           | WireError k msg \<Rightarrow> Some (Err (PrefaceProto ''decode settings frame'' (PIo k msg)), c1)
           | WirePending \<Rightarrow> None)
      | (Err er, _, c1) \<Rightarrow>
          (case er of
             PGoAway d r i \<Rightarrow>
               hbind (send_goaway_response e H fnv W B r c1) (\<lambda>_ c2.
               Some (Err (PrefaceProto ''peer sent GOAWAY'' (library_go_away r)), c2))
           | _ \<Rightarrow> Some (Err (PrefaceProto ''decode settings frame'' er), c1))
      | (Panic, _, c1) \<Rightarrow> Some (Panic, c1))"

definition apply_peer_settings :: "settings \<Rightarrow> ('m, 'st, 'h, 'io) codec_io \<Rightarrow> (('m, 'st, 'h, 'io) codec_io, unit) result" where
  "apply_peer_settings s c =
     (let c1 = (case s_header_table_size s of Some v \<Rightarrow> codec_set_send_header_table_size (unat v) c | None \<Rightarrow> c) in
      case s_max_frame_size s of Some v \<Rightarrow> codec_set_max_send_frame_size (unat v) c1 | None \<Rightarrow> Ok c1)"

text \<open>The steps both sides end with: the settings of the peer are read, applied and acknowledged.\<close>

definition finish_handshake ::
  "('m, 'st) ext \<Rightarrow> 'h hmap \<Rightarrow> (hname \<Rightarrow> u64) \<Rightarrow> 'io transport \<Rightarrow> buf_mut \<Rightarrow> bytes list \<Rightarrow> wire_end \<Rightarrow>
     ('m, 'st, 'h, 'io) codec_io \<Rightarrow> ((settings, preface_error) result \<times> ('m, 'st, 'h, 'io) codec_io) option" where
  "finish_handshake e H fnv W B frames wend c =
     hbind (read_peer_settings e H fnv W B frames wend c) (\<lambda>s c1.
     case apply_peer_settings s c1 of
       Ok c2 \<Rightarrow>
         hbind (send_frame e H fnv W B (FSettings settings_ack) ''buffer settings ack'' ''flush settings ack'' c2) (\<lambda>_ c3.
         Some (Ok s, c3))
     | _ \<Rightarrow> Some (Panic, c1))"

definition send_local_settings ::
  "('m, 'st) ext \<Rightarrow> 'h hmap \<Rightarrow> (hname \<Rightarrow> u64) \<Rightarrow> 'io transport \<Rightarrow> buf_mut \<Rightarrow> settings \<Rightarrow>
     ('m, 'st, 'h, 'io) codec_io \<Rightarrow> ((unit, preface_error) result \<times> ('m, 'st, 'h, 'io) codec_io) option" where
  "send_local_settings e H fnv W B s =
     send_frame e H fnv W B (FSettings s) ''buffer local settings'' ''flush local settings''"

text \<open>An error before there is a codec leaves only the transport.\<close>

definition client_handshake ::
  "('m, 'st) ext \<Rightarrow> 'h hmap \<Rightarrow> (hname \<Rightarrow> u64) \<Rightarrow> nat \<Rightarrow> 'io transport \<Rightarrow> 'io duplex \<Rightarrow> buf_mut \<Rightarrow> 'io \<Rightarrow> settings \<Rightarrow>
     bytes list \<Rightarrow> wire_end \<Rightarrow> ((settings, preface_error) result \<times> ('m, 'st, 'h, 'io) codec_io option) option" where
  "client_handshake e H fnv delim W D B io local_settings frames wend =
     (case io_write_all D PREFACE io of
        (Ok _, io1) \<Rightarrow>
          (case codec_new delim W B io1 of
             Ok codec \<Rightarrow>
               map_option (map_prod id Some)
                 (hbind (send_local_settings e H fnv W B local_settings codec) (\<lambda>_ c1.
                  finish_handshake e H fnv W B frames wend c1))
           | _ \<Rightarrow> Some (Panic, None))
      | (Err k, io1) \<Rightarrow> Some (Err (PrefaceIo ''write preface'' k), None)
      | (Panic, io1) \<Rightarrow> Some (Panic, None))"

definition server_handshake ::
  "('m, 'st) ext \<Rightarrow> 'h hmap \<Rightarrow> (hname \<Rightarrow> u64) \<Rightarrow> nat \<Rightarrow> 'io transport \<Rightarrow> 'io duplex \<Rightarrow> buf_mut \<Rightarrow> 'io \<Rightarrow> settings \<Rightarrow>
     bytes list \<Rightarrow> wire_end \<Rightarrow> ((settings, preface_error) result \<times> ('m, 'st, 'h, 'io) codec_io option) option" where
  "server_handshake e H fnv delim W D B io local_settings frames wend =
     (case codec_new delim W B io of
        Ok codec \<Rightarrow>
          map_option (map_prod id Some)
            (hbind (send_local_settings e H fnv W B local_settings codec) (\<lambda>_ c1.
             hbind (read_preface D c1) (\<lambda>_ c2.
             finish_handshake e H fnv W B frames wend c2)))
      | _ \<Rightarrow> Some (Panic, None))"

definition preface_handshake ::
  "('m, 'st) ext \<Rightarrow> 'h hmap \<Rightarrow> (hname \<Rightarrow> u64) \<Rightarrow> nat \<Rightarrow> 'io transport \<Rightarrow> 'io duplex \<Rightarrow> buf_mut \<Rightarrow> 'io \<Rightarrow> role \<Rightarrow> settings \<Rightarrow>
     bytes list \<Rightarrow> wire_end \<Rightarrow> ((settings, preface_error) result \<times> ('m, 'st, 'h, 'io) codec_io option) option" where
  "preface_handshake e H fnv delim W D B io r =
     (case r of Client \<Rightarrow> client_handshake e H fnv delim W D B io | Server \<Rightarrow> server_handshake e H fnv delim W D B io)"

text \<open>\<open>Builder::handshake\<close>, up to the configuration and the codec the connection is built from.\<close>

definition builder_handshake ::
  "('m, 'st) ext \<Rightarrow> 'h hmap \<Rightarrow> (hname \<Rightarrow> u64) \<Rightarrow> nat \<Rightarrow> 'io transport \<Rightarrow> 'io duplex \<Rightarrow> buf_mut \<Rightarrow> 'io \<Rightarrow> builder \<Rightarrow>
     bytes list \<Rightarrow> wire_end \<Rightarrow> ((connection_config, preface_error) result \<times> ('m, 'st, 'h, 'io) codec_io option) option" where
  "builder_handshake e H fnv delim W D B io b frames wend =
     map_option (map_prod (map_ok (build_config b)) id)
       (preface_handshake e H fnv delim W D B io (bd_role b) (bd_settings b) frames wend)"

end
