(* ===== verification/Handshake_Spec.thy ===== *)
theory Handshake_Spec
  imports Handshake
begin

text \<open>
  What the handshake does on the wire: it returns, without a panic, and when it succeeds the bytes written are
  the preface (of a client), the own SETTINGS and the acknowledgement of the peer's, which came first.
\<close>

section \<open>The parameters\<close>

text \<open>A transport that is not \<open>Pending\<close> for ever: each such answer lowers \<open>patience\<close>.\<close>

definition less_patient :: "('io \<Rightarrow> nat) \<Rightarrow> 'io \<Rightarrow> 'a poll \<Rightarrow> 'io \<Rightarrow> bool" where
  "less_patient patience io r io' \<longleftrightarrow> patience io' \<le> patience io \<and> (r = Pending \<longrightarrow> patience io' < patience io)"

definition patient :: "'io transport \<Rightarrow> ('io \<Rightarrow> nat) \<Rightarrow> bool" where
  "patient W patience \<longleftrightarrow>
     (\<forall>bs io. less_patient patience io (fst (io_write W bs io)) (snd (io_write W bs io)))
   \<and> (\<forall>io. less_patient patience io (fst (io_flush W io)) (snd (io_flush W io)))"

definition duplex_ok :: "'io duplex \<Rightarrow> ('io \<Rightarrow> bytes) \<Rightarrow> bool" where
  "duplex_ok D written \<longleftrightarrow>
     (\<forall>bs io. fst (io_write_all D bs io) \<noteq> Panic
        \<and> (fst (io_write_all D bs io) = Ok () \<longrightarrow> written (snd (io_write_all D bs io)) = written io @ bs))
   \<and> (\<forall>n io. fst (io_read_exact D n io) \<noteq> Panic \<and> written (snd (io_read_exact D n io)) = written io)"

section \<open>Sending\<close>

lemma flush_loop_patient:
  assumes "flush_loop W B enc io = Some y" "patient W patience"
  shows "less_patient patience io (fst y) (snd (snd y))"
proof -
  let ?P = "\<lambda>W B enc io y. patient W patience \<longrightarrow> less_patient patience io (fst y) (snd (snd y))"
  have "?P W B enc io y"
  proof (rule flush_loop.raw_induct [where P = ?P, OF _ assms(1)], rule impI)
    fix f W B enc io y
    assume IH: "\<And>W B enc io y. f W B enc io = Some y \<Longrightarrow> patient W patience \<longrightarrow> less_patient patience io (fst y) (snd (snd y))"
      and step: "(if \<not> fe_is_empty enc then
          (case io_write W (fe_chunks enc) io of
             (Ready (Ok n), io') \<Rightarrow> f W B (fe_advance n enc) io'
           | (Ready (Err k), io') \<Rightarrow> Some (Ready (Err k), enc, io')
           | (Ready Panic, io') \<Rightarrow> Some (Ready Panic, enc, io')
           | (Pending, io') \<Rightarrow> Some (Pending, enc, io'))
        else
          (case unset_frame B enc of
             Ok (go_on, enc') \<Rightarrow>
               if go_on then f W B enc' io else (case io_flush W io of (r, io') \<Rightarrow> Some (r, enc', io'))
           | _ \<Rightarrow> Some (Ready Panic, enc, io))) = Some y"
      and W: "patient W patience"
    show "less_patient patience io (fst y) (snd (snd y))"
    proof (cases "fe_is_empty enc")
      case False
      obtain a io1 where w: "io_write W (fe_chunks enc) io = (a, io1)" by fastforce
      then have "less_patient patience io a io1" using W unfolding patient_def by (metis fst_conv snd_conv)
      moreover have "less_patient patience io1 (fst y) (snd (snd y))" if "a = Ready (Ok n)" for n
        using step False w that IH W by auto
      ultimately show ?thesis using step False w by (auto simp: less_patient_def split: poll.splits result.splits)
    next
      case True
      obtain a io1 where fl: "io_flush W io = (a, io1)" by fastforce
      then have "less_patient patience io a io1" using W unfolding patient_def by (metis fst_conv snd_conv)
      moreover have "less_patient patience io (fst y) (snd (snd y))" if "f W B enc' io = Some y" for enc'
        using IH [OF that] W by blast
      moreover have "less_patient patience io (Ready (Panic :: (unit, io_kind) result)) io" by (simp add: less_patient_def)
      ultimately show ?thesis using step True fl by (auto split: result.splits if_splits)
    qed
  qed
  with assms(2) show ?thesis by blast
qed

text \<open>A codec with nothing to write.\<close>

definition idle :: "('m, 'st, 'h, 'io) codec_io \<Rightarrow> bool" where
  "idle c \<longleftrightarrow> encoder_ok (fw_encoder (ci_write c)) \<and> fe_buf (fw_encoder (ci_write c)) = [] \<and> fe_next (fw_encoder (ci_write c)) = None"

abbreviation wire :: "('m, 'st, 'h, 'io) codec_io \<Rightarrow> 'io" where "wire c \<equiv> fw_inner (ci_write c)"

text \<open>What a side has sent and still has to send, and what sending leaves alone.\<close>

definition sent :: "('io \<Rightarrow> bytes) \<Rightarrow> ('m, 'st, 'h, 'io) codec_io \<Rightarrow> bytes" where
  "sent written c = written (wire c) @ fe_pending (fw_encoder (ci_write c))"

definition same_codec :: "('m, 'st, 'h, 'io) codec_io \<Rightarrow> ('m, 'st, 'h, 'io) codec_io \<Rightarrow> bool" where
  "same_codec c c' \<longleftrightarrow> ci_read c' = ci_read c \<and> fe_max_frame_size (fw_encoder (ci_write c')) = fe_max_frame_size (fw_encoder (ci_write c))"

lemma sent_idle: "idle c \<Longrightarrow> sent written c = written (wire c)"
  by (simp add: sent_def idle_def fe_pending_flushed)

lemma await_flush_ok:
  assumes W: "transport_ok W written budget" "patient W patience" and c: "encoder_ok (fw_encoder (ci_write c))"
  shows "\<exists>r c'. await_flush W B c = Some (r, c') \<and> r \<noteq> Panic \<and> sent written c' = sent written c \<and> same_codec c c'
    \<and> (r = Ok () \<longrightarrow> idle c')"
  using c
proof (induction "patience (wire c)" arbitrary: c rule: less_induct)
  case less
  from fw_flush_ok [OF W(1) less.prems, of B] obtain r w where
    f: "fw_flush W B (ci_write c) = Some (r, w)"
      "written (fw_inner w) @ fe_pending (fw_encoder w) = sent written c" "encoder_ok (fw_encoder w)"
      "same_settings (fw_encoder (ci_write c)) (fw_encoder w)" "r \<noteq> Ready Panic"
      "r = Ready (Ok ()) \<longrightarrow> fe_buf (fw_encoder w) = [] \<and> fe_next (fw_encoder w) = None" by (auto simp: sent_def)
  let ?c = "c\<lparr>ci_write := w\<rparr>"
  have flush: "codec_flush W B c = Some (r, ?c)" using f(1) by (simp add: codec_flush_def on_writer_def)
  have kept: "sent written ?c = sent written c" "same_codec c ?c"
    using f(2,4) by (simp_all add: sent_def same_codec_def same_settings_def)
  show ?case
  proof (cases r)
    case Pending
    from f(1) obtain enc io' where "flush_loop W B (fw_encoder (ci_write c)) (wire c) = Some (r, enc, io')" "fw_inner w = io'"
      by (auto simp: fw_flush_def split: option.splits)
    from flush_loop_patient [OF this(1) W(2)] this(2) Pending have "patience (wire ?c) < patience (wire c)"
      by (simp add: less_patient_def)
    from less.hyps [OF this] f(3) obtain x c' where
      "await_flush W B ?c = Some (x, c')" "x \<noteq> Panic" "sent written c' = sent written ?c" "same_codec ?c c'" "x = Ok () \<longrightarrow> idle c'"
      by auto
    with Pending flush kept show ?thesis by (subst await_flush.simps) (auto simp: same_codec_def)
  next
    case (Ready x)
    with f flush kept show ?thesis by (subst await_flush.simps) (auto simp: idle_def)
  qed
qed

text \<open>The frames that go into the buffer as they are.\<close>

lemma send_frame_ok:
  assumes W: "transport_ok W written budget" "patient W patience" and c: "idle c"
    and f: "\<And>enc. fe_buffer e H fnv B f enc = Some (Ok (fe_put B bs enc))"
  shows "\<exists>r c'. send_frame e H fnv W B f b1 b2 c = Some (r, c') \<and> r \<noteq> Panic \<and> same_codec c c'
    \<and> (r = Ok () \<longrightarrow> idle c' \<and> written (wire c') = written (wire c) @ bs)"
proof -
  let ?enc = "fw_encoder (ci_write c)"
  let ?c = "c\<lparr>ci_write := (ci_write c)\<lparr>fw_encoder := fe_put B bs ?enc\<rparr>\<rparr>"
  have ok: "encoder_ok ?enc" "fe_next ?enc = None" using c by (simp_all add: idle_def)
  have buffered: "codec_buffer e H fnv B f c = Some (Ok (), ?c)" by (simp add: codec_buffer_def on_writer_def fw_buffer_def f)
  note put = fe_put_ok [OF ok, of B bs]
  have "encoder_ok (fw_encoder (ci_write ?c))" using put(1) by simp
  from await_flush_ok [OF W this, of B] obtain r c' where
    a: "await_flush W B ?c = Some (r, c')" "r \<noteq> Panic" "sent written c' = sent written ?c" "same_codec ?c c'" "r = Ok () \<longrightarrow> idle c'"
    by blast
  have "sent written ?c = written (wire c) @ bs" using put(2) sent_idle [OF c, of written] by (simp add: sent_def)
  moreover have "same_codec c c'" using a(4) by (simp add: same_codec_def fe_put_def)
  ultimately show ?thesis
    using a sent_idle [of c' written] buffered by (cases r) (auto simp: send_frame_def)
qed

lemma plain_buffered:
  "fe_buffer e H fnv B (FSettings s) enc = Some (Ok (fe_put B (settings_encode s) enc))"
  "fe_buffer e H fnv B (FGoAway g) enc = Some (Ok (fe_put B (go_away_encode g) enc))"
  by (simp_all add: fe_buffer_def)

section \<open>Reading the settings of the peer\<close>

lemma decode_header_block_plain: "decode_header_block e H hd0 loaded fr \<noteq> (Ok (Some (FSettings s)), fr')"
proof -
  have "cont_frame f \<noteq> FSettings s" for f :: "('a, 'b, 'c) continuable" by (cases f) simp_all
  then show ?thesis
    by (auto simp: decode_header_block_def Let_def split: result.splits frame_error.splits prod.splits if_splits)
qed

lemma decode_continuation_plain: "decode_continuation e H hd0 bs fr \<noteq> (Ok (Some (FSettings s)), fr')"
proof -
  have "frame_from_continuable f \<noteq> FSettings s" for f :: "('a, 'b, 'c) continuable" by (cases f) simp_all
  then show ?thesis
    by (auto simp: decode_continuation_def Let_def split: result.splits option.splits prod.splits if_splits)
qed

lemma decode_settings_wf:
  assumes "decode_frame e H bs fr = (Ok (Some (FSettings s)), fr')"
  shows "settings_wf s"
proof -
  obtain hd0 where "decode_kind e H hd0 bs fr = (Ok (Some (FSettings s)), fr')"
    using assms by (auto simp: decode_frame_def split: result.splits if_splits)
  then have "settings_load hd0 (drop HEADER_LEN bs) = Ok s"
    by (auto simp: decode_kind_def Let_def plain_frame_def decode_priority_def decode_header_block_plain decode_continuation_plain
        split: kind.splits result.splits if_splits frame_error.splits)
  then show ?thesis by (rule settings_load_wf)
qed

lemma poll_next_ok:
  "framed_read_ok e fr \<Longrightarrow> \<forall>f \<in> set frames. 9 \<le> length f \<Longrightarrow> poll_next e H frames fr = (r, rest, fr') \<Longrightarrow>
     r \<noteq> Panic \<and> (\<forall>s. r = Ok (Some (FSettings s)) \<longrightarrow> settings_wf s)"
proof (induction frames arbitrary: fr)
  case (Cons bs frames)
  obtain d fr1 where d: "decode_frame e H bs fr = (d, fr1)" by fastforce
  with decode_frame_ok [OF Cons.prems(1), of bs H] Cons.prems(2) have ok: "d \<noteq> Panic" "framed_read_ok e fr1"
    by (simp_all add: decoded_ok_def)
  show ?case
  proof (cases "d = Ok None")
    case True
    with Cons.IH [OF ok(2)] Cons.prems(2,3) d show ?thesis by simp
  next
    case False
    with d Cons.prems(3) have "r = d" by (auto split: result.splits option.splits)
    with ok(1) d show ?thesis by (auto intro: decode_settings_wf)
  qed
qed auto

lemma read_peer_settings_ok:
  assumes W: "transport_ok W written budget" "patient W patience" and c: "idle c" "framed_read_ok e (ci_read c)"
    and frames: "\<forall>f \<in> set frames. 9 \<le> length f" "wend \<noteq> WirePending"
  shows "\<exists>r c'. read_peer_settings e H fnv W B frames wend c = Some (r, c') \<and> r \<noteq> Panic
    \<and> (\<forall>s. r = Ok s \<longrightarrow> settings_wf s \<and> ci_write c' = ci_write c
         \<and> (\<exists>rest. codec_read_next e H frames c = (Ok (Some (FSettings s)), rest, c')))"
proof -
  obtain x rest fr' where p: "poll_next e H frames (ci_read c) = (x, rest, fr')" by (metis prod_cases3)
  let ?c = "c\<lparr>ci_read := fr'\<rparr>"
  have n: "codec_read_next e H frames c = (x, rest, ?c)" using p by (simp add: codec_read_next_def)
  have x: "x \<noteq> Panic" "\<And>s. x = Ok (Some (FSettings s)) \<Longrightarrow> settings_wf s" using poll_next_ok [OF c(2) frames(1) p] by auto
  have "idle ?c" using c(1) by (simp add: idle_def)
  from send_frame_ok [OF W this plain_buffered(2), of e H fnv B "go_away_new STREAM_ID_ZERO _"]
  have g: "\<exists>u c2. send_goaway_response e H fnv W B r ?c = Some (u, c2) \<and> u \<noteq> Panic" for r
    unfolding send_goaway_response_def by blast
  show ?thesis
  proof (cases x)
    case (Ok o1)
    then show ?thesis using n x(2) frames(2)
      by (cases o1) (auto simp: read_peer_settings_def split: frame.splits wire_end.splits)
  next
    case (Err er)
    show ?thesis
    proof (cases er)
      case (PGoAway d r i)
      with g [of r] n Err show ?thesis by (auto simp: read_peer_settings_def hbind_def split: result.splits)
    qed (use n Err in \<open>simp_all add: read_peer_settings_def\<close>)
  qed (use x(1) in simp)
qed

lemma apply_peer_settings_ok:
  assumes "settings_wf s" "idle c"
  shows "\<exists>c'. apply_peer_settings s c = Ok c' \<and> idle c' \<and> wire c' = wire c
    \<and> codec_max_send_frame_size c' = (case s_max_frame_size s of Some v \<Rightarrow> unat v | None \<Rightarrow> codec_max_send_frame_size c)"
proof -
  let ?c = "case s_header_table_size s of Some v \<Rightarrow> codec_set_send_header_table_size (unat v) c | None \<Rightarrow> c"
  have c: "idle ?c" "wire ?c = wire c" "codec_max_send_frame_size ?c = codec_max_send_frame_size c"
    using assms(2) by (simp_all add: codec_set_send_header_table_size_def fw_set_header_table_size_def idle_def codec_max_send_frame_size_def split: option.split)
  show ?thesis
  proof (cases "s_max_frame_size s")
    case None
    with c show ?thesis by (simp add: apply_peer_settings_def)
  next
    case (Some v)
    then have v: "unat v \<le> unat MAX_MAX_FRAME_SIZE" "0 < unat v" "unat v < 2 ^ 24"
      using assms(1) by (auto simp: settings_wf_def settings_valid_def settings_ack_def settings_default_def word_le_nat_alt DEFAULT_MAX_FRAME_SIZE_def MAX_MAX_FRAME_SIZE_def)
    have "idle (?c\<lparr>ci_write := (ci_write ?c)\<lparr>fw_encoder := (fw_encoder (ci_write ?c))\<lparr>fe_max_frame_size := unat v\<rparr>\<rparr>\<rparr>)"
      using c(1) v by (auto simp: idle_def encoder_ok_def)
    with Some c v(1) show ?thesis
      by (simp add: apply_peer_settings_def Let_def codec_set_max_send_frame_size_def fw_set_max_frame_size_def codec_max_send_frame_size_def)
  qed
qed

section \<open>The handshake\<close>

lemma finish_handshake_ok:
  assumes W: "transport_ok W written budget" "patient W patience" and c: "idle c" "framed_read_ok e (ci_read c)"
    and frames: "\<forall>f \<in> set frames. 9 \<le> length f" "wend \<noteq> WirePending"
  shows "\<exists>r c'. finish_handshake e H fnv W B frames wend c = Some (r, c') \<and> r \<noteq> Panic
    \<and> (\<forall>s. r = Ok s \<longrightarrow> settings_wf s \<and> idle c' \<and> written (wire c') = written (wire c) @ settings_encode settings_ack
         \<and> (\<exists>rest c1. codec_read_next e H frames c = (Ok (Some (FSettings s)), rest, c1))
         \<and> codec_max_send_frame_size c' = (case s_max_frame_size s of Some v \<Rightarrow> unat v | None \<Rightarrow> codec_max_send_frame_size c))"
proof -
  from read_peer_settings_ok [OF W c frames, of H fnv B] obtain r c1 where
    1: "read_peer_settings e H fnv W B frames wend c = Some (r, c1)" "r \<noteq> Panic"
      "\<And>s. r = Ok s \<Longrightarrow> settings_wf s \<and> ci_write c1 = ci_write c
         \<and> (\<exists>rest. codec_read_next e H frames c = (Ok (Some (FSettings s)), rest, c1))" by blast
  show ?thesis
  proof (cases r)
    case (Ok s)
    note s = 1(3) [OF Ok]
    then have "idle c1" using c(1) by (simp add: idle_def)
    from apply_peer_settings_ok [OF _ this] s obtain c2 where
      2: "apply_peer_settings s c1 = Ok c2" "idle c2" "wire c2 = wire c1"
        "codec_max_send_frame_size c2 = (case s_max_frame_size s of Some v \<Rightarrow> unat v | None \<Rightarrow> codec_max_send_frame_size c1)" by blast
    from send_frame_ok [OF W 2(2) plain_buffered(1), of e H fnv B settings_ack] obtain u c3 where
      3: "send_frame e H fnv W B (FSettings settings_ack) ''buffer settings ack'' ''flush settings ack'' c2 = Some (u, c3)" "u \<noteq> Panic"
        "same_codec c2 c3" "u = Ok () \<longrightarrow> idle c3 \<and> written (wire c3) = written (wire c2) @ settings_encode settings_ack" by blast
    have m: "codec_max_send_frame_size c3 = (case s_max_frame_size s of Some v \<Rightarrow> unat v | None \<Rightarrow> codec_max_send_frame_size c)"
      using 2(4) 3(3) s by (simp add: same_codec_def codec_max_send_frame_size_def split: option.splits)
    show ?thesis
      using 1(1) Ok 2(1,3) 3 s m by (cases u) (auto simp: finish_handshake_def hbind_def)
  qed (use 1 in \<open>simp_all add: finish_handshake_def hbind_def\<close>)
qed

text \<open>What the handshake of either side has done when it returns \<open>Ok s\<close> with the codec \<open>c\<close>.\<close>

definition handshake_done :: "('io \<Rightarrow> bytes) \<Rightarrow> 'io duplex \<Rightarrow> 'io \<Rightarrow> role \<Rightarrow> settings \<Rightarrow> settings \<Rightarrow> ('m, 'st, 'h, 'io) codec_io \<Rightarrow> bool" where
  "handshake_done written D io r local_settings s c \<longleftrightarrow>
     settings_wf s \<and> idle c
   \<and> written (wire c) = written io @ (if r = Client then PREFACE else []) @ settings_encode local_settings @ settings_encode settings_ack
   \<and> codec_max_send_frame_size c = (case s_max_frame_size s of Some v \<Rightarrow> unat v | None \<Rightarrow> unat DEFAULT_MAX_FRAME_SIZE)
   \<and> (r = Server \<longrightarrow> (\<exists>io1 io2. io_read_exact D 24 io1 = (Ok PREFACE, io2)))"

lemma new_codec_ok:
  fixes e :: "('m, 'st) ext"
  assumes "0 < delim"
  obtains c :: "('m, 'st, 'h, 'io) codec_io" where "codec_new delim W B io = Ok c" "idle c" "framed_read_ok e (ci_read c)" "wire c = io"
    "codec_max_send_frame_size c = unat DEFAULT_MAX_FRAME_SIZE"
proof -
  from codec_new_Ok [OF assms, of W B io] obtain c :: "('m, 'st, 'h, 'io) codec_io" where
    c: "codec_new delim W B io = Ok c" "ci_write c = framed_write_new W B io"
      "fr_hpack (ci_read c) = hpack_decoder_new DEFAULT_SETTINGS_HEADER_TABLE_SIZE" "fr_partial (ci_read c) = None" by blast
  have "fe_buf (fw_encoder (framed_write_new W B io)) = []" "fe_next (fw_encoder (framed_write_new W B io)) = None"
    "fe_max_frame_size (fw_encoder (framed_write_new W B io)) = unat DEFAULT_MAX_FRAME_SIZE"
    by (simp_all add: framed_write_new_def Let_def)
  then have "idle c" "wire c = io" "codec_max_send_frame_size c = unat DEFAULT_MAX_FRAME_SIZE"
    by (simp_all add: idle_def c(2) framed_write_new_ok codec_max_send_frame_size_def)
  moreover have "framed_read_ok e (ci_read c)" by (simp add: framed_read_ok_def c(3,4) hpack_decoder_new_def dtable_new_ok)
  ultimately show thesis using that [OF c(1)] by blast
qed

lemma duplex_okD:
  assumes "duplex_ok D written"
  shows "io_write_all D bs io = (r, io') \<Longrightarrow> r \<noteq> Panic \<and> (r = Ok () \<longrightarrow> written io' = written io @ bs)"
    and "io_read_exact D n io = (b, io') \<Longrightarrow> b \<noteq> Panic \<and> written io' = written io"
  using assms unfolding duplex_ok_def by (metis fst_conv snd_conv)+

lemma client_handshake_ok:
  fixes e :: "('m, 'st) ext" and H :: "'h hmap"
  assumes W: "transport_ok W written budget" "patient W patience" and D: "duplex_ok D written" and d: "0 < delim"
    and frames: "\<forall>f \<in> set frames. 9 \<le> length f" "wend \<noteq> WirePending"
  shows "\<exists>r c. client_handshake e H fnv delim W D B io loc frames wend = Some (r, c) \<and> r \<noteq> Panic
    \<and> (\<forall>s. r = Ok s \<longrightarrow> (\<exists>c'. c = Some c' \<and> handshake_done written D io Client loc s c'))"
proof -
  obtain p io1 where p: "io_write_all D PREFACE io = (p, io1)" by fastforce
  note pre = duplex_okD(1) [OF D p]
  obtain c :: "('m, 'st, 'h, 'a) codec_io" where c: "codec_new delim W B io1 = Ok c" "idle c" "framed_read_ok e (ci_read c)" "wire c = io1"
    "codec_max_send_frame_size c = unat DEFAULT_MAX_FRAME_SIZE" by (rule new_codec_ok [OF d, where e = e])
  from send_frame_ok [OF W c(2) plain_buffered(1), of e H fnv B loc] obtain u c1 where
    1: "send_local_settings e H fnv W B loc c = Some (u, c1)" "u \<noteq> Panic" "same_codec c c1"
      "u = Ok () \<longrightarrow> idle c1 \<and> written (wire c1) = written (wire c) @ settings_encode loc"
    unfolding send_local_settings_def by blast
  have c1: "framed_read_ok e (ci_read c1)" "codec_max_send_frame_size c1 = unat DEFAULT_MAX_FRAME_SIZE"
    using c(3,5) 1(3) by (simp_all add: same_codec_def codec_max_send_frame_size_def)
  show ?thesis
  proof (cases "p = Ok () \<and> u = Ok ()")
    case True
    with 1(4) have "idle c1" by simp
    from finish_handshake_ok [OF W this c1(1) frames, of H fnv B] obtain r c2 where
      2: "finish_handshake e H fnv W B frames wend c1 = Some (r, c2)" "r \<noteq> Panic"
        "\<And>s. r = Ok s \<Longrightarrow> settings_wf s \<and> idle c2 \<and> written (wire c2) = written (wire c1) @ settings_encode settings_ack
           \<and> codec_max_send_frame_size c2 = (case s_max_frame_size s of Some v \<Rightarrow> unat v | None \<Rightarrow> codec_max_send_frame_size c1)" by blast
    have "client_handshake e H fnv delim W D B io loc frames wend = Some (r, Some c2)"
      using p c(1) 1(1) 2(1) True by (simp add: client_handshake_def hbind_def)
    moreover have "handshake_done written D io Client loc s c2" if "r = Ok s" for s
      using 2(3) [OF that, unfolded c1(2)] 1(4) True pre c(4) by (simp add: handshake_done_def)
    ultimately show ?thesis using 2(2) by auto
  next
    case False
    with p pre c(1) 1(1,2) show ?thesis
      by (cases p; cases u) (auto simp: client_handshake_def hbind_def)
  qed
qed

lemma server_handshake_ok:
  fixes e :: "('m, 'st) ext" and H :: "'h hmap"
  assumes W: "transport_ok W written budget" "patient W patience" and D: "duplex_ok D written" and d: "0 < delim"
    and frames: "\<forall>f \<in> set frames. 9 \<le> length f" "wend \<noteq> WirePending"
  shows "\<exists>r c. server_handshake e H fnv delim W D B io loc frames wend = Some (r, c) \<and> r \<noteq> Panic
    \<and> (\<forall>s. r = Ok s \<longrightarrow> (\<exists>c'. c = Some c' \<and> handshake_done written D io Server loc s c'))"
proof -
  obtain c :: "('m, 'st, 'h, 'a) codec_io" where c: "codec_new delim W B io = Ok c" "idle c" "framed_read_ok e (ci_read c)" "wire c = io"
    "codec_max_send_frame_size c = unat DEFAULT_MAX_FRAME_SIZE" by (rule new_codec_ok [OF d, where e = e])
  from send_frame_ok [OF W c(2) plain_buffered(1), of e H fnv B loc] obtain u c1 where
    1: "send_local_settings e H fnv W B loc c = Some (u, c1)" "u \<noteq> Panic" "same_codec c c1"
      "u = Ok () \<longrightarrow> idle c1 \<and> written (wire c1) = written (wire c) @ settings_encode loc"
    unfolding send_local_settings_def by blast
  obtain b io2 where b: "io_read_exact D 24 (wire c1) = (b, io2)" by fastforce
  note rd = duplex_okD(2) [OF D b]
  let ?c = "c1\<lparr>ci_write := (ci_write c1)\<lparr>fw_inner := io2\<rparr>\<rparr>"
  have c1: "framed_read_ok e (ci_read ?c)" "codec_max_send_frame_size ?c = unat DEFAULT_MAX_FRAME_SIZE"
    using c(3,5) 1(3) by (simp_all add: same_codec_def codec_max_send_frame_size_def)
  have pre: "read_preface D c1 = Some (rbind (map_err (PrefaceIo ''read preface'') b) (\<lambda>buf. if buf \<noteq> PREFACE then Err InvalidPreface else Ok ()), ?c)"
    using b by (simp add: read_preface_def)
  show ?thesis
  proof (cases "u = Ok () \<and> b = Ok PREFACE")
    case True
    with 1(4) have "idle ?c" by (simp add: idle_def)
    from finish_handshake_ok [OF W this c1(1) frames, of H fnv B] obtain r c2 where
      2: "finish_handshake e H fnv W B frames wend ?c = Some (r, c2)" "r \<noteq> Panic"
        "\<And>s. r = Ok s \<Longrightarrow> settings_wf s \<and> idle c2 \<and> written (wire c2) = written (wire ?c) @ settings_encode settings_ack
           \<and> codec_max_send_frame_size c2 = (case s_max_frame_size s of Some v \<Rightarrow> unat v | None \<Rightarrow> codec_max_send_frame_size ?c)" by blast
    have "server_handshake e H fnv delim W D B io loc frames wend = Some (r, Some c2)"
      using c(1) 1(1) pre 2(1) True by (simp add: server_handshake_def hbind_def)
    moreover have "handshake_done written D io Server loc s c2" if "r = Ok s" for s
      using 2(3) [OF that, unfolded c1(2)] 1(4) True rd c(4) b by (auto simp: handshake_done_def)
    ultimately show ?thesis using 2(2) by auto
  next
    case False
    with c(1) 1(1,2) pre rd show ?thesis
      by (cases b; cases u) (auto simp: server_handshake_def hbind_def)
  qed
qed

end
