(* ===== verification/Codec_Example.thy ===== *)
theory Codec_Example
  imports Codec_Roundtrip Instances
begin

text \<open>
  A transport that takes up to five bytes at a time and becomes \<open>Pending\<close> after a number of writes, a
  buffer that grows to what is asked of it, and two new codecs.
\<close>

definition ex_write :: "bytes list \<Rightarrow> bytes \<times> nat \<Rightarrow> (nat, io_kind) result poll \<times> bytes \<times> nat" where
  "ex_write bs io =
     (let n = min 5 (length (concat bs)) in
      if snd io = 0 then (Pending, io) else (Ready (Ok n), fst io @ take n (concat bs), snd io - 1))"

definition ex_transport :: "(bytes \<times> nat) transport" where
  "ex_transport = \<lparr>io_write = ex_write, io_flush = (\<lambda>io. (Ready (Ok ()), io)), io_shutdown = (\<lambda>io. (Ready (Ok ()), io)),
     io_is_write_vectored = (\<lambda>_. True)\<rparr>"

definition ex_buf :: buf_mut where
  "ex_buf = \<lparr>bm_reserve = (\<lambda>cap len n. max cap (len + n)), bm_put = (\<lambda>cap buf bs. max cap (length buf + length bs))\<rparr>"

lemma ex_transport_ok: "transport_ok ex_transport fst snd"
  by (simp add: transport_ok_def ex_transport_def ex_write_def write_ok_def Let_def)

definition ex_writer :: "(bytes, nat, bytes \<times> nat) framed_write" where
  "ex_writer = framed_write_new ex_transport ex_buf ([], 10)"

definition ex_ping :: ping_frame where "ex_ping = ping_new [1, 2, 3, 4, 5, 6, 7, 8]"

lemma ex_writer_run:
  "writer_run ex_ext ex_hmap (\<lambda>_. 7) ex_transport ex_buf ex_writer (ping_encode ex_ping)
     (ex_writer\<lparr>fw_encoder := fe_put ex_buf (ping_encode ex_ping) (fw_encoder ex_writer)\<rparr>)"
proof -
  let ?w = "ex_writer\<lparr>fw_encoder := fe_put ex_buf (ping_encode ex_ping) (fw_encoder ex_writer)\<rparr>"
  let ?f = "FPing ex_ping :: (bytes, nat, (bytes \<times> bytes) list) frame"
  have "fe_next (fw_encoder ex_writer) = None" by (simp add: ex_writer_def framed_write_new_def Let_def)
  moreover have "writable (fw_encoder ex_writer) ?f" by (simp add: writable_def)
  moreover have "fw_buffer ex_ext ex_hmap (\<lambda>_. 7) ex_buf ?f ex_writer = Some (Ok (), ?w)"
    by (simp add: fw_buffer_def fe_buffer_def)
  ultimately have "writer_step ex_ext ex_hmap (\<lambda>_. 7) ex_transport ex_buf ex_writer
      (frame_bytes ex_ext ex_hmap (\<lambda>_. 7) (fw_encoder ex_writer) ?f) ?w"
    by (rule writer_step.accepted)
  from writer_run.step [OF writer_run.start this] show ?thesis by (simp add: frame_bytes_def)
qed

text \<open>A HEADERS frame with a method and a field.\<close>

definition ex_headers :: "(bytes, nat, (bytes \<times> bytes) list) headers_frame" where
  "ex_headers = headers_new ex_hmap 1 (pseudo_default\<lparr>ps_method := Some (str ''GET'')\<rparr>) [(str ''a'', str ''b'')]"

lemma ex_headers_wf: "headers_wf ex_headers"
  by (simp add: headers_wf_def ex_headers_def headers_new_def valid_stream_id_def bit_simps headers_flag_op_defs headers_flag_defs)

lemma ex_headers_sendable: "block_sendable ex_ext ex_hmap 1000 (hf_block ex_headers)"
proof -
  let ?hs = "[Method (str ''GET''), Field (str ''a'') (str ''b'')] :: (bytes, nat, bytes) header list"
  have i: "block_iter ex_hmap (hf_block ex_headers) = Ok ?hs" by code_simp
  have "list_size ex_ext ?hs < 1000" by code_simp
  moreover have "\<forall>f \<in> set (hm_list ex_hmap (hb_fields (hf_block ex_headers))). field_clean ex_ext f" by code_simp
  moreover have "header_wf ex_ext (hd ?hs)" "header_wf ex_ext (Field (str ''a'') (str ''b''))"
    "length (huffman_encode (str '':method'')) < 9" "length (huffman_encode (str ''GET'')) < 9"
    "length (huffman_encode (str ''a'')) < 9" "length (huffman_encode (str ''b'')) < 9"
    "str ''a'' \<noteq> const_header ex_ext ACCEPT_ENCODING" "name_as_slice NMethod = str '':method''"
    "header_value_slice ex_ext (hd ?hs) = str ''GET''" by code_simp+
  ultimately show ?thesis using i
    by (simp add: block_sendable_def sendable_def header_fits_def str_max_def exact_value_def)
qed

end
