(* ===== verification/Handshake_Example.thy ===== *)
theory Handshake_Example
  imports Handshake_Spec Codec_Example
begin

text \<open>
  A transport that takes everything at once, a number of times, and then breaks; it delivers the preface.
\<close>

definition ex_line :: "(bytes \<times> nat) transport" where
  "ex_line = \<lparr>io_write = (\<lambda>bs io. if snd io = 0 then (Ready (Err BrokenPipe), io)
       else (Ready (Ok (length (concat bs))), fst io @ concat bs, snd io - 1)),
     io_flush = (\<lambda>io. (Ready (Ok ()), io)), io_shutdown = (\<lambda>io. (Ready (Ok ()), io)), io_is_write_vectored = (\<lambda>_. True)\<rparr>"

definition ex_duplex :: "(bytes \<times> nat) duplex" where
  "ex_duplex = \<lparr>io_write_all = (\<lambda>bs io. (Ok (), fst io @ bs, snd io)), io_read_exact = (\<lambda>n io. (Ok (take n PREFACE), io))\<rparr>"

lemma ex_line_ok: "transport_ok ex_line fst snd" "patient ex_line (\<lambda>_. 0)"
  by (simp_all add: transport_ok_def patient_def ex_line_def write_ok_def less_patient_def)

lemma ex_duplex_ok: "duplex_ok ex_duplex fst"
  by (simp add: duplex_ok_def ex_duplex_def)

end
