(* ===== verification/Streams_Rounds.thy ===== *)
theory Streams_Rounds
  imports Stream_Inner
begin

text \<open>
  The loops of the streams layer that take streams off a queue carry a bound on their rounds. The bound they are
  given, one more than the length of the queue, plays no part: a larger one gives the same outcome.
\<close>

definition short :: "queue_id \<Rightarrow> nat \<Rightarrow> ('m, 'st, 'h) inner \<Rightarrow> bool" where
  "short q l s \<longleftrightarrow> length (qlist q s) \<le> l"

lemma shortD:
  assumes "\<And>l. keeps (short q l) m" "m s = (r, s')" "r \<noteq> Panic"
  shows "length (qlist q s') \<le> length (qlist q s)"
  using assms(1) [of "length (qlist q s)"] assms(2,3) unfolding keeps_def short_def by (metis fst_conv order_refl snd_conv)

lemma qlist_frame [simp]:
  "qlist q (s\<lparr>i_slab := sl\<rparr>) = qlist q s" "qlist q (s\<lparr>i_ids := ids\<rparr>) = qlist q s" "qlist q (s\<lparr>i_counts := c\<rparr>) = qlist q s"
  by (cases q; simp)+

lemma qlist_set: "qlist p (set_qlist q ks s) = (if p = q then ks else qlist p s)"
  by (cases q; cases p; simp)

lemma the_stream_keeps: "keeps I (the_stream k)"
  by (simp add: keeps_def the_stream_def split: option.split)

lemma short_frames:
  "keeps (short q l) (on_stream k f)" "keeps (short q l) (on_counts g)" "keeps (short q l) (unlink k)"
  by (auto simp: on_stream_def on_counts_def unlink_def short_def intro!: keeps_bnd the_stream_keeps keeps_modify)

lemma short_store_remove: "keeps (short q l) (store_remove k)"
  unfolding store_remove_def
  by (intro keeps_bnd keeps_seq keeps_prims keeps_case_option keeps_modify) (simp_all add: short_def)

lemma short_transition_after: "keeps (short q l) (transition_after k b)"
  unfolding transition_after_def dec_num_reset_streams_def dec_num_streams_def
  by (intro keeps_bnd keeps_seq keeps_if_then keeps_if keeps_prims the_stream_keeps short_frames short_store_remove)

lemma short_transition: "keeps (short q l) m \<Longrightarrow> keeps (short q l) (transition k m)"
  unfolding transition_def by (intro keeps_bnd keeps_seq keeps_attempt keeps_prims the_stream_keeps short_transition_after)

lemma q_pop_shortens:
  assumes "q_pop q s = (Ok (Some k), s')"
  shows "length (qlist q s') < length (qlist q s)" "p \<noteq> q \<Longrightarrow> qlist p s' = qlist p s" "snd_flow (i_send s') = snd_flow (i_send s)"
proof -
  from assms obtain ks st where ks: "qlist q s = k # ks" "deref (i_slab s) k = Some st"
    by (auto simp: q_pop_def act_simps the_stream_def on_stream_def check_def split: list.splits option.splits if_splits)
  with assms have s': "s' = set_qlist q ks (s\<lparr>i_slab := (i_slab s)(key_index k \<mapsto> set_queued q 0 False st)\<rparr>)"
    by (auto simp: q_pop_def act_simps the_stream_def on_stream_def check_def split: if_splits)
  show "length (qlist q s') < length (qlist q s)" "p \<noteq> q \<Longrightarrow> qlist p s' = qlist p s" using s' ks by (simp_all add: qlist_set)
  show "snd_flow (i_send s') = snd_flow (i_send s)" using s' by (cases q) simp_all
qed

text \<open>\<open>while let Some(stream) = queue.pop(store)\<close>, for a body that does not lengthen the queue.\<close>

lemma drain_enough:
  fixes body :: "key \<Rightarrow> ('m, 'st, 'h, unit, 'e) iact"
  assumes "\<And>k l. keeps (short q l) (body k)" "length (qlist q s) < n" "n \<le> m"
  shows "drain_n m q f body s = drain_n n q f body s"
  using assms(2,3)
proof (induction n arbitrary: m s)
  case (Suc n)
  then obtain m' where m: "m = Suc m'" "n \<le> m'" by (cases m) auto
  obtain r :: "(key option, 'e) result" and s1 where pop: "q_pop_if q f s = (r, s1)" by fastforce
  show ?case
  proof (cases "\<exists>k. r = Ok (Some k)")
    case True
    then obtain k where k: "r = Ok (Some k)" by blast
    then have "q_pop q s = (r, s1)"
      using pop by (auto simp: q_pop_if_def act_simps the_stream_def split: list.splits option.splits if_splits)
    with k have l: "length (qlist q s1) < n" using q_pop_shortens(1) Suc.prems(1) by fastforce
    obtain b s2 where body: "body k s1 = (b, s2)" by fastforce
    have "length (qlist q s2) < n" if "b \<noteq> Panic"
      using shortD [OF assms(1) body that] l by simp
    with Suc.IH [OF _ m(2), of s2] show ?thesis using pop k body by (cases b) (simp_all add: m(1) act_simps)
  next
    case False
    with pop show ?thesis by (cases r) (auto simp: m(1) act_simps split: option.split)
  qed
qed simp

text \<open>The queues of the sources that are drained, with bodies that end transitions.\<close>

lemma drain_transitions_enough:
  "length (qlist q s) < n \<Longrightarrow> n \<le> m \<Longrightarrow> drain_n m q f (\<lambda>k. transition_after k b) s = drain_n n q f (\<lambda>k. transition_after k b) s"
  "length (qlist q s) < n \<Longrightarrow> n \<le> m \<Longrightarrow> drain_n m q f (\<lambda>k. transition k (ret ())) s = drain_n n q f (\<lambda>k. transition k (ret ())) s"
  by (intro drain_enough short_transition_after short_transition keeps_prims; assumption)+

text \<open>
  \<open>assign_connection_capacity\<close>: a stream goes back to the queue only when the connection has no window, and then
  the loop has ended.
\<close>

lemma short_q_push: "p \<noteq> q \<Longrightarrow> keeps (short p l) (q_push q now k)"
  unfolding q_push_def
  by (intro keeps_bnd keeps_seq keeps_if keeps_prims keeps_modify the_stream_keeps short_frames) (simp add: short_def qlist_set)

lemma try_assign_short:
  assumes "available (snd_flow (i_send s)) \<noteq> 0" "try_assign_capacity k s = (r, s')" "r \<noteq> Panic"
  shows "length (qlist QCapacity s') \<le> length (qlist QCapacity s)"
proof -
  have keep: "keeps (short QCapacity l) (on_send (\<lambda>sn. case dec_window a (snd_flow sn) of Ok fl \<Rightarrow> sn\<lparr>snd_flow := fl\<rparr> | _ \<Rightarrow> sn))" for l a
    by (auto simp: on_send_def short_def intro!: keeps_modify split: result.split)
  define share :: "('a, 'b, 'c) stream \<Rightarrow> nat \<Rightarrow> ('a, 'b, 'c, unit, 'd) iact" where
    "share = (\<lambda>st rem0.
       let rem = (if snd_spa_tracker (i_send s) \<noteq> None then rem0 - 1 else rem0);
           allocated = min (min (available (snd_flow (i_send s))) (available (st_send_flow st))) (word_of_nat rem) in
       seq (q_push QSend 0 k)
       (if allocated = 0 then ret ()
        else
          seq (check (unat (st_connection_window_allocated st) + unat allocated < 2 ^ 32))
          (seq (on_stream k (\<lambda>x. x\<lparr>st_connection_window_allocated := st_connection_window_allocated x + allocated\<rparr>))
               (on_send (\<lambda>sn. case dec_window allocated (snd_flow sn) of Ok fl \<Rightarrow> sn\<lparr>snd_flow := fl\<rparr> | _ \<Rightarrow> sn)))))"
  have keeps: "keeps (short QCapacity l) (share st rem0)" for l st rem0
    unfolding share_def Let_def by (intro keeps_seq keeps_if keeps_prims short_q_push short_frames keep) simp
  have "length (qlist QCapacity s2) \<le> length (qlist QCapacity s)" if "share st rem0 s = (a, s2)" "a \<noteq> Panic" for st rem0 a s2
    using shortD [OF keeps that] .
  moreover have "try_assign_capacity k s = (case deref (i_slab s) k of
      None \<Rightarrow> (Panic, s)
    | Some st \<Rightarrow>
        if available (st_send_flow st) = 0 then (Ok (), s)
        else (case st_remaining_data_len st of None \<Rightarrow> (Ok (), s) | Some rem0 \<Rightarrow> share st rem0 s))"
    using assms(1) unfolding share_def
    by (simp add: try_assign_capacity_def bnd_apply the_stream_def Let_def split: option.split)
  ultimately show ?thesis
    using assms(2,3) by (auto dest: sym split: option.splits if_splits)
qed

lemma assign_round_short:
  fixes r :: "(unit, 'e) result"
  assumes "available (snd_flow (i_send s)) \<noteq> 0" "transition k (try_assign_capacity k) s = (r, s')" "r \<noteq> Panic"
  shows "length (qlist QCapacity s') \<le> length (qlist QCapacity s)"
proof -
  obtain a :: "(unit, 'e) result" and s1 where t: "try_assign_capacity k s = (a, s1)" by fastforce
  with assms have a: "a \<noteq> Panic" by (auto simp: transition_def act_simps the_stream_def split: option.splits)
  note t1 = try_assign_short [OF assms(1) t a]
  from assms(2,3) t a obtain b and u :: "(unit, 'e) result" where "transition_after k b s1 = (u, s')" "u \<noteq> Panic"
    by (auto simp: transition_def act_simps the_stream_def split: option.splits result.splits prod.splits)
  from shortD [OF short_transition_after this] t1 show ?thesis by (rule order_trans)
qed

lemma assign_enough:
  assumes "length (qlist QCapacity s) < n" "n \<le> m"
  shows "(assign_connection_capacity_n m s :: (unit, 'e) result \<times> _) = assign_connection_capacity_n n s"
  using assms
proof (induction n arbitrary: m s)
  case (Suc n)
  then obtain m' where m: "m = Suc m'" "n \<le> m'" by (cases m) auto
  show ?case
  proof (cases "available (snd_flow (i_send s)) = 0")
    case True
    then show ?thesis by (simp add: m(1) act_simps)
  next
    case False
    obtain r :: "(key option, 'e) result" and s1 where pop: "q_pop QCapacity s = (r, s1)" by fastforce
    show ?thesis
    proof (cases "\<exists>k. r = Ok (Some k)")
      case True
      then obtain k where k: "r = Ok (Some k)" by blast
      note sh = q_pop_shortens [OF pop [unfolded k]]
      show ?thesis
      proof (cases "deref (i_slab s1) k")
        case None
        with pop k False show ?thesis by (simp add: m(1) act_simps the_stream_def)
      next
        case (Some st)
        let ?body = "if_then (is_send_streaming (st_state st) \<and> st_remaining_data_len st \<noteq> None) (transition k (try_assign_capacity k))"
        obtain b :: "(unit, 'e) result" and s2 where body: "?body s1 = (b, s2)" by fastforce
        have "length (qlist QCapacity s2) < n" if "b \<noteq> Panic"
        proof -
          have "available (snd_flow (i_send s1)) \<noteq> 0" using False sh(3) by simp
          with assign_round_short [of s1 k b s2] body that have "length (qlist QCapacity s2) \<le> length (qlist QCapacity s1)"
            by (auto simp: if_then_def split: if_splits)
          with sh(1) Suc.prems(1) show ?thesis by simp
        qed
        with Suc.IH [OF _ m(2), of s2] pop k False Some body show ?thesis
          by (cases b) (simp_all add: m(1) act_simps the_stream_def)
      qed
    next
      case none: False
      with pop False show ?thesis by (cases r) (auto simp: m(1) act_simps split: option.split)
    qed
  qed
qed simp

end
