(* ===== verification/Spec2Isabelle.thy ===== *)
theory Spec2Isabelle
  imports Huffman Hpack_Codec Instances Stream_State Flow_Control Stream_Buffer Store_Queue Proto_Control
    Connection_Example Handshake_Example Streams_Rounds
begin

text \<open>
  A verification development of \<open>two-plz\<close>, an HTTP/2 library in Rust (sources under \<open>src/src\<close>).

  The library has four layers. HPACK (\<open>hpack/\<close>) turns header lists into bytes and back. The frame layer
  (\<open>frame/\<close>, \<open>codec/\<close>) parses and writes HTTP/2 frames and assembles header blocks from HEADERS and
  CONTINUATION. The streams layer (\<open>proto/streams/\<close>) keeps a state machine, flow control windows and
  queues for every stream and the counters over all of them. The connection (\<open>proto/\<close>) drives them all
  and handles SETTINGS, PING and GOAWAY.

  Which theory models what:

  \<^item> \<open>Prelude\<close>, \<open>Effects\<close>, \<open>Error_Types\<close>, \<open>Instances\<close>: outcomes (\<open>Ok\<close>, \<open>Err\<close>, and \<open>Panic\<close> for a failed
    assertion, an unwrap or an overflow), byte strings, stateful actions with their proof rules, the error
    types of \<open>codec/error.rs\<close> and \<open>proto/error.rs\<close>, orders on the model's types.
  \<^item> \<open>Huffman_Table\<close>, \<open>Huffman_Check\<close>, \<open>Huffman\<close>: \<open>hpack/huffman/\<close>. \<open>Hpack_Int\<close>, \<open>Hpack_Header\<close>,
    \<open>Hpack_Decoder\<close>, \<open>Hpack_Encoder\<close>, \<open>Hpack_Resume\<close>: \<open>hpack/decoder.rs\<close>, \<open>hpack/header.rs\<close>, the
    representations of \<open>hpack/encoder.rs\<close> and the static table of \<open>hpack/table.rs\<close>.
  \<^item> \<open>Robin_Hood\<close>: the array of positions of \<open>hpack/table.rs\<close> on its own, its order, and that removal, insertion
    and growth keep it. \<open>Hpack_Table\<close>: the encoder's table. \<open>Hpack_Table_Inv\<close>, \<open>Hpack_Table_Spec\<close>: its invariant
    (the array finds the oldest header of every name, the slots of a name are linked up to the newest) and that it
    refines a list of headers. \<open>Hpack_Codec\<close>: \<open>Encoder\<close>, over a locale that states what it relies on of its
    table, interpreted by \<open>htable_index\<close> and \<open>htable_resize\<close>, and its blocks read by the decoder. The hash function
    is a parameter; a probing loop that never ended would be \<open>None\<close>, and none is.
  \<^item> \<open>Frame_Head\<close>, \<open>Frame_Control\<close>, \<open>Frame_Settings\<close>, \<open>Frame_Headers\<close>: the frames of \<open>frame/\<close>.
    \<open>Framed_Read\<close>: \<open>codec/framed_read.rs\<close>. \<open>Framed_Write\<close>: \<open>codec/framed_write.rs\<close>, over a transport and the
    capacity of a buffer as parameters. \<open>Framed_Write_Spec\<close>: the writer as a queue of bytes. \<open>Codec\<close>:
    \<open>codec/mod.rs\<close>. \<open>Codec_Roundtrip\<close>: what one codec buffers, another reads. \<open>Codec_Example\<close>: concrete codecs.
  \<^item> \<open>Stream_State\<close>, \<open>Flow_Control\<close>, \<open>Stream_Buffer\<close>, \<open>Store_Queue\<close>: \<open>state.rs\<close>, \<open>flow_control.rs\<close>,
    \<open>buffer.rs\<close> and \<open>store/\<close> of \<open>proto/streams/\<close>, each on its own.
  \<^item> \<open>Proto_Control\<close>: \<open>proto/settings.rs\<close>, \<open>proto/ping_pong.rs\<close>, \<open>proto/go_away.rs\<close>. \<open>Messages\<close>: \<open>message.rs\<close>,
    \<open>role.rs\<close>.
  \<^item> \<open>Streams_Base\<close>, \<open>Stream_Send\<close>, \<open>Stream_Recv\<close>, \<open>Stream_Inner\<close>, \<open>Streams_Api\<close>: the streams layer as a
    whole, one action per method (\<open>stream.rs\<close>, \<open>counts.rs\<close>, \<open>send.rs\<close>, \<open>recv.rs\<close>, \<open>action.rs\<close>, \<open>inner.rs\<close>,
    \<open>streams.rs\<close>, \<open>opaque_streams_ref.rs\<close>, \<open>streams_ref.rs\<close>). \<open>Stream_Spa\<close>: \<open>spa.rs\<close>, the frames that are held
    back to go out together.
  \<^item> \<open>Streams_Inv\<close>, \<open>Streams_Keeps\<close>, \<open>Streams_Reach\<close>, \<open>Streams_Calls\<close>: the invariant of the streams layer and
    that every operation keeps it. \<open>Streams_Loop\<close>: loops over the store reach every stream. \<open>Streams_Limits\<close>: the
    configured limits stay. \<open>Streams_Run\<close>: the layer as a system of calls, its reachable states and their
    invariant. \<open>Streams_Example\<close>: a concrete run.
    \<open>Streams_Rounds\<close>: the bounds of the loops over queues.
  \<^item> \<open>Handshake\<close>: \<open>builder.rs\<close>, \<open>preface/mod.rs\<close> and the options of \<open>client.rs\<close> and \<open>server.rs\<close>.
    \<open>Handshake_Spec\<close>: what a handshake writes and returns. \<open>Handshake_Example\<close>: a concrete transport.
  \<^item> \<open>Connection\<close>: \<open>proto/connection.rs\<close>. \<open>Connection_Run\<close>: the connection as a system; what it does to its
    streams is a run of \<open>Streams_Run\<close>, its poll loop ends, and how it closes. \<open>Connection_Example\<close>: a concrete
    connection.

  Loops whose end is not structural carry a bound: \<open>poll2_n_enough\<close> and \<open>poll_enough\<close> show for the loops of the
  connection that a larger bound changes nothing, \<open>drain_enough\<close> and \<open>assign_enough\<close> for the loops over queues. The
  loops of the HPACK table, of \<open>flush\<close> and of the handshake have none: \<open>None\<close> stands for their not ending, and the
  theorems show that they return.

  Not modelled: logging, \<open>Debug\<close> and \<open>Display\<close> printing, \<open>Waker\<close>s beyond the order in which they are woken, the
  transport and the \<open>tokio\<close> adapters around it, and the methods of \<open>client.rs\<close> and \<open>server.rs\<close> that only call a
  method of the connection or of a stream. The connection sees the codec by its answers and the frames it buffers
  (theory \<open>Connection\<close>); theory \<open>Codec\<close> is what stands behind them. Types and functions of other crates (\<open>http-plz\<close>,
  \<open>header-plz\<close>, \<open>slab\<close>, \<open>indexmap\<close>) are parameters.
\<close>

section \<open>HPACK\<close>

text \<open>
  C1: Huffman coding is lossless: decoding the output of the encoder returns the encoded bytes,
  appended to whatever the output buffer already held, and leaves the buffer empty.
\<close>

theorem huffman_lossless: "huffman_decode (huffman_encode src) buf = (Ok (buf @ src), [])"
  by (rule huffman_roundtrip)

text \<open>
  C2: The Huffman decoder accepts exactly the strings RFC 7541 allows, the codes of some bytes followed
  by fewer than eight one bits, and returns exactly those bytes.
\<close>

theorem huffman_decode_exact:
  "fst (huffman_decode src []) = Ok out \<longleftrightarrow>
     (\<exists>pad < 8. bytes_bits src = huff_codes out @ replicate pad True)"
  by (auto simp: huffman_decode_iff)

text \<open>
  C3: HPACK integers: what \<open>encode_int\<close> writes is read back by \<open>decode_int\<close>, with the bytes behind it
  left over, for every value the five byte limit admits; a larger value is refused as an overflow.
\<close>

theorem hpack_int_exact:
  assumes "1 \<le> p" "p \<le> 8" "first AND int_mask p = 0"
  shows "if v < 2 ^ p - 1 + 2 ^ 28 then decode_int (encode_int v p first @ rest) p = (Ok v, rest)
    else fst (decode_int (encode_int v p first @ rest) p) = Err IntegerOverflow"
  using decode_int_encode [OF assms, of v rest] decode_int_overflow [OF assms, of v rest] by simp

theorem hpack_int_exact_witness: "decode_int (encode_int 1337 5 0x20 @ [7]) 5 = (Ok 1337, [7])"
  using hpack_int_exact [of 5 "0x20" 1337 "[7]"] by (simp add: int_mask_def)

text \<open>
  C4: On every input the HPACK decoder returns without a panic and with its dynamic table in order: its
  recorded size is the sum of its entries' and within its maximum. On success it has read everything.
\<close>

theorem hpack_decode_safe:
  assumes "dtable_ok e (dec_table d)" "decode e d \<lparr>c_pos = 0, c_inner = src\<rparr> = (r, hs, (d', c'))"
  shows "r \<noteq> Panic \<and> dtable_ok e (dec_table d') \<and> (r = Ok () \<longrightarrow> cursor_rest c' = [])
    \<and> length (c_inner c') \<le> length src"
proof -
  let ?c = "\<lparr>c_pos = 0, c_inner = src\<rparr>"
  have c: "cursor_ok ?c" by (simp add: cursor_ok_def)
  have loop: "decode_loop e True [] (decoder_start d) ?c = (r, hs, (d', c'))"
    using assms(2) by (simp add: decode_def decoder_start_def Let_def)
  show ?thesis using decode_loop_safe [OF c _ loop] decode_loop_shrinks [OF loop] assms(1) by simp
qed

theorem hpack_decode_safe_witness:
  "\<exists>r hs d' c'. decode ex_ext (hpack_decoder_new 4096) \<lparr>c_pos = 0, c_inner = [0x82, 0x41, 0x05]\<rparr> = (r, hs, (d', c'))
     \<and> r \<noteq> Panic \<and> dtable_ok ex_ext (dec_table d')"
proof -
  obtain r hs d' c' where run: "decode ex_ext (hpack_decoder_new 4096) \<lparr>c_pos = 0, c_inner = [0x82, 0x41, 0x05]\<rparr> = (r, hs, (d', c'))"
    by (metis prod.exhaust)
  have "dtable_ok ex_ext (dec_table (hpack_decoder_new 4096))" by (simp add: hpack_decoder_new_def dtable_new_ok)
  from hpack_decode_safe [OF this run] run show ?thesis by blast
qed

text \<open>
  C5: A header the encoder writes, for an index that is right about the decoder's table, is read back as
  that header; the table changes exactly as the index says.
\<close>

theorem hpack_header_roundtrip:
  assumes "index_sound e (dec_table d) slots index h" "header_wf e h" "header_fits e h" "dec_buffer d = []"
  shows "\<exists>out. encode_header e slots index dst = Ok (dst @ out) \<and> out \<noteq> []
    \<and> decode_one e cr (hd out) (d, \<lparr>c_pos = 0, c_inner = out @ rest\<rparr>) = (Ok (False, Some h),
      (if index_inserts index then d\<lparr>dec_table := dtable_insert e h (dec_table d)\<rparr> else d,
       \<lparr>c_pos = 0, c_inner = rest\<rparr>))"
proof (intro exI conjI)
  show "encode_header e slots index dst = Ok (dst @ header_bytes e index h)"
    using encode_header_bytes [OF assms(1,3)] .
  show "header_bytes e index h \<noteq> []" by (simp add: header_bytes_def Let_def split: table_index.split)
  show "decode_one e cr (hd (header_bytes e index h)) (d, \<lparr>c_pos = 0, c_inner = header_bytes e index h @ rest\<rparr>)
      = (Ok (False, Some h), (if index_inserts index then d\<lparr>dec_table := dtable_insert e h (dec_table d)\<rparr> else d,
         \<lparr>c_pos = 0, c_inner = rest\<rparr>))"
    by (rule decode_one_header [OF assms(1-3)]) (simp_all add: assms(4) cursor_ok_def cursor_rest_def)
qed

theorem hpack_header_roundtrip_witness:
  "\<exists>out. encode_header ex_ext [Field (str ''a'') (str ''b'')] (IdxInserted 0) [] = Ok out
     \<and> fst (decode_one ex_ext True (hd out) (hpack_decoder_new 4096, \<lparr>c_pos = 0, c_inner = out\<rparr>))
       = Ok (False, Some (Field (str ''a'') (str ''b'')))"
proof -
  have s: "index_sound ex_ext (dec_table (hpack_decoder_new 4096)) [Field (str ''a'') (str ''b'')] (IdxInserted 0)
      (Field (str ''a'') (str ''b''))" by (simp add: index_sound_def header_is_sensitive_def)
  have w: "header_wf ex_ext (Field (str ''a'') (str ''b''))" by code_simp
  have "length (huffman_encode (str ''a'')) < 9" "length (huffman_encode (str ''b'')) < 9" by code_simp+
  then have f: "header_fits ex_ext (Field (str ''a'') (str ''b''))" by (simp add: header_fits_def str_max_def)
  have b: "dec_buffer (hpack_decoder_new 4096) = []" by (simp add: hpack_decoder_new_def)
  from hpack_header_roundtrip [OF s w f b, of "[]" True "[]"] show ?thesis by fastforce
qed

text \<open>
  C6: Queued changes of the encoder's table size: however many limits the peer sets between two header
  blocks, at most two size updates are sent, the last is the final limit and none misses the minimum.
\<close>

theorem size_updates_minimal:
  assumes "queue_wf m q"
  shows "last (m # size_updates (update_max_size m v q)) = v
    \<and> length (size_updates (update_max_size m v q)) \<le> 2
    \<and> fold min (size_updates (update_max_size m v q)) m = fold min (size_updates q @ [v]) m"
  using update_max_size_last [OF assms] update_max_size_min [OF assms] by simp

theorem size_updates_minimal_witness:
  "size_updates (update_max_size 4096 2000 (update_max_size 4096 100 None)) = [100, 2000]
   \<and> fold min (size_updates (update_max_size 4096 2000 (Some (SizeUpdateOne 100)))) 4096 = 100"
  using size_updates_minimal [of 4096 "Some (SizeUpdateOne 100)" 2000]
  by (simp add: queue_wf_def update_max_size_def size_updates_def)

text \<open>
  C35: The encoder's table, a robin-hood array of positions over a deque of slots linked by name, behaves as a
  list of headers. Whatever sequence of lookups and resizes it sees, no debug assertion, index or unwrap fails,
  every probing loop ends, and the answers and the stored headers are those of the list: a header that is in it
  is found, another one is put in front and the oldest headers that do not fit any more leave.
\<close>

theorem header_table_refines_list:
  assumes "mx < 2 ^ 32" "cap \<le> 2 ^ 30" "\<forall>n. CallResize n \<in> set cs \<longrightarrow> n < 2 ^ 32"
  shows "\<exists>is T. run_table e fnv cs (htable_new mx cap) = okay (is, T) \<and> (is, headers T) = spec_run e mx cs []
    \<and> hsizes e (headers T) \<le> tb_max_size T"
proof -
  note new = htable_new_ok [OF assms(1,2) refl]
  from run_table_ok [OF new(1) assms(3), of e fnv] obtain "is" T where
    "run_table e fnv cs (htable_new mx cap) = okay (is, T)" "(is, headers T) = spec_run e mx cs []" "htable_ok e fnv T"
    by (auto simp: new(2,3))
  then show ?thesis by (auto simp: htable_ok_def)
qed

theorem header_table_refines_list_witness:
  "\<exists>is T. run_table ex_ext (\<lambda>_. 7)
      [CallIndex (Field (str ''a'') (str ''b'')), CallIndex (Field (str ''a'') (str ''c'')), CallIndex (Field (str ''a'') (str ''b'')),
       CallResize 40] (htable_new 4096 0) = okay (is, T)
    \<and> is = [IdxInserted 0, IdxInsertedValue 62 0, IdxIndexed 63 (Field (str ''a'') (str ''b''))]
    \<and> headers T = [Field (str ''a'') (str ''c'')]"
proof -
  let ?b = "Field (str ''a'') (str ''b'') :: (bytes, nat, bytes) header" and ?c = "Field (str ''a'') (str ''c'') :: (bytes, nat, bytes) header"
  let ?cs = "[CallIndex ?b, CallIndex ?c, CallIndex ?b, CallResize 40]"
  have "spec_run ex_ext 4096 ?cs [] = ([IdxInserted 0, IdxInsertedValue 62 0, IdxIndexed 63 ?b], [?c])" by code_simp
  with header_table_refines_list [of 4096 0 ?cs ex_ext "\<lambda>_. 7"] show ?thesis by auto
qed



section \<open>Frames and the codec\<close>

text \<open>
  C7: Every frame without a header block that the library writes is read back as it was written, by a
  reader that is not in the middle of a header block, and does not change the reader.
\<close>

theorem frame_roundtrip:
  assumes "frame_wf f" "frame_encode f = Some bs" "fr_partial fr = None"
  shows "decode_frame e H bs fr = (Ok (Some f), fr)"
  using assms by (rule decode_frame_encode)

theorem frame_roundtrip_witness:
  "decode_frame ex_ext ex_hmap (go_away_encode \<lparr>ga_last_stream_id = 5, ga_error_code = ENHANCE_YOUR_CALM, ga_debug_data = [1, 2]\<rparr>)
     ex_reader = (Ok (Some (FGoAway \<lparr>ga_last_stream_id = 5, ga_error_code = ENHANCE_YOUR_CALM, ga_debug_data = [1, 2]\<rparr>)), ex_reader)"
  by (rule frame_roundtrip)
    (simp_all add: valid_stream_id_def ex_reader_def bit_simps)



text \<open>
  C9: A HEADERS block that does not fit one frame is written as HEADERS and CONTINUATION frames, each
  within the limit and with its true length; only the last has END_HEADERS and together they carry the
  block unchanged. The loop that writes them ends for every limit that leaves room for a byte.
\<close>

theorem header_frames_exact:
  assumes "HEADER_LEN + length extra < limit" "limit - HEADER_LEN < 2 ^ 24"
    "flag_is_end_headers (h_flag hd0)" "valid_stream_id (h_stream_id hd0)"
  shows "\<exists>fs. header_frames hd0 limit extra hpack = Some (Ok fs) \<and> fs \<noteq> []
    \<and> concat (map frame_payload fs) = extra @ hpack
    \<and> (\<forall>f \<in> set fs. frame_len f = length (frame_payload f) \<and> length f \<le> limit
         \<and> h_stream_id (frame_head f) = h_stream_id hd0)
    \<and> h_kind (frame_head (hd fs)) = h_kind hd0
    \<and> (\<forall>f \<in> set (tl fs). h_kind (frame_head f) = KContinuation)
    \<and> flag_is_end_headers (h_flag (frame_head (last fs)))
    \<and> (\<forall>f \<in> set (butlast fs). \<not> flag_is_end_headers (h_flag (frame_head f)))"
proof -
  have len: "length f \<le> limit" if "length (frame_payload f) \<le> limit - HEADER_LEN" "9 \<le> length f" for f
    using that assms(1) by (simp add: frame_payload_def HEADER_LEN_def)
  from header_frames_spec [OF assms, of hpack] show ?thesis using len by blast
qed

theorem header_frames_exact_witness:
  "\<exists>fs. header_frames (head_new KHeaders END_HEADERS 1) 11 [] [1, 2, 3] = Some (Ok fs)
     \<and> concat (map frame_payload fs) = [1, 2, 3]"
  using header_frames_exact [of "[]" 11 "head_new KHeaders END_HEADERS 1" "[1, 2, 3]"]
  by (auto simp: HEADER_LEN_def head_new_def flag_is_end_headers_def valid_stream_id_def bit_simps)



text \<open>
  C11: A flood of CONTINUATION frames is cut off: as long as no frame is delivered and no error raised
  after a HEADERS frame without END_HEADERS, the number of frames that followed is within the limit, and
  the bytes kept for the block are at most what that many frames can carry.
\<close>

theorem continuation_flood_bounded:
  assumes "fr_partial fr = Some pt" "pt_continuation_frames_count pt = 0" "length (pt_buf pt) \<le> F"
    "\<forall>bs \<in> set fs. length bs \<le> HEADER_LEN + F" "dtable_ok e (dec_table (fr_hpack fr))"
    "poll_next e H fs fr = (Ok None, [], fr')"
  shows "length fs \<le> fr_max_continuation_frames fr
    \<and> (\<exists>pt'. fr_partial fr' = Some pt' \<and> length (pt_buf pt') \<le> (fr_max_continuation_frames fr + 1) * F)"
  using continuation_bound [OF assms(1) _ assms(5) _ _ assms(6), of F] assms(2-4) by simp

theorem continuation_flood_bounded_witness:
  "\<exists>fr'. poll_next ex_ext ex_hmap [[0, 0, 1, 9, 0, 0, 0, 0, 1, 0x84]]
       (ex_reader\<lparr>fr_partial := Some \<lparr>pt_frame = CHeaders \<lparr>hf_stream_id = 1, hf_stream_dep = None,
          hf_block = empty_block ex_hmap, hf_flags = 0\<rparr>, pt_buf = [], pt_continuation_frames_count = 0\<rparr>\<rparr>)
     = (Ok None, [], fr') \<and> (\<exists>pt'. fr_partial fr' = Some pt' \<and> length (pt_buf pt') \<le> 6)"
proof -
  let ?fr = "ex_reader\<lparr>fr_partial := Some \<lparr>pt_frame = CHeaders \<lparr>hf_stream_id = 1, hf_stream_dep = None,
          hf_block = empty_block ex_hmap, hf_flags = 0\<rparr>, pt_buf = [], pt_continuation_frames_count = 0\<rparr>\<rparr>"
  have "case poll_next ex_ext ex_hmap [[0, 0, 1, 9, 0, 0, 0, 0, 1, 0x84]] ?fr of (Ok None, [], _) \<Rightarrow> True | _ \<Rightarrow> False"
    by code_simp
  then obtain fr' where run: "poll_next ex_ext ex_hmap [[0, 0, 1, 9, 0, 0, 0, 0, 1, 0x84]] ?fr = (Ok None, [], fr')"
    by (auto split: prod.splits result.splits option.splits list.splits)
  have ok: "dtable_ok ex_ext (dec_table (fr_hpack ?fr))"
    by (simp add: ex_reader_def hpack_decoder_new_def dtable_new_ok)
  from continuation_flood_bounded [OF _ _ _ _ ok run, of _ 1] run show ?thesis
    by (simp add: HEADER_LEN_def ex_reader_def)
qed

text \<open>
  C12: The pseudo headers and fields of a block, written in the order \<open>Iter\<close> gives them and read back one
  by one, make up the same block, if no field is connection-specific and the list is below the limit.
\<close>

theorem header_list_roundtrip:
  assumes "hmap_ok H" "block_iter H b = Ok hs" "\<forall>f \<in> set (hm_list H (hb_fields b)). field_clean e f"
    "list_size e hs < m"
  shows "let s = fold (load_header e H m) hs (load_start H) in
    \<not> bl_malformed s \<and> \<not> hb_is_over_size (bl_block s) \<and> hb_pseudo (bl_block s) = hb_pseudo b
    \<and> hm_list H (hb_fields (bl_block s)) = hm_list H (hb_fields b)"
  using load_block_iter [OF assms] by (simp add: Let_def)

theorem header_list_roundtrip_witness:
  "hm_list ex_hmap (hb_fields (bl_block (fold (load_header ex_ext ex_hmap 1000)
     [Method (str ''GET''), Field (str ''a'') (str ''b'')] (load_start ex_hmap)))) = [(str ''a'', str ''b'')]"
proof -
  let ?b = "\<lparr>hb_fields = [(str ''a'', str ''b'')], hb_field_size = 34, hb_is_over_size = False,
    hb_pseudo = pseudo_default\<lparr>ps_method := Some (str ''GET'')\<rparr>\<rparr>"
  let ?hs = "[Method (str ''GET''), Field (str ''a'') (str ''b'')] :: (bytes, nat, bytes) header list"
  have i: "block_iter ex_hmap ?b = Ok ?hs" by code_simp
  have c: "\<forall>f \<in> set (hm_list ex_hmap (hb_fields ?b)). field_clean ex_ext f" by code_simp
  have l: "list_size ex_ext ?hs < 1000" by code_simp
  from header_list_roundtrip [OF ex_hmap_ok i c l] show ?thesis by (simp add: Let_def ex_hmap_def)
qed

text \<open>
  C37: The writer is a queue of bytes. After any sequence of calls, what the transport has taken and what is still
  to be written are, together and in order, the frames that were accepted, a DATA frame with its payload behind its
  head and a header block with its CONTINUATION frames next to each other. Flushing does not panic, returns if the
  transport does not take bytes for ever, and has written everything when it reports success.
\<close>

theorem writer_refines_queue:
  assumes "transport_ok W written budget" "writer_run e H fnv W B (framed_write_new W B io) bs w"
  shows "\<exists>r w'. fw_flush W B w = Some (r, w') \<and> r \<noteq> Ready Panic
    \<and> written (fw_inner w') @ fe_pending (fw_encoder w') = written io @ bs
    \<and> (r = Ready (Ok ()) \<longrightarrow> written (fw_inner w') = written io @ bs)"
proof -
  have w: "written (fw_inner w) @ fe_pending (fw_encoder w) = written io @ bs" "encoder_ok (fw_encoder w)"
    using writer_run_ok [OF assms framed_write_new_ok(1)] by (simp_all add: framed_write_new_ok)
  from fw_flush_ok [OF assms(1) w(2), of B] w(1) show ?thesis by (auto simp: fe_pending_flushed)
qed

theorem writer_refines_queue_witness:
  "\<exists>w r w'. writer_run ex_ext ex_hmap (\<lambda>_. 7) ex_transport ex_buf ex_writer (ping_encode ex_ping) w
    \<and> fw_flush ex_transport ex_buf w = Some (r, w')
    \<and> fst (fw_inner w') @ fe_pending (fw_encoder w') = ping_encode ex_ping"
proof -
  let ?w = "ex_writer\<lparr>fw_encoder := fe_put ex_buf (ping_encode ex_ping) (fw_encoder ex_writer)\<rparr>"
  from writer_refines_queue [OF ex_transport_ok ex_writer_run [unfolded ex_writer_def]] obtain r w' where
    "fw_flush ex_transport ex_buf ?w = Some (r, w')" "fst (fw_inner w') @ fe_pending (fw_encoder w') = ping_encode ex_ping"
    by (auto simp: ex_writer_def)
  with ex_writer_run show ?thesis by blast
qed





text \<open>
  C13: A SETTINGS payload that loads has only values the protocol allows: ENABLE_PUSH and
  ENABLE_CONNECT_PROTOCOL are 0 or 1, windows are below \<open>2\<^sup>3\<^sup>1\<close> and frame sizes in their range.
\<close>

theorem settings_load_valid:
  assumes "settings_load hd0 payload = Ok s"
  shows "settings_wf s"
  using assms by (rule settings_load_wf)

theorem settings_load_valid_witness:
  "\<exists>s. settings_load (head_new KSettings 0 0) [0, 4, 0, 1, 0, 0] = Ok s \<and> settings_wf s"
proof -
  have six: "6 dvd Suc (Suc (Suc (Suc (Suc (Suc 0)))))" by (rule dvdI [of _ _ 1]) simp
  have "case settings_load (head_new KSettings 0 0) [0, 4, 0, 1, 0, 0] of Ok _ \<Rightarrow> True | _ \<Rightarrow> False"
    by (simp add: settings_load_def head_new_def stream_id_is_zero_def settings_flags_load_def settings_flags_is_ack_def
        SETTINGS_ACK_def SETTINGS_ALL_def chunks.simps setting_load_def be16_def unpack_octets_4_def be32_def
        setting_from_id_def settings_apply_def MAX_INITIAL_WINDOW_SIZE_def Let_def six)
  then obtain s where "settings_load (head_new KSettings 0 0) [0, 4, 0, 1, 0, 0] = Ok s" by (auto split: result.splits)
  with settings_load_valid [OF this] show ?thesis by blast
qed

text \<open>
  C14: \<open>parse_u64\<close> accepts exactly the strings of at most 19 digits and returns the number they denote; no
  digit string overflows.
\<close>

theorem parse_u64_exact:
  "parse_u64 src = Ok n \<longleftrightarrow> length src \<le> 19 \<and> list_all is_digit src \<and> unat n = digits_value src"
  by (simp add: parse_u64_spec(1) list_all_iff)

text \<open>
  C15: The successor of a stream identifier is two higher and of the same initiator, and there is none at
  the end of the identifier space: the addition never wraps.
\<close>

theorem next_id_exact:
  assumes "valid_stream_id sid"
  shows "case next_id sid of
      Some n \<Rightarrow> valid_stream_id n \<and> uint n = uint sid + 2
        \<and> is_server_initiated n = (sid = 0 \<or> is_server_initiated sid) \<and> is_client_initiated n = is_client_initiated sid
    | None \<Rightarrow> 2 ^ 31 - 2 \<le> uint sid"
proof (cases "next_id sid")
  case None
  then show ?thesis using next_id_None [OF assms] by simp
next
  case (Some n)
  note n = next_id_Some [OF assms Some]
  have eq: "n = sid + 2" using Some by (auto simp: next_id_def Let_def split: if_splits)
  have "n \<noteq> 0"
  proof
    assume "n = 0"
    with n have "uint sid = - 2" by simp
    moreover have "0 \<le> uint sid" by simp
    ultimately show False by linarith
  qed
  then show ?thesis using Some n
    by (auto simp: is_server_initiated_def is_client_initiated_def mod_2_eq_odd eq)
qed

theorem next_id_exact_witness: "next_id 1 = Some 3 \<and> is_client_initiated 3"
proof -
  have "valid_stream_id 1" by (simp add: valid_stream_id_def bit_simps)
  moreover have n: "next_id 1 = Some 3" by (simp add: next_id_def STREAM_ID_MAX_def mask_eq_exp_minus_1)
  ultimately show ?thesis using next_id_exact [of 1] by (simp add: is_client_initiated_def)
qed

section \<open>Streams\<close>



text \<open>
  C17: On a stream, DATA and trailers are accepted only after the final headers of the message, and no part
  of a message is accepted after its end.
\<close>

theorem stream_message_order:
  assumes "stream_run Idle (es1 @ ev # es2) s"
  shows "(receives_body ev \<longrightarrow> (\<exists>h \<in> set es1. receives_final_headers h))
    \<and> (receives_end ev \<longrightarrow> \<not> (\<exists>ev' \<in> set es2. receives_message ev'))"
  using assms by (rule stream_run_order)

theorem stream_message_order_witness:
  "\<exists>h \<in> set [SendHeaders True, RecvHeaders False False]. receives_final_headers h"
proof -
  have "stream_run Idle [] Idle" by (rule stream_run_Nil)
  then have "stream_run Idle ([] @ [SendHeaders True]) (HalfClosedLocal AwaitingHeaders)"
    by (rule stream_run_snoc) simp
  then have "stream_run Idle (([] @ [SendHeaders True]) @ [RecvHeaders False False]) (HalfClosedLocal Streaming)"
    by (rule stream_run_snoc) auto
  then have "stream_run Idle ((([] @ [SendHeaders True]) @ [RecvHeaders False False]) @ [RecvData True]) (Closed EndStream)"
    by (rule stream_run_snoc) simp
  then have "stream_run Idle ([SendHeaders True, RecvHeaders False False] @ RecvData True # []) (Closed EndStream)" by simp
  from stream_message_order [OF this] show ?thesis by simp
qed

text \<open>C18: An endpoint ends its side of a stream at most once.\<close>

theorem stream_end_once:
  assumes "stream_run Idle es s"
  shows "length (filter sends_end es) \<le> 1"
  using stream_run_sends_end [OF assms] by (simp add: send_done_def)

theorem stream_end_once_witness: "length (filter sends_end [SendHeaders True]) \<le> 1"
proof -
  have "stream_run Idle [] Idle" by (rule stream_run_Nil)
  then have "stream_run Idle ([] @ [SendHeaders True]) (HalfClosedLocal AwaitingHeaders)"
    by (rule stream_run_snoc) simp
  from stream_end_once [OF this] show ?thesis by simp
qed

text \<open>
  C19: Flow-control windows count exactly in 32 bits: increasing and decreasing by any size below \<open>2\<^sup>3\<^sup>1\<close>
  changes the window by that size, without a panic, and is refused exactly when the result would not be
  representable.
\<close>

theorem flow_window_exact:
  assumes "unat sz < 2 ^ 31"
  shows "(case dec_window sz f of
        Ok f' \<Rightarrow> win f' = win f - int (unat sz) \<and> fc_capacity f' = fc_capacity f
      | Err er \<Rightarrow> win f - int (unat sz) < - (2 ^ 31)
      | Panic \<Rightarrow> False)
    \<and> (case inc_window sz f of
        Ok f' \<Rightarrow> win f' = win f + int (unat sz) \<and> fc_capacity f' = fc_capacity f
      | Err er \<Rightarrow> win f + int (unat sz) > 2 ^ 31 - 1
      | Panic \<Rightarrow> False)"
  using dec_window_spec [OF assms, of f] inc_window_spec [OF assms, of f]
  by (auto split: result.split)

theorem flow_window_exact_witness:
  "case inc_window 10 (flow_control_new 65535) of Ok f' \<Rightarrow> win f' = 65545 | _ \<Rightarrow> False"
proof -
  have "win (flow_control_new 65535) = 65535" by (simp add: win_def flow_control_new_def)
  moreover have "\<exists>f'. inc_window 10 (flow_control_new 65535) = Ok f'"
    by (simp add: inc_window_def increase_by_def flow_control_new_def i32_fits_def MAX_WINDOW_SIZE_def)
  ultimately show ?thesis using flow_window_exact [of 10 "flow_control_new 65535"] by auto
qed

text \<open>
  C20: When the receiver decides to send a WINDOW_UPDATE, the increment is at least half of the capacity and
  puts the window back to the capacity exactly; it stays silent only while less than half is unclaimed.
\<close>

theorem window_update_restores:
  assumes "0 \<le> win f" "0 \<le> sint (fc_capacity f)"
  shows "case should_send_window_update f of
      Ok (Some n) \<Rightarrow> sint (fc_capacity f) div 2 \<le> int (unat n) \<and> 0 < unat n
        \<and> (\<exists>f'. inc_window n f = Ok f' \<and> fc_window f' = fc_capacity f)
    | Ok None \<Rightarrow> win f \<ge> sint (fc_capacity f) \<or> sint (fc_capacity f) - win f < sint (fc_capacity f) div 2
    | _ \<Rightarrow> False"
proof (cases "should_send_window_update f")
  case (Ok r)
  then show ?thesis using should_send_window_update_spec [OF assms] by (cases r) auto
next
  case (Err er)
  then show ?thesis by (auto simp: should_send_window_update_def Let_def split: if_splits)
next
  case Panic
  then show ?thesis using should_send_window_update_spec(1) [OF assms] by simp
qed

theorem window_update_restores_witness:
  "\<exists>n f'. should_send_window_update (flow_control_new 100 \<lparr>fc_window := 40\<rparr>) = Ok (Some n)
     \<and> inc_window n (flow_control_new 100 \<lparr>fc_window := 40\<rparr>) = Ok f' \<and> win f' = 100"
proof -
  let ?f = "flow_control_new 100 \<lparr>fc_window := 40\<rparr>"
  have "win ?f = 40" "sint (fc_capacity ?f) = 100" by (simp_all add: win_def flow_control_new_def)
  moreover obtain n where "should_send_window_update ?f = Ok (Some n)"
    by (simp add: should_send_window_update_def flow_control_new_def i32_fits_def UNCLAIMED_NUMERATOR_def
        UNCLAIMED_DENOMINATOR_def Let_def)
  ultimately show ?thesis using window_update_restores [of ?f] by (auto simp: win_def)
qed

text \<open>
  C21: The deques that share one slab are queues: any sequence of pushes at either end and pops, on any of
  them, returns what it would on separate lists, and never panics, whatever vacant keys the slab picks.
\<close>

theorem deques_refine_lists:
  assumes "vacant_ok vacant" "family_rep deque_rep ds buf xss"
  shows "\<exists>ds' buf'. buf_exec (deque_push_back vacant) (deque_push_front vacant) deque_pop_front ops (ds, buf)
      = Ok (fst (list_exec ops xss), ds', buf') \<and> family_rep deque_rep ds' buf' (snd (list_exec ops xss))"
  using slab_choice.deques_exec [OF slab_choice.intro [OF assms(1)] assms(2)] .

theorem deques_refine_lists_witness:
  "\<exists>ds' buf'. buf_exec (deque_push_back lowest_vacant) (deque_push_front lowest_vacant) deque_pop_front
     [PushBack 0 (7 :: nat), PushBack 1 8, PushFront 0 9, PopFront 0, PopFront 1, PopFront 0]
     (\<lambda>_. deque_new, buffer_new) = Ok ([Some 9, Some 8, Some 7], ds', buf')"
  using deques_refine_lists [OF lowest_vacant_ok family_rep_new,
      of "[PushBack 0 (7 :: nat), PushBack 1 8, PushFront 0 9, PopFront 0, PopFront 1, PopFront 0]"]
  by auto

text \<open>
  C22: The six queues threaded through the streams of the store are lists of keys: each push, push in front
  and pop does to its queue what the list operation does, leaves the other queues alone, and panics
  exactly when a stream would be both waiting to open and waiting to send.
\<close>

theorem queues_refine_lists:
  assumes "queues_rep (Q, slab) qs" "op_valid slab op"
  shows "case abs_queue_step op qs of
      Ok (r, qs') \<Rightarrow> \<exists>Q' slab'. queue_step op (Q, slab) = Ok (r, Q', slab') \<and> queues_rep (Q', slab') qs'
    | Err e \<Rightarrow> False
    | Panic \<Rightarrow> queue_step op (Q, slab) = Panic"
  using assms by (rule queue_step_refines)

theorem queues_refine_lists_witness:
  "\<exists>Q' slab'. queue_step (QPush 0 QSend \<lparr>key_index = 0, key_stream_id = 1\<rparr>)
      (\<lambda>_. queue_new, [0 \<mapsto> \<lparr>sl_id = 1, next_pending_send = None, is_pending_send = False,
         next_pending_send_capacity = None, is_pending_send_capacity = False, next_open = None,
         is_pending_open = False, next_pending_accept = None, is_pending_accept = False,
         next_pending_complete = None, is_pending_complete = False, reset_at = None, next_reset_expire = None\<rparr>])
    = Ok (Pushed True, Q', slab')"
proof -
  let ?k = "\<lparr>key_index = 0, key_stream_id = 1\<rparr>"
  let ?slab = "[0 \<mapsto> \<lparr>sl_id = 1, next_pending_send = None, is_pending_send = False,
         next_pending_send_capacity = None, is_pending_send_capacity = False, next_open = None,
         is_pending_open = False, next_pending_accept = None, is_pending_accept = False,
         next_pending_complete = None, is_pending_complete = False, reset_at = None, next_reset_expire = None\<rparr>] :: slab"
  have "queue_rep (link_of 0 i) ?slab queue_new []" for i
    by (cases i) (auto simp: queue_rep_def queue_new_def link_defs store_index_def split: if_splits)
  then have "queues_rep (\<lambda>_. queue_new, ?slab) (\<lambda>_. [])" by (simp add: queues_rep_def)
  moreover have "op_valid ?slab (QPush 0 QSend ?k)" by (simp add: valid_key_def store_index_def)
  ultimately show ?thesis using queues_refine_lists [of "\<lambda>_. queue_new" ?slab "\<lambda>_. []" "QPush 0 QSend ?k"]
    by (auto simp: q_guard_def)
qed

section \<open>The connection\<close>



text \<open>C24: The last stream identifier of the GOAWAY frames a connection sends never increases.\<close>

theorem go_away_never_increases:
  assumes "go_away_run written h"
  shows "sorted_wrt (\<lambda>f g. ga_last_stream_id g \<le> ga_last_stream_id f) written"
  using go_away_run_inv [OF assms] by (simp add: go_away_inv_def sorted_wrt_append)

theorem go_away_never_increases_witness:
  "\<exists>written h. go_away_run written h \<and> length written = 1
     \<and> sorted_wrt (\<lambda>f g. ga_last_stream_id g \<le> ga_last_stream_id f) written"
proof -
  let ?f = "go_away_new 7 NO_ERROR"
  obtain h1 where "enqueue_go_away ?f go_away_handler_new = Ok h1" "gh_pending h1 = Some ?f"
    by (auto simp: enqueue_go_away_def go_away_handler_new_def)
  then have 1: "go_away_run [] h1" "gh_pending h1 = Some ?f" using gr_enqueue [OF gr_init] by auto
  obtain r h2 where "send_pending_go_away True h1 = (r, [CfGoAway ?f], h2)"
    using 1(2) by (auto simp: send_pending_go_away_def Let_def)
  from gr_send [OF 1(1) this] have run: "go_away_run [?f] h2" by simp
  from go_away_never_increases [OF run] run show ?thesis by (intro exI [of _ "[?f]"]) auto
qed



section \<open>The streams of a connection\<close>

text \<open>
  C26: However the peer and the application act, the streams the peer has open or half closed are at most as
  many as the server announced in MAX_CONCURRENT_STREAMS.
\<close>

theorem peer_streams_bounded:
  assumes "pick_ok pick" "streams_reach e H W pick r cfg cs s"
  shows "card {i. \<exists>st. i_slab s i = Some st \<and> \<not> local_stream r st \<and> is_active (st_state st)}
    \<le> max_streams_of (cfg_local_settings cfg)"
proof -
  have inv: "inv_with 0 {} {} s" by (rule streams_reach_inv [OF assms])
  have lim: "c_role (i_counts s) = r" "max_recv_streams (i_counts s) = max_streams_of (cfg_local_settings cfg)"
    using streams_reach_limits [OF assms(2)] by (simp_all add: limits_def counts_new_def)
  have "counted_streams r False (i_slab s) \<subseteq> dom (i_slab s)" "finite (dom (i_slab s))"
    using inv by (auto simp: counted_streams_def inv_with_def inv_but_def inv_core_def)
  then have "finite (counted_streams r False (i_slab s))" by (rule finite_subset)
  then have "card {i. \<exists>st. i_slab s i = Some st \<and> \<not> local_stream r st \<and> is_active (st_state st)}
      \<le> card (counted_streams r False (i_slab s))"
    using inv lim(1) by (intro card_mono) (auto simp: counted_streams_def inv_with_def inv_but_def inv_core_def stream_ok_def)
  then show ?thesis using inv lim by (simp add: inv_with_def inv_but_def inv_core_def counts_ok_def)
qed

theorem peer_streams_bounded_witness:
  "i_ids ex_open = [(1, 0)] \<and>
   card {i. \<exists>st. i_slab ex_open i = Some st \<and> \<not> local_stream Server st \<and> is_active (st_state st)} \<le> 2"
  using peer_streams_bounded [OF lowest_free_ok ex_open_reach]
  by (simp add: ex_open_facts ex_cfg_def max_streams_of_def)

text \<open>
  C27: The streams kept for a locally sent reset, the resets of the peer that are counted and the resets sent
  for its errors never exceed the limits the connection was configured with.
\<close>

theorem resets_bounded:
  assumes "pick_ok pick" "streams_reach e H W pick r cfg cs s"
  shows "length (qlist QResetExpire s) \<le> cfg_local_reset_stream_max cfg
    \<and> num_remote_reset_streams (i_counts s) \<le> cfg_remote_reset_stream_max cfg
    \<and> (\<forall>m. cfg_local_max_error_reset_streams cfg = Some m \<longrightarrow> num_local_error_reset_streams (i_counts s) \<le> m)"
  using streams_reach_inv [OF assms] streams_reach_limits [OF assms(2)]
  by (simp add: inv_with_def inv_but_def inv_core_def counts_ok_def limits_def counts_new_def)

theorem resets_bounded_witness:
  "length (qlist QResetExpire ex_open) \<le> 4 \<and> num_remote_reset_streams (i_counts ex_open) \<le> 4
    \<and> num_local_error_reset_streams (i_counts ex_open) \<le> 8"
  using resets_bounded [OF lowest_free_ok ex_open_reach] by (simp add: ex_cfg_def)

text \<open>
  C28: In every reachable state the store is consistent: the index maps distinct stream identifiers to live
  slots of those streams, each queue holds exactly the streams that are flagged as queued, each once, and no
  stream is left idle.
\<close>

theorem store_consistent:
  assumes "pick_ok pick" "streams_reach e H W pick r cfg cs s"
  shows "distinct (map fst (i_ids s))
    \<and> (\<forall>(sid, i) \<in> set (i_ids s). \<exists>st. i_slab s i = Some st \<and> st_id st = sid)
    \<and> (\<forall>q. distinct (map key_index (qlist q s))
         \<and> key_index ` set (qlist q s) = {i. \<exists>st. i_slab s i = Some st \<and> queued q st})
    \<and> (\<forall>i st. i_slab s i = Some st \<longrightarrow> is_active (st_state st) \<or> is_closed (st_state st))"
proof -
  have inv: "inv_core 0 {} (i_counts s) (i_slab s) (i_ids s) (\<lambda>q. qlist q s)"
    using streams_reach_inv [OF assms] by (simp add: inv_with_def inv_but_def)
  have "key_index ` set (qlist q s) = {i. \<exists>st. i_slab s i = Some st \<and> queued q st}" for q
    using inv by (fastforce simp: inv_core_def queue_ok_def deref_Some)
  then show ?thesis using inv by (simp add: inv_core_def queue_ok_def ids_ok_def opened_def)
qed

theorem store_consistent_witness:
  "i_ids ex_open = [(1, 0)] \<and> (\<exists>st. i_slab ex_open 0 = Some st \<and> st_id st = 1)"
  using store_consistent [OF lowest_free_ok ex_open_reach] by (simp add: ex_open_facts)



text \<open>
  C30: A connection error reaches every stream: after \<open>handle_error\<close> each stream that was linked is closed or
  gone; so it is after the end of the transport; and after a GOAWAY each stream above its last stream
  identifier.
\<close>

theorem connection_error_ends_streams:
  assumes "pick_ok pick" "streams_reach e H W pick r cfg cs s" "(sid, x) \<in> set (i_ids s)"
  shows "(inner_handle_error er s = (Ok lp :: (stream_id, unit) result, s1) \<longrightarrow> ended x s1)
    \<and> (inner_recv_eof b s = (Ok () :: (unit, unit) result, s2) \<longrightarrow> ended x s2)
    \<and> (inner_recv_go_away f s = (Ok (), s3) \<and> sid > ga_last_stream_id f \<longrightarrow> ended x s3)"
proof (intro conjI impI)
  note d = inv_ids_distinct [OF streams_reach_inv [OF assms(1,2)]]
  show "ended x s1" if "inner_handle_error er s = (Ok lp :: (stream_id, unit) result, s1)"
    using inner_handle_error_ends [OF that d assms(3)] .
  show "ended x s2" if "inner_recv_eof b s = (Ok () :: (unit, unit) result, s2)"
    using inner_recv_eof_ends [OF that d assms(3)] .
  show "ended x s3" if "inner_recv_go_away f s = (Ok (), s3) \<and> sid > ga_last_stream_id f"
    using inner_recv_go_away_ends [OF _ d assms(3)] that by blast
qed

theorem connection_error_ends_streams_witness:
  "\<exists>lp s'. inner_handle_error (library_go_away PROTOCOL_ERROR) ex_open = (Ok lp :: (stream_id, unit) result, s') \<and> ended 0 s'"
proof -
  obtain lp s' where h: "inner_handle_error (library_go_away PROTOCOL_ERROR) ex_open = (Ok lp :: (stream_id, unit) result, s')"
    using ex_open_error by blast
  have "(1, 0) \<in> set (i_ids ex_open)" by (simp add: ex_open_facts)
  from connection_error_ends_streams [OF lowest_free_ok ex_open_reach this, of "library_go_away PROTOCOL_ERROR" lp s'] h
  show ?thesis by blast
qed



section \<open>The connection and its streams\<close>

text \<open>
  C31: Whatever a connection does, in any order of polls, arriving frames and calls of the application, its
  streams are in a state that a run of calls on the streams layer leads to, from the state the connection
  began with. As long as the store stays below \<open>2 ^ 32\<close> streams, that is a run as in C26 to C30.
\<close>

theorem connection_runs_streams:
  assumes "conn_reach e H W pick nonce r cfg codec c"
  shows "\<exists>cs ss. calls_run e H W pick (inner_new r (fst (first_ping nonce cfg))) cs ss (cn_streams c)
    \<and> (list_all store_small ss \<longrightarrow> streams_reach e H W pick r (fst (first_ping nonce cfg)) cs (cn_streams c))"
  using conn_reach_ok [OF assms] by (auto simp: conn_ok_def on_path_def intro: calls_run_reach)

theorem connection_runs_streams_witness:
  "\<exists>cs ss. calls_run ex_ext ex_hmap ex_http lowest_free (inner_new Server ex_cfg) cs ss (cn_streams ex_closing)"
  using connection_runs_streams [OF ex_closing_reach] by (auto simp: first_ping_def ex_cfg_def)



text \<open>C33: A connection that was told to close at once reads no further frame, whatever has arrived.\<close>

theorem closing_reads_nothing:
  assumes "conn_reach e H W pick nonce r cfg codec c" "gh_close_now (cn_goaway c)" "poll2 e H W pick now w c = (res, c')"
  shows "cd_frames (cn_codec c') = cd_frames (cn_codec c)"
  using poll2_closing_reads_nothing [OF assms(2) _ assms(3)] conn_reach_ok [OF assms(1)] by (simp add: conn_ok_def)

theorem closing_reads_nothing_witness:
  "cd_frames (cn_codec (snd (poll2 ex_ext ex_hmap ex_http lowest_free 0 0
     (ex_closing\<lparr>cn_codec := (cn_codec ex_closing)\<lparr>cd_frames := [[7]], cd_end := WireEof, cd_ready := [], cd_rounds := []\<rparr>\<rparr>)))) = [[7]]"
proof -
  let ?c = "ex_closing\<lparr>cn_codec := (cn_codec ex_closing)\<lparr>cd_frames := [[7]], cd_end := WireEof, cd_ready := [], cd_rounds := []\<rparr>\<rparr>"
  have "cd_frames (cn_codec ex_closing) = []" by (simp add: ex_closing_def ex_conn_def connection_new_def ex_codec_def)
  with conn_reach.wire [where fs = "[[7]]" and en = WireEof and bs = "[]" and rs = "[]", OF ex_closing_reach]
  have reach: "conn_reach ex_ext ex_hmap ex_http lowest_free [] Server ex_cfg ex_codec ?c" by simp
  have cl: "gh_close_now (cn_goaway ?c)" by (simp add: ex_closing_def)
  obtain res c' where run: "poll2 ex_ext ex_hmap ex_http lowest_free 0 0 ?c = (res, c')" by (metis surj_pair)
  from closing_reads_nothing [OF reach cl run] run show ?thesis by simp
qed



end
